(* ===== verification/Prelude.thy ===== *)
theory Prelude
  imports Main "HOL-Library.Word"
begin

unbundle bit_operations_syntax

text \<open>
  What every component shares: bytes and their big- and little-endian encodings, Go's
  buffered channels with a non-blocking send, Go's integer division, the lemma collections
  of the development and generic facts on lists, maps and words.
\<close>

section \<open>Names and collections\<close>

type_synonym byte = "8 word"
type_synonym bytes = "byte list"

named_theorems wire_simps \<open>facts that compute encodings and decodings of byte strings\<close>
named_theorems chan_simps \<open>facts on buffered channels\<close>

section \<open>Platforms\<close>

text \<open>
  The platforms the build tags of the agent tell apart; on Windows the argument is the build tag \<open>h265\<close>.
\<close>

datatype platform = Windows bool | Darwin | Linux | OtherOS

fun is_windows :: "platform \<Rightarrow> bool" where
  "is_windows (Windows tag) = True"
| "is_windows p = False"

section \<open>Lists and maps\<close>

lemma take_append_exact: "length xs = n \<Longrightarrow> take n (xs @ ys) = xs"
  by simp

lemma drop_append_exact: "length xs = n \<Longrightarrow> drop n (xs @ ys) = ys"
  by simp

lemmas append_exact [wire_simps] = take_append_exact drop_append_exact

lemma list_all_takeWhile_all: "list_all P xs \<Longrightarrow> takeWhile P xs = xs"
  by (induction xs) auto

lemma takeWhile_append_stop:
  "list_all P xs \<Longrightarrow> \<not> P y \<Longrightarrow> takeWhile P (xs @ y # ys) = xs"
  by (induction xs) auto

lemma dropWhile_append_stop:
  "list_all P xs \<Longrightarrow> \<not> P y \<Longrightarrow> dropWhile P (xs @ y # ys) = y # ys"
  by (induction xs) auto

lemma dom_upd_None: "dom (m(k := None)) = dom m - {k}"
  by auto

lemma card_dom_insert_le: "finite (dom m) \<Longrightarrow> card (dom (m(k \<mapsto> v))) \<le> Suc (card (dom m))"
  by (simp add: card_insert_if)

section \<open>Go's integer division and shifts\<close>

text \<open>Go's \<open>/\<close> on signed integers truncates towards zero.\<close>

definition go_div :: "int \<Rightarrow> int \<Rightarrow> int" where
  "go_div a b = (if (a < 0) = (b < 0) then \<bar>a\<bar> div \<bar>b\<bar> else - (\<bar>a\<bar> div \<bar>b\<bar>))"

lemma go_div_nonneg [simp]: "0 \<le> a \<Longrightarrow> 0 < b \<Longrightarrow> go_div a b = a div b"
  by (simp add: go_div_def)

text \<open>The value of a C \<open>int\<close> after the two's complement wrap-around of 32 bits.\<close>

definition wrap32 :: "int \<Rightarrow> int" where
  "wrap32 x = sint (word_of_int x :: 32 word)"

lemma wrap32_id: "- (2 ^ 31) \<le> x \<Longrightarrow> x < 2 ^ 31 \<Longrightarrow> wrap32 x = x"
  unfolding wrap32_def by (simp add: sint_sbintrunc' signed_take_bit_int_eq_self)

section \<open>Byte encodings of numbers\<close>

fun be_bytes :: "nat \<Rightarrow> nat \<Rightarrow> bytes" where
  "be_bytes 0 n = []"
| "be_bytes (Suc k) n = of_nat (n div 256 ^ k) # be_bytes k n"

definition be_nat :: "bytes \<Rightarrow> nat" where
  "be_nat bs = foldl (\<lambda>a b. 256 * a + unat b) 0 bs"

fun le_bytes :: "nat \<Rightarrow> nat \<Rightarrow> bytes" where
  "le_bytes 0 n = []"
| "le_bytes (Suc k) n = of_nat n # le_bytes k (n div 256)"

fun le_nat :: "bytes \<Rightarrow> nat" where
  "le_nat [] = 0"
| "le_nat (b # bs) = unat b + 256 * le_nat bs"

lemma unat_of_nat_byte [wire_simps]: "unat (of_nat n :: byte) = n mod 256"
  by (simp add: unat_of_nat)

lemma unat_byte_less [simp]: "unat (b :: byte) < 256"
  using unsigned_less [of b, where ?'a = nat] by simp

lemma length_be_bytes [simp, wire_simps]: "length (be_bytes k n) = k"
  by (induction k) auto

lemma length_le_bytes [simp, wire_simps]: "length (le_bytes k n) = k"
  by (induction k arbitrary: n) auto

lemma foldl_be_bytes:
  "foldl (\<lambda>a b. 256 * a + unat b) a (be_bytes k n) = a * 256 ^ k + n mod 256 ^ k"
proof (induction k arbitrary: a)
  case 0
  show ?case by simp
next
  case (Suc k)
  have "n mod 256 ^ Suc k = 256 ^ k * (n div 256 ^ k mod 256) + n mod 256 ^ k"
    using mod_mult2_eq [of n "256 ^ k" 256] by (simp add: mult.commute)
  moreover have "foldl (\<lambda>a b. 256 * a + unat b) a (be_bytes (Suc k) n)
      = (256 * a + n div 256 ^ k mod 256) * 256 ^ k + n mod 256 ^ k"
    by (simp add: Suc.IH wire_simps)
  ultimately show ?case by (simp add: distrib_right distrib_left ac_simps)
qed

lemma be_nat_be_bytes [wire_simps]: "be_nat (be_bytes k n) = n mod 256 ^ k"
  by (simp add: be_nat_def foldl_be_bytes)

lemma be_nat_Cons: "be_nat (b # bs) = unat b * 256 ^ length bs + be_nat bs"
proof -
  have step: "foldl (\<lambda>a b. 256 * a + unat b) a bs = a * 256 ^ length bs + foldl (\<lambda>a b. 256 * a + unat b) 0 bs" for a
  proof (induction bs arbitrary: a)
    case Nil
    show ?case by simp
  next
    case (Cons b bs)
    let ?f = "\<lambda>a b. 256 * a + unat b"
    have "foldl ?f a (b # bs) = (256 * a + unat b) * 256 ^ length bs + foldl ?f 0 bs"
      by (simp only: foldl_Cons Cons.IH [of "256 * a + unat b"])
    moreover have "foldl ?f 0 (b # bs) = unat b * 256 ^ length bs + foldl ?f 0 bs"
      by (simp only: foldl_Cons mult_0_right add_0_left Cons.IH [of "unat b"])
    moreover have "(256 * a + u) * p + x = a * (256 * p) + (u * p + x)" for u p x :: nat
      by (simp add: distrib_right)
    ultimately show ?case by (simp only: length_Cons power_Suc)
  qed
  show ?thesis using step [of "unat b"] by (simp add: be_nat_def)
qed

lemma be_nat_bound: "be_nat bs < 256 ^ length bs"
proof (induction bs)
  case Nil
  show ?case by (simp add: be_nat_def)
next
  case (Cons b bs)
  have "unat b * 256 ^ length bs + be_nat bs < Suc (unat b) * 256 ^ length bs" using Cons.IH by simp
  also have "\<dots> \<le> 256 * 256 ^ length bs" by (intro mult_le_mono1 Suc_leI unat_byte_less)
  finally show ?case by (simp add: be_nat_Cons)
qed

lemma be_bytes_add: "be_bytes k (a * 256 ^ k + n) = be_bytes k n"
proof (induction k arbitrary: a)
  case 0
  show ?case by simp
next
  case (Suc k)
  have eq: "a * 256 ^ Suc k + n = (a * 256) * 256 ^ k + n" by (simp add: ac_simps)
  have "(of_nat (((a * 256) * 256 ^ k + n) div 256 ^ k) :: byte) = of_nat (n div 256 ^ k)"
  proof -
    have z: "(256 :: byte) = 0" by simp
    show ?thesis by (subst div_mult_self3) (simp_all add: z)
  qed
  then show ?case unfolding eq using Suc.IH [of "a * 256"] by simp
qed

lemma be_bytes_be_nat: "length bs = k \<Longrightarrow> be_bytes k (be_nat bs) = bs"
proof (induction bs arbitrary: k)
  case Nil
  then show ?case by simp
next
  case (Cons b bs)
  then show ?case using be_nat_bound [of bs] by (auto simp: be_nat_Cons be_bytes_add)
qed

lemma le_nat_le_bytes [wire_simps]: "le_nat (le_bytes k n) = n mod 256 ^ k"
proof (induction k arbitrary: n)
  case 0
  show ?case by simp
next
  case (Suc k)
  show ?case using mod_mult2_eq [of n 256 "256 ^ k"] by (simp add: Suc.IH wire_simps)
qed

lemma le_nat_bound: "le_nat bs < 256 ^ length bs"
proof (induction bs)
  case Nil
  show ?case by simp
next
  case (Cons b bs)
  have "unat b + 256 * le_nat bs < 256 * Suc (le_nat bs)"
    using unat_byte_less [of b] by simp
  also have "\<dots> \<le> 256 * 256 ^ length bs" using Cons.IH by (intro mult_le_mono2) simp
  finally show ?case by simp
qed

section \<open>Buffered channels\<close>

text \<open>
  A Go channel \<open>make(chan T, cap)\<close> is the list of its buffered values, oldest first.
  \<open>select { case ch <- x: default: }\<close> is \<open>try_send\<close>: it never blocks and drops the
  value when the buffer is full.
\<close>

definition try_send :: "nat \<Rightarrow> 'a list \<Rightarrow> 'a \<Rightarrow> 'a list" where
  "try_send cap ch x = (if length ch < cap then ch @ [x] else ch)"

lemma try_send_bound [chan_simps]: "length ch \<le> cap \<Longrightarrow> length (try_send cap ch x) \<le> cap"
  by (simp add: try_send_def)

lemma try_send_prefix: "\<exists>ys. try_send cap ch x = ch @ ys \<and> length ys \<le> 1"
  by (auto simp: try_send_def)

lemma nth_update_if: "xs[i := x] ! j = (if j = i \<and> i < length xs then x else xs ! j)"
  by (cases "i < length xs") (auto simp: list_update_beyond)

end
