(* ===== verification/Framing.thy ===== *)
theory Framing
  imports Prelude
begin

text \<open>
  Reading from a byte stream (package \<open>io\<close>) and the contract of a framing: an encoder of
  messages and a decoder that takes one message off the front of a stream. The WebSocket frames
  and the two pipe formats of the agent are framings; their theories interpret the locale.
\<close>

section \<open>Reading from a stream\<close>

text \<open>
  A reader is the list of the bytes that are still to come before the end of the stream.
  \<open>Panic\<close> is a run-time panic (a slice of impossible size), \<open>Oversized\<close> the size check of
  \<open>pipeRecv\<close>.
\<close>

datatype read_err = EOF | UnexpectedEOF | Oversized nat | Panic

text \<open>\<open>io.ReadFull\<close>: \<open>EOF\<close> when nothing was read, \<open>UnexpectedEOF\<close> after a partial read.\<close>

definition read_full :: "nat \<Rightarrow> bytes \<Rightarrow> read_err + (bytes \<times> bytes)" where
  "read_full n bs =
     (if n = 0 then Inr ([], bs)
      else if bs = [] then Inl EOF
      else if length bs < n then Inl UnexpectedEOF
      else Inr (take n bs, drop n bs))"

text \<open>\<open>make([]byte, n)\<close> panics when \<open>n\<close> is above the largest allocation of the run time.\<close>

definition make_bytes :: "nat \<Rightarrow> nat \<Rightarrow> read_err + unit" where
  "make_bytes max_alloc n = (if max_alloc < n then Inl Panic else Inr ())"

definition read_byte :: "bytes \<Rightarrow> read_err + (byte \<times> bytes)" where
  "read_byte bs = (case bs of [] \<Rightarrow> Inl EOF | b # rest \<Rightarrow> Inr (b, rest))"

definition bind_res :: "'e + 'a \<Rightarrow> ('a \<Rightarrow> 'e + 'b) \<Rightarrow> 'e + 'b" where
  "bind_res r k = (case r of Inl e \<Rightarrow> Inl e | Inr x \<Rightarrow> k x)"

lemma bind_res_simps [simp]: "bind_res (Inl e) k = Inl e" "bind_res (Inr x) k = k x"
  by (simp_all add: bind_res_def)

lemma bind_res_Inr_iff: "bind_res r k = Inr y \<longleftrightarrow> (\<exists>x. r = Inr x \<and> k x = Inr y)"
  by (cases r) auto

lemma read_full_append [wire_simps]: "length xs = n \<Longrightarrow> read_full n (xs @ rest) = Inr (xs, rest)"
  by (auto simp: read_full_def)

lemma read_full_extend:
  "read_full n bs = Inr (xs, rest) \<Longrightarrow> read_full n (bs @ more) = Inr (xs, rest @ more)"
  by (auto simp: read_full_def split: if_splits)

lemma read_byte_extend:
  "read_byte bs = Inr (b, rest) \<Longrightarrow> read_byte (bs @ more) = Inr (b, rest @ more)"
  by (auto simp: read_byte_def split: list.splits)

lemma read_full_Inr: "read_full n bs = Inr (xs, rest) \<Longrightarrow> bs = xs @ rest \<and> length xs = n"
  by (auto simp: read_full_def split: if_splits)

lemma read_full_short: "length bs < n \<Longrightarrow> \<exists>e. read_full n bs = Inl e"
  by (auto simp: read_full_def)

lemma read_byte_Cons [wire_simps]: "read_byte (b # rest) = Inr (b, rest)"
  by (simp add: read_byte_def)

lemma read_byte_Inr: "read_byte bs = Inr (b, rest) \<Longrightarrow> bs = b # rest"
  by (simp add: read_byte_def split: list.splits)

definition res_opt :: "'e + 'a \<Rightarrow> 'a option" where
  "res_opt r = (case r of Inl e \<Rightarrow> None | Inr x \<Rightarrow> Some x)"

lemma res_opt_simps [simp]: "res_opt (Inl e) = None" "res_opt (Inr x) = Some x"
  by (simp_all add: res_opt_def)

lemma res_opt_Some: "res_opt r = Some x \<longleftrightarrow> r = Inr x"
  by (cases r) auto

section \<open>The read loop\<close>

text \<open>
  The loops \<open>for { f, err := ReadFrame(); if err != nil { return }; ... }\<close> of the program: the
  messages delivered until the first error. The fuel is the length of the stream; every message
  takes at least one byte, so it is enough.
\<close>

fun read_loop :: "(bytes \<Rightarrow> ('m \<times> bytes) option) \<Rightarrow> nat \<Rightarrow> bytes \<Rightarrow> 'm list" where
  "read_loop dec 0 bs = []"
| "read_loop dec (Suc fuel) bs =
     (case dec bs of None \<Rightarrow> [] | Some (m, rest) \<Rightarrow> m # read_loop dec fuel rest)"

section \<open>The contract of a framing\<close>

text \<open>
  \<open>enc k m\<close> is the encoding of the message \<open>m\<close> with the nonce \<open>k\<close> (the masking key of a
  WebSocket frame; the pipes have none), \<open>ok k m\<close> the messages the format can carry.
\<close>

locale framing =
  fixes enc :: "'k \<Rightarrow> 'm \<Rightarrow> bytes"
    and dec :: "bytes \<Rightarrow> ('m \<times> bytes) option"
    and ok :: "'k \<Rightarrow> 'm \<Rightarrow> bool"
  assumes dec_enc: "ok k m \<Longrightarrow> dec (enc k m @ rest) = Some (m, rest)"
    and dec_Nil: "dec [] = None"
    and dec_shorter: "dec bs = Some (m, rest) \<Longrightarrow> length rest < length bs"
    and dec_extend: "dec bs = Some (m, rest) \<Longrightarrow> dec (bs @ more) = Some (m, rest @ more)"
begin

definition stream :: "('k \<times> 'm) list \<Rightarrow> bytes" where
  "stream kms = concat (map (\<lambda>(k, m). enc k m) kms)"

lemma enc_ne: "ok k m \<Longrightarrow> enc k m \<noteq> []"
  using dec_enc [of k m "[]"] dec_Nil by auto

lemma enc_length: "ok k m \<Longrightarrow> 1 \<le> length (enc k m)"
  using enc_ne [of k m] by (cases "enc k m") auto

text \<open>No message is the beginning of another: the stream has one reading.\<close>

lemma prefix_free:
  "ok k m \<Longrightarrow> ok k' m' \<Longrightarrow> enc k m @ r = enc k' m' @ r' \<Longrightarrow> m = m' \<and> r = r'"
  using dec_enc [of k m r] dec_enc [of k' m' r'] by simp

text \<open>A frame cut short is an error, never another message.\<close>

lemma truncated:
  assumes "ok k m" "n < length (enc k m)"
  shows "dec (take n (enc k m)) = None"
proof (rule ccontr)
  assume "dec (take n (enc k m)) \<noteq> None"
  then obtain m' rest where "dec (take n (enc k m)) = Some (m', rest)" by auto
  then have "dec (enc k m) = Some (m', rest @ drop n (enc k m))"
    using dec_extend [of "take n (enc k m)" m' rest "drop n (enc k m)"] by simp
  moreover have "dec (enc k m) = Some (m, [])" using dec_enc [OF assms(1), of "[]"] by simp
  ultimately show False using assms(2) by simp
qed

lemma read_loop_stream:
  assumes "list_all (\<lambda>(k, m). ok k m) kms" "length (stream kms) \<le> fuel"
  shows "read_loop dec fuel (stream kms) = map snd kms"
  using assms
proof (induction kms arbitrary: fuel)
  case Nil
  then show ?case by (cases fuel) (auto simp: stream_def dec_Nil)
next
  case (Cons km kms)
  obtain k m where km: "km = (k, m)" by (cases km)
  with Cons.prems have ok: "ok k m" by simp
  from km have s: "stream (km # kms) = enc k m @ stream kms" by (simp add: stream_def)
  have "length (stream kms) < fuel"
    using Cons.prems(2) s enc_length [OF ok] by simp
  then obtain f where f: "fuel = Suc f" "length (stream kms) \<le> f" by (cases fuel) auto
  from Cons.prems(1) f(2) have "read_loop dec f (stream kms) = map snd kms"
    using Cons.IH by simp
  with s f km dec_enc [OF ok] show ?case by simp
qed

text \<open>More fuel than the length of the stream changes nothing: the read loop ends by itself.\<close>

lemma read_loop_fuel:
  "length bs \<le> fuel \<Longrightarrow> read_loop dec fuel bs = read_loop dec (length bs) bs"
proof (induction "length bs" arbitrary: bs fuel rule: less_induct)
  case less
  show ?case
  proof (cases "dec bs")
    case None
    then show ?thesis by (cases fuel; cases "length bs") auto
  next
    case (Some mr)
    then obtain m rest where d: "dec bs = Some (m, rest)" by (cases mr) auto
    have lt: "length rest < length bs" using dec_shorter [OF d] .
    then obtain n where n: "length bs = Suc n" by (cases "length bs") auto
    with less.prems obtain f where f: "fuel = Suc f" "n \<le> f" by (cases fuel) auto
    have r: "length rest \<le> n" using lt n by simp
    with f(2) have r': "length rest \<le> f" by simp
    have "read_loop dec f rest = read_loop dec n rest"
      using less.hyps [OF lt r'] less.hyps [OF lt r] by simp
    with d n f show ?thesis by simp
  qed
qed

text \<open>Bytes after the last whole message do not change what was delivered before them.\<close>

lemma read_loop_trailing:
  assumes "list_all (\<lambda>(k, m). ok k m) kms" "dec tail = None"
    and "length (stream kms @ tail) \<le> fuel"
  shows "read_loop dec fuel (stream kms @ tail) = map snd kms"
  using assms
proof (induction kms arbitrary: fuel)
  case Nil
  then show ?case by (cases fuel) (auto simp: stream_def)
next
  case (Cons km kms)
  obtain k m where km: "km = (k, m)" by (cases km)
  with Cons.prems have ok: "ok k m" by simp
  from km have s: "stream (km # kms) @ tail = enc k m @ (stream kms @ tail)"
    by (simp add: stream_def)
  have "length (stream kms @ tail) < fuel"
    using Cons.prems(3) enc_length [OF ok] unfolding s by simp
  then obtain f where f: "fuel = Suc f" "length (stream kms @ tail) \<le> f" by (cases fuel) auto
  from Cons.prems(1,2) f(2) have "read_loop dec f (stream kms @ tail) = map snd kms"
    using Cons.IH by simp
  with s f km dec_enc [OF ok] show ?case by simp
qed

end

end
