(* ===== verification/Go_Strings.thy ===== *)
theory Go_Strings
  imports Prelude
begin

text \<open>
  The parts of Go's packages \<open>strings\<close>, \<open>strconv\<close>, \<open>encoding/hex\<close> and \<open>fmt\<close>
  that the program calls, on strings as lists of bytes (Go's \<open>string\<close> is a byte string, and
  \<open>char\<close> is a byte). White space and letter case are those of ASCII.
\<close>

section \<open>Package strings\<close>

definition has_prefix :: "string \<Rightarrow> string \<Rightarrow> bool" where
  "has_prefix s p \<longleftrightarrow> take (length p) s = p"

definition trim_prefix :: "string \<Rightarrow> string \<Rightarrow> string" where
  "trim_prefix s p = (if has_prefix s p then drop (length p) s else s)"

definition trim_left :: "char \<Rightarrow> string \<Rightarrow> string" where
  "trim_left c s = dropWhile (\<lambda>d. d = c) s"

definition trim_right :: "char \<Rightarrow> string \<Rightarrow> string" where
  "trim_right c s = rev (dropWhile (\<lambda>d. d = c) (rev s))"

definition is_space :: "char \<Rightarrow> bool" where
  "is_space c \<longleftrightarrow> of_char c \<in> {9, 10, 11, 12, 13, 32 :: nat}"

definition trim_space :: "string \<Rightarrow> string" where
  "trim_space s = rev (dropWhile is_space (rev (dropWhile is_space s)))"

fun split_on :: "char \<Rightarrow> string \<Rightarrow> string list" where
  "split_on c [] = [[]]"
| "split_on c (x # xs) =
     (if x = c then [] # split_on c xs
      else (case split_on c xs of [] \<Rightarrow> [[x]] | w # ws \<Rightarrow> (x # w) # ws))"

fun contains_str :: "string \<Rightarrow> string \<Rightarrow> bool" where
  "contains_str [] p = has_prefix [] p"
| "contains_str (x # xs) p = (has_prefix (x # xs) p \<or> contains_str xs p)"

definition lower_char :: "char \<Rightarrow> char" where
  "lower_char c = (if 65 \<le> (of_char c :: nat) \<and> (of_char c :: nat) \<le> 90
                   then char_of ((of_char c :: nat) + 32) else c)"

definition to_lower :: "string \<Rightarrow> string" where
  "to_lower = map lower_char"

lemma has_prefix_append [simp]: "has_prefix (p @ s) p"
  by (simp add: has_prefix_def)

lemma has_prefix_iff: "has_prefix s p \<longleftrightarrow> (\<exists>r. s = p @ r)"
  by (metis append_take_drop_id has_prefix_append has_prefix_def)

lemma trim_right_suffix: "trim_right c s = s \<or> (\<exists>t. s = trim_right c s @ t \<and> set t \<subseteq> {c})"
proof -
  have "rev s = takeWhile (\<lambda>d. d = c) (rev s) @ dropWhile (\<lambda>d. d = c) (rev s)" by simp
  then have "s = trim_right c s @ rev (takeWhile (\<lambda>d. d = c) (rev s))"
    unfolding trim_right_def by (metis rev_append rev_rev_ident)
  moreover have "set (rev (takeWhile (\<lambda>d. d = c) (rev s))) \<subseteq> {c}"
    by (auto dest: set_takeWhileD)
  ultimately show ?thesis by blast
qed

lemma trim_right_last: "trim_right c s \<noteq> [] \<Longrightarrow> last (trim_right c s) \<noteq> c"
  unfolding trim_right_def using hd_dropWhile [of "\<lambda>d. d = c" "rev s"] by (simp add: last_rev)

lemma trim_right_idem [simp]: "trim_right c (trim_right c s) = trim_right c s"
  using hd_dropWhile [of "\<lambda>d. d = c" "rev s"]
  by (cases "dropWhile (\<lambda>d. d = c) (rev s) = []") (auto simp: trim_right_def dropWhile_eq_self_iff)

lemma split_on_ne [simp]: "split_on c s \<noteq> []"
  by (induction s) (auto split: list.splits)

lemma split_on_none: "c \<notin> set s \<Longrightarrow> split_on c s = [s]"
  by (induction s) auto

lemma split_on_append:
  "c \<notin> set s \<Longrightarrow> split_on c (s @ c # t) = s # split_on c t"
  by (induction s) auto

text \<open>Splitting and joining with the separator again is the identity.\<close>

fun join_with :: "char \<Rightarrow> string list \<Rightarrow> string" where
  "join_with c [] = []"
| "join_with c [w] = w"
| "join_with c (w # v # ws) = w @ c # join_with c (v # ws)"

lemma join_with_Cons: "ws \<noteq> [] \<Longrightarrow> join_with c (w # ws) = w @ c # join_with c ws"
  by (cases ws) auto

lemma join_split: "join_with c (split_on c s) = s"
proof (induction s)
  case Nil
  show ?case by simp
next
  case (Cons x s)
  obtain w ws where s: "split_on c s = w # ws" by (meson neq_Nil_conv split_on_ne)
  show ?case
  proof (cases "x = c")
    case True
    with Cons show ?thesis by (simp add: join_with_Cons)
  next
    case False
    with Cons s show ?thesis by (cases ws) auto
  qed
qed

lemma split_on_no_sep: "w \<in> set (split_on c s) \<Longrightarrow> c \<notin> set w"
proof (induction s arbitrary: w)
  case Nil
  then show ?case by simp
next
  case (Cons x s)
  obtain v vs where s: "split_on c s = v # vs" by (meson neq_Nil_conv split_on_ne)
  with Cons.IH have "c \<notin> set u" if "u \<in> set (v # vs)" for u using that by auto
  with Cons.prems s show ?case by (cases "x = c") auto
qed

lemma lower_char_idem [simp]: "lower_char (lower_char c) = lower_char c"
  by (auto simp: lower_char_def)

lemma to_lower_idem [simp]: "to_lower (to_lower s) = to_lower s"
  by (simp add: to_lower_def)

section \<open>Decimal numbers: strconv.FormatInt and the digits of a number\<close>

definition digit_char :: "nat \<Rightarrow> char" where
  "digit_char n = char_of (48 + n)"

definition is_digit :: "char \<Rightarrow> bool" where
  "is_digit c \<longleftrightarrow> 48 \<le> (of_char c :: nat) \<and> (of_char c :: nat) \<le> 57"

definition digit_val :: "char \<Rightarrow> nat" where
  "digit_val c = of_char c - 48"

fun show_nat :: "nat \<Rightarrow> string" where
  "show_nat n = (if n < 10 then [digit_char n] else show_nat (n div 10) @ [digit_char (n mod 10)])"

declare show_nat.simps [simp del]

definition read_nat :: "string \<Rightarrow> nat" where
  "read_nat s = foldl (\<lambda>a c. 10 * a + digit_val c) 0 s"

definition show_int :: "int \<Rightarrow> string" where
  "show_int i = (if i < 0 then CHR ''-'' # show_nat (nat (- i)) else show_nat (nat i))"

lemma is_digit_digit_char: "n < 10 \<Longrightarrow> is_digit (digit_char n)"
  by (simp add: is_digit_def digit_char_def)

lemma digit_val_digit_char: "n < 10 \<Longrightarrow> digit_val (digit_char n) = n"
  by (simp add: digit_val_def digit_char_def)

lemma show_nat_digits: "list_all is_digit (show_nat n)"
proof (induction n rule: show_nat.induct)
  case (1 n)
  then show ?case by (subst show_nat.simps) (auto simp: is_digit_digit_char)
qed

lemma show_nat_ne [simp]: "show_nat n \<noteq> []"
  by (subst show_nat.simps) simp

lemma read_show_nat [simp]: "read_nat (show_nat n) = n"
proof (induction n rule: show_nat.induct)
  case (1 n)
  show ?case
  proof (cases "n < 10")
    case True
    then show ?thesis by (subst show_nat.simps) (simp add: read_nat_def digit_val_digit_char)
  next
    case False
    with 1 have "foldl (\<lambda>a c. 10 * a + digit_val c) 0 (show_nat (n div 10)) = n div 10"
      by (simp add: read_nat_def)
    with False show ?thesis
      by (subst show_nat.simps) (simp add: read_nat_def digit_val_digit_char)
  qed
qed

text \<open>
  \<open>fmt.Sscanf(s, "%d", &v)\<close> for an \<open>int64\<close>: leading white space is skipped (a newline is an
  error), an optional sign, at least one digit, then the longest run of digits; what follows
  is ignored. A value outside the 64-bit range is an error.
\<close>

definition sscanf_d :: "string \<Rightarrow> int option" where
  "sscanf_d s =
     (let t = dropWhile is_space s;
          u = (case t of [] \<Rightarrow> [] | c # cs \<Rightarrow> if c = CHR ''+'' \<or> c = CHR ''-'' then cs else t);
          neg = (case t of [] \<Rightarrow> False | c # cs \<Rightarrow> c = CHR ''-'');
          ds = takeWhile is_digit u;
          v = (if neg then - int (read_nat ds) else int (read_nat ds))
      in if CHR 0x0A \<in> set (takeWhile is_space s) then None
         else if ds = [] then None
         else if v < - (2 ^ 63) \<or> 2 ^ 63 \<le> v then None
         else Some v)"

text \<open>
  \<open>strconv.Atoi(s)\<close>: an optional sign and digits only, in the 64-bit range.
\<close>

definition atoi :: "string \<Rightarrow> int option" where
  "atoi s =
     (let ds = (case s of [] \<Rightarrow> [] | c # cs \<Rightarrow> if c = CHR ''+'' \<or> c = CHR ''-'' then cs else s);
          neg = (case s of [] \<Rightarrow> False | c # cs \<Rightarrow> c = CHR ''-'');
          v = (if neg then - int (read_nat ds) else int (read_nat ds))
      in if ds = [] \<or> \<not> list_all is_digit ds then None
         else if v < - (2 ^ 63) \<or> 2 ^ 63 \<le> v then None
         else Some v)"

lemma digit_not_space: "is_digit c \<Longrightarrow> \<not> is_space c"
  by (auto simp: is_digit_def is_space_def)

lemma digit_not_sign: "is_digit c \<Longrightarrow> c \<noteq> CHR ''+'' \<and> c \<noteq> CHR ''-''"
  by (auto simp: is_digit_def)

lemma sscanf_d_digits:
  assumes "list_all is_digit ds" "ds \<noteq> []" "read_nat ds < 2 ^ 63"
  shows "sscanf_d ds = Some (int (read_nat ds))"
proof -
  obtain c cs where ds: "ds = c # cs" using assms(2) by (cases ds) auto
  with assms(1) have c: "is_digit c" by simp
  have "dropWhile is_space ds = ds" "takeWhile is_space ds = []"
    using ds digit_not_space [OF c] by auto
  with assms digit_not_sign [OF c] ds show ?thesis
    by (auto simp: sscanf_d_def Let_def list_all_takeWhile_all)
qed

lemma sscanf_show_int:
  assumes "0 \<le> i" "i < 2 ^ 63"
  shows "sscanf_d (show_int i) = Some i"
  using assms sscanf_d_digits [OF show_nat_digits, of "nat i"]
  by (simp add: show_int_def nat_less_iff)

lemma atoi_show_nat: "n < 2 ^ 63 \<Longrightarrow> atoi (show_nat n) = Some (int n)"
proof -
  assume n: "n < 2 ^ 63"
  obtain c cs where s: "show_nat n = c # cs" by (meson neq_Nil_conv show_nat_ne)
  have "list_all is_digit (c # cs)" using show_nat_digits [of n] s by simp
  then have "c \<noteq> CHR ''+''" "c \<noteq> CHR ''-''" using digit_not_sign [of c] by auto
  moreover have "read_nat (c # cs) = n" using read_show_nat [of n] s by simp
  ultimately show ?thesis using n s \<open>list_all is_digit (c # cs)\<close>
    by (simp add: atoi_def Let_def)
qed

lemma show_int_no: "\<not> is_digit c \<Longrightarrow> c \<noteq> CHR ''-'' \<Longrightarrow> c \<notin> set (show_int i)"
  using show_nat_digits by (auto simp: show_int_def list_all_iff)

section \<open>Package encoding/hex\<close>

definition hex_char :: "nat \<Rightarrow> char" where
  "hex_char n = (if n < 10 then char_of (48 + n) else char_of (87 + n))"

definition hex_encode :: "bytes \<Rightarrow> string" where
  "hex_encode bs = concat (map (\<lambda>b. [hex_char (unat b div 16), hex_char (unat b mod 16)]) bs)"

definition is_hex :: "char \<Rightarrow> bool" where
  "is_hex c \<longleftrightarrow> is_digit c \<or> (97 \<le> (of_char c :: nat) \<and> (of_char c :: nat) \<le> 102)"

lemma is_hex_hex_char: "n < 16 \<Longrightarrow> is_hex (hex_char n)"
  by (auto simp: is_hex_def hex_char_def is_digit_def)

lemma length_hex_encode [simp]: "length (hex_encode bs) = 2 * length bs"
  by (induction bs) (auto simp: hex_encode_def)

lemma hex_encode_append: "hex_encode (as @ bs) = hex_encode as @ hex_encode bs"
  by (simp add: hex_encode_def)

lemma hex_encode_hex: "list_all is_hex (hex_encode bs)"
  by (induction bs)
    (auto simp: hex_encode_def intro!: is_hex_hex_char less_mult_imp_div_less)

lemma hex_encode_no_dot: "CHR ''.'' \<notin> set (hex_encode bs)"
  using hex_encode_hex [of bs] by (auto simp: list_all_iff is_hex_def is_digit_def)

end
