(* ===== verification/Websocket.thy ===== *)
theory Websocket
  imports Framing Go_Strings
begin

text \<open>
  agent/websocket.go: the agent's own WebSocket client. The URL parser, the opening handshake, and
  the reader and writer of frames. A connection is a byte stream in each direction.
\<close>

section \<open>Masking\<close>

text \<open>The loop \<open>payload[i] ^= maskKey[i%4]\<close>, from index \<open>i\<close> on.\<close>

fun xor_mask :: "bytes \<Rightarrow> nat \<Rightarrow> bytes \<Rightarrow> bytes" where
  "xor_mask key i [] = []"
| "xor_mask key i (b # bs) = (b XOR key ! (i mod 4)) # xor_mask key (Suc i) bs"

lemma length_xor_mask [simp, wire_simps]: "length (xor_mask key i bs) = length bs"
  by (induction bs arbitrary: i) auto

lemma xor_mask_involution [wire_simps]: "xor_mask key i (xor_mask key i bs) = bs"
  by (induction bs arbitrary: i) (auto simp: xor.assoc)

lemma nth_xor_mask: "j < length bs \<Longrightarrow> xor_mask key i bs ! j = bs ! j XOR key ! ((i + j) mod 4)"
  by (induction bs arbitrary: i j) (auto simp: nth_Cons split: nat.splits)

section \<open>Frames\<close>

text \<open>
  \<open>WriteFrame\<close>: the bytes it hands to \<open>conn.Write\<close>, for the masking key \<open>key\<close> it drew.
  A client frame is final (0x80) and masked (0x80).
\<close>

definition frame_header :: "byte \<Rightarrow> nat \<Rightarrow> bytes" where
  "frame_header opcode n =
     (0x80 OR opcode) #
     (if n \<le> 125 then [0x80 OR of_nat n]
      else if n \<le> 65535 then (0x80 OR 126) # be_bytes 2 n
      else (0x80 OR 127) # be_bytes 8 n)"

definition write_frame :: "bytes \<Rightarrow> byte \<Rightarrow> bytes \<Rightarrow> bytes" where
  "write_frame key opcode payload =
     frame_header opcode (length payload) @ key @ xor_mask key 0 payload"

text \<open>\<open>WriteFrame\<close> with the random source: no key, no frame.\<close>

definition WriteFrame :: "bytes option \<Rightarrow> byte \<Rightarrow> bytes \<Rightarrow> string + bytes" where
  "WriteFrame rand opcode payload =
     (case rand of None \<Rightarrow> Inl ''wsConn.WriteFrame: generate mask''
      | Some key \<Rightarrow> Inr (write_frame key opcode payload))"

definition SendPong :: "bytes option \<Rightarrow> bytes \<Rightarrow> string + bytes" where
  "SendPong rand payload = WriteFrame rand 0xA payload"

text \<open>\<open>Close\<close>: a close frame, its error ignored, then the connection is closed.\<close>

definition ws_close_bytes :: "bytes option \<Rightarrow> bytes" where
  "ws_close_bytes rand = (case WriteFrame rand 0x8 [] of Inl e \<Rightarrow> [] | Inr bs \<Rightarrow> bs)"

text \<open>
  \<open>ReadFrame\<close>: opcode, payload and the rest of the stream. The bit FIN and the reserved bits are
  not looked at; the length is read in 7, 16 or 64 bits.
\<close>

definition read_len :: "byte \<Rightarrow> bytes \<Rightarrow> read_err + (nat \<times> bytes)" where
  "read_len h1 bs =
     (let n = unat (h1 AND 0x7F) in
      if n = 126 then bind_res (read_full 2 bs) (\<lambda>(l, rest). Inr (be_nat l, rest))
      else if n = 127 then bind_res (read_full 8 bs) (\<lambda>(l, rest). Inr (be_nat l, rest))
      else Inr (n, bs))"

definition read_mask_key :: "bool \<Rightarrow> bytes \<Rightarrow> read_err + (bytes \<times> bytes)" where
  "read_mask_key masked bs = (if masked then read_full 4 bs else Inr ([0, 0, 0, 0], bs))"

definition read_payload :: "nat \<Rightarrow> bool \<Rightarrow> bytes \<Rightarrow> nat \<Rightarrow> bytes \<Rightarrow> read_err + (bytes \<times> bytes)" where
  "read_payload max_alloc masked key n bs =
     (if n = 0 then Inr ([], bs)
      else bind_res (make_bytes max_alloc n) (\<lambda>_.
           bind_res (read_full n bs) (\<lambda>(p, rest).
             Inr (if masked then xor_mask key 0 p else p, rest))))"

definition ReadFrame :: "nat \<Rightarrow> bytes \<Rightarrow> read_err + ((byte \<times> bytes) \<times> bytes)" where
  "ReadFrame max_alloc bs =
     bind_res (read_byte bs) (\<lambda>(h0, bs1).
     bind_res (read_byte bs1) (\<lambda>(h1, bs2).
     let masked = (h1 AND 0x80 \<noteq> 0) in
     bind_res (read_len h1 bs2) (\<lambda>(n, bs3).
     bind_res (read_mask_key masked bs3) (\<lambda>(key, bs4).
     bind_res (read_payload max_alloc masked key n bs4) (\<lambda>(p, rest).
       Inr ((h0 AND 0x0F, p), rest))))))"

subsection \<open>Header bits\<close>

lemma byte_numerals:
  "(0x80 :: byte) = push_bit 7 1" "(0x7F :: byte) = mask 7"
  "(0x0F :: byte) = mask 4" "(0xF0 :: byte) = push_bit 4 (mask 4)"
  by (simp_all add: mask_eq_exp_minus_1)

lemma byte_numeral_bits:
  "bit (0x80 :: byte) n \<longleftrightarrow> n = 7" "bit (0x7F :: byte) n \<longleftrightarrow> n < 7"
  "bit (0x0F :: byte) n \<longleftrightarrow> n < 4" "bit (0xF0 :: byte) n \<longleftrightarrow> 4 \<le> n \<and> n < 8"
  unfolding byte_numerals
  by (simp_all only: bit_push_bit_iff bit_mask_iff bit_1_iff possible_bit_word) auto

lemma byte_mask_bit [wire_simps]: "(0x80 OR w) AND 0x80 \<noteq> (0 :: byte)"
proof
  assume "(0x80 OR w) AND 0x80 = (0 :: byte)"
  then have "bit ((0x80 OR w) AND 0x80) 7 = bit (0 :: byte) 7" by simp
  then show False by (simp only: bit_and_iff bit_or_iff byte_numeral_bits bit_0_eq) simp
qed

lemma byte_and_127: "unat (w AND 0x7F :: byte) = unat w mod 128"
proof -
  have "unat (w AND 0x7F) = unat (take_bit 7 w)"
    by (simp only: byte_numerals take_bit_eq_mask)
  also have "\<dots> = take_bit 7 (unat w)" by (rule unsigned_take_bit_eq)
  also have "\<dots> = unat w mod 128" by (simp add: take_bit_eq_mod)
  finally show ?thesis .
qed

lemma byte_len_bits: "(0x80 OR w) AND 0x7F = (w AND 0x7F :: byte)"
  by (rule bit_word_eqI) (simp only: bit_and_iff bit_or_iff byte_numeral_bits, auto)

lemma byte_len7 [wire_simps]: "n < 128 \<Longrightarrow> unat ((0x80 OR of_nat n) AND 0x7F :: byte) = n"
  by (simp add: byte_len_bits byte_and_127 wire_simps)

lemma byte_opcode [wire_simps]:
  assumes "op AND 0xF0 = 0"
  shows "(0x80 OR op) AND 0x0F = (op :: byte)"
proof -
  have "op = op AND 0x0F OR op AND 0xF0"
    by (rule bit_word_eqI) (simp only: bit_and_iff bit_or_iff byte_numeral_bits, auto)
  with assms have "op AND 0x0F = op" by simp
  moreover have "(0x80 OR op) AND 0x0F = op AND 0x0F"
    by (rule bit_word_eqI) (simp only: bit_and_iff bit_or_iff byte_numeral_bits, auto)
  ultimately show ?thesis by simp
qed

section \<open>Reading back what was written\<close>

definition frame_ok :: "nat \<Rightarrow> bytes \<Rightarrow> byte \<times> bytes \<Rightarrow> bool" where
  "frame_ok max_alloc key m \<longleftrightarrow>
     length key = 4 \<and> fst m AND 0xF0 = 0 \<and> length (snd m) < 2 ^ 64 \<and> length (snd m) \<le> max_alloc"

lemma read_len_header:
  assumes "n < 2 ^ 64"
  shows "\<exists>h1 bs. frame_header op n = (0x80 OR op) # h1 # bs \<and> h1 AND 0x80 \<noteq> 0
     \<and> read_len h1 (bs @ rest) = Inr (n, rest)"
proof -
  consider (small) "n \<le> 125" | (mid) "125 < n" "n \<le> 65535" | (big) "65535 < n" by linarith
  then show ?thesis
  proof cases
    case small
    then show ?thesis by (auto simp: frame_header_def read_len_def wire_simps byte_mask_bit)
  next
    case mid
    then show ?thesis
      using byte_len7 [of 126] byte_mask_bit [of 126]
      by (simp add: frame_header_def read_len_def wire_simps del: be_bytes.simps)
  next
    case big
    with assms show ?thesis
      using byte_len7 [of 127] byte_mask_bit [of 127]
      by (simp add: frame_header_def read_len_def wire_simps del: be_bytes.simps)
  qed
qed

lemma read_payload_mask:
  assumes "length p \<le> max_alloc"
  shows "read_payload max_alloc True key (length p) (xor_mask key 0 p @ rest) = Inr (p, rest)"
  using assms by (simp add: read_payload_def make_bytes_def wire_simps)

lemma ReadFrame_write_frame:
  assumes "frame_ok max_alloc key (op, p)"
  shows "ReadFrame max_alloc (write_frame key op p @ rest) = Inr ((op, p), rest)"
proof -
  have key: "length key = 4" and op: "op AND 0xF0 = 0" and n: "length p < 2 ^ 64"
    and ma: "length p \<le> max_alloc"
    using assms by (simp_all add: frame_ok_def)
  obtain h1 bs where h: "frame_header op (length p) = (0x80 OR op) # h1 # bs" "h1 AND 0x80 \<noteq> 0"
    and l: "read_len h1 (bs @ key @ xor_mask key 0 p @ rest)
      = Inr (length p, key @ xor_mask key 0 p @ rest)"
    using read_len_header [OF n] by meson
  show ?thesis
    using h l key ma byte_opcode [OF op]
    by (simp add: write_frame_def ReadFrame_def read_byte_Cons read_mask_key_def read_full_append
        read_payload_mask Let_def)
qed

lemma read_len_extend:
  "read_len h bs = Inr (n, rest) \<Longrightarrow> read_len h (bs @ more) = Inr (n, rest @ more)"
  by (auto simp: read_len_def Let_def bind_res_Inr_iff dest: read_full_extend split: if_splits)

lemma read_mask_key_extend:
  "read_mask_key m bs = Inr (k, rest) \<Longrightarrow> read_mask_key m (bs @ more) = Inr (k, rest @ more)"
  by (auto simp: read_mask_key_def dest: read_full_extend split: if_splits)

lemma read_payload_extend:
  "read_payload ma m k n bs = Inr (p, rest) \<Longrightarrow> read_payload ma m k n (bs @ more) = Inr (p, rest @ more)"
  by (auto simp: read_payload_def bind_res_Inr_iff split: if_splits) (use read_full_extend in blast)+

lemma ReadFrame_extend:
  assumes "ReadFrame ma bs = Inr (m, rest)"
  shows "ReadFrame ma (bs @ more) = Inr (m, rest @ more)"
proof -
  obtain h0 b1 h1 b2 n b3 k b4 p where
    1: "read_byte bs = Inr (h0, b1)" and 2: "read_byte b1 = Inr (h1, b2)"
    and 3: "read_len h1 b2 = Inr (n, b3)" and 4: "read_mask_key (h1 AND 0x80 \<noteq> 0) b3 = Inr (k, b4)"
    and 5: "read_payload ma (h1 AND 0x80 \<noteq> 0) k n b4 = Inr (p, rest)" and m: "m = (h0 AND 0x0F, p)"
    using assms by (auto simp: ReadFrame_def bind_res_Inr_iff Let_def)
  show ?thesis
    using read_byte_extend [OF 1, of more] read_byte_extend [OF 2, of more]
      read_len_extend [OF 3, of more] read_mask_key_extend [OF 4, of more]
      read_payload_extend [OF 5, of more] m
    by (simp add: ReadFrame_def Let_def)
qed

lemma read_full_length: "read_full n bs = Inr (xs, rest) \<Longrightarrow> length rest \<le> length bs"
  by (drule read_full_Inr) simp

lemma read_len_length: "read_len h bs = Inr (n, rest) \<Longrightarrow> length rest \<le> length bs"
  by (auto simp: read_len_def Let_def bind_res_Inr_iff dest!: read_full_length split: if_splits)

lemma read_mask_key_length: "read_mask_key m bs = Inr (k, rest) \<Longrightarrow> length rest \<le> length bs"
  by (auto simp: read_mask_key_def dest: read_full_length split: if_splits)

lemma read_payload_length: "read_payload ma m k n bs = Inr (p, rest) \<Longrightarrow> length rest \<le> length bs"
  by (auto simp: read_payload_def bind_res_Inr_iff dest!: read_full_length split: if_splits)

lemma ReadFrame_shorter: "ReadFrame ma bs = Inr (m, rest) \<Longrightarrow> length rest < length bs"
  by (clarsimp simp: ReadFrame_def bind_res_Inr_iff Let_def)
    (drule read_byte_Inr, drule read_byte_Inr, drule read_len_length, drule read_mask_key_length,
      drule read_payload_length, simp)

interpretation ws: framing "\<lambda>key m. write_frame key (fst m) (snd m)" "\<lambda>bs. res_opt (ReadFrame ma bs)"
    "frame_ok ma" for ma
proof
  show "res_opt (ReadFrame ma (write_frame k (fst m) (snd m) @ rest)) = Some (m, rest)"
    if "frame_ok ma k m" for k m rest
    using that ReadFrame_write_frame [of ma k "fst m" "snd m" rest] by simp
  show "res_opt (ReadFrame ma []) = None" by (simp add: ReadFrame_def read_byte_def)
  show "length rest < length bs" if "res_opt (ReadFrame ma bs) = Some (m, rest)" for bs m rest
    using that by (simp add: res_opt_Some ReadFrame_shorter)
  show "res_opt (ReadFrame ma (bs @ more)) = Some (m, rest @ more)"
    if "res_opt (ReadFrame ma bs) = Some (m, rest)" for bs m rest more
    using that by (simp add: res_opt_Some ReadFrame_extend)
qed

section \<open>URLs\<close>

text \<open>\<open>parseWsURL\<close>: scheme, host with a port, and path; an unknown scheme is an error.\<close>

definition split_scheme :: "string \<Rightarrow> (string \<times> string) option" where
  "split_scheme raw =
     (if has_prefix raw ''wss://'' then Some (''wss'', drop 6 raw)
      else if has_prefix raw ''ws://'' then Some (''ws'', drop 5 raw)
      else if has_prefix raw ''https://'' then Some (''wss'', drop 8 raw)
      else if has_prefix raw ''http://'' then Some (''ws'', drop 7 raw)
      else None)"

definition add_port :: "string \<Rightarrow> string \<Rightarrow> string" where
  "add_port scheme host =
     (if CHR '':'' \<in> set host then host
      else if scheme = ''wss'' then host @ '':443'' else host @ '':80'')"

definition parseWsURL :: "string \<Rightarrow> string + (string \<times> string \<times> string)" where
  "parseWsURL raw =
     (case split_scheme raw of
        None \<Rightarrow> Inl ''parseWsURL: unsupported scheme''
      | Some (scheme, r) \<Rightarrow>
          (let host = takeWhile (\<lambda>c. c \<noteq> CHR ''/'') r;
               path = (if CHR ''/'' \<in> set r then dropWhile (\<lambda>c. c \<noteq> CHR ''/'') r else ''/'')
           in Inr (scheme, add_port scheme host, path)))"

lemma split_scheme_Some: "split_scheme raw = Some (sc, r) \<Longrightarrow> sc = ''wss'' \<or> sc = ''ws''"
  by (auto simp: split_scheme_def split: if_splits)

lemma add_port_colon: "CHR '':'' \<in> set (add_port sc host)"
  by (auto simp: add_port_def)

lemma add_port_no_slash: "CHR ''/'' \<notin> set host \<Longrightarrow> CHR ''/'' \<notin> set (add_port sc host)"
  by (auto simp: add_port_def)

lemma parseWsURL_shape:
  assumes "parseWsURL raw = Inr (scheme, host, path)"
  shows "scheme \<in> {''wss'', ''ws''} \<and> CHR '':'' \<in> set host \<and> CHR ''/'' \<notin> set host
     \<and> has_prefix path ''/''"
proof -
  obtain r where r: "split_scheme raw = Some (scheme, r)"
    and host: "host = add_port scheme (takeWhile (\<lambda>c. c \<noteq> CHR ''/'') r)"
    and path: "path = (if CHR ''/'' \<in> set r then dropWhile (\<lambda>c. c \<noteq> CHR ''/'') r else ''/'')"
    using assms by (auto simp: parseWsURL_def Let_def split: option.splits)
  have "CHR ''/'' \<notin> set (takeWhile (\<lambda>c. c \<noteq> CHR ''/'') r)" by (auto dest: set_takeWhileD)
  moreover have "has_prefix path ''/''"
  proof (cases "CHR ''/'' \<in> set r")
    case True
    then have ne: "dropWhile (\<lambda>c. c \<noteq> CHR ''/'') r \<noteq> []" by (auto simp: dropWhile_eq_Nil_conv)
    with hd_dropWhile [OF ne] True path show ?thesis
      by (cases "dropWhile (\<lambda>c. c \<noteq> CHR ''/'') r") (auto simp: has_prefix_def)
  qed (use path in \<open>simp add: has_prefix_def\<close>)
  ultimately show ?thesis
    using split_scheme_Some [OF r] host add_port_colon add_port_no_slash by auto
qed

section \<open>The opening handshake\<close>

definition str_of_bytes :: "bytes \<Rightarrow> string" where
  "str_of_bytes = map (\<lambda>b. char_of (unat b))"

definition bytes_of_str :: "string \<Rightarrow> bytes" where
  "bytes_of_str = map of_char"

text \<open>
  The request \<open>wsConnect\<close> writes, for the base64 text \<open>key\<close> of the 16 random bytes and the extra
  headers in the order in which the map is walked.
\<close>

definition crlf :: string where
  "crlf = [CHR 0x0D, CHR 0x0A]"

definition handshake_request ::
  "string \<Rightarrow> string \<Rightarrow> string \<Rightarrow> (string \<times> string list) list \<Rightarrow> string" where
  "handshake_request path host key extra =
     ''GET '' @ path @ '' HTTP/1.1'' @ crlf @
     ''Host: '' @ host @ crlf @
     ''Upgrade: websocket'' @ crlf @
     ''Connection: Upgrade'' @ crlf @
     ''Sec-WebSocket-Key: '' @ key @ crlf @
     ''Sec-WebSocket-Version: 13'' @ crlf @
     concat (map (\<lambda>(k, vals). concat (map (\<lambda>v. k @ '': '' @ v @ crlf) vals)) extra) @
     crlf"

text \<open>\<open>ReadString\<close> with a newline as its delimiter: the line with its newline.\<close>

fun read_line :: "bytes \<Rightarrow> read_err + (bytes \<times> bytes)" where
  "read_line [] = Inl EOF"
| "read_line (b # bs) =
     (if b = 10 then Inr ([b], bs)
      else (case read_line bs of Inl e \<Rightarrow> Inl e | Inr (l, rest) \<Rightarrow> Inr (b # l, rest)))"

lemma read_line_Inr: "read_line bs = Inr (l, rest) \<Longrightarrow> bs = l @ rest \<and> l \<noteq> []"
  by (induction bs arbitrary: l) (auto split: if_splits sum.splits)

lemma read_line_append: "10 \<notin> set l \<Longrightarrow> read_line (l @ 10 # rest) = Inr (l @ [10], rest)"
  by (induction l) auto

datatype ws_err =
    BadURL string | DialFailed | RandFailed | WriteFailed
  | StatusLine read_err | NotSwitching string | DrainHeaders read_err

function drain_headers :: "bytes \<Rightarrow> ws_err + bytes" where
  "drain_headers bs =
     (case read_line bs of
        Inl e \<Rightarrow> Inl (DrainHeaders e)
      | Inr (l, rest) \<Rightarrow>
          if trim_space (str_of_bytes l) = [] then Inr rest else drain_headers rest)"
  by pat_completeness auto
termination
  by (relation "measure length") (auto dest!: read_line_Inr)

declare drain_headers.simps [simp del]

text \<open>The answer of the server, up to the bytes that follow its blank line.\<close>

definition read_handshake :: "bytes \<Rightarrow> ws_err + bytes" where
  "read_handshake bs =
     (case read_line bs of
        Inl e \<Rightarrow> Inl (StatusLine e)
      | Inr (l, rest) \<Rightarrow>
          if \<not> contains_str (str_of_bytes l) ''101''
          then Inl (NotSwitching (trim_space (str_of_bytes l)))
          else drain_headers rest)"

text \<open>
  \<open>wsConnect\<close>: the environment gives what dialling, the random source and the write return, and
  the bytes the server sends; the result is the request that was written and the stream from which
  frames are read.
\<close>

record ws_net =
  net_dial :: "string \<Rightarrow> string \<Rightarrow> bool"
  net_rand :: "string option"
  net_write :: bool
  net_answer :: bytes

definition wsConnect ::
  "ws_net \<Rightarrow> string \<Rightarrow> (string \<times> string list) list \<Rightarrow> ws_err + (string \<times> bytes)" where
  "wsConnect net raw extra =
     (case parseWsURL raw of
        Inl e \<Rightarrow> Inl (BadURL e)
      | Inr (scheme, host, path) \<Rightarrow>
          if \<not> net_dial net scheme host then Inl DialFailed
          else (case net_rand net of
             None \<Rightarrow> Inl RandFailed
           | Some key \<Rightarrow>
               if \<not> net_write net then Inl WriteFailed
               else (case read_handshake (net_answer net) of
                  Inl e \<Rightarrow> Inl e
                | Inr rest \<Rightarrow> Inr (handshake_request path host key extra, rest))))"

definition header_line :: "bytes \<Rightarrow> bool" where
  "header_line l \<longleftrightarrow> 10 \<notin> set l \<and> trim_space (str_of_bytes (l @ [10])) \<noteq> []"

definition lines :: "bytes list \<Rightarrow> bytes" where
  "lines ls = concat (map (\<lambda>l. l @ [10]) ls)"

lemma lines_simps [simp]: "lines [] = []" "lines (l # ls) = l @ 10 # lines ls"
  by (simp_all add: lines_def)

lemma drain_headers_lines:
  "list_all header_line hs \<Longrightarrow> drain_headers (lines hs @ 13 # 10 # rest) = Inr rest"
proof (induction hs)
  case Nil
  have "read_line (13 # 10 # rest) = Inr ([13, 10], rest)" by simp
  moreover have "trim_space (str_of_bytes [13, 10]) = []"
    by (simp add: trim_space_def str_of_bytes_def is_space_def)
  ultimately show ?case by (subst drain_headers.simps) simp
next
  case (Cons h hs)
  then have h: "10 \<notin> set h" "trim_space (str_of_bytes (h @ [10])) \<noteq> []"
    by (auto simp: header_line_def)
  have "read_line (lines (h # hs) @ 13 # 10 # rest) = Inr (h @ [10], lines hs @ 13 # 10 # rest)"
    using read_line_append [OF h(1)] by simp
  with Cons h show ?case by (subst drain_headers.simps) simp
qed

lemma read_handshake_lines:
  assumes "10 \<notin> set status" "contains_str (str_of_bytes (status @ [10])) ''101''"
    and "list_all header_line hs"
  shows "read_handshake (status @ 10 # lines hs @ 13 # 10 # rest) = Inr rest"
  using assms read_line_append [OF assms(1)] by (simp add: read_handshake_def drain_headers_lines)

end
