(* ===== verification/Pipe.thy ===== *)
theory Pipe
  imports Framing
begin

text \<open>
  The framed TCP pipes between the service and its helper processes: \<open>pipeSend\<close> and
  \<open>pipeRecv\<close> of agent/remote_session_windows.go for the capture helper, \<open>chatPipeSend\<close> and
  \<open>chatPipeRecv\<close> of agent/chat.go for the chat helper. Both frame a message as its length
  (32 bits, little-endian), its type and its payload.
\<close>

section \<open>Message types\<close>

datatype pipe_type =
    PipeInit | PipeFrame | PipeInput | PipeStop | PipeJPEGFrame | PipeVP9Frame | PipeControl
  | PipeH265Frame | PipeAV1Frame | PipeAudioData

fun pipe_code :: "pipe_type \<Rightarrow> byte" where
  "pipe_code PipeInit = 0x01"
| "pipe_code PipeFrame = 0x02"
| "pipe_code PipeInput = 0x03"
| "pipe_code PipeStop = 0x04"
| "pipe_code PipeJPEGFrame = 0x05"
| "pipe_code PipeVP9Frame = 0x06"
| "pipe_code PipeControl = 0x07"
| "pipe_code PipeH265Frame = 0x08"
| "pipe_code PipeAV1Frame = 0x09"
| "pipe_code PipeAudioData = 0x0A"

datatype chat_pipe_type = ChatMsg | ChatStop | ChatEvent | ChatInit

fun chat_pipe_code :: "chat_pipe_type \<Rightarrow> byte" where
  "chat_pipe_code ChatMsg = 0x10"
| "chat_pipe_code ChatStop = 0x11"
| "chat_pipe_code ChatEvent = 0x12"
| "chat_pipe_code ChatInit = 0x13"

lemma pipe_code_inject [simp]: "pipe_code s = pipe_code t \<longleftrightarrow> s = t"
  by (cases s; cases t) auto

lemma chat_pipe_code_inject [simp]: "chat_pipe_code s = chat_pipe_code t \<longleftrightarrow> s = t"
  by (cases s; cases t) auto

section \<open>The capture pipe\<close>

definition pipeSend :: "byte \<Rightarrow> bytes \<Rightarrow> bytes" where
  "pipeSend msg_type payload = (le_bytes 4 (length payload) @ [msg_type]) @ payload"

definition pipe_cap :: nat where
  "pipe_cap = 8 * 1024 * 1024"

definition pipeRecv :: "bytes \<Rightarrow> read_err + ((byte \<times> bytes) \<times> bytes)" where
  "pipeRecv bs =
     bind_res (read_full 5 bs) (\<lambda>(hdr, rest).
     let msg_type = hdr ! 4; n = le_nat (take 4 hdr) in
     if pipe_cap < n then Inl (Oversized n)
     else if n = 0 then Inr ((msg_type, []), rest)
     else bind_res (read_full n rest) (\<lambda>(p, rest'). Inr ((msg_type, p), rest')))"

section \<open>The chat pipe\<close>

definition chatPipeSend :: "byte \<Rightarrow> bytes \<Rightarrow> bytes" where
  "chatPipeSend msg_type payload = (le_bytes 4 (length payload) @ [msg_type]) @ payload"

definition chatPipeRecv :: "bytes \<Rightarrow> read_err + ((byte \<times> bytes) \<times> bytes)" where
  "chatPipeRecv bs =
     bind_res (read_full 5 bs) (\<lambda>(hdr, rest).
     let n = le_nat (take 4 hdr); msg_type = hdr ! 4 in
     if n = 0 then Inr ((msg_type, []), rest)
     else bind_res (read_full n rest) (\<lambda>(p, rest'). Inr ((msg_type, p), rest')))"

section \<open>Both are framings\<close>

lemma pipe_header:
  "read_full 5 ((le_bytes 4 n @ [t]) @ rest) = Inr (le_bytes 4 n @ [t], rest)"
  "(le_bytes 4 n @ [t]) ! 4 = t" "le_nat (take 4 (le_bytes 4 n @ [t])) = n mod 2 ^ 32"
  by (simp_all add: read_full_append nth_append wire_simps del: le_bytes.simps append_assoc)

lemma pipeRecv_pipeSend:
  "length p \<le> pipe_cap \<Longrightarrow> pipeRecv (pipeSend t p @ rest) = Inr ((t, p), rest)"
  using pipe_header(1) [of "length p" t "p @ rest"] pipe_header(2,3) [of "length p" t] pipe_header(2) [of 0 t]
  by (simp add: pipeRecv_def pipeSend_def pipe_cap_def read_full_append Let_def
      del: le_bytes.simps)

lemma pipeRecv_oversized:
  assumes "pipe_cap < length p" "length p < 2 ^ 32"
  shows "pipeRecv (pipeSend t p @ rest) = Inl (Oversized (length p))"
  using pipe_header(1) [of "length p" t "p @ rest"] pipe_header(2,3) [of "length p" t] pipe_header(2) [of 0 t] assms
  by (simp add: pipeRecv_def pipeSend_def Let_def del: le_bytes.simps)

lemma chatPipeRecv_chatPipeSend:
  "length p < 2 ^ 32 \<Longrightarrow> chatPipeRecv (chatPipeSend t p @ rest) = Inr ((t, p), rest)"
  using pipe_header(1) [of "length p" t "p @ rest"] pipe_header(2,3) [of "length p" t] pipe_header(2) [of 0 t]
  by (simp add: chatPipeRecv_def chatPipeSend_def read_full_append Let_def del: le_bytes.simps)

lemma pipeRecv_Inr:
  assumes "pipeRecv bs = Inr ((t, p), rest)"
  shows "\<exists>hdr. length hdr = 5 \<and> bs = hdr @ p @ rest \<and> t = hdr ! 4 \<and> length p \<le> pipe_cap"
  using assms
  by (auto simp: pipeRecv_def bind_res_Inr_iff Let_def dest!: read_full_Inr split: if_splits)

lemma chatPipeRecv_Inr:
  assumes "chatPipeRecv bs = Inr ((t, p), rest)"
  shows "\<exists>hdr. length hdr = 5 \<and> bs = hdr @ p @ rest \<and> t = hdr ! 4"
  using assms
  by (auto simp: chatPipeRecv_def bind_res_Inr_iff Let_def dest!: read_full_Inr split: if_splits)

lemma pipeRecv_extend:
  assumes "pipeRecv bs = Inr (m, rest)"
  shows "pipeRecv (bs @ more) = Inr (m, rest @ more)"
proof -
  obtain hdr b1 where 1: "read_full 5 bs = Inr (hdr, b1)"
    using assms by (auto simp: pipeRecv_def bind_res_Inr_iff)
  with assms read_full_extend [OF 1, of more] show ?thesis
    by (auto simp: pipeRecv_def bind_res_Inr_iff Let_def split: if_splits)
      (use read_full_extend in blast)+
qed

lemma chatPipeRecv_extend:
  assumes "chatPipeRecv bs = Inr (m, rest)"
  shows "chatPipeRecv (bs @ more) = Inr (m, rest @ more)"
proof -
  obtain hdr b1 where 1: "read_full 5 bs = Inr (hdr, b1)"
    using assms by (auto simp: chatPipeRecv_def bind_res_Inr_iff)
  with assms read_full_extend [OF 1, of more] show ?thesis
    by (auto simp: chatPipeRecv_def bind_res_Inr_iff Let_def split: if_splits)
      (use read_full_extend in blast)+
qed

interpretation cap_pipe: framing "\<lambda>(u :: unit) m. pipeSend (fst m) (snd m)"
    "\<lambda>bs. res_opt (pipeRecv bs)" "\<lambda>u m. length (snd m) \<le> pipe_cap"
proof
  show "res_opt (pipeRecv (pipeSend (fst m) (snd m) @ rest)) = Some (m, rest)"
    if "length (snd m) \<le> pipe_cap" for m rest
    using pipeRecv_pipeSend [OF that] by simp
  show "res_opt (pipeRecv []) = None" by (simp add: pipeRecv_def read_full_def)
  show "length rest < length bs" if "res_opt (pipeRecv bs) = Some (m, rest)" for bs m rest
    using that pipeRecv_Inr [of bs "fst m" "snd m" rest] by (auto simp: res_opt_Some)
  show "res_opt (pipeRecv (bs @ more)) = Some (m, rest @ more)"
    if "res_opt (pipeRecv bs) = Some (m, rest)" for bs m rest more
    using that pipeRecv_extend by (simp add: res_opt_Some)
qed

interpretation chat_pipe: framing "\<lambda>(u :: unit) m. chatPipeSend (fst m) (snd m)"
    "\<lambda>bs. res_opt (chatPipeRecv bs)" "\<lambda>u m. length (snd m) < 2 ^ 32"
proof
  show "res_opt (chatPipeRecv (chatPipeSend (fst m) (snd m) @ rest)) = Some (m, rest)"
    if "length (snd m) < 2 ^ 32" for m rest
    using chatPipeRecv_chatPipeSend [OF that] by simp
  show "res_opt (chatPipeRecv []) = None" by (simp add: chatPipeRecv_def read_full_def)
  show "length rest < length bs" if "res_opt (chatPipeRecv bs) = Some (m, rest)" for bs m rest
    using that chatPipeRecv_Inr [of bs "fst m" "snd m" rest] by (auto simp: res_opt_Some)
  show "res_opt (chatPipeRecv (bs @ more)) = Some (m, rest @ more)"
    if "res_opt (chatPipeRecv bs) = Some (m, rest)" for bs m rest more
    using that chatPipeRecv_extend by (simp add: res_opt_Some)
qed

end
