(* ===== verification/Wire_Props.thy ===== *)
theory Wire_Props
  imports Websocket Pipe
begin

text \<open>The properties of the wire formats: WebSocket frames and handshake, and the two pipes.\<close>

section \<open>WebSocket\<close>

definition ws_stream :: "(bytes \<times> byte \<times> bytes) list \<Rightarrow> bytes" where
  "ws_stream kms = concat (map (\<lambda>(k, m). write_frame k (fst m) (snd m)) kms)"

text \<open>
  C7. A reader loop over \<open>ReadFrame\<close> delivers exactly the frames a peer wrote with \<open>WriteFrame\<close>, in
  order: every opcode of four bits, every payload that fits the memory, every masking key.
\<close>

theorem ws_stream_roundtrip:
  assumes "list_all (\<lambda>(k, m). frame_ok ma k m) kms"
  shows "read_loop (\<lambda>bs. res_opt (ReadFrame ma bs)) (length (ws_stream kms)) (ws_stream kms) = map snd kms"
  using ws.read_loop_stream [of ma kms "length (ws_stream kms)"] assms
  by (simp add: ws_stream_def ws.stream_def)

lemma ws_stream_roundtrip_witness:
  "read_loop (\<lambda>bs. res_opt (ReadFrame 100 bs))
     (length (ws_stream [([1, 2, 3, 4], 0x2, [7, 8]), ([9, 9, 9, 9], 0xA, [])]))
     (ws_stream [([1, 2, 3, 4], 0x2, [7, 8]), ([9, 9, 9, 9], 0xA, [])]) = [(0x2, [7, 8]), (0xA, [])]"
  using ws_stream_roundtrip [of 100 "[([1, 2, 3, 4], 0x2, [7, 8]), ([9, 9, 9, 9], 0xA, [])]"]
  by (simp add: frame_ok_def)

text \<open>
  C8. A connection that ends inside a frame is an error of \<open>ReadFrame\<close>, whatever the cut: no proper
  beginning of a frame is read as a message.
\<close>

theorem ws_truncated_frame:
  assumes "frame_ok ma key (op, p)" "n < length (write_frame key op p)"
  shows "\<exists>e. ReadFrame ma (take n (write_frame key op p)) = Inl e"
  using ws.truncated [of ma key "(op, p)" n] assms
  by (cases "ReadFrame ma (take n (write_frame key op p))") auto

lemma ws_truncated_frame_witness:
  "\<exists>e. ReadFrame 100 (take 5 (write_frame [1, 2, 3, 4] 0x1 [65])) = Inl e"
proof -
  have "frame_ok 100 [1, 2, 3, 4] (0x1, [65])" by (simp add: frame_ok_def)
  moreover have "5 < length (write_frame [1, 2, 3, 4] 0x1 [65])" by (simp add: write_frame_def frame_header_def)
  ultimately show ?thesis by (rule ws_truncated_frame)
qed

text \<open>
  The address of a WebSocket: \<open>parseWsURL\<close> gives one of the two schemes, a host that has a port and
  no slash, and a path that begins with a slash; and the host and path, without the port it may have
  added, are the address after its scheme.
\<close>

theorem parseWsURL_sound:
  assumes "parseWsURL raw = Inr (scheme, host, path)"
  shows "scheme \<in> {''wss'', ''ws''} \<and> CHR '':'' \<in> set host \<and> CHR ''/'' \<notin> set host \<and> has_prefix path ''/''
    \<and> (\<exists>r h. split_scheme raw = Some (scheme, r) \<and> host = add_port scheme h
         \<and> (r = h @ path \<or> (r = h \<and> path = ''/'')))"
proof -
  obtain r where r: "split_scheme raw = Some (scheme, r)"
    and host: "host = add_port scheme (takeWhile (\<lambda>c. c \<noteq> CHR ''/'') r)"
    and path: "path = (if CHR ''/'' \<in> set r then dropWhile (\<lambda>c. c \<noteq> CHR ''/'') r else ''/'')"
    using assms by (auto simp: parseWsURL_def Let_def split: option.splits)
  have "r = takeWhile (\<lambda>c. c \<noteq> CHR ''/'') r @ path \<or> (r = takeWhile (\<lambda>c. c \<noteq> CHR ''/'') r \<and> path = ''/'')"
  proof (cases "CHR ''/'' \<in> set r")
    case True
    then show ?thesis using path by simp
  next
    case False
    then have "takeWhile (\<lambda>c. c \<noteq> CHR ''/'') r = r" by (auto simp: takeWhile_eq_all_conv)
    moreover have "path = ''/''" using False path by simp
    ultimately show ?thesis by argo
  qed
  with parseWsURL_shape [OF assms] r host show ?thesis by blast
qed

lemma parseWsURL_sound_witness:
  "parseWsURL ''https://h.io/a'' = Inr (''wss'', ''h.io:443'', ''/a'') \<and> has_prefix ''/a'' ''/''"
proof -
  have 1: "parseWsURL ''https://h.io/a'' = Inr (''wss'', ''h.io:443'', ''/a'')" by code_simp
  from parseWsURL_sound [OF 1] 1 show ?thesis by blast
qed

text \<open>
  The handshake succeeds on every answer whose status line contains the digits 101 somewhere and whose
  header lines are not blank, and hands over exactly the bytes after the blank line; no header is looked
  at, so the key sent in \<open>Sec-WebSocket-Key\<close> is never compared with an accept value.
\<close>

theorem wsConnect_accepts:
  assumes "parseWsURL raw = Inr (scheme, host, path)" "net_dial net scheme host" "net_rand net = Some key"
    and "net_write net" "net_answer net = status @ 10 # lines hs @ 13 # 10 # rest"
    and "10 \<notin> set status" "contains_str (str_of_bytes (status @ [10])) ''101''" "list_all header_line hs"
  shows "wsConnect net raw extra = Inr (handshake_request path host key extra, rest)"
  using assms(1-5) read_handshake_lines [OF assms(6-8), of rest] by (simp add: wsConnect_def)

definition demo_net :: ws_net where
  "demo_net = \<lparr>net_dial = (\<lambda>_ _. True), net_rand = Some ''key'', net_write = True,
     net_answer = bytes_of_str ''HTTP/1.1 500 no 101'' @ [10] @ bytes_of_str ''A: b'' @ [10] @ [13, 10] @ [1, 2]\<rparr>"

lemma wsConnect_accepts_witness:
  "\<exists>req. wsConnect demo_net ''ws://h'' [] = Inr (req, [1, 2])"
proof -
  have 1: "parseWsURL ''ws://h'' = Inr (''ws'', ''h:80'', ''/'')" by code_simp
  have 2: "net_answer demo_net = bytes_of_str ''HTTP/1.1 500 no 101'' @ 10 # lines [bytes_of_str ''A: b''] @ 13 # 10 # [1, 2]"
    by code_simp
  have 3: "10 \<notin> set (bytes_of_str ''HTTP/1.1 500 no 101'')" by code_simp
  have 4: "contains_str (str_of_bytes (bytes_of_str ''HTTP/1.1 500 no 101'' @ [10])) ''101''" by code_simp
  have 5: "list_all header_line [bytes_of_str ''A: b'']" by code_simp
  from wsConnect_accepts [OF 1 _ _ _ 2 3 4 5] show ?thesis by (simp add: demo_net_def)
qed

section \<open>The pipes\<close>

definition pipe_stream :: "(byte \<times> bytes) list \<Rightarrow> bytes" where
  "pipe_stream ms = concat (map (\<lambda>m. pipeSend (fst m) (snd m)) ms)"

definition chat_pipe_stream :: "(byte \<times> bytes) list \<Rightarrow> bytes" where
  "chat_pipe_stream ms = concat (map (\<lambda>m. chatPipeSend (fst m) (snd m)) ms)"

text \<open>
  The capture pipe: the reader delivers the messages of at most 8 MiB that were sent, in order, and
  stops with an error at the first message that is larger, whatever follows it.
\<close>

theorem pipe_stream_until_oversized:
  fixes junk :: bytes and t :: byte
  assumes "list_all (\<lambda>m. length (snd m) \<le> pipe_cap) ms"
    and "pipe_cap < length big" "length big < 2 ^ 32"
  defines "bs \<equiv> pipe_stream ms @ pipeSend t big @ junk"
  shows "read_loop (\<lambda>bs. res_opt (pipeRecv bs)) (length bs) bs = ms"
proof -
  have s: "pipe_stream ms = cap_pipe.stream (map (Pair ()) ms)"
    by (simp add: pipe_stream_def cap_pipe.stream_def comp_def)
  have "list_all (\<lambda>(k, m). length (snd m) \<le> pipe_cap) (map (Pair ()) ms)"
    using assms(1) by (simp add: list_all_iff)
  moreover have "res_opt (pipeRecv (pipeSend t big @ junk)) = None"
    using pipeRecv_oversized [OF assms(2,3)] by simp
  ultimately show ?thesis
    using cap_pipe.read_loop_trailing [of "map (Pair ()) ms" "pipeSend t big @ junk" "length bs"] s
    by (simp add: bs_def comp_def)
qed

lemma pipe_stream_until_oversized_witness:
  "read_loop (\<lambda>bs. res_opt (pipeRecv bs))
     (length (pipe_stream [(4, [1])] @ pipeSend 5 (replicate 9000000 0) @ []))
     (pipe_stream [(4, [1])] @ pipeSend 5 (replicate 9000000 0) @ []) = [(4, [1])]"
proof -
  have 1: "list_all (\<lambda>m. length (snd m) \<le> pipe_cap) [(4 :: byte, [1 :: byte])]" by (simp add: pipe_cap_def)
  have 2: "pipe_cap < length (replicate 9000000 (0 :: byte))"
    by (simp only: length_replicate pipe_cap_def)
  have 3: "length (replicate 9000000 (0 :: byte)) < 2 ^ 32" by (simp only: length_replicate) simp
  show ?thesis using pipe_stream_until_oversized [OF 1 2 3, where t = 5 and junk = "[]"] .
qed

text \<open>
  The chat pipe has no cap: it delivers the messages that were sent, of any length that fits the 32 bits
  of the header, in order, and a message cut short ends the loop.
\<close>

theorem chat_pipe_stream_roundtrip:
  fixes n :: nat and t :: byte
  assumes "list_all (\<lambda>m. length (snd m) < 2 ^ 32) ms" "length p < 2 ^ 32" "n < length (chatPipeSend t p)"
  defines "bs \<equiv> chat_pipe_stream ms @ take n (chatPipeSend t p)"
  shows "read_loop (\<lambda>bs. res_opt (chatPipeRecv bs)) (length bs) bs = ms"
proof -
  have s: "chat_pipe_stream ms = chat_pipe.stream (map (Pair ()) ms)"
    by (simp add: chat_pipe_stream_def chat_pipe.stream_def comp_def)
  have "list_all (\<lambda>(k, m). length (snd m) < 2 ^ 32) (map (Pair ()) ms)"
    using assms(1) by (simp add: list_all_iff)
  moreover have "res_opt (chatPipeRecv (take n (chatPipeSend t p))) = None"
    using chat_pipe.truncated [of "(t, p)" n] assms(2,3) by simp
  ultimately show ?thesis
    using chat_pipe.read_loop_trailing [of "map (Pair ()) ms" "take n (chatPipeSend t p)" "length bs"] s
    by (simp add: bs_def comp_def)
qed

lemma chat_pipe_stream_roundtrip_witness:
  "read_loop (\<lambda>bs. res_opt (chatPipeRecv bs))
     (length (chat_pipe_stream [(16, [1, 2])] @ take 3 (chatPipeSend 17 [])))
     (chat_pipe_stream [(16, [1, 2])] @ take 3 (chatPipeSend 17 [])) = [(16, [1, 2])]"
  using chat_pipe_stream_roundtrip [of "[(16, [1, 2])]" "[]" 3 17] by (simp add: chatPipeSend_def)

end
