(* ===== verification/Float64.thy ===== *)
theory Float64
  imports Main
begin

text \<open>
  Go's \<open>float64\<close> on the non-negative numbers the program computes with: a float is a pair of a
  mantissa and an exponent, of value \<open>m * 2 ^ e\<close>, and every operation rounds its exact result to 53
  bits, half to even (IEEE 754). Overflow, denormal numbers and NaN do not occur for the values of
  the program, which lie between \<open>10 ^ -2\<close> and \<open>10 ^ 12\<close>.
\<close>

section \<open>Rounding\<close>

type_synonym f64 = "int \<times> int"

function bit_length :: "int \<Rightarrow> nat" where
  "bit_length n = (if n \<le> 0 then 0 else Suc (bit_length (n div 2)))"
  by pat_completeness auto
termination
  by (relation "measure nat") auto

declare bit_length.simps [simp del]

text \<open>\<open>a / b\<close> rounded to the nearest integer, half to even.\<close>

definition rne_div :: "int \<Rightarrow> int \<Rightarrow> int" where
  "rne_div a b =
     (let q = a div b; r = a mod b in
      if 2 * r < b then q else if b < 2 * r then q + 1 else if even q then q else q + 1)"

definition f64_round :: "f64 \<Rightarrow> f64" where
  "f64_round x = (case x of (m, e) \<Rightarrow>
     (let k = bit_length m - 53 in (rne_div m (2 ^ k), e + int k)))"

definition f64_of_int :: "int \<Rightarrow> f64" where
  "f64_of_int n = f64_round (n, 0)"

definition f64_mul :: "f64 \<Rightarrow> f64 \<Rightarrow> f64" where
  "f64_mul x y = (case (x, y) of ((a, e), (b, f)) \<Rightarrow> f64_round (a * b, e + f))"

text \<open>
  The quotient of two mantissas: scaled by \<open>2 ^ k\<close>, so that its integer part has 53 bits, then rounded
  once. \<open>k\<close> is negative when the dividend is much larger than the divisor.
\<close>

definition f64_div :: "f64 \<Rightarrow> f64 \<Rightarrow> f64" where
  "f64_div x y = (case (x, y) of ((a, e), (b, f)) \<Rightarrow>
     (let k0 = 53 + int (bit_length b) - int (bit_length a);
          k = (if 2 ^ 53 \<le> a * 2 ^ nat k0 div (b * 2 ^ nat (- k0)) then k0 - 1 else k0)
      in (rne_div (a * 2 ^ nat k) (b * 2 ^ nat (- k)), e - f - k)))"

text \<open>Conversion to an integer truncates; comparison is that of the values.\<close>

definition f64_trunc :: "f64 \<Rightarrow> int" where
  "f64_trunc x = (case x of (m, e) \<Rightarrow> if 0 \<le> e then m * 2 ^ nat e else m div 2 ^ nat (- e))"

definition f64_less :: "f64 \<Rightarrow> f64 \<Rightarrow> bool" where
  "f64_less x y = (case (x, y) of ((a, e), (b, f)) \<Rightarrow>
     a * 2 ^ nat (e - min e f) < b * 2 ^ nat (f - min e f))"

text \<open>The literal \<open>p / q\<close> of the source, rounded to the nearest float.\<close>

definition f64_lit :: "int \<Rightarrow> int \<Rightarrow> f64" where
  "f64_lit p q = f64_div (p, 0) (q, 0)"

section \<open>Facts\<close>

lemma rne_div_1 [simp]: "rne_div a 1 = a"
  by (simp add: rne_div_def)

text \<open>The rounded quotient is within half a unit of the exact one.\<close>

lemma rne_div_error:
  assumes "0 < b"
  shows "2 * a \<le> 2 * (rne_div a b * b) + b \<and> 2 * (rne_div a b * b) \<le> 2 * a + b"
proof -
  define q r where "q = a div b" and "r = a mod b"
  have a: "a = q * b + r" and r: "0 \<le> r" "r < b" using assms by (simp_all add: q_def r_def)
  have "rne_div a b = q \<and> 2 * r \<le> b \<or> rne_div a b = q + 1 \<and> b \<le> 2 * r"
    unfolding rne_div_def q_def r_def Let_def by auto
  then show ?thesis using a r by (auto simp: algebra_simps)
qed

lemma bit_length_0 [simp]: "bit_length 0 = 0"
  by (subst bit_length.simps) simp

lemma bit_length_bounds: "0 < n \<Longrightarrow> 2 ^ (bit_length n - 1) \<le> n \<and> n < 2 ^ bit_length n"
proof (induction n rule: bit_length.induct)
  case (1 n)
  have bl: "bit_length n = Suc (bit_length (n div 2))"
    using "1.prems" by (subst bit_length.simps) simp
  show ?case
  proof (cases "n = 1")
    case True
    with bl show ?thesis by simp
  next
    case False
    with "1.prems" have pos: "0 < n div 2" by simp
    with 1 have IH: "2 ^ (bit_length (n div 2) - 1) \<le> n div 2" "n div 2 < 2 ^ bit_length (n div 2)"
      by auto
    obtain k where k: "bit_length (n div 2) = Suc k"
      using pos by (subst (asm) bit_length.simps) (auto simp: bit_length.simps [of "n div 2"])
    from IH k have "2 * 2 ^ k \<le> n" "n < 4 * 2 ^ k" by auto
    with bl k show ?thesis by simp
  qed
qed

lemma bit_length_le: "n < 2 ^ k \<Longrightarrow> bit_length n \<le> k"
proof (cases "0 < n")
  case False
  then show ?thesis by (subst bit_length.simps) simp
next
  case True
  assume "n < 2 ^ k"
  moreover have "2 ^ (bit_length n - 1) \<le> n" using bit_length_bounds True by auto
  ultimately have "(2 :: int) ^ (bit_length n - 1) < 2 ^ k" by linarith
  then have "bit_length n - 1 < k" by simp
  then show ?thesis by simp
qed

text \<open>A result of at most 53 bits is exact.\<close>

lemma f64_round_exact: "m < 2 ^ 53 \<Longrightarrow> f64_round (m, e) = (m, e)"
  using bit_length_le [of m 53] by (simp add: f64_round_def)

lemma f64_of_int_exact: "n < 2 ^ 53 \<Longrightarrow> f64_of_int n = (n, 0)"
  by (simp add: f64_of_int_def f64_round_exact)

lemma f64_mul_exact: "a * b < 2 ^ 53 \<Longrightarrow> f64_mul (a, e) (b, f) = (a * b, e + f)"
  by (simp add: f64_mul_def f64_round_exact)

text \<open>The literals of the source.\<close>

lemma f64_literals:
  "f64_lit 7 5 = (6305039478318694, -52)"
  "f64_lit 1 2 = (4503599627370496, -53)"
  "f64_lit 3 2 = (6755399441055744, -52)"
  "f64_lit 1 5 = (7205759403792794, -55)"
  "f64_lit 1 20 = (7205759403792794, -57)"
  by code_simp+

end
