(* ===== verification/Bitrate.thy ===== *)
theory Bitrate
  imports Prelude Float64
begin

text \<open>
  The adaptive bitrate controller of agent/stream.go (\<open>adaptiveBitrate\<close>, \<open>newAdaptiveBitrate\<close>,
  \<open>report\<close>), with the float arithmetic of its ratio and its steps, and its abstract specification on
  integers.
\<close>

section \<open>The controller\<close>

definition bitrateMin :: int where "bitrateMin = 1000000"
definition bitrateMax :: int where "bitrateMax = 100000000"
definition bitrateStart :: int where "bitrateStart = 20000000"
definition bitrateWindow :: int where "bitrateWindow = 15"
definition bitrateStepUp :: f64 where "bitrateStepUp = f64_lit 7 5"
definition bitrateStepDown :: f64 where "bitrateStepDown = f64_lit 1 2"

definition time_second :: int where "time_second = 1000000000"

record adaptiveBitrate =
  ab_current :: int
  ab_slowFrames :: int
  ab_totalFrames :: int
  ab_budget :: int

definition newAdaptiveBitrate :: "int \<Rightarrow> adaptiveBitrate" where
  "newAdaptiveBitrate fps =
     \<lparr>ab_current = bitrateStart, ab_slowFrames = 0, ab_totalFrames = 0,
      ab_budget = go_div time_second fps\<rparr>"

definition scale_rate :: "int \<Rightarrow> f64 \<Rightarrow> int" where
  "scale_rate c k = f64_trunc (f64_mul (f64_of_int c) k)"

text \<open>\<open>report\<close>: the state after one frame, and the new bitrate or 0.\<close>

definition report :: "adaptiveBitrate \<Rightarrow> int \<Rightarrow> adaptiveBitrate \<times> int" where
  "report ab0 sendTime =
     (let ab1 = ab0\<lparr>ab_totalFrames := ab_totalFrames ab0 + 1\<rparr>;
          ab2 = (if ab_budget ab1 < sendTime
                 then ab1\<lparr>ab_slowFrames := ab_slowFrames ab1 + 1\<rparr> else ab1)
      in if ab_totalFrames ab2 < bitrateWindow then (ab2, 0)
         else
           (let slowRatio = f64_div (f64_of_int (ab_slowFrames ab2)) (f64_of_int (ab_totalFrames ab2));
                prev = ab_current ab2;
                c1 = (if f64_less (f64_lit 1 5) slowRatio then scale_rate prev bitrateStepDown
                      else if f64_less slowRatio (f64_lit 1 20) then scale_rate prev bitrateStepUp
                      else prev);
                c2 = (if c1 < bitrateMin then bitrateMin else c1);
                c3 = (if bitrateMax < c2 then bitrateMax else c2);
                ab3 = ab2\<lparr>ab_current := c3, ab_slowFrames := 0, ab_totalFrames := 0\<rparr>
            in (ab3, if c3 \<noteq> prev then c3 else 0)))"

fun reports :: "adaptiveBitrate \<Rightarrow> int list \<Rightarrow> adaptiveBitrate" where
  "reports ab [] = ab"
| "reports ab (t # ts) = reports (fst (report ab t)) ts"

lemma reports_append: "reports ab (ts @ us) = reports (reports ab ts) us"
  by (induction ts arbitrary: ab) auto

definition ab_inv :: "adaptiveBitrate \<Rightarrow> bool" where
  "ab_inv ab \<longleftrightarrow> bitrateMin \<le> ab_current ab \<and> ab_current ab \<le> bitrateMax
     \<and> 0 \<le> ab_slowFrames ab \<and> ab_slowFrames ab \<le> ab_totalFrames ab
     \<and> ab_totalFrames ab < bitrateWindow"

section \<open>The float computations, on integers\<close>

text \<open>
  The two thresholds on a window of 15 frames: 20 percent is more than three slow frames, 5 percent is
  none. The 16 possible ratios are computed one by one.
\<close>

lemma slow_ratio_table:
  "list_all (\<lambda>s. f64_less (f64_lit 1 5) (f64_div (s, 0) (15, 0)) = (4 \<le> s)
      \<and> f64_less (f64_div (s, 0) (15, 0)) (f64_lit 1 20) = (s = 0))
    [0..15]"
  by code_simp

lemma slow_ratio:
  assumes "0 \<le> s" "s \<le> 15"
  shows "f64_less (f64_lit 1 5) (f64_div (f64_of_int s) (f64_of_int 15)) = (4 \<le> s)"
    and "f64_less (f64_div (f64_of_int s) (f64_of_int 15)) (f64_lit 1 20) = (s = 0)"
proof -
  have "f64_of_int s = (s, 0)" "f64_of_int 15 = (15, 0)"
    using assms by (simp_all add: f64_of_int_exact)
  moreover have "s \<in> set [0..15]"
    using assms by simp
  ultimately show
    "f64_less (f64_lit 1 5) (f64_div (f64_of_int s) (f64_of_int 15)) = (4 \<le> s)"
    "f64_less (f64_div (f64_of_int s) (f64_of_int 15)) (f64_lit 1 20) = (s = 0)"
    using slow_ratio_table unfolding list_all_iff by auto
qed

lemma div_bounds:
  assumes "0 < d"
  shows "r div d * d \<le> r \<and> r < (r div d + 1) * (d :: int)"
proof -
  have "r = r div d * d + r mod d" "0 \<le> r mod d" "r mod d < d" using assms by simp_all
  moreover have "(r div d + 1) * d = r div d * d + d" by (simp add: distrib_right)
  ultimately show ?thesis by linarith
qed

lemma trunc_scaled:
  assumes "0 \<le> a" "a < 2 ^ 80"
  defines "q \<equiv> f64_trunc (f64_round (a, -52))"
  shows "q * 2 ^ 53 \<le> 2 * a + 2 ^ 27 \<and> 2 * a - 2 ^ 27 < (q + 1) * 2 ^ 53"
proof -
  define k where "k = bit_length a - 53"
  define r where "r = rne_div a (2 ^ k)"
  have k: "k \<le> 27" using bit_length_le [OF assms(2)] by (simp add: k_def)
  have q: "q = r div 2 ^ (52 - k)"
    using k by (simp add: q_def f64_round_def f64_trunc_def k_def [symmetric] r_def Let_def
        nat_diff_distrib)
  have err: "2 * a \<le> 2 * (r * 2 ^ k) + 2 ^ k" "2 * (r * 2 ^ k) \<le> 2 * a + 2 ^ k"
    using rne_div_error [of "2 ^ k" a] by (simp_all add: r_def)
  have pk: "(2 :: int) ^ k \<le> 2 ^ 27" using k by (intro power_increasing) auto
  have split: "(2 :: int) ^ 52 = 2 ^ (52 - k) * 2 ^ k" using k by (simp flip: power_add)
  have "q * 2 ^ (52 - k) \<le> r" "r < (q + 1) * 2 ^ (52 - k)"
    unfolding q using div_bounds [of "2 ^ (52 - k)" r] by simp_all
  then have "q * 2 ^ (52 - k) * 2 ^ k \<le> r * 2 ^ k" "r * 2 ^ k < (q + 1) * 2 ^ (52 - k) * 2 ^ k"
    by (intro mult_right_mono, simp_all)
  then have "q * 2 ^ 52 \<le> r * 2 ^ k" "r * 2 ^ k < (q + 1) * 2 ^ 52"
    unfolding split by (simp_all add: mult.assoc)
  with err pk show ?thesis by (simp add: algebra_simps)
qed

text \<open>
  Scaling by 1.40 gives at most the exact seven fifths, rounded down, and never less than 1.39 times the
  old rate.
\<close>

lemma scale_up_bounds:
  assumes "bitrateMin \<le> c" "c \<le> bitrateMax"
  shows "scale_rate c bitrateStepUp \<le> c * 7 div 5 \<and> c * 139 \<le> scale_rate c bitrateStepUp * 100"
proof -
  have c: "1000000 \<le> c" "c \<le> 100000000" using assms by (simp_all add: bitrateMin_def bitrateMax_def)
  define a where "a = c * 6305039478318694"
  define q where "q = f64_trunc (f64_round (a, -52))"
  have a: "0 \<le> a" "a < 2 ^ 80" using c by (simp_all add: a_def)
  have q: "scale_rate c bitrateStepUp = q"
    using c by (simp add: scale_rate_def bitrateStepUp_def f64_of_int_exact f64_literals f64_mul_def
        q_def a_def)
  have b: "q * 2 ^ 53 \<le> 2 * a + 2 ^ 27" "2 * a - 2 ^ 27 < (q + 1) * 2 ^ 53"
    using trunc_scaled [OF a] unfolding q_def by auto
  have "5 * q \<le> 7 * c" using b(1) c unfolding a_def by simp
  moreover have "c * 139 \<le> q * 100" using b(2) c unfolding a_def by simp
  ultimately show ?thesis using q by simp
qed

lemma scale_down:
  assumes "0 \<le> c" "c \<le> bitrateMax"
  shows "scale_rate c bitrateStepDown = c div 2"
proof -
  define a :: int where "a = c * 2 ^ 52"
  define k where "k = bit_length a - 53"
  have "a < 2 ^ 80" using assms by (simp add: a_def bitrateMax_def)
  then have k: "k \<le> 27" using bit_length_le by (fastforce simp: k_def)
  have sp: "(2 :: int) ^ 52 = 2 ^ (52 - k) * 2 ^ k" using k by (simp flip: power_add)
  have "a = c * 2 ^ (52 - k) * 2 ^ k" by (simp add: a_def sp mult.assoc del: power_numeral)
  then have r: "rne_div a (2 ^ k) = c * 2 ^ (52 - k)"
    by (simp add: rne_div_def)
  have p53: "(2 :: int) ^ (53 - k) = 2 ^ (52 - k) * 2"
  proof -
    have "53 - k = Suc (52 - k)" using k by simp
    then show ?thesis by simp
  qed
  have "scale_rate c bitrateStepDown = f64_trunc (f64_round (a, -53))"
    using assms by (simp add: scale_rate_def bitrateStepDown_def f64_of_int_exact f64_literals
        f64_mul_def a_def bitrateMax_def)
  also have "\<dots> = c * 2 ^ (52 - k) div 2 ^ (53 - k)"
    using k r by (simp add: f64_round_def f64_trunc_def Let_def k_def [symmetric] nat_diff_distrib)
  also have "\<dots> = c div 2" unfolding p53 by (simp add: mult.commute)
  finally show ?thesis .
qed

section \<open>The specification on integers\<close>

text \<open>
  What the controller promises, with \<open>up\<close> as the step up: a window of 15 frames with more than three slow
  frames halves the rate, one with none raises it, any other keeps it; the rate stays between the floor
  and the ceiling.
\<close>

definition clamp_rate :: "int \<Rightarrow> int" where
  "clamp_rate c = max bitrateMin (min bitrateMax c)"

definition window_rate :: "(int \<Rightarrow> int) \<Rightarrow> int \<Rightarrow> int \<Rightarrow> int" where
  "window_rate up c slow =
     clamp_rate (if 4 \<le> slow then c div 2 else if slow = 0 then up c else c)"

definition report_spec :: "(int \<Rightarrow> int) \<Rightarrow> adaptiveBitrate \<Rightarrow> int \<Rightarrow> adaptiveBitrate \<times> int" where
  "report_spec up ab t =
     (let slow = ab_slowFrames ab + (if ab_budget ab < t then 1 else 0);
          total = ab_totalFrames ab + 1;
          c = window_rate up (ab_current ab) slow
      in if total < 15 then (ab\<lparr>ab_slowFrames := slow, ab_totalFrames := total\<rparr>, 0)
         else (ab\<lparr>ab_current := c, ab_slowFrames := 0, ab_totalFrames := 0\<rparr>,
               if c \<noteq> ab_current ab then c else 0))"

abbreviation step_up :: "int \<Rightarrow> int" where
  "step_up c \<equiv> scale_rate c bitrateStepUp"

lemma clamp_rate_alt:
  "(if bitrateMax < (if c < bitrateMin then bitrateMin else c) then bitrateMax
    else (if c < bitrateMin then bitrateMin else c)) = clamp_rate c"
  by (auto simp: clamp_rate_def bitrateMin_def bitrateMax_def)

lemma report_window_end:
  assumes "ab_inv ab" "ab_totalFrames ab = 14"
  shows "report ab t = report_spec step_up ab t"
proof -
  define slow where "slow = ab_slowFrames ab + (if ab_budget ab < t then 1 else 0)"
  have slow: "0 \<le> slow" "slow \<le> 15" using assms by (auto simp: ab_inv_def slow_def)
  have c: "0 \<le> ab_current ab" "ab_current ab \<le> bitrateMax"
    using assms by (auto simp: ab_inv_def bitrateMin_def)
  define ab2 where "ab2 = ab\<lparr>ab_slowFrames := slow, ab_totalFrames := 15\<rparr>"
  have ab2: "(if ab_budget (ab\<lparr>ab_totalFrames := ab_totalFrames ab + 1\<rparr>) < t
      then ab\<lparr>ab_totalFrames := ab_totalFrames ab + 1\<rparr>\<lparr>ab_slowFrames :=
        ab_slowFrames (ab\<lparr>ab_totalFrames := ab_totalFrames ab + 1\<rparr>) + 1\<rparr>
      else ab\<lparr>ab_totalFrames := ab_totalFrames ab + 1\<rparr>) = ab2"
    using assms(2) by (simp add: ab2_def slow_def)
  define c1 where "c1 = (if 4 \<le> slow then ab_current ab div 2
      else if slow = 0 then step_up (ab_current ab) else ab_current ab)"
  have c1: "(if f64_less (f64_lit 1 5) (f64_div (f64_of_int slow) (f64_of_int 15))
      then scale_rate (ab_current ab) bitrateStepDown
      else if f64_less (f64_div (f64_of_int slow) (f64_of_int 15)) (f64_lit 1 20)
      then step_up (ab_current ab) else ab_current ab) = c1"
    unfolding c1_def slow_ratio [OF slow] scale_down [OF c] by (rule refl)
  have sel: "ab_totalFrames ab2 = 15" "ab_slowFrames ab2 = slow" "ab_current ab2 = ab_current ab"
    by (simp_all add: ab2_def)
  have "report ab t = (ab2\<lparr>ab_current := clamp_rate c1, ab_slowFrames := 0, ab_totalFrames := 0\<rparr>,
      if clamp_rate c1 \<noteq> ab_current ab then clamp_rate c1 else 0)"
    unfolding report_def Let_def ab2 sel c1 clamp_rate_alt by (simp add: bitrateWindow_def)
  also have "\<dots> = report_spec step_up ab t"
    unfolding report_spec_def Let_def slow_def [symmetric] window_rate_def c1_def [symmetric]
    using assms(2) by (simp add: ab2_def)
  finally show ?thesis .
qed

lemma report_in_window:
  "ab_totalFrames ab < 14 \<Longrightarrow> report ab t = report_spec up ab t"
  by (simp add: report_def report_spec_def Let_def bitrateWindow_def)

lemma report_refines_spec: "ab_inv ab \<Longrightarrow> report ab t = report_spec step_up ab t"
  using report_window_end [of ab t] report_in_window [of ab t step_up]
  by (cases "ab_totalFrames ab < 14") (auto simp: ab_inv_def bitrateWindow_def)

lemma clamp_rate_bounds: "bitrateMin \<le> clamp_rate c \<and> clamp_rate c \<le> bitrateMax"
  by (simp add: clamp_rate_def bitrateMin_def bitrateMax_def)

lemma report_spec_inv: "ab_inv ab \<Longrightarrow> ab_inv (fst (report_spec up ab t))"
  using clamp_rate_bounds
  by (auto simp: report_spec_def ab_inv_def window_rate_def Let_def bitrateWindow_def)

lemma report_inv: "ab_inv ab \<Longrightarrow> ab_inv (fst (report ab t))"
  by (simp add: report_refines_spec report_spec_inv)

lemma reports_inv: "ab_inv ab \<Longrightarrow> ab_inv (reports ab ts)"
  by (induction ts arbitrary: ab) (auto simp: report_inv)

lemma new_inv: "ab_inv (newAdaptiveBitrate fps)"
  by (simp add: ab_inv_def newAdaptiveBitrate_def bitrateStart_def bitrateMin_def bitrateMax_def
      bitrateWindow_def)

section \<open>Whole windows\<close>

text \<open>Reports inside a window only count.\<close>

definition count_slow :: "int \<Rightarrow> int list \<Rightarrow> int" where
  "count_slow b ts = int (length (filter (\<lambda>t. b < t) ts))"

lemma reports_in_window:
  "ab_totalFrames ab + int (length ts) < 15 \<Longrightarrow>
     reports ab ts = ab\<lparr>ab_slowFrames := ab_slowFrames ab + count_slow (ab_budget ab) ts,
                        ab_totalFrames := ab_totalFrames ab + int (length ts)\<rparr>"
  by (induction ts arbitrary: ab)
    (auto simp: count_slow_def report_def bitrateWindow_def Let_def algebra_simps)

lemma reports_window:
  assumes "ab_inv ab" "ab_totalFrames ab = 0" "length ts = 15"
  shows "reports ab ts =
     ab\<lparr>ab_current := window_rate step_up (ab_current ab) (count_slow (ab_budget ab) ts),
        ab_slowFrames := 0, ab_totalFrames := 0\<rparr>"
proof -
  obtain us t where ts: "ts = us @ [t]" "length us = 14"
    using assms(3) by (cases ts rule: rev_cases) auto
  define ab' where "ab' = reports ab us"
  have s0: "ab_slowFrames ab = 0" using assms(1,2) by (auto simp: ab_inv_def)
  have ab': "ab' = ab\<lparr>ab_slowFrames := count_slow (ab_budget ab) us, ab_totalFrames := 14\<rparr>"
    using reports_in_window [of ab us] ts(2) assms(2) s0 by (simp add: ab'_def)
  have "ab_inv ab'" unfolding ab'_def using assms(1) by (rule reports_inv)
  then have "report ab' t = report_spec step_up ab' t" by (rule report_refines_spec)
  then show ?thesis
    unfolding ts reports_append ab'_def [symmetric]
    by (simp add: ab' report_spec_def Let_def count_slow_def)
qed

text \<open>\<open>n\<close> windows in which every frame is slow.\<close>

lemma reports_congested:
  assumes "ab_inv ab" "ab_totalFrames ab = 0" "length ts = 15 * n" "\<forall>t\<in>set ts. ab_budget ab < t"
  shows "ab_current (reports ab ts) = max bitrateMin (ab_current ab div 2 ^ n)
     \<and> ab_totalFrames (reports ab ts) = 0"
  using assms
proof (induction n arbitrary: ab ts)
  case 0
  then show ?case by (simp add: ab_inv_def)
next
  case (Suc n)
  define us vs where "us = take 15 ts" and "vs = drop 15 ts"
  have ts: "ts = us @ vs" "length us = 15" "length vs = 15 * n"
    using Suc.prems(3) by (simp_all add: us_def vs_def)
  have "filter (\<lambda>t. ab_budget ab < t) us = us" using Suc.prems(4) ts(1) by auto
  then have slow: "count_slow (ab_budget ab) us = 15" using ts(2) by (simp add: count_slow_def)
  have half_le: "min bitrateMax (ab_current ab div 2) = ab_current ab div 2"
  proof -
    have "1000000 \<le> ab_current ab" "ab_current ab \<le> bitrateMax"
      using Suc.prems(1) by (auto simp: ab_inv_def bitrateMin_def)
    then have "ab_current ab div 2 \<le> bitrateMax" by linarith
    then show ?thesis by simp
  qed
  define ab' where "ab' = reports ab us"
  have ab': "ab' = ab\<lparr>ab_current := max bitrateMin (ab_current ab div 2), ab_slowFrames := 0,
      ab_totalFrames := 0\<rparr>"
    using reports_window [OF Suc.prems(1,2) ts(2)] slow half_le
    by (simp add: ab'_def window_rate_def clamp_rate_def)
  have inv': "ab_inv ab'" unfolding ab'_def using Suc.prems(1) by (rule reports_inv)
  have "ab_current (reports ab' vs) = max bitrateMin (ab_current ab' div 2 ^ n)
      \<and> ab_totalFrames (reports ab' vs) = 0"
    using Suc.IH [OF inv' _ ts(3)] ab' Suc.prems(4) ts(1) by simp
  moreover have "max bitrateMin (ab_current ab' div 2 ^ n) = max bitrateMin (ab_current ab div 2 ^ Suc n)"
  proof -
    have "bitrateMin div 2 ^ n \<le> bitrateMin" 
      using zdiv_mono2 [of bitrateMin 1 "2 ^ n"] by (simp add: bitrateMin_def)
    moreover have "mono (\<lambda>x :: int. x div 2 ^ n)" by (simp add: mono_def zdiv_mono1)
    ultimately show ?thesis
      using max_of_mono [of "\<lambda>x :: int. x div 2 ^ n" bitrateMin "ab_current ab div 2"]
      by (simp add: ab' zdiv_zmult2_eq)
  qed
  ultimately show ?case by (simp add: ts(1) reports_append ab'_def)
qed

text \<open>
  \<open>n\<close> windows without a slow frame: the rate has reached the ceiling or has grown by 1.39 in each.
\<close>

lemma healthy_window:
  assumes "ab_inv ab" "ab_totalFrames ab = 0" "length ts = 15" "\<forall>t\<in>set ts. t \<le> ab_budget ab"
  shows "reports ab ts = ab\<lparr>ab_current := min bitrateMax (step_up (ab_current ab)),
     ab_slowFrames := 0, ab_totalFrames := 0\<rparr>"
proof -
  have "filter (\<lambda>t. ab_budget ab < t) ts = []" using assms(4) by (auto simp: filter_empty_conv)
  then have slow: "count_slow (ab_budget ab) ts = 0" by (simp add: count_slow_def)
  have c: "bitrateMin \<le> ab_current ab" "ab_current ab \<le> bitrateMax"
    using assms(1) by (auto simp: ab_inv_def)
  then have "bitrateMin \<le> min bitrateMax (step_up (ab_current ab))"
    using scale_up_bounds [OF c] by (simp add: bitrateMin_def bitrateMax_def)
  then show ?thesis
    using reports_window [OF assms(1-3)] slow by (simp add: window_rate_def clamp_rate_def max_def)
qed

lemma reports_healthy:
  assumes "ab_inv ab" "ab_totalFrames ab = 0" "length ts = 15 * n" "\<forall>t\<in>set ts. t \<le> ab_budget ab"
  shows "(ab_current (reports ab ts) = bitrateMax
      \<or> ab_current ab * 139 ^ n \<le> ab_current (reports ab ts) * 100 ^ n)
     \<and> ab_totalFrames (reports ab ts) = 0"
  using assms
proof (induction n arbitrary: ab ts)
  case 0
  then show ?case by simp
next
  case (Suc n)
  define us vs where "us = take 15 ts" and "vs = drop 15 ts"
  have ts: "ts = us @ vs" "length us = 15" "length vs = 15 * n"
    using Suc.prems(3) by (simp_all add: us_def vs_def)
  define ab' where "ab' = reports ab us"
  have ab': "ab' = ab\<lparr>ab_current := min bitrateMax (step_up (ab_current ab)), ab_slowFrames := 0,
      ab_totalFrames := 0\<rparr>"
    using healthy_window [OF Suc.prems(1,2) ts(2)] Suc.prems(4) ts(1) by (simp add: ab'_def)
  have inv': "ab_inv ab'" unfolding ab'_def using Suc.prems(1) by (rule reports_inv)
  have c: "bitrateMin \<le> ab_current ab" "ab_current ab \<le> bitrateMax"
    using Suc.prems(1) by (auto simp: ab_inv_def)
  have fin_inv: "ab_current (reports ab' vs) \<le> bitrateMax"
    using reports_inv [OF inv', of vs] by (simp add: ab_inv_def)
  have IH: "(ab_current (reports ab' vs) = bitrateMax
      \<or> ab_current ab' * 139 ^ n \<le> ab_current (reports ab' vs) * 100 ^ n)
     \<and> ab_totalFrames (reports ab' vs) = 0"
    using Suc.IH [OF inv' _ ts(3)] ab' Suc.prems(4) ts(1) by simp
  have "ab_current (reports ab' vs) = bitrateMax
      \<or> ab_current ab * 139 ^ Suc n \<le> ab_current (reports ab' vs) * 100 ^ Suc n"
  proof (cases "ab_current (reports ab' vs) = bitrateMax")
    case False
    define d where "d = ab_current (reports ab' vs)"
    from False IH have grow: "ab_current ab' * 139 ^ n \<le> d * 100 ^ n" by (simp add: d_def)
    have "ab_current ab' < bitrateMax"
    proof (rule ccontr)
      assume "\<not> ab_current ab' < bitrateMax"
      then have full: "ab_current ab' = bitrateMax" by (simp add: ab')
      have "(100 :: int) ^ n \<le> 139 ^ n" by (rule power_mono) auto
      then have "bitrateMax * 100 ^ n \<le> bitrateMax * 139 ^ n" by (simp add: bitrateMax_def)
      also have "\<dots> \<le> d * 100 ^ n" using grow full by simp
      finally have "bitrateMax * 100 ^ n \<le> d * 100 ^ n" .
      then have "bitrateMax \<le> d" by simp
      with fin_inv False show False by (simp add: d_def)
    qed
    then have "ab_current ab' = step_up (ab_current ab)" by (auto simp: ab' min_def split: if_splits)
    then have "ab_current ab * 139 \<le> ab_current ab' * 100" using scale_up_bounds [OF c] by simp
    then have "ab_current ab * 139 * 139 ^ n \<le> ab_current ab' * 100 * 139 ^ n" by simp
    also have "\<dots> = ab_current ab' * 139 ^ n * 100" by simp
    also have "\<dots> \<le> d * 100 ^ n * 100" using grow by simp
    finally show ?thesis by (simp add: d_def ac_simps)
  qed simp
  with IH show ?case by (simp add: ts(1) reports_append ab'_def)
qed

lemma reports_recover:
  assumes "ab_inv ab" "ab_totalFrames ab = 0" "length ts = 15 * 14" "\<forall>t\<in>set ts. t \<le> ab_budget ab"
  shows "ab_current (reports ab ts) = bitrateMax"
proof (rule ccontr)
  assume ne: "ab_current (reports ab ts) \<noteq> bitrateMax"
  then have g: "ab_current ab * 139 ^ 14 \<le> ab_current (reports ab ts) * 100 ^ 14"
    using reports_healthy [OF assms] by simp
  have "bitrateMin * 139 ^ 14 \<le> ab_current ab * 139 ^ 14"
    using assms(1) by (simp add: ab_inv_def)
  with g have "bitrateMin * 139 ^ 14 \<le> ab_current (reports ab ts) * 100 ^ 14" by linarith
  then have "bitrateMax \<le> ab_current (reports ab ts)" by (simp add: bitrateMin_def bitrateMax_def)
  with ne reports_inv [OF assms(1), of ts] show False by (simp add: ab_inv_def)
qed

section \<open>Properties\<close>

text \<open>
  C9. The controller with its float arithmetic implements the integer specification: from a new controller,
  after any reports, one more report gives what \<open>report_spec\<close> says, and the rate is within its bounds.
\<close>

theorem controller_refines:
  "report (reports (newAdaptiveBitrate fps) ts) t = report_spec step_up (reports (newAdaptiveBitrate fps) ts) t
   \<and> bitrateMin \<le> ab_current (reports (newAdaptiveBitrate fps) ts)
   \<and> ab_current (reports (newAdaptiveBitrate fps) ts) \<le> bitrateMax"
  using reports_inv [OF new_inv, of fps ts] report_refines_spec by (simp add: ab_inv_def)

text \<open>
  Congestion: after \<open>n\<close> windows of 15 frames that were all over the budget, a new controller is at the
  start rate divided by two to the \<open>n\<close>, or at the floor: after five windows it is at the floor.
\<close>

theorem controller_backs_off:
  assumes "length ts = 15 * n" "\<forall>t\<in>set ts. go_div time_second fps < t"
  shows "ab_current (reports (newAdaptiveBitrate fps) ts) = max bitrateMin (bitrateStart div 2 ^ n)
    \<and> (5 \<le> n \<longrightarrow> ab_current (reports (newAdaptiveBitrate fps) ts) = bitrateMin)"
proof -
  have 1: "ab_current (reports (newAdaptiveBitrate fps) ts) = max bitrateMin (bitrateStart div 2 ^ n)"
    using reports_congested [OF new_inv, of fps ts n] assms by (simp add: newAdaptiveBitrate_def)
  have "bitrateStart div 2 ^ n \<le> bitrateMin" if "5 \<le> n"
  proof -
    have "(2 :: int) ^ 5 \<le> 2 ^ n" using that by (intro power_increasing) auto
    then have "bitrateStart div 2 ^ n \<le> bitrateStart div 2 ^ 5"
      by (intro zdiv_mono2) (simp_all add: bitrateStart_def)
    then show ?thesis by (simp add: bitrateStart_def bitrateMin_def)
  qed
  with 1 show ?thesis by simp
qed

lemma controller_backs_off_witness:
  "ab_current (reports (newAdaptiveBitrate 15) (replicate 75 100000000)) = bitrateMin"
proof -
  have 1: "length (replicate 75 (100000000 :: int)) = 15 * 5" by simp
  have 2: "\<forall>t\<in>set (replicate 75 (100000000 :: int)). go_div time_second 15 < t"
    by (simp add: time_second_def)
  from controller_backs_off [OF 1 2] show ?thesis by simp
qed

text \<open>
  C10. Recovery: from every state the controller can be in between two windows, 14 windows without a slow
  frame bring the rate to the ceiling.
\<close>

theorem controller_recovers:
  assumes "ab_totalFrames (reports (newAdaptiveBitrate fps) us) = 0"
    and "length ts = 15 * 14" "\<forall>t\<in>set ts. t \<le> ab_budget (reports (newAdaptiveBitrate fps) us)"
  shows "ab_current (reports (newAdaptiveBitrate fps) (us @ ts)) = bitrateMax"
  using reports_recover [OF reports_inv [OF new_inv] assms] by (simp add: reports_append)

lemma controller_recovers_witness:
  "ab_current (reports (newAdaptiveBitrate 15) ([] @ replicate 210 0)) = bitrateMax"
proof -
  have 1: "ab_totalFrames (reports (newAdaptiveBitrate 15) []) = 0" by (simp add: newAdaptiveBitrate_def)
  have 2: "length (replicate 210 (0 :: int)) = 15 * 14" by simp
  have 3: "\<forall>t\<in>set (replicate 210 0). t \<le> ab_budget (reports (newAdaptiveBitrate 15) [])"
    by (simp add: newAdaptiveBitrate_def time_second_def)
  show ?thesis by (rule controller_recovers [OF 1 2 3])
qed

end
