(* ===== verification/Session_Store.thy ===== *)
theory Session_Store
  imports Go_Strings "HOL-Library.AList"
begin

text \<open>
  server/session.go: the sessions of the relay, keyed by their pairing token. The map holds pointers to
  entries, and a handler keeps its pointer after the entry has left the map, so entries live in a heap
  and the map holds their addresses. Peers are named by the number of the handler that made them.
\<close>

section \<open>State\<close>

type_synonym peer_role = string

definition RoleViewer :: peer_role where "RoleViewer = ''viewer''"
definition RoleAgent :: peer_role where "RoleAgent = ''agent''"

lemma roles_differ [simp]: "RoleViewer \<noteq> RoleAgent" "RoleAgent \<noteq> RoleViewer"
  by (simp_all add: RoleViewer_def RoleAgent_def)

record session_entry =
  se_token :: string
  se_viewer :: "nat option"
  se_agent :: "nat option"
  se_pairCh :: "nat list"

record session_store =
  ss_sessions :: "(string \<times> nat) list"
  ss_max :: int
  ss_heap :: "session_entry list"

definition newSessionStore :: "int \<Rightarrow> session_store" where
  "newSessionStore max_sessions = \<lparr>ss_sessions = [], ss_max = max_sessions, ss_heap = []\<rparr>"

definition session_count :: "session_store \<Rightarrow> nat" where
  "session_count s = length (ss_sessions s)"

section \<open>Operations\<close>

text \<open>\<open>getOrCreate\<close>: the entry and whether it is new; no entry when the store is full.\<close>

definition getOrCreate :: "session_store \<Rightarrow> string \<Rightarrow> session_store \<times> nat option \<times> bool" where
  "getOrCreate s token =
     (case map_of (ss_sessions s) token of
        Some a \<Rightarrow> (s, Some a, False)
      | None \<Rightarrow>
          if 0 < ss_max s \<and> ss_max s \<le> int (length (ss_sessions s)) then (s, None, False)
          else (let a = length (ss_heap s);
                    e = \<lparr>se_token = token, se_viewer = None, se_agent = None, se_pairCh = []\<rparr>
                in (s\<lparr>ss_sessions := AList.update token a (ss_sessions s), ss_heap := ss_heap s @ [e]\<rparr>,
                    Some a, True)))"

definition remove_session :: "session_store \<Rightarrow> string \<Rightarrow> session_store" where
  "remove_session s token = s\<lparr>ss_sessions := AList.delete token (ss_sessions s)\<rparr>"

text \<open>
  \<open>register\<close>: \<open>RegTaken\<close>, the role is taken; \<open>RegPartner q\<close>, the other peer is there and the returned
  channel holds it; \<open>RegWait\<close>, wait on the channel of the entry. \<open>RegBlock\<close> is a send on the full channel
  of the entry, which would block with the lock of the entry held.
\<close>

datatype reg_result = RegTaken | RegPartner nat | RegWait | RegBlock

definition notify_pair :: "session_entry \<Rightarrow> nat \<Rightarrow> nat \<Rightarrow> session_entry \<times> reg_result" where
  "notify_pair e p other =
     (if se_pairCh e = [] then (e\<lparr>se_pairCh := [p]\<rparr>, RegPartner other) else (e, RegBlock))"

definition register_peer :: "session_entry \<Rightarrow> peer_role \<Rightarrow> nat \<Rightarrow> session_entry \<times> reg_result" where
  "register_peer e role p =
     (if role = RoleViewer then
        (if se_viewer e \<noteq> None then (e, RegTaken)
         else (let e' = e\<lparr>se_viewer := Some p\<rparr> in
               case se_agent e' of Some q \<Rightarrow> notify_pair e' p q | None \<Rightarrow> (e', RegWait)))
      else if role = RoleAgent then
        (if se_agent e \<noteq> None then (e, RegTaken)
         else (let e' = e\<lparr>se_agent := Some p\<rparr> in
               case se_viewer e' of Some q \<Rightarrow> notify_pair e' p q | None \<Rightarrow> (e', RegWait)))
      else (e, RegWait))"

section \<open>The store stays within its bound\<close>

definition store_inv :: "session_store \<Rightarrow> bool" where
  "store_inv s \<longleftrightarrow> distinct (map fst (ss_sessions s))
     \<and> (0 < ss_max s \<longrightarrow> int (length (ss_sessions s)) \<le> ss_max s)
     \<and> (\<forall>(t, a) \<in> set (ss_sessions s). a < length (ss_heap s) \<and> se_token (ss_heap s ! a) = t)"

lemma new_store_inv: "store_inv (newSessionStore m)"
  by (simp add: store_inv_def newSessionStore_def)

lemma length_update_new: "map_of al k = None \<Longrightarrow> length (AList.update k v al) = Suc (length al)"
  by (induction al) (auto split: if_splits)

lemma length_delete_le: "length (AList.delete k al) \<le> length al"
  by (simp add: AList.delete_eq)

lemma set_update_new: "map_of al k = None \<Longrightarrow> set (AList.update k v al) = insert (k, v) (set al)"
  by (induction al) (auto split: if_splits)

lemma getOrCreate_inv:
  assumes "store_inv s"
  shows "store_inv (fst (getOrCreate s token))"
proof (cases "map_of (ss_sessions s) token")
  case (Some a)
  with assms show ?thesis by (simp add: getOrCreate_def)
next
  case None
  with assms show ?thesis
    by (auto simp: getOrCreate_def store_inv_def Let_def length_update_new set_update_new
        distinct_update nth_append)
qed

lemma set_delete_subset: "set (AList.delete k al) \<subseteq> set al"
  by (auto simp: AList.delete_eq)

lemma remove_session_inv:
  assumes "store_inv s"
  shows "store_inv (remove_session s token)"
proof -
  have "length (AList.delete token (ss_sessions s)) \<le> length (ss_sessions s)"
    by (rule length_delete_le)
  with assms set_delete_subset [of token "ss_sessions s"] show ?thesis
    by (fastforce simp: store_inv_def remove_session_def intro: distinct_delete)
qed

lemma getOrCreate_lookup:
  "getOrCreate s token = (s', Some a, b) \<Longrightarrow> map_of (ss_sessions s') token = Some a"
  by (auto simp: getOrCreate_def Let_def update_conv split: option.splits if_splits)

lemma getOrCreate_again:
  "getOrCreate s token = (s', Some a, b) \<Longrightarrow> getOrCreate s' token = (s', Some a, False)"
  using getOrCreate_lookup [of s token s' a b] by (simp add: getOrCreate_def)

lemma getOrCreate_full:
  "fst (snd (getOrCreate s token)) = None \<longleftrightarrow>
     map_of (ss_sessions s) token = None \<and> 0 < ss_max s \<and> ss_max s \<le> int (session_count s)"
  by (auto simp: getOrCreate_def Let_def session_count_def split: option.splits)

lemma lookup_remove: "map_of (ss_sessions (remove_session s t)) u =
    (if u = t then None else map_of (ss_sessions s) u)"
  by (simp add: remove_session_def delete_conv')

section \<open>Pairing\<close>

text \<open>The channel of an entry holds a peer only when both roles are taken: a send on it finds it empty.\<close>

definition entry_inv :: "session_entry \<Rightarrow> bool" where
  "entry_inv e \<longleftrightarrow> length (se_pairCh e) \<le> 1
     \<and> (se_viewer e = None \<or> se_agent e = None \<longrightarrow> se_pairCh e = [])"

lemma register_never_blocks:
  "entry_inv e \<Longrightarrow> snd (register_peer e role p) \<noteq> RegBlock"
  by (auto simp: register_peer_def notify_pair_def entry_inv_def Let_def split: option.splits)

lemma register_inv: "entry_inv e \<Longrightarrow> entry_inv (fst (register_peer e role p))"
  by (auto simp: register_peer_def notify_pair_def entry_inv_def Let_def split: option.splits)

definition slot :: "session_entry \<Rightarrow> peer_role \<Rightarrow> nat option" where
  "slot e role = (if role = RoleViewer then se_viewer e
                  else if role = RoleAgent then se_agent e else None)"

definition other_role :: "peer_role \<Rightarrow> peer_role" where
  "other_role role = (if role = RoleViewer then RoleAgent else RoleViewer)"

definition known_role :: "peer_role \<Rightarrow> bool" where
  "known_role role \<longleftrightarrow> role = RoleViewer \<or> role = RoleAgent"

lemma other_role_simps [simp]:
  "other_role RoleViewer = RoleAgent" "other_role RoleAgent = RoleViewer"
  by (simp_all add: other_role_def)

lemma register_slot:
  assumes "known_role role" "entry_inv e" "slot e role = None"
  shows "slot (fst (register_peer e role p)) role = Some p"
    and "slot (fst (register_peer e role p)) (other_role role) = slot e (other_role role)"
    and "snd (register_peer e role p) = (case slot e (other_role role) of
           None \<Rightarrow> RegWait | Some q \<Rightarrow> RegPartner q)"
    and "se_pairCh (fst (register_peer e role p)) = (case slot e (other_role role) of
           None \<Rightarrow> [] | Some q \<Rightarrow> [p])"
  using assms
  by (auto simp: known_role_def register_peer_def notify_pair_def entry_inv_def slot_def Let_def
      split: option.splits)

lemma register_taken:
  "known_role role \<Longrightarrow> slot e role \<noteq> None \<Longrightarrow> register_peer e role p = (e, RegTaken)"
  by (auto simp: known_role_def register_peer_def slot_def)

end
