(* ===== verification/Json.thy ===== *)
theory Json
  imports Go_Strings Float64 "HOL-Library.AList" "HOL-Library.List_Lexorder" "HOL-Library.Char_ord"
begin

text \<open>
  What the program uses of \<open>encoding/json\<close>: the value of a parsed text and the decoding of an object
  into a Go struct, field by field. The parser itself, from text to value, is a parameter of the
  operations that call it. Messages the program writes are values as well.
\<close>

section \<open>Values\<close>

text \<open>
  \<open>JInt\<close> is a number literal with neither fraction nor exponent; \<open>JDec neg m e\<close> is any other, of value
  \<open>m * 10 ^ e\<close> with the sign \<open>neg\<close>.
\<close>

datatype json =
    JNull
  | JBool bool
  | JInt int
  | JDec bool int int
  | JStr string
  | JArr "json list"
  | JObj "(string \<times> json) list"

text \<open>A Go \<open>float64\<close> with its sign, and its truncation \<open>int(f)\<close>.\<close>

type_synonym gofloat = "bool \<times> f64"

definition float_of_dec :: "bool \<Rightarrow> int \<Rightarrow> int \<Rightarrow> gofloat" where
  "float_of_dec neg m e =
     (neg, if 0 \<le> e then f64_of_int (m * 10 ^ nat e) else f64_div (m, 0) (10 ^ nat (- e), 0))"

definition float_of_int :: "int \<Rightarrow> gofloat" where
  "float_of_int i = (i < 0, f64_of_int \<bar>i\<bar>)"

definition int_of_float :: "gofloat \<Rightarrow> int" where
  "int_of_float f = (if fst f then - f64_trunc (snd f) else f64_trunc (snd f))"

lemma int_of_float_of_int: "\<bar>i\<bar> < 2 ^ 53 \<Longrightarrow> int_of_float (float_of_int i) = i"
  by (simp add: int_of_float_def float_of_int_def f64_of_int_exact f64_trunc_def)

section \<open>Decoding an object into a struct\<close>

text \<open>
  The values stored under a field, in the order of the text: names match without regard to case, and
  the last value wins.
\<close>

definition json_field :: "string \<Rightarrow> (string \<times> json) list \<Rightarrow> json list" where
  "json_field k kvs = map snd (filter (\<lambda>(k', v). to_lower k' = to_lower k) kvs)"

text \<open>
  Decoding one field: the value and whether every value had the field's type. \<open>null\<close> leaves a scalar field
  unchanged; a value of another type is an error that leaves it unchanged too.
\<close>

definition dec_field :: "(json \<Rightarrow> 'a option) \<Rightarrow> 'a \<Rightarrow> string \<Rightarrow> (string \<times> json) list \<Rightarrow> 'a \<times> bool" where
  "dec_field f zero k kvs =
     foldl (\<lambda>(v, ok) j. if j = JNull then (v, ok)
              else case f j of Some w \<Rightarrow> (w, ok) | None \<Rightarrow> (v, False))
       (zero, True) (json_field k kvs)"

fun as_string :: "json \<Rightarrow> string option" where
  "as_string (JStr s) = Some s"
| "as_string j = None"

fun as_bool :: "json \<Rightarrow> bool option" where
  "as_bool (JBool b) = Some b"
| "as_bool j = None"

fun as_int :: "json \<Rightarrow> int option" where
  "as_int (JInt i) = (if - (2 ^ 63) \<le> i \<and> i < 2 ^ 63 then Some i else None)"
| "as_int j = None"

fun as_float :: "json \<Rightarrow> gofloat option" where
  "as_float (JInt i) = Some (float_of_int i)"
| "as_float (JDec neg m e) = Some (float_of_dec neg m e)"
| "as_float j = None"

definition dec_string :: "string \<Rightarrow> (string \<times> json) list \<Rightarrow> string \<times> bool" where
  "dec_string = dec_field as_string []"

definition dec_bool :: "string \<Rightarrow> (string \<times> json) list \<Rightarrow> bool \<times> bool" where
  "dec_bool = dec_field as_bool False"

definition dec_int :: "string \<Rightarrow> (string \<times> json) list \<Rightarrow> int \<times> bool" where
  "dec_int = dec_field as_int 0"

definition dec_float :: "string \<Rightarrow> (string \<times> json) list \<Rightarrow> gofloat \<times> bool" where
  "dec_float = dec_field as_float (float_of_int 0)"

text \<open>The fields of a struct: of an object, or none for \<open>null\<close>; any other value is an error.\<close>

fun dec_struct :: "json \<Rightarrow> (string \<times> json) list option" where
  "dec_struct (JObj kvs) = Some kvs"
| "dec_struct JNull = Some []"
| "dec_struct j = None"

text \<open>
  A map \<open>map[string]interface{}\<close>: the keys as they are written, the last value of a key wins, and a type
  assertion on the value read (\<open>v, _ := m[k].(string)\<close>).
\<close>

definition map_get :: "string \<Rightarrow> (string \<times> json) list \<Rightarrow> json option" where
  "map_get k kvs = map_of (rev kvs) k"

definition payloadString :: "(string \<times> json) list \<Rightarrow> string \<Rightarrow> string" where
  "payloadString payload k =
     (case map_get k payload of Some (JStr s) \<Rightarrow> s | _ \<Rightarrow> [])"

definition payloadFloat :: "(string \<times> json) list \<Rightarrow> string \<Rightarrow> gofloat option" where
  "payloadFloat payload k = (case map_get k payload of Some j \<Rightarrow> as_float j | None \<Rightarrow> None)"

lemma json_field_single [simp]:
  "json_field k [] = []"
  "json_field k ((k', v) # kvs) =
     (if to_lower k' = to_lower k then v # json_field k kvs else json_field k kvs)"
  by (simp_all add: json_field_def)

lemma map_get_append: "map_get k (kvs @ [(k', v)]) = (if k = k' then Some v else map_get k kvs)"
  by (simp add: map_get_def)

text \<open>
  A map written as an object: its keys in byte order, each once, with its last value.
\<close>

definition go_map :: "(string \<times> json) list \<Rightarrow> json" where
  "go_map kvs = JObj (sort_key fst (AList.clearjunk (rev kvs)))"

end
