(* ===== verification/Relay_Auth.thy ===== *)
theory Relay_Auth
  imports Json
begin

text \<open>
  The relay server's configuration (server/config.go), its viewer tokens (server/auth.go and
  server/signal.go) and the validation of agents. The keyed hash of \<open>crypto/hmac\<close> with SHA-256 is a
  parameter \<open>mac\<close>, from the secret and the text to the digest; the clock is the parameter \<open>now\<close>, in
  seconds.
\<close>

section \<open>Configuration\<close>

record relay_config =
  rc_Addr :: string
  rc_OblianceURL :: string
  rc_RelaySecret :: string
  rc_MaxSessions :: int
  rc_PairTimeoutSec :: int
  rc_IdleTimeoutSec :: int
  rc_TLSCert :: string
  rc_TLSKey :: string

text \<open>The environment gives the empty string for a variable that is not set.\<close>

type_synonym env = "string \<Rightarrow> string"

definition envStr :: "env \<Rightarrow> string \<Rightarrow> string \<Rightarrow> string" where
  "envStr env key fallback = (if env key \<noteq> [] then env key else fallback)"

definition envInt :: "env \<Rightarrow> string \<Rightarrow> int \<Rightarrow> int" where
  "envInt env key fallback =
     (if env key = [] then fallback
      else case atoi (env key) of None \<Rightarrow> fallback | Some n \<Rightarrow> n)"

text \<open>\<open>loadConfig\<close>: the configuration and whether the default secret was warned about, or the fatal exit.\<close>

definition default_secret :: string where
  "default_secret = ''change-me-in-production''"

definition relay_loadConfig :: "env \<Rightarrow> string + (relay_config \<times> bool)" where
  "relay_loadConfig env =
     (let cfg = \<lparr>rc_Addr = envStr env ''OBLIREACH_ADDR'' '':7900'',
                 rc_OblianceURL = envStr env ''OBLIANCE_URL'' ''http://localhost:3001'',
                 rc_RelaySecret = envStr env ''OBLIREACH_SECRET'' default_secret,
                 rc_MaxSessions = envInt env ''OBLIREACH_MAX_SESSIONS'' 500,
                 rc_PairTimeoutSec = envInt env ''OBLIREACH_PAIR_TIMEOUT'' 60,
                 rc_IdleTimeoutSec = envInt env ''OBLIREACH_IDLE_TIMEOUT'' 3600,
                 rc_TLSCert = envStr env ''OBLIREACH_TLS_CERT'' [],
                 rc_TLSKey = envStr env ''OBLIREACH_TLS_KEY'' []\<rparr>;
          warn = (rc_RelaySecret cfg = default_secret)
      in if rc_OblianceURL cfg = [] then Inl ''OBLIANCE_URL must be set''
         else Inr (cfg\<lparr>rc_OblianceURL := trim_right CHR ''/'' (rc_OblianceURL cfg)\<rparr>, warn))"

lemma envStr_ne: "fallback \<noteq> [] \<Longrightarrow> envStr env key fallback \<noteq> []"
  by (simp add: envStr_def)

lemma relay_loadConfig_total: "\<exists>cfg warn. relay_loadConfig env = Inr (cfg, warn)"
  using envStr_ne [of "''http://localhost:3001''" env "''OBLIANCE_URL''"]
  by (simp add: relay_loadConfig_def Let_def)

lemma relay_loadConfig_Inr:
  assumes "relay_loadConfig env = Inr (cfg, warn)"
  shows "rc_RelaySecret cfg = envStr env ''OBLIREACH_SECRET'' default_secret"
    and "warn \<longleftrightarrow> rc_RelaySecret cfg = default_secret"
    and "rc_OblianceURL cfg = trim_right CHR ''/'' (envStr env ''OBLIANCE_URL'' ''http://localhost:3001'')"
  using assms by (simp_all add: relay_loadConfig_def Let_def split: if_split_asm) fastforce+

lemma relay_loadConfig_secret:
  "relay_loadConfig env = Inr (cfg, warn) \<Longrightarrow>
     rc_RelaySecret cfg \<noteq> [] \<and> (warn \<longleftrightarrow> rc_RelaySecret cfg = default_secret)"
  using relay_loadConfig_Inr [of env cfg warn] envStr_ne [of default_secret env]
  by (simp add: default_secret_def)

lemma relay_loadConfig_url:
  "relay_loadConfig env = Inr (cfg, warn) \<Longrightarrow>
     rc_OblianceURL cfg = [] \<or> last (rc_OblianceURL cfg) \<noteq> CHR ''/''"
  using relay_loadConfig_Inr(3) trim_right_last by metis

section \<open>Viewer tokens\<close>

type_synonym mac = "string \<Rightarrow> string \<Rightarrow> bytes"

definition signHMAC :: "mac \<Rightarrow> string \<Rightarrow> string \<Rightarrow> string" where
  "signHMAC mac data secret = hex_encode (mac secret data)"

definition dot :: char where "dot = CHR ''.''"

text \<open>\<open>issueViewerToken\<close>: \<open>token.expire.signature\<close>.\<close>

definition issueViewerToken :: "mac \<Rightarrow> int \<Rightarrow> string \<Rightarrow> int \<Rightarrow> string \<Rightarrow> string" where
  "issueViewerToken mac now sessionToken ttlSeconds secret =
     (let expire = show_int (now + ttlSeconds);
          sig = signHMAC mac (sessionToken @ [dot] @ expire) secret
      in sessionToken @ [dot] @ expire @ [dot] @ sig)"

datatype token_err = InvalidFormat | InvalidSignature | InvalidExpiry | TokenExpired

definition validateViewerToken :: "mac \<Rightarrow> int \<Rightarrow> string \<Rightarrow> string \<Rightarrow> token_err + string" where
  "validateViewerToken mac now secret rawToken =
     (case split_on dot rawToken of
        [sessionToken, expireStr, sig] \<Rightarrow>
          (let expected = signHMAC mac (sessionToken @ [dot] @ expireStr) secret
           in if expected \<noteq> sig then Inl InvalidSignature
              else case sscanf_d expireStr of
                 None \<Rightarrow> Inl InvalidExpiry
               | Some expireTs \<Rightarrow>
                   if expireTs < now then Inl TokenExpired else Inr sessionToken)
      | _ \<Rightarrow> Inl InvalidFormat)"

text \<open>The text of a token has exactly the three parts that \<open>strings.Split\<close> finds.\<close>

lemma split_token:
  assumes "dot \<notin> set tok" "dot \<notin> set e" "dot \<notin> set s"
  shows "split_on dot (tok @ [dot] @ e @ [dot] @ s) = [tok, e, s]"
  using assms by (simp add: split_on_append split_on_none)

lemma dot_notin_show_int: "dot \<notin> set (show_int i)"
  unfolding dot_def by (rule show_int_no) (simp_all add: is_digit_def)

lemma dot_notin_sig: "dot \<notin> set (signHMAC mac d s)"
  unfolding dot_def signHMAC_def by (rule hex_encode_no_dot)

lemma split_issued:
  assumes "dot \<notin> set tok"
  shows "split_on dot (issueViewerToken mac now tok ttl secret) =
    [tok, show_int (now + ttl), signHMAC mac (tok @ [dot] @ show_int (now + ttl)) secret]"
  using split_token [OF assms dot_notin_show_int dot_notin_sig]
  unfolding issueViewerToken_def Let_def .

lemma validate_issued:
  assumes "dot \<notin> set tok" "0 \<le> now + ttl" "now + ttl < 2 ^ 63"
  shows "validateViewerToken mac now' secret (issueViewerToken mac now tok ttl secret) =
    (if now + ttl < now' then Inl TokenExpired else Inr tok)"
  using assms by (simp add: validateViewerToken_def split_issued sscanf_show_int)

lemma length_split_on: "length (split_on c s) = Suc (length (filter (\<lambda>d. d = c) s))"
  by (induction s) (auto split: list.splits)

lemma validate_dotted:
  assumes "dot \<in> set tok"
  shows "validateViewerToken mac now' secret (issueViewerToken mac now tok ttl secret) = Inl InvalidFormat"
proof -
  have "filter (\<lambda>d. d = dot) tok \<noteq> []" using assms by (auto simp: filter_empty_conv)
  then have "3 < length (split_on dot (issueViewerToken mac now tok ttl secret))"
    by (simp add: length_split_on issueViewerToken_def Let_def)
  then show ?thesis unfolding validateViewerToken_def by (auto split: list.splits)
qed

text \<open>Everything an accepted token must be.\<close>

lemma validate_sound:
  assumes "validateViewerToken mac now secret raw = Inr tok"
  shows "\<exists>e ts. raw = tok @ [dot] @ e @ [dot] @ signHMAC mac (tok @ [dot] @ e) secret
    \<and> sscanf_d e = Some ts \<and> now \<le> ts \<and> dot \<notin> set tok"
proof -
  obtain e s where p: "split_on dot raw = [tok, e, s]"
    and s: "s = signHMAC mac (tok @ [dot] @ e) secret"
    and ts: "\<exists>ts. sscanf_d e = Some ts \<and> now \<le> ts"
    using assms unfolding validateViewerToken_def
    by (auto simp: Let_def split: list.splits option.splits if_splits)
  have "raw = join_with dot [tok, e, s]" using join_split [of dot raw] p by simp
  moreover have "dot \<notin> set tok" using split_on_no_sep [of tok dot raw] p by simp
  ultimately show ?thesis using s ts by auto
qed

section \<open>The endpoint that issues tokens\<close>

datatype http_reply = HttpError nat string | HttpOK "(string \<times> json) list"

record issue_request =
  ir_secret_header :: string
  ir_method :: string
  ir_body :: "json option"

definition clamp_ttl :: "int \<Rightarrow> int" where
  "clamp_ttl ttl = (if ttl \<le> 0 \<or> 86400 < ttl then 3600 else ttl)"

definition handleIssueToken :: "mac \<Rightarrow> int \<Rightarrow> relay_config \<Rightarrow> issue_request \<Rightarrow> http_reply" where
  "handleIssueToken mac now cfg r =
     (if ir_secret_header r \<noteq> rc_RelaySecret cfg then HttpError 403 ''forbidden''
      else if ir_method r \<noteq> ''POST'' then HttpError 405 ''method not allowed''
      else case Option.bind (ir_body r) dec_struct of
         None \<Rightarrow> HttpError 400 ''invalid body''
       | Some kvs \<Rightarrow>
           (let (tok, ok1) = dec_string ''sessionToken'' kvs;
                (ttl, ok2) = dec_int ''ttlSeconds'' kvs
            in if \<not> (ok1 \<and> ok2) \<or> tok = [] then HttpError 400 ''invalid body''
               else HttpOK [(''viewerToken'',
                      JStr (issueViewerToken mac now tok (clamp_ttl ttl) (rc_RelaySecret cfg)))]))"

lemma clamp_ttl_range: "1 \<le> clamp_ttl ttl \<and> clamp_ttl ttl \<le> 86400"
  by (simp add: clamp_ttl_def)

lemma handleIssueToken_OK:
  assumes "handleIssueToken mac now cfg r = HttpOK fs"
  shows "ir_secret_header r = rc_RelaySecret cfg \<and> ir_method r = ''POST'' \<and>
    (\<exists>tok ttl. tok \<noteq> [] \<and> 1 \<le> ttl \<and> ttl \<le> 86400 \<and>
       fs = [(''viewerToken'', JStr (issueViewerToken mac now tok ttl (rc_RelaySecret cfg)))])"
  using assms clamp_ttl_range
  by (auto simp: handleIssueToken_def Let_def split: if_splits option.splits prod.splits)

section \<open>The health check and the agents\<close>

definition handleHealth :: "string \<Rightarrow> nat \<Rightarrow> http_reply" where
  "handleHealth relayVersion sessions =
     HttpOK [(''status'', JStr ''ok''), (''version'', JStr relayVersion), (''sessions'', JInt (int sessions))]"

text \<open>
  \<open>validateAgentSession\<close>: the Obliance API is a parameter \<open>post\<close>, from the URL and the body to the status and
  the parsed body of the answer (\<open>None\<close>: the call failed; \<open>Some (st, None)\<close>: the body is no JSON).
\<close>

datatype agent_err = CallFailed | Rejected | InvalidResponse

type_synonym obliance_api = "string \<Rightarrow> json \<Rightarrow> (nat \<times> json option) option"

definition validateAgentSession ::
  "obliance_api \<Rightarrow> string \<Rightarrow> string \<Rightarrow> string \<Rightarrow> agent_err + string" where
  "validateAgentSession post sessionToken apiKey oblianceURL =
     (let url = oblianceURL @ ''/api/remote/relay/validate-agent'';
          body = JObj [(''apiKey'', JStr apiKey), (''sessionToken'', JStr sessionToken)]
      in case post url body of
           None \<Rightarrow> Inl CallFailed
         | Some (status, resp) \<Rightarrow>
             if status \<noteq> 200 then Inl Rejected
             else case Option.bind resp dec_struct of
                None \<Rightarrow> Inl InvalidResponse
              | Some kvs \<Rightarrow>
                  (let (valid, ok1) = dec_bool ''valid'' kvs;
                       (tok, ok2) = dec_string ''sessionToken'' kvs
                   in if \<not> (ok1 \<and> ok2) \<or> \<not> valid then Inl InvalidResponse else Inr tok))"

lemma validateAgentSession_Inr:
  assumes "validateAgentSession post st key url = Inr tok"
  shows "\<exists>kvs resp. post (url @ ''/api/remote/relay/validate-agent'')
       (JObj [(''apiKey'', JStr key), (''sessionToken'', JStr st)]) = Some (200, Some resp)
     \<and> dec_struct resp = Some kvs \<and> dec_bool ''valid'' kvs = (True, True)
     \<and> dec_string ''sessionToken'' kvs = (tok, True)"
  using assms
  by (auto simp: validateAgentSession_def Let_def Option.bind_eq_Some_conv
      split: option.splits if_splits prod.splits)

end
