(* ===== verification/Relay.thy ===== *)
theory Relay
  imports Session_Store Relay_Auth
begin

text \<open>
  server/relay.go: the handler of the relay's WebSocket endpoint. Every connection has a handler with its
  own program counter; the handlers share the session store, the entries and the send channels of the
  peers. A state of the relay is the store and the list of all handlers; an event names the handler that
  moves, so a list of events is one interleaving.
\<close>

section \<open>Admission\<close>

record relay_request =
  rq_role :: string
  rq_token :: string
  rq_apiKey :: string
  rq_sessionToken :: string

text \<open>The checks of \<open>handleRelay\<close> before the upgrade: an HTTP error, or the pairing token.\<close>

definition relay_admit ::
  "mac \<Rightarrow> int \<Rightarrow> obliance_api \<Rightarrow> relay_config \<Rightarrow> relay_request \<Rightarrow> (nat \<times> string) + string" where
  "relay_admit mac now post cfg r =
     (let role = rq_role r in
      if role \<noteq> RoleViewer \<and> role \<noteq> RoleAgent then Inl (400, ''role must be viewer or agent'')
      else if role = RoleViewer then
        (if rq_token r = [] then Inl (401, ''missing token'')
         else case validateViewerToken mac now (rc_RelaySecret cfg) (rq_token r) of
            Inl e \<Rightarrow> Inl (401, ''unauthorized'')
          | Inr tok \<Rightarrow> Inr tok)
      else
        (if rq_apiKey r = [] \<or> rq_sessionToken r = []
         then Inl (401, ''missing X-Oblireach-ApiKey or sessionToken'')
         else case validateAgentSession post (rq_sessionToken r) (rq_apiKey r) (rc_OblianceURL cfg) of
            Inl e \<Rightarrow> Inl (401, ''unauthorized'')
          | Inr tok \<Rightarrow> Inr tok))"

section \<open>State\<close>

datatype ws_type = TextMessage | BinaryMessage

text \<open>What a handler writes to its connection: control messages, and the frames of the outbound pump.\<close>

datatype relay_out = Control string string | Frame ws_type "nat list"

text \<open>
  The program counter of a handler: upgraded, with its entry, waiting for its partner, paired, returned,
  dead by a panic, or blocked in \<open>register\<close>.
\<close>

datatype relay_pc =
    Upgraded | Got nat | Waiting nat | Paired nat | Gone | Panicked | Blocked

text \<open>
  \<open>h_direct\<close> is the private channel \<open>register\<close> returns to the second peer, \<open>h_entry\<close> the entry the handler
  is registered in; \<open>h_pump\<close> is the partner whose channel its outbound pump reads, while the pump runs.
  \<open>h_in\<close> records the frames read from the connection. A frame is a list of byte values.
\<close>

record handler =
  h_role :: peer_role
  h_token :: string
  h_pc :: relay_pc
  h_entry :: "nat option"
  h_direct :: "nat option"
  h_sendCh :: "nat list list"
  h_done :: bool
  h_pump :: "nat option"
  h_in :: "nat list list"
  h_out :: "relay_out list"

record relay =
  r_store :: session_store
  r_handlers :: "handler list"

definition init_relay :: "int \<Rightarrow> relay" where
  "init_relay max_sessions = \<lparr>r_store = newSessionStore max_sessions, r_handlers = []\<rparr>"

definition new_handler :: "peer_role \<Rightarrow> string \<Rightarrow> handler" where
  "new_handler role token =
     \<lparr>h_role = role, h_token = token, h_pc = Upgraded, h_entry = None, h_direct = None, h_sendCh = [],
      h_done = False, h_pump = None, h_in = [], h_out = []\<rparr>"

abbreviation hd_of :: "relay \<Rightarrow> nat \<Rightarrow> handler" where
  "hd_of r i \<equiv> r_handlers r ! i"

definition set_handler :: "relay \<Rightarrow> nat \<Rightarrow> handler \<Rightarrow> relay" where
  "set_handler r i h = r\<lparr>r_handlers := (r_handlers r)[i := h]\<rparr>"

definition send_control :: "handler \<Rightarrow> string \<Rightarrow> string \<Rightarrow> handler" where
  "send_control h ty msg = h\<lparr>h_out := h_out h @ [Control ty msg]\<rparr>"

definition send_cap :: nat where "send_cap = 256"

definition push_send :: "relay \<Rightarrow> nat \<Rightarrow> nat list \<Rightarrow> relay" where
  "push_send r q f = set_handler r q ((hd_of r q)\<lparr>h_sendCh := try_send send_cap (h_sendCh (hd_of r q)) f\<rparr>)"

definition peer_disconnected :: "nat list" where
  "peer_disconnected = map of_char ''{\"type\":\"peer_disconnected\"}''"

section \<open>Steps\<close>

definition relay_get :: "relay \<Rightarrow> nat \<Rightarrow> relay" where
  "relay_get r i =
     (let h = hd_of r i in
      case getOrCreate (r_store r) (h_token h) of
        (st, None, _) \<Rightarrow>
          set_handler (r\<lparr>r_store := st\<rparr>) i ((send_control h ''error'' ''server full'')\<lparr>h_pc := Gone\<rparr>)
      | (st, Some a, _) \<Rightarrow> set_handler (r\<lparr>r_store := st\<rparr>) i (h\<lparr>h_pc := Got a\<rparr>))"

text \<open>
  Registration, the log line with \<open>pairingToken[:8]\<close>, which panics on a token of fewer than eight bytes, and
  the message \<open>waiting\<close>.
\<close>

definition relay_register :: "relay \<Rightarrow> nat \<Rightarrow> nat \<Rightarrow> relay" where
  "relay_register r i a =
     (let h = hd_of r i;
          (e', res) = register_peer (ss_heap (r_store r) ! a) (h_role h) i;
          r' = r\<lparr>r_store := (r_store r)\<lparr>ss_heap := (ss_heap (r_store r))[a := e']\<rparr>\<rparr>;
          joined = (\<lambda>d. if length (h_token h) < 8
                        then h\<lparr>h_pc := Panicked, h_entry := Some a, h_direct := d\<rparr>
                        else (send_control h ''waiting'' [])\<lparr>h_pc := Waiting a, h_entry := Some a,
                               h_direct := d\<rparr>)
      in set_handler r' i
           (case res of
              RegTaken \<Rightarrow>
                (send_control h ''error'' ''role already taken for this session'')\<lparr>h_pc := Gone\<rparr>
            | RegBlock \<Rightarrow> h\<lparr>h_pc := Blocked\<rparr>
            | RegPartner q \<Rightarrow> joined (Some q)
            | RegWait \<Rightarrow> joined None))"

text \<open>The wait for the partner: a value on the channel, the timer, or the end of the request.\<close>

definition relay_pair :: "relay \<Rightarrow> nat \<Rightarrow> nat \<Rightarrow> relay option" where
  "relay_pair r i a =
     (let h = hd_of r i;
          ready = (\<lambda>q. (send_control h ''paired'' [])\<lparr>h_pc := Paired q, h_pump := Some q\<rparr>)
      in case h_direct h of
           Some q \<Rightarrow> Some (set_handler r i (ready q))
         | None \<Rightarrow>
             (let e = ss_heap (r_store r) ! a in
              case se_pairCh e of
                [] \<Rightarrow> None
              | q # qs \<Rightarrow>
                  Some (set_handler
                    (r\<lparr>r_store := (r_store r)\<lparr>ss_heap := (ss_heap (r_store r))[a := e\<lparr>se_pairCh := qs\<rparr>]\<rparr>\<rparr>)
                    i (ready q))))"

definition relay_timeout :: "relay \<Rightarrow> nat \<Rightarrow> relay" where
  "relay_timeout r i =
     (let h = hd_of r i in
      set_handler (r\<lparr>r_store := remove_session (r_store r) (h_token h)\<rparr>) i
        ((send_control h ''error'' ''timed out waiting for peer'')\<lparr>h_pc := Gone\<rparr>))"

definition relay_ctx_done :: "relay \<Rightarrow> nat \<Rightarrow> relay" where
  "relay_ctx_done r i =
     (let h = hd_of r i in
      set_handler (r\<lparr>r_store := remove_session (r_store r) (h_token h)\<rparr>) i (h\<lparr>h_pc := Gone\<rparr>))"

text \<open>
  The inbound pump: a ping is answered, every other message goes to the send channel of the partner, or
  is dropped when that is full. \<open>parse\<close> is the JSON parser.
\<close>

definition is_ping :: "(nat list \<Rightarrow> json option) \<Rightarrow> nat list \<Rightarrow> bool" where
  "is_ping parse data =
     (case Option.bind (parse data) dec_struct of
        None \<Rightarrow> False
      | Some kvs \<Rightarrow> dec_string ''type'' kvs = (''ping'', True))"

definition relay_recv ::
  "(nat list \<Rightarrow> json option) \<Rightarrow> relay \<Rightarrow> nat \<Rightarrow> nat \<Rightarrow> ws_type \<Rightarrow> nat list \<Rightarrow> relay" where
  "relay_recv parse r i q mt data =
     (let h = (hd_of r i)\<lparr>h_in := h_in (hd_of r i) @ [data]\<rparr> in
      if mt = TextMessage \<and> is_ping parse data then set_handler r i (send_control h ''pong'' [])
      else push_send (set_handler r i h) q data)"

text \<open>The read error ends the handler: its deferred function removes the session and notifies.\<close>

definition relay_recv_err :: "relay \<Rightarrow> nat \<Rightarrow> nat \<Rightarrow> relay" where
  "relay_recv_err r i q =
     (let h = hd_of r i;
          r1 = set_handler r i (h\<lparr>h_done := True, h_pc := Gone\<rparr>);
          r2 = r1\<lparr>r_store := remove_session (r_store r1) (h_token h)\<rparr>
      in push_send r2 q peer_disconnected)"

text \<open>
  The outbound pump takes the next frame from the send channel of the partner and writes it to the
  handler's own connection, as text when it begins with a brace. A failed write stops the pump, and so
  does the closed stop channel; until the pump chooses that case it may still take a frame.
\<close>

definition frame_type :: "nat list \<Rightarrow> ws_type" where
  "frame_type f = (if f \<noteq> [] \<and> hd f = 123 then TextMessage else BinaryMessage)"

definition relay_pump :: "relay \<Rightarrow> nat \<Rightarrow> nat \<Rightarrow> bool \<Rightarrow> relay option" where
  "relay_pump r i q ok =
     (case h_sendCh (hd_of r q) of
        [] \<Rightarrow> None
      | f # fs \<Rightarrow>
          (let r' = set_handler r q ((hd_of r q)\<lparr>h_sendCh := fs\<rparr>);
               h = hd_of r' i
           in Some (set_handler r' i
                (if ok then h\<lparr>h_out := h_out h @ [Frame (frame_type f) f]\<rparr>
                 else h\<lparr>h_pump := None\<rparr>))))"

definition relay_pump_stop :: "relay \<Rightarrow> nat \<Rightarrow> relay option" where
  "relay_pump_stop r i =
     (if h_done (hd_of r i) then Some (set_handler r i ((hd_of r i)\<lparr>h_pump := None\<rparr>)) else None)"

datatype relay_event =
    EConnect peer_role string
  | EGet nat
  | ERegister nat
  | EPair nat
  | ETimeout nat
  | ECtxDone nat
  | ERecv nat ws_type "nat list"
  | ERecvErr nat
  | EPump nat bool
  | EPumpStop nat

text \<open>
  One event; \<open>None\<close> when the handler it names is not at that point. A connection arrives with the role and
  the pairing token that \<open>relay_admit\<close> let through.
\<close>

definition at_pc :: "relay \<Rightarrow> nat \<Rightarrow> relay_pc option" where
  "at_pc r i = (if i < length (r_handlers r) then Some (h_pc (hd_of r i)) else None)"

definition pump_of :: "relay \<Rightarrow> nat \<Rightarrow> nat option" where
  "pump_of r i = (if i < length (r_handlers r) then h_pump (hd_of r i) else None)"

fun relay_step :: "(nat list \<Rightarrow> json option) \<Rightarrow> relay \<Rightarrow> relay_event \<Rightarrow> relay option" where
  "relay_step parse r (EConnect role token) =
     (if known_role role then Some (r\<lparr>r_handlers := r_handlers r @ [new_handler role token]\<rparr>) else None)"
| "relay_step parse r (EGet i) =
     (if at_pc r i = Some Upgraded then Some (relay_get r i) else None)"
| "relay_step parse r (ERegister i) =
     (case at_pc r i of Some (Got a) \<Rightarrow> Some (relay_register r i a) | _ \<Rightarrow> None)"
| "relay_step parse r (EPair i) =
     (case at_pc r i of Some (Waiting a) \<Rightarrow> relay_pair r i a | _ \<Rightarrow> None)"
| "relay_step parse r (ETimeout i) =
     (case at_pc r i of Some (Waiting a) \<Rightarrow> Some (relay_timeout r i) | _ \<Rightarrow> None)"
| "relay_step parse r (ECtxDone i) =
     (case at_pc r i of Some (Waiting a) \<Rightarrow> Some (relay_ctx_done r i) | _ \<Rightarrow> None)"
| "relay_step parse r (ERecv i mt data) =
     (case at_pc r i of Some (Paired q) \<Rightarrow> Some (relay_recv parse r i q mt data) | _ \<Rightarrow> None)"
| "relay_step parse r (ERecvErr i) =
     (case at_pc r i of Some (Paired q) \<Rightarrow> Some (relay_recv_err r i q) | _ \<Rightarrow> None)"
| "relay_step parse r (EPump i ok) =
     (case pump_of r i of Some q \<Rightarrow> relay_pump r i q ok | None \<Rightarrow> None)"
| "relay_step parse r (EPumpStop i) =
     (case pump_of r i of Some q \<Rightarrow> relay_pump_stop r i | None \<Rightarrow> None)"

fun relay_run :: "(nat list \<Rightarrow> json option) \<Rightarrow> relay \<Rightarrow> relay_event list \<Rightarrow> relay option" where
  "relay_run parse r [] = Some r"
| "relay_run parse r (e # es) =
     (case relay_step parse r e of None \<Rightarrow> None | Some r' \<Rightarrow> relay_run parse r' es)"

inductive relay_reach :: "(nat list \<Rightarrow> json option) \<Rightarrow> int \<Rightarrow> relay \<Rightarrow> bool"
  for parse max_sessions where
  reach_init: "relay_reach parse max_sessions (init_relay max_sessions)"
| reach_step: "relay_reach parse max_sessions r \<Longrightarrow> relay_step parse r e = Some r'
     \<Longrightarrow> relay_reach parse max_sessions r'"

lemma relay_run_reach:
  "relay_reach parse m r \<Longrightarrow> relay_run parse r es = Some r' \<Longrightarrow> relay_reach parse m r'"
  by (induction es arbitrary: r) (auto split: option.splits intro: reach_step)

end
