(* ===== verification/Relay_Inv.thy ===== *)
theory Relay_Inv
  imports Relay
begin

text \<open>
  The invariant of the relay: which peers are linked, and where the frames on the send channels come from.
  Slots are never cleared, so a link once made stays; every step preserves each part of the invariant by
  one lemma per kind of update.
\<close>

section \<open>Links\<close>

text \<open>\<open>linked R H i q\<close>: the entry handler \<open>i\<close> is registered in holds \<open>q\<close> in the other role.\<close>

definition linked :: "handler list \<Rightarrow> session_entry list \<Rightarrow> nat \<Rightarrow> nat \<Rightarrow> bool" where
  "linked R H i q = (case h_entry (R ! i) of
     None \<Rightarrow> False | Some a \<Rightarrow> slot (H ! a) (other_role (h_role (R ! i))) = Some q)"

definition slots_inv :: "handler list \<Rightarrow> session_entry list \<Rightarrow> bool" where
  "slots_inv R H \<longleftrightarrow>
     (\<forall>i < length R. known_role (h_role (R ! i))) \<and>
     (\<forall>a < length H. \<forall>role i. slot (H ! a) role = Some i
        \<longrightarrow> i < length R \<and> h_entry (R ! i) = Some a \<and> h_role (R ! i) = role) \<and>
     (\<forall>i < length R. \<forall>a. h_entry (R ! i) = Some a
        \<longrightarrow> a < length H \<and> slot (H ! a) (h_role (R ! i)) = Some i) \<and>
     (\<forall>a < length H. entry_inv (H ! a)) \<and>
     (\<forall>a < length H. \<forall>q \<in> set (se_pairCh (H ! a)).
        q < length R \<and> h_entry (R ! q) = Some a \<and> h_direct (R ! q) \<noteq> None)"

text \<open>
  What the program counter and the channels of one handler say, given the peers it is linked to and the
  number of entries.
\<close>

definition handler_ok :: "(nat \<Rightarrow> bool) \<Rightarrow> nat \<Rightarrow> handler \<Rightarrow> bool" where
  "handler_ok L n h \<longleftrightarrow>
     (case h_pc h of
        Upgraded \<Rightarrow> h_entry h = None
      | Got a \<Rightarrow> a < n \<and> h_entry h = None
      | Waiting a \<Rightarrow> h_entry h = Some a
      | Paired q \<Rightarrow> L q
      | Gone \<Rightarrow> True
      | Panicked \<Rightarrow> True
      | Blocked \<Rightarrow> False) \<and>
     (\<forall>q. h_direct h = Some q \<longrightarrow> L q) \<and>
     (\<forall>q. h_pump h = Some q \<longrightarrow> L q)"

definition link_inv :: "handler list \<Rightarrow> session_entry list \<Rightarrow> bool" where
  "link_inv R H \<longleftrightarrow>
     slots_inv R H \<and> (\<forall>i < length R. handler_ok (linked R H i) (length H) (R ! i))"

lemma link_slots: "link_inv R H \<Longrightarrow> slots_inv R H"
  unfolding link_inv_def by blast

lemma link_handler: "link_inv R H \<Longrightarrow> i < length R \<Longrightarrow> handler_ok (linked R H i) (length H) (R ! i)"
  unfolding link_inv_def by blast

lemma link_invI:
  "slots_inv R H \<Longrightarrow> (\<And>i. i < length R \<Longrightarrow> handler_ok (linked R H i) (length H) (R ! i)) \<Longrightarrow> link_inv R H"
  unfolding link_inv_def by blast

lemma known_other: "known_role r \<Longrightarrow> known_role (other_role r)"
  by (auto simp: known_role_def)

lemma other_other [simp]: "known_role r \<Longrightarrow> other_role (other_role r) = r"
  by (auto simp: known_role_def)

lemma role_cases: "known_role r \<Longrightarrow> known_role s \<Longrightarrow> s = r \<or> s = other_role r"
  by (auto simp: known_role_def)

lemma other_neq: "known_role r \<Longrightarrow> other_role r \<noteq> r"
  by (auto simp: known_role_def)

lemma slots_role: "slots_inv R H \<Longrightarrow> i < length R \<Longrightarrow> known_role (h_role (R ! i))"
  unfolding slots_inv_def by blast

lemma slots_slotD:
  "slots_inv R H \<Longrightarrow> a < length H \<Longrightarrow> slot (H ! a) role = Some i \<Longrightarrow>
     i < length R \<and> h_entry (R ! i) = Some a \<and> h_role (R ! i) = role"
  unfolding slots_inv_def by blast

lemma slots_entryD:
  "slots_inv R H \<Longrightarrow> i < length R \<Longrightarrow> h_entry (R ! i) = Some a \<Longrightarrow>
     a < length H \<and> slot (H ! a) (h_role (R ! i)) = Some i"
  unfolding slots_inv_def by blast

lemma slots_entry_inv: "slots_inv R H \<Longrightarrow> a < length H \<Longrightarrow> entry_inv (H ! a)"
  unfolding slots_inv_def by blast

lemma slots_pairD:
  "slots_inv R H \<Longrightarrow> a < length H \<Longrightarrow> q \<in> set (se_pairCh (H ! a)) \<Longrightarrow>
     q < length R \<and> h_entry (R ! q) = Some a \<and> h_direct (R ! q) \<noteq> None"
  unfolding slots_inv_def by blast

text \<open>A link goes both ways, and a handler has at most one partner.\<close>

lemma linked_entry:
  assumes "slots_inv R H" "i < length R" "linked R H i q"
  obtains a where "h_entry (R ! i) = Some a" "a < length H" "h_entry (R ! q) = Some a" "q < length R"
    "h_role (R ! q) = other_role (h_role (R ! i))"
    "slot (H ! a) (h_role (R ! i)) = Some i" "slot (H ! a) (h_role (R ! q)) = Some q"
proof -
  obtain a where a: "h_entry (R ! i) = Some a" "slot (H ! a) (other_role (h_role (R ! i))) = Some q"
    using assms by (auto simp: linked_def split: option.splits)
  moreover from slots_entryD [OF assms(1,2) a(1)]
  have "a < length H" "slot (H ! a) (h_role (R ! i)) = Some i" by auto
  moreover from slots_slotD [OF assms(1) this(1) a(2)]
  have "q < length R" "h_entry (R ! q) = Some a" "h_role (R ! q) = other_role (h_role (R ! i))" by auto
  ultimately show thesis using that by simp
qed

lemma linked_bounds:
  assumes "slots_inv R H" "i < length R" "linked R H i q"
  shows "q < length R" "q \<noteq> i"
proof -
  obtain "q < length R" "h_role (R ! q) = other_role (h_role (R ! i))"
    using linked_entry [OF assms] by metis
  moreover have "other_role (h_role (R ! i)) \<noteq> h_role (R ! i)"
    using slots_role [OF assms(1,2)] by (rule other_neq)
  ultimately show "q < length R" "q \<noteq> i" by auto
qed

lemma linked_sym:
  assumes "slots_inv R H" "i < length R" "linked R H i q"
  shows "linked R H q i"
proof -
  obtain a where "h_entry (R ! q) = Some a" "h_role (R ! q) = other_role (h_role (R ! i))"
    "slot (H ! a) (h_role (R ! i)) = Some i"
    using linked_entry [OF assms] by metis
  with slots_role [OF assms(1,2)] show ?thesis by (simp add: linked_def)
qed

lemma linked_fun: "linked R H i q \<Longrightarrow> linked R H i q' \<Longrightarrow> q = q'"
  by (auto simp: linked_def split: option.splits)

lemma linked_inj:
  assumes "slots_inv R H" "i < length R" "j < length R" "linked R H i q" "linked R H j q"
  shows "i = j"
  using linked_fun [OF linked_sym [OF assms(1,2,4)] linked_sym [OF assms(1,3,5)]] .

section \<open>Updates that keep the links\<close>

text \<open>\<open>same_id\<close>: a handler keeps its role, its entry and its private channel.\<close>

definition same_id :: "handler \<Rightarrow> handler \<Rightarrow> bool" where
  "same_id h h' \<longleftrightarrow> h_role h' = h_role h \<and> h_entry h' = h_entry h \<and> h_direct h' = h_direct h"

lemma linked_update:
  "i < length R \<Longrightarrow> same_id (R ! i) h' \<Longrightarrow> linked (R[i := h']) H = linked R H"
  by (intro ext) (auto simp: linked_def same_id_def nth_list_update split: option.splits)

text \<open>The introduction rule of \<open>slots_inv\<close>, one premise per clause.\<close>

lemma slots_invI:
  assumes "\<And>i. i < length R \<Longrightarrow> known_role (h_role (R ! i))"
    and "\<And>a role i. a < length H \<Longrightarrow> slot (H ! a) role = Some i \<Longrightarrow>
           i < length R \<and> h_entry (R ! i) = Some a \<and> h_role (R ! i) = role"
    and "\<And>i a. i < length R \<Longrightarrow> h_entry (R ! i) = Some a \<Longrightarrow>
           a < length H \<and> slot (H ! a) (h_role (R ! i)) = Some i"
    and "\<And>a. a < length H \<Longrightarrow> entry_inv (H ! a)"
    and "\<And>a q. a < length H \<Longrightarrow> q \<in> set (se_pairCh (H ! a)) \<Longrightarrow>
           q < length R \<and> h_entry (R ! q) = Some a \<and> h_direct (R ! q) \<noteq> None"
  shows "slots_inv R H"
  unfolding slots_inv_def using assms by blast

lemma slots_update:
  assumes inv: "slots_inv R H" and i: "i < length R" and same: "same_id (R ! i) h'"
  shows "slots_inv (R[i := h']) H"
proof -
  have eq: "h_role (R[i := h'] ! j) = h_role (R ! j)" "h_entry (R[i := h'] ! j) = h_entry (R ! j)"
    "h_direct (R[i := h'] ! j) = h_direct (R ! j)" for j
    using i same by (auto simp: same_id_def nth_list_update)
  show ?thesis
  proof (rule slots_invI)
  qed (simp_all only: eq length_list_update, (use slots_role [OF inv] slots_slotD [OF inv]
        slots_entryD [OF inv] slots_entry_inv [OF inv] slots_pairD [OF inv] in blast)+)
qed

lemma link_update:
  assumes inv: "link_inv R H" and i: "i < length R" and same: "same_id (R ! i) h'"
    and ok: "handler_ok (linked R H i) (length H) h'"
  shows "link_inv (R[i := h']) H"
proof (rule link_invI)
  show "slots_inv (R[i := h']) H" using slots_update [OF link_slots [OF inv] i same] .
  show "handler_ok (linked (R[i := h']) H j) (length H) (R[i := h'] ! j)" if "j < length (R[i := h'])" for j
    using that ok link_handler [OF inv, of j] i
    by (cases "j = i") (simp_all add: linked_update [OF i same])
qed

text \<open>A new handler, a new entry, and the receive from the channel of an entry.\<close>

lemma linked_append_R: "i < length R \<Longrightarrow> linked (R @ [h]) H i = linked R H i"
  by (intro ext) (auto simp: linked_def nth_append split: option.splits)

lemma link_new_handler:
  assumes inv: "link_inv R H" and role: "known_role role"
  shows "link_inv (R @ [new_handler role token]) H"
proof (rule link_invI)
  let ?R = "R @ [new_handler role token]"
  note s = link_slots [OF inv]
  have old: "?R ! j = R ! j" if "j < length R" for j using that by (simp add: nth_append)
  have new: "?R ! length R = new_handler role token" by (simp add: nth_append)
  have cases: "j < length R \<or> j = length R" if "j < length ?R" for j using that by auto
  show "slots_inv ?R H"
  proof (rule slots_invI)
    show "known_role (h_role (?R ! i))" if "i < length ?R" for i
      using cases [OF that] slots_role [OF s, of i] old [of i] new role
      by (elim disjE) (auto simp: new_handler_def)
    show "a < length H \<and> slot (H ! a) (h_role (?R ! i)) = Some i"
      if "i < length ?R" "h_entry (?R ! i) = Some a" for i a
    proof (cases "i < length R")
      case True
      with that(2) slots_entryD [OF s True] old [OF True] show ?thesis by metis
    next
      case False
      with cases [OF that(1)] that(2) show ?thesis by (simp add: new_handler_def)
    qed
    show "i < length ?R \<and> h_entry (?R ! i) = Some a \<and> h_role (?R ! i) = role'"
      if "a < length H" "slot (H ! a) role' = Some i" for a role' i
      using slots_slotD [OF s that] old [of i] by simp
    show "q < length ?R \<and> h_entry (?R ! q) = Some a \<and> h_direct (?R ! q) \<noteq> None"
      if "a < length H" "q \<in> set (se_pairCh (H ! a))" for a q
      using slots_pairD [OF s that] old [of q] by simp
  qed (use slots_entry_inv [OF s] in blast)
  show "handler_ok (linked ?R H i) (length H) (?R ! i)" if "i < length ?R" for i
  proof (cases "i < length R")
    case True
    from link_handler [OF inv True] show ?thesis by (simp only: linked_append_R [OF True] old [OF True])
  next
    case False
    with cases [OF that] show ?thesis by (simp add: handler_ok_def new_handler_def)
  qed
qed

definition fresh_entry :: "string \<Rightarrow> session_entry" where
  "fresh_entry token = \<lparr>se_token = token, se_viewer = None, se_agent = None, se_pairCh = []\<rparr>"

lemma link_new_entry:
  assumes inv: "link_inv R H"
  shows "link_inv R (H @ [fresh_entry token])"
proof (rule link_invI)
  let ?H = "H @ [fresh_entry token]"
  note s = link_slots [OF inv]
  have old: "?H ! a = H ! a" if "a < length H" for a using that by (simp add: nth_append)
  have new: "?H ! length H = fresh_entry token" by (simp add: nth_append)
  have none: "slot (fresh_entry token) role = None" for role by (simp add: slot_def fresh_entry_def)
  have cases: "a < length H \<or> a = length H" if "a < length ?H" for a using that by auto
  have bound: "a < length H" if "i < length R" "h_entry (R ! i) = Some a" for i a
    using slots_entryD [OF s that] by blast
  have linked_eq: "linked R ?H i = linked R H i" if "i < length R" for i
    using bound [OF that] old by (intro ext) (auto simp: linked_def split: option.splits)
  show "slots_inv R ?H"
  proof (rule slots_invI)
    show "i < length R \<and> h_entry (R ! i) = Some a \<and> h_role (R ! i) = role"
      if "a < length ?H" "slot (?H ! a) role = Some i" for a role i
      using cases [OF that(1)] that(2) slots_slotD [OF s, of a role i] old [of a] none new by auto
    show "a < length ?H \<and> slot (?H ! a) (h_role (R ! i)) = Some i"
      if "i < length R" "h_entry (R ! i) = Some a" for i a
      using slots_entryD [OF s that] old [of a] by simp
    show "entry_inv (?H ! a)" if "a < length ?H" for a
      using cases [OF that] slots_entry_inv [OF s, of a] old [of a] new
      by (elim disjE) (auto simp: entry_inv_def fresh_entry_def)
    show "q < length R \<and> h_entry (R ! q) = Some a \<and> h_direct (R ! q) \<noteq> None"
      if "a < length ?H" "q \<in> set (se_pairCh (?H ! a))" for a q
    proof (cases "a < length H")
      case True
      with slots_pairD [OF s True] that(2) old [OF True] show ?thesis by simp
    next
      case False
      with cases [OF that(1)] that(2) new show ?thesis by (simp add: fresh_entry_def)
    qed
  qed (use slots_role [OF s] in blast)
  show "handler_ok (linked R ?H i) (length ?H) (R ! i)" if "i < length R" for i
    using link_handler [OF inv that] linked_eq [OF that]
    by (auto simp: handler_ok_def split: relay_pc.splits)
qed

text \<open>The receive from the channel of an entry.\<close>

lemma link_pop:
  assumes inv: "link_inv R H" and a: "a < length H" and pop: "se_pairCh (H ! a) = q # qs"
  shows "link_inv R (H[a := (H ! a)\<lparr>se_pairCh := qs\<rparr>])"
proof (rule link_invI)
  let ?H = "H[a := (H ! a)\<lparr>se_pairCh := qs\<rparr>]"
  note s = link_slots [OF inv]
  have slot: "slot (?H ! b) role = slot (H ! b) role" for b role
    using a by (cases "b = a") (simp_all add: slot_def)
  have sub: "set (se_pairCh (?H ! b)) \<subseteq> set (se_pairCh (H ! b))" for b
    using a pop by (cases "b = a") auto
  have linked_eq: "linked R ?H i = linked R H i" for i
    by (intro ext) (simp add: linked_def slot split: option.split)
  show "slots_inv R ?H"
  proof (rule slots_invI)
    show "entry_inv (?H ! b)" if "b < length ?H" for b
      using that slots_entry_inv [OF s, of b] a pop by (cases "b = a") (auto simp: entry_inv_def)
    show "p < length R \<and> h_entry (R ! p) = Some b \<and> h_direct (R ! p) \<noteq> None"
      if "b < length ?H" "p \<in> set (se_pairCh (?H ! b))" for b p
      using slots_pairD [OF s, of b p] that sub [of b] by (simp only: length_list_update) blast
  qed (simp_all only: length_list_update slot,
      (use slots_role [OF s] slots_slotD [OF s] slots_entryD [OF s] in blast)+)
  show "handler_ok (linked R ?H i) (length ?H) (R ! i)" if "i < length R" for i
    using link_handler [OF inv that] by (simp only: linked_eq length_list_update)
qed

text \<open>The channel the first peer waits on gives it the peer in the other slot of its entry.\<close>

lemma link_pair:
  assumes inv: "link_inv R H" and i: "i < length R" and w: "h_entry (R ! i) = Some a"
    and d: "h_direct (R ! i) = None" and q: "q \<in> set (se_pairCh (H ! a))"
  shows "linked R H i q"
proof -
  note s = link_slots [OF inv]
  from slots_entryD [OF s i w] have a: "a < length H" "slot (H ! a) (h_role (R ! i)) = Some i" by auto
  from slots_pairD [OF s a(1) q]
  have qs: "q < length R" "h_entry (R ! q) = Some a" "h_direct (R ! q) \<noteq> None" by auto
  from slots_entryD [OF s qs(1,2)] have qa: "slot (H ! a) (h_role (R ! q)) = Some q" by auto
  have "h_role (R ! q) \<noteq> h_role (R ! i)"
    using qa a(2) qs(3) d by (metis option.inject)
  then have "h_role (R ! q) = other_role (h_role (R ! i))"
    using role_cases [OF slots_role [OF s i] slots_role [OF s qs(1)]] by blast
  with qa w show ?thesis by (simp add: linked_def)
qed

text \<open>The registration fills the slot of the handler and leaves the others.\<close>

lemma register_slots:
  assumes "known_role role" "entry_inv e" "slot e role = None"
  shows "slot (fst (register_peer e role p)) r = (if r = role then Some p else slot e r)"
proof -
  have "r = role \<or> r = other_role role \<or> \<not> known_role r"
    using assms(1) by (auto simp: known_role_def)
  then show ?thesis
    using register_slot(1,2) [OF assms, of p] other_neq [OF assms(1)] assms(1)
    by (auto simp: slot_def known_role_def)
qed

lemma handler_ok_mono:
  "handler_ok L n h \<Longrightarrow> (\<And>q. L q \<Longrightarrow> L' q) \<Longrightarrow> handler_ok L' n h"
  by (auto simp: handler_ok_def split: relay_pc.splits)

text \<open>Filling a free slot \<open>r0\<close> of entry \<open>a\<close> with handler \<open>i\<close>, seen on the slots only.\<close>

lemma slots_fill:
  assumes s: "slots_inv R H" and i: "i < length R" and a: "a < length H"
    and none: "h_entry (R ! i) = None" and free: "slot (H ! a) (h_role (R ! i)) = None"
    and e'_slot: "\<And>r. slot e' r = (if r = h_role (R ! i) then Some i else slot (H ! a) r)"
    and e'_inv: "entry_inv e'"
    and e'_ch: "\<And>q. q \<in> set (se_pairCh e') \<Longrightarrow> q = i \<and> h_direct h' \<noteq> None"
    and h': "h_role h' = h_role (R ! i)" "h_entry h' = Some a"
  shows "slots_inv (R[i := h']) (H[a := e'])"
proof (rule slots_invI)
  let ?R = "R[i := h']" and ?H = "H[a := e']"
  have Ri: "?R ! i = h'" and Rj: "\<And>j. j \<noteq> i \<Longrightarrow> ?R ! j = R ! j" and Ha: "?H ! a = e'"
    and Hb: "\<And>b. b \<noteq> a \<Longrightarrow> ?H ! b = H ! b" using i a by simp_all
  have ne: "j \<noteq> i" if "h_entry (R ! j) = Some b" for j b using that none by auto
  show "known_role (h_role (?R ! j))" if "j < length ?R" for j
    using slots_role [OF s, of j] that Ri Rj [of j] h'(1) by (cases "j = i") simp_all
  show "j < length ?R \<and> h_entry (?R ! j) = Some b \<and> h_role (?R ! j) = r"
    if "b < length ?H" "slot (?H ! b) r = Some j" for b r j
  proof (cases "b = a \<and> r = h_role (R ! i)")
    case True
    with that(2) e'_slot Ha have "j = i" by simp
    with True i Ri h' show ?thesis by simp
  next
    case False
    with that e'_slot Ha Hb have "b < length H" "slot (H ! b) r = Some j"
      by (cases "b = a"; simp)+
    from slots_slotD [OF s this] Rj [OF ne] show ?thesis by simp
  qed
  show "b < length ?H \<and> slot (?H ! b) (h_role (?R ! j)) = Some j"
    if "j < length ?R" "h_entry (?R ! j) = Some b" for j b
  proof (cases "j = i")
    case True
    with that Ri Ha h' a e'_slot show ?thesis by simp
  next
    case False
    with that Rj have j: "j < length R" "h_entry (R ! j) = Some b" by auto
    from slots_entryD [OF s this] have "b < length H" "slot (H ! b) (h_role (R ! j)) = Some j" by auto
    with e'_slot free Rj [OF False] Ha Hb [of b] show ?thesis by (cases "b = a") auto
  qed
  show "entry_inv (?H ! b)" if "b < length ?H" for b
    using that slots_entry_inv [OF s, of b] e'_inv Ha Hb [of b] by (cases "b = a") simp_all
  show "q < length ?R \<and> h_entry (?R ! q) = Some b \<and> h_direct (?R ! q) \<noteq> None"
    if "b < length ?H" "q \<in> set (se_pairCh (?H ! b))" for b q
  proof (cases "b = a")
    case True
    with that e'_ch [of q] Ha i Ri h' show ?thesis by simp
  next
    case False
    with that Hb have "b < length H" "q \<in> set (se_pairCh (H ! b))" by auto
    from slots_pairD [OF s this] Rj [OF ne] show ?thesis by simp
  qed
qed

lemma link_register:
  assumes inv: "link_inv R H" and i: "i < length R" and a: "a < length H"
    and none: "h_entry (R ! i) = None" and free: "slot (H ! a) (h_role (R ! i)) = None"
    and e': "e' = fst (register_peer (H ! a) (h_role (R ! i)) i)"
    and h': "h_role h' = h_role (R ! i)" "h_entry h' = Some a" "h_pump h' = h_pump (R ! i)"
      "h_direct h' = slot (H ! a) (other_role (h_role (R ! i)))" "h_pc h' = Waiting a \<or> h_pc h' = Panicked"
  shows "link_inv (R[i := h']) (H[a := e'])"
proof (rule link_invI)
  let ?R = "R[i := h']" and ?H = "H[a := e']" and ?role = "h_role (R ! i)"
  note s = link_slots [OF inv]
  note role = slots_role [OF s i]
  note einv = slots_entry_inv [OF s a]
  have e'_slot: "slot e' r = (if r = ?role then Some i else slot (H ! a) r)" for r
    unfolding e' by (rule register_slots [OF role einv free])
  have "se_pairCh e' = (case h_direct h' of None \<Rightarrow> [] | Some q \<Rightarrow> [i])"
    unfolding e' h'(4) by (rule register_slot(4) [OF role einv free])
  then have e'_ch: "q = i \<and> h_direct h' \<noteq> None" if "q \<in> set (se_pairCh e')" for q
    using that by (auto split: option.splits)
  show "slots_inv ?R ?H"
    by (rule slots_fill [OF s i a none free e'_slot _ e'_ch h'(1,2)])
      (simp add: e' register_inv einv)
  have Rj: "?R ! j = R ! j" if "j \<noteq> i" for j using that by simp
  have mono: "linked ?R ?H j q" if "linked R H j q" for j q
    using that e'_slot free none Rj [of j] a
    by (cases "j = i") (auto simp: linked_def nth_list_update split: option.splits)
  have nolink: "\<not> linked R H i q" for q using none by (simp add: linked_def)
  have "linked ?R ?H i q" if "h_direct h' = Some q" for q
    using that i a h' e'_slot other_neq [OF role] by (simp add: linked_def)
  then have new: "handler_ok (linked ?R ?H i) (length ?H) h'"
    using link_handler [OF inv i] h' nolink by (auto simp: handler_ok_def)
  show "handler_ok (linked ?R ?H j) (length ?H) (?R ! j)" if "j < length ?R" for j
    using handler_ok_mono [OF link_handler [OF inv, of j] mono] that new i Rj [of j]
    by (cases "j = i") simp_all
qed

section \<open>Where frames come from\<close>

text \<open>
  Every frame on the send channel of a peer was read from the connection of the partner of that peer (or
  is the partner's notice of its own end), and every frame a pump wrote to a connection was read from
  that same connection.
\<close>

definition from_peer :: "handler \<Rightarrow> nat list \<Rightarrow> bool" where
  "from_peer h f \<longleftrightarrow> f \<in> set (h_in h) \<or> (f = peer_disconnected \<and> h_done h)"

definition frames_inv :: "handler list \<Rightarrow> session_entry list \<Rightarrow> bool" where
  "frames_inv R H \<longleftrightarrow>
     (\<forall>j < length R. length (h_sendCh (R ! j)) \<le> send_cap) \<and>
     (\<forall>j < length R. \<forall>f \<in> set (h_sendCh (R ! j)).
        \<exists>i < length R. linked R H i j \<and> from_peer (R ! i) f) \<and>
     (\<forall>i < length R. \<forall>t f. Frame t f \<in> set (h_out (R ! i)) \<longrightarrow> from_peer (R ! i) f)"

lemma frames_invI:
  assumes "\<And>j. j < length R \<Longrightarrow> length (h_sendCh (R ! j)) \<le> send_cap"
    and "\<And>j f. j < length R \<Longrightarrow> f \<in> set (h_sendCh (R ! j)) \<Longrightarrow>
           \<exists>i < length R. linked R H i j \<and> from_peer (R ! i) f"
    and "\<And>i t f. i < length R \<Longrightarrow> Frame t f \<in> set (h_out (R ! i)) \<Longrightarrow> from_peer (R ! i) f"
  shows "frames_inv R H"
  unfolding frames_inv_def using assms by blast

lemma frames_cap: "frames_inv R H \<Longrightarrow> j < length R \<Longrightarrow> length (h_sendCh (R ! j)) \<le> send_cap"
  unfolding frames_inv_def by blast

lemma frames_ch: "frames_inv R H \<Longrightarrow> j < length R \<Longrightarrow> f \<in> set (h_sendCh (R ! j)) \<Longrightarrow>
    \<exists>i < length R. linked R H i j \<and> from_peer (R ! i) f"
  unfolding frames_inv_def by blast

lemma frames_out: "frames_inv R H \<Longrightarrow> i < length R \<Longrightarrow> Frame t f \<in> set (h_out (R ! i)) \<Longrightarrow>
    from_peer (R ! i) f"
  unfolding frames_inv_def by blast

text \<open>The update of one handler, with links that can only grow.\<close>

lemma frames_update:
  assumes inv: "frames_inv R H" and i: "i < length R"
    and mono: "\<And>j q. linked R H j q \<Longrightarrow> linked (R[i := h']) H' j q"
    and keep: "\<And>f. from_peer (R ! i) f \<Longrightarrow> from_peer h' f"
    and out: "\<And>t f. Frame t f \<in> set (h_out h') \<Longrightarrow> Frame t f \<in> set (h_out (R ! i)) \<or> from_peer h' f"
    and cap: "length (h_sendCh h') \<le> send_cap"
    and ch: "\<And>f. f \<in> set (h_sendCh h') \<Longrightarrow> f \<in> set (h_sendCh (R ! i)) \<or>
               (\<exists>k < length R. linked R H k i \<and> from_peer (R ! k) f)"
  shows "frames_inv (R[i := h']) H'"
proof -
  let ?R = "R[i := h']"
  have R: "?R ! j = (if j = i then h' else R ! j)" for j using i by simp
  have peer_of: "from_peer (?R ! j) f" if "from_peer (R ! j) f" for j f
    using that keep R by auto
  have src: "\<exists>k < length R. linked R H k j \<and> from_peer (R ! k) f"
    if "j < length R" "f \<in> set (h_sendCh (?R ! j))" for j f
    using that R ch [of f] frames_ch [OF inv that(1), of f] by (cases "j = i") auto
  show ?thesis
  proof (rule frames_invI, simp_all only: length_list_update)
    show "length (h_sendCh (?R ! j)) \<le> send_cap" if "j < length R" for j
      using frames_cap [OF inv that] cap R by simp
    show "\<exists>k < length R. linked ?R H' k j \<and> from_peer (?R ! k) f"
      if "j < length R" "f \<in> set (h_sendCh (?R ! j))" for j f
      using src [OF that] mono peer_of by blast
    show "from_peer (?R ! j) f" if "j < length R" "Frame t f \<in> set (h_out (?R ! j))" for j t f
      using that R out [of t f] keep frames_out [OF inv that(1), of t f] by (cases "j = i") auto
  qed
qed

lemma frames_linked:
  assumes "frames_inv R H" "\<And>j q. j < length R \<Longrightarrow> linked R H j q \<Longrightarrow> linked R H' j q"
  shows "frames_inv R H'"
  using assms unfolding frames_inv_def by blast

lemma frames_new_handler:
  assumes inv: "frames_inv R H"
  shows "frames_inv (R @ [new_handler role token]) H"
proof -
  let ?R = "R @ [new_handler role token]"
  have R: "?R ! j = (if j < length R then R ! j else new_handler role token)" if "j < length ?R" for j
    using that by (auto simp: nth_append less_Suc_eq)
  show ?thesis
  proof (rule frames_invI)
    show "length (h_sendCh (?R ! j)) \<le> send_cap" if "j < length ?R" for j
      using R [OF that] frames_cap [OF inv, of j] by (simp add: new_handler_def)
    show "\<exists>i < length ?R. linked ?R H i j \<and> from_peer (?R ! i) f"
      if "j < length ?R" "f \<in> set (h_sendCh (?R ! j))" for j f
    proof -
      have "j < length R" "f \<in> set (h_sendCh (R ! j))"
        using that R [OF that(1)] by (auto simp: new_handler_def split: if_splits)
      from frames_ch [OF inv this] obtain i where i: "i < length R" "linked R H i j" "from_peer (R ! i) f"
        by blast
      then have "i < length ?R" "linked ?R H i j" "from_peer (?R ! i) f"
        using R [of i] by (simp_all add: linked_append_R)
      then show ?thesis by blast
    qed
    show "from_peer (?R ! i) f" if "i < length ?R" "Frame t f \<in> set (h_out (?R ! i))" for i t f
      using that(2) R [OF that(1)] frames_out [OF inv, of i t f]
      by (auto simp: new_handler_def split: if_splits)
  qed
qed

section \<open>Every step keeps the invariant\<close>

definition relay_inv :: "relay \<Rightarrow> bool" where
  "relay_inv r \<longleftrightarrow> store_inv (r_store r) \<and> link_inv (r_handlers r) (ss_heap (r_store r))
     \<and> frames_inv (r_handlers r) (ss_heap (r_store r))"

lemma relay_invI:
  "store_inv (r_store r) \<Longrightarrow> link_inv (r_handlers r) (ss_heap (r_store r)) \<Longrightarrow>
     frames_inv (r_handlers r) (ss_heap (r_store r)) \<Longrightarrow> relay_inv r"
  unfolding relay_inv_def by blast

lemma relay_invD:
  assumes "relay_inv r"
  shows "store_inv (r_store r)" "link_inv (r_handlers r) (ss_heap (r_store r))"
    "frames_inv (r_handlers r) (ss_heap (r_store r))"
  using assms unfolding relay_inv_def by blast+

lemma set_handler_simps [simp]:
  "r_store (set_handler r i h) = r_store r" "r_handlers (set_handler r i h) = (r_handlers r)[i := h]"
  by (simp_all add: set_handler_def)

text \<open>The update of one handler that keeps its identity, in a state with the same heap.\<close>

lemma relay_inv_update:
  assumes inv: "relay_inv r" and i: "i < length (r_handlers r)" and same: "same_id (hd_of r i) h'"
    and ok: "handler_ok (linked (r_handlers r) (ss_heap (r_store r)) i) (length (ss_heap (r_store r))) h'"
    and keep: "\<And>f. from_peer (hd_of r i) f \<Longrightarrow> from_peer h' f"
    and out: "\<And>t f. Frame t f \<in> set (h_out h') \<Longrightarrow> Frame t f \<in> set (h_out (hd_of r i)) \<or> from_peer h' f"
    and cap: "length (h_sendCh h') \<le> send_cap"
    and ch: "\<And>f. f \<in> set (h_sendCh h') \<Longrightarrow> f \<in> set (h_sendCh (hd_of r i)) \<or>
       (\<exists>k < length (r_handlers r). linked (r_handlers r) (ss_heap (r_store r)) k i
          \<and> from_peer (hd_of r k) f)"
  shows "relay_inv (set_handler r i h')"
proof (rule relay_invI; simp only: set_handler_simps)
  show "store_inv (r_store r)" using relay_invD [OF inv] by blast
  show "link_inv ((r_handlers r)[i := h']) (ss_heap (r_store r))"
    by (rule link_update [OF relay_invD(2) [OF inv] i same ok])
  show "frames_inv ((r_handlers r)[i := h']) (ss_heap (r_store r))"
    by (rule frames_update [OF relay_invD(3) [OF inv] i _ keep out cap ch])
      (simp_all add: linked_update [OF i same])
qed

lemma handler_ok_pc:
  assumes "handler_ok L n h" "h_entry h' = h_entry h" "h_direct h' = h_direct h"
    and "\<forall>q. h_pump h' = Some q \<longrightarrow> L q"
    and "h_pc h' = h_pc h \<or> h_pc h' = Gone \<or> (\<exists>q. h_pc h' = Paired q \<and> L q)
           \<or> (\<exists>a. h_pc h' = Got a \<and> a < n \<and> h_entry h = None)"
  shows "handler_ok L n h'"
  using assms by (auto simp: handler_ok_def split: relay_pc.splits)

lemma handler_ok_simps [simp]:
  "handler_ok L n (h\<lparr>h_sendCh := x\<rparr>) = handler_ok L n h"
  "handler_ok L n (h\<lparr>h_out := y\<rparr>) = handler_ok L n h"
  by (simp_all add: handler_ok_def split: relay_pc.split)

lemma handler_ok_pump: "handler_ok L n h \<Longrightarrow> h_pump h = Some q \<Longrightarrow> L q"
  by (simp add: handler_ok_def)

lemma handler_ok_paired: "handler_ok L n h \<Longrightarrow> h_pc h = Paired q \<Longrightarrow> L q"
  by (simp add: handler_ok_def)

lemma inv_handler_ok:
  "relay_inv r \<Longrightarrow> i < length (r_handlers r) \<Longrightarrow>
     handler_ok (linked (r_handlers r) (ss_heap (r_store r)) i) (length (ss_heap (r_store r))) (hd_of r i)"
  using link_handler [OF relay_invD(2)] .

lemma inv_cap: "relay_inv r \<Longrightarrow> i < length (r_handlers r) \<Longrightarrow> length (h_sendCh (hd_of r i)) \<le> send_cap"
  using frames_cap [OF relay_invD(3)] .

text \<open>A handler that moves to another program counter and says something to its own connection.\<close>

lemma inv_move:
  assumes inv: "relay_inv r" and i: "i < length (r_handlers r)"
    and h': "same_id (hd_of r i) h'" "h_sendCh h' = h_sendCh (hd_of r i)"
      "set (h_in (hd_of r i)) \<subseteq> set (h_in h')" "h_done (hd_of r i) \<longrightarrow> h_done h'"
    and out: "\<forall>x \<in> set (h_out h'). x \<in> set (h_out (hd_of r i)) \<or> (\<exists>ty m. x = Control ty m)"
    and pump: "\<forall>q. h_pump h' = Some q \<longrightarrow> linked (r_handlers r) (ss_heap (r_store r)) i q"
    and pc: "h_pc h' = h_pc (hd_of r i) \<or> h_pc h' = Gone
      \<or> (\<exists>q. h_pc h' = Paired q \<and> linked (r_handlers r) (ss_heap (r_store r)) i q)
      \<or> (\<exists>a. h_pc h' = Got a \<and> a < length (ss_heap (r_store r)) \<and> h_entry (hd_of r i) = None)"
  shows "relay_inv (set_handler r i h')"
proof (rule relay_inv_update [OF inv i h'(1)])
  show "handler_ok (linked (r_handlers r) (ss_heap (r_store r)) i) (length (ss_heap (r_store r))) h'"
    by (rule handler_ok_pc [OF inv_handler_ok [OF inv i] _ _ pump pc]) (use h' in \<open>simp_all add: same_id_def\<close>)
  show "length (h_sendCh h') \<le> send_cap" using inv_cap [OF inv i] h' by simp
qed (use h' out in \<open>auto simp: from_peer_def\<close>)

text \<open>A change of the store that keeps its heap, and the creation of an entry.\<close>

lemma inv_remove: "relay_inv r \<Longrightarrow> relay_inv (r\<lparr>r_store := remove_session (r_store r) t\<rparr>)"
  unfolding relay_inv_def using remove_session_inv [of "r_store r" t] by (simp add: remove_session_def)

lemma getOrCreate_heap:
  "getOrCreate s t = (s', x, b) \<Longrightarrow> s' = s \<or> ss_heap s' = ss_heap s @ [fresh_entry t]"
  by (auto simp: getOrCreate_def Let_def fresh_entry_def split: option.splits if_splits)

lemma linked_new_entry:
  "link_inv R H \<Longrightarrow> i < length R \<Longrightarrow> linked R (H @ [e]) i = linked R H i"
  using slots_entryD [OF link_slots]
  by (intro ext) (auto simp: linked_def nth_append split: option.splits)

lemma frames_new_entry:
  assumes link: "link_inv R H" and inv: "frames_inv R H"
  shows "frames_inv R (H @ [e])"
  by (rule frames_linked [OF inv]) (simp add: linked_new_entry [OF link])

lemma inv_getOrCreate:
  assumes inv: "relay_inv r" and get: "getOrCreate (r_store r) t = (s', x, b)"
  shows "relay_inv (r\<lparr>r_store := s'\<rparr>)"
proof -
  note I = relay_invD [OF inv]
  have "store_inv s'" using getOrCreate_inv [OF I(1), of t] get by simp
  with getOrCreate_heap [OF get] I link_new_entry [OF I(2)] frames_new_entry [OF I(2,3)]
  show ?thesis by (auto simp: relay_inv_def)
qed

lemma getOrCreate_bound:
  assumes "store_inv s" "getOrCreate s t = (s', Some a, b)"
  shows "a < length (ss_heap s')"
proof -
  have "store_inv s'" using getOrCreate_inv [OF assms(1), of t] assms(2) by simp
  moreover have "(t, a) \<in> set (ss_sessions s')" using getOrCreate_lookup [OF assms(2)] by (rule map_of_SomeD)
  ultimately show ?thesis by (auto simp: store_inv_def)
qed

lemma inv_get:
  assumes inv: "relay_inv r" and i: "i < length (r_handlers r)" and pc: "h_pc (hd_of r i) = Upgraded"
  shows "relay_inv (relay_get r i)"
proof -
  obtain s' x b where get: "getOrCreate (r_store r) (h_token (hd_of r i)) = (s', x, b)"
    by (cases "getOrCreate (r_store r) (h_token (hd_of r i))") auto
  note inv' = inv_getOrCreate [OF inv get]
  have none: "h_entry (hd_of r i) = None" "\<forall>q. h_pump (hd_of r i) = Some q \<longrightarrow> False"
    using inv_handler_ok [OF inv i] pc by (auto simp: handler_ok_def linked_def)
  show ?thesis
  proof (cases x)
    case None
    then have "relay_get r i = set_handler (r\<lparr>r_store := s'\<rparr>) i
        ((send_control (hd_of r i) ''error'' ''server full'')\<lparr>h_pc := Gone\<rparr>)"
      by (simp add: relay_get_def get)
    then show ?thesis
      by (simp only:) (rule inv_move [OF inv'], use i none in \<open>auto simp: same_id_def send_control_def\<close>)
  next
    case (Some a)
    with get getOrCreate_bound relay_invD(1) [OF inv] have a: "a < length (ss_heap s')" by metis
    from Some have "relay_get r i = set_handler (r\<lparr>r_store := s'\<rparr>) i ((hd_of r i)\<lparr>h_pc := Got a\<rparr>)"
      by (simp add: relay_get_def get)
    then show ?thesis
      by (simp only:) (rule inv_move [OF inv'], use i none a in \<open>auto simp: same_id_def\<close>)
  qed
qed

lemma store_inv_heap:
  "store_inv s \<Longrightarrow> a < length (ss_heap s) \<Longrightarrow> se_token e' = se_token (ss_heap s ! a) \<Longrightarrow>
     store_inv (s\<lparr>ss_heap := (ss_heap s)[a := e']\<rparr>)"
  by (fastforce simp: store_inv_def nth_list_update)

lemma register_token: "se_token (fst (register_peer e role p)) = se_token e"
  by (auto simp: register_peer_def notify_pair_def Let_def split: option.splits)

lemma from_peer_send [simp]: "from_peer (send_control h ty m) f = from_peer h f"
  by (simp add: from_peer_def send_control_def)

text \<open>The handler a successful registration leaves, waiting or dead by the panic.\<close>

definition registered :: "handler \<Rightarrow> nat \<Rightarrow> nat option \<Rightarrow> handler" where
  "registered h a d =
     (if length (h_token h) < 8 then h\<lparr>h_pc := Panicked, h_entry := Some a, h_direct := d\<rparr>
      else (send_control h ''waiting'' [])\<lparr>h_pc := Waiting a, h_entry := Some a, h_direct := d\<rparr>)"

lemma registered_simps:
  "h_role (registered h a d) = h_role h" "h_entry (registered h a d) = Some a"
  "h_direct (registered h a d) = d" "h_pump (registered h a d) = h_pump h"
  "h_sendCh (registered h a d) = h_sendCh h" "from_peer (registered h a d) f = from_peer h f"
  "Frame t f \<in> set (h_out (registered h a d)) \<longleftrightarrow> Frame t f \<in> set (h_out h)"
  "h_pc (registered h a d) = Waiting a \<or> h_pc (registered h a d) = Panicked"
  by (auto simp: registered_def send_control_def from_peer_def)

lemma relay_register_free:
  assumes inv: "relay_inv r" and i: "i < length (r_handlers r)" and a: "a < length (ss_heap (r_store r))"
    and free: "slot (ss_heap (r_store r) ! a) (h_role (hd_of r i)) = None"
  shows "relay_register r i a = set_handler
     (r\<lparr>r_store := (r_store r)\<lparr>ss_heap := (ss_heap (r_store r))[a :=
        fst (register_peer (ss_heap (r_store r) ! a) (h_role (hd_of r i)) i)]\<rparr>\<rparr>) i
     (registered (hd_of r i) a (slot (ss_heap (r_store r) ! a) (other_role (h_role (hd_of r i)))))"
proof -
  note s = link_slots [OF relay_invD(2) [OF inv]]
  from register_slot(3) [OF slots_role [OF s i] slots_entry_inv [OF s a] free, of i]
  show ?thesis
    by (simp add: relay_register_def registered_def Let_def case_prod_beta split: option.splits)
qed

lemma relay_register_taken:
  assumes "known_role (h_role (hd_of r i))" "slot (ss_heap (r_store r) ! a) (h_role (hd_of r i)) \<noteq> None"
  shows "relay_register r i a = set_handler r i
     ((send_control (hd_of r i) ''error'' ''role already taken for this session'')\<lparr>h_pc := Gone\<rparr>)"
  using register_taken [OF assms, of i] by (simp add: relay_register_def)

lemma inv_register:
  assumes inv: "relay_inv r" and i: "i < length (r_handlers r)" and pc: "h_pc (hd_of r i) = Got a"
  shows "relay_inv (relay_register r i a)"
proof (cases "slot (ss_heap (r_store r) ! a) (h_role (hd_of r i)) = None")
  case False
  note s = link_slots [OF relay_invD(2) [OF inv]]
  have "\<forall>q. h_pump (hd_of r i) = Some q \<longrightarrow> linked (r_handlers r) (ss_heap (r_store r)) i q"
    using handler_ok_pump [OF inv_handler_ok [OF inv i]] by blast
  then show ?thesis
    unfolding relay_register_taken [OF slots_role [OF s i] False]
    by (intro inv_move [OF inv i]) (auto simp: same_id_def send_control_def)
next
  case True
  let ?R = "r_handlers r" and ?H = "ss_heap (r_store r)" and ?h = "hd_of r i"
  let ?e' = "fst (register_peer (?H ! a) (h_role ?h) i)"
  let ?h' = "registered ?h a (slot (?H ! a) (other_role (h_role ?h)))"
  note I = relay_invD [OF inv]
  from inv_handler_ok [OF inv i] pc have a: "a < length ?H" and none: "h_entry ?h = None"
    by (auto simp: handler_ok_def)
  have link: "link_inv (?R[i := ?h']) (?H[a := ?e'])"
    by (rule link_register [OF I(2) i a none True refl]) (rule registered_simps)+
  have e'_slot: "slot ?e' ro = (if ro = h_role ?h then Some i else slot (?H ! a) ro)" for ro
    using register_slots [OF slots_role [OF link_slots [OF I(2)] i] slots_entry_inv [OF link_slots [OF I(2)] a] True] .
  have "linked (?R[i := ?h']) (?H[a := ?e']) j q" if "linked ?R ?H j q" for j q
    using that e'_slot True none a
    by (cases "j = i") (auto simp: linked_def nth_list_update split: option.splits)
  then have "frames_inv (?R[i := ?h']) (?H[a := ?e'])"
    by (rule frames_update [OF I(3) i]) (simp_all add: registered_simps inv_cap [OF inv i])
  with link store_inv_heap [OF I(1) a register_token] show ?thesis
    unfolding relay_register_free [OF inv i a True] by (intro relay_invI) simp_all
qed

lemma slot_pairCh: "slot (e\<lparr>se_pairCh := qs\<rparr>) role = slot e role"
  by (simp add: slot_def)

lemma inv_ready:
  assumes inv: "relay_inv r" and i: "i < length (r_handlers r)"
    and q: "linked (r_handlers r) (ss_heap (r_store r)) i q"
  shows "relay_inv (set_handler r i
     ((send_control (hd_of r i) ''paired'' [])\<lparr>h_pc := Paired q, h_pump := Some q\<rparr>))"
  by (rule inv_move [OF inv i]) (use q in \<open>auto simp: same_id_def send_control_def\<close>)

lemma inv_pop:
  assumes inv: "relay_inv r" and a: "a < length (ss_heap (r_store r))"
    and pop: "se_pairCh (ss_heap (r_store r) ! a) = q # qs"
  shows "relay_inv (r\<lparr>r_store := (r_store r)\<lparr>ss_heap :=
     (ss_heap (r_store r))[a := (ss_heap (r_store r) ! a)\<lparr>se_pairCh := qs\<rparr>]\<rparr>\<rparr>)"
proof -
  note I = relay_invD [OF inv]
  have "linked (r_handlers r) ((ss_heap (r_store r))[a := (ss_heap (r_store r) ! a)\<lparr>se_pairCh := qs\<rparr>]) j p"
    if "linked (r_handlers r) (ss_heap (r_store r)) j p" for j p
    using that a slot_pairCh by (auto simp: linked_def nth_list_update split: option.splits)
  from frames_linked [OF I(3) this] link_pop [OF I(2) a pop] store_inv_heap [OF I(1) a]
  show ?thesis by (intro relay_invI) simp_all
qed

lemma inv_pair:
  assumes inv: "relay_inv r" and i: "i < length (r_handlers r)" and pc: "h_pc (hd_of r i) = Waiting a"
    and step: "relay_pair r i a = Some r'"
  shows "relay_inv r'"
proof (cases "h_direct (hd_of r i)")
  case (Some q)
  with inv_handler_ok [OF inv i] have "linked (r_handlers r) (ss_heap (r_store r)) i q"
    by (simp add: handler_ok_def)
  from inv_ready [OF inv i this] Some step show ?thesis by (auto simp: relay_pair_def Let_def)
next
  case None
  note link = relay_invD(2) [OF inv]
  from inv_handler_ok [OF inv i] pc have e: "h_entry (hd_of r i) = Some a" by (simp add: handler_ok_def)
  from slots_entryD [OF link_slots [OF link] i e] have a: "a < length (ss_heap (r_store r))" by blast
  from None step obtain q qs where ch: "se_pairCh (ss_heap (r_store r) ! a) = q # qs"
    by (auto simp: relay_pair_def Let_def split: list.splits)
  then have q: "linked (r_handlers r) (ss_heap (r_store r)) i q"
    using link_pair [OF link i e None, of q] by simp
  then have "linked (r_handlers r) ((ss_heap (r_store r))[a := (ss_heap (r_store r) ! a)\<lparr>se_pairCh := qs\<rparr>]) i q"
    using a e slot_pairCh by (simp add: linked_def)
  with inv_ready [OF inv_pop [OF inv a ch], of i q] i None ch step show ?thesis
    by (auto simp: relay_pair_def Let_def)
qed

lemma inv_leave:
  assumes inv: "relay_inv r" and i: "i < length (r_handlers r)"
    and h': "h' = (hd_of r i)\<lparr>h_pc := Gone\<rparr> \<or> (\<exists>m. h' = (send_control (hd_of r i) ''error'' m)\<lparr>h_pc := Gone\<rparr>)"
  shows "relay_inv (set_handler (r\<lparr>r_store := remove_session (r_store r) t\<rparr>) i h')"
proof -
  let ?r = "r\<lparr>r_store := remove_session (r_store r) t\<rparr>"
  have i': "i < length (r_handlers ?r)" using i by simp
  have "\<forall>q. h_pump (hd_of r i) = Some q \<longrightarrow> linked (r_handlers r) (ss_heap (r_store r)) i q"
    using handler_ok_pump [OF inv_handler_ok [OF inv i]] by blast
  with h' show ?thesis
    by (intro inv_move [OF inv_remove [OF inv] i'])
      (auto simp: same_id_def send_control_def remove_session_def)
qed

lemma inv_timeout: "relay_inv r \<Longrightarrow> i < length (r_handlers r) \<Longrightarrow> relay_inv (relay_timeout r i)"
  unfolding relay_timeout_def Let_def by (rule inv_leave) auto

lemma inv_ctx_done: "relay_inv r \<Longrightarrow> i < length (r_handlers r) \<Longrightarrow> relay_inv (relay_ctx_done r i)"
  unfolding relay_ctx_done_def Let_def by (rule inv_leave) auto

lemma inv_push:
  assumes inv: "relay_inv r" and i: "i < length (r_handlers r)"
    and q: "linked (r_handlers r) (ss_heap (r_store r)) i q" and f: "from_peer (hd_of r i) f"
  shows "relay_inv (push_send r q f)"
proof -
  from linked_bounds [OF link_slots [OF relay_invD(2) [OF inv]] i q] have q': "q < length (r_handlers r)" by simp
  show ?thesis unfolding push_send_def
  proof (rule relay_inv_update [OF inv q'])
    show "handler_ok (linked (r_handlers r) (ss_heap (r_store r)) q) (length (ss_heap (r_store r)))
      ((hd_of r q)\<lparr>h_sendCh := try_send send_cap (h_sendCh (hd_of r q)) f\<rparr>)"
      using inv_handler_ok [OF inv q'] by simp
  qed (use i q f try_send_bound [OF inv_cap [OF inv q']] in
      \<open>auto simp: same_id_def from_peer_def try_send_def split: if_splits\<close>)
qed

lemma inv_paired:
  assumes "relay_inv r" "i < length (r_handlers r)" "h_pc (hd_of r i) = Paired q"
  shows "linked (r_handlers r) (ss_heap (r_store r)) i q"
  using handler_ok_paired [OF inv_handler_ok [OF assms(1,2)] assms(3)] .

lemma inv_pumping:
  assumes "relay_inv r" "i < length (r_handlers r)" "h_pump (hd_of r i) = Some q"
  shows "linked (r_handlers r) (ss_heap (r_store r)) i q"
  using handler_ok_pump [OF inv_handler_ok [OF assms(1,2)] assms(3)] .

lemma inv_recv:
  assumes inv: "relay_inv r" and i: "i < length (r_handlers r)" and pc: "h_pc (hd_of r i) = Paired q"
  shows "relay_inv (relay_recv parse r i q mt data)"
proof -
  note link = inv_paired [OF inv i pc]
  have pump: "\<forall>p. h_pump (hd_of r i) = Some p \<longrightarrow> linked (r_handlers r) (ss_heap (r_store r)) i p"
    using inv_pumping [OF inv i] by blast
  let ?h = "(hd_of r i)\<lparr>h_in := h_in (hd_of r i) @ [data]\<rparr>"
  have 1: "relay_inv (set_handler r i ?h)"
    by (rule inv_move [OF inv i]) (use pump pc in \<open>auto simp: same_id_def\<close>)
  have 2: "relay_inv (set_handler r i (send_control ?h ''pong'' []))"
    by (rule inv_move [OF inv i]) (use pump pc in \<open>auto simp: same_id_def send_control_def\<close>)
  have "same_id (hd_of r i) ?h" by (simp add: same_id_def)
  from linked_update [OF i this] link
  have "linked (r_handlers (set_handler r i ?h)) (ss_heap (r_store (set_handler r i ?h))) i q" by simp
  from inv_push [OF 1 _ this, of data] i have "relay_inv (push_send (set_handler r i ?h) q data)"
    by (simp add: from_peer_def)
  with 2 show ?thesis by (simp add: relay_recv_def Let_def)
qed

lemma inv_recv_err:
  assumes inv: "relay_inv r" and i: "i < length (r_handlers r)" and pc: "h_pc (hd_of r i) = Paired q"
  shows "relay_inv (relay_recv_err r i q)"
proof -
  let ?h = "(hd_of r i)\<lparr>h_done := True, h_pc := Gone\<rparr>"
  let ?r1 = "set_handler r i ?h"
  let ?r2 = "?r1\<lparr>r_store := remove_session (r_store ?r1) (h_token (hd_of r i))\<rparr>"
  have pump: "\<forall>p. h_pump (hd_of r i) = Some p \<longrightarrow> linked (r_handlers r) (ss_heap (r_store r)) i p"
    using inv_pumping [OF inv i] by blast
  have "relay_inv ?r1"
    by (rule inv_move [OF inv i]) (use pump in \<open>auto simp: same_id_def\<close>)
  then have 2: "relay_inv ?r2" by (rule inv_remove)
  have "same_id (hd_of r i) ?h" by (simp add: same_id_def)
  from linked_update [OF i this] inv_paired [OF inv i pc]
  have "linked (r_handlers ?r2) (ss_heap (r_store ?r2)) i q" by (simp add: remove_session_def)
  from inv_push [OF 2 _ this, of peer_disconnected] i show ?thesis
    by (simp add: relay_recv_err_def Let_def from_peer_def)
qed

lemma inv_pump_stop:
  assumes inv: "relay_inv r" and i: "i < length (r_handlers r)" and step: "relay_pump_stop r i = Some r'"
  shows "relay_inv r'"
proof -
  have "relay_inv (set_handler r i ((hd_of r i)\<lparr>h_pump := None\<rparr>))"
    by (rule inv_move [OF inv i]) (auto simp: same_id_def)
  with step show ?thesis by (auto simp: relay_pump_stop_def split: if_splits)
qed

text \<open>
  The heart of the matter: the frames on the channel of the partner were read from the connection of a
  handler linked to that partner, which is the pumping handler itself.
\<close>

lemma pump_own_frame:
  assumes inv: "relay_inv r" and i: "i < length (r_handlers r)" and pump: "h_pump (hd_of r i) = Some q"
    and f: "f \<in> set (h_sendCh (hd_of r q))"
  shows "from_peer (hd_of r i) f"
proof -
  note s = link_slots [OF relay_invD(2) [OF inv]]
  note link = inv_pumping [OF inv i pump]
  from frames_ch [OF relay_invD(3) [OF inv] linked_bounds(1) [OF s i link] f]
  obtain k where k: "k < length (r_handlers r)" "linked (r_handlers r) (ss_heap (r_store r)) k q"
    "from_peer (hd_of r k) f" by blast
  with linked_inj [OF s i k(1) link k(2)] show ?thesis by simp
qed

lemma inv_pump:
  assumes inv: "relay_inv r" and i: "i < length (r_handlers r)" and pump: "h_pump (hd_of r i) = Some q"
    and step: "relay_pump r i q ok = Some r'"
  shows "relay_inv r'"
proof -
  note link = inv_pumping [OF inv i pump]
  from linked_bounds [OF link_slots [OF relay_invD(2) [OF inv]] i link]
  have q: "q < length (r_handlers r)" "q \<noteq> i" by simp_all
  from step obtain f fs where ch: "h_sendCh (hd_of r q) = f # fs"
    by (auto simp: relay_pump_def split: list.splits)
  let ?hq = "(hd_of r q)\<lparr>h_sendCh := fs\<rparr>"
  let ?r = "set_handler r q ?hq"
  have 1: "relay_inv ?r"
  proof (rule relay_inv_update [OF inv q(1)])
    show "handler_ok (linked (r_handlers r) (ss_heap (r_store r)) q) (length (ss_heap (r_store r))) ?hq"
      using inv_handler_ok [OF inv q(1)] by simp
  qed (use ch inv_cap [OF inv q(1)] in \<open>auto simp: same_id_def from_peer_def\<close>)
  have i': "i < length (r_handlers ?r)" and hi: "hd_of ?r i = hd_of r i" using i q by simp_all
  have own: "from_peer (hd_of r i) f" using pump_own_frame [OF inv i pump, of f] ch by simp
  have ok: "handler_ok (linked (r_handlers ?r) (ss_heap (r_store ?r)) i) (length (ss_heap (r_store ?r))) (hd_of r i)"
    using inv_handler_ok [OF 1 i'] hi by simp
  have 2: "relay_inv (set_handler ?r i ((hd_of r i)\<lparr>h_out := h_out (hd_of r i) @ [Frame (frame_type f) f]\<rparr>))"
  proof (rule relay_inv_update [OF 1 i'])
    show "handler_ok (linked (r_handlers ?r) (ss_heap (r_store ?r)) i) (length (ss_heap (r_store ?r)))
      ((hd_of r i)\<lparr>h_out := h_out (hd_of r i) @ [Frame (frame_type f) f]\<rparr>)"
      using ok by simp
  qed (use own hi inv_cap [OF inv i] q in \<open>auto simp: same_id_def from_peer_def\<close>)
  have 3: "relay_inv (set_handler ?r i ((hd_of r i)\<lparr>h_pump := None\<rparr>))"
    by (rule inv_move [OF 1 i']) (use hi in \<open>auto simp: same_id_def\<close>)
  from 2 3 step ch hi show ?thesis
    by (auto simp: relay_pump_def Let_def split: if_splits)
qed

lemma inv_connect:
  assumes "relay_inv r" "known_role role"
  shows "relay_inv (r\<lparr>r_handlers := r_handlers r @ [new_handler role token]\<rparr>)"
  using relay_invD [OF assms(1)] link_new_handler [OF _ assms(2)] frames_new_handler
  by (intro relay_invI) simp_all

lemma at_pc_Some: "at_pc r i = Some pc \<longleftrightarrow> i < length (r_handlers r) \<and> h_pc (hd_of r i) = pc"
  by (auto simp: at_pc_def)

lemma pump_of_Some: "pump_of r i = Some q \<longleftrightarrow> i < length (r_handlers r) \<and> h_pump (hd_of r i) = Some q"
  by (auto simp: pump_of_def)

lemma relay_step_inv:
  assumes "relay_inv r" "relay_step parse r e = Some r'"
  shows "relay_inv r'"
proof (cases e)
  case (EConnect role token)
  with assms inv_connect show ?thesis by (auto split: if_splits)
next
  case (EGet i)
  with assms inv_get show ?thesis by (auto simp: at_pc_Some split: if_splits)
next
  case (ERegister i)
  with assms inv_register show ?thesis by (auto simp: at_pc_Some split: option.splits relay_pc.splits)
next
  case (EPair i)
  with assms inv_pair show ?thesis by (auto simp: at_pc_Some split: option.splits relay_pc.splits)
next
  case (ETimeout i)
  with assms inv_timeout show ?thesis by (auto simp: at_pc_Some split: option.splits relay_pc.splits)
next
  case (ECtxDone i)
  with assms inv_ctx_done show ?thesis by (auto simp: at_pc_Some split: option.splits relay_pc.splits)
next
  case (ERecv i mt data)
  with assms inv_recv show ?thesis by (auto simp: at_pc_Some split: option.splits relay_pc.splits)
next
  case (ERecvErr i)
  with assms inv_recv_err show ?thesis by (auto simp: at_pc_Some split: option.splits relay_pc.splits)
next
  case (EPump i ok)
  with assms inv_pump show ?thesis by (auto simp: pump_of_Some split: option.splits)
next
  case (EPumpStop i)
  with assms inv_pump_stop show ?thesis by (auto simp: pump_of_Some split: option.splits)
qed

lemma init_relay_inv: "relay_inv (init_relay m)"
  by (simp add: relay_inv_def init_relay_def new_store_inv link_inv_def slots_inv_def frames_inv_def)
    (simp add: newSessionStore_def)

theorem relay_reach_inv: "relay_reach parse m r \<Longrightarrow> relay_inv r"
  by (induction rule: relay_reach.induct) (auto intro: init_relay_inv relay_step_inv)

lemma relay_step_max: "relay_step parse r e = Some r' \<Longrightarrow> ss_max (r_store r') = ss_max (r_store r)"
  by (cases e) (auto simp: relay_get_def relay_register_def relay_pair_def relay_timeout_def relay_ctx_done_def
      relay_recv_def relay_recv_err_def relay_pump_def relay_pump_stop_def push_send_def set_handler_def
      getOrCreate_def remove_session_def Let_def case_prod_beta
      split: option.splits relay_pc.splits if_splits list.splits)

lemma relay_reach_max: "relay_reach parse m r \<Longrightarrow> ss_max (r_store r) = m"
  by (induction rule: relay_reach.induct)
    (auto simp: relay_step_max init_relay_def newSessionStore_def)

end
