(* ===== verification/Relay_Props.thy ===== *)
theory Relay_Props
  imports Relay_Inv
begin

text \<open>
  What stays over the steps of the relay, the tokens of linked peers, and the properties of the relay.
\<close>

section \<open>What stays\<close>

definition handler_keeps :: "handler \<Rightarrow> handler \<Rightarrow> bool" where
  "handler_keeps h h' \<longleftrightarrow> h_role h' = h_role h \<and> h_token h' = h_token h
     \<and> (h_pc h = Panicked \<longrightarrow> h_pc h' = Panicked)"

definition entry_keeps :: "session_entry \<Rightarrow> session_entry \<Rightarrow> bool" where
  "entry_keeps e e' \<longleftrightarrow> se_token e' = se_token e
     \<and> (\<forall>role p. slot e role = Some p \<longrightarrow> slot e' role = Some p)"

definition relay_keeps :: "relay \<Rightarrow> relay \<Rightarrow> bool" where
  "relay_keeps r r' \<longleftrightarrow>
     length (r_handlers r) \<le> length (r_handlers r') \<and>
     length (ss_heap (r_store r)) \<le> length (ss_heap (r_store r')) \<and>
     (\<forall>i < length (r_handlers r). handler_keeps (hd_of r i) (hd_of r' i)) \<and>
     (\<forall>a < length (ss_heap (r_store r)). entry_keeps (ss_heap (r_store r) ! a) (ss_heap (r_store r') ! a))"

lemma handler_keeps_refl [simp]: "handler_keeps h h"
  by (simp add: handler_keeps_def)

lemma entry_keeps_refl [simp]: "entry_keeps e e"
  by (simp add: entry_keeps_def)

lemma handler_keeps_trans: "handler_keeps h h' \<Longrightarrow> handler_keeps h' h'' \<Longrightarrow> handler_keeps h h''"
  by (simp add: handler_keeps_def)

lemma entry_keeps_trans: "entry_keeps e e' \<Longrightarrow> entry_keeps e' e'' \<Longrightarrow> entry_keeps e e''"
  by (simp add: entry_keeps_def)

lemma relay_keeps_refl: "relay_keeps r r"
  by (simp add: relay_keeps_def)

lemma relay_keeps_trans: "relay_keeps r s \<Longrightarrow> relay_keeps s t \<Longrightarrow> relay_keeps r t"
  unfolding relay_keeps_def
  by (meson handler_keeps_trans entry_keeps_trans order_trans less_le_trans)

lemma register_keeps_slot:
  "slot e ro = Some x \<Longrightarrow> slot (fst (register_peer e role p)) ro = Some x"
  by (auto simp: register_peer_def notify_pair_def slot_def Let_def split: option.splits if_splits)

text \<open>A change of one handler, of the map of sessions, of one entry, and the two ways to grow.\<close>

lemma keeps_set_handler:
  "(i < length (r_handlers r) \<Longrightarrow> handler_keeps (hd_of r i) h) \<Longrightarrow> relay_keeps r (set_handler r i h)"
  by (auto simp: relay_keeps_def nth_update_if)

lemma keeps_store:
  "ss_heap s' = ss_heap (r_store r) @ es \<Longrightarrow> relay_keeps r (r\<lparr>r_store := s'\<rparr>)"
  by (simp add: relay_keeps_def nth_append)

lemma keeps_entry:
  "entry_keeps (ss_heap (r_store r) ! a) e' \<Longrightarrow>
   relay_keeps r (r\<lparr>r_store := (r_store r)\<lparr>ss_heap := (ss_heap (r_store r))[a := e']\<rparr>\<rparr>)"
  by (auto simp: relay_keeps_def nth_update_if)

lemma keeps_push: "relay_keeps r (push_send r q f)"
  unfolding push_send_def by (rule keeps_set_handler) (simp add: handler_keeps_def)

lemma send_control_simps [simp]:
  "h_role (send_control h t m) = h_role h" "h_token (send_control h t m) = h_token h"
  "h_pc (send_control h t m) = h_pc h" "h_entry (send_control h t m) = h_entry h"
  by (simp_all add: send_control_def)

lemma keeps_get:
  assumes "h_pc (hd_of r i) = Upgraded"
  shows "relay_keeps r (relay_get r i)"
proof -
  obtain s' x b where get: "getOrCreate (r_store r) (h_token (hd_of r i)) = (s', x, b)"
    by (cases "getOrCreate (r_store r) (h_token (hd_of r i))") auto
  from getOrCreate_heap [OF get] have 1: "relay_keeps r (r\<lparr>r_store := s'\<rparr>)"
    using keeps_store [of s' r "[]"] keeps_store [of s' r] by auto
  show ?thesis unfolding relay_get_def Let_def get prod.case
    by (cases x; simp only: option.case; rule relay_keeps_trans [OF 1 keeps_set_handler])
      (use assms in \<open>simp_all add: handler_keeps_def\<close>)
qed

lemma keeps_register:
  assumes "h_pc (hd_of r i) = Got a"
  shows "relay_keeps r (relay_register r i a)"
proof -
  let ?e' = "fst (register_peer (ss_heap (r_store r) ! a) (h_role (hd_of r i)) i)"
  have 1: "relay_keeps r (r\<lparr>r_store := (r_store r)\<lparr>ss_heap := (ss_heap (r_store r))[a := ?e']\<rparr>\<rparr>)"
    by (rule keeps_entry) (simp add: entry_keeps_def register_token register_keeps_slot)
  show ?thesis unfolding relay_register_def Let_def case_prod_beta
    by (rule relay_keeps_trans [OF 1 keeps_set_handler])
      (use assms in \<open>simp add: handler_keeps_def split: reg_result.split\<close>)
qed

lemma keeps_pair:
  assumes "h_pc (hd_of r i) = Waiting a" "relay_pair r i a = Some r'"
  shows "relay_keeps r r'"
proof -
  have 1: "relay_keeps r (r\<lparr>r_store := (r_store r)\<lparr>ss_heap :=
      (ss_heap (r_store r))[a := (ss_heap (r_store r) ! a)\<lparr>se_pairCh := qs\<rparr>]\<rparr>\<rparr>)" for qs
    by (rule keeps_entry) (simp add: entry_keeps_def slot_pairCh)
  show ?thesis
    using assms relay_keeps_trans [OF 1 keeps_set_handler] keeps_set_handler
    by (auto simp: relay_pair_def Let_def handler_keeps_def split: option.splits list.splits)
qed

lemma keeps_leave:
  assumes "h_pc (hd_of r i) \<noteq> Panicked" "h_role h = h_role (hd_of r i)" "h_token h = h_token (hd_of r i)"
  shows "relay_keeps r (set_handler (r\<lparr>r_store := remove_session (r_store r) t\<rparr>) i h)"
proof -
  have 1: "relay_keeps r (r\<lparr>r_store := remove_session (r_store r) t\<rparr>)"
    by (rule keeps_store [of _ _ "[]"]) (simp add: remove_session_def)
  show ?thesis by (rule relay_keeps_trans [OF 1 keeps_set_handler]) (use assms in \<open>simp add: handler_keeps_def\<close>)
qed

lemma keeps_recv:
  assumes "h_pc (hd_of r i) = Paired q"
  shows "relay_keeps r (relay_recv parse r i q mt data)"
  unfolding relay_recv_def Let_def
  using assms
  by (auto simp: handler_keeps_def intro!: keeps_set_handler relay_keeps_trans [OF keeps_set_handler keeps_push])

lemma keeps_recv_err:
  assumes "h_pc (hd_of r i) = Paired q"
  shows "relay_keeps r (relay_recv_err r i q)"
proof -
  have 1: "relay_keeps s (s\<lparr>r_store := remove_session (r_store s) t\<rparr>)" for s t
    by (rule keeps_store [of _ _ "[]"]) (simp add: remove_session_def)
  show ?thesis unfolding relay_recv_err_def Let_def
    by (rule relay_keeps_trans [OF relay_keeps_trans [OF keeps_set_handler 1] keeps_push])
      (use assms in \<open>simp add: handler_keeps_def\<close>)
qed

lemma keeps_pump: "relay_pump r i q ok = Some r' \<Longrightarrow> relay_keeps r r'"
  by (auto simp: handler_keeps_def relay_pump_def Let_def split: list.splits if_splits
      intro!: relay_keeps_trans [OF keeps_set_handler keeps_set_handler])

lemma keeps_pump_stop: "relay_pump_stop r i = Some r' \<Longrightarrow> relay_keeps r r'"
  by (auto simp: handler_keeps_def relay_pump_stop_def split: if_splits intro!: keeps_set_handler)

lemmas relay_step_cases = at_pc_Some pump_of_Some

lemma relay_step_keeps:
  assumes "relay_step parse r e = Some r'"
  shows "relay_keeps r r'"
proof (cases e)
  case (EConnect role token)
  with assms show ?thesis by (auto simp: relay_keeps_def nth_append split: if_splits)
next
  case (EGet i)
  with assms keeps_get show ?thesis by (auto simp: at_pc_Some split: if_splits)
next
  case (ERegister i)
  with assms keeps_register show ?thesis by (auto simp: at_pc_Some split: option.splits relay_pc.splits)
next
  case (EPair i)
  with assms keeps_pair show ?thesis by (auto simp: at_pc_Some split: option.splits relay_pc.splits)
next
  case (ETimeout i)
  with assms show ?thesis
    by (auto simp: at_pc_Some relay_timeout_def Let_def split: option.splits relay_pc.splits
        intro!: keeps_leave)
next
  case (ECtxDone i)
  with assms show ?thesis
    by (auto simp: at_pc_Some relay_ctx_done_def Let_def split: option.splits relay_pc.splits
        intro!: keeps_leave)
next
  case (ERecv i mt data)
  with assms keeps_recv show ?thesis by (auto simp: at_pc_Some split: option.splits relay_pc.splits)
next
  case (ERecvErr i)
  with assms keeps_recv_err show ?thesis by (auto simp: at_pc_Some split: option.splits relay_pc.splits)
next
  case (EPump i ok)
  with assms keeps_pump show ?thesis by (auto simp: pump_of_Some split: option.splits)
next
  case (EPumpStop i)
  with assms keeps_pump_stop show ?thesis by (auto simp: pump_of_Some split: option.splits)
qed

lemma relay_run_keeps: "relay_run parse r es = Some r' \<Longrightarrow> relay_keeps r r'"
  by (induction es arbitrary: r)
    (auto split: option.splits intro: relay_keeps_refl relay_keeps_trans relay_step_keeps)

section \<open>Linked peers have the same pairing token\<close>

definition in_entry :: "handler \<Rightarrow> nat \<Rightarrow> bool" where
  "in_entry h a \<longleftrightarrow> h_entry h = Some a \<or> h_pc h = Got a"

definition tokens_inv :: "relay \<Rightarrow> bool" where
  "tokens_inv r \<longleftrightarrow> (\<forall>i < length (r_handlers r). \<forall>a. in_entry (hd_of r i) a \<longrightarrow>
     a < length (ss_heap (r_store r)) \<and> se_token (ss_heap (r_store r) ! a) = h_token (hd_of r i))"

lemma in_entry_push: "j < length (r_handlers r) \<Longrightarrow> in_entry (hd_of (push_send r q f) j) = in_entry (hd_of r j)"
  by (intro ext) (simp add: push_send_def nth_update_if in_entry_def)

lemma in_entry_step:
  assumes "relay_step parse r e = Some r'" "i < length (r_handlers r')" "in_entry (hd_of r' i) a"
  shows "i < length (r_handlers r) \<and> (in_entry (hd_of r i) a \<or>
     (\<exists>b. getOrCreate (r_store r) (h_token (hd_of r i)) = (r_store r', Some a, b)))"
proof (cases e)
  case (EConnect role token)
  with assms show ?thesis
    by (cases "i < length (r_handlers r)")
      (auto simp: nth_append new_handler_def in_entry_def less_Suc_eq split: if_splits)
next
  case (EGet j)
  with assms show ?thesis
    by (auto simp: at_pc_Some relay_get_def Let_def nth_update_if in_entry_def
        split: if_splits prod.splits option.splits)
next
  case (ERegister j)
  with assms show ?thesis
    by (auto simp: at_pc_Some relay_register_def Let_def nth_update_if in_entry_def case_prod_beta
        split: if_splits option.splits relay_pc.splits reg_result.splits)
next
  case (EPair j)
  with assms show ?thesis
    by (auto simp: at_pc_Some relay_pair_def Let_def nth_update_if in_entry_def
        split: if_splits option.splits relay_pc.splits list.splits)
next
  case (ETimeout j)
  with assms show ?thesis
    by (auto simp: at_pc_Some relay_timeout_def Let_def nth_update_if in_entry_def
        split: if_splits option.splits relay_pc.splits)
next
  case (ECtxDone j)
  with assms show ?thesis
    by (auto simp: at_pc_Some relay_ctx_done_def Let_def nth_update_if in_entry_def
        split: if_splits option.splits relay_pc.splits)
next
  case (ERecv j mt data)
  with assms show ?thesis
    by (auto simp: at_pc_Some relay_recv_def push_send_def Let_def nth_update_if in_entry_def
        split: if_splits option.splits relay_pc.splits)
next
  case (ERecvErr j)
  with assms show ?thesis
    by (auto simp: at_pc_Some relay_recv_err_def push_send_def Let_def nth_update_if in_entry_def
        split: if_splits option.splits relay_pc.splits)
next
  case (EPump j ok)
  with assms show ?thesis
    by (auto simp: pump_of_Some relay_pump_def Let_def nth_update_if in_entry_def
        split: if_splits option.splits list.splits)
next
  case (EPumpStop j)
  with assms show ?thesis
    by (auto simp: pump_of_Some relay_pump_stop_def nth_update_if in_entry_def
        split: if_splits option.splits)
qed

lemma tokens_step:
  assumes inv: "relay_inv r" and tok: "tokens_inv r" and step: "relay_step parse r e = Some r'"
  shows "tokens_inv r'"
  unfolding tokens_inv_def
proof (intro allI impI)
  fix i a assume i: "i < length (r_handlers r')" and a: "in_entry (hd_of r' i) a"
  note k = relay_step_keeps [OF step]
  from in_entry_step [OF step i a] have i': "i < length (r_handlers r)"
    and src: "in_entry (hd_of r i) a \<or>
      (\<exists>b. getOrCreate (r_store r) (h_token (hd_of r i)) = (r_store r', Some a, b))" by auto
  have tokeq: "h_token (hd_of r' i) = h_token (hd_of r i)"
    using k i' by (simp add: relay_keeps_def handler_keeps_def)
  from src show "a < length (ss_heap (r_store r')) \<and> se_token (ss_heap (r_store r') ! a) = h_token (hd_of r' i)"
  proof
    assume "in_entry (hd_of r i) a"
    with tok i' have "a < length (ss_heap (r_store r))" "se_token (ss_heap (r_store r) ! a) = h_token (hd_of r i)"
      by (auto simp: tokens_inv_def)
    with k tokeq show ?thesis by (simp add: relay_keeps_def entry_keeps_def)
  next
    assume "\<exists>b. getOrCreate (r_store r) (h_token (hd_of r i)) = (r_store r', Some a, b)"
    then obtain b where "getOrCreate (r_store r) (h_token (hd_of r i)) = (r_store r', Some a, b)" ..
    then have "(h_token (hd_of r i), a) \<in> set (ss_sessions (r_store r'))"
      by (rule map_of_SomeD [OF getOrCreate_lookup])
    with relay_invD(1) [OF relay_step_inv [OF inv step]] tokeq show ?thesis
      by (auto simp: store_inv_def)
  qed
qed

lemma relay_reach_tokens: "relay_reach parse m r \<Longrightarrow> tokens_inv r"
proof (induction rule: relay_reach.induct)
  case reach_init
  show ?case by (simp add: tokens_inv_def init_relay_def)
next
  case (reach_step r e r')
  with tokens_step relay_reach_inv show ?case by blast
qed

lemma linked_token:
  assumes "relay_reach parse m r" "i < length (r_handlers r)"
    "linked (r_handlers r) (ss_heap (r_store r)) i q"
  shows "h_token (hd_of r q) = h_token (hd_of r i)"
proof -
  note I = link_slots [OF relay_invD(2) [OF relay_reach_inv [OF assms(1)]]]
  obtain a where "h_entry (hd_of r i) = Some a" "h_entry (hd_of r q) = Some a" "q < length (r_handlers r)"
    using linked_entry [OF I assms(2,3)] by metis
  with relay_reach_tokens [OF assms(1)] assms(2) show ?thesis
    unfolding tokens_inv_def in_entry_def by metis
qed

section \<open>Runs used as examples\<close>

text \<open>
  Two peers pair and the viewer sends a frame, which the pump of the viewer takes; a viewer reconnects
  while the old agent is still there; a peer with a short token.
\<close>

definition demo_token :: string where "demo_token = ''12345678''"

definition no_json :: "nat list \<Rightarrow> json option" where "no_json data = None"

definition demo_pair :: "relay_event list" where
  "demo_pair = [EConnect RoleViewer demo_token, EConnect RoleAgent demo_token, EGet 0, EGet 1,
     ERegister 0, ERegister 1, EPair 1, EPair 0]"

definition demo_state :: "relay_event list \<Rightarrow> relay" where
  "demo_state es = the (relay_run no_json (init_relay 5) es)"

definition demo_frame :: "relay_event list" where
  "demo_frame = demo_pair @ [ERecv 0 BinaryMessage [1, 2, 3], EPump 0 True]"

definition demo_reconnect :: "relay_event list" where
  "demo_reconnect = demo_pair @ [ERecvErr 0, EConnect RoleViewer demo_token, EGet 2, ERegister 2]"

definition demo_short :: "relay_event list" where
  "demo_short = [EConnect RoleAgent ''abc'', EGet 0]"

lemmas demo_defs = demo_state_def demo_frame_def demo_reconnect_def demo_short_def demo_pair_def

lemma demo_reach:
  assumes "relay_run no_json (init_relay 5) es \<noteq> None"
  shows "relay_reach no_json 5 (demo_state es)"
  using assms relay_run_reach [OF reach_init] by (auto simp: demo_state_def)

lemma demo_runs:
  "relay_run no_json (init_relay 5) demo_pair \<noteq> None"
  "relay_run no_json (init_relay 5) demo_frame \<noteq> None"
  "relay_run no_json (init_relay 5) demo_reconnect \<noteq> None"
  "relay_run no_json (init_relay 5) demo_short \<noteq> None"
  by code_simp+

section \<open>Properties\<close>

text \<open>
  C3. In every state the relay can reach, the number of sessions respects the configured bound, every
  entry and every session key are consistent, no handler is blocked in \<open>register\<close>, and no send channel
  holds more than 256 frames.
\<close>

theorem relay_reachable_safe:
  "relay_reach parse m r \<Longrightarrow>
     (0 < m \<longrightarrow> int (session_count (r_store r)) \<le> m) \<and>
     (\<forall>a < length (ss_heap (r_store r)). entry_inv (ss_heap (r_store r) ! a)) \<and>
     (\<forall>i < length (r_handlers r). h_pc (hd_of r i) \<noteq> Blocked \<and> length (h_sendCh (hd_of r i)) \<le> 256)"
proof (intro conjI allI impI)
  assume reach: "relay_reach parse m r"
  note inv = relay_reach_inv [OF reach]
  show "int (session_count (r_store r)) \<le> m" if "0 < m"
    using relay_invD(1) [OF inv] relay_reach_max [OF reach] that
    by (simp add: store_inv_def session_count_def)
  show "entry_inv (ss_heap (r_store r) ! a)" if "a < length (ss_heap (r_store r))" for a
    using slots_entry_inv [OF link_slots [OF relay_invD(2) [OF inv]] that] .
  show "h_pc (hd_of r i) \<noteq> Blocked" if "i < length (r_handlers r)" for i
    using inv_handler_ok [OF inv that] by (auto simp: handler_ok_def)
  show "length (h_sendCh (hd_of r i)) \<le> 256" if "i < length (r_handlers r)" for i
    using inv_cap [OF inv that] by (simp add: send_cap_def)
qed

lemma relay_reachable_safe_witness:
  "int (session_count (r_store (demo_state demo_pair))) \<le> 5 \<and>
   h_pc (hd_of (demo_state demo_pair) 0) \<noteq> Blocked"
proof -
  have "0 < length (r_handlers (demo_state demo_pair))" by code_simp
  with relay_reachable_safe [OF demo_reach [OF demo_runs(1)]] show ?thesis by simp
qed

text \<open>
  C2. Tunnels are between the two peers of one session: the partner of a paired handler is another
  handler, of the other role, with the same pairing token, registered in the same entry; and no other
  handler is paired with it.
\<close>

theorem relay_partner:
  assumes reach: "relay_reach parse m r" and i: "i < length (r_handlers r)" and pc: "h_pc (hd_of r i) = Paired q"
  shows "q < length (r_handlers r) \<and> q \<noteq> i \<and> h_role (hd_of r q) = other_role (h_role (hd_of r i))
    \<and> h_token (hd_of r q) = h_token (hd_of r i) \<and> h_entry (hd_of r q) = h_entry (hd_of r i)
    \<and> (\<forall>j < length (r_handlers r). h_pc (hd_of r j) = Paired q \<longrightarrow> j = i)
    \<and> (\<forall>k. h_pc (hd_of r q) = Paired k \<longrightarrow> k = i)"
proof -
  note inv = relay_reach_inv [OF reach]
  note s = link_slots [OF relay_invD(2) [OF inv]]
  note link = inv_paired [OF inv i pc]
  note sym = linked_sym [OF s i link]
  have "h_role (hd_of r q) = other_role (h_role (hd_of r i))" "h_entry (hd_of r q) = h_entry (hd_of r i)"
    using linked_entry [OF s i link] by metis+
  moreover have "j = i" if "j < length (r_handlers r)" "h_pc (hd_of r j) = Paired q" for j
    using linked_inj [OF s that(1) i inv_paired [OF inv that] link] .
  moreover have "k = i" if "h_pc (hd_of r q) = Paired k" for k
    using linked_fun [OF inv_paired [OF inv linked_bounds(1) [OF s i link] that] sym] .
  ultimately show ?thesis using linked_bounds [OF s i link] linked_token [OF reach i link] by blast
qed

lemma relay_partner_witness:
  "h_pc (hd_of (demo_state demo_pair) 0) = Paired 1 \<and> h_role (hd_of (demo_state demo_pair) 1) = RoleAgent
   \<and> h_token (hd_of (demo_state demo_pair) 1) = h_token (hd_of (demo_state demo_pair) 0)"
proof -
  have 1: "0 < length (r_handlers (demo_state demo_pair))" by code_simp
  have 2: "h_pc (hd_of (demo_state demo_pair) 0) = Paired 1" by code_simp
  have 3: "h_role (hd_of (demo_state demo_pair) 0) = RoleViewer" by code_simp
  from relay_partner [OF demo_reach [OF demo_runs(1)] 1 2] 2 3 show ?thesis by simp
qed

text \<open>
  C1. The relay sends every frame back to where it came from: in every reachable state, a frame a pump
  wrote to the connection of a handler was read from that very connection, or is the notice of the
  handler's own end. Nothing a peer sends can be written to the connection of its partner.
\<close>

theorem relay_echoes:
  assumes "relay_reach parse m r" "i < length (r_handlers r)" "Frame t f \<in> set (h_out (hd_of r i))"
  shows "f \<in> set (h_in (hd_of r i)) \<or> (f = peer_disconnected \<and> h_done (hd_of r i))"
  using frames_out [OF relay_invD(3) [OF relay_reach_inv [OF assms(1)]] assms(2,3)]
  by (simp add: from_peer_def)

lemma relay_echoes_witness:
  "Frame BinaryMessage [1, 2, 3] \<in> set (h_out (hd_of (demo_state demo_frame) 0)) \<and>
   ([1, 2, 3] \<in> set (h_in (hd_of (demo_state demo_frame) 0)) \<or>
    ([1, 2, 3] = peer_disconnected \<and> h_done (hd_of (demo_state demo_frame) 0)))"
proof -
  have 1: "0 < length (r_handlers (demo_state demo_frame))" by code_simp
  have 2: "Frame BinaryMessage [1, 2, 3] \<in> set (h_out (hd_of (demo_state demo_frame) 0))" by code_simp
  from relay_echoes [OF demo_reach [OF demo_runs(2)] 1 2] 2 show ?thesis by blast
qed

text \<open>
  A session whose pairing token is shorter than eight bytes kills its handler: the registration takes
  the slot of its role, the log line panics, and in every later state the handler is still dead and the
  slot still taken, so every other peer of that role that finds the entry is refused.
\<close>

theorem short_token_leaks_slot:
  assumes inv: "relay_reach parse m r" and i: "i < length (r_handlers r)" and pc: "h_pc (hd_of r i) = Got a"
    and free: "slot (ss_heap (r_store r) ! a) (h_role (hd_of r i)) = None"
    and short: "length (h_token (hd_of r i)) < 8"
    and run: "relay_run parse r (ERegister i # es) = Some r'"
  shows "h_pc (hd_of r' i) = Panicked \<and> slot (ss_heap (r_store r') ! a) (h_role (hd_of r i)) = Some i \<and>
    (\<forall>p. register_peer (ss_heap (r_store r') ! a) (h_role (hd_of r i)) p = (ss_heap (r_store r') ! a, RegTaken))"
proof -
  let ?r1 = "relay_register r i a"
  note I = relay_reach_inv [OF inv]
  note s = link_slots [OF relay_invD(2) [OF I]]
  have a: "a < length (ss_heap (r_store r))"
    using inv_handler_ok [OF I i] pc by (simp add: handler_ok_def)
  note role = slots_role [OF s i]
  from register_slot(1) [OF role slots_entry_inv [OF s a] free, of i] a i short
  have 1: "h_pc (hd_of ?r1 i) = Panicked" "slot (ss_heap (r_store ?r1) ! a) (h_role (hd_of r i)) = Some i"
    "i < length (r_handlers ?r1)" "a < length (ss_heap (r_store ?r1))"
    unfolding relay_register_free [OF I i a free] by (simp_all add: registered_def)
  from run pc i have "relay_run parse ?r1 es = Some r'" by (simp add: at_pc_Some at_pc_def)
  from relay_run_keeps [OF this] 1
  have "h_pc (hd_of r' i) = Panicked" "slot (ss_heap (r_store r') ! a) (h_role (hd_of r i)) = Some i"
    by (simp_all add: relay_keeps_def handler_keeps_def entry_keeps_def)
  with register_taken [OF role] show ?thesis by simp
qed

lemma short_token_leaks_slot_witness:
  "h_pc (hd_of (the (relay_run no_json (demo_state demo_short) [ERegister 0])) 0) = Panicked"
proof -
  have 1: "0 < length (r_handlers (demo_state demo_short))" by code_simp
  have 2: "h_pc (hd_of (demo_state demo_short) 0) = Got 0" by code_simp
  have 3: "slot (ss_heap (r_store (demo_state demo_short)) ! 0) (h_role (hd_of (demo_state demo_short) 0)) = None"
    by code_simp
  have 4: "length (h_token (hd_of (demo_state demo_short) 0)) < 8" by code_simp
  have "relay_run no_json (demo_state demo_short) [ERegister 0] \<noteq> None" by code_simp
  then have 5: "relay_run no_json (demo_state demo_short) [ERegister 0] =
      Some (the (relay_run no_json (demo_state demo_short) [ERegister 0]))" by simp
  from short_token_leaks_slot [OF demo_reach [OF demo_runs(4)] 1 2 3 4 5] show ?thesis by blast
qed

text \<open>
  The end of an old tunnel takes a newer session with it: when a handler whose tunnel ends has the
  pairing token of a handler that waits, the waiting handler stays, but its session is no longer in the
  store, and the next peer with the token gets another entry, so it cannot be paired with the waiting one.
\<close>

theorem old_tunnel_drops_new_session:
  assumes reach: "relay_reach parse m r" and i: "i < length (r_handlers r)" and w: "h_pc (hd_of r i) = Waiting a"
    and j: "j < length (r_handlers r)" and p: "h_pc (hd_of r j) = Paired q"
    and same: "h_token (hd_of r j) = h_token (hd_of r i)"
    and step: "relay_step parse r (ERecvErr j) = Some r'"
  shows "h_pc (hd_of r' i) = Waiting a \<and> map_of (ss_sessions (r_store r')) (h_token (hd_of r' i)) = None
    \<and> (\<forall>s b new. getOrCreate (r_store r') (h_token (hd_of r' i)) = (s, Some b, new) \<longrightarrow> new \<and> b \<noteq> a)"
proof -
  note inv = relay_reach_inv [OF reach]
  have r': "r' = relay_recv_err r j q" using step j p by (simp add: at_pc_def)
  have pc: "h_pc (hd_of r' i) = Waiting a"
    unfolding r' using w p i by (auto simp: relay_recv_err_def push_send_def Let_def nth_update_if)
  have tok: "h_token (hd_of r' i) = h_token (hd_of r i)"
    using relay_step_keeps [OF step] i by (simp add: relay_keeps_def handler_keeps_def)
  have none: "map_of (ss_sessions (r_store r')) (h_token (hd_of r' i)) = None"
    unfolding r' using same tok [unfolded r'] lookup_remove
    by (simp add: relay_recv_err_def push_send_def Let_def)
  have "h_entry (hd_of r i) = Some a" using inv_handler_ok [OF inv i] w by (simp add: handler_ok_def)
  then have "a < length (ss_heap (r_store r))"
    using slots_entryD [OF link_slots [OF relay_invD(2) [OF inv]] i] by blast
  moreover have "length (ss_heap (r_store r)) \<le> length (ss_heap (r_store r'))"
    using relay_step_keeps [OF step] by (simp add: relay_keeps_def)
  ultimately have "\<forall>s b new. getOrCreate (r_store r') (h_token (hd_of r' i)) = (s, Some b, new) \<longrightarrow> new \<and> b \<noteq> a"
    using none by (auto simp: getOrCreate_def Let_def split: if_splits)
  with pc none show ?thesis by blast
qed

lemma old_tunnel_drops_new_session_witness:
  "\<exists>r'. relay_step no_json (demo_state demo_reconnect) (ERecvErr 1) = Some r'
     \<and> h_pc (hd_of r' 2) = Waiting 1 \<and> map_of (ss_sessions (r_store r')) (h_token (hd_of r' 2)) = None"
proof -
  let ?r = "demo_state demo_reconnect"
  have 1: "2 < length (r_handlers ?r)" by code_simp
  have 2: "h_pc (hd_of ?r 2) = Waiting 1" by code_simp
  have 3: "1 < length (r_handlers ?r)" by code_simp
  have 4: "h_pc (hd_of ?r 1) = Paired 0" by code_simp
  have 5: "h_token (hd_of ?r 1) = h_token (hd_of ?r 2)" by code_simp
  have "relay_step no_json ?r (ERecvErr 1) \<noteq> None" by code_simp
  then obtain r' where r': "relay_step no_json ?r (ERecvErr 1) = Some r'" by blast
  from old_tunnel_drops_new_session [OF demo_reach [OF demo_runs(3)] 1 2 3 4 5 r'] r' show ?thesis by blast
qed

section \<open>Authentication\<close>

text \<open>
  A viewer token that was issued is accepted until it expires and gives back the session token, when that
  has no dot; with a dot in it the token that was issued is never accepted.
\<close>

theorem issued_token_validates:
  assumes "0 \<le> now + ttl" "now + ttl < 2 ^ 63"
  shows "validateViewerToken mac now' secret (issueViewerToken mac now tok ttl secret) =
    (if dot \<in> set tok then Inl InvalidFormat
     else if now + ttl < now' then Inl TokenExpired else Inr tok)"
  using validate_issued [OF _ assms] validate_dotted by simp

lemma issued_token_validates_witness:
  "validateViewerToken (\<lambda>k d. [1, 2]) 1000 ''s'' (issueViewerToken (\<lambda>k d. [1, 2]) 500 ''abc'' 3600 ''s'') = Inr ''abc''"
  using issued_token_validates [of 500 3600 "\<lambda>k d. [1, 2]" 1000 "''s''" "''abc''"] by (simp add: dot_def)

text \<open>
  C6. Admission is sound: a handler gets a pairing token only as a viewer with a token that carries the
  signature of that session token and an expiry in the future, or as an agent whose session the Obliance
  server has confirmed.
\<close>

theorem relay_admit_sound:
  assumes "relay_admit mac now post cfg rq = Inr tok"
  shows "(rq_role rq = RoleViewer \<and> (\<exists>e ts.
        rq_token rq = tok @ [dot] @ e @ [dot] @ signHMAC mac (tok @ [dot] @ e) (rc_RelaySecret cfg)
        \<and> sscanf_d e = Some ts \<and> now \<le> ts))
    \<or> (rq_role rq = RoleAgent \<and> rq_apiKey rq \<noteq> [] \<and> rq_sessionToken rq \<noteq> [] \<and> (\<exists>resp kvs.
        post (rc_OblianceURL cfg @ ''/api/remote/relay/validate-agent'')
          (JObj [(''apiKey'', JStr (rq_apiKey rq)), (''sessionToken'', JStr (rq_sessionToken rq))])
          = Some (200, Some resp) \<and> dec_struct resp = Some kvs \<and> dec_bool ''valid'' kvs = (True, True)
        \<and> dec_string ''sessionToken'' kvs = (tok, True)))"
proof (cases "rq_role rq = RoleViewer")
  case True
  with assms have "validateViewerToken mac now (rc_RelaySecret cfg) (rq_token rq) = Inr tok"
    by (auto simp: relay_admit_def Let_def split: if_splits sum.splits)
  from validate_sound [OF this] True show ?thesis by blast
next
  case False
  with assms have r: "rq_role rq = RoleAgent" and ne: "rq_apiKey rq \<noteq> []" "rq_sessionToken rq \<noteq> []"
    and v: "validateAgentSession post (rq_sessionToken rq) (rq_apiKey rq) (rc_OblianceURL cfg) = Inr tok"
    by (auto simp: relay_admit_def Let_def split: if_splits sum.splits)
  from validateAgentSession_Inr [OF v] r ne show ?thesis by blast
qed

definition demo_api :: obliance_api where
  "demo_api url body = Some (200, Some (JObj [(''valid'', JBool True), (''sessionToken'', JStr ''tok'')]))"

definition demo_config :: relay_config where
  "demo_config = \<lparr>rc_Addr = '':7900'', rc_OblianceURL = ''u'', rc_RelaySecret = ''s'', rc_MaxSessions = 5,
     rc_PairTimeoutSec = 60, rc_IdleTimeoutSec = 0, rc_TLSCert = [], rc_TLSKey = []\<rparr>"

lemma relay_admit_sound_witness:
  "\<exists>resp. demo_api (''u'' @ ''/api/remote/relay/validate-agent'')
     (JObj [(''apiKey'', JStr ''k''), (''sessionToken'', JStr ''x'')]) = Some (200, Some resp)"
proof -
  let ?rq = "\<lparr>rq_role = RoleAgent, rq_token = [], rq_apiKey = ''k'', rq_sessionToken = ''x''\<rparr>"
  have 1: "relay_admit (\<lambda>k d. []) 0 demo_api demo_config ?rq = Inr ''tok''" by code_simp
  from relay_admit_sound [OF 1] show ?thesis by (auto simp: demo_config_def)
qed

text \<open>
  The endpoint that issues tokens: a token is issued only to a POST that carries the shared secret and
  names a session, it lives between a second and a day, and the relay accepts it for that session (when
  the session token has no dot).
\<close>

theorem issue_endpoint:
  assumes "handleIssueToken mac now cfg r = HttpOK fs" "0 \<le> now" "now < 2 ^ 62"
  shows "ir_secret_header r = rc_RelaySecret cfg \<and> ir_method r = ''POST'' \<and>
    (\<exists>tok vt ttl. tok \<noteq> [] \<and> fs = [(''viewerToken'', JStr vt)] \<and> 1 \<le> ttl \<and> ttl \<le> 86400 \<and>
       (dot \<notin> set tok \<longrightarrow> (\<forall>now'. validateViewerToken mac now' (rc_RelaySecret cfg) vt =
          (if now + ttl < now' then Inl TokenExpired else Inr tok))))"
proof -
  obtain tok ttl where t: "tok \<noteq> []" "1 \<le> ttl" "ttl \<le> 86400"
    "fs = [(''viewerToken'', JStr (issueViewerToken mac now tok ttl (rc_RelaySecret cfg)))]"
    using handleIssueToken_OK [OF assms(1)] by blast
  have "0 \<le> now + ttl" "now + ttl < 2 ^ 63" using t(2,3) assms(2,3) by auto
  from validate_issued [OF _ this] t handleIssueToken_OK [OF assms(1)] show ?thesis by blast
qed

lemma issue_endpoint_witness:
  "\<exists>fs. handleIssueToken (\<lambda>k d. []) 0 demo_config
      \<lparr>ir_secret_header = ''s'', ir_method = ''POST'', ir_body = Some (JObj [(''sessionToken'', JStr ''abc'')])\<rparr>
      = HttpOK fs \<and> (\<exists>vt. fs = [(''viewerToken'', JStr vt)])"
proof -
  let ?r = "\<lparr>ir_secret_header = ''s'', ir_method = ''POST'', ir_body = Some (JObj [(''sessionToken'', JStr ''abc'')])\<rparr>"
  have 0: "to_lower ''sessionToken'' \<noteq> to_lower ''ttlSeconds''" by code_simp
  have 1: "handleIssueToken (\<lambda>k d. []) 0 demo_config ?r =
      HttpOK [(''viewerToken'', JStr (issueViewerToken (\<lambda>k d. []) 0 ''abc'' 3600 ''s''))]"
    using 0 by (simp add: handleIssueToken_def demo_config_def dec_string_def dec_int_def dec_field_def json_field_def
        clamp_ttl_def)
  from issue_endpoint [OF 1] 1 show ?thesis by auto
qed

end
