(* ===== verification/Agent_Config.thy ===== *)
theory Agent_Config
  imports Json
begin

text \<open>
  The identity and the configuration of the agent: agent/machine_uuid*.go (the hardware UUID on each
  platform, its normal form, the choice of the device UUID) and agent/main.go (generated UUIDs, the
  configuration file, the first run, the modes of the executable).
\<close>

section \<open>UUIDs\<close>

definition is_hex_ci :: "char \<Rightarrow> bool" where
  "is_hex_ci c = is_hex (lower_char c)"

text \<open>The regular expression \<open>uuidRe\<close>: groups of 8, 4, 4, 4 and 12 hexadecimal digits of either case.\<close>

definition uuidRe :: "string \<Rightarrow> bool" where
  "uuidRe s \<longleftrightarrow> map length (split_on CHR ''-'' s) = [8, 4, 4, 4, 12]
     \<and> list_all (list_all is_hex_ci) (split_on CHR ''-'' s)"

definition zeroUUID :: string where
  "zeroUUID = ''00000000-0000-0000-0000-000000000000''"

definition normaliseUUID :: "string \<Rightarrow> string" where
  "normaliseUUID s0 =
     (let s = to_lower (trim_space s0) in if s = zeroUUID \<or> \<not> uuidRe s then [] else s)"

text \<open>\<open>generateUUID\<close> from the 16 bytes of the random source.\<close>

definition uuid_text :: "bytes \<Rightarrow> string" where
  "uuid_text b = hex_encode (take 4 b) @ ''-'' @ hex_encode (take 2 (drop 4 b)) @ ''-''
     @ hex_encode (take 2 (drop 6 b)) @ ''-'' @ hex_encode (take 2 (drop 8 b)) @ ''-''
     @ hex_encode (take 6 (drop 10 b))"

definition generateUUID :: "bytes \<Rightarrow> string" where
  "generateUUID rand =
     (let b = rand[6 := (rand ! 6 AND 0x0f) OR 0x40];
          b' = b[8 := (b ! 8 AND 0x3f) OR 0x80]
      in uuid_text b')"

section \<open>The hardware UUID\<close>

text \<open>
  The readers of the three platforms; a file or the output of a command that could not be had is \<open>None\<close>.
\<close>

definition readMachineUUID_linux :: "string option \<Rightarrow> string option \<Rightarrow> string" where
  "readMachineUUID_linux machine_id product_uuid =
     (let u1 = (case machine_id of
                  None \<Rightarrow> []
                | Some b \<Rightarrow>
                    (let id = trim_space b in
                     if length id = 32
                     then normaliseUUID (take 8 id @ ''-'' @ take 4 (drop 8 id) @ ''-'' @ take 4 (drop 12 id)
                            @ ''-'' @ take 4 (drop 16 id) @ ''-'' @ take 12 (drop 20 id))
                     else []));
          u2 = (case product_uuid of None \<Rightarrow> [] | Some b \<Rightarrow> normaliseUUID (trim_space b))
      in if u1 \<noteq> [] then u1 else u2)"

fun first_uuid_line :: "string list \<Rightarrow> string" where
  "first_uuid_line [] = []"
| "first_uuid_line (l # ls) =
     (let line = trim_space l;
          u = normaliseUUID (trim_prefix line ''UUID='')
      in if has_prefix line ''UUID='' \<and> u \<noteq> [] then u else first_uuid_line ls)"

definition readMachineUUID_windows :: "string option \<Rightarrow> string option \<Rightarrow> string" where
  "readMachineUUID_windows powershell wmic =
     (let u1 = (case powershell of None \<Rightarrow> [] | Some out \<Rightarrow> normaliseUUID (trim_space out));
          u2 = (case wmic of None \<Rightarrow> [] | Some out \<Rightarrow> first_uuid_line (split_on CHR 0x0A out))
      in if u1 \<noteq> [] then u1 else u2)"

text \<open>
  The expression \<open>"IOPlatformUUID"\s*=\s*"([0-9A-Fa-f\-]+)"\<close>, matched at the head of a text; no two of its
  parts can take the same byte, so a greedy reading is the only one.
\<close>

definition ioreg_at :: "string \<Rightarrow> string option" where
  "ioreg_at s =
     (let q = [CHR 0x22]; key = q @ ''IOPlatformUUID'' @ q in
      if \<not> has_prefix s key then None
      else (let s1 = dropWhile is_space (drop (length key) s) in
        if \<not> has_prefix s1 ''='' then None
        else (let s2 = dropWhile is_space (drop 1 s1) in
          if \<not> has_prefix s2 q then None
          else (let u = takeWhile (\<lambda>c. is_hex_ci c \<or> c = CHR ''-'') (drop 1 s2);
                    r = dropWhile (\<lambda>c. is_hex_ci c \<or> c = CHR ''-'') (drop 1 s2)
                in if u = [] \<or> \<not> has_prefix r q then None else Some u))))"

fun ioreg_find :: "string \<Rightarrow> string option" where
  "ioreg_find [] = None"
| "ioreg_find (c # cs) = (case ioreg_at (c # cs) of Some u \<Rightarrow> Some u | None \<Rightarrow> ioreg_find cs)"

definition readMachineUUID_darwin :: "string option \<Rightarrow> string" where
  "readMachineUUID_darwin ioreg =
     (case ioreg of None \<Rightarrow> []
      | Some out \<Rightarrow> (case ioreg_find out of None \<Rightarrow> [] | Some u \<Rightarrow> normaliseUUID (trim_space u)))"

definition resolveDeviceUUID :: "string \<Rightarrow> bytes \<Rightarrow> string \<Rightarrow> string" where
  "resolveDeviceUUID hw rand stored =
     (if hw \<noteq> [] then hw else if stored \<noteq> [] then stored else generateUUID rand)"

section \<open>The configuration\<close>

record agent_config =
  ServerURL :: string
  APIKey :: string
  DeviceUUID :: string

text \<open>
  \<open>loadConfig\<close> from the parsed contents of the file (\<open>None\<close>: no file, or no JSON), \<open>saveConfig\<close> as the value
  it writes.
\<close>

definition agent_loadConfig :: "json option \<Rightarrow> agent_config option" where
  "agent_loadConfig file =
     (case Option.bind file dec_struct of
        None \<Rightarrow> None
      | Some kvs \<Rightarrow>
          (let (url, ok1) = dec_string ''serverUrl'' kvs;
               (key, ok2) = dec_string ''apiKey'' kvs;
               (uuid, ok3) = dec_string ''deviceUuid'' kvs
           in if ok1 \<and> ok2 \<and> ok3
              then Some \<lparr>ServerURL = url, APIKey = key, DeviceUUID = uuid\<rparr> else None))"

definition config_json :: "agent_config \<Rightarrow> json" where
  "config_json cfg = JObj [(''serverUrl'', JStr (ServerURL cfg)), (''apiKey'', JStr (APIKey cfg)),
     (''deviceUuid'', JStr (DeviceUUID cfg))]"

text \<open>
  \<open>setupConfig\<close>: the exit of a first run without arguments, or the configuration and what it saves.
\<close>

definition setupConfig ::
  "json option \<Rightarrow> string \<Rightarrow> bytes \<Rightarrow> string \<Rightarrow> string \<Rightarrow> (agent_config \<times> json option) option" where
  "setupConfig file hw rand urlArg keyArg =
     (case agent_loadConfig file of
        None \<Rightarrow>
          if urlArg = [] \<or> keyArg = [] then None
          else (let cfg = \<lparr>ServerURL = trim_right CHR ''/'' urlArg, APIKey = keyArg,
                           DeviceUUID = resolveDeviceUUID hw rand []\<rparr>
                in Some (cfg, Some (config_json cfg)))
      | Some cfg0 \<Rightarrow>
          (let cfg1 = (if urlArg \<noteq> [] then cfg0\<lparr>ServerURL := trim_right CHR ''/'' urlArg\<rparr> else cfg0);
               cfg2 = (if keyArg \<noteq> [] then cfg1\<lparr>APIKey := keyArg\<rparr> else cfg1);
               cfg = cfg2\<lparr>DeviceUUID := resolveDeviceUUID hw rand (DeviceUUID cfg2)\<rparr>
           in Some (cfg, if DeviceUUID cfg \<noteq> [] then Some (config_json cfg) else None)))"

section \<open>The modes of the executable\<close>

record agent_flags =
  fl_url :: string
  fl_key :: string
  fl_captureHelper :: bool
  fl_addr :: string
  fl_notifyTitle :: string
  fl_notifyMsg :: string
  fl_notifyTimeout :: int
  fl_chatHelper :: bool
  fl_chatID :: string
  fl_operator :: string

datatype agent_mode =
    ToastMode string string int
  | ChatHelperMode string string string
  | CaptureHelperMode string
  | UsageExit string
  | AgentMode string string

definition agent_main :: "agent_flags \<Rightarrow> agent_mode" where
  "agent_main f =
     (if fl_notifyTitle f \<noteq> [] then ToastMode (fl_notifyTitle f) (fl_notifyMsg f) (fl_notifyTimeout f)
      else if fl_chatHelper f then
        (if fl_addr f = [] \<or> fl_chatID f = []
         then UsageExit ''--addr and --chat-id required in chat-helper mode''
         else ChatHelperMode (fl_addr f) (fl_chatID f) (fl_operator f))
      else if fl_captureHelper f then
        (if fl_addr f = [] then UsageExit ''--addr required in capture-helper mode''
         else CaptureHelperMode (fl_addr f))
      else AgentMode (fl_url f) (fl_key f))"

text \<open>The address the update is downloaded from, and the server addresses of the two WebSockets.\<close>

definition update_url :: "string \<Rightarrow> string \<Rightarrow> string" where
  "update_url serverURL relativeURL =
     trim_right CHR ''/'' serverURL @ ''/'' @ trim_left CHR ''/'' relativeURL"

definition ws_base :: "string \<Rightarrow> string" where
  "ws_base serverURL =
     (let base = trim_right CHR ''/'' serverURL in
      if has_prefix base ''https://'' then ''wss://'' @ drop 8 base
      else if has_prefix base ''http://'' then ''ws://'' @ drop 7 base
      else base)"

definition stream_ws_url :: "string \<Rightarrow> string \<Rightarrow> string" where
  "stream_ws_url serverURL token = ws_base serverURL @ ''/api/remote/agent-tunnel/'' @ token"

definition cmd_ws_url :: "(string \<Rightarrow> string) \<Rightarrow> string \<Rightarrow> string \<Rightarrow> string" where
  "cmd_ws_url query_escape serverURL uuid =
     ws_base serverURL @ ''/api/oblireach/ws?uuid='' @ query_escape uuid"

section \<open>Normal UUIDs\<close>

definition uuid_ok :: "string \<Rightarrow> bool" where
  "uuid_ok s \<longleftrightarrow> uuidRe s \<and> to_lower s = s \<and> s \<noteq> zeroUUID"

lemma lower_char_space: "is_space (lower_char c) = is_space c"
  by (auto simp: lower_char_def is_space_def)

lemma set_join_with: "c \<in> set (join_with d ws) \<Longrightarrow> c = d \<or> (\<exists>w\<in>set ws. c \<in> set w)"
  by (induction ws rule: join_with.induct) auto

lemma uuidRe_chars:
  assumes "uuidRe s" "c \<in> set s"
  shows "is_hex_ci c \<or> c = CHR ''-''"
proof -
  have "c \<in> set (join_with CHR ''-'' (split_on CHR ''-'' s))" using assms(2) by (simp only: join_split)
  then have "c = CHR ''-'' \<or> (\<exists>w\<in>set (split_on CHR ''-'' s). c \<in> set w)" by (rule set_join_with)
  moreover have "list_all (list_all is_hex_ci) (split_on CHR ''-'' s)" using assms(1) unfolding uuidRe_def by blast
  ultimately show ?thesis unfolding list_all_iff by blast
qed

lemma hex_not_space: "is_hex_ci c \<or> c = CHR ''-'' \<Longrightarrow> \<not> is_space c"
  by (auto simp: is_hex_ci_def is_hex_def is_digit_def is_space_def lower_char_def split: if_splits)

lemma dropWhile_none: "\<forall>x\<in>set xs. \<not> P x \<Longrightarrow> dropWhile P xs = xs"
  by (cases xs) auto

lemma trim_space_none: "\<forall>c\<in>set s. \<not> is_space c \<Longrightarrow> trim_space s = s"
  by (simp add: trim_space_def dropWhile_none)

lemma normaliseUUID_ok:
  assumes "uuid_ok s"
  shows "normaliseUUID s = s"
proof -
  have "trim_space s = s"
    using assms uuidRe_chars hex_not_space by (intro trim_space_none) (auto simp: uuid_ok_def)
  with assms show ?thesis by (simp add: normaliseUUID_def uuid_ok_def)
qed

lemma normaliseUUID_result: "normaliseUUID s = [] \<or> uuid_ok (normaliseUUID s)"
  by (simp add: normaliseUUID_def uuid_ok_def Let_def)

lemma readMachineUUID_results:
  "readMachineUUID_linux a b = [] \<or> uuid_ok (readMachineUUID_linux a b)"
  "readMachineUUID_darwin c = [] \<or> uuid_ok (readMachineUUID_darwin c)"
  "readMachineUUID_windows a b = [] \<or> uuid_ok (readMachineUUID_windows a b)"
proof -
  have line: "first_uuid_line ls = [] \<or> uuid_ok (first_uuid_line ls)" for ls
    using normaliseUUID_result by (induction ls) (auto simp: Let_def)
  note n = normaliseUUID_result
  show "readMachineUUID_linux a b = [] \<or> uuid_ok (readMachineUUID_linux a b)"
    using n by (auto simp: readMachineUUID_linux_def Let_def split: option.splits)
  show "readMachineUUID_darwin c = [] \<or> uuid_ok (readMachineUUID_darwin c)"
    using n by (auto simp: readMachineUUID_darwin_def split: option.splits)
  show "readMachineUUID_windows a b = [] \<or> uuid_ok (readMachineUUID_windows a b)"
    using n line by (auto simp: readMachineUUID_windows_def Let_def split: option.splits)
qed

section \<open>Generated UUIDs\<close>

lemma lower_hex_char [simp]: "n < 16 \<Longrightarrow> lower_char (hex_char n) = hex_char n"
  by (auto simp: lower_char_def hex_char_def)

lemma lower_hex_encode [simp]: "to_lower (hex_encode bs) = hex_encode bs"
  by (induction bs) (auto simp: hex_encode_def to_lower_def less_mult_imp_div_less)

lemma hex_encode_ci: "list_all is_hex_ci (hex_encode bs)"
  using hex_encode_hex [of bs] arg_cong [OF lower_hex_encode [of bs], of "list_all is_hex"]
  by (simp add: list_all_iff is_hex_ci_def to_lower_def)

lemma hex_no_dash: "CHR ''-'' \<notin> set (hex_encode bs)"
  using hex_encode_hex [of bs] by (auto simp: list_all_iff is_hex_def is_digit_def)

lemma split_uuid_text:
  "split_on CHR ''-'' (uuid_text b) =
     [hex_encode (take 4 b), hex_encode (take 2 (drop 4 b)), hex_encode (take 2 (drop 6 b)),
      hex_encode (take 2 (drop 8 b)), hex_encode (take 6 (drop 10 b))]"
  unfolding uuid_text_def by (simp add: split_on_append split_on_none hex_no_dash)

lemma to_lower_append: "to_lower (xs @ ys) = to_lower xs @ to_lower ys" "to_lower (c # xs) = lower_char c # to_lower xs"
  by (simp_all add: to_lower_def)

lemma lower_dash: "lower_char CHR ''-'' = CHR ''-''"
  by (simp add: lower_char_def)

lemma uuid_text_ok: "length b = 16 \<Longrightarrow> uuidRe (uuid_text b) \<and> to_lower (uuid_text b) = uuid_text b"
  unfolding uuidRe_def split_uuid_text
  by (simp add: hex_encode_ci uuid_text_def to_lower_append lower_dash)

text \<open>The version digit is 4 and the variant digit one of 8, 9, a and b.\<close>

lemma version_nibble: "unat ((w AND 0x0f) OR 0x40 :: byte) div 16 = 4"
proof -
  have "drop_bit 4 ((w AND 0x0f) OR 0x40 :: byte) = 4" by simp
  then have "unat (drop_bit 4 ((w AND 0x0f) OR 0x40 :: byte)) = 4" by simp
  then show ?thesis
    by (simp only: drop_bit_eq_div unat_div_distrib) simp
qed

lemma variant_nibble: "unat ((w AND 0x3f) OR 0x80 :: byte) div 64 = 2"
proof -
  have "drop_bit 6 ((w AND 0x3f) OR 0x80 :: byte) = 2" by simp
  then have "unat (drop_bit 6 ((w AND 0x3f) OR 0x80 :: byte)) = 2" by simp
  then show ?thesis
    by (simp only: drop_bit_eq_div unat_div_distrib) simp
qed

lemma hex_encode_nth: "i < length bs \<Longrightarrow> hex_encode bs ! (2 * i) = hex_char (unat (bs ! i) div 16)"
proof (induction bs arbitrary: i)
  case (Cons b bs)
  then show ?case by (cases i) (auto simp: hex_encode_def)
qed simp

lemma uuid_text_nth:
  assumes "length b = 16"
  shows "uuid_text b ! 14 = hex_char (unat (b ! 6) div 16)" "uuid_text b ! 19 = hex_char (unat (b ! 8) div 16)"
  using assms hex_encode_nth [of 0 "take 2 (drop 6 b)"] hex_encode_nth [of 0 "take 2 (drop 8 b)"]
  by (simp_all add: uuid_text_def nth_append)

lemma generateUUID_ok:
  assumes "length rand = 16"
  shows "uuid_ok (generateUUID rand) \<and> generateUUID rand ! 14 = CHR ''4''
    \<and> generateUUID rand ! 19 \<in> {CHR ''8'', CHR ''9'', CHR ''a'', CHR ''b''}"
proof -
  define b where "b = (rand[6 := (rand ! 6 AND 0x0f) OR 0x40])[8 := (rand ! 8 AND 0x3f) OR 0x80]"
  have g: "generateUUID rand = uuid_text b" by (simp add: generateUUID_def b_def)
  have len: "length b = 16" and b6: "b ! 6 = (rand ! 6 AND 0x0f) OR 0x40" and b8: "b ! 8 = (rand ! 8 AND 0x3f) OR 0x80"
    using assms by (simp_all add: b_def)
  have v: "uuid_text b ! 14 = CHR ''4''"
    unfolding uuid_text_nth(1) [OF len] b6 version_nibble by code_simp
  have "unat (b ! 8) div 64 = 2" unfolding b8 by (rule variant_nibble)
  then have "unat (b ! 8) div 16 \<in> {8, 9, 10, 11}" by auto
  moreover have "hex_char 8 = CHR ''8''" "hex_char 9 = CHR ''9''" "hex_char 10 = CHR ''a''" "hex_char 11 = CHR ''b''"
    by code_simp+
  ultimately have w: "uuid_text b ! 19 \<in> {CHR ''8'', CHR ''9'', CHR ''a'', CHR ''b''}"
    unfolding uuid_text_nth(2) [OF len] by auto
  have "zeroUUID ! 14 = CHR ''0''" by (simp add: zeroUUID_def)
  with v have "uuid_text b \<noteq> zeroUUID" by auto
  with v w uuid_text_ok [OF len] g show ?thesis by (simp add: uuid_ok_def)
qed

lemma resolveDeviceUUID_ok:
  assumes "hw = [] \<or> uuid_ok hw" "stored = [] \<or> uuid_ok stored" "length rand = 16"
  shows "uuid_ok (resolveDeviceUUID hw rand stored)"
  using assms generateUUID_ok by (auto simp: resolveDeviceUUID_def)

section \<open>The configuration file\<close>

lemma load_saved: "agent_loadConfig (Some (config_json cfg)) = Some cfg"
proof -
  have "to_lower ''serverUrl'' \<noteq> to_lower ''apiKey''" "to_lower ''serverUrl'' \<noteq> to_lower ''deviceUuid''"
    "to_lower ''apiKey'' \<noteq> to_lower ''deviceUuid''" by code_simp+
  then show ?thesis
    by (simp add: agent_loadConfig_def config_json_def dec_string_def dec_field_def)
qed

section \<open>Properties\<close>

text \<open>
  The device UUID: on every platform, from whatever the system reports, with a stored UUID that is
  normal or missing, the agent uses a UUID in normal form (lower case, not all zero); the stored one is
  kept when the hardware reports none, and a generated one has version 4 and its variant.
\<close>

theorem device_uuid_valid:
  assumes "hw \<in> {readMachineUUID_linux f1 f2, readMachineUUID_darwin f3, readMachineUUID_windows f4 f5, []}"
    and "stored = [] \<or> uuid_ok stored" "length rand = 16"
  shows "uuid_ok (resolveDeviceUUID hw rand stored)
    \<and> normaliseUUID (resolveDeviceUUID hw rand stored) = resolveDeviceUUID hw rand stored
    \<and> (hw = [] \<and> stored \<noteq> [] \<longrightarrow> resolveDeviceUUID hw rand stored = stored)
    \<and> (hw = [] \<and> stored = [] \<longrightarrow> resolveDeviceUUID hw rand stored ! 14 = CHR ''4'')"
proof -
  have "hw = [] \<or> uuid_ok hw" using assms(1) readMachineUUID_results by blast
  from resolveDeviceUUID_ok [OF this assms(2,3)] generateUUID_ok [OF assms(3)] normaliseUUID_ok
  show ?thesis by (simp add: resolveDeviceUUID_def)
qed

lemma device_uuid_valid_witness:
  "resolveDeviceUUID (readMachineUUID_linux (Some ''0123456789ABCDEF0123456789abcdef'') None) (replicate 16 0) []
     = ''01234567-89ab-cdef-0123-456789abcdef''
   \<and> uuid_ok (resolveDeviceUUID (readMachineUUID_linux (Some ''0123456789ABCDEF0123456789abcdef'') None)
       (replicate 16 0) [])"
proof
  show "resolveDeviceUUID (readMachineUUID_linux (Some ''0123456789ABCDEF0123456789abcdef'') None) (replicate 16 0) []
     = ''01234567-89ab-cdef-0123-456789abcdef''" by code_simp
  show "uuid_ok (resolveDeviceUUID (readMachineUUID_linux (Some ''0123456789ABCDEF0123456789abcdef'') None)
       (replicate 16 0) [])"
    using device_uuid_valid [of "readMachineUUID_linux (Some ''0123456789ABCDEF0123456789abcdef'') None"
        "Some ''0123456789ABCDEF0123456789abcdef''" None None None None "[]" "replicate 16 0"] by simp
qed

text \<open>
  A restart keeps the identity: what a run saved is what the next run without arguments loads, and it
  changes nothing (with the same hardware, or with none), so the saved file is a fixed point.
\<close>

theorem restart_keeps_config:
  assumes "setupConfig file hw rand urlArg keyArg = Some (cfg, Some saved)"
  shows "setupConfig (Some saved) hw rand' [] [] = Some (cfg, Some saved)"
proof -
  have s: "saved = config_json cfg" and d: "\<exists>st. DeviceUUID cfg = resolveDeviceUUID hw rand st"
    using assms by (auto simp: setupConfig_def Let_def split: option.splits if_splits)
  have "resolveDeviceUUID hw rand st \<noteq> []" for st
    by (auto simp: resolveDeviceUUID_def generateUUID_def uuid_text_def Let_def)
  with d have ne: "DeviceUUID cfg \<noteq> []" by metis
  from d ne have "resolveDeviceUUID hw rand' (DeviceUUID cfg) = DeviceUUID cfg"
    by (auto simp: resolveDeviceUUID_def)
  with ne show ?thesis
    unfolding s setupConfig_def load_saved by (simp add: Let_def)
qed

lemma restart_keeps_config_witness:
  "setupConfig (Some (config_json \<lparr>ServerURL = ''https://h'', APIKey = ''k'', DeviceUUID = ''u''\<rparr>)) ''u'' [] [] []
     = Some (\<lparr>ServerURL = ''https://h'', APIKey = ''k'', DeviceUUID = ''u''\<rparr>,
         Some (config_json \<lparr>ServerURL = ''https://h'', APIKey = ''k'', DeviceUUID = ''u''\<rparr>))"
proof -
  have 1: "setupConfig None ''u'' [] ''https://h/'' ''k'' =
    Some (\<lparr>ServerURL = ''https://h'', APIKey = ''k'', DeviceUUID = ''u''\<rparr>,
      Some (config_json \<lparr>ServerURL = ''https://h'', APIKey = ''k'', DeviceUUID = ''u''\<rparr>))" by code_simp
  show ?thesis by (rule restart_keeps_config [OF 1])
qed

end
