(* ===== verification/Agent_Sessions.thy ===== *)
theory Agent_Sessions
  imports Agent_Config "HOL-Library.AList"
begin

text \<open>
  The logon sessions of the machine (agent/sessions_windows.go), the choice of the session to capture and
  the registry of streams (agent/stream.go: \<open>startStream\<close>, \<open>stopStream\<close>, \<open>stop\<close>;
  agent/remote_session_windows.go: \<open>startCrossSessionStream\<close>).
\<close>

section \<open>Windows sessions\<close>

record wts_session =
  wts_id :: int
  wts_state :: int
  wts_username :: string
  wts_station :: string

record SessionInfo =
  si_ID :: int
  si_Username :: string
  si_State :: string
  si_StationName :: string
  si_IsConsole :: bool

definition wtsStateName :: "int \<Rightarrow> string" where
  "wtsStateName n =
     (if n = 0 then ''Active'' else if n = 1 then ''Connected'' else if n = 2 then ''ConnectQuery''
      else if n = 3 then ''Shadow'' else if n = 4 then ''Disconnected'' else if n = 5 then ''Idle''
      else if n = 6 then ''Listen'' else ''Unknown'')"

definition shown_session :: "wts_session \<Rightarrow> bool" where
  "shown_session s \<longleftrightarrow> \<not> 6 \<le> wts_state s \<and> wts_id s \<noteq> 0 \<and> \<not> (wts_username s = [] \<and> wts_state s \<noteq> 0)"

definition session_info :: "int \<Rightarrow> wts_session \<Rightarrow> SessionInfo" where
  "session_info conID s =
     \<lparr>si_ID = wts_id s, si_Username = wts_username s, si_State = wtsStateName (wts_state s),
      si_StationName = wts_station s, si_IsConsole = (wts_id s = conID)\<rparr>"

text \<open>\<open>enumerateSessions\<close>; the list of the system, or \<open>None\<close> when it cannot be had.\<close>

definition enumerateSessions :: "wts_session list option \<Rightarrow> int \<Rightarrow> SessionInfo list" where
  "enumerateSessions wts conID =
     (case wts of None \<Rightarrow> [] | Some arr \<Rightarrow> map (session_info conID) (filter shown_session arr))"

definition no_console :: int where "no_console = 0xFFFFFFFF"

definition findCaptureSession :: "wts_session list option \<Rightarrow> int \<Rightarrow> int \<Rightarrow> int" where
  "findCaptureSession wts conID myID =
     (if conID \<noteq> no_console then conID
      else case find (\<lambda>s. si_State s = ''Active'' \<and> si_Username s \<noteq> []) (enumerateSessions wts conID) of
             Some s \<Rightarrow> si_ID s
           | None \<Rightarrow> myID)"

lemma wtsStateName_Active: "wtsStateName n = ''Active'' \<longleftrightarrow> n = 0"
  by (simp add: wtsStateName_def)

lemma enumerateSessions_member:
  "si \<in> set (enumerateSessions wts conID) \<Longrightarrow>
     \<exists>arr s. wts = Some arr \<and> s \<in> set arr \<and> shown_session s \<and> si = session_info conID s"
  by (auto simp: enumerateSessions_def split: option.splits)

section \<open>The machine\<close>

text \<open>
  What the agent asks the system: the platform, its sessions, listeners, processes and the dial of the relay
  WebSocket. A spawn gives a process id and a return code, 0 for success. The stubs of the other platforms
  are in \<open>agent_capture_session\<close>, \<open>agent_session\<close> and \<open>agent_spawn\<close>.
\<close>

record machine =
  mc_windows :: bool
  mc_sessions :: "wts_session list option"
  mc_console :: int
  mc_session :: int
  mc_listen :: "string option"
  mc_exe :: "string option"
  mc_spawn :: "int \<Rightarrow> string \<Rightarrow> nat \<times> int"
  mc_dial :: "string \<Rightarrow> bool"

definition agent_capture_session :: "machine \<Rightarrow> int" where
  "agent_capture_session m =
     (if mc_windows m then findCaptureSession (mc_sessions m) (mc_console m) (mc_session m) else 0)"

text \<open>\<open>spawnInSessionGo\<close>: a command line with a NUL byte has no UTF-16 form.\<close>

definition agent_spawn :: "machine \<Rightarrow> int \<Rightarrow> string \<Rightarrow> nat \<times> int" where
  "agent_spawn m sid cmdLine =
     (if \<not> mc_windows m then (0, - 1)
      else if CHR 0x00 \<in> set cmdLine then (0, - 1)
      else mc_spawn m sid cmdLine)"

section \<open>Streams\<close>

text \<open>A stream session: its token, the session it captures (none: direct capture), whether it was stopped.\<close>

record StreamSession =
  st_token :: string
  st_helper :: "int option"
  st_stopped :: bool

record streams =
  sg_heap :: "StreamSession list"
  sg_active :: "(string \<times> nat) list"
  sg_spawned :: "(int \<times> string) list"

definition no_streams :: streams where
  "no_streams = \<lparr>sg_heap = [], sg_active = [], sg_spawned = []\<rparr>"

definition store_stream :: "streams \<Rightarrow> string \<Rightarrow> int option \<Rightarrow> streams" where
  "store_stream s token helper =
     s\<lparr>sg_heap := sg_heap s @ [\<lparr>st_token = token, st_helper = helper, st_stopped = False\<rparr>],
       sg_active := AList.update token (length (sg_heap s)) (sg_active s)\<rparr>"

datatype stream_err = StreamListen | StreamExe | StreamUTF16 | StreamSpawn int | StreamDial

definition capture_cmdline :: "string \<Rightarrow> string \<Rightarrow> string" where
  "capture_cmdline exe addr = [CHR 0x22] @ exe @ [CHR 0x22] @ '' --capture-helper --addr='' @ addr"

definition startCrossSessionStream ::
  "machine \<Rightarrow> string \<Rightarrow> streams \<Rightarrow> string \<Rightarrow> int \<Rightarrow> streams \<times> stream_err option" where
  "startCrossSessionStream m serverURL s token sessionID =
     (case mc_listen m of
        None \<Rightarrow> (s, Some StreamListen)
      | Some addr \<Rightarrow>
         (case mc_exe m of
            None \<Rightarrow> (s, Some StreamExe)
          | Some exe \<Rightarrow>
             (let cmdLine = capture_cmdline exe addr in
              if CHR 0x00 \<in> set cmdLine then (s, Some StreamUTF16)
              else (case mc_spawn m sessionID cmdLine of (pid, rc) \<Rightarrow>
                 if rc \<noteq> 0 then (s, Some (StreamSpawn (- rc)))
                 else (let s' = s\<lparr>sg_spawned := sg_spawned s @ [(sessionID, cmdLine)]\<rparr> in
                       if \<not> mc_dial m (stream_ws_url serverURL token) then (s', Some StreamDial)
                       else (store_stream s' token (Some sessionID), None))))))"

text \<open>The session a stream is for: a helper in a session, or direct capture.\<close>

definition stream_plan :: "machine \<Rightarrow> int \<Rightarrow> int option" where
  "stream_plan m sessionID =
     (let target = (if sessionID < 0 then agent_capture_session m else sessionID) in
      if mc_windows m then
        (let mySession = mc_session m in
         if target \<noteq> mySession \<or> mySession = 0
         then Some (if target = 0 \<and> mc_console m \<noteq> no_console then mc_console m else target)
         else None)
      else None)"

definition startStream ::
  "machine \<Rightarrow> string \<Rightarrow> streams \<Rightarrow> string \<Rightarrow> int \<Rightarrow> streams \<times> stream_err option" where
  "startStream m serverURL s token sessionID =
     (case stream_plan m sessionID of
        Some target \<Rightarrow> startCrossSessionStream m serverURL s token target
      | None \<Rightarrow>
          if \<not> mc_dial m (stream_ws_url serverURL token) then (s, Some StreamDial)
          else (store_stream s token None, None))"

text \<open>\<open>stop\<close> of a session, once, and \<open>stopStream\<close>.\<close>

definition stream_stop :: "streams \<Rightarrow> nat \<Rightarrow> streams" where
  "stream_stop s a =
     (if a < length (sg_heap s) \<and> \<not> st_stopped (sg_heap s ! a)
      then s\<lparr>sg_heap := (sg_heap s)[a := (sg_heap s ! a)\<lparr>st_stopped := True\<rparr>],
             sg_active := AList.delete (st_token (sg_heap s ! a)) (sg_active s)\<rparr>
      else s)"

definition stopStream :: "streams \<Rightarrow> string \<Rightarrow> streams" where
  "stopStream s token =
     (case map_of (sg_active s) token of Some a \<Rightarrow> stream_stop s a | None \<Rightarrow> s)"

text \<open>The registry: a token names a stream that has this token and runs.\<close>

definition streams_inv :: "streams \<Rightarrow> bool" where
  "streams_inv s \<longleftrightarrow> (\<forall>t a. map_of (sg_active s) t = Some a \<longrightarrow>
     a < length (sg_heap s) \<and> st_token (sg_heap s ! a) = t \<and> \<not> st_stopped (sg_heap s ! a))"

lemma no_streams_inv: "streams_inv no_streams"
  by (simp add: streams_inv_def no_streams_def)

lemma streams_inv_spawned [simp]: "streams_inv (s\<lparr>sg_spawned := x\<rparr>) = streams_inv s"
  by (simp add: streams_inv_def)

lemma store_stream_inv:
  assumes "streams_inv s"
  shows "streams_inv (store_stream s token h)"
  unfolding streams_inv_def
proof (intro allI impI)
  fix t a assume a: "map_of (sg_active (store_stream s token h)) t = Some a"
  show "a < length (sg_heap (store_stream s token h)) \<and> st_token (sg_heap (store_stream s token h) ! a) = t
      \<and> \<not> st_stopped (sg_heap (store_stream s token h) ! a)"
  proof (cases "t = token")
    case True
    with a show ?thesis by (auto simp: store_stream_def update_conv nth_append)
  next
    case False
    with a have "map_of (sg_active s) t = Some a" by (simp add: store_stream_def update_conv)
    with assms show ?thesis by (fastforce simp: streams_inv_def store_stream_def nth_append)
  qed
qed

lemma stream_stop_inv:
  assumes inv: "streams_inv s"
  shows "streams_inv (stream_stop s a)"
  unfolding streams_inv_def
proof (intro allI impI)
  fix t b assume b: "map_of (sg_active (stream_stop s a)) t = Some b"
  then have "map_of (sg_active s) t = Some b \<and> (a = b \<longrightarrow> stream_stop s a = s)"
    using inv by (auto simp: stream_stop_def delete_conv' streams_inv_def split: if_splits)
  with inv show "b < length (sg_heap (stream_stop s a)) \<and> st_token (sg_heap (stream_stop s a) ! b) = t
      \<and> \<not> st_stopped (sg_heap (stream_stop s a) ! b)"
    by (cases "a = b") (auto simp: streams_inv_def stream_stop_def nth_update_if)
qed

lemma startStream_inv: "streams_inv s \<Longrightarrow> streams_inv (fst (startStream m u s token sid))"
  by (auto simp: startStream_def startCrossSessionStream_def Let_def store_stream_inv
      split: option.splits prod.splits)

lemma stopStream_inv: "streams_inv s \<Longrightarrow> streams_inv (stopStream s token)"
  by (auto simp: stopStream_def stream_stop_inv split: option.splits)

lemma stopStream_stops:
  assumes "streams_inv s" "map_of (sg_active s) token = Some a"
  shows "st_stopped (sg_heap (stopStream s token) ! a) \<and> map_of (sg_active (stopStream s token)) token = None
    \<and> (\<forall>b. b \<noteq> a \<longrightarrow> sg_heap (stopStream s token) ! b = sg_heap s ! b)"
  using assms by (auto simp: stopStream_def stream_stop_def streams_inv_def delete_conv')

section \<open>Commands on the registry\<close>

datatype stream_cmd = OpenStream string int | CloseStream string

definition stream_do :: "machine \<Rightarrow> string \<Rightarrow> streams \<Rightarrow> stream_cmd \<Rightarrow> streams" where
  "stream_do m u s c =
     (case c of OpenStream token sid \<Rightarrow> fst (startStream m u s token sid)
      | CloseStream token \<Rightarrow> stopStream s token)"

text \<open>A stream without a name in the registry: no command can reach it any more.\<close>

definition orphan :: "streams \<Rightarrow> nat \<Rightarrow> bool" where
  "orphan s a \<longleftrightarrow> a < length (sg_heap s) \<and> \<not> st_stopped (sg_heap s ! a)
     \<and> (\<forall>t. map_of (sg_active s) t \<noteq> Some a)"

lemma orphan_store: "orphan s a \<Longrightarrow> orphan (store_stream s token h) a"
  by (auto simp: orphan_def store_stream_def update_conv nth_append)

lemma orphan_spawned [simp]: "orphan (s\<lparr>sg_spawned := x\<rparr>) a = orphan s a"
  by (simp add: orphan_def)

lemma orphan_stopStream: "orphan s a \<Longrightarrow> orphan (stopStream s token) a"
  by (auto simp: orphan_def stopStream_def stream_stop_def nth_update_if delete_conv' split: option.splits)

lemma orphan_stream_do: "orphan s a \<Longrightarrow> orphan (stream_do m u s c) a"
  by (auto simp: stream_do_def startStream_def startCrossSessionStream_def Let_def orphan_store
      orphan_stopStream split: stream_cmd.splits option.splits prod.splits)

lemma orphan_run: "orphan s a \<Longrightarrow> orphan (foldl (stream_do m u) s cs) a"
  by (induction cs arbitrary: s) (auto simp: orphan_stream_do)

lemma startStream_ok:
  assumes "startStream m u s token sid = (s', None)"
  shows "\<exists>h s0. s' = store_stream s0 token h \<and> sg_heap s0 = sg_heap s \<and> sg_active s0 = sg_active s"
  using assms
  by (fastforce simp: startStream_def startCrossSessionStream_def Let_def
      split: option.splits prod.splits if_splits)

lemma store_stream_orphans:
  assumes inv: "streams_inv s" and a: "map_of (sg_active s) token = Some a"
  shows "orphan (store_stream s token h) a"
proof -
  have "a < length (sg_heap s)" "\<not> st_stopped (sg_heap s ! a)" "st_token (sg_heap s ! a) = token"
    using assms by (auto simp: streams_inv_def)
  moreover have "map_of (sg_active s) t = Some a \<Longrightarrow> t = token" for t
    using inv \<open>st_token (sg_heap s ! a) = token\<close> by (auto simp: streams_inv_def)
  ultimately show ?thesis by (auto simp: orphan_def store_stream_def update_conv nth_append)
qed

section \<open>Properties\<close>

text \<open>
  The sessions shown to the operator are those of the system, in its order, without session 0, without the
  listening and dying ones, and without the anonymous ones that are not active; the session chosen for capture
  is the console when there is one, else a shown active session with a user, else the agent's own.
\<close>

theorem sessions_shown:
  "map si_ID (enumerateSessions (Some arr) conID) = map wts_id (filter shown_session arr)
   \<and> (\<forall>si\<in>set (enumerateSessions wts conID). si_ID si \<noteq> 0 \<and> si_State si \<noteq> ''Listen'' \<and> (si_Username si = [] \<longrightarrow> si_State si = ''Active''))
   \<and> (conID \<noteq> no_console \<longrightarrow> findCaptureSession wts conID my = conID)
   \<and> (conID = no_console \<longrightarrow>
        (\<exists>si\<in>set (enumerateSessions wts conID). si_State si = ''Active'' \<and> si_Username si \<noteq> [] \<and> findCaptureSession wts conID my = si_ID si)
        \<or> ((\<forall>si\<in>set (enumerateSessions wts conID). si_State si = ''Active'' \<longrightarrow> si_Username si = []) \<and> findCaptureSession wts conID my = my))"
proof (intro conjI ballI impI)
  show "map si_ID (enumerateSessions (Some arr) conID) = map wts_id (filter shown_session arr)"
    by (simp add: enumerateSessions_def session_info_def)
  show "findCaptureSession wts conID my = conID" if "conID \<noteq> no_console"
    using that by (simp add: findCaptureSession_def)
  show "(\<exists>si\<in>set (enumerateSessions wts conID). si_State si = ''Active'' \<and> si_Username si \<noteq> [] \<and> findCaptureSession wts conID my = si_ID si)
      \<or> ((\<forall>si\<in>set (enumerateSessions wts conID). si_State si = ''Active'' \<longrightarrow> si_Username si = []) \<and> findCaptureSession wts conID my = my)"
    if "conID = no_console"
  proof (cases "find (\<lambda>s. si_State s = ''Active'' \<and> si_Username s \<noteq> []) (enumerateSessions wts conID)")
    case None
    then have "findCaptureSession wts conID my = my" using that by (simp add: findCaptureSession_def)
    moreover have "\<forall>si\<in>set (enumerateSessions wts conID). si_State si = ''Active'' \<longrightarrow> si_Username si = []"
      using None unfolding find_None_iff by blast
    ultimately show ?thesis by blast
  next
    case (Some si)
    then have "findCaptureSession wts conID my = si_ID si" using that by (simp add: findCaptureSession_def)
    moreover have "si \<in> set (enumerateSessions wts conID) \<and> si_State si = ''Active'' \<and> si_Username si \<noteq> []"
      using Some unfolding find_Some_iff by (metis nth_mem)
    ultimately show ?thesis by blast
  qed
next
  fix si assume "si \<in> set (enumerateSessions wts conID)"
  then obtain s where s: "shown_session s" "si = session_info conID s" using enumerateSessions_member by blast
  then show "si_ID si \<noteq> 0" by (simp add: shown_session_def session_info_def)
  show "si_State si \<noteq> ''Listen''"
    using s by (simp add: shown_session_def session_info_def wtsStateName_def)
  show "si_State si = ''Active''" if "si_Username si = []"
    using s that by (simp add: shown_session_def session_info_def wtsStateName_def)
qed

definition demo_wts :: "wts_session list" where
  "demo_wts = [\<lparr>wts_id = 0, wts_state = 4, wts_username = [], wts_station = ''Services''\<rparr>,
     \<lparr>wts_id = 1, wts_state = 1, wts_username = [], wts_station = ''Console''\<rparr>,
     \<lparr>wts_id = 2, wts_state = 0, wts_username = ''ann'', wts_station = ''RDP-Tcp#1''\<rparr>]"

lemma sessions_shown_witness:
  "map si_ID (enumerateSessions (Some demo_wts) no_console) = [2]
   \<and> (no_console = no_console \<and> findCaptureSession (Some demo_wts) no_console 0 = 2)"
proof -
  have "map si_ID (enumerateSessions (Some demo_wts) no_console) = map wts_id (filter shown_session demo_wts)"
    using sessions_shown [of demo_wts no_console "Some demo_wts" 0] by blast
  moreover have "map wts_id (filter shown_session demo_wts) = [2]" by code_simp
  moreover have "findCaptureSession (Some demo_wts) no_console 0 = 2" by code_simp
  ultimately show ?thesis by simp
qed

text \<open>
  The service never captures its own session: an agent in session 0 on Windows always starts a helper, and
  the helper is in session 0 only when the machine has no console session (or session 0 is the console).
\<close>

theorem service_uses_helper:
  assumes "mc_windows m" "mc_session m = 0"
  shows "\<exists>target. stream_plan m sid = Some target \<and> startStream m u s token sid = startCrossSessionStream m u s token target
    \<and> (target = 0 \<longrightarrow> mc_console m = no_console \<or> mc_console m = 0)
    \<and> (0 < sid \<longrightarrow> target = sid)"
  using assms by (auto simp: stream_plan_def startStream_def Let_def)

definition demo_machine :: machine where
  "demo_machine = \<lparr>mc_windows = True, mc_sessions = Some demo_wts, mc_console = 1, mc_session = 0,
     mc_listen = Some ''127.0.0.1:5000'', mc_exe = Some ''a.exe'', mc_spawn = (\<lambda>_ _. (77, 0)), mc_dial = (\<lambda>_. True)\<rparr>"

lemma service_uses_helper_witness: "stream_plan demo_machine 0 = Some 1"
proof -
  have 1: "mc_windows demo_machine" "mc_session demo_machine = 0" by (simp_all add: demo_machine_def)
  obtain target where "stream_plan demo_machine 0 = Some target"
    using service_uses_helper [OF 1, of 0 "''u''" no_streams "''t''"] by blast
  moreover have "stream_plan demo_machine 0 = Some 1" by code_simp
  ultimately show ?thesis by simp
qed

text \<open>
  A second open with the token of a running stream loses the first: it goes on, unstopped, and no sequence of
  open and close commands can ever stop it.
\<close>

theorem second_open_orphans_stream:
  assumes inv: "streams_inv s" and running: "map_of (sg_active s) token = Some a"
    and again: "startStream m u s token sid = (s', None)"
  shows "\<not> st_stopped (sg_heap (foldl (stream_do m' u') s' cmds) ! a)"
proof -
  obtain h s0 where s': "s' = store_stream s0 token h" "sg_heap s0 = sg_heap s" "sg_active s0 = sg_active s"
    using startStream_ok [OF again] by blast
  have "streams_inv s0" using inv s'(2,3) by (simp add: streams_inv_def)
  moreover have "map_of (sg_active s0) token = Some a" using running s'(3) by simp
  ultimately have "orphan s' a" unfolding s'(1) by (rule store_stream_orphans)
  from orphan_run [OF this, of m' u' cmds] show ?thesis by (simp add: orphan_def)
qed

definition demo_streams :: streams where
  "demo_streams = fst (startStream demo_machine ''https://h'' no_streams ''tok'' 2)"

lemma second_open_orphans_stream_witness:
  "\<not> st_stopped (sg_heap (foldl (stream_do demo_machine ''https://h'')
      (fst (startStream demo_machine ''https://h'' demo_streams ''tok'' 2)) [CloseStream ''tok'', CloseStream ''tok'']) ! 0)"
proof -
  have 1: "streams_inv demo_streams"
    unfolding demo_streams_def by (rule startStream_inv [OF no_streams_inv])
  have 2: "map_of (sg_active demo_streams) ''tok'' = Some 0" by code_simp
  have "snd (startStream demo_machine ''https://h'' demo_streams ''tok'' 2) = None" by code_simp
  then have 3: "startStream demo_machine ''https://h'' demo_streams ''tok'' 2 =
      (fst (startStream demo_machine ''https://h'' demo_streams ''tok'' 2), None)"
    by (cases "startStream demo_machine ''https://h'' demo_streams ''tok'' 2") auto
  show ?thesis by (rule second_open_orphans_stream [OF 1 2 3])
qed

text \<open>
  Closing a registered stream stops it and nothing else, and its token is free again; the registry stays
  consistent under every command.
\<close>

theorem stop_stream_exact:
  assumes "streams_inv s" "map_of (sg_active s) token = Some a"
  shows "st_stopped (sg_heap (stopStream s token) ! a) \<and> map_of (sg_active (stopStream s token)) token = None
    \<and> (\<forall>b. b \<noteq> a \<longrightarrow> sg_heap (stopStream s token) ! b = sg_heap s ! b)
    \<and> streams_inv (foldl (stream_do m u) s cmds)"
proof -
  have "streams_inv (foldl (stream_do m u) r cmds)" if "streams_inv r" for r
    using that by (induction cmds arbitrary: r)
      (auto simp: stream_do_def startStream_inv stopStream_inv split: stream_cmd.splits)
  with stopStream_stops [OF assms] assms(1) show ?thesis by blast
qed

lemma stop_stream_exact_witness:
  "st_stopped (sg_heap (stopStream demo_streams ''tok'') ! 0)"
proof -
  have 1: "streams_inv demo_streams"
    unfolding demo_streams_def by (rule startStream_inv [OF no_streams_inv])
  have 2: "map_of (sg_active demo_streams) ''tok'' = Some 0" by code_simp
  from stop_stream_exact [OF 1 2, of demo_machine "[]" "[]"] show ?thesis by blast
qed

end
