(* ===== verification/Chat.thy ===== *)
theory Chat
  imports Agent_Sessions Pipe
begin

text \<open>
  The chat relay of the agent (agent/chat.go): the sessions and their registry, the helper processes, the
  messages to and from them. A session has a goroutine of its own that accepts the helper and relays what it
  sends; its program counter is part of the session, and every call and every step of a goroutine is one
  atomic step. Messages are JSON values; the framing of the pipe is that of the theory \<open>Pipe\<close>.
\<close>

section \<open>State\<close>

text \<open>
  The end of the pipe held by the agent: closed by the agent, dead at the other end, and what was written.
\<close>

record chat_conn =
  cc_closed :: bool
  cc_dead :: bool
  cc_sent :: "(chat_pipe_type \<times> json option) list"

datatype chat_pc = Accepting | Checking | Reading | Ended

record ChatSession =
  cs_chatID :: string
  cs_operatorName :: string
  cs_operatorAvatar :: string
  cs_sessionID :: int
  cs_conn :: "nat option"
  cs_stopped :: bool
  cs_pc :: chat_pc

record chatSpawnParams =
  sp_operatorName :: string
  sp_operatorAvatar :: string
  sp_sessionID :: int

text \<open>
  A goroutine of \<open>forwardChatMessage\<close>: about to start the helper again, or asleep before it sends the message.
\<close>

datatype chat_task =
    Respawn string string string int json
  | SendAfter string json

record chats =
  ch_heap :: "ChatSession list"
  ch_conns :: "chat_conn list"
  ch_active :: "(string \<times> nat) list"
  ch_last :: "(string \<times> chatSpawnParams) list"
  ch_spawned :: "(int \<times> string) list"
  ch_tasks :: "chat_task list"
  ch_up :: "json list"

definition no_chats :: chats where
  "no_chats = \<lparr>ch_heap = [], ch_conns = [], ch_active = [], ch_last = [], ch_spawned = [], ch_tasks = [], ch_up = []\<rparr>"

section \<open>Operations\<close>

definition set_chat :: "chats \<Rightarrow> nat \<Rightarrow> ChatSession \<Rightarrow> chats" where
  "set_chat s a cs = s\<lparr>ch_heap := (ch_heap s)[a := cs]\<rparr>"

definition set_conn :: "chats \<Rightarrow> nat \<Rightarrow> chat_conn \<Rightarrow> chats" where
  "set_conn s c cn = s\<lparr>ch_conns := (ch_conns s)[c := cn]\<rparr>"

text \<open>A write to the pipe: an error when either end is gone.\<close>

definition chat_write :: "chats \<Rightarrow> nat \<Rightarrow> chat_pipe_type \<Rightarrow> json option \<Rightarrow> chats \<times> bool" where
  "chat_write s c ty msg =
     (let cn = ch_conns s ! c in
      if cc_closed cn \<or> cc_dead cn then (s, False)
      else (set_conn s c (cn\<lparr>cc_sent := cc_sent cn @ [(ty, msg)]\<rparr>), True))"

definition close_conn :: "chats \<Rightarrow> nat \<Rightarrow> chats" where
  "close_conn s c = set_conn s c ((ch_conns s ! c)\<lparr>cc_closed := True\<rparr>)"

text \<open>\<open>stop\<close>: once, it closes the stop channel and the pipe and deletes the chat's id from the registry.\<close>

definition chat_stop :: "chats \<Rightarrow> nat \<Rightarrow> chats" where
  "chat_stop s a =
     (let cs = ch_heap s ! a in
      if cs_stopped cs then s
      else (let s1 = set_chat s a (cs\<lparr>cs_stopped := True\<rparr>);
                s2 = (case cs_conn cs of Some c \<Rightarrow> close_conn s1 c | None \<Rightarrow> s1)
            in s2\<lparr>ch_active := AList.delete (cs_chatID cs) (ch_active s2)\<rparr>))"

datatype chat_err = ChatListen | ChatExe | ChatSpawn int

definition chat_cmdline :: "string \<Rightarrow> string \<Rightarrow> string \<Rightarrow> string \<Rightarrow> string" where
  "chat_cmdline exe addr chatID operator =
     (let q = [CHR 0x22] in
      q @ exe @ q @ '' --chat-helper --addr='' @ addr @ '' --chat-id='' @ chatID @ '' --operator='' @ q @ operator @ q)"

definition startChat ::
  "machine \<Rightarrow> chats \<Rightarrow> string \<Rightarrow> string \<Rightarrow> string \<Rightarrow> int \<Rightarrow> chats \<times> chat_err option" where
  "startChat m s chatID operatorName operatorAvatar sessionID0 =
     (let sessionID = (if sessionID0 < 0 then agent_capture_session m else sessionID0) in
      case mc_listen m of
        None \<Rightarrow> (s, Some ChatListen)
      | Some addr \<Rightarrow>
         (case mc_exe m of
            None \<Rightarrow> (s, Some ChatExe)
          | Some exe \<Rightarrow>
             (let cmdLine = chat_cmdline exe addr chatID operatorName in
              case agent_spawn m sessionID cmdLine of (pid, rc) \<Rightarrow>
                if rc \<noteq> 0 then (s, Some (ChatSpawn rc))
                else (let cs = \<lparr>cs_chatID = chatID, cs_operatorName = operatorName,
                                cs_operatorAvatar = operatorAvatar, cs_sessionID = sessionID,
                                cs_conn = None, cs_stopped = False, cs_pc = Accepting\<rparr>;
                          sp = \<lparr>sp_operatorName = operatorName, sp_operatorAvatar = operatorAvatar,
                                sp_sessionID = sessionID\<rparr>
                      in (s\<lparr>ch_heap := ch_heap s @ [cs],
                            ch_active := AList.update chatID (length (ch_heap s)) (ch_active s),
                            ch_last := AList.update chatID sp (ch_last s),
                            ch_spawned := ch_spawned s @ [(sessionID, cmdLine)]\<rparr>, None)))))"

text \<open>\<open>stopChat\<close>: a stop message to the helper, then \<open>stop\<close>.\<close>

definition stopChat :: "chats \<Rightarrow> string \<Rightarrow> chats" where
  "stopChat s chatID =
     (case map_of (ch_active s) chatID of
        None \<Rightarrow> s
      | Some a \<Rightarrow>
          chat_stop (case cs_conn (ch_heap s ! a) of
                       Some c \<Rightarrow> fst (chat_write s c ChatStop None)
                     | None \<Rightarrow> s) a)"

definition operator_message :: "string \<Rightarrow> string \<Rightarrow> int \<Rightarrow> json" where
  "operator_message operatorName message timestamp =
     JObj [(''action'', JStr ''operator_message''), (''operatorName'', JStr operatorName),
           (''text'', JStr message), (''timestamp'', JInt timestamp)]"

text \<open>
  \<open>forwardChatMessage\<close>: written to the pipe of the active chat; when that fails, and when no chat is active,
  a goroutine is started that spawns the helper again with the saved parameters.
\<close>

definition respawn_task :: "chats \<Rightarrow> string \<Rightarrow> string \<Rightarrow> json \<Rightarrow> chat_task" where
  "respawn_task s chatID operatorName msg =
     (case map_of (ch_last s) chatID of
        Some sp \<Rightarrow> Respawn chatID (if operatorName = [] then sp_operatorName sp else operatorName)
                     (sp_operatorAvatar sp) (sp_sessionID sp) msg
      | None \<Rightarrow> Respawn chatID operatorName [] (- 1) msg)"

definition forwardChatMessage :: "chats \<Rightarrow> string \<Rightarrow> string \<Rightarrow> string \<Rightarrow> int \<Rightarrow> chats" where
  "forwardChatMessage s chatID operatorName message timestamp =
     (let msg = operator_message operatorName message timestamp;
          spawn = (\<lambda>s. s\<lparr>ch_tasks := ch_tasks s @ [respawn_task s chatID operatorName msg]\<rparr>)
      in case map_of (ch_active s) chatID of
           None \<Rightarrow> spawn s
         | Some a \<Rightarrow>
             (case cs_conn (ch_heap s ! a) of
                None \<Rightarrow> spawn (chat_stop s a)
              | Some c \<Rightarrow>
                  (case chat_write s c ChatMsg (Some msg) of
                     (s', True) \<Rightarrow> s'
                   | (s', False) \<Rightarrow> spawn (chat_stop s' a))))"

text \<open>The other messages need an active chat with a helper, and their errors are ignored.\<close>

definition chat_forward :: "chats \<Rightarrow> string \<Rightarrow> json \<Rightarrow> chats" where
  "chat_forward s chatID msg =
     (case map_of (ch_active s) chatID of
        None \<Rightarrow> s
      | Some a \<Rightarrow>
          (case cs_conn (ch_heap s ! a) of
             None \<Rightarrow> s
           | Some c \<Rightarrow> fst (chat_write s c ChatMsg (Some msg))))"

definition forwardChatTyping :: "chats \<Rightarrow> string \<Rightarrow> chats" where
  "forwardChatTyping s chatID = chat_forward s chatID (JObj [(''action'', JStr ''operator_typing'')])"

definition any_field :: "(string \<times> json) list \<Rightarrow> string \<Rightarrow> json" where
  "any_field payload k = (case map_get k payload of Some j \<Rightarrow> j | None \<Rightarrow> JNull)"

definition forwardChatFile :: "chats \<Rightarrow> string \<Rightarrow> (string \<times> json) list \<Rightarrow> chats" where
  "forwardChatFile s chatID payload =
     chat_forward s chatID (JObj [(''action'', JStr ''file_transfer''),
       (''fileData'', any_field payload ''fileData''), (''fileName'', any_field payload ''fileName''),
       (''fileSize'', any_field payload ''fileSize'')])"

definition forwardRemoteRequest :: "chats \<Rightarrow> string \<Rightarrow> string \<Rightarrow> chats" where
  "forwardRemoteRequest s chatID message =
     chat_forward s chatID (JObj [(''action'', JStr ''request_remote''), (''message'', JStr message)])"

section \<open>The goroutine of a session\<close>

text \<open>
  The helper connects, or the deadline passes; then the loop of \<open>relayFromHelper\<close> alternates between the check
  of the stop channel and a read of the pipe. \<open>cmdWSSend\<close> fails silently when there is no command WebSocket.
\<close>

definition chat_send_up :: "chats \<Rightarrow> bool \<Rightarrow> json \<Rightarrow> chats" where
  "chat_send_up s connected msg = (if connected then s\<lparr>ch_up := ch_up s @ [msg]\<rparr> else s)"

definition chat_accept :: "chats \<Rightarrow> nat \<Rightarrow> bool \<Rightarrow> chats" where
  "chat_accept s a ok =
     (if \<not> ok then (let s' = chat_stop s a in set_chat s' a ((ch_heap s' ! a)\<lparr>cs_pc := Ended\<rparr>))
      else (let c = length (ch_conns s);
                s1 = s\<lparr>ch_conns := ch_conns s @ [\<lparr>cc_closed = False, cc_dead = False, cc_sent = []\<rparr>]\<rparr>;
                cs = ch_heap s ! a;
                s2 = set_chat s1 a (cs\<lparr>cs_conn := Some c, cs_pc := Checking\<rparr>);
                init = JObj [(''operatorAvatar'', JStr (cs_operatorAvatar cs)),
                             (''operatorName'', JStr (cs_operatorName cs))]
            in fst (chat_write s2 c ChatInit (Some init))))"

text \<open>The check of the stop channel; the deferred \<open>stop\<close> on the way out does nothing any more.\<close>

definition chat_check :: "chats \<Rightarrow> nat \<Rightarrow> chats" where
  "chat_check s a =
     (let cs = ch_heap s ! a in
      if cs_stopped cs then set_chat s a (cs\<lparr>cs_pc := Ended\<rparr>) else set_chat s a (cs\<lparr>cs_pc := Reading\<rparr>))"

text \<open>What a read returns: the deadline, an error, or a message with its parsed payload.\<close>

datatype chat_read = ReadTimeout | ReadFailed | ReadMsg chat_pipe_type "json option"

definition user_closed :: "string \<Rightarrow> json" where
  "user_closed chatID = JObj [(''chatId'', JStr chatID),
     (''payload'', JObj [(''action'', JStr ''user_closed'')]), (''type'', JStr ''chat_event'')]"

definition up_message :: "string \<Rightarrow> int \<Rightarrow> chat_pipe_type \<Rightarrow> json \<Rightarrow> json option" where
  "up_message chatID now ty j =
     (case dec_struct j of
        None \<Rightarrow> None
      | Some kvs \<Rightarrow>
          if ty = ChatEvent then
            Some (JObj [(''chatId'', JStr chatID), (''payload'', if j = JNull then JNull else go_map kvs),
                        (''type'', JStr ''chat_event'')])
          else if ty = ChatMsg then
            Some (JObj [(''chatId'', JStr chatID),
                   (''payload'', JObj [(''from'', any_field kvs ''from''), (''text'', any_field kvs ''text''),
                      (''timestamp'', JInt now)]),
                   (''type'', JStr ''chat_message'')])
          else None)"

text \<open>An unmarshal into a map succeeds on an object, and on \<open>null\<close> with the map nil.\<close>

definition chat_read_step :: "chats \<Rightarrow> nat \<Rightarrow> bool \<Rightarrow> int \<Rightarrow> chat_read \<Rightarrow> chats" where
  "chat_read_step s a connected now r =
     (let cs = ch_heap s ! a;
          again = (\<lambda>s. set_chat s a (cs\<lparr>cs_pc := Checking\<rparr>))
      in case r of
           ReadTimeout \<Rightarrow> again s
         | ReadFailed \<Rightarrow>
             (let s1 = chat_stop (chat_send_up s connected (user_closed (cs_chatID cs))) a
              in set_chat s1 a ((ch_heap s1 ! a)\<lparr>cs_pc := Ended\<rparr>))
         | ReadMsg ty payload \<Rightarrow>
             (case Option.bind payload (up_message (cs_chatID cs) now ty) of
                None \<Rightarrow> again s
              | Some msg \<Rightarrow> again (chat_send_up s connected msg)))"

text \<open>The goroutine of \<open>forwardChatMessage\<close>, before and after its sleep.\<close>

definition chat_task_step :: "machine \<Rightarrow> chats \<Rightarrow> chat_task \<Rightarrow> chats" where
  "chat_task_step m s t =
     (case t of
        Respawn chatID name avatar sid msg \<Rightarrow>
          (case startChat m s chatID name avatar sid of
             (s', Some e) \<Rightarrow> s'
           | (s', None) \<Rightarrow> s'\<lparr>ch_tasks := ch_tasks s' @ [SendAfter chatID msg]\<rparr>)
      | SendAfter chatID msg \<Rightarrow> chat_forward s chatID msg)"

section \<open>Steps\<close>

text \<open>
  The step relation as a function of the event: calls of the command handler, moves of the sessions'
  goroutines, moves of the waiting tasks, and the end of a helper. A read on a pipe that the agent
  has closed can only fail; what a dead helper wrote before its end may still be read.
\<close>

datatype chat_event =
    COpen string string string int
  | CClose string
  | CMessage string string string int
  | CForward string json
  | CAccept nat bool
  | CCheck nat
  | CRead nat bool int chat_read
  | CTask nat
  | CHelperDies nat

definition chat_at :: "chats \<Rightarrow> nat \<Rightarrow> chat_pc \<Rightarrow> bool" where
  "chat_at s a pc \<longleftrightarrow> a < length (ch_heap s) \<and> cs_pc (ch_heap s ! a) = pc"

definition conn_gone :: "chats \<Rightarrow> nat \<Rightarrow> bool" where
  "conn_gone s a = (case cs_conn (ch_heap s ! a) of None \<Rightarrow> True | Some c \<Rightarrow> cc_closed (ch_conns s ! c))"

fun chat_step :: "machine \<Rightarrow> chats \<Rightarrow> chat_event \<Rightarrow> chats option" where
  "chat_step m s (COpen chatID name avatar sid) = Some (fst (startChat m s chatID name avatar sid))"
| "chat_step m s (CClose chatID) = Some (stopChat s chatID)"
| "chat_step m s (CMessage chatID name text ts) = Some (forwardChatMessage s chatID name text ts)"
| "chat_step m s (CForward chatID msg) = Some (chat_forward s chatID msg)"
| "chat_step m s (CAccept a ok) = (if chat_at s a Accepting then Some (chat_accept s a ok) else None)"
| "chat_step m s (CCheck a) = (if chat_at s a Checking then Some (chat_check s a) else None)"
| "chat_step m s (CRead a connected now r) =
     (if chat_at s a Reading \<and> (conn_gone s a \<longrightarrow> r = ReadFailed)
      then Some (chat_read_step s a connected now r) else None)"
| "chat_step m s (CTask k) =
     (if k < length (ch_tasks s)
      then Some (chat_task_step m (s\<lparr>ch_tasks := take k (ch_tasks s) @ drop (Suc k) (ch_tasks s)\<rparr>) (ch_tasks s ! k))
      else None)"
| "chat_step m s (CHelperDies c) =
     (if c < length (ch_conns s) then Some (set_conn s c ((ch_conns s ! c)\<lparr>cc_dead := True\<rparr>)) else None)"

fun chat_run :: "machine \<Rightarrow> chats \<Rightarrow> chat_event list \<Rightarrow> chats option" where
  "chat_run m s [] = Some s"
| "chat_run m s (e # es) = (case chat_step m s e of None \<Rightarrow> None | Some s' \<Rightarrow> chat_run m s' es)"

inductive chat_reach :: "machine \<Rightarrow> chats \<Rightarrow> bool" for m where
  chat_init: "chat_reach m no_chats"
| chat_next: "chat_reach m s \<Longrightarrow> chat_step m s e = Some s' \<Longrightarrow> chat_reach m s'"

lemma chat_run_reach: "chat_reach m s \<Longrightarrow> chat_run m s es = Some s' \<Longrightarrow> chat_reach m s'"
  by (induction es arbitrary: s) (auto split: option.splits intro: chat_next)

section \<open>Invariants\<close>

definition chats_inv :: "chats \<Rightarrow> bool" where
  "chats_inv s \<longleftrightarrow>
     (\<forall>t a. map_of (ch_active s) t = Some a \<longrightarrow>
        a < length (ch_heap s) \<and> cs_chatID (ch_heap s ! a) = t \<and> \<not> cs_stopped (ch_heap s ! a)) \<and>
     (\<forall>a < length (ch_heap s). \<forall>c. cs_conn (ch_heap s ! a) = Some c \<longrightarrow>
        c < length (ch_conns s) \<and> cs_pc (ch_heap s ! a) \<noteq> Accepting) \<and>
     (\<forall>a < length (ch_heap s). \<forall>b < length (ch_heap s). \<forall>c.
        cs_conn (ch_heap s ! a) = Some c \<longrightarrow> cs_conn (ch_heap s ! b) = Some c \<longrightarrow> a = b)"

lemma chats_activeD:
  "chats_inv s \<Longrightarrow> map_of (ch_active s) t = Some a \<Longrightarrow>
     a < length (ch_heap s) \<and> cs_chatID (ch_heap s ! a) = t \<and> \<not> cs_stopped (ch_heap s ! a)"
  unfolding chats_inv_def by blast

lemma chats_connD:
  "chats_inv s \<Longrightarrow> a < length (ch_heap s) \<Longrightarrow> cs_conn (ch_heap s ! a) = Some c \<Longrightarrow>
     c < length (ch_conns s) \<and> cs_pc (ch_heap s ! a) \<noteq> Accepting"
  unfolding chats_inv_def by blast

lemma chats_conn_inj:
  "chats_inv s \<Longrightarrow> a < length (ch_heap s) \<Longrightarrow> b < length (ch_heap s) \<Longrightarrow>
     cs_conn (ch_heap s ! a) = Some c \<Longrightarrow> cs_conn (ch_heap s ! b) = Some c \<Longrightarrow> a = b"
  unfolding chats_inv_def by blast

lemma chats_invI:
  assumes "\<And>t a. map_of (ch_active s) t = Some a \<Longrightarrow>
        a < length (ch_heap s) \<and> cs_chatID (ch_heap s ! a) = t \<and> \<not> cs_stopped (ch_heap s ! a)"
    and "\<And>a c. a < length (ch_heap s) \<Longrightarrow> cs_conn (ch_heap s ! a) = Some c \<Longrightarrow>
        c < length (ch_conns s) \<and> cs_pc (ch_heap s ! a) \<noteq> Accepting"
    and "\<And>a b c. a < length (ch_heap s) \<Longrightarrow> b < length (ch_heap s) \<Longrightarrow>
        cs_conn (ch_heap s ! a) = Some c \<Longrightarrow> cs_conn (ch_heap s ! b) = Some c \<Longrightarrow> a = b"
  shows "chats_inv s"
  unfolding chats_inv_def using assms by blast

text \<open>Changes that keep the heap, the registry and the number of pipes keep the invariant.\<close>

lemma chats_inv_same:
  assumes "chats_inv s" "ch_heap s' = ch_heap s" "ch_active s' = ch_active s"
    "length (ch_conns s') = length (ch_conns s)"
  shows "chats_inv s'"
  using assms(1) unfolding chats_inv_def assms(2-4) .

lemma chat_write_same:
  "ch_heap (fst (chat_write s c ty m)) = ch_heap s" "ch_active (fst (chat_write s c ty m)) = ch_active s"
  "length (ch_conns (fst (chat_write s c ty m))) = length (ch_conns s)"
  "ch_last (fst (chat_write s c ty m)) = ch_last s" "ch_tasks (fst (chat_write s c ty m)) = ch_tasks s"
  by (simp_all add: chat_write_def set_conn_def Let_def)

lemma chat_write_inv: "chats_inv s \<Longrightarrow> chats_inv (fst (chat_write s c ty m))"
  by (erule chats_inv_same) (simp_all add: chat_write_same)

text \<open>A session that keeps its pipe and does not go back to \<open>Accepting\<close>.\<close>

lemma set_chat_inv:
  assumes inv: "chats_inv s" and a: "a < length (ch_heap s)"
    and same: "cs_conn cs = cs_conn (ch_heap s ! a)" "cs_chatID cs = cs_chatID (ch_heap s ! a)"
      "cs_pc cs \<noteq> Accepting"
    and stop: "cs_stopped cs = cs_stopped (ch_heap s ! a) \<or> map_of (ch_active s) (cs_chatID (ch_heap s ! a)) \<noteq> Some a"
  shows "chats_inv (set_chat s a cs)"
proof (rule chats_invI)
  let ?s = "set_chat s a cs"
  have nth: "ch_heap ?s ! b = (if b = a then cs else ch_heap s ! b)" for b
    using a by (simp add: set_chat_def)
  have len: "length (ch_heap ?s) = length (ch_heap s)" and conns: "ch_conns ?s = ch_conns s"
    and act: "ch_active ?s = ch_active s" by (simp_all add: set_chat_def)
  show "b < length (ch_heap ?s) \<and> cs_chatID (ch_heap ?s ! b) = t \<and> \<not> cs_stopped (ch_heap ?s ! b)"
    if "map_of (ch_active ?s) t = Some b" for t b
    using chats_activeD [OF inv, of t b] that nth [of b] same stop unfolding len act by auto
  show "c < length (ch_conns ?s) \<and> cs_pc (ch_heap ?s ! b) \<noteq> Accepting"
    if "b < length (ch_heap ?s)" "cs_conn (ch_heap ?s ! b) = Some c" for b c
    using chats_connD [OF inv, of b c] that nth [of b] same unfolding len conns by (auto split: if_splits)
  show "b = d" if "b < length (ch_heap ?s)" "d < length (ch_heap ?s)"
    "cs_conn (ch_heap ?s ! b) = Some c" "cs_conn (ch_heap ?s ! d) = Some c" for b d c
    using chats_conn_inj [OF inv, of b d c] that nth [of b] nth [of d] same(1) unfolding len by (auto split: if_splits)
qed

lemma active_delete_inv: "chats_inv s \<Longrightarrow> chats_inv (s\<lparr>ch_active := AList.delete t (ch_active s)\<rparr>)"
  unfolding chats_inv_def by (simp add: delete_conv')

text \<open>\<open>chat_stop\<close> on a session that has its own pipe.\<close>

lemma chat_stop_simps:
  assumes "a < length (ch_heap s)"
  shows "length (ch_heap (chat_stop s a)) = length (ch_heap s)"
    "length (ch_conns (chat_stop s a)) = length (ch_conns s)"
    "ch_heap (chat_stop s a) ! b = (if b = a then (ch_heap s ! a)\<lparr>cs_stopped := True\<rparr> else ch_heap s ! b)"
    "ch_last (chat_stop s a) = ch_last s" "ch_tasks (chat_stop s a) = ch_tasks s" "ch_up (chat_stop s a) = ch_up s"
  using assms by (auto simp: chat_stop_def set_chat_def close_conn_def set_conn_def Let_def nth_update_if
      split: option.splits)

lemma chat_stop_inv:
  assumes inv: "chats_inv s" and a: "a < length (ch_heap s)"
  shows "chats_inv (chat_stop s a)"
proof (cases "cs_stopped (ch_heap s ! a)")
  case True
  with inv show ?thesis by (simp add: chat_stop_def)
next
  case False
  have act: "map_of (ch_active (chat_stop s a)) t =
      (if t = cs_chatID (ch_heap s ! a) then None else map_of (ch_active s) t)" for t
    using False by (simp add: chat_stop_def Let_def delete_conv' set_chat_def close_conn_def set_conn_def
        split: option.splits)
  note simps = chat_stop_simps [OF a]
  show ?thesis
  proof (rule chats_invI)
    show "b < length (ch_heap (chat_stop s a)) \<and> cs_chatID (ch_heap (chat_stop s a) ! b) = t
        \<and> \<not> cs_stopped (ch_heap (chat_stop s a) ! b)"
      if "map_of (ch_active (chat_stop s a)) t = Some b" for t b
      using that act [of t] chats_activeD [OF inv, of t b] by (auto simp: simps split: if_splits)
    show "c < length (ch_conns (chat_stop s a)) \<and> cs_pc (ch_heap (chat_stop s a) ! b) \<noteq> Accepting"
      if "b < length (ch_heap (chat_stop s a))" "cs_conn (ch_heap (chat_stop s a) ! b) = Some c" for b c
      using that chats_connD [OF inv, of b c] by (auto simp: simps split: if_splits)
    show "b = d" if "b < length (ch_heap (chat_stop s a))" "d < length (ch_heap (chat_stop s a))"
      "cs_conn (ch_heap (chat_stop s a) ! b) = Some c" "cs_conn (ch_heap (chat_stop s a) ! d) = Some c" for b d c
      using that chats_conn_inj [OF inv, of b d c] by (auto simp: simps split: if_splits)
  qed
qed

lemma startChat_inv:
  assumes inv: "chats_inv s"
  shows "chats_inv (fst (startChat m s cid n av sid))"
proof -
  have "chats_inv (s\<lparr>ch_heap := ch_heap s @ [cs], ch_active := AList.update cid (length (ch_heap s)) (ch_active s),
      ch_last := l, ch_spawned := sp\<rparr>)"
    if cs: "cs_chatID cs = cid" "\<not> cs_stopped cs" "cs_conn cs = None" for cs l sp
  proof (rule chats_invI)
    let ?s = "s\<lparr>ch_heap := ch_heap s @ [cs], ch_active := AList.update cid (length (ch_heap s)) (ch_active s),
      ch_last := l, ch_spawned := sp\<rparr>"
    have nth: "ch_heap ?s ! b = (if b < length (ch_heap s) then ch_heap s ! b else cs)"
      if "b < length (ch_heap ?s)" for b using that by (auto simp: nth_append less_Suc_eq)
    show "b < length (ch_heap ?s) \<and> cs_chatID (ch_heap ?s ! b) = t \<and> \<not> cs_stopped (ch_heap ?s ! b)"
      if "map_of (ch_active ?s) t = Some b" for t b
      using chats_activeD [OF inv, of t b] that cs
      by (cases "t = cid") (auto simp: update_conv nth_append)
    show "c < length (ch_conns ?s) \<and> cs_pc (ch_heap ?s ! b) \<noteq> Accepting"
      if "b < length (ch_heap ?s)" "cs_conn (ch_heap ?s ! b) = Some c" for b c
      using chats_connD [OF inv, of b c] that cs nth [OF that(1)] by (auto split: if_splits)
    show "b = d" if "b < length (ch_heap ?s)" "d < length (ch_heap ?s)"
      "cs_conn (ch_heap ?s ! b) = Some c" "cs_conn (ch_heap ?s ! d) = Some c" for b d c
      using chats_conn_inj [OF inv, of b d c] that cs nth [OF that(1)] nth [OF that(2)] by (auto split: if_splits)
  qed
  with inv show ?thesis
    by (auto simp: startChat_def Let_def split: option.splits prod.splits)
qed

lemma active_bound: "chats_inv s \<Longrightarrow> map_of (ch_active s) t = Some a \<Longrightarrow> a < length (ch_heap s)"
  by (drule (1) chats_activeD) blast

lemma stopChat_inv:
  assumes inv: "chats_inv s"
  shows "chats_inv (stopChat s t)"
proof (cases "map_of (ch_active s) t")
  case (Some a)
  note a = active_bound [OF inv Some]
  have "chats_inv (chat_stop s a)" by (rule chat_stop_inv [OF inv a])
  moreover have "chats_inv (chat_stop (fst (chat_write s c ChatStop None)) a)" for c
    using chat_stop_inv [OF chat_write_inv [OF inv]] a by (simp add: chat_write_same)
  ultimately show ?thesis using Some by (simp add: stopChat_def split: option.splits)
qed (use inv in \<open>simp add: stopChat_def\<close>)

lemma chats_inv_tasks [simp]:
  "chats_inv (s\<lparr>ch_tasks := x\<rparr>) = chats_inv s" "chats_inv (s\<lparr>ch_up := y\<rparr>) = chats_inv s"
  by (simp_all add: chats_inv_def)

lemma chat_send_up_inv [simp]: "chats_inv (chat_send_up s b j) = chats_inv s"
  by (simp add: chat_send_up_def)

lemma forwardChatMessage_inv:
  assumes inv: "chats_inv s"
  shows "chats_inv (forwardChatMessage s t n x ts)"
proof (cases "map_of (ch_active s) t")
  case (Some a)
  note a = active_bound [OF inv Some]
  show ?thesis
  proof (cases "cs_conn (ch_heap s ! a)")
    case None
    with Some chat_stop_inv [OF inv a] show ?thesis by (simp add: forwardChatMessage_def Let_def)
  next
    case (Some c)
    let ?w = "chat_write s c ChatMsg (Some (operator_message n x ts))"
    have "chats_inv (fst ?w)" using chat_write_inv [OF inv] .
    moreover from this have "chats_inv (chat_stop (fst ?w) a)"
      using chat_stop_inv a by (simp add: chat_write_same)
    ultimately show ?thesis
      using Some \<open>map_of (ch_active s) t = Some a\<close>
      by (cases ?w) (auto simp: forwardChatMessage_def Let_def split: bool.splits)
  qed
qed (use inv in \<open>simp add: forwardChatMessage_def Let_def\<close>)

lemma chat_forward_inv: "chats_inv s \<Longrightarrow> chats_inv (chat_forward s t j)"
  by (auto simp: chat_forward_def chat_write_inv split: option.splits)

lemma chat_at_bound: "chat_at s a pc \<Longrightarrow> a < length (ch_heap s)"
  by (simp add: chat_at_def)

lemma chat_stopped_unregistered:
  assumes inv: "chats_inv s" and a: "a < length (ch_heap s)"
  shows "map_of (ch_active (chat_stop s a)) t \<noteq> Some a"
  using chats_activeD [OF chat_stop_inv [OF inv a], of t a] by (auto simp: chat_stop_simps [OF a])

lemma chat_end_inv:
  assumes inv: "chats_inv s" and a: "a < length (ch_heap s)"
  shows "chats_inv (set_chat (chat_stop s a) a ((ch_heap (chat_stop s a) ! a)\<lparr>cs_pc := Ended\<rparr>))"
  by (rule set_chat_inv [OF chat_stop_inv [OF inv a]]) (simp_all add: chat_stop_simps [OF a] a)

lemma chat_accept_inv:
  assumes inv: "chats_inv s" and at: "chat_at s a Accepting"
  shows "chats_inv (chat_accept s a ok)"
proof -
  note a = chat_at_bound [OF at]
  let ?c = "length (ch_conns s)" and ?h = "(ch_heap s ! a)\<lparr>cs_conn := Some (length (ch_conns s)), cs_pc := Checking\<rparr>"
  let ?s = "set_chat (s\<lparr>ch_conns := ch_conns s @ [\<lparr>cc_closed = False, cc_dead = False, cc_sent = []\<rparr>]\<rparr>) a ?h"
  have nth: "ch_heap ?s ! b = (if b = a then ?h else ch_heap s ! b)" for b
    using a by (simp add: set_chat_def)
  have len: "length (ch_heap ?s) = length (ch_heap s)" "length (ch_conns ?s) = Suc ?c" and act: "ch_active ?s = ch_active s"
    by (simp_all add: set_chat_def)
  have "chats_inv ?s"
  proof (rule chats_invI)
    show "b < length (ch_heap ?s) \<and> cs_chatID (ch_heap ?s ! b) = t \<and> \<not> cs_stopped (ch_heap ?s ! b)"
      if "map_of (ch_active ?s) t = Some b" for t b
      using chats_activeD [OF inv, of t b] that nth [of b] unfolding len act by auto
    show "c < length (ch_conns ?s) \<and> cs_pc (ch_heap ?s ! b) \<noteq> Accepting"
      if "b < length (ch_heap ?s)" "cs_conn (ch_heap ?s ! b) = Some c" for b c
      using chats_connD [OF inv, of b c] that nth [of b] unfolding len by (auto split: if_splits)
    show "b = d" if "b < length (ch_heap ?s)" "d < length (ch_heap ?s)"
      "cs_conn (ch_heap ?s ! b) = Some c" "cs_conn (ch_heap ?s ! d) = Some c" for b d c
      using chats_conn_inj [OF inv, of b d c] chats_connD [OF inv, of b c] chats_connD [OF inv, of d c] that
        nth [of b] nth [of d] unfolding len by (auto split: if_splits)
  qed
  from chat_write_inv [OF this] chat_end_inv [OF inv a] show ?thesis
    by (simp add: chat_accept_def Let_def)
qed

lemma chat_check_inv:
  assumes inv: "chats_inv s" and at: "chat_at s a Checking"
  shows "chats_inv (chat_check s a)"
  unfolding chat_check_def Let_def
  using set_chat_inv [OF inv chat_at_bound [OF at]] by simp

lemma chat_read_inv:
  assumes inv: "chats_inv s" and at: "chat_at s a Reading"
  shows "chats_inv (chat_read_step s a k now r)"
proof -
  note a = chat_at_bound [OF at]
  have again: "chats_inv (set_chat (chat_send_up s k' j) a ((ch_heap s ! a)\<lparr>cs_pc := Checking\<rparr>))" for k' j
    by (rule set_chat_inv) (use inv a in \<open>simp_all add: chat_send_up_def\<close>)
  have again0: "chats_inv (set_chat s a ((ch_heap s ! a)\<lparr>cs_pc := Checking\<rparr>))"
    by (rule set_chat_inv [OF inv a]) simp_all
  have end_: "chats_inv (set_chat (chat_stop (chat_send_up s k j) a) a
      ((ch_heap (chat_stop (chat_send_up s k j) a) ! a)\<lparr>cs_pc := Ended\<rparr>))" for j
    by (rule chat_end_inv) (use inv a in \<open>simp_all add: chat_send_up_def\<close>)
  show ?thesis
    using again again0 end_ by (auto simp: chat_read_step_def Let_def split: chat_read.splits option.splits)
qed

lemma chat_task_inv:
  assumes "chats_inv s"
  shows "chats_inv (chat_task_step m s t)"
proof (cases t)
  case (Respawn cid n av sid msg)
  with startChat_inv [OF assms, of m cid n av sid] show ?thesis
    by (auto simp: chat_task_step_def split: prod.splits option.splits)
qed (simp add: chat_task_step_def chat_forward_inv assms)

lemma chat_step_inv:
  assumes "chats_inv s" "chat_step m s e = Some s'"
  shows "chats_inv s'"
proof (cases e)
  case (CHelperDies c)
  with assms show ?thesis
    by (auto split: if_splits intro: chats_inv_same [OF assms(1)] simp: set_conn_def)
qed (use assms in \<open>auto simp: startChat_inv stopChat_inv forwardChatMessage_inv chat_forward_inv chat_accept_inv
      chat_check_inv chat_read_inv chat_task_inv split: if_splits\<close>)

lemma chat_reach_inv: "chat_reach m s \<Longrightarrow> chats_inv s"
proof (induction rule: chat_reach.induct)
  case chat_init
  show ?case by (simp add: chats_inv_def no_chats_def)
qed (rule chat_step_inv)

section \<open>A pipe that nobody closes\<close>

text \<open>The pipe of a session that was stopped before the pipe was there.\<close>

definition leaked :: "chats \<Rightarrow> nat \<Rightarrow> nat \<Rightarrow> bool" where
  "leaked s a c \<longleftrightarrow> a < length (ch_heap s) \<and> cs_stopped (ch_heap s ! a) \<and> cs_conn (ch_heap s ! a) = Some c
     \<and> \<not> cc_closed (ch_conns s ! c)"

lemma leaked_chat_write: "leaked s a c \<Longrightarrow> leaked (fst (chat_write s d ty m)) a c"
  by (auto simp: leaked_def chat_write_same chat_write_def set_conn_def Let_def nth_update_if)

lemma leaked_misc [simp]:
  "leaked (s\<lparr>ch_tasks := x\<rparr>) a c = leaked s a c" "leaked (s\<lparr>ch_up := y\<rparr>) a c = leaked s a c"
  "leaked (chat_send_up s k j) a c = leaked s a c"
  by (simp_all add: leaked_def chat_send_up_def)

lemma leaked_set_chat:
  assumes "leaked s a c" "cs_stopped cs = cs_stopped (ch_heap s ! b)" "cs_conn cs = cs_conn (ch_heap s ! b)"
  shows "leaked (set_chat s b cs) a c"
  using assms by (auto simp: leaked_def set_chat_def nth_update_if)

lemma leaked_chat_stop:
  assumes inv: "chats_inv s" and b: "b < length (ch_heap s)" and l: "leaked s a c"
  shows "leaked (chat_stop s b) a c"
proof (cases "b = a")
  case True
  with l show ?thesis by (simp add: leaked_def chat_stop_def)
next
  case False
  have "cs_conn (ch_heap s ! b) \<noteq> Some c"
    using chats_conn_inj [OF inv b, of a c] l False by (auto simp: leaked_def)
  with l False show ?thesis
    by (auto simp: leaked_def chat_stop_def set_chat_def close_conn_def set_conn_def Let_def nth_update_if
        split: option.splits)
qed

lemma leaked_chat_end:
  assumes "chats_inv s" "b < length (ch_heap s)" "leaked s a c"
  shows "leaked (set_chat (chat_stop s b) b ((ch_heap (chat_stop s b) ! b)\<lparr>cs_pc := pc\<rparr>)) a c"
  using leaked_chat_stop [OF assms] by (rule leaked_set_chat) simp_all

lemma leaked_startChat: "leaked s a c \<Longrightarrow> leaked (fst (startChat m s cid n av sid)) a c"
  by (auto simp: startChat_def Let_def leaked_def nth_append split: option.splits prod.splits)

lemma leaked_stopChat:
  assumes inv: "chats_inv s" and l: "leaked s a c"
  shows "leaked (stopChat s t) a c"
proof (cases "map_of (ch_active s) t")
  case (Some b)
  note b = active_bound [OF inv Some]
  have "leaked (chat_stop (fst (chat_write s d ChatStop None)) b) a c" for d
    using leaked_chat_stop [OF chat_write_inv [OF inv] _ leaked_chat_write [OF l]] b
    by (simp add: chat_write_same)
  with Some leaked_chat_stop [OF inv b l] show ?thesis by (auto simp: stopChat_def split: option.splits)
qed (use l in \<open>simp add: stopChat_def\<close>)

lemma leaked_message:
  assumes inv: "chats_inv s" and l: "leaked s a c"
  shows "leaked (forwardChatMessage s t n x ts) a c"
proof (cases "map_of (ch_active s) t")
  case (Some b)
  note b = active_bound [OF inv Some]
  let ?w = "\<lambda>d. chat_write s d ChatMsg (Some (operator_message n x ts))"
  have w: "leaked (fst (?w d)) a c" "leaked (chat_stop (fst (?w d)) b) a c" for d
    using leaked_chat_stop [OF chat_write_inv [OF inv] _ leaked_chat_write [OF l]] b leaked_chat_write [OF l]
    by (simp_all add: chat_write_same)
  have "case ?w d of (s', True) \<Rightarrow> leaked s' a c | (s', False) \<Rightarrow> leaked (chat_stop s' b) a c" for d
    using w [of d] by (cases "?w d") (auto split: bool.split)
  with Some leaked_chat_stop [OF inv b l] show ?thesis
    by (fastforce simp: forwardChatMessage_def Let_def split: option.splits prod.splits bool.splits)
qed (use l in \<open>simp add: forwardChatMessage_def Let_def\<close>)

lemma leaked_forward: "leaked s a c \<Longrightarrow> leaked (chat_forward s t j) a c"
  by (auto simp: chat_forward_def leaked_chat_write split: option.splits)

lemma leaked_accept:
  assumes inv: "chats_inv s" and at: "chat_at s b Accepting" and l: "leaked s a c"
  shows "leaked (chat_accept s b ok) a c"
proof (cases ok)
  case False
  with leaked_chat_end [OF inv chat_at_bound [OF at] l] show ?thesis by (simp add: chat_accept_def Let_def)
next
  case True
  have "c < length (ch_conns s)" "b \<noteq> a"
    using l chats_connD [OF inv, of a c] at by (auto simp: leaked_def chat_at_def)
  with l have "leaked (set_chat (s\<lparr>ch_conns := ch_conns s @ [cn]\<rparr>) b
      ((ch_heap s ! b)\<lparr>cs_conn := Some (length (ch_conns s)), cs_pc := Checking\<rparr>)) a c" for cn
    by (auto simp: leaked_def set_chat_def nth_append)
  with True leaked_chat_write show ?thesis by (simp add: chat_accept_def Let_def)
qed

lemma leaked_read:
  assumes inv: "chats_inv s" and at: "chat_at s b Reading" and l: "leaked s a c"
  shows "leaked (chat_read_step s b k now r) a c"
proof -
  have again: "leaked (set_chat s' b ((ch_heap s ! b)\<lparr>cs_pc := Checking\<rparr>)) a c"
    if "leaked s' a c" "ch_heap s' = ch_heap s" for s'
    using that by (intro leaked_set_chat) simp_all
  have "leaked (set_chat (chat_stop (chat_send_up s k j) b) b
      ((ch_heap (chat_stop (chat_send_up s k j) b) ! b)\<lparr>cs_pc := Ended\<rparr>)) a c" for j
    by (rule leaked_chat_end) (use inv at l in \<open>simp_all add: chat_send_up_def chat_at_def\<close>)
  moreover have "ch_heap (chat_send_up s k j) = ch_heap s" for j by (simp add: chat_send_up_def)
  ultimately show ?thesis
    using again l by (auto simp: chat_read_step_def Let_def split: chat_read.splits option.splits)
qed

lemma leaked_task:
  assumes "leaked s a c"
  shows "leaked (chat_task_step m s t) a c"
proof (cases t)
  case (Respawn cid n av sid msg)
  with leaked_startChat [OF assms, of m cid n av sid] show ?thesis
    by (auto simp: chat_task_step_def split: prod.splits option.splits)
qed (simp add: chat_task_step_def leaked_forward assms)

lemma leaked_step:
  assumes inv: "chats_inv s" and l: "leaked s a c" and step: "chat_step m s e = Some s'"
  shows "leaked s' a c"
proof (cases e)
  case (CCheck b)
  with step l show ?thesis
    by (auto simp: chat_check_def Let_def split: if_splits intro!: leaked_set_chat)
next
  case (CHelperDies d)
  with step l show ?thesis by (auto simp: leaked_def set_conn_def nth_update_if split: if_splits)
qed (use assms in \<open>auto simp: leaked_startChat leaked_stopChat leaked_message leaked_forward leaked_accept
      leaked_read leaked_task split: if_splits\<close>)

lemma leaked_run:
  "chats_inv s \<Longrightarrow> leaked s a c \<Longrightarrow> chat_run m s es = Some s' \<Longrightarrow> leaked s' a c"
  by (induction es arbitrary: s) (auto split: option.splits intro: chat_step_inv leaked_step)

section \<open>Properties\<close>

definition chat_alive :: "chats \<Rightarrow> string \<Rightarrow> nat \<Rightarrow> nat \<Rightarrow> bool" where
  "chat_alive s t a c \<longleftrightarrow> map_of (ch_active s) t = Some a \<and> cs_conn (ch_heap s ! a) = Some c
     \<and> \<not> cc_closed (ch_conns s ! c) \<and> \<not> cc_dead (ch_conns s ! c)"

lemma chat_stop_unregisters:
  assumes "chats_inv s" "map_of (ch_active s) t = Some a"
  shows "map_of (ch_active (chat_stop s a)) t = None" "cs_stopped (ch_heap (chat_stop s a) ! a)"
  using chats_activeD [OF assms] chat_stop_simps(3) [of a s a]
  by (auto simp: chat_stop_def Let_def delete_conv' set_chat_def close_conn_def set_conn_def split: option.splits)

text \<open>
  What becomes of an operator's message, in every reachable state: when the chat is active and both ends of
  its pipe are alive, the message is appended to the pipe and nothing else changes; in every other case the
  chat is no longer active afterwards, its old session is stopped, and exactly one goroutine is waiting that
  will start the helper again with the saved parameters and hold the message.
\<close>

theorem chat_message_outcome:
  assumes reach: "chat_reach m s"
  shows "(\<forall>a c. chat_alive s t a c \<longrightarrow> forwardChatMessage s t n x ts =
        set_conn s c ((ch_conns s ! c)\<lparr>cc_sent := cc_sent (ch_conns s ! c) @ [(ChatMsg, Some (operator_message n x ts))]\<rparr>))
    \<and> ((\<nexists>a c. chat_alive s t a c) \<longrightarrow>
        map_of (ch_active (forwardChatMessage s t n x ts)) t = None
        \<and> ch_tasks (forwardChatMessage s t n x ts) = ch_tasks s @ [respawn_task s t n (operator_message n x ts)]
        \<and> (\<forall>a. map_of (ch_active s) t = Some a \<longrightarrow> cs_stopped (ch_heap (forwardChatMessage s t n x ts) ! a)))"
proof (intro conjI impI allI)
  fix a c assume "chat_alive s t a c"
  then show "forwardChatMessage s t n x ts =
      set_conn s c ((ch_conns s ! c)\<lparr>cc_sent := cc_sent (ch_conns s ! c) @ [(ChatMsg, Some (operator_message n x ts))]\<rparr>)"
    by (simp add: chat_alive_def forwardChatMessage_def chat_write_def Let_def)
next
  note inv = chat_reach_inv [OF reach]
  have task: "respawn_task (chat_stop s a) t n msg = respawn_task s t n msg" if "a < length (ch_heap s)" for a msg
    using that by (simp add: respawn_task_def chat_stop_simps)
  have eq: "forwardChatMessage s t n x ts = (let s' = (case map_of (ch_active s) t of None \<Rightarrow> s | Some a \<Rightarrow> chat_stop s a)
      in s'\<lparr>ch_tasks := ch_tasks s' @ [respawn_task s' t n (operator_message n x ts)]\<rparr>)"
    if "\<nexists>a c. chat_alive s t a c"
    using that by (fastforce simp: chat_alive_def forwardChatMessage_def chat_write_def Let_def
        split: option.splits)
  assume dead: "\<nexists>a c. chat_alive s t a c"
  show "map_of (ch_active (forwardChatMessage s t n x ts)) t = None"
    unfolding eq [OF dead] Let_def using chat_stop_unregisters(1) [OF inv] by (simp split: option.split)
  show "ch_tasks (forwardChatMessage s t n x ts) = ch_tasks s @ [respawn_task s t n (operator_message n x ts)]"
    unfolding eq [OF dead] Let_def using task chat_stop_simps(5) active_bound [OF inv]
    by (simp split: option.split)
  show "cs_stopped (ch_heap (forwardChatMessage s t n x ts) ! a)" if "map_of (ch_active s) t = Some a" for a
    unfolding eq [OF dead] Let_def using chat_stop_unregisters(2) [OF inv that] that by simp
qed

definition demo_chat :: "chat_event list" where
  "demo_chat = [COpen ''c1'' ''Bob'' ''av'' 2]"

definition demo_chat_read :: "chat_event list" where
  "demo_chat_read = demo_chat @ [CAccept 0 True, CCheck 0]"

definition demo_chat_twice :: "chat_event list" where
  "demo_chat_twice = demo_chat @ [COpen ''c1'' ''Bob'' ''av'' 2]"

definition chat_state :: "chat_event list \<Rightarrow> chats" where
  "chat_state es = the (chat_run demo_machine no_chats es)"

lemma chat_state_reach:
  assumes "chat_run demo_machine no_chats es \<noteq> None"
  shows "chat_reach demo_machine (chat_state es)"
  using assms chat_run_reach [OF chat_init] by (auto simp: chat_state_def)

lemma demo_chat_runs:
  "chat_run demo_machine no_chats demo_chat \<noteq> None"
  "chat_run demo_machine no_chats demo_chat_read \<noteq> None"
  "chat_run demo_machine no_chats demo_chat_twice \<noteq> None"
  by code_simp+

lemma chat_message_outcome_witness:
  "cc_sent (ch_conns (forwardChatMessage (chat_state demo_chat_read) ''c1'' ''Bob'' ''hi'' 5) ! 0)
     = cc_sent (ch_conns (chat_state demo_chat_read) ! 0) @ [(ChatMsg, Some (operator_message ''Bob'' ''hi'' 5))]"
proof -
  have 1: "chat_alive (chat_state demo_chat_read) ''c1'' 0 0" by code_simp
  have 2: "0 < length (ch_conns (chat_state demo_chat_read))" by code_simp
  have "forwardChatMessage (chat_state demo_chat_read) ''c1'' ''Bob'' ''hi'' 5 =
      set_conn (chat_state demo_chat_read) 0 ((ch_conns (chat_state demo_chat_read) ! 0)\<lparr>cc_sent :=
        cc_sent (ch_conns (chat_state demo_chat_read) ! 0) @ [(ChatMsg, Some (operator_message ''Bob'' ''hi'' 5))]\<rparr>)"
    using chat_message_outcome [OF chat_state_reach [OF demo_chat_runs(2)], of "''c1''" "''Bob''" "''hi''" 5] 1
    by blast
  with 2 show ?thesis by (simp add: set_conn_def)
qed

text \<open>
  The operator's close is reported as the user's: when the operator closes a chat whose goroutine is in a
  read, that read can only fail, and the server is told that the user closed the chat.
\<close>

theorem operator_close_reported_as_user:
  assumes reach: "chat_reach m s" and act: "map_of (ch_active s) t = Some a" and at: "chat_at s a Reading"
    and step: "chat_step m (stopChat s t) (CRead a True now r) = Some s'"
  shows "r = ReadFailed \<and> ch_up s' = ch_up s @ [user_closed t]"
proof -
  note inv = chat_reach_inv [OF reach]
  note A = chats_activeD [OF inv act]
  define w where "w = (case cs_conn (ch_heap s ! a) of Some c \<Rightarrow> fst (chat_write s c ChatStop None) | None \<Rightarrow> s)"
  have w: "ch_heap w = ch_heap s" "length (ch_conns w) = length (ch_conns s)" "ch_up w = ch_up s"
    by (simp_all add: w_def chat_write_same split: option.split)
      (simp add: chat_write_def set_conn_def Let_def)
  have stop: "stopChat s t = chat_stop w a" using act by (simp add: stopChat_def w_def)
  have a: "a < length (ch_heap w)" using A w by simp
  have gone: "conn_gone (chat_stop w a) a"
    using A w chats_connD [OF inv, of a]
    by (auto simp: conn_gone_def chat_stop_def Let_def set_chat_def close_conn_def set_conn_def split: option.splits)
  with step have r: "r = ReadFailed" and s': "s' = chat_read_step (chat_stop w a) a True now r"
    unfolding stop by (auto split: if_splits)
  have heap: "ch_heap (chat_stop w a) ! a = (ch_heap s ! a)\<lparr>cs_stopped := True\<rparr>"
    using chat_stop_simps(3) [OF a] w by simp
  have "ch_up s' = ch_up (chat_stop w a) @ [user_closed t]"
    unfolding s' r using heap A a chat_stop_simps(1) [OF a]
    by (simp add: chat_read_step_def chat_send_up_def set_chat_def Let_def chat_stop_simps(6))
  with r chat_stop_simps(6) [OF a] w show ?thesis by simp
qed

lemma operator_close_reported_as_user_witness:
  "\<exists>s'. chat_step demo_machine (stopChat (chat_state demo_chat_read) ''c1'') (CRead 0 True 9 ReadFailed) = Some s'
     \<and> ch_up s' = ch_up (chat_state demo_chat_read) @ [user_closed ''c1'']"
proof -
  have 1: "map_of (ch_active (chat_state demo_chat_read)) ''c1'' = Some 0" by code_simp
  have 2: "chat_at (chat_state demo_chat_read) 0 Reading" by code_simp
  have "chat_step demo_machine (stopChat (chat_state demo_chat_read) ''c1'') (CRead 0 True 9 ReadFailed) \<noteq> None"
    by code_simp
  then obtain s' where s': "chat_step demo_machine (stopChat (chat_state demo_chat_read) ''c1'') (CRead 0 True 9 ReadFailed) = Some s'"
    by blast
  from operator_close_reported_as_user [OF chat_state_reach [OF demo_chat_runs(2)] 1 2 s'] s' show ?thesis by blast
qed

text \<open>
  A message that arrives while the helper is still starting loses that helper: its session is stopped and
  another helper is ordered, and when the first one connects after all, its pipe is never closed, whatever
  happens afterwards.
\<close>

theorem early_message_leaks_helper:
  assumes reach: "chat_reach m s" and act: "map_of (ch_active s) t = Some a" and conn: "cs_conn (ch_heap s ! a) = None"
    and run: "chat_run m (forwardChatMessage s t n x ts) (CAccept a True # es) = Some s'"
  shows "cs_stopped (ch_heap s' ! a) \<and> (\<exists>c. cs_conn (ch_heap s' ! a) = Some c \<and> \<not> cc_closed (ch_conns s' ! c))"
proof -
  note inv = chat_reach_inv [OF reach]
  let ?f = "forwardChatMessage s t n x ts"
  let ?s1 = "chat_accept ?f a True"
  have a: "a < length (ch_heap s)" using active_bound [OF inv act] .
  have f: "?f = (chat_stop s a)\<lparr>ch_tasks := ch_tasks (chat_stop s a) @ [respawn_task (chat_stop s a) t n (operator_message n x ts)]\<rparr>"
    using act conn by (simp add: forwardChatMessage_def Let_def)
  have stopped: "cs_stopped (ch_heap ?f ! a)" "a < length (ch_heap ?f)"
    unfolding f using chat_stop_simps [OF a] a by simp_all
  from run have at: "chat_at ?f a Accepting" and rest: "chat_run m ?s1 es = Some s'"
    by (auto split: if_splits option.splits)
  have "leaked ?s1 a (length (ch_conns ?f))"
    using stopped by (simp add: chat_accept_def Let_def leaked_chat_write) (rule leaked_chat_write,
        simp add: leaked_def set_chat_def)
  moreover have "chats_inv ?s1"
    by (rule chat_accept_inv [OF forwardChatMessage_inv [OF inv] at])
  ultimately have "leaked s' a (length (ch_conns ?f))" using leaked_run rest by blast
  then show ?thesis by (auto simp: leaked_def)
qed

lemma early_message_leaks_helper_witness:
  "\<exists>s'. chat_run demo_machine (forwardChatMessage (chat_state demo_chat) ''c1'' ''Bob'' ''hi'' 5)
      [CAccept 0 True, CTask 0, CClose ''c1''] = Some s'
    \<and> cs_stopped (ch_heap s' ! 0) \<and> (\<exists>c. cs_conn (ch_heap s' ! 0) = Some c \<and> \<not> cc_closed (ch_conns s' ! c))"
proof -
  have 1: "map_of (ch_active (chat_state demo_chat)) ''c1'' = Some 0" by code_simp
  have 2: "cs_conn (ch_heap (chat_state demo_chat) ! 0) = None" by code_simp
  have "chat_run demo_machine (forwardChatMessage (chat_state demo_chat) ''c1'' ''Bob'' ''hi'' 5)
      [CAccept 0 True, CTask 0, CClose ''c1''] \<noteq> None" by code_simp
  then obtain s' where s': "chat_run demo_machine (forwardChatMessage (chat_state demo_chat) ''c1'' ''Bob'' ''hi'' 5)
      [CAccept 0 True, CTask 0, CClose ''c1''] = Some s'" by blast
  from early_message_leaks_helper [OF chat_state_reach [OF demo_chat_runs(1)] 1 2 s'] s' show ?thesis by blast
qed

text \<open>
  The end of an old session takes the newer one of the same chat out of the registry: that one runs on, but
  the next message of the operator starts yet another helper.
\<close>

theorem old_chat_end_drops_new:
  assumes reach: "chat_reach m s" and act: "map_of (ch_active s) t = Some b"
    and a: "a < length (ch_heap s)" "a \<noteq> b" "cs_chatID (ch_heap s ! a) = t" "\<not> cs_stopped (ch_heap s ! a)"
  shows "\<not> cs_stopped (ch_heap (chat_stop s a) ! b) \<and> map_of (ch_active (chat_stop s a)) t = None
    \<and> ch_tasks (forwardChatMessage (chat_stop s a) t n x ts)
        = ch_tasks s @ [respawn_task s t n (operator_message n x ts)]"
proof -
  note inv = chat_reach_inv [OF reach]
  have none: "map_of (ch_active (chat_stop s a)) t = None"
    using a by (simp add: chat_stop_def Let_def delete_conv' set_chat_def close_conn_def set_conn_def split: option.split)
  have "\<not> cs_stopped (ch_heap (chat_stop s a) ! b)"
    using chats_activeD [OF inv act] chat_stop_simps(3) [OF a(1), of b] a(2) by simp
  with none chat_stop_simps [OF a(1)] show ?thesis
    by (simp add: forwardChatMessage_def Let_def respawn_task_def)
qed

lemma old_chat_end_drops_new_witness:
  "map_of (ch_active (chat_stop (chat_state demo_chat_twice) 0)) ''c1'' = None
   \<and> \<not> cs_stopped (ch_heap (chat_stop (chat_state demo_chat_twice) 0) ! 1)"
proof -
  have 1: "map_of (ch_active (chat_state demo_chat_twice)) ''c1'' = Some 1" by code_simp
  have 2: "0 < length (ch_heap (chat_state demo_chat_twice))" by code_simp
  have 3: "cs_chatID (ch_heap (chat_state demo_chat_twice) ! 0) = ''c1''" by code_simp
  have 4: "\<not> cs_stopped (ch_heap (chat_state demo_chat_twice) ! 0)" by code_simp
  from old_chat_end_drops_new [OF chat_state_reach [OF demo_chat_runs(3)] 1 2 _ 3 4, of "[]" "[]" 0]
  show ?thesis by simp
qed

end
