(* ===== verification/Commands.thy ===== *)
theory Commands
  imports Chat Framing
begin

text \<open>
  The commands of the server and the channel they come by: agent/push.go (\<open>handleCommand\<close>, \<open>doPush\<close>) and
  agent/cmd_ws.go (the command WebSocket: its session loop, the heartbeat and the reconnection delays).
\<close>

section \<open>Commands\<close>

record command =
  cmd_Type :: string
  cmd_ID :: string
  cmd_Payload :: "(string \<times> json) list"

text \<open>
  Decoding a command: the payload is a map; \<open>null\<close> makes it nil, an object adds to what it has.
\<close>

fun dec_map_from :: "(string \<times> json) list \<Rightarrow> json list \<Rightarrow> (string \<times> json) list \<times> bool" where
  "dec_map_from acc [] = (acc, True)"
| "dec_map_from acc (j # js) =
     (case j of JNull \<Rightarrow> dec_map_from [] js
      | JObj kvs \<Rightarrow> dec_map_from (acc @ kvs) js
      | _ \<Rightarrow> (fst (dec_map_from acc js), False))"

definition dec_command :: "json \<Rightarrow> command option" where
  "dec_command j =
     (case dec_struct j of
        None \<Rightarrow> None
      | Some kvs \<Rightarrow>
          (let (ty, ok1) = dec_string ''type'' kvs;
               (i, ok2) = dec_string ''id'' kvs;
               (p, ok3) = dec_map_from [] (json_field ''payload'' kvs)
           in if ok1 \<and> ok2 \<and> ok3 then Some \<lparr>cmd_Type = ty, cmd_ID = i, cmd_Payload = p\<rparr> else None))"

text \<open>
  The state of the agent the commands work on: its streams and chats, the users it notified (session, name and
  whether a connection opens or closes) and the updates it started (address and version).
\<close>

record agent =
  ag_streams :: streams
  ag_chats :: chats
  ag_notified :: "(int \<times> string \<times> bool) list"
  ag_updates :: "(string \<times> string) list"

definition new_agent :: agent where
  "new_agent = \<lparr>ag_streams = no_streams, ag_chats = no_chats, ag_notified = [], ag_updates = []\<rparr>"

definition payload_session :: "(string \<times> json) list \<Rightarrow> int" where
  "payload_session p = (case payloadFloat p ''sessionId'' of Some f \<Rightarrow> int_of_float f | None \<Rightarrow> - 1)"

definition notify_user :: "agent \<Rightarrow> int \<Rightarrow> string \<Rightarrow> bool \<Rightarrow> agent" where
  "notify_user ag target username connected =
     (if username = [] then ag else ag\<lparr>ag_notified := ag_notified ag @ [(target, username, connected)]\<rparr>)"

definition open_remote_tunnel :: "machine \<Rightarrow> string \<Rightarrow> agent \<Rightarrow> (string \<times> json) list \<Rightarrow> agent" where
  "open_remote_tunnel m serverURL ag p =
     (let token = payloadString p ''sessionToken'' in
      if token = [] then ag
      else (let sid = payload_session p;
                target = (if sid < 0 then agent_capture_session m else sid);
                ag' = notify_user ag target (payloadString p ''username'') True
            in ag'\<lparr>ag_streams := fst (startStream m serverURL (ag_streams ag') token sid)\<rparr>))"

definition close_remote_tunnel :: "machine \<Rightarrow> agent \<Rightarrow> (string \<times> json) list \<Rightarrow> agent" where
  "close_remote_tunnel m ag p =
     (let token = payloadString p ''sessionToken'' in
      if token = [] then ag
      else (let ag' = notify_user ag (agent_capture_session m) (payloadString p ''username'') False
            in ag'\<lparr>ag_streams := stopStream (ag_streams ag') token\<rparr>))"

definition update_command :: "string \<Rightarrow> agent \<Rightarrow> (string \<times> json) list \<Rightarrow> agent" where
  "update_command serverURL ag p =
     (let url = payloadString p ''url'' in
      if url = [] then ag
      else ag\<lparr>ag_updates := ag_updates ag @ [(update_url serverURL url, payloadString p ''version'')]\<rparr>)"

definition open_chat :: "machine \<Rightarrow> agent \<Rightarrow> (string \<times> json) list \<Rightarrow> agent" where
  "open_chat m ag p =
     (let chatID = payloadString p ''chatId'' in
      if chatID = [] then ag
      else ag\<lparr>ag_chats := fst (startChat m (ag_chats ag) chatID (payloadString p ''operatorName'')
             (payloadString p ''operatorAvatar'') (payload_session p))\<rparr>)"

definition payload_timestamp :: "(string \<times> json) list \<Rightarrow> int" where
  "payload_timestamp p = (case payloadFloat p ''timestamp'' of Some f \<Rightarrow> int_of_float f | None \<Rightarrow> 0)"

definition handleCommand :: "machine \<Rightarrow> string \<Rightarrow> agent \<Rightarrow> command \<Rightarrow> agent" where
  "handleCommand m serverURL ag cmd =
     (let ty = cmd_Type cmd; p = cmd_Payload cmd; chatID = payloadString p ''chatId'' in
      if ty = ''open_remote_tunnel'' then open_remote_tunnel m serverURL ag p
      else if ty = ''close_remote_tunnel'' then close_remote_tunnel m ag p
      else if ty = ''update'' then update_command serverURL ag p
      else if ty = ''open_chat'' then open_chat m ag p
      else if ty = ''chat_message'' then
        ag\<lparr>ag_chats := forwardChatMessage (ag_chats ag) chatID (payloadString p ''operatorName'')
             (payloadString p ''message'') (payload_timestamp p)\<rparr>
      else if ty = ''close_chat'' then ag\<lparr>ag_chats := stopChat (ag_chats ag) chatID\<rparr>
      else if ty = ''request_remote'' then
        ag\<lparr>ag_chats := forwardRemoteRequest (ag_chats ag) chatID (payloadString p ''message'')\<rparr>
      else if ty = ''chat_typing'' then ag\<lparr>ag_chats := forwardChatTyping (ag_chats ag) chatID\<rparr>
      else if ty = ''chat_file'' then ag\<lparr>ag_chats := forwardChatFile (ag_chats ag) chatID p\<rparr>
      else ag)"

section \<open>The push over HTTP\<close>

definition session_json :: "SessionInfo \<Rightarrow> json" where
  "session_json s = JObj ([(''id'', JInt (si_ID s)), (''username'', JStr (si_Username s)), (''state'', JStr (si_State s))]
     @ (if si_StationName s = [] then [] else [(''stationName'', JStr (si_StationName s))])
     @ [(''isConsole'', JBool (si_IsConsole s))])"

definition push_json :: "string \<Rightarrow> string \<Rightarrow> string \<Rightarrow> string \<Rightarrow> string \<Rightarrow> SessionInfo list \<Rightarrow> json" where
  "push_json uuid hostname os arch version ss =
     JObj ([(''deviceUuid'', JStr uuid), (''hostname'', JStr hostname), (''os'', JStr os), (''arch'', JStr arch),
            (''version'', JStr version)]
       @ (if ss = [] then [] else [(''sessions'', JArr (map session_json ss))]))"

datatype push_err = PushHTTP | PushUnauthorized | PushStatus nat | PushBody | PushJSON

text \<open>
  The answer of the server: no answer, or a status with a body that could not be read, is no JSON, or is a
  value. The command, when there is one, is the result.
\<close>

definition dec_push_command :: "json list \<Rightarrow> command option \<times> bool" where
  "dec_push_command js =
     foldl (\<lambda>(c, ok) j. if j = JNull then (None, ok)
              else case dec_command j of Some d \<Rightarrow> (Some d, ok) | None \<Rightarrow> (c, False)) (None, True) js"

definition doPush :: "(nat \<times> json option option) option \<Rightarrow> push_err + command option" where
  "doPush answer =
     (case answer of
        None \<Rightarrow> Inl PushHTTP
      | Some (status, body) \<Rightarrow>
          if status = 401 then Inl PushUnauthorized
          else if status \<noteq> 200 then Inl (PushStatus status)
          else case body of
             None \<Rightarrow> Inl PushBody
           | Some parsed \<Rightarrow>
               (case Option.bind parsed dec_struct of
                  None \<Rightarrow> Inl PushJSON
                | Some kvs \<Rightarrow>
                    (let (st, ok1) = dec_string ''status'' kvs;
                         (c, ok2) = dec_push_command (json_field ''command'' kvs)
                     in if ok1 \<and> ok2 then Inr c else Inl PushJSON)))"

section \<open>The command WebSocket\<close>

definition heartbeat_json :: "string \<Rightarrow> string \<Rightarrow> string \<Rightarrow> string \<Rightarrow> string \<Rightarrow> SessionInfo list \<Rightarrow> json" where
  "heartbeat_json uuid hostname os arch version ss =
     JObj ([(''type'', JStr ''heartbeat''), (''deviceUuid'', JStr uuid), (''hostname'', JStr hostname),
            (''os'', JStr os), (''arch'', JStr arch), (''version'', JStr version)]
       @ (if ss = [] then [] else [(''sessions'', JArr (map session_json ss))]))"

text \<open>
  One session: what it does in answer to the events of its select loop (the heartbeat tick with the outcome of its
  write, and frames or the read error), and how it ends. A pong's error is ignored.
\<close>

datatype ws_in = HbTick bool | FrameIn "read_err + (byte \<times> bytes)"

datatype ws_act = SendHeartbeat | SendPongFrame bytes | RunCommand command

datatype ws_end = ConnectFailed | CleanClose | HeartbeatFailed | ReadFailure read_err

fun cmd_loop :: "(bytes \<Rightarrow> json option) \<Rightarrow> ws_in list \<Rightarrow> ws_act list \<times> ws_end option" where
  "cmd_loop parse [] = ([], None)"
| "cmd_loop parse (HbTick ok # es) =
     (if ok then (let (acts, r) = cmd_loop parse es in (SendHeartbeat # acts, r))
      else ([], Some HeartbeatFailed))"
| "cmd_loop parse (FrameIn (Inl e) # es) = ([], Some (ReadFailure e))"
| "cmd_loop parse (FrameIn (Inr (opcode, payload)) # es) =
     (if opcode = 0x8 then ([], Some CleanClose)
      else (let (acts, r) = cmd_loop parse es;
                now = (if opcode = 0x9 then [SendPongFrame payload]
                       else if opcode = 0x1 then
                         (case Option.bind (parse payload) dec_command of
                            None \<Rightarrow> [] | Some c \<Rightarrow> [RunCommand c])
                       else [])
            in (now @ acts, r)))"

definition cmdWSSession :: "(bytes \<Rightarrow> json option) \<Rightarrow> bool \<Rightarrow> bool \<Rightarrow> ws_in list \<Rightarrow> ws_act list \<times> ws_end option" where
  "cmdWSSession parse connected first_hb es =
     (if \<not> connected then ([], Some ConnectFailed)
      else if \<not> first_hb then ([], Some HeartbeatFailed)
      else (let (acts, r) = cmd_loop parse es in (SendHeartbeat # acts, r)))"

text \<open>The delays of \<open>runCmdWS\<close>, in nanoseconds: what one outcome logs, and what it then sleeps.\<close>

definition cmdWSReconnectBase :: int where "cmdWSReconnectBase = 2000000000"
definition cmdWSReconnectMax :: int where "cmdWSReconnectMax = 60000000000"

definition reconnect :: "int \<Rightarrow> bool \<Rightarrow> int \<times> int" where
  "reconnect backoff clean =
     (if clean then (cmdWSReconnectBase, cmdWSReconnectBase)
      else (let nxt = f64_trunc (f64_mul (f64_of_int backoff) (f64_lit 3 2))
            in (backoff, if cmdWSReconnectMax < nxt then cmdWSReconnectMax else nxt)))"

fun reconnects :: "int \<Rightarrow> bool list \<Rightarrow> (int \<times> int) list" where
  "reconnects backoff [] = []"
| "reconnects backoff (clean # rs) =
     (let (logged, slept) = reconnect backoff clean in (logged, slept) # reconnects slept rs)"

definition runCmdWS :: "bool list \<Rightarrow> (int \<times> int) list" where
  "runCmdWS rs = reconnects cmdWSReconnectBase rs"

section \<open>The delays\<close>

lemma step_delay:
  assumes "0 \<le> b" "b < 2 ^ 36"
  shows "f64_trunc (f64_mul (f64_of_int b) (f64_lit 3 2)) = b * 3 div 2"
proof -
  define a :: int where "a = b * 3 * 2 ^ 51"
  define k where "k = bit_length a - 53"
  have "b * 3 < 2 ^ 38" using assms by simp
  then have "a < 2 ^ 89" by (simp add: a_def)
  then have k: "k \<le> 36" using bit_length_le [of a 89] by (simp add: k_def)
  have sp: "(2 :: int) ^ 51 = 2 ^ (51 - k) * 2 ^ k" using k by (simp flip: power_add)
  have "a = b * 3 * 2 ^ (51 - k) * 2 ^ k" by (simp add: a_def sp mult.assoc del: power_numeral)
  then have r: "rne_div a (2 ^ k) = b * 3 * 2 ^ (51 - k)" by (simp add: rne_div_def)
  have p52: "(2 :: int) ^ (52 - k) = 2 ^ (51 - k) * 2"
  proof -
    have "52 - k = Suc (51 - k)" using k by simp
    then show ?thesis by simp
  qed
  have "f64_trunc (f64_mul (f64_of_int b) (f64_lit 3 2)) = f64_trunc (f64_round (a, -52))"
    using assms by (simp add: f64_of_int_exact f64_literals f64_mul_def a_def mult.commute)
  also have "\<dots> = b * 3 * 2 ^ (51 - k) div 2 ^ (52 - k)"
    using k r by (simp add: f64_round_def f64_trunc_def Let_def k_def [symmetric] nat_diff_distrib)
  also have "\<dots> = b * 3 div 2" unfolding p52 by (simp add: mult.commute)
  finally show ?thesis .
qed

lemma reconnect_eq:
  assumes "cmdWSReconnectBase \<le> b" "b \<le> cmdWSReconnectMax"
  shows "reconnect b clean = (if clean then (cmdWSReconnectBase, cmdWSReconnectBase)
    else (b, min cmdWSReconnectMax (b * 3 div 2)))"
  using assms step_delay [of b]
  by (auto simp: reconnect_def Let_def cmdWSReconnectBase_def cmdWSReconnectMax_def min_def)

lemma reconnect_bounds:
  assumes "cmdWSReconnectBase \<le> b" "b \<le> cmdWSReconnectMax"
  shows "cmdWSReconnectBase \<le> snd (reconnect b clean)" "snd (reconnect b clean) \<le> cmdWSReconnectMax"
  using assms by (auto simp: reconnect_eq cmdWSReconnectBase_def cmdWSReconnectMax_def)

lemma reconnects_bounds:
  assumes "cmdWSReconnectBase \<le> b" "b \<le> cmdWSReconnectMax" "(l, d) \<in> set (reconnects b rs)"
  shows "cmdWSReconnectBase \<le> d \<and> d \<le> cmdWSReconnectMax"
  using assms
proof (induction rs arbitrary: b)
  case (Cons c rs)
  note B = reconnect_bounds [OF Cons.prems(1,2), of c]
  from Cons.prems(3) have "(l, d) = reconnect b c \<or> (l, d) \<in> set (reconnects (snd (reconnect b c)) rs)"
    by (cases "reconnect b c") auto
  with B Cons.IH [OF B] show ?case by (metis snd_conv)
qed simp

text \<open>The delay after a run of failures.\<close>

fun after_failures :: "nat \<Rightarrow> int \<Rightarrow> int" where
  "after_failures 0 b = b"
| "after_failures (Suc n) b = after_failures n (min cmdWSReconnectMax (b * 3 div 2))"

lemma reconnects_failures:
  assumes "cmdWSReconnectBase \<le> b" "b \<le> cmdWSReconnectMax" "0 < n"
  shows "snd (last (reconnects b (replicate n False))) = after_failures n b"
  using assms
proof (induction n arbitrary: b)
  case (Suc n)
  note B = reconnect_bounds [OF Suc.prems(1,2), of False]
  have r: "snd (reconnect b False) = min cmdWSReconnectMax (b * 3 div 2)"
    using reconnect_eq [OF Suc.prems(1,2)] by simp
  show ?case
  proof (cases n)
    case 0
    with r show ?thesis by (simp split: prod.splits)
  next
    case (Suc k)
    then have ne: "reconnects c (replicate n False) \<noteq> []" for c by (simp split: prod.splits)
    have "reconnects b (replicate (Suc n) False) = reconnect b False # reconnects (snd (reconnect b False)) (replicate n False)"
      by (cases "reconnect b False") simp
    then have "snd (last (reconnects b (replicate (Suc n) False)))
        = snd (last (reconnects (snd (reconnect b False)) (replicate n False)))"
      by (simp only: last_ConsR [OF ne])
    also have "\<dots> = after_failures n (snd (reconnect b False))"
      by (rule Suc.IH [OF B]) (simp add: Suc)
    finally show ?thesis by (simp only: r after_failures.simps)
  qed
qed simp

lemma after_failures_cap: "after_failures n cmdWSReconnectMax = cmdWSReconnectMax"
  by (induction n) (auto simp: cmdWSReconnectMax_def)

lemma after_failures_add: "after_failures (m + n) b = after_failures n (after_failures m b)"
  by (induction m arbitrary: b) auto

section \<open>Properties\<close>

text \<open>
  The reconnection delays: whatever the outcomes, the agent sleeps between 2 and 60 seconds; nine failures
  in a row bring the delay to 60 seconds and it stays there, and a clean close brings it back to 2. The delay
  that is logged after the first failure is 2 seconds, the one that is slept 3.
\<close>

theorem reconnect_delays:
  "(\<forall>(l, d)\<in>set (runCmdWS rs). cmdWSReconnectBase \<le> d \<and> d \<le> cmdWSReconnectMax)
   \<and> snd (last (runCmdWS (replicate (9 + n) False))) = cmdWSReconnectMax
   \<and> reconnect b True = (cmdWSReconnectBase, cmdWSReconnectBase)
   \<and> runCmdWS [False] = [(2000000000, 3000000000)]"
proof (intro conjI ballI)
  have base: "cmdWSReconnectBase \<le> cmdWSReconnectBase" "cmdWSReconnectBase \<le> cmdWSReconnectMax"
    by (simp_all add: cmdWSReconnectBase_def cmdWSReconnectMax_def)
  show "case x of (l, d) \<Rightarrow> cmdWSReconnectBase \<le> d \<and> d \<le> cmdWSReconnectMax" if "x \<in> set (runCmdWS rs)" for x
    using reconnects_bounds [OF base] that by (auto simp: runCmdWS_def)
  have nine: "after_failures 9 cmdWSReconnectBase = cmdWSReconnectMax" by code_simp
  have pos: "0 < 9 + n" by simp
  show "snd (last (runCmdWS (replicate (9 + n) False))) = cmdWSReconnectMax"
    unfolding runCmdWS_def reconnects_failures [OF base pos] after_failures_add nine by (rule after_failures_cap)
  show "reconnect b True = (cmdWSReconnectBase, cmdWSReconnectBase)" by (simp add: reconnect_def)
  show "runCmdWS [False] = [(2000000000, 3000000000)]"
    using reconnect_eq [OF base, of False]
    by (simp add: runCmdWS_def cmdWSReconnectBase_def cmdWSReconnectMax_def)
qed

lemma reconnect_delays_witness: "snd (last (runCmdWS (replicate (9 + 3) False))) = cmdWSReconnectMax"
  using reconnect_delays [of "[]" 3 0] by blast

definition ws_terminal :: "ws_in \<Rightarrow> bool" where
  "ws_terminal e = (case e of HbTick ok \<Rightarrow> \<not> ok | FrameIn (Inl err) \<Rightarrow> True | FrameIn (Inr (opcode, p)) \<Rightarrow> opcode = 0x8)"

definition ws_reaction :: "(bytes \<Rightarrow> json option) \<Rightarrow> ws_in \<Rightarrow> ws_act list" where
  "ws_reaction parse e = (case e of
     HbTick ok \<Rightarrow> [SendHeartbeat]
   | FrameIn (Inl err) \<Rightarrow> []
   | FrameIn (Inr (opcode, p)) \<Rightarrow>
       if opcode = 0x9 then [SendPongFrame p]
       else if opcode = 0x1 then (case Option.bind (parse p) dec_command of None \<Rightarrow> [] | Some c \<Rightarrow> [RunCommand c])
       else [])"

definition ws_ending :: "ws_in \<Rightarrow> ws_end" where
  "ws_ending e = (case e of HbTick ok \<Rightarrow> HeartbeatFailed | FrameIn (Inl err) \<Rightarrow> ReadFailure err | FrameIn (Inr x) \<Rightarrow> CleanClose)"

text \<open>
  A session answers each event by itself until the first that ends it: a ping with a pong of the same payload, a
  text frame that is a command with that command, a tick with a heartbeat, a malformed frame with nothing; and it
  ends cleanly exactly on a close frame.
\<close>

theorem cmd_session_reactions:
  "cmdWSSession parse True True es =
     (SendHeartbeat # concat (map (ws_reaction parse) (takeWhile (\<lambda>e. \<not> ws_terminal e) es)),
      case dropWhile (\<lambda>e. \<not> ws_terminal e) es of [] \<Rightarrow> None | e # _ \<Rightarrow> Some (ws_ending e))"
proof -
  have "cmd_loop parse es = (concat (map (ws_reaction parse) (takeWhile (\<lambda>e. \<not> ws_terminal e) es)),
      case dropWhile (\<lambda>e. \<not> ws_terminal e) es of [] \<Rightarrow> None | e # _ \<Rightarrow> Some (ws_ending e))"
    by (induction parse es rule: cmd_loop.induct)
      (auto simp: ws_terminal_def ws_reaction_def ws_ending_def Let_def split: prod.splits option.splits)
  then show ?thesis by (simp add: cmdWSSession_def)
qed

definition agent_inv :: "agent \<Rightarrow> bool" where
  "agent_inv ag \<longleftrightarrow> streams_inv (ag_streams ag) \<and> chats_inv (ag_chats ag)"

lemma notify_user_simps [simp]:
  "ag_streams (notify_user ag t u c) = ag_streams ag" "ag_chats (notify_user ag t u c) = ag_chats ag"
  by (simp_all add: notify_user_def)

lemma chat_forwards_inv:
  assumes "chats_inv s"
  shows "chats_inv (forwardRemoteRequest s t x)" "chats_inv (forwardChatTyping s t)" "chats_inv (forwardChatFile s t p)"
  using assms by (simp_all add: forwardRemoteRequest_def forwardChatTyping_def forwardChatFile_def chat_forward_inv)

lemma handleCommand_inv:
  assumes "agent_inv ag"
  shows "agent_inv (handleCommand m u ag cmd)"
  using assms
  by (auto simp: agent_inv_def handleCommand_def open_remote_tunnel_def close_remote_tunnel_def update_command_def
      open_chat_def Let_def startStream_inv stopStream_inv startChat_inv stopChat_inv forwardChatMessage_inv
      chat_forwards_inv)

text \<open>
  A tunnel that was opened can be closed: from every state the agent reaches by commands, after an open that
  started a stream, the close with the same token stops exactly that stream and frees the token.
\<close>

theorem open_close_tunnel:
  fixes cmds :: "command list" and m :: machine and u :: string
  defines "ag \<equiv> foldl (handleCommand m u) new_agent cmds"
  assumes opens: "cmd_Type c1 = ''open_remote_tunnel''" "payloadString (cmd_Payload c1) ''sessionToken'' = token" "token \<noteq> []"
    and started: "snd (startStream m u (ag_streams ag) token (payload_session (cmd_Payload c1))) = None"
    and closes: "cmd_Type c2 = ''close_remote_tunnel''" "payloadString (cmd_Payload c2) ''sessionToken'' = token"
  defines "ag1 \<equiv> handleCommand m u ag c1"
  defines "ag2 \<equiv> handleCommand m u ag1 c2"
  shows "\<exists>a. map_of (sg_active (ag_streams ag1)) token = Some a \<and> \<not> st_stopped (sg_heap (ag_streams ag1) ! a)
    \<and> st_stopped (sg_heap (ag_streams ag2) ! a) \<and> map_of (sg_active (ag_streams ag2)) token = None
    \<and> (\<forall>b. b \<noteq> a \<longrightarrow> sg_heap (ag_streams ag2) ! b = sg_heap (ag_streams ag1) ! b)"
proof -
  have step: "agent_inv (foldl (handleCommand m u) x cs)" if "agent_inv x" for x cs
    using that by (induction cs arbitrary: x) (auto simp: handleCommand_inv)
  have "agent_inv new_agent"
    using chat_reach_inv [OF chat_init] by (simp add: agent_inv_def new_agent_def no_streams_inv)
  then have "agent_inv ag" unfolding ag_def by (rule step)
  then have inv: "streams_inv (ag_streams ag1)" unfolding ag1_def using handleCommand_inv by (simp add: agent_inv_def)
  have s1: "ag_streams ag1 = fst (startStream m u (ag_streams ag) token (payload_session (cmd_Payload c1)))"
    using opens by (simp add: ag1_def handleCommand_def open_remote_tunnel_def Let_def)
  have s2: "ag_streams ag2 = stopStream (ag_streams ag1) token"
    using closes opens(3) by (simp add: ag2_def handleCommand_def close_remote_tunnel_def Let_def)
  obtain h s0 where "ag_streams ag1 = store_stream s0 token h"
    using startStream_ok [of m u "ag_streams ag" token "payload_session (cmd_Payload c1)" "ag_streams ag1"] started s1
    by (metis prod.collapse)
  then obtain a where a: "map_of (sg_active (ag_streams ag1)) token = Some a"
    by (simp add: store_stream_def update_conv)
  from stopStream_stops [OF inv a] inv a show ?thesis unfolding s2 by (auto simp: streams_inv_def)
qed

definition demo_open :: command where
  "demo_open = \<lparr>cmd_Type = ''open_remote_tunnel'', cmd_ID = ''1'', cmd_Payload = [(''sessionToken'', JStr ''tok'')]\<rparr>"

definition demo_close :: command where
  "demo_close = \<lparr>cmd_Type = ''close_remote_tunnel'', cmd_ID = ''2'', cmd_Payload = [(''sessionToken'', JStr ''tok'')]\<rparr>"

lemma open_close_tunnel_witness:
  "map_of (sg_active (ag_streams (handleCommand demo_machine ''https://h''
      (handleCommand demo_machine ''https://h'' new_agent demo_open) demo_close))) ''tok'' = None"
proof -
  have 1: "snd (startStream demo_machine ''https://h'' (ag_streams (foldl (handleCommand demo_machine ''https://h'') new_agent []))
      ''tok'' (payload_session (cmd_Payload demo_open))) = None" by code_simp
  have 2: "cmd_Type demo_open = ''open_remote_tunnel''" "payloadString (cmd_Payload demo_open) ''sessionToken'' = ''tok''"
    "cmd_Type demo_close = ''close_remote_tunnel''" "payloadString (cmd_Payload demo_close) ''sessionToken'' = ''tok''"
    by code_simp+
  show ?thesis using open_close_tunnel [OF 2(1,2) _ 1 2(3,4)] by auto
qed

text \<open>
  Commands that are not understood, or that lack what they need, change nothing.
\<close>

definition bad_command :: "agent \<Rightarrow> command \<Rightarrow> bool" where
  "bad_command ag c \<longleftrightarrow>
     (let ty = cmd_Type c; p = cmd_Payload c in
      ty \<notin> {''open_remote_tunnel'', ''close_remote_tunnel'', ''update'', ''open_chat'', ''chat_message'', ''close_chat'',
             ''request_remote'', ''chat_typing'', ''chat_file''}
      \<or> (ty \<in> {''open_remote_tunnel'', ''close_remote_tunnel''} \<and> payloadString p ''sessionToken'' = [])
      \<or> (ty = ''update'' \<and> payloadString p ''url'' = [])
      \<or> (ty = ''open_chat'' \<and> payloadString p ''chatId'' = [])
      \<or> (ty \<in> {''close_chat'', ''request_remote'', ''chat_typing'', ''chat_file''}
          \<and> map_of (ch_active (ag_chats ag)) (payloadString p ''chatId'') = None))"

theorem bad_command_ignored:
  assumes "bad_command ag c"
  shows "handleCommand m u ag c = ag"
  using assms unfolding bad_command_def Let_def
  by (elim disjE conjE insertE emptyE)
    (simp_all add: handleCommand_def Let_def open_remote_tunnel_def close_remote_tunnel_def update_command_def
      open_chat_def stopChat_def forwardRemoteRequest_def forwardChatTyping_def forwardChatFile_def chat_forward_def)

lemma bad_command_ignored_witness:
  "handleCommand demo_machine ''u'' new_agent \<lparr>cmd_Type = ''reboot'', cmd_ID = ''7'', cmd_Payload = []\<rparr> = new_agent"
  by (rule bad_command_ignored) code_simp

text \<open>
  A chat message without a chat id is not refused: the agent orders a helper for the empty id, which registers a
  chat that no helper will ever join, since the helper started for it exits with its usage message.
\<close>

theorem message_without_chat_id:
  assumes "cmd_Type c = ''chat_message''" "payloadString (cmd_Payload c) ''chatId'' = []"
    and "map_of (ch_active (ag_chats ag)) [] = None"
    and "map_of (ch_last (ag_chats ag)) [] = None"
    and "fl_notifyTitle f = []" "fl_chatHelper f" "fl_chatID f = []"
  shows "ch_tasks (ag_chats (handleCommand m u ag c)) = ch_tasks (ag_chats ag)
      @ [Respawn [] (payloadString (cmd_Payload c) ''operatorName'') [] (- 1)
           (operator_message (payloadString (cmd_Payload c) ''operatorName'') (payloadString (cmd_Payload c) ''message'')
              (payload_timestamp (cmd_Payload c)))]
    \<and> (\<exists>e. agent_main f = UsageExit e)"
  using assms by (simp add: handleCommand_def Let_def forwardChatMessage_def respawn_task_def agent_main_def)

lemma message_without_chat_id_witness:
  "length (ch_tasks (ag_chats (handleCommand demo_machine ''u'' new_agent
      \<lparr>cmd_Type = ''chat_message'', cmd_ID = [], cmd_Payload = []\<rparr>))) = 1"
proof -
  let ?c = "\<lparr>cmd_Type = ''chat_message'', cmd_ID = [], cmd_Payload = []\<rparr>"
  let ?f = "\<lparr>fl_url = [], fl_key = [], fl_captureHelper = False, fl_addr = ''a'', fl_notifyTitle = [], fl_notifyMsg = [],
     fl_notifyTimeout = 8, fl_chatHelper = True, fl_chatID = [], fl_operator = []\<rparr>"
  have 1: "cmd_Type ?c = ''chat_message''" "payloadString (cmd_Payload ?c) ''chatId'' = []"
    "map_of (ch_active (ag_chats new_agent)) [] = None" "map_of (ch_last (ag_chats new_agent)) [] = None"
    "fl_notifyTitle ?f = []" "fl_chatHelper ?f" "fl_chatID ?f = []"
    by (simp_all add: payloadString_def map_get_def new_agent_def no_chats_def)
  from message_without_chat_id [OF 1, of demo_machine "''u''"] show ?thesis
    by (simp add: new_agent_def no_chats_def)
qed

end
