(* ===== verification/Input.thy ===== *)
theory Input
  imports Json
begin

text \<open>
  Remote input: the messages of the browser (\<open>dispatchInputJSON\<close> and \<open>codeToVK\<close> of agent/stream.go) and what each
  platform makes of them (agent/input_linux.go, agent/input_darwin.go, agent/input_windows.go and the stub
  agent/input_stub.go), as the events handed to the window system.
\<close>

section \<open>Runes\<close>

text \<open>
  The conversion \<open>[]rune(s)\<close>: UTF-8 with U+FFFD for a byte that begins no valid sequence.
\<close>

definition cont_byte :: "nat \<Rightarrow> nat \<Rightarrow> nat \<Rightarrow> bool" where
  "cont_byte lo hi b \<longleftrightarrow> lo \<le> b \<and> b \<le> hi"

definition second_range :: "nat \<Rightarrow> nat \<times> nat" where
  "second_range b =
     (if b = 0xE0 then (0xA0, 0xBF) else if b = 0xED then (0x80, 0x9F)
      else if b = 0xF0 then (0x90, 0xBF) else if b = 0xF4 then (0x80, 0x8F) else (0x80, 0xBF))"

definition seq_length :: "nat \<Rightarrow> nat" where
  "seq_length b =
     (if b < 0x80 then 1 else if 0xC2 \<le> b \<and> b \<le> 0xDF then 2 else if 0xE0 \<le> b \<and> b \<le> 0xEF then 3
      else if 0xF0 \<le> b \<and> b \<le> 0xF4 then 4 else 0)"

definition valid_seq :: "nat list \<Rightarrow> bool" where
  "valid_seq bs =
     (case bs of
        b # b2 # rest \<Rightarrow> cont_byte (fst (second_range b)) (snd (second_range b)) b2 \<and> list_all (cont_byte 0x80 0xBF) rest
      | _ \<Rightarrow> True)"

definition seq_rune :: "nat list \<Rightarrow> nat" where
  "seq_rune bs =
     (case bs of
        [] \<Rightarrow> 0xFFFD
      | b # rest \<Rightarrow>
          foldl (\<lambda>r c. r * 64 + c mod 64)
            (if length bs = 1 then b else if length bs = 2 then b mod 32 else if length bs = 3 then b mod 16 else b mod 8)
            rest)"

fun runes_of :: "nat list \<Rightarrow> nat list" where
  "runes_of [] = []"
| "runes_of (b # bs) =
     (let n = seq_length b; s = b # take (n - 1) bs in
      if n = 0 \<or> length s < n \<or> \<not> valid_seq s then 0xFFFD # runes_of bs
      else seq_rune s # runes_of (drop (n - 1) bs))"

definition runes :: "string \<Rightarrow> nat list" where
  "runes s = runes_of (map of_char s)"

lemma runes_ascii: "of_char c < (0x80 :: nat) \<Longrightarrow> runes [c] = [of_char c]"
  by (simp add: runes_def seq_length_def valid_seq_def seq_rune_def)

section \<open>The messages\<close>

text \<open>The calls of the input backend; a button carries the position, a key the code and whether it goes down.\<close>

datatype input_call =
    InMove int int
  | InButton int bool int int
  | InScroll int
  | InKey int bool
  | InSAS

definition code_table :: "(string \<times> int) list" where
  "code_table =
    [(''KeyA'', 0x41), (''KeyB'', 0x42), (''KeyC'', 0x43), (''KeyD'', 0x44), (''KeyE'', 0x45),
     (''KeyF'', 0x46), (''KeyG'', 0x47), (''KeyH'', 0x48), (''KeyI'', 0x49), (''KeyJ'', 0x4A),
     (''KeyK'', 0x4B), (''KeyL'', 0x4C), (''KeyM'', 0x4D), (''KeyN'', 0x4E), (''KeyO'', 0x4F),
     (''KeyP'', 0x50), (''KeyQ'', 0x51), (''KeyR'', 0x52), (''KeyS'', 0x53), (''KeyT'', 0x54),
     (''KeyU'', 0x55), (''KeyV'', 0x56), (''KeyW'', 0x57), (''KeyX'', 0x58), (''KeyY'', 0x59),
     (''KeyZ'', 0x5A),
     (''Digit0'', 0x30), (''Digit1'', 0x31), (''Digit2'', 0x32), (''Digit3'', 0x33), (''Digit4'', 0x34),
     (''Digit5'', 0x35), (''Digit6'', 0x36), (''Digit7'', 0x37), (''Digit8'', 0x38), (''Digit9'', 0x39),
     (''Space'', 0x20), (''Enter'', 0x0D), (''Backspace'', 0x08), (''Tab'', 0x09), (''Escape'', 0x1B),
     (''Delete'', 0x2E), (''Insert'', 0x2D), (''Home'', 0x24), (''End'', 0x23), (''PageUp'', 0x21),
     (''PageDown'', 0x22), (''ArrowLeft'', 0x25), (''ArrowUp'', 0x26), (''ArrowRight'', 0x27),
     (''ArrowDown'', 0x28), (''ShiftLeft'', 0x10), (''ShiftRight'', 0x10), (''ControlLeft'', 0x11),
     (''ControlRight'', 0x11), (''AltLeft'', 0x12), (''AltRight'', 0x12), (''MetaLeft'', 0x5B),
     (''MetaRight'', 0x5C),
     (''F1'', 0x70), (''F2'', 0x71), (''F3'', 0x72), (''F4'', 0x73), (''F5'', 0x74), (''F6'', 0x75),
     (''F7'', 0x76), (''F8'', 0x77), (''F9'', 0x78), (''F10'', 0x79), (''F11'', 0x7A), (''F12'', 0x7B),
     (''Minus'', 0xBD), (''Equal'', 0xBB), (''BracketLeft'', 0xDB), (''BracketRight'', 0xDD),
     (''Backslash'', 0xDC), (''Semicolon'', 0xBA), (''Quote'', 0xDE), (''Comma'', 0xBC),
     (''Period'', 0xBE), (''Slash'', 0xBF), (''Backquote'', 0xC0), (''CapsLock'', 0x14),
     (''NumLock'', 0x90), (''ScrollLock'', 0x91)]"

definition codeToVK :: "string \<Rightarrow> int" where
  "codeToVK code = (case map_of code_table code of Some vk \<Rightarrow> vk | None \<Rightarrow> 0)"

text \<open>The decoded message; a field of the wrong type makes the whole decoding fail.\<close>

record input_msg =
  im_Type :: string
  im_Action :: string
  im_X :: gofloat
  im_Y :: gofloat
  im_Button :: int
  im_Delta :: gofloat
  im_Code :: string
  im_Key :: string
  im_Shift :: bool

definition dec_input :: "json \<Rightarrow> input_msg option" where
  "dec_input j =
     (case dec_struct j of
        None \<Rightarrow> None
      | Some kvs \<Rightarrow>
          (let (ty, k1) = dec_string ''type'' kvs; (ac, k2) = dec_string ''action'' kvs;
               (x, k3) = dec_float ''x'' kvs; (y, k4) = dec_float ''y'' kvs;
               (b, k5) = dec_int ''button'' kvs; (d, k6) = dec_float ''delta'' kvs;
               (c, k7) = dec_string ''code'' kvs; (k, k8) = dec_string ''key'' kvs;
               (ct, k9) = dec_bool ''ctrl'' kvs; (sh, k10) = dec_bool ''shift'' kvs;
               (al, k11) = dec_bool ''alt'' kvs; (me, k12) = dec_bool ''meta'' kvs;
               (wi, k13) = dec_int ''width'' kvs; (he, k14) = dec_int ''height'' kvs
           in if k1 \<and> k2 \<and> k3 \<and> k4 \<and> k5 \<and> k6 \<and> k7 \<and> k8 \<and> k9 \<and> k10 \<and> k11 \<and> k12 \<and> k13 \<and> k14
              then Some \<lparr>im_Type = ty, im_Action = ac, im_X = x, im_Y = y, im_Button = b, im_Delta = d,
                         im_Code = c, im_Key = k, im_Shift = sh\<rparr>
              else None))"

text \<open>
  The calls of a key message; \<open>vkFromKey\<close> is the \<open>inputVKFromKey\<close> of the platform, the key code and the modifiers.
\<close>

definition key_calls :: "(string \<Rightarrow> int \<times> int) \<Rightarrow> input_msg \<Rightarrow> input_call list" where
  "key_calls vkFromKey msg =
     (let down = (im_Action msg = ''down'');
          (vk, mods) = (if length (runes (im_Key msg)) = 1 then vkFromKey (im_Key msg) else (0, 0));
          shift = down \<and> mods AND 1 \<noteq> 0 \<and> \<not> im_Shift msg in
      if vk \<noteq> 0 then
        (if shift then [InKey 0x10 True] else []) @ [InKey vk down] @ (if shift then [InKey 0x10 False] else [])
      else (let vk' = codeToVK (im_Code msg) in if vk' \<noteq> 0 then [InKey vk' down] else []))"

definition input_calls :: "(string \<Rightarrow> int \<times> int) \<Rightarrow> input_msg \<Rightarrow> input_call list" where
  "input_calls vkFromKey msg =
     (if im_Type msg = ''mouse'' then
        (let x = int_of_float (im_X msg); y = int_of_float (im_Y msg) in
         if im_Action msg = ''move'' then [InMove x y]
         else if im_Action msg = ''down'' then [InButton (im_Button msg) True x y]
         else if im_Action msg = ''up'' then [InButton (im_Button msg) False x y]
         else if im_Action msg = ''scroll'' then [InScroll (int_of_float (im_Delta msg))]
         else [])
      else if im_Type msg = ''key'' then key_calls vkFromKey msg
      else if im_Type msg = ''sas'' then [InSAS]
      else [])"

definition dispatchInputJSON :: "(string \<Rightarrow> int \<times> int) \<Rightarrow> json option \<Rightarrow> input_call list" where
  "dispatchInputJSON vkFromKey payload =
     (case payload of None \<Rightarrow> [] | Some j \<Rightarrow> (case dec_input j of None \<Rightarrow> [] | Some msg \<Rightarrow> input_calls vkFromKey msg))"

end
