(* ===== verification/Input_Backends.thy ===== *)
theory Input_Backends
  imports Input
begin

text \<open>
  The input backends: agent/input_linux.go, agent/input_darwin.go, agent/input_windows.go and agent/input_stub.go.
  The result of a call is the list of events given to the window system.
\<close>

section \<open>State and events\<close>

text \<open>The monitor offset, and on Windows the cached virtual screen (size, origin), its mode and the input block.\<close>

record input_state =
  in_monX :: int
  in_monY :: int
  in_vs :: "(int \<times> int \<times> int \<times> int) option"
  in_multi :: bool
  in_blocked :: bool

definition new_input :: input_state where
  "new_input = \<lparr>in_monX = 0, in_monY = 0, in_vs = None, in_multi = False, in_blocked = False\<rparr>"

datatype mac_button = MacLeft | MacRight | MacCenter

datatype os_event =
    X11Motion int int
  | X11Button nat bool
  | X11Key int bool
  | MacMove int int
  | MacButton mac_button bool int int
  | MacScroll int
  | MacKey int bool
  | WinMove bool int int
  | WinButton bool "nat option" bool int int
  | WinWheel int
  | WinKey nat bool
  | WinSAS
  | WinBlock bool

section \<open>Linux\<close>

definition keysym_table :: "(int \<times> int) list" where
  "keysym_table =
    [(0x08, 0xFF08), (0x09, 0xFF09), (0x0D, 0xFF0D), (0x10, 0xFFE1), (0x11, 0xFFE3), (0x12, 0xFFE9),
     (0x14, 0xFFE5), (0x1B, 0xFF1B), (0x20, 0x0020), (0x21, 0xFF55), (0x22, 0xFF56), (0x23, 0xFF57),
     (0x24, 0xFF50), (0x25, 0xFF51), (0x26, 0xFF52), (0x27, 0xFF53), (0x28, 0xFF54), (0x2D, 0xFF63),
     (0x2E, 0xFFFF), (0x5B, 0xFFEB)]"

definition vkToKeysym :: "int \<Rightarrow> int" where
  "vkToKeysym vk =
     (case map_of keysym_table vk of
        Some ks \<Rightarrow> ks
      | None \<Rightarrow>
          (if 0x41 \<le> vk \<and> vk \<le> 0x5A then vk + 0x20
           else if 0x30 \<le> vk \<and> vk \<le> 0x39 then vk
           else if 0x70 \<le> vk \<and> vk \<le> 0x7B then 0xFFBE + (vk - 0x70)
           else 0))"

definition lx_keysym_from_char :: "nat \<Rightarrow> int" where
  "lx_keysym_from_char ch =
     (if 0x20 \<le> ch \<and> ch \<le> 0x7E then int ch
      else if 0x100 \<le> ch then 0x01000000 OR int ch
      else 0)"

definition lx_vkFromKey :: "string \<Rightarrow> int \<times> int" where
  "lx_vkFromKey key =
     (case runes key of
        [r] \<Rightarrow> (let ks = lx_keysym_from_char r in if ks = 0 then (0, 0) else (ks, 0))
      | _ \<Rightarrow> (0, 0))"

definition lx_mouse_button :: "int \<Rightarrow> bool \<Rightarrow> os_event" where
  "lx_mouse_button button down = X11Button (if button = 1 then 3 else if button = 2 then 2 else 1) down"

definition lx_mouse_scroll :: "int \<Rightarrow> os_event list" where
  "lx_mouse_scroll delta =
     (let btn = (if 0 < delta then 4 else 5); n = nat (wrap32 \<bar>delta\<bar>) in
      concat (replicate n [X11Button btn True, X11Button btn False]))"

text \<open>The display opens or not; \<open>keycode\<close> tells which keysyms have a key code.\<close>

definition lx_events :: "bool \<Rightarrow> (int \<Rightarrow> bool) \<Rightarrow> input_state \<Rightarrow> input_call \<Rightarrow> os_event list" where
  "lx_events display keycode s c =
     (let motion = (\<lambda>x y. X11Motion (wrap32 (in_monX s + x)) (wrap32 (in_monY s + y))) in
      if \<not> display then []
      else (case c of
              InMove x y \<Rightarrow> [motion x y]
            | InButton b down x y \<Rightarrow> [motion x y, lx_mouse_button (wrap32 b) down]
            | InScroll d \<Rightarrow> lx_mouse_scroll (wrap32 d)
            | InKey vk down \<Rightarrow>
                (let ks = vkToKeysym vk in if ks = 0 \<or> \<not> keycode ks then [] else [X11Key ks down])
            | InSAS \<Rightarrow> []))"

section \<open>macOS\<close>

definition mac_key_table :: "(int \<times> int) list" where
  "mac_key_table =
    [(0x08, 51), (0x09, 48), (0x0D, 36), (0x1B, 53), (0x20, 49), (0x25, 123), (0x26, 126), (0x27, 124),
     (0x28, 125), (0x2E, 117), (0x24, 115), (0x23, 119), (0x21, 116), (0x22, 121), (0x70, 122), (0x71, 120),
     (0x72, 99), (0x73, 118), (0x74, 96), (0x75, 97), (0x76, 98), (0x77, 100), (0x78, 101), (0x79, 109),
     (0x7A, 103), (0x7B, 111), (0x10, 56), (0x11, 59), (0x12, 58), (0x5B, 55)]"

definition mac_qwerty :: "(int \<times> int) list" where
  "mac_qwerty =
    [(0x41, 0), (0x42, 11), (0x43, 8), (0x44, 2), (0x45, 14), (0x46, 3), (0x47, 5), (0x48, 4), (0x49, 34),
     (0x4A, 38), (0x4B, 40), (0x4C, 37), (0x4D, 46), (0x4E, 45), (0x4F, 31), (0x50, 35), (0x51, 12),
     (0x52, 15), (0x53, 1), (0x54, 17), (0x55, 32), (0x56, 9), (0x57, 13), (0x58, 7), (0x59, 16), (0x5A, 6)]"

definition mac_digits :: "(int \<times> int) list" where
  "mac_digits =
    [(0x30, 29), (0x31, 18), (0x32, 19), (0x33, 20), (0x34, 21), (0x35, 23), (0x36, 22), (0x37, 26),
     (0x38, 28), (0x39, 25)]"

definition vkToMacKeycode :: "int \<Rightarrow> int" where
  "vkToMacKeycode vk =
     (case map_of mac_key_table vk of
        Some kc \<Rightarrow> kc
      | None \<Rightarrow> (case map_of mac_qwerty vk of
                  Some kc \<Rightarrow> kc
                | None \<Rightarrow> (case map_of mac_digits vk of Some kc \<Rightarrow> kc | None \<Rightarrow> - 1)))"

definition mac_vkFromKey :: "string \<Rightarrow> int \<times> int" where
  "mac_vkFromKey key = (case runes key of [r] \<Rightarrow> (int r, 0) | _ \<Rightarrow> (0, 0))"

definition mac_mouse_button :: "int \<Rightarrow> bool \<Rightarrow> int \<Rightarrow> int \<Rightarrow> os_event" where
  "mac_mouse_button button down x y =
     MacButton (if button = 0 then MacLeft else if button = 1 then MacRight else MacCenter) down x y"

definition mac_events :: "input_state \<Rightarrow> input_call \<Rightarrow> os_event list" where
  "mac_events s c =
     (let px = (\<lambda>x. wrap32 (in_monX s + x)); py = (\<lambda>y. wrap32 (in_monY s + y)) in
      case c of
        InMove x y \<Rightarrow> [MacMove (px x) (py y)]
      | InButton b down x y \<Rightarrow> [MacMove (px x) (py y), mac_mouse_button (wrap32 b) down (px x) (py y)]
      | InScroll d \<Rightarrow> [MacScroll (wrap32 d)]
      | InKey vk down \<Rightarrow> (let kc = vkToMacKeycode vk in if kc < 0 then [] else [MacKey kc down])
      | InSAS \<Rightarrow> [])"

section \<open>Windows\<close>

text \<open>The metrics of the virtual screen (size, origin) and of the primary screen.\<close>

record screen_metrics =
  sm_virtual :: "int \<times> int \<times> int \<times> int"
  sm_primary :: "int \<times> int"

definition refreshVirtualScreenCache :: "screen_metrics \<Rightarrow> input_state \<Rightarrow> input_state" where
  "refreshVirtualScreenCache sm s =
     (case sm_virtual sm of (vw, vh, vox, voy) \<Rightarrow>
        s\<lparr>in_vs := Some (vw, vh, vox, voy),
          in_multi := (fst (sm_primary sm) < vw \<or> snd (sm_primary sm) < vh \<or> vox \<noteq> 0 \<or> voy \<noteq> 0)\<rparr>)"

text \<open>A coordinate on the scale 0..65535, in C \<open>int\<close> arithmetic.\<close>

definition abs_coord :: "int \<Rightarrow> int \<Rightarrow> int" where
  "abs_coord extent x = go_div (wrap32 (x * 65535)) (if 1 < extent then extent - 1 else 1)"

definition win_button :: "int \<Rightarrow> nat option" where
  "win_button b = (if b = 0 then Some 0 else if b = 1 then Some 1 else if b = 2 then Some 2 else None)"

definition win_position :: "input_state \<Rightarrow> int \<Rightarrow> int \<Rightarrow> int \<times> int" where
  "win_position s x y =
     (case in_vs s of
        None \<Rightarrow> (0, 0)
      | Some (vw, vh, vox, voy) \<Rightarrow>
          (abs_coord (wrap32 vw) (wrap32 (in_monX s + x - vox)), abs_coord (wrap32 vh) (wrap32 (in_monY s + y - voy))))"

definition win_events :: "screen_metrics \<Rightarrow> bool \<Rightarrow> input_state \<Rightarrow> input_call \<Rightarrow> input_state \<times> os_event list" where
  "win_events sm sas s c =
     (let cached = (if in_vs s = None then refreshVirtualScreenCache sm s else s) in
      case c of
        InMove x y \<Rightarrow> (case win_position cached x y of (dx, dy) \<Rightarrow> (cached, [WinMove (in_multi cached) dx dy]))
      | InButton b down x y \<Rightarrow>
          (case win_position cached x y of (dx, dy) \<Rightarrow>
             (cached, [WinButton (in_multi cached) (win_button (wrap32 b)) down dx dy]))
      | InScroll d \<Rightarrow> (s, [WinWheel (wrap32 (wrap32 d * 120))])
      | InKey vk down \<Rightarrow> (s, [WinKey (nat (vk mod 65536)) down])
      | InSAS \<Rightarrow> (s, if sas then [WinSAS] else []))"

text \<open>\<open>VkKeyScanW\<close> is a parameter: the code in the low byte, the modifiers in the next, -1 for no key.\<close>

definition vk_from_char :: "(nat \<Rightarrow> int) \<Rightarrow> nat \<Rightarrow> int" where
  "vk_from_char scan ch = (if scan ch = - 1 then 0 else scan ch AND 0xFF)"

definition vk_mods_from_char :: "(nat \<Rightarrow> int) \<Rightarrow> nat \<Rightarrow> int" where
  "vk_mods_from_char scan ch = (if scan ch = - 1 then 0 else drop_bit 8 (scan ch) AND 0x07)"

definition win_vkFromKey :: "(nat \<Rightarrow> int) \<Rightarrow> string \<Rightarrow> int \<times> int" where
  "win_vkFromKey scan key =
     (case runes key of
        [r] \<Rightarrow> (vk_from_char scan (r mod 65536), vk_mods_from_char scan (r mod 65536))
      | _ \<Rightarrow> (0, 0))"

section \<open>The backend of a platform\<close>

text \<open>What the backends ask the system.\<close>

record input_env =
  ie_display :: bool
  ie_keycode :: "int \<Rightarrow> bool"
  ie_metrics :: screen_metrics
  ie_sas :: bool
  ie_scan :: "nat \<Rightarrow> int"

fun inputVKFromKey :: "platform \<Rightarrow> input_env \<Rightarrow> string \<Rightarrow> int \<times> int" where
  "inputVKFromKey (Windows tag) e key = win_vkFromKey (ie_scan e) key"
| "inputVKFromKey Linux e key = lx_vkFromKey key"
| "inputVKFromKey Darwin e key = mac_vkFromKey key"
| "inputVKFromKey OtherOS e key = (0, 0)"

fun input_call_events :: "platform \<Rightarrow> input_env \<Rightarrow> input_state \<Rightarrow> input_call \<Rightarrow> input_state \<times> os_event list" where
  "input_call_events (Windows tag) e s c = win_events (ie_metrics e) (ie_sas e) s c"
| "input_call_events Linux e s c = (s, lx_events (ie_display e) (ie_keycode e) s c)"
| "input_call_events Darwin e s c = (s, mac_events s c)"
| "input_call_events OtherOS e s c = (s, [])"

fun run_calls :: "platform \<Rightarrow> input_env \<Rightarrow> input_state \<Rightarrow> input_call list \<Rightarrow> input_state \<times> os_event list" where
  "run_calls p e s [] = (s, [])"
| "run_calls p e s (c # cs) =
     (let (s1, ev1) = input_call_events p e s c; (s2, ev2) = run_calls p e s1 cs in (s2, ev1 @ ev2))"

fun setInputMonitorOffset :: "platform \<Rightarrow> input_env \<Rightarrow> int \<Rightarrow> int \<Rightarrow> input_state \<Rightarrow> input_state" where
  "setInputMonitorOffset (Windows tag) e x y s =
     refreshVirtualScreenCache (ie_metrics e) (s\<lparr>in_monX := x, in_monY := y\<rparr>)"
| "setInputMonitorOffset OtherOS e x y s = s"
| "setInputMonitorOffset p e x y s = s\<lparr>in_monX := x, in_monY := y\<rparr>"

definition inputBlock :: "platform \<Rightarrow> bool \<Rightarrow> input_state \<Rightarrow> input_state \<times> os_event list" where
  "inputBlock p block s = (if is_windows p then (s\<lparr>in_blocked := block\<rparr>, [WinBlock block]) else (s, []))"

definition inputUnblock :: "platform \<Rightarrow> input_state \<Rightarrow> input_state \<times> os_event list" where
  "inputUnblock p s =
     (if is_windows p \<and> in_blocked s then (s\<lparr>in_blocked := False\<rparr>, [WinBlock False]) else (s, []))"

text \<open>A whole message: parsed, dispatched and carried out.\<close>

definition handle_input :: "platform \<Rightarrow> input_env \<Rightarrow> json option \<Rightarrow> input_state \<Rightarrow> input_state \<times> os_event list" where
  "handle_input p e payload s = run_calls p e s (dispatchInputJSON (inputVKFromKey p e) payload)"

end
