(* ===== verification/Input_Props.thy ===== *)
theory Input_Props
  imports Input_Backends
begin

text \<open>Properties of the input backends: what letters, buttons and coordinates become on each platform.\<close>

section \<open>Keys\<close>

lemma key_calls_unshifted:
  assumes "im_Key msg = [c]" "of_char c < (0x80 :: nat)" "vkFromKey [c] = (vk, 0)" "vk \<noteq> 0"
  shows "key_calls vkFromKey msg = [InKey vk (im_Action msg = ''down'')]"
  using assms runes_ascii [of c] by (simp add: key_calls_def)

lemma lx_letter_keysym:
  assumes "0x61 \<le> n" "n \<le> (0x7A :: int)"
  shows "vkToKeysym n = (if n < 0x70 then 0 else 0xFFBE + (n - 0x70))"
  using assms by (auto simp: vkToKeysym_def keysym_table_def)

lemma mac_letter_keycode:
  assumes "0x61 \<le> n" "n < (0x70 :: int)"
  shows "vkToMacKeycode n = - 1"
  using assms by (auto simp: vkToMacKeycode_def mac_key_table_def mac_qwerty_def mac_digits_def)

lemma mac_function_keys:
  "list_all (\<lambda>k. vkToMacKeycode (0x70 + int k) = [122, 120, 99, 118, 96, 97, 98, 100, 101, 109, 103] ! k
     \<and> 0 \<le> vkToMacKeycode (0x70 + int k)) [0..<11]"
  by code_simp

lemma letter_events:
  assumes "im_Type msg = ''key''" "im_Key msg = [c]" "of_char c = n" "0x61 \<le> n" "n \<le> 0x7A"
  shows "snd (run_calls Linux e s (input_calls (inputVKFromKey Linux e) msg)) =
      (let ks = 0xFFBE + (int n - 0x70) in
       if 0x70 \<le> n \<and> ie_display e \<and> ie_keycode e ks then [X11Key ks (im_Action msg = ''down'')] else [])"
    and "n < 0x70 \<Longrightarrow> snd (run_calls Darwin e s (input_calls (inputVKFromKey Darwin e) msg)) = []"
    and "0x70 \<le> n \<Longrightarrow> snd (run_calls Darwin e s (input_calls (inputVKFromKey Darwin e) msg)) =
      [MacKey ([122, 120, 99, 118, 96, 97, 98, 100, 101, 109, 103] ! (n - 0x70)) (im_Action msg = ''down'')]"
proof -
  have c: "of_char c < (0x80 :: nat)" using assms by simp
  have r: "runes [c] = [n]" using runes_ascii [OF c] assms(3) by simp
  have lx: "lx_vkFromKey [c] = (int n, 0)" and mac: "mac_vkFromKey [c] = (int n, 0)"
    using assms(4,5) by (simp_all add: lx_vkFromKey_def lx_keysym_from_char_def mac_vkFromKey_def r)
  have calls: "input_calls (inputVKFromKey Linux e) msg = [InKey (int n) (im_Action msg = ''down'')]"
      "input_calls (inputVKFromKey Darwin e) msg = [InKey (int n) (im_Action msg = ''down'')]"
    using key_calls_unshifted [OF assms(2) c, of "inputVKFromKey Linux e" "int n"]
      key_calls_unshifted [OF assms(2) c, of "inputVKFromKey Darwin e" "int n"] lx mac assms(1,4)
    by (auto simp: input_calls_def)
  show "snd (run_calls Linux e s (input_calls (inputVKFromKey Linux e) msg)) =
      (let ks = 0xFFBE + (int n - 0x70) in
       if 0x70 \<le> n \<and> ie_display e \<and> ie_keycode e ks then [X11Key ks (im_Action msg = ''down'')] else [])"
    using assms(4,5) lx_letter_keysym [of "int n"] by (auto simp: calls lx_events_def Let_def)
  show "snd (run_calls Darwin e s (input_calls (inputVKFromKey Darwin e) msg)) = []" if "n < 0x70"
    using assms(4) that mac_letter_keycode [of "int n"] by (simp add: calls mac_events_def)
  show "snd (run_calls Darwin e s (input_calls (inputVKFromKey Darwin e) msg)) =
      [MacKey ([122, 120, 99, 118, 96, 97, 98, 100, 101, 109, 103] ! (n - 0x70)) (im_Action msg = ''down'')]"
    if "0x70 \<le> n"
  proof -
    have k: "n - 0x70 < 11" "int n = 0x70 + int (n - 0x70)" using that assms(5) by simp_all
    then have "vkToMacKeycode (int n) = [122, 120, 99, 118, 96, 97, 98, 100, 101, 109, 103] ! (n - 0x70)
        \<and> 0 \<le> vkToMacKeycode (int n)"
      using mac_function_keys unfolding list_all_iff by (metis atLeast0LessThan atLeast_upt lessThan_iff)
    then show ?thesis by (simp add: calls mac_events_def Let_def)
  qed
qed

text \<open>
  On Linux and macOS a lower-case letter is never typed. The character code is taken for a Windows key code,
  where 0x61 to 0x6F have no entry and 0x70 to 0x7A are the function keys: a to o give no event at all (and the
  physical key is not tried), p to z press F1 to F11.
\<close>
theorem letters_not_typed:
  assumes "im_Type msg = ''key''" "im_Key msg = [c]" "of_char c = n" "0x61 \<le> n" "n \<le> 0x7A"
  shows "snd (run_calls Linux e s (input_calls (inputVKFromKey Linux e) msg)) =
      (let ks = 0xFFBE + (int n - 0x70) in
       if 0x70 \<le> n \<and> ie_display e \<and> ie_keycode e ks then [X11Key ks (im_Action msg = ''down'')] else [])
    \<and> snd (run_calls Darwin e s (input_calls (inputVKFromKey Darwin e) msg)) =
      (if n < 0x70 then []
       else [MacKey ([122, 120, 99, 118, 96, 97, 98, 100, 101, 109, 103] ! (n - 0x70)) (im_Action msg = ''down'')])"
  using letter_events [OF assms] by (auto simp: not_less)

definition demo_key :: "string \<Rightarrow> string \<Rightarrow> input_msg" where
  "demo_key key code = \<lparr>im_Type = ''key'', im_Action = ''down'', im_X = float_of_int 0, im_Y = float_of_int 0,
     im_Button = 0, im_Delta = float_of_int 0, im_Code = code, im_Key = key, im_Shift = False\<rparr>"

definition demo_input_env :: input_env where
  "demo_input_env = \<lparr>ie_display = True, ie_keycode = (\<lambda>k. True),
     ie_metrics = \<lparr>sm_virtual = (1920, 1080, 0, 0), sm_primary = (1920, 1080)\<rparr>, ie_sas = False, ie_scan = (\<lambda>c. - 1)\<rparr>"

lemma letters_not_typed_witness:
  "snd (run_calls Linux demo_input_env new_input
      (input_calls (inputVKFromKey Linux demo_input_env) (demo_key ''a'' ''KeyA''))) = []
   \<and> snd (run_calls Linux demo_input_env new_input
      (input_calls (inputVKFromKey Linux demo_input_env) (demo_key ''q'' ''KeyQ''))) = [X11Key 0xFFBF True]
   \<and> snd (run_calls Darwin demo_input_env new_input
      (input_calls (inputVKFromKey Darwin demo_input_env) (demo_key ''q'' ''KeyQ''))) = [MacKey 120 True]"
  using letters_not_typed [where msg = "demo_key ''a'' ''KeyA''" and c = "CHR ''a''" and n = "0x61"
      and e = demo_input_env and s = new_input]
    letters_not_typed [where msg = "demo_key ''q'' ''KeyQ''" and c = "CHR ''q''" and n = "0x71"
      and e = demo_input_env and s = new_input]
    letters_not_typed [where msg = "demo_key ''q'' ''KeyQ''" and c = "CHR ''q''" and n = "0x71"
      and e = demo_input_env and s = new_input]
  by (simp add: demo_key_def demo_input_env_def)

section \<open>Buttons\<close>

text \<open>
  The buttons of the browser (0 left, 1 middle, 2 right) are the same three on Windows; on Linux and macOS the
  middle and the right button are exchanged, so that a right click is a middle click.
\<close>
theorem buttons_by_platform:
  "map win_button [0, 1, 2] = [Some 0, Some 1, Some 2]
   \<and> map (\<lambda>b. lx_mouse_button b down) [0, 1, 2] = [X11Button 1 down, X11Button 3 down, X11Button 2 down]
   \<and> map (\<lambda>b. mac_mouse_button b down x y) [0, 1, 2]
       = [MacButton MacLeft down x y, MacButton MacRight down x y, MacButton MacCenter down x y]"
  by (simp add: win_button_def lx_mouse_button_def mac_mouse_button_def)

section \<open>Coordinates on Windows\<close>

lemma abs_coord_facts:
  assumes "1 < extent" "extent \<le> 32769" "0 \<le> x" "x < extent"
  shows "0 \<le> abs_coord extent x \<and> abs_coord extent x \<le> 65535"
    and "x \<le> y \<Longrightarrow> y < extent \<Longrightarrow> abs_coord extent x \<le> abs_coord extent y"
    and "abs_coord extent 0 = 0 \<and> abs_coord extent (extent - 1) = 65535"
proof -
  have eq: "abs_coord extent z = z * 65535 div (extent - 1)" if "0 \<le> z" "z < extent" for z
    using that assms(1,2) by (simp add: abs_coord_def wrap32_id)
  have "x * 65535 div (extent - 1) \<le> (extent - 1) * 65535 div (extent - 1)"
    using assms by (intro zdiv_mono1) auto
  also have "\<dots> = 65535" using assms(1) nonzero_mult_div_cancel_left [of "extent - 1" 65535] by simp
  finally show "0 \<le> abs_coord extent x \<and> abs_coord extent x \<le> 65535"
    using assms by (simp add: eq pos_imp_zdiv_nonneg_iff)
  show "abs_coord extent x \<le> abs_coord extent y" if "x \<le> y" "y < extent"
    using assms that by (simp add: eq zdiv_mono1)
  show "abs_coord extent 0 = 0 \<and> abs_coord extent (extent - 1) = 65535"
    using assms nonzero_mult_div_cancel_left [of "extent - 1" 65535] by (simp add: eq)
qed

text \<open>
  On a virtual screen of up to 32,769 pixels the coordinate sent to Windows lies in 0..65535 for every pixel
  of the screen, keeps the order of the pixels, and maps the first and the last pixel to the two ends.
\<close>
theorem abs_coord_bounds:
  assumes "1 < extent" "extent \<le> 32769" "0 \<le> x" "x \<le> y" "y < extent"
  shows "0 \<le> abs_coord extent x \<and> abs_coord extent x \<le> abs_coord extent y \<and> abs_coord extent y \<le> 65535
    \<and> abs_coord extent 0 = 0 \<and> abs_coord extent (extent - 1) = 65535"
  using abs_coord_facts(1) [of extent x] abs_coord_facts(1) [of extent y] abs_coord_facts(2) [of extent x y]
    abs_coord_facts(3) [of extent x] assms by simp

lemma abs_coord_bounds_witness:
  "0 \<le> abs_coord 1920 960 \<and> abs_coord 1920 960 \<le> abs_coord 1920 1919 \<and> abs_coord 1920 1919 = 65535"
  using abs_coord_bounds [of 1920 960 1919] by simp

text \<open>Past that size the product leaves 32 bits: the pixel 32,769 gets a negative coordinate.\<close>

lemma abs_coord_overflow: "abs_coord 40000 32769 = - 53687"
  by code_simp

end
