(* ===== verification/Color.thy ===== *)
theory Color
  imports Prelude "HOL-Library.Monad_Syntax"
begin

text \<open>
  The colour conversions before an encoder: \<open>bgraToI420\<close> (agent/encode_openh264_windows.go), which the
  OpenH264, VP9, H.265 and AV1 encoders use, \<open>bgra_to_i420\<close> (the C code of agent/encode_windows.go), which the
  WMF encoder uses, and the swap of \<open>encodeJPEG\<close> (agent/stream.go). Both conversions are loops of byte reads
  and writes; an access outside of a buffer is \<open>None\<close> (a panic in Go, undefined behaviour in C).
\<close>

section \<open>Loops and buffers\<close>

text \<open>The loop \<open>for i := 0; i < n; i++\<close> over a body that may fail.\<close>

primrec for_loop :: "nat \<Rightarrow> (nat \<Rightarrow> 's \<Rightarrow> 's option) \<Rightarrow> 's \<Rightarrow> 's option" where
  "for_loop 0 body s = Some s"
| "for_loop (Suc n) body s = do { s' \<leftarrow> for_loop n body s; body n s' }"

definition get_byte :: "bytes \<Rightarrow> nat \<Rightarrow> int option" where
  "get_byte bs i = (if i < length bs then Some (uint (bs ! i)) else None)"

definition put_byte :: "nat \<Rightarrow> int \<Rightarrow> bytes \<Rightarrow> bytes option" where
  "put_byte i v d = (if i < length d then Some (d[i := word_of_int v]) else None)"

section \<open>The arithmetic of a pixel\<close>

definition luma :: "int \<Rightarrow> int \<Rightarrow> int \<Rightarrow> int" where
  "luma b g r = drop_bit 8 (77 * r + 150 * g + 29 * b + 128) + 16"

definition chroma_u :: "int \<Rightarrow> int \<Rightarrow> int \<Rightarrow> int" where
  "chroma_u b g r = drop_bit 8 (- 43 * r - 85 * g + 128 * b + 128) + 128"

definition chroma_v :: "int \<Rightarrow> int \<Rightarrow> int \<Rightarrow> int" where
  "chroma_v b g r = drop_bit 8 (128 * r - 107 * g - 21 * b + 128) + 128"

definition clamp_luma :: "int \<Rightarrow> int" where
  "clamp_luma y = (if y > 235 then 235 else y)"

definition clamp_chroma :: "int \<Rightarrow> int" where
  "clamp_chroma u = (if u < 0 then 0 else if u > 255 then 255 else u)"

text \<open>The mean of one channel over a square of four pixels whose rows start at the two offsets.\<close>

definition mean4 :: "bytes \<Rightarrow> nat \<Rightarrow> nat \<Rightarrow> int option" where
  "mean4 bgra s0 s1 = do {
     a \<leftarrow> get_byte bgra s0; b \<leftarrow> get_byte bgra (s0 + 4);
     c \<leftarrow> get_byte bgra s1; d \<leftarrow> get_byte bgra (s1 + 4);
     Some (drop_bit 2 (a + b + c + d)) }"

section \<open>The conversion in Go\<close>

definition y_pixel :: "bytes \<Rightarrow> nat \<Rightarrow> nat \<Rightarrow> nat \<Rightarrow> bytes \<Rightarrow> bytes option" where
  "y_pixel bgra w row col d = do {
     let off = (row * w + col) * 4;
     b \<leftarrow> get_byte bgra off; g \<leftarrow> get_byte bgra (off + 1); r \<leftarrow> get_byte bgra (off + 2);
     put_byte (row * w + col) (clamp_luma (luma b g r)) d }"

definition uv_pixel :: "bytes \<Rightarrow> nat \<Rightarrow> nat \<Rightarrow> nat \<Rightarrow> nat \<Rightarrow> bytes \<Rightarrow> bytes option" where
  "uv_pixel bgra w h row col d = do {
     let uOff = w * h;
     let vOff = w * h + (w div 2) * (h div 2);
     let s0 = row * 2 * w * 4 + col * 2 * 4;
     let s1 = (row * 2 + 1) * w * 4 + col * 2 * 4;
     b \<leftarrow> mean4 bgra s0 s1; g \<leftarrow> mean4 bgra (s0 + 1) (s1 + 1); r \<leftarrow> mean4 bgra (s0 + 2) (s1 + 2);
     d' \<leftarrow> put_byte (uOff + row * (w div 2) + col) (clamp_chroma (chroma_u b g r)) d;
     put_byte (vOff + row * (w div 2) + col) (clamp_chroma (chroma_v b g r)) d' }"

definition bgraToI420 :: "bytes \<Rightarrow> nat \<Rightarrow> nat \<Rightarrow> bytes \<Rightarrow> bytes option" where
  "bgraToI420 bgra w h dst = do {
     d \<leftarrow> for_loop h (\<lambda>row. for_loop w (y_pixel bgra w row)) dst;
     for_loop (h div 2) (\<lambda>row. for_loop (w div 2) (uv_pixel bgra w h row)) d }"

section \<open>The conversion in C\<close>

text \<open>
  The planes are three pointers into one buffer, at the offsets \<open>encode_frame\<close> passes; a cast to
  \<open>unsigned char\<close> keeps the low eight bits.
\<close>

definition c_y_pixel :: "bytes \<Rightarrow> nat \<Rightarrow> nat \<Rightarrow> nat \<Rightarrow> bytes \<Rightarrow> bytes option" where
  "c_y_pixel bgra w row col d = do {
     let src = row * (w * 4) + col * 4;
     b \<leftarrow> get_byte bgra src; g \<leftarrow> get_byte bgra (src + 1); r \<leftarrow> get_byte bgra (src + 2);
     put_byte (row * w + col) (luma b g r) d }"

definition c_uv_pixel :: "bytes \<Rightarrow> nat \<Rightarrow> nat \<Rightarrow> nat \<Rightarrow> nat \<Rightarrow> nat \<Rightarrow> bytes \<Rightarrow> bytes option" where
  "c_uv_pixel bgra w u_plane v_plane row col d = do {
     let s0 = row * 2 * (w * 4) + col * 2 * 4;
     let s1 = (row * 2 + 1) * (w * 4) + col * 2 * 4;
     b \<leftarrow> mean4 bgra s0 s1; g \<leftarrow> mean4 bgra (s0 + 1) (s1 + 1); r \<leftarrow> mean4 bgra (s0 + 2) (s1 + 2);
     d' \<leftarrow> put_byte (u_plane + row * (w div 2) + col) (chroma_u b g r) d;
     put_byte (v_plane + row * (w div 2) + col) (chroma_v b g r) d' }"

definition bgra_to_i420 :: "bytes \<Rightarrow> nat \<Rightarrow> nat \<Rightarrow> nat \<Rightarrow> nat \<Rightarrow> bytes \<Rightarrow> bytes option" where
  "bgra_to_i420 bgra w h u_plane v_plane dst = do {
     d \<leftarrow> for_loop h (\<lambda>row. for_loop w (c_y_pixel bgra w row)) dst;
     for_loop (h div 2) (\<lambda>row. for_loop (w div 2) (c_uv_pixel bgra w u_plane v_plane row)) d }"

definition i420_size :: "nat \<Rightarrow> nat \<Rightarrow> nat" where
  "i420_size w h = w * h + 2 * (w div 2) * (h div 2)"

text \<open>The conversion as \<open>encode_frame\<close> calls it, into a fresh buffer.\<close>

definition wmf_i420 :: "bytes \<Rightarrow> nat \<Rightarrow> nat \<Rightarrow> bytes option" where
  "wmf_i420 bgra w h =
     bgra_to_i420 bgra w h (w * h) (w * h + (w div 2) * (h div 2)) (replicate (i420_size w h) 0)"

section \<open>The swap before JPEG\<close>

text \<open>
  \<open>encodeJPEG\<close>: the pixels with blue and red exchanged and opaque, given to the JPEG encoder (a parameter)
  with the fixed quality 15, whatever the quality argument.
\<close>

definition bgra_to_rgba :: "nat \<Rightarrow> bytes \<Rightarrow> bytes option" where
  "bgra_to_rgba n bgra = for_loop n (\<lambda>k pix. do {
     let i = 4 * k;
     r \<leftarrow> get_byte bgra (i + 2); g \<leftarrow> get_byte bgra (i + 1); b \<leftarrow> get_byte bgra i;
     Some (pix @ [word_of_int r, word_of_int g, word_of_int b, 255]) }) []"

definition encodeJPEG ::
  "(nat \<Rightarrow> nat \<Rightarrow> bytes \<Rightarrow> nat \<Rightarrow> bytes option) \<Rightarrow> bytes \<Rightarrow> nat \<Rightarrow> nat \<Rightarrow> nat \<Rightarrow> bytes option option" where
  "encodeJPEG jpeg bgra width height quality =
     (case bgra_to_rgba (width * height) bgra of None \<Rightarrow> None | Some pix \<Rightarrow> Some (jpeg width height pix 15))"

section \<open>What the loops compute\<close>

lemma for_loop_inv:
  assumes "P 0 s" "\<And>k s. k < n \<Longrightarrow> P k s \<Longrightarrow> \<exists>s'. body k s = Some s' \<and> P (Suc k) s'"
  shows "\<exists>s'. for_loop n body s = Some s' \<and> P n s'"
  using assms
proof (induction n)
  case 0
  then show ?case by simp
next
  case (Suc n)
  then obtain s1 where "for_loop n body s = Some s1" "P n s1" by (metis less_Suc_eq)
  with Suc.prems(2) [of n s1] show ?case by auto
qed

lemma for_loop_cong:
  "(\<And>k s. k < n \<Longrightarrow> f k s = g k s) \<Longrightarrow> for_loop n f s = for_loop n g s"
  by (induction n) (auto cong: Option.bind_cong)

text \<open>
  A double loop that writes \<open>f row col\<close> at \<open>A + row * W + col\<close> and \<open>g row col\<close> at \<open>B + row * W + col\<close>, for two
  planes that do not meet, fills both and leaves the rest.
\<close>

definition fill2 :: "nat \<Rightarrow> nat \<Rightarrow> nat \<Rightarrow> (nat \<Rightarrow> nat \<Rightarrow> byte) \<Rightarrow> (nat \<Rightarrow> nat \<Rightarrow> byte) \<Rightarrow> nat \<Rightarrow> bytes \<Rightarrow> bytes \<Rightarrow> bool" where
  "fill2 W A B f g n d d' \<longleftrightarrow> length d' = length d \<and>
     (\<forall>i. d' ! i = (if A \<le> i \<and> i < A + n then f ((i - A) div W) ((i - A) mod W)
                    else if B \<le> i \<and> i < B + n then g ((i - B) div W) ((i - B) mod W) else d ! i))"

lemma fill2_step:
  assumes "fill2 W A B f g (row * W + col) d d'" "col < W" "A + N \<le> B \<or> A = B \<and> f = g"
    "A + N \<le> length d" "B + N \<le> length d"
    "row * W + col < N"
  shows "fill2 W A B f g (row * W + Suc col) d
           (d'[A + row * W + col := f row col, B + row * W + col := g row col])"
proof -
  have dm: "(row * W + col) div W = row" "(row * W + col) mod W = col" using assms(2) by auto
  show ?thesis
    using assms dm unfolding fill2_def
    by (auto simp: nth_update_if less_Suc_eq)
qed

lemma double_loop_fill2:
  assumes body: "\<And>row col d'. row < H \<Longrightarrow> col < W \<Longrightarrow> length d' = length d \<Longrightarrow>
      body row col d' = Some (d'[A + row * W + col := f row col, B + row * W + col := g row col])"
    and "A + H * W \<le> B \<or> A = B \<and> f = g" "A + H * W \<le> length d" "B + H * W \<le> length d"
  shows "\<exists>d'. for_loop H (\<lambda>row. for_loop W (body row)) d = Some d' \<and> fill2 W A B f g (H * W) d d'"
proof (rule for_loop_inv [where P = "\<lambda>row d'. fill2 W A B f g (row * W) d d'"])
  show "fill2 W A B f g (0 * W) d d" by (auto simp: fill2_def)
next
  fix row d1 assume row: "row < H" and inv: "fill2 W A B f g (row * W) d d1"
  have bound: "row * W + col < H * W" if "col < W" for col
  proof -
    have "row * W + col < Suc row * W" using that by simp
    also have "\<dots> \<le> H * W" using row by (intro mult_le_mono1) simp
    finally show ?thesis .
  qed
  have "\<exists>d2. for_loop W (body row) d1 = Some d2 \<and> fill2 W A B f g (row * W + W) d d2"
  proof (rule for_loop_inv [where P = "\<lambda>col d'. fill2 W A B f g (row * W + col) d d'"])
    show "fill2 W A B f g (row * W + 0) d d1" using inv by simp
  next
    fix col d2 assume col: "col < W" and inv: "fill2 W A B f g (row * W + col) d d2"
    then have "length d2 = length d" by (simp add: fill2_def)
    then show "\<exists>s'. body row col d2 = Some s' \<and> fill2 W A B f g (row * W + Suc col) d s'"
      using body [OF row col] fill2_step [OF inv col assms(2-4) bound [OF col]] by simp
  qed
  then show "\<exists>s'. for_loop W (body row) d1 = Some s' \<and> fill2 W A B f g (Suc row * W) d s'"
    by (simp add: add.commute)
qed


section \<open>The converted frame\<close>

text \<open>The channel values of pixel \<open>k\<close>, and the means of the square of row and column in the chroma grid.\<close>

definition px :: "bytes \<Rightarrow> nat \<Rightarrow> nat \<Rightarrow> int" where
  "px bgra c k = uint (bgra ! (k * 4 + c))"

definition px4 :: "bytes \<Rightarrow> nat \<Rightarrow> nat \<Rightarrow> nat \<Rightarrow> nat \<Rightarrow> int" where
  "px4 bgra w c row col =
     drop_bit 2 (px bgra c (row * 2 * w + col * 2) + px bgra c (row * 2 * w + col * 2 + 1)
       + px bgra c ((row * 2 + 1) * w + col * 2) + px bgra c ((row * 2 + 1) * w + col * 2 + 1))"

definition raw_y :: "bytes \<Rightarrow> nat \<Rightarrow> int" where
  "raw_y bgra k = luma (px bgra 0 k) (px bgra 1 k) (px bgra 2 k)"

definition raw_u :: "bytes \<Rightarrow> nat \<Rightarrow> nat \<Rightarrow> nat \<Rightarrow> int" where
  "raw_u bgra w row col = chroma_u (px4 bgra w 0 row col) (px4 bgra w 1 row col) (px4 bgra w 2 row col)"

definition raw_v :: "bytes \<Rightarrow> nat \<Rightarrow> nat \<Rightarrow> nat \<Rightarrow> int" where
  "raw_v bgra w row col = chroma_v (px4 bgra w 0 row col) (px4 bgra w 1 row col) (px4 bgra w 2 row col)"

definition i420_planes :: "(int \<Rightarrow> int) \<Rightarrow> (int \<Rightarrow> int) \<Rightarrow> bytes \<Rightarrow> nat \<Rightarrow> nat \<Rightarrow> bytes" where
  "i420_planes cy cc bgra w h = (let cw = w div 2; n = cw * (h div 2) in
     map (\<lambda>k. word_of_int (cy (raw_y bgra k))) [0..<w * h]
     @ map (\<lambda>k. word_of_int (cc (raw_u bgra w (k div cw) (k mod cw)))) [0..<n]
     @ map (\<lambda>k. word_of_int (cc (raw_v bgra w (k div cw) (k mod cw)))) [0..<n])"

lemma length_i420_planes [simp]: "length (i420_planes cy cc bgra w h) = i420_size w h"
  by (simp add: i420_planes_def i420_size_def Let_def)

text \<open>Both conversions in one form, with what becomes of a luma and a chroma value as arguments.\<close>

definition gen_uv :: "(int \<Rightarrow> int) \<Rightarrow> bytes \<Rightarrow> nat \<Rightarrow> nat \<Rightarrow> nat \<Rightarrow> nat \<Rightarrow> bytes \<Rightarrow> bytes option" where
  "gen_uv cc bgra w h row col d = do {
     let s0 = row * 2 * w * 4 + col * 2 * 4;
     let s1 = (row * 2 + 1) * w * 4 + col * 2 * 4;
     b \<leftarrow> mean4 bgra s0 s1; g \<leftarrow> mean4 bgra (s0 + 1) (s1 + 1); r \<leftarrow> mean4 bgra (s0 + 2) (s1 + 2);
     d' \<leftarrow> put_byte (w * h + row * (w div 2) + col) (cc (chroma_u b g r)) d;
     put_byte (w * h + (w div 2) * (h div 2) + row * (w div 2) + col) (cc (chroma_v b g r)) d' }"

definition gen_y :: "(int \<Rightarrow> int) \<Rightarrow> bytes \<Rightarrow> nat \<Rightarrow> nat \<Rightarrow> nat \<Rightarrow> bytes \<Rightarrow> bytes option" where
  "gen_y cy bgra w row col d = do {
     let off = (row * w + col) * 4;
     b \<leftarrow> get_byte bgra off; g \<leftarrow> get_byte bgra (off + 1); r \<leftarrow> get_byte bgra (off + 2);
     put_byte (row * w + col) (cy (luma b g r)) d }"

definition gen_i420 :: "(int \<Rightarrow> int) \<Rightarrow> (int \<Rightarrow> int) \<Rightarrow> bytes \<Rightarrow> nat \<Rightarrow> nat \<Rightarrow> bytes \<Rightarrow> bytes option" where
  "gen_i420 cy cc bgra w h dst = do {
     d \<leftarrow> for_loop h (\<lambda>row. for_loop w (gen_y cy bgra w row)) dst;
     for_loop (h div 2) (\<lambda>row. for_loop (w div 2) (gen_uv cc bgra w h row)) d }"

lemma bgraToI420_gen: "bgraToI420 = gen_i420 clamp_luma clamp_chroma"
  by (intro ext) (simp add: bgraToI420_def gen_i420_def y_pixel_def [abs_def] gen_y_def [abs_def]
      uv_pixel_def [abs_def] gen_uv_def [abs_def] Let_def)

lemma wmf_i420_gen: "wmf_i420 bgra w h = gen_i420 id id bgra w h (replicate (i420_size w h) 0)"
  by (simp add: wmf_i420_def bgra_to_i420_def gen_i420_def c_y_pixel_def [abs_def] gen_y_def [abs_def]
      c_uv_pixel_def [abs_def] gen_uv_def [abs_def] Let_def distrib_right mult.assoc)

lemma gen_y_put:
  assumes "row < h" "col < w" "w * h * 4 \<le> length bgra" "w * h \<le> length d"
  shows "gen_y cy bgra w row col d
     = Some (d[0 + row * w + col := word_of_int (cy (raw_y bgra (row * w + col))),
               0 + row * w + col := word_of_int (cy (raw_y bgra (row * w + col)))])"
proof -
  have "row * w + col < Suc row * w" using assms(2) by simp
  also have "\<dots> \<le> h * w" using assms(1) by (intro mult_le_mono1) simp
  finally have "row * w + col < w * h" by (simp add: mult.commute)
  then show ?thesis using assms
    by (simp add: gen_y_def get_byte_def put_byte_def raw_y_def px_def add.commute Let_def)
qed


lemma row_col_less:
  assumes "row < H" "col < W"
  shows "row * W + col < H * (W :: nat)"
proof -
  have "row * W + col < Suc row * W" using assms(2) by simp
  also have "\<dots> \<le> H * W" using assms(1) by (intro mult_le_mono1) simp
  finally show ?thesis .
qed

lemma mean4_px4:
  assumes "row < h div 2" "col < w div 2" "w * h * 4 \<le> length bgra" "c < 4"
  shows "mean4 bgra (row * 2 * w * 4 + col * 2 * 4 + c) ((row * 2 + 1) * w * 4 + col * 2 * 4 + c)
     = Some (px4 bgra w c row col)"
proof -
  have r: "row * 2 + 1 < h" "row * 2 < h" and cl: "col * 2 + 1 < w" "col * 2 < w" using assms by auto
  have b: "n * w + m < w * h" if "n < h" "m < w" for n m
    using row_col_less [OF that] by (simp add: mult.commute)
  have l: "(n * w + m) * 4 + c < length bgra" if "n < h" "m < w" for n m
  proof -
    have "4 * Suc (n * w + m) \<le> 4 * (w * h)" using b [OF that] by (intro mult_le_mono2) simp
    then show ?thesis using assms(3,4) by (simp add: mult.commute)
  qed
  show ?thesis
    using l [OF r(2) cl(2)] l [OF r(2) cl(1)] l [OF r(1) cl(2)] l [OF r(1) cl(1)]
    by (simp add: mean4_def get_byte_def px4_def px_def algebra_simps)
qed

lemma gen_uv_put:
  assumes "row < h div 2" "col < w div 2" "w * h * 4 \<le> length bgra" "i420_size w h \<le> length d"
  shows "gen_uv cc bgra w h row col d
     = Some (d[w * h + row * (w div 2) + col := word_of_int (cc (raw_u bgra w row col)),
               w * h + (w div 2) * (h div 2) + row * (w div 2) + col := word_of_int (cc (raw_v bgra w row col))])"
proof -
  have b: "row * (w div 2) + col < (w div 2) * (h div 2)"
    using row_col_less [OF assms(1,2)] by (simp add: mult.commute)
  have m: "mean4 bgra (row * 2 * w * 4 + col * 2 * 4) ((row * 2 + 1) * w * 4 + col * 2 * 4) = Some (px4 bgra w 0 row col)"
    "mean4 bgra (row * 2 * w * 4 + col * 2 * 4 + 1) ((row * 2 + 1) * w * 4 + col * 2 * 4 + 1) = Some (px4 bgra w 1 row col)"
    "mean4 bgra (row * 2 * w * 4 + col * 2 * 4 + 2) ((row * 2 + 1) * w * 4 + col * 2 * 4 + 2) = Some (px4 bgra w 2 row col)"
    using mean4_px4 [OF assms(1-3), of 0] mean4_px4 [OF assms(1-3), of 1] mean4_px4 [OF assms(1-3), of 2]
    by simp_all
  have p: "w * h + row * (w div 2) + col < length d"
    "w * h + (w div 2) * (h div 2) + row * (w div 2) + col < length d"
    using b assms(4) by (simp_all add: i420_size_def)
  show ?thesis
    unfolding gen_uv_def Let_def m using p
    by (simp add: put_byte_def raw_u_def raw_v_def)
qed

lemma fill2_nth:
  "fill2 W A B f g n d d' \<Longrightarrow> d' ! i = (if A \<le> i \<and> i < A + n then f ((i - A) div W) ((i - A) mod W)
                    else if B \<le> i \<and> i < B + n then g ((i - B) div W) ((i - B) mod W) else d ! i)"
  by (simp add: fill2_def)

theorem gen_i420_planes:
  assumes "w * h * 4 \<le> length bgra" "length d = i420_size w h"
  shows "gen_i420 cy cc bgra w h d = Some (i420_planes cy cc bgra w h)"
proof -
  let ?y = "\<lambda>row col. word_of_int (cy (raw_y bgra (row * w + col))) :: byte"
  let ?u = "\<lambda>row col. word_of_int (cc (raw_u bgra w row col)) :: byte"
  let ?v = "\<lambda>row col. word_of_int (cc (raw_v bgra w row col)) :: byte"
  have sz: "w * h \<le> length d" "w * h + 2 * ((h div 2) * (w div 2)) = length d"
    using assms(2) by (simp_all add: i420_size_def)
  obtain d1 where d1: "for_loop h (\<lambda>row. for_loop w (gen_y cy bgra w row)) d = Some d1"
      "fill2 w 0 0 ?y ?y (h * w) d d1"
    using double_loop_fill2 [of h w d "\<lambda>row. gen_y cy bgra w row" 0 ?y 0 ?y] gen_y_put assms sz
    by (auto simp: mult.commute)
  have l1: "length d1 = length d" using d1(2) by (simp add: fill2_def)
  obtain d2 where d2: "for_loop (h div 2) (\<lambda>row. for_loop (w div 2) (gen_uv cc bgra w h row)) d1 = Some d2"
      "fill2 (w div 2) (w * h) (w * h + (w div 2) * (h div 2)) ?u ?v ((h div 2) * (w div 2)) d1 d2"
    using double_loop_fill2 [of "h div 2" "w div 2" d1 "\<lambda>row. gen_uv cc bgra w h row" "w * h" ?u
        "w * h + (w div 2) * (h div 2)" ?v] gen_uv_put assms sz l1
    by (auto simp: mult.commute)
  have l2: "length d2 = i420_size w h" using d2(2) l1 assms(2) by (simp add: fill2_def)
  have "d2 = i420_planes cy cc bgra w h"
  proof (rule nth_equalityI)
    show "length d2 = length (i420_planes cy cc bgra w h)" by (simp add: l2)
    fix i assume "i < length d2"
    then have i: "i < w * h + ((w div 2) * (h div 2) + (w div 2) * (h div 2))"
      by (simp add: l2 i420_size_def mult.assoc)
    have last: "i - (h * w + (h div 2) * (w div 2)) < (h div 2) * (w div 2)"
      if "\<not> i < h * w + (h div 2) * (w div 2)" using that i unfolding mult.commute [of w] mult.commute [of "w div 2"] by linarith
    show "d2 ! i = i420_planes cy cc bgra w h ! i"
      unfolding fill2_nth [OF d2(2)] fill2_nth [OF d1(2)] using i last
      by (auto simp: i420_planes_def Let_def nth_append mult.commute div_mult_mod_eq)
  qed
  then show ?thesis by (simp add: gen_i420_def d1(1) d2(1))
qed


lemma for_loop_length:
  assumes "\<And>k s s'. body k s = Some s' \<Longrightarrow> length s' = length s"
  shows "for_loop n body s = Some s' \<Longrightarrow> length s' = length s"
  using assms by (induction n arbitrary: s') (auto simp: bind_eq_Some_conv)

lemma gen_i420_length:
  assumes "gen_i420 cy cc bgra w h d = Some d'"
  shows "length d' = length d"
proof -
  have p: "put_byte i v d = Some d' \<Longrightarrow> length d' = length d" for i v d d'
    by (auto simp: put_byte_def split: if_splits)
  have y: "gen_y cy bgra w row col d = Some d' \<Longrightarrow> length d' = length d" for row col d d'
    by (auto simp: gen_y_def Let_def bind_eq_Some_conv dest: p)
  have u: "gen_uv cc bgra w h row col d = Some d' \<Longrightarrow> length d' = length d" for row col d d'
    by (auto simp: gen_uv_def Let_def bind_eq_Some_conv dest!: p)
  obtain d1 where d1: "for_loop h (\<lambda>row. for_loop w (gen_y cy bgra w row)) d = Some d1"
      "for_loop (h div 2) (\<lambda>row. for_loop (w div 2) (gen_uv cc bgra w h row)) d1 = Some d'"
    using assms by (auto simp: gen_i420_def bind_eq_Some_conv)
  have "length d1 = length d"
    by (rule for_loop_length [OF _ d1(1)]) (rule for_loop_length [OF y])
  moreover have "length d' = length d1"
    by (rule for_loop_length [OF _ d1(2)]) (rule for_loop_length [OF u])
  ultimately show ?thesis by simp
qed

section \<open>The range of the values\<close>

lemma drop_bit_int_div: "drop_bit n (x :: int) = x div 2 ^ n"
  by (simp add: drop_bit_eq_div)

lemma px_range [simp]: "0 \<le> px bgra c k" "px bgra c k \<le> 255"
  using uint_lt2p [of "bgra ! (k * 4 + c)"] by (simp_all add: px_def)

lemma mean_range:
  assumes "0 \<le> a" "a \<le> 255" "0 \<le> b" "b \<le> 255" "0 \<le> c" "c \<le> 255" "0 \<le> d" "d \<le> (255 :: int)"
  shows "0 \<le> drop_bit 2 (a + b + c + d)" "drop_bit 2 (a + b + c + d) \<le> 255"
  using assms by (auto simp: drop_bit_int_div)

lemma px4_range [simp]: "0 \<le> px4 bgra w c row col" "px4 bgra w c row col \<le> 255"
  unfolding px4_def by (rule mean_range; simp)+

lemma luma_range:
  assumes "0 \<le> b" "b \<le> 255" "0 \<le> g" "g \<le> 255" "0 \<le> r" "r \<le> 255"
  shows "16 \<le> luma b g r" "luma b g r \<le> 271"
proof -
  let ?n = "77 * r + 150 * g + 29 * b + 128"
  have "0 \<le> ?n" "?n \<le> 65408" using assms by auto
  then have "0 \<le> ?n div 256" "?n div 256 \<le> 255" by auto
  then show "16 \<le> luma b g r" "luma b g r \<le> 271" by (simp_all add: luma_def drop_bit_int_div)
qed

lemma chroma_range:
  assumes "0 \<le> b" "b \<le> 255" "0 \<le> g" "g \<le> 255" "0 \<le> r" "r \<le> 255"
  shows "1 \<le> chroma_u b g r" "chroma_u b g r \<le> 256" "1 \<le> chroma_v b g r" "chroma_v b g r \<le> 256"
  using assms by (auto simp: chroma_u_def chroma_v_def drop_bit_int_div)

lemma raw_range:
  "16 \<le> raw_y bgra k" "raw_y bgra k \<le> 271"
  "1 \<le> raw_u bgra w row col" "raw_u bgra w row col \<le> 256"
  "1 \<le> raw_v bgra w row col" "raw_v bgra w row col \<le> 256"
  by (simp_all add: raw_y_def raw_u_def raw_v_def luma_range chroma_range)

lemma word_of_int_byte_eq:
  "0 \<le> a \<Longrightarrow> a < 256 \<Longrightarrow> (word_of_int a :: byte) = word_of_int b \<longleftrightarrow> a = b mod 256"
  by (simp add: word_of_int_eq_iff take_bit_eq_mod)

lemma clamp_luma_wrap:
  "16 \<le> y \<Longrightarrow> y \<le> 271 \<Longrightarrow> (word_of_int (clamp_luma y) :: byte) = word_of_int y \<longleftrightarrow> y \<le> 235"
proof (cases "y \<le> 235")
  case True
  then show ?thesis by (simp add: clamp_luma_def)
next
  case False
  assume "16 \<le> y" "y \<le> 271"
  with False have "235 \<noteq> y mod 256"
    using mod_pos_pos_trivial [of "y - 256" 256] by (cases "y < 256") (simp_all add: mod_pos_pos_trivial)
  with False show ?thesis using word_of_int_byte_eq [of 235 y] by (simp add: clamp_luma_def)
qed

lemma clamp_chroma_wrap:
  "1 \<le> u \<Longrightarrow> u \<le> 256 \<Longrightarrow> (word_of_int (clamp_chroma u) :: byte) = word_of_int u \<longleftrightarrow> u \<le> 255"
proof (cases "u \<le> 255")
  case True
  assume "1 \<le> u"
  with True show ?thesis by (simp add: clamp_chroma_def)
next
  case False
  assume "1 \<le> u" "u \<le> 256"
  with False have "u = 256" by simp
  then show ?thesis by (simp add: clamp_chroma_def)
qed


lemma map_planes_eq:
  "map f [0..<n] @ map g [0..<m] @ map k [0..<m] = map f' [0..<n] @ map g' [0..<m] @ map k' [0..<m]
     \<longleftrightarrow> (\<forall>i<n. f i = f' i) \<and> (\<forall>i<m. g i = g' i \<and> k i = k' i)"
  by (auto simp: append_eq_append_conv map_eq_conv)

lemma luma_grey: "luma n n n = n + 16"
proof -
  have "77 * n + 150 * n + 29 * n + 128 = n * 256 + 128" by simp
  then show ?thesis by (simp add: luma_def drop_bit_int_div)
qed

text \<open>
  C35. \<open>bgraToI420\<close> never goes outside of its buffers: for a frame of at least \<open>4 w h\<close> bytes and an I420 buffer
  of the size every encoder allocates it fills the whole buffer, independently of what it held, with the three
  planes, one value per pixel and per square of four, and every luma value lies in the limited range 16..235.
\<close>
theorem bgraToI420_frame:
  assumes "w * h * 4 \<le> length bgra" "length dst = i420_size w h"
  shows "bgraToI420 bgra w h dst = Some (i420_planes clamp_luma clamp_chroma bgra w h)
    \<and> list_all (\<lambda>y. 16 \<le> unat y \<and> unat y \<le> 235)
        (take (w * h) (i420_planes clamp_luma clamp_chroma bgra w h))"
proof
  show "bgraToI420 bgra w h dst = Some (i420_planes clamp_luma clamp_chroma bgra w h)"
    using gen_i420_planes [OF assms] by (simp add: bgraToI420_gen)
  have "16 \<le> unat (word_of_int (clamp_luma (raw_y bgra k)) :: byte)
      \<and> unat (word_of_int (clamp_luma (raw_y bgra k)) :: byte) \<le> 235" for k
    using raw_range(1,2) [of bgra k]
    by (auto simp: clamp_luma_def unat_eq_nat_uint uint_word_of_int mod_pos_pos_trivial)
  then show "list_all (\<lambda>y. 16 \<le> unat y \<and> unat y \<le> 235)
      (take (w * h) (i420_planes clamp_luma clamp_chroma bgra w h))"
    by (simp add: i420_planes_def Let_def list_all_iff)
qed

lemma bgraToI420_frame_witness:
  "bgraToI420 [255, 0, 0, 255, 255, 255, 255, 255, 0, 0, 0, 255, 0, 0, 255, 255] 2 2 (replicate 6 7)
     = Some [45, 235, 16, 93, 149, 155]"
proof -
  have "i420_planes clamp_luma clamp_chroma [255, 0, 0, 255, 255, 255, 255, 255, 0, 0, 0, 255, 0, 0, 255, 255] 2 2
      = [45, 235, 16, 93, 149, 155]" by code_simp
  then show ?thesis
    using bgraToI420_frame [of 2 2 "[255, 0, 0, 255, 255, 255, 255, 255, 0, 0, 0, 255, 0, 0, 255, 255]" "replicate 6 7"]
    by (simp add: i420_size_def)
qed

text \<open>
  The C conversion of the WMF path gives the same planes as the Go conversion exactly when no luma value
  of the frame exceeds 235 and no chroma value exceeds 255: it has the same arithmetic without the clamps.
\<close>
theorem wmf_i420_agrees:
  assumes "w * h * 4 \<le> length bgra" "length dst = i420_size w h"
  shows "wmf_i420 bgra w h = bgraToI420 bgra w h dst \<longleftrightarrow>
    (\<forall>k < w * h. raw_y bgra k \<le> 235)
    \<and> (\<forall>k < (w div 2) * (h div 2).
          raw_u bgra w (k div (w div 2)) (k mod (w div 2)) \<le> 255
          \<and> raw_v bgra w (k div (w div 2)) (k mod (w div 2)) \<le> 255)"
proof -
  have "wmf_i420 bgra w h = Some (i420_planes id id bgra w h)"
    using gen_i420_planes [OF assms(1), of "replicate (i420_size w h) 0"] by (simp add: wmf_i420_gen)
  moreover have "bgraToI420 bgra w h dst = Some (i420_planes clamp_luma clamp_chroma bgra w h)"
    using gen_i420_planes [OF assms] by (simp add: bgraToI420_gen)
  ultimately have "bgraToI420 bgra w h dst = wmf_i420 bgra w h \<longleftrightarrow>
      i420_planes clamp_luma clamp_chroma bgra w h = i420_planes id id bgra w h" by simp
  also have "\<dots> \<longleftrightarrow> (\<forall>k < w * h. raw_y bgra k \<le> 235)
    \<and> (\<forall>k < (w div 2) * (h div 2).
          raw_u bgra w (k div (w div 2)) (k mod (w div 2)) \<le> 255
          \<and> raw_v bgra w (k div (w div 2)) (k mod (w div 2)) \<le> 255)"
    unfolding i420_planes_def Let_def map_planes_eq id_apply
      clamp_luma_wrap [OF raw_range(1,2)] clamp_chroma_wrap [OF raw_range(3,4)]
      clamp_chroma_wrap [OF raw_range(5,6)] by (rule refl)
  finally show ?thesis by (simp only: eq_commute [of "wmf_i420 bgra w h"])
qed

text \<open>
  The frame of the witness is white: the Go conversion gives luma 235, the C conversion 15, darker than black.
\<close>

lemma wmf_i420_agrees_witness:
  "wmf_i420 (replicate 16 255) 2 2 \<noteq> bgraToI420 (replicate 16 255) 2 2 (replicate 6 0)
   \<and> wmf_i420 (replicate 16 255) 2 2 = Some [15, 15, 15, 15, 128, 128]
   \<and> bgraToI420 (replicate 16 255) 2 2 (replicate 6 0) = Some [235, 235, 235, 235, 128, 128]"
proof -
  have "\<not> raw_y (replicate 16 255) 0 \<le> 235" by (simp add: raw_y_def px_def luma_grey)
  then have "wmf_i420 (replicate 16 255) 2 2 \<noteq> bgraToI420 (replicate 16 255) 2 2 (replicate 6 0)"
    using wmf_i420_agrees [of 2 2 "replicate 16 255" "replicate 6 0"] by (force simp: i420_size_def)
  moreover have "wmf_i420 (replicate 16 255) 2 2 = Some [15, 15, 15, 15, 128, 128]" by code_simp
  moreover have "bgraToI420 (replicate 16 255) 2 2 (replicate 6 0) = Some [235, 235, 235, 235, 128, 128]" by code_simp
  ultimately show ?thesis by blast
qed

text \<open>
  On a grey frame of level \<open>n\<close> the two conversions give the luma \<open>min (n + 16) 235\<close> and \<open>(n + 16) mod 256\<close>.
\<close>

lemma grey_luma:
  assumes "px bgra 0 k = n" "px bgra 1 k = n" "px bgra 2 k = n"
  shows "clamp_luma (raw_y bgra k) = min (n + 16) 235"
    "uint (word_of_int (raw_y bgra k) :: byte) = (n + 16) mod 256"
  using assms by (simp_all add: raw_y_def luma_grey clamp_luma_def uint_word_of_int min_def del: of_int_add)

end
