(* ===== verification/Annexb.thy ===== *)
theory Annexb
  imports Prelude
begin

text \<open>
  \<open>ensureAnnexB\<close> of agent/encode_windows.go: H.264 data with four-byte length prefixes (AVCC) is rewritten with
  start codes (Annex B); data that begins with a start code is left as it is.
\<close>

section \<open>The conversion\<close>

definition startCode :: bytes where
  "startCode = [0x00, 0x00, 0x00, 0x01]"

definition has_start_code :: "bytes \<Rightarrow> bool" where
  "has_start_code data \<longleftrightarrow>
     (data ! 0 = 0 \<and> data ! 1 = 0 \<and> data ! 2 = 0 \<and> data ! 3 = 1)
     \<or> (data ! 0 = 0 \<and> data ! 1 = 0 \<and> data ! 2 = 1)"

text \<open>The loop over the units that are left; \<open>None\<close> is the return of the original data at a bad length.\<close>

fun annexb_loop :: "bytes \<Rightarrow> bytes \<Rightarrow> bytes option" where
  "annexb_loop out rest =
     (if length rest < 4 then Some out
      else (let nalLen = be_nat (take 4 rest); body = drop 4 rest in
            if nalLen = 0 \<or> length body < nalLen then None
            else annexb_loop (out @ startCode @ take nalLen body) (drop nalLen body)))"

declare annexb_loop.simps [simp del]

definition ensureAnnexB :: "bytes \<Rightarrow> bytes" where
  "ensureAnnexB data =
     (if length data < 5 then data
      else if has_start_code data then data
      else (case annexb_loop [] data of
              None \<Rightarrow> data
            | Some out \<Rightarrow> if out = [] then data else out))"

section \<open>The two formats\<close>

definition avcc :: "bytes list \<Rightarrow> bytes" where
  "avcc nals = concat (map (\<lambda>n. be_bytes 4 (length n) @ n) nals)"

definition annexb :: "bytes list \<Rightarrow> bytes" where
  "annexb nals = concat (map (\<lambda>n. startCode @ n) nals)"

text \<open>A unit the length prefix can describe.\<close>

definition nal_ok :: "bytes \<Rightarrow> bool" where
  "nal_ok n \<longleftrightarrow> n \<noteq> [] \<and> length n < 2 ^ 32"

text \<open>The lengths of a first unit whose prefix reads like a start code.\<close>

definition misread_length :: "nat \<Rightarrow> bool" where
  "misread_length n \<longleftrightarrow> n = 1 \<or> (256 \<le> n \<and> n < 512)"

lemma annexb_loop_avcc:
  "list_all nal_ok nals \<Longrightarrow> length tail < 4 \<Longrightarrow>
     annexb_loop out (avcc nals @ tail) = Some (out @ annexb nals)"
proof (induction nals arbitrary: out)
  case Nil
  then show ?case by (simp add: annexb_loop.simps avcc_def annexb_def)
next
  case (Cons n nals)
  have eq: "avcc (n # nals) @ tail = be_bytes 4 (length n) @ (n @ (avcc nals @ tail))"
    by (simp add: avcc_def del: be_bytes.simps)
  have n: "n \<noteq> []" "be_nat (be_bytes 4 (length n)) = length n"
    using Cons.prems(1) by (auto simp: nal_ok_def wire_simps simp del: be_bytes.simps)
  have "annexb_loop out (avcc (n # nals) @ tail)
      = annexb_loop (out @ startCode @ n) (avcc nals @ tail)"
    unfolding eq by (subst annexb_loop.simps) (use n in \<open>simp add: Let_def del: be_bytes.simps\<close>)
  also have "\<dots> = Some (out @ annexb (n # nals))"
    using Cons by (simp add: annexb_def)
  finally show ?case .
qed

lemma annexb_loop_sound:
  "annexb_loop out rest = Some res \<Longrightarrow>
     \<exists>nals tail. (\<forall>n\<in>set nals. n \<noteq> []) \<and> length tail < 4 \<and> rest = avcc nals @ tail \<and> res = out @ annexb nals"
proof (induction out rest rule: annexb_loop.induct)
  case (1 out rest)
  show ?case
  proof (cases "length rest < 4")
    case True
    then have "res = out" using "1.prems" by (simp add: annexb_loop.simps)
    then show ?thesis using True by (intro exI [of _ "[]"] exI [of _ rest]) (simp add: avcc_def annexb_def)
  next
    case False
    let ?n = "be_nat (take 4 rest)" and ?b = "drop 4 rest"
    have ok: "?n \<noteq> 0" "?n \<le> length ?b" "annexb_loop (out @ startCode @ take ?n ?b) (drop ?n ?b) = Some res"
      using "1.prems" False by (subst (asm) annexb_loop.simps; simp add: Let_def split: if_splits)+
    obtain nals tail where IH: "\<forall>n\<in>set nals. n \<noteq> []" "length tail < 4" "drop ?n ?b = avcc nals @ tail"
        "res = (out @ startCode @ take ?n ?b) @ annexb nals"
      using "1.IH" [OF False refl refl _ ok(3)] ok(1,2) by auto
    have hdr: "take 4 rest = be_bytes 4 (length (take ?n ?b))"
    proof -
      have "length (take 4 rest) = 4" using False by simp
      then have "be_bytes 4 (be_nat (take 4 rest)) = take 4 rest" by (rule be_bytes_be_nat)
      then show ?thesis using ok(2) by (simp del: be_bytes.simps)
    qed
    have "rest = take 4 rest @ take ?n ?b @ drop ?n ?b" by (simp only: append_take_drop_id)
    also have "\<dots> = avcc (take ?n ?b # nals) @ tail"
      unfolding IH(3) by (subst hdr) (simp add: avcc_def del: be_bytes.simps)
    finally have "rest = avcc (take ?n ?b # nals) @ tail" .
    moreover have "res = out @ annexb (take ?n ?b # nals)" using IH(4) by (simp add: annexb_def)
    moreover have "\<forall>n\<in>set (take ?n ?b # nals). n \<noteq> []" using IH(1) ok(1,2) by auto
    ultimately show ?thesis using IH(2) by blast
  qed
qed


section \<open>What is converted, and what is not\<close>

lemma avcc_prefix:
  assumes "nal_ok n"
  shows "has_start_code (avcc (n # nals)) \<longleftrightarrow> misread_length (length n)"
proof -
  let ?l = "length n"
  have four: "(4 :: nat) = Suc (Suc (Suc (Suc 0)))" by simp
  have eq: "avcc (n # nals) = of_nat (?l div 16777216) # of_nat (?l div 65536) # of_nat (?l div 256) # of_nat ?l
      # (n @ avcc nals)"
    unfolding avcc_def four be_bytes.simps by simp
  have bz: "(of_nat m :: byte) = 0 \<longleftrightarrow> m mod 256 = 0" "(of_nat m :: byte) = 1 \<longleftrightarrow> m mod 256 = 1" for m
    by (simp_all add: word_eq_iff_unsigned [where ?'a = nat] unat_of_nat)
  have l: "?l < 2 ^ 32" "?l \<noteq> 0" using assms by (auto simp: nal_ok_def)
  have d: "?l div 16777216 mod 256 = ?l div 16777216" using l(1) by (simp add: less_mult_imp_div_less)
  have z: "?l div 16777216 = 0 \<and> ?l div 65536 mod 256 = 0 \<longleftrightarrow> ?l < 65536"
  proof -
    have "?l div 16777216 = ?l div 65536 div 256" by (simp flip: div_mult2_eq)
    moreover have "q div 256 = 0 \<and> q mod 256 = 0 \<longleftrightarrow> q = 0" for q :: nat
      using div_mult_mod_eq [of q 256] by auto
    moreover have "?l div 65536 = 0 \<longleftrightarrow> ?l < 65536" by (simp add: div_eq_0_iff)
    ultimately show ?thesis by metis
  qed
  have o: "?l < 65536 \<Longrightarrow> ?l div 256 mod 256 = ?l div 256" by (simp add: less_mult_imp_div_less)
  have "has_start_code (avcc (n # nals)) \<longleftrightarrow>
      ?l < 65536 \<and> ((?l div 256 = 0 \<and> ?l mod 256 = 1) \<or> ?l div 256 = 1)"
    unfolding eq has_start_code_def using z o by (auto simp: bz d)
  also have "\<dots> \<longleftrightarrow> misread_length ?l"
    by (auto simp: misread_length_def)
  finally show ?thesis .
qed

lemma length_avcc_ge: "nal_ok n \<Longrightarrow> 5 \<le> length (avcc (n # nals))"
  by (cases n) (auto simp: avcc_def nal_ok_def)

lemma annexb_fixed: "nals \<noteq> [] \<Longrightarrow> ensureAnnexB (annexb nals) = annexb nals"
  by (cases nals) (auto simp: ensureAnnexB_def annexb_def startCode_def has_start_code_def)

text \<open>
  AVCC data of units the length prefix can describe becomes the same units in Annex B form, except when the
  prefix of the first unit reads like a start code, that is when this unit has 1 byte or 256 to 511 bytes: then
  the data is sent as it is, with its length prefixes. Up to three bytes after the last unit are dropped.
\<close>
theorem ensureAnnexB_avcc:
  assumes "list_all nal_ok (n # nals)" "length tail < 4"
  shows "ensureAnnexB (avcc (n # nals) @ tail) =
    (if misread_length (length n) then avcc (n # nals) @ tail else annexb (n # nals))"
proof -
  have n: "nal_ok n" using assms(1) by simp
  have l: "5 \<le> length (avcc (n # nals))" by (rule length_avcc_ge [OF n])
  have "has_start_code (avcc (n # nals) @ tail) \<longleftrightarrow> misread_length (length n)"
  proof -
    have "(avcc (n # nals) @ tail) ! i = avcc (n # nals) ! i" if "i < 5" for i
      using that l by (simp add: nth_append)
    then show ?thesis using avcc_prefix [OF n, of nals] by (simp add: has_start_code_def)
  qed
  moreover have "annexb (n # nals) \<noteq> []" by (simp add: annexb_def startCode_def)
  ultimately show ?thesis
    using annexb_loop_avcc [OF assms, of "[]"] l by (simp add: ensureAnnexB_def)
qed

lemma ensureAnnexB_avcc_witness:
  "ensureAnnexB (avcc [[0x65, 0x88], [0x41]] @ [9]) = annexb [[0x65, 0x88], [0x41]]
   \<and> ensureAnnexB (avcc [replicate 300 0x65]) = avcc [replicate 300 0x65]"
  using ensureAnnexB_avcc [of "[0x65, 0x88]" "[[0x41]]" "[9]"] ensureAnnexB_avcc [of "replicate 300 0x65" "[]" "[]"]
  by (simp add: nal_ok_def misread_length_def)

text \<open>
  Whatever the encoder gives, the result is the data itself or a list of units, read off its length
  prefixes up to at most three bytes, in Annex B form; and a second application changes nothing.
\<close>
theorem ensureAnnexB_sound:
  "(ensureAnnexB data = data
    \<or> (\<exists>nals tail. nals \<noteq> [] \<and> [] \<notin> set nals \<and> length tail < 4 \<and> data = avcc nals @ tail
         \<and> ensureAnnexB data = annexb nals))
   \<and> ensureAnnexB (ensureAnnexB data) = ensureAnnexB data"
proof -
  have *: "ensureAnnexB data = data
    \<or> (\<exists>nals tail. nals \<noteq> [] \<and> [] \<notin> set nals \<and> length tail < 4 \<and> data = avcc nals @ tail
         \<and> ensureAnnexB data = annexb nals)"
  proof (cases "annexb_loop [] data")
    case (Some out)
    show ?thesis
    proof (cases "out = []")
      case False
      obtain nals tail where "\<forall>n\<in>set nals. n \<noteq> []" "length tail < 4" "data = avcc nals @ tail" "out = annexb nals"
        using annexb_loop_sound [OF Some] by auto
      moreover have "nals \<noteq> []" using False \<open>out = annexb nals\<close> by (auto simp: annexb_def)
      ultimately show ?thesis using Some False by (auto simp: ensureAnnexB_def)
    qed (simp add: ensureAnnexB_def Some)
  qed (simp add: ensureAnnexB_def)
  then have "ensureAnnexB (ensureAnnexB data) = ensureAnnexB data" by (auto simp: annexb_fixed)
  with * show ?thesis by blast
qed

end
