(* ===== verification/Encoders.thy ===== *)
theory Encoders
  imports Color Annexb
begin

text \<open>
  The video encoders of the agent: OpenH264 (agent/encode_openh264_windows.go), VP9
  (agent/encode_vp9_windows.go), H.265 (agent/encode_h265_windows.go), AV1 (agent/encode_av1_windows.go) and
  WMF H.264 (agent/encode_windows.go), each with the state of its C part and of its Go part, and the stubs of
  the other platforms. What the codec libraries answer is an argument of each call.
\<close>

section \<open>Results and state\<close>

text \<open>The result of encoding: an error, data (empty when the encoder gave nothing), or a call that does not return: it
  reads or writes outside of a buffer, or runs on.\<close>

datatype enc_result = EncErr | EncData bytes | EncStuck

definition max_nal_buf :: nat where
  "max_nal_buf = 4 * 1024 * 1024"

text \<open>
  The output buffer of a C part: \<open>room\<close> is the size of the buffer the Go part passes, \<open>cap\<close> the capacity it says the
  buffer has. The \<open>memcpy\<close> of a piece behind what was written is \<open>None\<close> when it leaves the buffer, whatever was
  checked before; a piece is shorter than 2^31 bytes, as an \<open>int\<close> holds its length.
\<close>

definition put_out :: "nat \<Rightarrow> bytes \<Rightarrow> bytes \<Rightarrow> bytes option" where
  "put_out room out b = (if length out + length b \<le> room then Some (out @ b) else None)"

text \<open>A piece of output is copied when the capacity allows it and skipped when it does not.\<close>

definition fit_append :: "nat \<Rightarrow> nat \<Rightarrow> bytes \<Rightarrow> bytes \<Rightarrow> bytes option" where
  "fit_append room cap out b = (if length out + length b \<le> cap then put_out room out b else Some out)"

text \<open>A loop over pieces whose body may leave the buffer.\<close>

fun fold_out :: "(bytes \<Rightarrow> 'p \<Rightarrow> bytes option) \<Rightarrow> bytes \<Rightarrow> 'p list \<Rightarrow> bytes option" where
  "fold_out copy out [] = Some out"
| "fold_out copy out (b # bs) = (case copy out b of None \<Rightarrow> None | Some out' \<Rightarrow> fold_out copy out' bs)"

text \<open>What a codec context was opened with, and last told.\<close>

record enc_cfg =
  ec_w :: nat
  ec_h :: nat
  ec_fps :: int
  ec_bitrate :: int

text \<open>
  The state of one encoder file: the C part (the library is loaded, the open codec context, the number of the
  next picture and, for VP9, the bytes its picture has room for in the luma and in each chroma plane) and the Go
  part (the flag and the I420 buffer).
\<close>

record enc_mod =
  em_dll :: bool
  em_ctx :: "enc_cfg option"
  em_pts :: nat
  em_img :: "nat \<times> nat"
  em_initDone :: bool
  em_i420 :: bytes

definition closed_mod :: enc_mod where
  "closed_mod = \<lparr>em_dll = False, em_ctx = None, em_pts = 0, em_img = (0, 0), em_initDone = False, em_i420 = []\<rparr>"

section \<open>Loading a library\<close>

text \<open>
  Which files load, the directory of the executable with its last backslash, and whether every required symbol is
  there.
\<close>

record dll_env =
  de_loads :: "string \<Rightarrow> bool"
  de_exe_dir :: "string option"
  de_symbols :: bool

definition load_dll :: "string list \<Rightarrow> dll_env \<Rightarrow> bool \<Rightarrow> bool \<times> int" where
  "load_dll names env loaded =
     (if loaded then (True, 0)
      else if \<not> (list_ex (de_loads env) names
                \<or> (case de_exe_dir env of None \<Rightarrow> False | Some dir \<Rightarrow> list_ex (\<lambda>n. de_loads env (dir @ n)) names))
      then (False, - 1)
      else if \<not> de_symbols env then (False, - 2)
      else (True, 0))"

definition oh_load_dll :: "dll_env \<Rightarrow> bool \<Rightarrow> bool \<times> int" where
  "oh_load_dll = load_dll [''openh264-2.4.1-win64.dll'', ''openh264.dll'']"

definition vpx_load_dll :: "dll_env \<Rightarrow> bool \<Rightarrow> bool \<times> int" where
  "vpx_load_dll = load_dll [''libvpx-1.dll'', ''libvpx.dll'']"

definition x265_load_dll :: "dll_env \<Rightarrow> bool \<Rightarrow> bool \<times> int" where
  "x265_load_dll = load_dll [''libx265-215.dll'', ''libx265.dll'']"

definition av1_load_dll :: "dll_env \<Rightarrow> bool \<Rightarrow> bool \<times> int" where
  "av1_load_dll = load_dll [''libSvtAv1Enc-2.dll'', ''SvtAv1Enc.dll'', ''libSvtAv1Enc.dll'']"

lemma load_dll_cases:
  "load_dll names env loaded = (l, rc) \<Longrightarrow> (l \<longleftrightarrow> rc = 0) \<and> rc \<le> 0 \<and> (loaded \<longrightarrow> rc = 0)"
  by (auto simp: load_dll_def split: if_splits)

section \<open>OpenH264\<close>

text \<open>Whether the encoder object is created and whether \<open>InitializeExt\<close> succeeds.\<close>

record oh_open =
  oo_create :: bool
  oo_initExt :: bool

definition oh_encoder_init :: "dll_env \<Rightarrow> oh_open \<Rightarrow> nat \<Rightarrow> nat \<Rightarrow> int \<Rightarrow> int \<Rightarrow> enc_mod \<Rightarrow> enc_mod \<times> int" where
  "oh_encoder_init env oo w h fps bitrate m =
     (let (l, rc) = oh_load_dll env (em_dll m); m' = m\<lparr>em_dll := l\<rparr> in
      if rc \<noteq> 0 then (m', - 1)
      else if em_ctx m' \<noteq> None then (m', 0)
      else if \<not> oo_create oo then (m', - 2)
      else if \<not> oo_initExt oo then (m', - 3)
      else (m'\<lparr>em_ctx := Some \<lparr>ec_w = w, ec_h = h, ec_fps = fps, ec_bitrate = bitrate\<rparr>\<rparr>, 0))"

text \<open>
  What the library gives for a picture: its return value, whether the frame is skipped, the size it reports and
  the NAL units of each layer.
\<close>

record oh_frame =
  of_rv :: int
  of_skip :: bool
  of_size :: int
  of_layers :: "bytes list list"

text \<open>A NAL unit that does not fit ends its layer; the next layer goes on.\<close>

fun oh_layer :: "nat \<Rightarrow> nat \<Rightarrow> bytes \<Rightarrow> bytes list \<Rightarrow> bytes option" where
  "oh_layer room cap out [] = Some out"
| "oh_layer room cap out (n # ns) =
     (if cap < length out + length n then Some out
      else (case put_out room out n of None \<Rightarrow> None | Some out' \<Rightarrow> oh_layer room cap out' ns))"

definition oh_collect :: "nat \<Rightarrow> nat \<Rightarrow> bytes list list \<Rightarrow> bytes option" where
  "oh_collect room cap layers = fold_out (oh_layer room cap) [] layers"

text \<open>The bytes written, or the error code; \<open>None\<close>: the call leaves the output buffer.\<close>

definition oh_encode_frame :: "oh_frame \<Rightarrow> nat \<Rightarrow> nat \<Rightarrow> enc_mod \<Rightarrow> (int + bytes) option" where
  "oh_encode_frame f room cap m =
     (if em_ctx m = None then Some (Inl (- 1))
      else if of_rv f \<noteq> 0 then Some (Inl (- 2))
      else if of_skip f \<or> of_size f = 0 then Some (Inr [])
      else map_option Inr (oh_collect room cap (of_layers f)))"

definition oh_encoder_close :: "enc_mod \<Rightarrow> enc_mod" where
  "oh_encoder_close m = m\<lparr>em_ctx := None\<rparr>"

definition oh_set_bitrate :: "int \<Rightarrow> enc_mod \<Rightarrow> enc_mod" where
  "oh_set_bitrate bitrate m =
     (case em_ctx m of None \<Rightarrow> m
      | Some c \<Rightarrow> m\<lparr>em_ctx := Some (c\<lparr>ec_bitrate := bitrate, ec_fps := 30\<rparr>)\<rparr>)"

definition openH264Available :: "platform \<Rightarrow> dll_env \<Rightarrow> enc_mod \<Rightarrow> enc_mod \<times> bool" where
  "openH264Available p env m =
     (if \<not> is_windows p then (m, False)
      else (let (l, rc) = oh_load_dll env (em_dll m) in (m\<lparr>em_dll := l\<rparr>, rc = 0)))"

definition openH264Init ::
  "platform \<Rightarrow> dll_env \<Rightarrow> oh_open \<Rightarrow> nat \<Rightarrow> nat \<Rightarrow> int \<Rightarrow> int \<Rightarrow> enc_mod \<Rightarrow> enc_mod \<times> bool" where
  "openH264Init p env oo width height fps bitrate m =
     (if \<not> is_windows p then (m, True)
      else (let (m', rc) = oh_encoder_init env oo width height fps bitrate m in
            if rc \<noteq> 0 then (m', False)
            else (m'\<lparr>em_initDone := True, em_i420 := replicate (i420_size width height) 0\<rparr>, True)))"

text \<open>
  The call of an encoder on a picture: the conversion into the module's buffer, then the library; an empty
  buffer would make the address of its first byte panic.
\<close>

definition i420_call ::
  "bytes \<Rightarrow> nat \<Rightarrow> nat \<Rightarrow> (enc_mod \<Rightarrow> enc_mod \<times> (int + bytes) option) \<Rightarrow> enc_mod \<Rightarrow> enc_mod \<times> enc_result" where
  "i420_call bgra width height encode m =
     (if \<not> em_initDone m then (m, EncErr)
      else (case bgraToI420 bgra width height (em_i420 m) of
              None \<Rightarrow> (m, EncStuck)
            | Some buf \<Rightarrow>
                if buf = [] then (m, EncStuck)
                else (case encode (m\<lparr>em_i420 := buf\<rparr>) of
                        (m', None) \<Rightarrow> (m', EncStuck)
                      | (m', Some (Inl rc)) \<Rightarrow> (m', EncErr)
                      | (m', Some (Inr out)) \<Rightarrow> (m', EncData out))))"

definition openH264EncodeFrame :: "platform \<Rightarrow> oh_frame \<Rightarrow> bytes \<Rightarrow> nat \<Rightarrow> nat \<Rightarrow> enc_mod \<Rightarrow> enc_mod \<times> enc_result" where
  "openH264EncodeFrame p f bgra width height m =
     (if \<not> is_windows p then (m, EncData [])
      else i420_call bgra width height (\<lambda>m. (m, oh_encode_frame f max_nal_buf max_nal_buf m)) m)"

definition openH264SetBitrate :: "platform \<Rightarrow> int \<Rightarrow> enc_mod \<Rightarrow> enc_mod" where
  "openH264SetBitrate p bitrate m = (if is_windows p \<and> em_initDone m then oh_set_bitrate bitrate m else m)"

definition openH264Close :: "platform \<Rightarrow> enc_mod \<Rightarrow> enc_mod" where
  "openH264Close p m =
     (if is_windows p \<and> em_initDone m then (oh_encoder_close m)\<lparr>em_initDone := False\<rparr> else m)"

section \<open>VP9\<close>

text \<open>The default configuration, the initialisation and the picture, with the room of its planes.\<close>

record vpx_open =
  vo_config :: bool
  vo_init :: bool
  vo_img :: "(nat \<times> nat) option"

definition vpx_encoder_init :: "dll_env \<Rightarrow> vpx_open \<Rightarrow> nat \<Rightarrow> nat \<Rightarrow> int \<Rightarrow> int \<Rightarrow> enc_mod \<Rightarrow> enc_mod \<times> int" where
  "vpx_encoder_init env vo w h fps bitrate_kbps m =
     (if em_ctx m \<noteq> None then (m, 0)
      else (let (l, rc) = vpx_load_dll env (em_dll m); m' = m\<lparr>em_dll := l\<rparr> in
            if rc \<noteq> 0 then (m', - 1)
            else if \<not> vo_config vo then (m', - 2)
            else if \<not> vo_init vo then (m', - 3)
            else (case vo_img vo of
                    None \<Rightarrow> (m', - 4)
                  | Some room \<Rightarrow>
                      (m'\<lparr>em_ctx := Some \<lparr>ec_w = w, ec_h = h, ec_fps = fps, ec_bitrate = bitrate_kbps\<rparr>,
                          em_img := room, em_pts := 0\<rparr>, 0))))"

text \<open>Whether the library accepts the picture, and its packets: frame or not, and the bytes.\<close>

record vpx_frame =
  vf_ok :: bool
  vf_packets :: "(bool \<times> bytes) list"

definition vpx_collect :: "nat \<Rightarrow> nat \<Rightarrow> (bool \<times> bytes) list \<Rightarrow> bytes option" where
  "vpx_collect room cap pkts =
     fold_out (\<lambda>out (frame, b). if frame then fit_append room cap out b else Some out) [] pkts"

text \<open>
  \<open>None\<close>: a plane of the picture given is larger than the room of the codec's picture, or the packets leave the output
  buffer.
\<close>

definition vpx_encode_frame :: "vpx_frame \<Rightarrow> nat \<Rightarrow> nat \<Rightarrow> nat \<Rightarrow> nat \<Rightarrow> enc_mod \<Rightarrow> enc_mod \<times> (int + bytes) option" where
  "vpx_encode_frame f w h room cap m =
     (if em_ctx m = None then (m, Some (Inl (- 1)))
      else if fst (em_img m) < w * h \<or> snd (em_img m) < (w div 2) * (h div 2) then (m, None)
      else if \<not> vf_ok f then (m, Some (Inl (- 2)))
      else (m\<lparr>em_pts := em_pts m + 1\<rparr>, map_option Inr (vpx_collect room cap (vf_packets f))))"

definition vpx_encoder_close :: "enc_mod \<Rightarrow> enc_mod" where
  "vpx_encoder_close m = (if em_ctx m \<noteq> None then m\<lparr>em_ctx := None, em_img := (0, 0)\<rparr> else m)"

definition vp9Available :: "platform \<Rightarrow> dll_env \<Rightarrow> enc_mod \<Rightarrow> enc_mod \<times> bool" where
  "vp9Available p env m =
     (if \<not> is_windows p then (m, False)
      else (let (l, rc) = vpx_load_dll env (em_dll m) in (m\<lparr>em_dll := l\<rparr>, rc = 0)))"

definition vp9EncoderInit ::
  "platform \<Rightarrow> dll_env \<Rightarrow> vpx_open \<Rightarrow> nat \<Rightarrow> nat \<Rightarrow> int \<Rightarrow> int \<Rightarrow> enc_mod \<Rightarrow> enc_mod \<times> bool" where
  "vp9EncoderInit p env vo width height fps bitrateKbps m =
     (if \<not> is_windows p then (m, True)
      else (let (m', rc) = vpx_encoder_init env vo width height fps bitrateKbps m in
            if rc \<noteq> 0 then (m', False)
            else (m'\<lparr>em_initDone := True, em_i420 := replicate (i420_size width height) 0\<rparr>, True)))"

definition vp9EncodeFrame :: "platform \<Rightarrow> vpx_frame \<Rightarrow> bytes \<Rightarrow> nat \<Rightarrow> nat \<Rightarrow> enc_mod \<Rightarrow> enc_mod \<times> enc_result" where
  "vp9EncodeFrame p f bgra width height m =
     (if \<not> is_windows p then (m, EncData [])
      else i420_call bgra width height (vpx_encode_frame f width height max_nal_buf max_nal_buf) m)"

definition vp9EncoderClose :: "platform \<Rightarrow> enc_mod \<Rightarrow> enc_mod" where
  "vp9EncoderClose p m =
     (if is_windows p \<and> em_initDone m then (vpx_encoder_close m)\<lparr>em_initDone := False\<rparr> else m)"

section \<open>H.265\<close>

text \<open>The allocation of the parameters, the preset, the encoder and the picture.\<close>

record x265_open =
  xo_param :: bool
  xo_preset :: bool
  xo_open :: bool
  xo_pic :: bool

definition x265_encoder_init :: "dll_env \<Rightarrow> x265_open \<Rightarrow> nat \<Rightarrow> nat \<Rightarrow> int \<Rightarrow> int \<Rightarrow> enc_mod \<Rightarrow> enc_mod \<times> int" where
  "x265_encoder_init env xo w h fps bitrate_kbps m =
     (if em_ctx m \<noteq> None then (m, 0)
      else (let (l, rc) = x265_load_dll env (em_dll m); m' = m\<lparr>em_dll := l\<rparr> in
            if rc \<noteq> 0 then (m', - 1)
            else if \<not> xo_param xo then (m', - 2)
            else if \<not> xo_preset xo then (m', - 3)
            else if \<not> xo_open xo then (m', - 4)
            else if \<not> xo_pic xo then (m', - 5)
            else (m'\<lparr>em_ctx := Some \<lparr>ec_w = w, ec_h = h, ec_fps = fps, ec_bitrate = bitrate_kbps\<rparr>\<rparr>, 0)))"

text \<open>The return value of the encoder and its NAL units.\<close>

record x265_frame =
  xf_ret :: int
  xf_nals :: "bytes list"

definition x265_collect :: "nat \<Rightarrow> nat \<Rightarrow> bytes list \<Rightarrow> bytes option" where
  "x265_collect room cap nals = fold_out (fit_append room cap) [] nals"

definition x265_encode_frame :: "x265_frame \<Rightarrow> nat \<Rightarrow> nat \<Rightarrow> enc_mod \<Rightarrow> (int + bytes) option" where
  "x265_encode_frame f room cap m =
     (if em_ctx m = None then Some (Inl (- 1))
      else if xf_ret f < 0 then Some (Inl (- 2))
      else if xf_ret f = 0 \<or> xf_nals f = [] then Some (Inr [])
      else map_option Inr (x265_collect room cap (xf_nals f)))"

definition x265_encoder_close :: "enc_mod \<Rightarrow> enc_mod" where
  "x265_encoder_close m = m\<lparr>em_ctx := None\<rparr>"

text \<open>The Go part; without the build tag the stub of encode_h265_stub.go is compiled, on Windows too.\<close>

fun has_h265 :: "platform \<Rightarrow> bool" where
  "has_h265 (Windows tag) = tag"
| "has_h265 p = False"

definition h265Available :: "platform \<Rightarrow> dll_env \<Rightarrow> enc_mod \<Rightarrow> enc_mod \<times> bool" where
  "h265Available p env m =
     (if \<not> has_h265 p then (m, False)
      else (let (l, rc) = x265_load_dll env (em_dll m) in (m\<lparr>em_dll := l\<rparr>, rc = 0)))"

definition h265EncoderInit ::
  "platform \<Rightarrow> dll_env \<Rightarrow> x265_open \<Rightarrow> nat \<Rightarrow> nat \<Rightarrow> int \<Rightarrow> int \<Rightarrow> enc_mod \<Rightarrow> enc_mod \<times> bool" where
  "h265EncoderInit p env xo width height fps bitrateKbps m =
     (if \<not> has_h265 p then (m, True)
      else (let (m', rc) = x265_encoder_init env xo width height fps bitrateKbps m in
            if rc \<noteq> 0 then (m', False)
            else (m'\<lparr>em_initDone := True, em_i420 := replicate (i420_size width height) 0\<rparr>, True)))"

definition h265EncodeFrame :: "platform \<Rightarrow> x265_frame \<Rightarrow> bytes \<Rightarrow> nat \<Rightarrow> nat \<Rightarrow> enc_mod \<Rightarrow> enc_mod \<times> enc_result" where
  "h265EncodeFrame p f bgra width height m =
     (if \<not> has_h265 p then (m, EncData [])
      else i420_call bgra width height (\<lambda>m. (m, x265_encode_frame f max_nal_buf max_nal_buf m)) m)"

definition h265EncoderClose :: "platform \<Rightarrow> enc_mod \<Rightarrow> enc_mod" where
  "h265EncoderClose p m =
     (if has_h265 p \<and> em_initDone m then (x265_encoder_close m)\<lparr>em_initDone := False\<rparr> else m)"

section \<open>AV1\<close>

text \<open>The handle, the parameters and the initialisation.\<close>

record av1_open =
  ao_handle :: bool
  ao_params :: bool
  ao_init :: bool

definition av1_encoder_init :: "dll_env \<Rightarrow> av1_open \<Rightarrow> nat \<Rightarrow> nat \<Rightarrow> int \<Rightarrow> int \<Rightarrow> enc_mod \<Rightarrow> enc_mod \<times> int" where
  "av1_encoder_init env ao w h fps bitrate_kbps m =
     (if em_ctx m \<noteq> None then (m, 0)
      else (let (l, rc) = av1_load_dll env (em_dll m); m' = m\<lparr>em_dll := l\<rparr> in
            if rc \<noteq> 0 then (m', - 1)
            else if \<not> ao_handle ao then (m', - 2)
            else if \<not> ao_params ao then (m', - 3)
            else if \<not> ao_init ao then (m', - 4)
            else (m'\<lparr>em_ctx := Some \<lparr>ec_w = w, ec_h = h, ec_fps = fps, ec_bitrate = wrap32 (bitrate_kbps * 1000)\<rparr>,
                      em_pts := 0\<rparr>, 0)))"

text \<open>Whether the picture is accepted, and the packet of the encoder, when it has one.\<close>

record av1_frame =
  af_sent :: bool
  af_packet :: "bytes option"

definition av1_encode_frame :: "av1_frame \<Rightarrow> nat \<Rightarrow> nat \<Rightarrow> enc_mod \<Rightarrow> enc_mod \<times> (int + bytes) option" where
  "av1_encode_frame f room cap m =
     (if em_ctx m = None then (m, Some (Inl (- 1)))
      else (let m' = m\<lparr>em_pts := em_pts m + 1\<rparr> in
            if \<not> af_sent f then (m', Some (Inl (- 2)))
            else (case af_packet f of
                    None \<Rightarrow> (m', Some (Inr []))
                  | Some b \<Rightarrow>
                      (let sz = (if cap < length b then cap else length b) in
                       (m', map_option Inr (put_out room [] (take sz b)))))))"

definition av1_encoder_close :: "enc_mod \<Rightarrow> enc_mod" where
  "av1_encoder_close m = m\<lparr>em_ctx := None\<rparr>"

definition av1Available :: "platform \<Rightarrow> dll_env \<Rightarrow> enc_mod \<Rightarrow> enc_mod \<times> bool" where
  "av1Available p env m =
     (if \<not> is_windows p then (m, False)
      else (let (l, rc) = av1_load_dll env (em_dll m) in (m\<lparr>em_dll := l\<rparr>, rc = 0)))"

definition av1EncoderInit ::
  "platform \<Rightarrow> dll_env \<Rightarrow> av1_open \<Rightarrow> nat \<Rightarrow> nat \<Rightarrow> int \<Rightarrow> int \<Rightarrow> enc_mod \<Rightarrow> enc_mod \<times> bool" where
  "av1EncoderInit p env ao width height fps bitrateKbps m =
     (if \<not> is_windows p then (m, True)
      else (let (m', rc) = av1_encoder_init env ao width height fps bitrateKbps m in
            if rc \<noteq> 0 then (m', False)
            else (m'\<lparr>em_initDone := True, em_i420 := replicate (i420_size width height) 0\<rparr>, True)))"

definition av1EncodeFrame :: "platform \<Rightarrow> av1_frame \<Rightarrow> bytes \<Rightarrow> nat \<Rightarrow> nat \<Rightarrow> enc_mod \<Rightarrow> enc_mod \<times> enc_result" where
  "av1EncodeFrame p f bgra width height m =
     (if \<not> is_windows p then (m, EncData [])
      else i420_call bgra width height (av1_encode_frame f max_nal_buf max_nal_buf) m)"

definition av1EncoderClose :: "platform \<Rightarrow> enc_mod \<Rightarrow> enc_mod" where
  "av1EncoderClose p m =
     (if is_windows p \<and> em_initDone m then (av1_encoder_close m)\<lparr>em_initDone := False\<rparr> else m)"

section \<open>The output buffer\<close>

text \<open>When the capacity is at most the size of the buffer, no loop leaves it, and none writes more than the capacity.\<close>

lemma fit_append_fits: "cap \<le> room \<Longrightarrow> fit_append room cap out b \<noteq> None"
  by (simp add: fit_append_def put_out_def)

lemma fit_append_bound: "fit_append room cap out b = Some out' \<Longrightarrow> length out \<le> cap \<Longrightarrow> length out' \<le> cap"
  by (auto simp: fit_append_def put_out_def split: if_splits)

lemma fold_out_fits: "(\<And>out b. copy out b \<noteq> None) \<Longrightarrow> fold_out copy out bs \<noteq> None"
proof (induction bs arbitrary: out)
  case (Cons b bs)
  then obtain out' where "copy out b = Some out'" by blast
  with Cons.IH [OF Cons.prems] show ?case by simp
qed simp

lemma fold_out_bound:
  "fold_out copy out bs = Some out' \<Longrightarrow> (\<And>out b out'. copy out b = Some out' \<Longrightarrow> length out \<le> cap \<Longrightarrow> length out' \<le> cap) \<Longrightarrow>
     length out \<le> cap \<Longrightarrow> length out' \<le> cap"
  by (induction bs arbitrary: out) (auto split: option.splits)

lemma oh_layer_fits: "cap \<le> room \<Longrightarrow> oh_layer room cap out ns \<noteq> None"
  by (induction room cap out ns rule: oh_layer.induct) (auto simp: put_out_def split: if_splits)

lemma collects_fit:
  assumes "cap \<le> room"
  shows "oh_collect room cap layers \<noteq> None" "vpx_collect room cap pkts \<noteq> None" "x265_collect room cap nals \<noteq> None"
proof -
  show "oh_collect room cap layers \<noteq> None"
    unfolding oh_collect_def by (rule fold_out_fits) (rule oh_layer_fits [OF assms])
  show "vpx_collect room cap pkts \<noteq> None"
    unfolding vpx_collect_def by (rule fold_out_fits) (simp add: fit_append_fits [OF assms, simplified] case_prod_unfold)
  show "x265_collect room cap nals \<noteq> None"
    unfolding x265_collect_def by (rule fold_out_fits) (rule fit_append_fits [OF assms])
qed

end
