(* ===== verification/Wmf.thy ===== *)
theory Wmf
  imports Encoders
begin

text \<open>
  The WMF H.264 encoder of agent/encode_windows.go, its C part and its Go part, with the stubs of
  agent/encode_darwin.go and agent/encode_stub.go. What Media Foundation answers is an argument.
\<close>

section \<open>State\<close>

text \<open>
  The C part: the transform with what it was configured for, whether it provides its samples (never reset), the
  frame count and the number of \<open>MFStartup\<close> without a matching \<open>MFShutdown\<close>. The Go part: the flag and the two
  counters, which no operation resets.
\<close>

record wmf_mod =
  wm_encoder :: "enc_cfg option"
  wm_provides :: bool
  wm_frame_count :: nat
  wm_started :: int
  wm_initDone :: bool
  wm_inputs :: nat
  wm_outputs :: nat

definition closed_wmf :: wmf_mod where
  "closed_wmf = \<lparr>wm_encoder = None, wm_provides = False, wm_frame_count = 0, wm_started = 0,
     wm_initDone = False, wm_inputs = 0, wm_outputs = 0\<rparr>"

section \<open>Initialisation\<close>

text \<open>\<open>MFStartup\<close>, the two encoder classes in turn, the output and the input type, and the sample flag.\<close>

record wmf_open =
  wo_startup :: bool
  wo_class0 :: bool
  wo_class1 :: bool
  wo_setOut :: bool
  wo_setIn :: bool
  wo_provides :: bool

definition encoder_init :: "wmf_open \<Rightarrow> nat \<Rightarrow> nat \<Rightarrow> int \<Rightarrow> int \<Rightarrow> wmf_mod \<Rightarrow> wmf_mod \<times> int" where
  "encoder_init wo w h fps bitrate m =
     (if \<not> wo_startup wo then (m, - 1)
      else (let m' = m\<lparr>wm_started := wm_started m + 1, wm_encoder := None\<rparr> in
            if \<not> (wo_class0 wo \<or> wo_class1 wo) then (m', - 2)
            else if \<not> wo_setOut wo then (m', - 3)
            else if \<not> wo_setIn wo then (m', - 4)
            else (m'\<lparr>wm_encoder := Some \<lparr>ec_w = w, ec_h = h, ec_fps = fps, ec_bitrate = bitrate\<rparr>,
                      wm_provides := wm_provides m \<or> wo_provides wo, wm_frame_count := 0\<rparr>, 0)))"

definition encoder_close :: "wmf_mod \<Rightarrow> wmf_mod" where
  "encoder_close m = m\<lparr>wm_encoder := None, wm_started := wm_started m - 1\<rparr>"

section \<open>One frame\<close>

text \<open>
  The answers to \<open>ProcessInput\<close> (a failure with its HRESULT) and, call by call, to \<open>ProcessOutput\<close>.
\<close>

datatype mft_in = InputOk | InputNotAccepting | InputFailed nat

datatype mft_out = NeedMoreInput | StreamChange | OutputFailed | OutputSample "bytes list"

record wmf_frame =
  wf_alloc :: bool
  wf_input :: mft_in
  wf_outputs :: "mft_out list"

text \<open>
  The loop over \<open>ProcessOutput\<close>: it ends when the transform needs input or fails, and runs on otherwise;
  \<open>None\<close> when it has used all the answers or leaves the output buffer.
\<close>

fun wmf_drain :: "nat \<Rightarrow> nat \<Rightarrow> bytes \<Rightarrow> mft_out list \<Rightarrow> bytes option" where
  "wmf_drain room cap out [] = None"
| "wmf_drain room cap out (NeedMoreInput # os) = Some out"
| "wmf_drain room cap out (StreamChange # os) = wmf_drain room cap out os"
| "wmf_drain room cap out (OutputFailed # os) = Some out"
| "wmf_drain room cap out (OutputSample bufs # os) =
     (case fold_out (fit_append room cap) out bufs of None \<Rightarrow> None | Some out' \<Rightarrow> wmf_drain room cap out' os)"

text \<open>
  \<open>encode_frame\<close>; \<open>None\<close> when it does not return. A failed input gives minus the low half of its HRESULT, which
  reads as no output when that half is zero.
\<close>

definition encode_frame ::
  "wmf_frame \<Rightarrow> bytes \<Rightarrow> nat \<Rightarrow> nat \<Rightarrow> nat \<Rightarrow> nat \<Rightarrow> wmf_mod \<Rightarrow> wmf_mod \<times> (int + bytes) option" where
  "encode_frame f bgra w h room cap m =
     (if wm_encoder m = None then (m, Some (Inl (- 1)))
      else (case wmf_i420 bgra w h of
              None \<Rightarrow> (m, None)
            | Some i420 \<Rightarrow>
                if \<not> wf_alloc f then (m, Some (Inl (- 1)))
                else (let m' = m\<lparr>wm_frame_count := wm_frame_count m + 1\<rparr>;
                          drained = (m', map_option Inr (wmf_drain room cap [] (wf_outputs f))) in
                      case wf_input f of
                        InputFailed hr \<Rightarrow>
                          (m, Some (if hr mod 65536 = 0 then Inr [] else Inl (- int (hr mod 65536))))
                      | InputNotAccepting \<Rightarrow> drained
                      | InputOk \<Rightarrow> drained)))"

section \<open>The Go part\<close>

definition encoderInit :: "platform \<Rightarrow> wmf_open \<Rightarrow> nat \<Rightarrow> nat \<Rightarrow> int \<Rightarrow> int \<Rightarrow> wmf_mod \<Rightarrow> wmf_mod \<times> bool" where
  "encoderInit p wo width height fps bitrate m =
     (if \<not> is_windows p then (m, False)
      else (let (m', ret) = encoder_init wo width height fps bitrate m in
            if ret < 0 then (m', False) else (m'\<lparr>wm_initDone := True\<rparr>, True)))"

definition encodeFrame :: "platform \<Rightarrow> wmf_frame \<Rightarrow> bytes \<Rightarrow> nat \<Rightarrow> nat \<Rightarrow> wmf_mod \<Rightarrow> wmf_mod \<times> enc_result" where
  "encodeFrame p f bgra width height m =
     (if \<not> is_windows p then (m, EncErr)
      else if \<not> wm_initDone m then (m, EncErr)
      else if bgra = [] then (m, EncStuck)
      else (case encode_frame f bgra width height max_nal_buf max_nal_buf m of
              (m', None) \<Rightarrow> (m', EncStuck)
            | (m', Some r) \<Rightarrow>
                (let m'' = m'\<lparr>wm_inputs := wm_inputs m' + 1\<rparr> in
                 case r of
                   Inl n \<Rightarrow> (m'', EncErr)
                 | Inr out \<Rightarrow>
                     if out = [] then (m'', EncData [])
                     else (m''\<lparr>wm_outputs := wm_outputs m'' + 1\<rparr>, EncData (ensureAnnexB out)))))"

definition encoderClose :: "platform \<Rightarrow> wmf_mod \<Rightarrow> wmf_mod" where
  "encoderClose p m =
     (if is_windows p \<and> wm_initDone m then (encoder_close m)\<lparr>wm_initDone := False\<rparr> else m)"

section \<open>Lemmas\<close>

definition wmf_inv :: "wmf_mod \<Rightarrow> bool" where
  "wmf_inv m \<longleftrightarrow> (wm_initDone m \<longrightarrow> wm_encoder m \<noteq> None) \<and> wm_outputs m \<le> wm_inputs m"

lemma wmf_inv_closed: "wmf_inv closed_wmf"
  by (simp add: wmf_inv_def closed_wmf_def)

lemma encodeFrame_inv: "wmf_inv m \<Longrightarrow> wmf_inv (fst (encodeFrame p f bgra w h m))"
  by (auto simp: encodeFrame_def encode_frame_def wmf_inv_def Let_def
      split: option.splits sum.splits mft_in.splits if_splits)

lemma encoderClose_inv: "wmf_inv m \<Longrightarrow> wmf_inv (encoderClose p m)"
  by (auto simp: encoderClose_def encoder_close_def wmf_inv_def)

lemma encodeFrame_closed: "\<not> wm_initDone m \<Longrightarrow> encodeFrame p f bgra w h m = (m, EncErr)"
  by (simp add: encodeFrame_def)

lemma encoderClose_closed [simp]: "is_windows p \<Longrightarrow> \<not> wm_initDone (encoderClose p m)"
  by (simp add: encoderClose_def)

lemma wmf_drain_returns:
  "cap \<le> room \<Longrightarrow> wmf_drain room cap out os \<noteq> None \<longleftrightarrow> NeedMoreInput \<in> set os \<or> OutputFailed \<in> set os"
proof (induction room cap out os rule: wmf_drain.induct)
  case (5 room cap out bufs os)
  obtain out' where "fold_out (fit_append room cap) out bufs = Some out'"
    using fold_out_fits [of "fit_append room cap" out bufs] fit_append_fits [OF "5.prems"] by auto
  with 5 show ?case by simp
qed auto

lemma wmf_drain_bound: "wmf_drain room cap out os = Some res \<Longrightarrow> length out \<le> cap \<Longrightarrow> length res \<le> cap"
proof (induction room cap out os rule: wmf_drain.induct)
  case (5 room cap out bufs os)
  then obtain out' where o: "fold_out (fit_append room cap) out bufs = Some out'" by (auto split: option.splits)
  have "length out' \<le> cap" using fold_out_bound [OF o fit_append_bound "5.prems"(2)] .
  with 5 o show ?case by simp
qed auto

end
