(* ===== verification/Encoder_Contract.thy ===== *)
theory Encoder_Contract
  imports Wmf
begin

text \<open>
  What the stream loops rely on when they use an encoder module, as a locale, and its four instances on Windows:
  OpenH264, VP9, H.265 and AV1. The contract says that a module is open exactly when its flag is set, that a
  closed module opens for the dimensions asked, that an open one keeps its old context, and that a picture of
  the right size is encoded without leaving a buffer.
\<close>

section \<open>The invariant of a module\<close>

definition mod_inv :: "enc_mod \<Rightarrow> bool" where
  "mod_inv m \<longleftrightarrow> (em_initDone m \<longleftrightarrow> em_ctx m \<noteq> None) \<and> (em_ctx m \<noteq> None \<longrightarrow> em_dll m)"

definition ctx_dims :: "enc_mod \<Rightarrow> (nat \<times> nat) option" where
  "ctx_dims m = map_option (\<lambda>c. (ec_w c, ec_h c)) (em_ctx m)"

text \<open>The planes of a picture fit the codec's own picture, where it has one (\<open>roomy\<close> is the room given).\<close>

definition room_for :: "nat \<Rightarrow> nat \<Rightarrow> nat \<times> nat \<Rightarrow> bool" where
  "room_for w h room \<longleftrightarrow> w * h \<le> fst room \<and> (w div 2) * (h div 2) \<le> snd room"

definition buf_for :: "nat \<Rightarrow> nat \<Rightarrow> enc_mod \<Rightarrow> bool" where
  "buf_for w h m \<longleftrightarrow> length (em_i420 m) = i420_size w h"

definition full_frame :: "bytes \<Rightarrow> nat \<Rightarrow> nat \<Rightarrow> bool" where
  "full_frame bgra w h \<longleftrightarrow> w * h * 4 \<le> length bgra \<and> 0 < w * h"

lemma mod_inv_closed [simp]: "mod_inv closed_mod" "em_ctx closed_mod = None"
  by (simp_all add: mod_inv_def closed_mod_def)

lemma i420_size_pos: "0 < w * h \<Longrightarrow> 0 < i420_size w h"
  by (simp add: i420_size_def)

text \<open>What the call of an encoder on a picture does, from what its library call does.\<close>

lemma i420_call_closed: "\<not> em_initDone m \<Longrightarrow> i420_call bgra w h enc m = (m, EncErr)"
  by (simp add: i420_call_def)

lemma i420_call_fits:
  assumes "full_frame bgra w h" "buf_for w h m"
    and "\<And>buf. length buf = length (em_i420 m) \<Longrightarrow> snd (enc (m\<lparr>em_i420 := buf\<rparr>)) \<noteq> None"
  shows "snd (i420_call bgra w h enc m) \<noteq> EncStuck"
proof -
  have b: "bgraToI420 bgra w h (em_i420 m) = Some (i420_planes clamp_luma clamp_chroma bgra w h)"
    using assms(1,2) gen_i420_planes [of w h bgra "em_i420 m"]
    by (simp add: bgraToI420_gen full_frame_def buf_for_def)
  let ?p = "i420_planes clamp_luma clamp_chroma bgra w h"
  have l: "length ?p = length (em_i420 m)" using assms(2) by (simp add: buf_for_def)
  have ne: "?p \<noteq> []"
    using assms(1) i420_size_pos [of w h] by (metis full_frame_def length_i420_planes less_irrefl list.size(3))
  from assms(3) [OF l] show ?thesis
    using b ne by (auto simp: i420_call_def split: prod.splits option.splits sum.splits)
qed

text \<open>Encoding changes neither the context nor the sizes of the buffers.\<close>

definition same_open :: "enc_mod \<Rightarrow> enc_mod \<Rightarrow> bool" where
  "same_open m m' \<longleftrightarrow> em_ctx m' = em_ctx m \<and> em_initDone m' = em_initDone m \<and> em_dll m' = em_dll m
     \<and> em_img m' = em_img m \<and> length (em_i420 m') = length (em_i420 m)"

lemma same_open_trans [trans]: "same_open m m' \<Longrightarrow> same_open m' m'' \<Longrightarrow> same_open m m''"
  by (simp add: same_open_def)

lemma same_open_refl [simp]: "same_open m m"
  by (simp add: same_open_def)

lemma i420_call_same:
  assumes "\<And>m. same_open m (fst (enc m))"
  shows "same_open m (fst (i420_call bgra w h enc m))"
proof (cases "bgraToI420 bgra w h (em_i420 m)")
  case (Some buf)
  have "length buf = length (em_i420 m)"
    using gen_i420_length [of clamp_luma clamp_chroma bgra w h "em_i420 m" buf] Some by (simp add: bgraToI420_gen)
  then have "same_open m (m\<lparr>em_i420 := buf\<rparr>)" by (simp add: same_open_def)
  from same_open_trans [OF this assms] show ?thesis
    by (auto simp: i420_call_def Some split: prod.splits option.splits sum.splits)
qed (simp add: i420_call_def)

section \<open>The contract\<close>

locale encoder_module =
  fixes init :: "'o \<Rightarrow> nat \<Rightarrow> nat \<Rightarrow> int \<Rightarrow> int \<Rightarrow> enc_mod \<Rightarrow> enc_mod \<times> bool"
    and encode :: "'f \<Rightarrow> bytes \<Rightarrow> nat \<Rightarrow> nat \<Rightarrow> enc_mod \<Rightarrow> enc_mod \<times> enc_result"
    and close :: "enc_mod \<Rightarrow> enc_mod"
    and roomy :: "'o \<Rightarrow> nat \<Rightarrow> nat \<Rightarrow> bool"
    and room_ok :: "nat \<Rightarrow> nat \<Rightarrow> enc_mod \<Rightarrow> bool"
  assumes init_fresh: "mod_inv m \<Longrightarrow> em_ctx m = None \<Longrightarrow> init a w h fps br m = (m', ok) \<Longrightarrow>
      mod_inv m' \<and> (if ok then ctx_dims m' = Some (w, h) \<and> buf_for w h m' else em_ctx m' = None)"
    and init_room: "em_ctx m = None \<Longrightarrow> init a w h fps br m = (m', True) \<Longrightarrow> roomy a w h \<Longrightarrow> room_ok w h m'"
    and init_stale: "mod_inv m \<Longrightarrow> em_ctx m = Some c \<Longrightarrow> init a w h fps br m = (m', ok) \<Longrightarrow>
      ok \<and> em_ctx m' = Some c \<and> buf_for w h m' \<and> em_img m' = em_img m \<and> mod_inv m'"
    and encode_same: "same_open m (fst (encode f bgra w h m))"
    and encode_closed: "\<not> em_initDone m \<Longrightarrow> encode f bgra w h m = (m, EncErr)"
    and encode_fits: "full_frame bgra w h \<Longrightarrow> buf_for w h m \<Longrightarrow> room_ok w h m \<Longrightarrow>
      snd (encode f bgra w h m) \<noteq> EncStuck"
    and room_same: "room_ok w h m \<Longrightarrow> same_open m m' \<Longrightarrow> room_ok w h m'"
    and close_closes: "mod_inv m \<Longrightarrow> em_ctx (close m) = None \<and> mod_inv (close m)"

text \<open>Operations on a module, their results, and the order of use the loops keep to: close before opening again.\<close>

datatype ('o, 'f) enc_op =
    OpInit 'o nat nat int int
  | OpEncode 'f bytes nat nat
  | OpClose

fun enc_results ::
  "('o \<Rightarrow> nat \<Rightarrow> nat \<Rightarrow> int \<Rightarrow> int \<Rightarrow> enc_mod \<Rightarrow> enc_mod \<times> bool) \<Rightarrow>
   ('f \<Rightarrow> bytes \<Rightarrow> nat \<Rightarrow> nat \<Rightarrow> enc_mod \<Rightarrow> enc_mod \<times> enc_result) \<Rightarrow>
   (enc_mod \<Rightarrow> enc_mod) \<Rightarrow> enc_mod \<Rightarrow> ('o, 'f) enc_op list \<Rightarrow> enc_result list" where
  "enc_results init encode close m [] = []"
| "enc_results init encode close m (OpInit a w h fps br # ops) =
     enc_results init encode close (fst (init a w h fps br m)) ops"
| "enc_results init encode close m (OpEncode f bgra w h # ops) =
     snd (encode f bgra w h m) # enc_results init encode close (fst (encode f bgra w h m)) ops"
| "enc_results init encode close m (OpClose # ops) = enc_results init encode close (close m) ops"

fun disciplined :: "('o \<Rightarrow> nat \<Rightarrow> nat \<Rightarrow> bool) \<Rightarrow> (nat \<times> nat) option \<Rightarrow> ('o, 'f) enc_op list \<Rightarrow> bool" where
  "disciplined roomy cur [] = True"
| "disciplined roomy cur (OpInit a w h fps br # ops) =
     (cur = None \<and> roomy a w h \<and> disciplined roomy (Some (w, h)) ops)"
| "disciplined roomy cur (OpEncode f bgra w h # ops) =
     (cur = Some (w, h) \<and> full_frame bgra w h \<and> disciplined roomy cur ops)"
| "disciplined roomy cur (OpClose # ops) = disciplined roomy None ops"

context encoder_module
begin

definition open_or_closed :: "(nat \<times> nat) option \<Rightarrow> enc_mod \<Rightarrow> bool" where
  "open_or_closed cur m \<longleftrightarrow> mod_inv m \<and>
     (case cur of None \<Rightarrow> em_ctx m = None
      | Some (w, h) \<Rightarrow> em_ctx m = None \<or> (ctx_dims m = Some (w, h) \<and> buf_for w h m \<and> room_ok w h m))"

lemma encode_keeps_open: "open_or_closed cur m \<Longrightarrow> open_or_closed cur (fst (encode f bgra w h m))"
  using encode_same [of m f bgra w h] room_same
  by (auto simp: open_or_closed_def mod_inv_def ctx_dims_def buf_for_def same_open_def split: option.splits)

theorem disciplined_not_stuck:
  "open_or_closed cur m \<Longrightarrow> disciplined roomy cur ops \<Longrightarrow> EncStuck \<notin> set (enc_results init encode close m ops)"
proof (induction ops arbitrary: cur m)
  case Nil
  show ?case by simp
next
  case (Cons op ops)
  show ?case
  proof (cases op)
    case (OpInit a w h fps br)
    obtain m' ok where i: "init a w h fps br m = (m', ok)" by fastforce
    have "cur = None" "roomy a w h" "disciplined roomy (Some (w, h)) ops" using Cons.prems(2) OpInit by auto
    moreover from this have "open_or_closed (Some (w, h)) m'"
      using init_fresh [OF _ _ i] init_room [of m a w h fps br m'] i Cons.prems(1)
      by (cases ok) (auto simp: open_or_closed_def)
    ultimately show ?thesis using Cons.IH OpInit i by simp
  next
    case (OpEncode f bgra w h)
    have c: "cur = Some (w, h)" "full_frame bgra w h" "disciplined roomy cur ops" using Cons.prems(2) OpEncode by auto
    have "snd (encode f bgra w h m) \<noteq> EncStuck"
    proof (cases "em_ctx m")
      case None
      then have "\<not> em_initDone m" using Cons.prems(1) by (simp add: open_or_closed_def mod_inv_def)
      then show ?thesis by (simp add: encode_closed)
    next
      case Some
      then show ?thesis
        using Cons.prems(1) c encode_fits [OF c(2)] by (simp add: open_or_closed_def)
    qed
    then show ?thesis using Cons.IH [OF encode_keeps_open [OF Cons.prems(1)] c(3)] OpEncode by auto
  next
    case OpClose
    have "open_or_closed None (close m)"
      using Cons.prems(1) close_closes [of m] by (simp add: open_or_closed_def)
    then show ?thesis using Cons.IH Cons.prems(2) OpClose by auto
  qed
qed

text \<open>An open module opened again for other dimensions says it succeeded and keeps the old ones.\<close>

theorem reopen_keeps_dims:
  assumes "mod_inv m" "ctx_dims m = Some (w0, h0)"
  shows "snd (init a w h fps br m) \<and> ctx_dims (fst (init a w h fps br m)) = Some (w0, h0)
    \<and> buf_for w h (fst (init a w h fps br m))"
proof -
  obtain c where c: "em_ctx m = Some c" using assms(2) by (auto simp: ctx_dims_def)
  obtain m' ok where i: "init a w h fps br m = (m', ok)" by fastforce
  from init_stale [OF assms(1) c i] show ?thesis using assms(2) c i by (simp add: ctx_dims_def)
qed

end

section \<open>The four modules on Windows\<close>

definition oh_init_w :: "dll_env \<times> oh_open \<Rightarrow> nat \<Rightarrow> nat \<Rightarrow> int \<Rightarrow> int \<Rightarrow> enc_mod \<Rightarrow> enc_mod \<times> bool" where
  "oh_init_w a = openH264Init (Windows True) (fst a) (snd a)"

definition vp9_init_w :: "dll_env \<times> vpx_open \<Rightarrow> nat \<Rightarrow> nat \<Rightarrow> int \<Rightarrow> int \<Rightarrow> enc_mod \<Rightarrow> enc_mod \<times> bool" where
  "vp9_init_w a = vp9EncoderInit (Windows True) (fst a) (snd a)"

definition h265_init_w :: "dll_env \<times> x265_open \<Rightarrow> nat \<Rightarrow> nat \<Rightarrow> int \<Rightarrow> int \<Rightarrow> enc_mod \<Rightarrow> enc_mod \<times> bool" where
  "h265_init_w a = h265EncoderInit (Windows True) (fst a) (snd a)"

definition av1_init_w :: "dll_env \<times> av1_open \<Rightarrow> nat \<Rightarrow> nat \<Rightarrow> int \<Rightarrow> int \<Rightarrow> enc_mod \<Rightarrow> enc_mod \<times> bool" where
  "av1_init_w a = av1EncoderInit (Windows True) (fst a) (snd a)"

text \<open>
  \<open>vpx_img_alloc\<close> gives a picture with room for the dimensions it was asked for: a hypothesis on the answers.
\<close>

definition vpx_roomy :: "dll_env \<times> vpx_open \<Rightarrow> nat \<Rightarrow> nat \<Rightarrow> bool" where
  "vpx_roomy a w h = (case vo_img (snd a) of None \<Rightarrow> True | Some room \<Rightarrow> room_for w h room)"

definition img_room :: "nat \<Rightarrow> nat \<Rightarrow> enc_mod \<Rightarrow> bool" where
  "img_room w h m = room_for w h (em_img m)"

lemmas oh_defs = oh_init_w_def openH264Init_def oh_encoder_init_def openH264EncodeFrame_def oh_encode_frame_def
  openH264Close_def oh_encoder_close_def
lemmas vp9_defs = vp9_init_w_def vp9EncoderInit_def vpx_encoder_init_def vp9EncodeFrame_def vpx_encode_frame_def
  vp9EncoderClose_def vpx_encoder_close_def
lemmas h265_defs = h265_init_w_def h265EncoderInit_def x265_encoder_init_def h265EncodeFrame_def
  x265_encode_frame_def h265EncoderClose_def x265_encoder_close_def
lemmas av1_defs = av1_init_w_def av1EncoderInit_def av1_encoder_init_def av1EncodeFrame_def av1_encode_frame_def
  av1EncoderClose_def av1_encoder_close_def
lemmas contract_defs = mod_inv_def ctx_dims_def buf_for_def

lemma load_dll_rc: "oh_load_dll env l = (l', 0) \<Longrightarrow> l'" "vpx_load_dll env l = (l', 0) \<Longrightarrow> l'"
  "x265_load_dll env l = (l', 0) \<Longrightarrow> l'" "av1_load_dll env l = (l', 0) \<Longrightarrow> l'"
  by (auto simp: oh_load_dll_def vpx_load_dll_def x265_load_dll_def av1_load_dll_def load_dll_def split: if_splits)

lemma load_dll_loaded [simp]: "oh_load_dll env True = (True, 0)" "vpx_load_dll env True = (True, 0)"
  "x265_load_dll env True = (True, 0)" "av1_load_dll env True = (True, 0)"
  by (simp_all add: oh_load_dll_def vpx_load_dll_def x265_load_dll_def av1_load_dll_def load_dll_def)

lemma encode_same_w:
  "same_open m (fst (openH264EncodeFrame (Windows True) f1 bgra w h m))"
  "same_open m (fst (vp9EncodeFrame (Windows True) f2 bgra w h m))"
  "same_open m (fst (h265EncodeFrame (Windows True) f3 bgra w h m))"
  "same_open m (fst (av1EncodeFrame (Windows True) f4 bgra w h m))"
proof -
  have "same_open m (fst (vpx_encode_frame f2 w h room cap m))" "same_open m (fst (av1_encode_frame f4 room cap m))" for room cap m
    by (auto simp: vpx_encode_frame_def av1_encode_frame_def same_open_def Let_def split: option.splits)
  then show
    "same_open m (fst (openH264EncodeFrame (Windows True) f1 bgra w h m))"
    "same_open m (fst (vp9EncodeFrame (Windows True) f2 bgra w h m))"
    "same_open m (fst (h265EncodeFrame (Windows True) f3 bgra w h m))"
    "same_open m (fst (av1EncodeFrame (Windows True) f4 bgra w h m))"
    by (simp_all add: openH264EncodeFrame_def vp9EncodeFrame_def h265EncodeFrame_def av1EncodeFrame_def
        i420_call_same)
qed

lemmas encode_frame_defs = oh_encode_frame_def vpx_encode_frame_def x265_encode_frame_def av1_encode_frame_def

lemma library_fits:
  assumes "cap \<le> room"
  shows "oh_encode_frame f1 room cap m \<noteq> None"
    "room_for w h (em_img m) \<Longrightarrow> snd (vpx_encode_frame f2 w h room cap m) \<noteq> None"
    "x265_encode_frame f3 room cap m \<noteq> None" "snd (av1_encode_frame f4 room cap m) \<noteq> None"
  using collects_fit [OF assms] assms
  by (simp_all add: encode_frame_defs put_out_def room_for_def Let_def split: option.split)

lemma encode_fits_w:
  assumes "full_frame bgra w h" "buf_for w h m"
  shows "snd (openH264EncodeFrame (Windows True) f1 bgra w h m) \<noteq> EncStuck"
    "img_room w h m \<Longrightarrow> snd (vp9EncodeFrame (Windows True) f2 bgra w h m) \<noteq> EncStuck"
    "snd (h265EncodeFrame (Windows True) f3 bgra w h m) \<noteq> EncStuck"
    "snd (av1EncodeFrame (Windows True) f4 bgra w h m) \<noteq> EncStuck"
proof -
  note fits = i420_call_fits [OF assms]
  show "snd (openH264EncodeFrame (Windows True) f1 bgra w h m) \<noteq> EncStuck"
    by (simp add: openH264EncodeFrame_def fits library_fits [simplified])
  show "snd (vp9EncodeFrame (Windows True) f2 bgra w h m) \<noteq> EncStuck" if "img_room w h m"
    using that by (simp add: vp9EncodeFrame_def img_room_def fits library_fits [simplified])
  show "snd (h265EncodeFrame (Windows True) f3 bgra w h m) \<noteq> EncStuck"
    by (simp add: h265EncodeFrame_def fits library_fits [simplified])
  show "snd (av1EncodeFrame (Windows True) f4 bgra w h m) \<noteq> EncStuck"
    by (simp add: av1EncodeFrame_def fits library_fits [simplified])
qed

lemma encode_closed_w:
  assumes "\<not> em_initDone m"
  shows "openH264EncodeFrame (Windows True) f1 bgra w h m = (m, EncErr)"
    "vp9EncodeFrame (Windows True) f2 bgra w h m = (m, EncErr)"
    "h265EncodeFrame (Windows True) f3 bgra w h m = (m, EncErr)"
    "av1EncodeFrame (Windows True) f4 bgra w h m = (m, EncErr)"
  using assms
  by (simp_all add: openH264EncodeFrame_def vp9EncodeFrame_def h265EncodeFrame_def av1EncodeFrame_def
      i420_call_closed)

lemma img_room_same: "img_room w h m \<Longrightarrow> same_open m m' \<Longrightarrow> img_room w h m'"
  by (simp add: img_room_def same_open_def)

lemma vp9_init_room:
  "em_ctx m = None \<Longrightarrow> vp9_init_w a w h fps br m = (m', True) \<Longrightarrow> vpx_roomy a w h \<Longrightarrow> img_room w h m'"
  by (auto simp: img_room_def vpx_roomy_def vp9_init_w_def vp9EncoderInit_def vpx_encoder_init_def Let_def
      split: if_splits prod.splits option.splits)

lemmas encode_w = encode_same_w encode_fits_w encode_closed_w

interpretation oh: encoder_module oh_init_w "openH264EncodeFrame (Windows True)" "openH264Close (Windows True)"
  "\<lambda>a w h. True" "\<lambda>w h m. True"
proof unfold_locales
  fix m a w h fps br m' ok
  assume "mod_inv m" "em_ctx m = None" "oh_init_w a w h fps br m = (m', ok)"
  then show "mod_inv m' \<and> (if ok then ctx_dims m' = Some (w, h) \<and> buf_for w h m' else em_ctx m' = None)"
    by (auto simp: oh_defs contract_defs Let_def dest: load_dll_rc split: if_splits prod.splits option.splits)
next
  fix m c a w h fps br m' ok
  assume "mod_inv m" "em_ctx m = Some c" "oh_init_w a w h fps br m = (m', ok)"
  then show "ok \<and> em_ctx m' = Some c \<and> buf_for w h m' \<and> em_img m' = em_img m \<and> mod_inv m'"
    by (auto simp: oh_defs contract_defs)
next
  fix m
  assume "mod_inv m"
  then show "em_ctx (openH264Close (Windows True) m) = None \<and> mod_inv (openH264Close (Windows True) m)"
    by (auto simp: oh_defs mod_inv_def)
qed (auto simp: encode_w)

interpretation vp9: encoder_module vp9_init_w "vp9EncodeFrame (Windows True)" "vp9EncoderClose (Windows True)"
  vpx_roomy img_room
proof unfold_locales
  fix m a w h fps br m' ok
  assume "mod_inv m" "em_ctx m = None" "vp9_init_w a w h fps br m = (m', ok)"
  then show "mod_inv m' \<and> (if ok then ctx_dims m' = Some (w, h) \<and> buf_for w h m' else em_ctx m' = None)"
    by (auto simp: vp9_defs contract_defs Let_def dest: load_dll_rc split: if_splits prod.splits option.splits)
next
  fix m c a w h fps br m' ok
  assume "mod_inv m" "em_ctx m = Some c" "vp9_init_w a w h fps br m = (m', ok)"
  then show "ok \<and> em_ctx m' = Some c \<and> buf_for w h m' \<and> em_img m' = em_img m \<and> mod_inv m'"
    by (auto simp: vp9_defs contract_defs)
next
  fix m
  assume "mod_inv m"
  then show "em_ctx (vp9EncoderClose (Windows True) m) = None \<and> mod_inv (vp9EncoderClose (Windows True) m)"
    by (auto simp: vp9_defs mod_inv_def)
qed (auto simp: encode_w intro: img_room_same vp9_init_room)

interpretation h265: encoder_module h265_init_w "h265EncodeFrame (Windows True)" "h265EncoderClose (Windows True)"
  "\<lambda>a w h. True" "\<lambda>w h m. True"
proof unfold_locales
  fix m a w h fps br m' ok
  assume "mod_inv m" "em_ctx m = None" "h265_init_w a w h fps br m = (m', ok)"
  then show "mod_inv m' \<and> (if ok then ctx_dims m' = Some (w, h) \<and> buf_for w h m' else em_ctx m' = None)"
    by (auto simp: h265_defs contract_defs Let_def dest: load_dll_rc split: if_splits prod.splits option.splits)
next
  fix m c a w h fps br m' ok
  assume "mod_inv m" "em_ctx m = Some c" "h265_init_w a w h fps br m = (m', ok)"
  then show "ok \<and> em_ctx m' = Some c \<and> buf_for w h m' \<and> em_img m' = em_img m \<and> mod_inv m'"
    by (auto simp: h265_defs contract_defs)
next
  fix m
  assume "mod_inv m"
  then show "em_ctx (h265EncoderClose (Windows True) m) = None \<and> mod_inv (h265EncoderClose (Windows True) m)"
    by (auto simp: h265_defs mod_inv_def)
qed (auto simp: encode_w)

interpretation av1: encoder_module av1_init_w "av1EncodeFrame (Windows True)" "av1EncoderClose (Windows True)"
  "\<lambda>a w h. True" "\<lambda>w h m. True"
proof unfold_locales
  fix m a w h fps br m' ok
  assume "mod_inv m" "em_ctx m = None" "av1_init_w a w h fps br m = (m', ok)"
  then show "mod_inv m' \<and> (if ok then ctx_dims m' = Some (w, h) \<and> buf_for w h m' else em_ctx m' = None)"
    by (auto simp: av1_defs contract_defs Let_def dest: load_dll_rc split: if_splits prod.splits option.splits)
next
  fix m c a w h fps br m' ok
  assume "mod_inv m" "em_ctx m = Some c" "av1_init_w a w h fps br m = (m', ok)"
  then show "ok \<and> em_ctx m' = Some c \<and> buf_for w h m' \<and> em_img m' = em_img m \<and> mod_inv m'"
    by (auto simp: av1_defs contract_defs)
next
  fix m
  assume "mod_inv m"
  then show "em_ctx (av1EncoderClose (Windows True) m) = None \<and> mod_inv (av1EncoderClose (Windows True) m)"
    by (auto simp: av1_defs mod_inv_def)
qed (auto simp: encode_w)

section \<open>Properties of the encoders\<close>

text \<open>
  C18. As long as an encoder is closed before it is opened again and is given frames of the dimensions it was
  opened for, no call of OpenH264, VP9, H.265 or AV1 leaves a buffer, whatever the libraries answer (for VP9, that
  its picture has room for the dimensions asked).
\<close>
theorem encoders_disciplined:
  "(disciplined (\<lambda>a w h. True) None ops1 \<longrightarrow>
      EncStuck \<notin> set (enc_results oh_init_w (openH264EncodeFrame (Windows True)) (openH264Close (Windows True)) closed_mod ops1))
   \<and> (disciplined vpx_roomy None ops2 \<longrightarrow>
      EncStuck \<notin> set (enc_results vp9_init_w (vp9EncodeFrame (Windows True)) (vp9EncoderClose (Windows True)) closed_mod ops2))
   \<and> (disciplined (\<lambda>a w h. True) None ops3 \<longrightarrow>
      EncStuck \<notin> set (enc_results h265_init_w (h265EncodeFrame (Windows True)) (h265EncoderClose (Windows True)) closed_mod ops3))
   \<and> (disciplined (\<lambda>a w h. True) None ops4 \<longrightarrow>
      EncStuck \<notin> set (enc_results av1_init_w (av1EncodeFrame (Windows True)) (av1EncoderClose (Windows True)) closed_mod ops4))"
  by (intro conjI impI oh.disciplined_not_stuck vp9.disciplined_not_stuck h265.disciplined_not_stuck
      av1.disciplined_not_stuck)
    (auto simp: oh.open_or_closed_def vp9.open_or_closed_def h265.open_or_closed_def av1.open_or_closed_def)

definition demo_dll :: dll_env where
  "demo_dll = \<lparr>de_loads = (\<lambda>n. True), de_exe_dir = None, de_symbols = True\<rparr>"

definition demo_vpx :: "dll_env \<times> vpx_open" where
  "demo_vpx = (demo_dll, \<lparr>vo_config = True, vo_init = True, vo_img = Some (4, 1)\<rparr>)"

lemma encoders_disciplined_witness:
  "EncStuck \<notin> set (enc_results vp9_init_w (vp9EncodeFrame (Windows True)) (vp9EncoderClose (Windows True)) closed_mod
     [OpInit demo_vpx 2 2 30 20000, OpEncode \<lparr>vf_ok = True, vf_packets = [(True, [7])]\<rparr> (replicate 16 255) 2 2])"
proof -
  have "disciplined vpx_roomy None
     [OpInit demo_vpx 2 2 30 20000, OpEncode \<lparr>vf_ok = True, vf_packets = [(True, [7])]\<rparr> (replicate 16 255) 2 2]"
    by (simp add: vpx_roomy_def demo_vpx_def room_for_def full_frame_def)
  then show ?thesis using encoders_disciplined by blast
qed

text \<open>
  An encoder that is still open when it is opened again keeps the context of the old dimensions; for VP9 the copy of
  the first frame then runs over the planes of the codec's picture, when the frame does not fit them.
\<close>

lemma reopened_vp9_overflows:
  assumes "mod_inv m" "ctx_dims m = Some (w0, h0)" "full_frame bgra w h" "\<not> img_room w h m"
  shows "snd (vp9EncodeFrame (Windows True) f bgra w h (fst (vp9_init_w a w h fps br m))) = EncStuck"
proof -
  obtain cx where cx: "em_ctx m = Some cx" using assms(2) by (auto simp: ctx_dims_def)
  obtain m' ok where m': "vp9_init_w a w h fps br m = (m', ok)" by fastforce
  have k: "em_ctx m' = Some cx" "buf_for w h m'" "em_img m' = em_img m" "em_initDone m'"
    using vp9.init_stale [OF assms(1) cx m'] by (auto simp: mod_inv_def)
  have "bgraToI420 bgra w h (em_i420 m') = Some (i420_planes clamp_luma clamp_chroma bgra w h)"
    using assms(3) k(2) gen_i420_planes [of w h bgra "em_i420 m'"]
    by (simp add: bgraToI420_gen full_frame_def buf_for_def)
  moreover have "vpx_encode_frame f w h max_nal_buf max_nal_buf (m'\<lparr>em_i420 := buf\<rparr>) = (m'\<lparr>em_i420 := buf\<rparr>, None)" for buf
    using assms(4) k by (auto simp: vpx_encode_frame_def img_room_def room_for_def)
  ultimately show ?thesis
    using k(4) by (simp add: vp9EncodeFrame_def i420_call_def m')
qed

end
