(* ===== verification/Video.thy ===== *)
theory Video
  imports Encoder_Contract Bitrate
begin

text \<open>
  The choice of an encoder in a stream: its start, the codec switch, the monitor switch, the frame and the end, as
  \<open>run\<close> of agent/stream.go and \<open>runHelperMode\<close> of agent/remote_session_windows.go have them. The two loops have the
  same code here; what they send differs and is in the theories Stream and Helper.
\<close>

section \<open>State\<close>

datatype video_codec = JPEG | H264 | VP9 | H265 | AV1

text \<open>\<open>frameTypeJPEG\<close> to \<open>frameTypeAudio\<close>.\<close>

fun frame_code :: "video_codec \<Rightarrow> byte" where
  "frame_code JPEG = 0x01"
| "frame_code H264 = 0x02"
| "frame_code VP9 = 0x03"
| "frame_code H265 = 0x04"
| "frame_code AV1 = 0x05"

definition frameTypeAudio :: byte where
  "frameTypeAudio = 0x06"

lemma frame_code_inject [simp]: "frame_code a = frame_code b \<longleftrightarrow> a = b"
  by (cases a; cases b) simp_all

text \<open>The order of the codecs is the order of their frame types.\<close>

instantiation video_codec :: linorder
begin

definition less_eq_video_codec :: "video_codec \<Rightarrow> video_codec \<Rightarrow> bool" where
  "less_eq_video_codec a b \<longleftrightarrow> frame_code a \<le> frame_code b"

definition less_video_codec :: "video_codec \<Rightarrow> video_codec \<Rightarrow> bool" where
  "less_video_codec a b \<longleftrightarrow> frame_code a < frame_code b"

instance
proof
  fix x y z :: video_codec
  show "x < y \<longleftrightarrow> x \<le> y \<and> \<not> y \<le> x" by (simp add: less_eq_video_codec_def less_video_codec_def less_le_not_le)
  show "x \<le> x" by (simp add: less_eq_video_codec_def)
  show "x \<le> y \<Longrightarrow> y \<le> z \<Longrightarrow> x \<le> z" by (auto simp: less_eq_video_codec_def)
  show "x \<le> y \<Longrightarrow> y \<le> x \<Longrightarrow> x = y" unfolding less_eq_video_codec_def by (metis antisym frame_code_inject)
  show "x \<le> y \<or> y \<le> x" by (auto simp: less_eq_video_codec_def)
qed

end

text \<open>The encoder modules, which outlive a stream, and the variables of the loop.\<close>

record video =
  vd_oh :: enc_mod
  vd_vp9 :: enc_mod
  vd_h265 :: enc_mod
  vd_av1 :: enc_mod
  vd_wmf :: wmf_mod
  vd_useOpenH264 :: bool
  vd_useJPEG :: bool
  vd_useVP9 :: bool
  vd_useH265 :: bool
  vd_useAV1 :: bool
  vd_w :: nat
  vd_h :: nat
  vd_pts :: int
  vd_tsMs :: int

definition stream_fps :: int where
  "stream_fps = 30"

definition stream_bitrate :: int where
  "stream_bitrate = 20000000"

text \<open>What the codec libraries answer to the calls of one step.\<close>

record codec_env =
  ce_oh_dll :: dll_env
  ce_vp9_dll :: dll_env
  ce_h265_dll :: dll_env
  ce_av1_dll :: dll_env
  ce_oh_open :: oh_open
  ce_vp9_open :: vpx_open
  ce_h265_open :: x265_open
  ce_av1_open :: av1_open
  ce_wmf_open :: wmf_open
  ce_oh_frame :: oh_frame
  ce_vp9_frame :: vpx_frame
  ce_h265_frame :: x265_frame
  ce_av1_frame :: av1_frame
  ce_wmf_frame :: wmf_frame
  ce_jpeg :: "nat \<Rightarrow> nat \<Rightarrow> bytes \<Rightarrow> nat \<Rightarrow> bytes option"

section \<open>Start and end\<close>

text \<open>OpenH264 when it is available and opens: used by the start, the codec switch and the monitor switch.\<close>

definition try_openH264 :: "platform \<Rightarrow> codec_env \<Rightarrow> video \<Rightarrow> video" where
  "try_openH264 p e vd =
     (let (m, avail) = openH264Available p (ce_oh_dll e) (vd_oh vd) in
      if \<not> avail then vd\<lparr>vd_oh := m\<rparr>
      else (let (m', ok) = openH264Init p (ce_oh_dll e) (ce_oh_open e) (vd_w vd) (vd_h vd) stream_fps stream_bitrate m in
            if ok then vd\<lparr>vd_oh := m', vd_useOpenH264 := True\<rparr> else vd\<lparr>vd_oh := m'\<rparr>))"

definition init_encoders :: "platform \<Rightarrow> codec_env \<Rightarrow> nat \<Rightarrow> nat \<Rightarrow> video \<Rightarrow> video" where
  "init_encoders p e width height vd =
     (let vd1 = try_openH264 p e (vd\<lparr>vd_useOpenH264 := False, vd_useJPEG := False, vd_useVP9 := False,
                 vd_useH265 := False, vd_useAV1 := False, vd_w := width, vd_h := height, vd_pts := 0, vd_tsMs := 0\<rparr>) in
      if vd_useOpenH264 vd1 then vd1
      else vd1\<lparr>vd_wmf := fst (encoderInit p (ce_wmf_open e) width height stream_fps stream_bitrate (vd_wmf vd1))\<rparr>)"

text \<open>The deferred function: OpenH264 if it is in use at the end, else WMF.\<close>

definition close_at_end :: "platform \<Rightarrow> video \<Rightarrow> video" where
  "close_at_end p vd =
     (if vd_useOpenH264 vd then vd\<lparr>vd_oh := openH264Close p (vd_oh vd)\<rparr>
      else vd\<lparr>vd_wmf := encoderClose p (vd_wmf vd)\<rparr>)"

section \<open>Switching\<close>

text \<open>The four conditional closes that begin both switches.\<close>

definition close_in_use :: "platform \<Rightarrow> video \<Rightarrow> video" where
  "close_in_use p vd =
     (let vd1 = (if vd_useOpenH264 vd then vd\<lparr>vd_oh := openH264Close p (vd_oh vd), vd_useOpenH264 := False\<rparr> else vd);
          vd2 = (if vd_useVP9 vd1 then vd1\<lparr>vd_vp9 := vp9EncoderClose p (vd_vp9 vd1), vd_useVP9 := False\<rparr> else vd1);
          vd3 = (if vd_useH265 vd2 then vd2\<lparr>vd_h265 := h265EncoderClose p (vd_h265 vd2), vd_useH265 := False\<rparr> else vd2)
      in if vd_useAV1 vd3 then vd3\<lparr>vd_av1 := av1EncoderClose p (vd_av1 vd3), vd_useAV1 := False\<rparr> else vd3)"

definition switch_h264 :: "platform \<Rightarrow> codec_env \<Rightarrow> video \<Rightarrow> video" where
  "switch_h264 p e vd =
     (let vd' = try_openH264 p e vd in if vd_useOpenH264 vd' then vd' else vd'\<lparr>vd_useJPEG := True\<rparr>)"

definition switch_h265 :: "platform \<Rightarrow> codec_env \<Rightarrow> video \<Rightarrow> video" where
  "switch_h265 p e vd =
     (let (m, avail) = h265Available p (ce_h265_dll e) (vd_h265 vd) in
      if \<not> avail then vd\<lparr>vd_h265 := m, vd_useJPEG := True\<rparr>
      else (let (m', ok) = h265EncoderInit p (ce_h265_dll e) (ce_h265_open e) (vd_w vd) (vd_h vd) stream_fps
                             (go_div stream_bitrate 1000) m in
            if ok then vd\<lparr>vd_h265 := m', vd_useH265 := True\<rparr> else vd\<lparr>vd_h265 := m', vd_useJPEG := True\<rparr>))"

definition switch_vp9 :: "platform \<Rightarrow> codec_env \<Rightarrow> video \<Rightarrow> video" where
  "switch_vp9 p e vd =
     (let (m', ok) = vp9EncoderInit p (ce_vp9_dll e) (ce_vp9_open e) (vd_w vd) (vd_h vd) stream_fps
                       (go_div stream_bitrate 1000) (vd_vp9 vd) in
      if ok then vd\<lparr>vd_vp9 := m', vd_useVP9 := True\<rparr> else vd\<lparr>vd_vp9 := m', vd_useJPEG := True\<rparr>)"

definition switch_av1 :: "platform \<Rightarrow> codec_env \<Rightarrow> video \<Rightarrow> video" where
  "switch_av1 p e vd =
     (let (m, avail) = av1Available p (ce_av1_dll e) (vd_av1 vd) in
      if \<not> avail then vd\<lparr>vd_av1 := m, vd_useJPEG := True\<rparr>
      else (let (m', ok) = av1EncoderInit p (ce_av1_dll e) (ce_av1_open e) (vd_w vd) (vd_h vd) stream_fps
                             (go_div stream_bitrate 1000) m in
            if ok then vd\<lparr>vd_av1 := m', vd_useAV1 := True\<rparr> else vd\<lparr>vd_av1 := m', vd_useJPEG := True\<rparr>))"

definition switch_codec :: "platform \<Rightarrow> codec_env \<Rightarrow> string \<Rightarrow> video \<Rightarrow> video" where
  "switch_codec p e newCodec vd =
     (let vd1 = close_in_use p vd;
          vd2 = (if \<not> vd_useJPEG vd1 then vd1\<lparr>vd_wmf := encoderClose p (vd_wmf vd1)\<rparr> else vd1);
          vd3 = vd2\<lparr>vd_useJPEG := False\<rparr>
      in if newCodec = ''h264'' then switch_h264 p e vd3
         else if newCodec = ''h265'' then switch_h265 p e vd3
         else if newCodec = ''vp9'' then switch_vp9 p e vd3
         else if newCodec = ''av1'' then switch_av1 p e vd3
         else if newCodec = ''jpeg'' then vd3\<lparr>vd_useJPEG := True\<rparr>
         else vd3)"

text \<open>
  The monitor switch: everything is closed, and opened again when the new monitor (its dimensions, or none) can be
  captured.
\<close>

definition switch_monitor :: "platform \<Rightarrow> codec_env \<Rightarrow> (nat \<times> nat) option \<Rightarrow> video \<Rightarrow> video" where
  "switch_monitor p e capture vd =
     (let vd1 = close_in_use p vd;
          vd2 = vd1\<lparr>vd_wmf := encoderClose p (vd_wmf vd1), vd_useJPEG := False\<rparr>
      in case capture of
           None \<Rightarrow> vd2
         | Some (w, h) \<Rightarrow> switch_h264 p e (vd2\<lparr>vd_w := w, vd_h := h\<rparr>))"

section \<open>One frame\<close>

definition jpegFallbackThreshold :: nat where
  "jpegFallbackThreshold = 30"

text \<open>
  What a captured frame leads to: a frame to send, the switch to JPEG after WMF gave nothing for long enough,
  nothing, or a call that does not return.
\<close>

datatype frame_out = FrameOut video_codec bytes | FrameFallback | FrameNone | FrameStuck

fun frame_of :: "video_codec \<Rightarrow> enc_result \<Rightarrow> frame_out" where
  "frame_of c EncErr = FrameNone"
| "frame_of c EncStuck = FrameStuck"
| "frame_of c (EncData b) = (if b = [] then FrameNone else FrameOut c b)"

definition wmf_frame_step :: "platform \<Rightarrow> codec_env \<Rightarrow> bytes \<Rightarrow> video \<Rightarrow> video \<times> frame_out" where
  "wmf_frame_step p e bgra vd =
     (let (m, r) = encodeFrame p (ce_wmf_frame e) bgra (vd_w vd) (vd_h vd) (vd_wmf vd); vd1 = vd\<lparr>vd_wmf := m\<rparr> in
      case r of
        EncErr \<Rightarrow> (vd1, FrameNone)
      | EncStuck \<Rightarrow> (vd1, FrameStuck)
      | EncData b \<Rightarrow>
          (let vd2 = vd1\<lparr>vd_pts := vd_pts vd1 + go_div (go_div time_second stream_fps) 100\<rparr> in
           if b \<noteq> [] then (vd2, FrameOut H264 b)
           else if jpegFallbackThreshold \<le> wm_inputs m \<and> wm_outputs m = 0
                then (vd2\<lparr>vd_useJPEG := True, vd_wmf := encoderClose p m\<rparr>, FrameFallback)
                else (vd2, FrameNone)))"

definition encode_step :: "platform \<Rightarrow> codec_env \<Rightarrow> bytes \<Rightarrow> video \<Rightarrow> video \<times> frame_out" where
  "encode_step p e bgra vd =
     (let w = vd_w vd; h = vd_h vd in
      if vd_useJPEG vd then
        (case encodeJPEG (ce_jpeg e) bgra w h 15 of
           None \<Rightarrow> (vd, FrameStuck)
         | Some None \<Rightarrow> (vd, FrameNone)
         | Some (Some b) \<Rightarrow> (vd, FrameOut JPEG b))
      else if vd_useAV1 vd then
        (let (m, r) = av1EncodeFrame p (ce_av1_frame e) bgra w h (vd_av1 vd) in (vd\<lparr>vd_av1 := m\<rparr>, frame_of AV1 r))
      else if vd_useH265 vd then
        (let (m, r) = h265EncodeFrame p (ce_h265_frame e) bgra w h (vd_h265 vd) in (vd\<lparr>vd_h265 := m\<rparr>, frame_of H265 r))
      else if vd_useVP9 vd then
        (let (m, r) = vp9EncodeFrame p (ce_vp9_frame e) bgra w h (vd_vp9 vd) in (vd\<lparr>vd_vp9 := m\<rparr>, frame_of VP9 r))
      else if vd_useOpenH264 vd then
        (let (m, r) = openH264EncodeFrame p (ce_oh_frame e) bgra w h (vd_oh vd) in
         (vd\<lparr>vd_oh := m, vd_tsMs := vd_tsMs vd + go_div 1000 stream_fps\<rparr>, frame_of H264 r))
      else wmf_frame_step p e bgra vd)"

definition set_bitrate :: "platform \<Rightarrow> int \<Rightarrow> video \<Rightarrow> video" where
  "set_bitrate p bitrate vd = vd\<lparr>vd_oh := openH264SetBitrate p bitrate (vd_oh vd)\<rparr>"

end
