(* ===== verification/Stream.thy ===== *)
theory Stream
  imports Video Input_Backends
begin

text \<open>
  The direct stream of agent/stream.go: \<open>run\<close> with its start, the reader goroutine, the keepalive and audio tickers,
  the main loop and the deferred calls of its end. One step of the model is one event of one goroutine; the main loop
  takes its cases one at a time, in any order the channels allow. \<open>stop\<close> takes three steps: the stop channel is closed in
  the step of the caller, the close frame and the end of the connection follow, and the other goroutines go on between.
\<close>

section \<open>State\<close>

text \<open>What goes out over the WebSocket: text (a JSON value), binary, ping, pong and the close frame.\<close>

datatype ws_out = OutText json | OutBinary bytes | OutPing | OutPong bytes | OutClose

text \<open>
  A stream: the encoders, the input state and the events it caused, the four channels, the idle and warning
  deadlines (none once a timer was read), the bitrate controller, what was written, whether capture is open, whether
  audio is, which goroutines run (the main loop, the reader, the keepalive and the audio ticker), and how far \<open>stop\<close> is:
  the stop channel closed, the close frame written (or lost), the connection closed. A call that does not return ends
  the process.
\<close>

record stream_state =
  ss_video :: video
  ss_input :: input_state
  ss_events :: "os_event list"
  ss_inputCh :: "bytes list"
  ss_codecCh :: "string list"
  ss_monitorCh :: "int list"
  ss_blockCh :: "bool list"
  ss_idleAt :: "int option"
  ss_warnAt :: "int option"
  ss_warningSent :: bool
  ss_ab :: adaptiveBitrate
  ss_out :: "ws_out list"
  ss_recording :: bool
  ss_clipboard :: "string list"
  ss_codecs :: "string list"
  ss_capture :: bool
  ss_audio :: bool
  ss_main :: bool
  ss_reader :: bool
  ss_keepTick :: bool
  ss_audioTick :: bool
  ss_stopped :: bool
  ss_closing :: bool
  ss_closed :: bool
  ss_crashed :: bool

definition inactivityTimeout :: int where
  "inactivityTimeout = 10 * 60 * time_second"

definition inactivityWarning :: int where
  "inactivityWarning = 30 * time_second"

text \<open>A write: it fails on a connection this side has closed, and when the network says so.\<close>

definition ws_write :: "bool \<Rightarrow> ws_out \<Rightarrow> stream_state \<Rightarrow> stream_state \<times> bool" where
  "ws_write ok out s =
     (if ok \<and> \<not> ss_closed s then (s\<lparr>ss_out := ss_out s @ [out]\<rparr>, True) else (s, False))"

definition ws_try :: "bool \<Rightarrow> ws_out \<Rightarrow> stream_state \<Rightarrow> stream_state" where
  "ws_try ok out s = fst (ws_write ok out s)"

text \<open>
  The body of \<open>stop\<close>, which its \<open>once\<close> runs a single time: the call closes the stop channel; the goroutine that
  called goes on with \<open>ws.Close\<close>, which writes the close frame and then closes the connection.
\<close>

definition session_stop :: "stream_state \<Rightarrow> stream_state" where
  "session_stop s = s\<lparr>ss_stopped := True\<rparr>"

definition ws_Close :: "bool \<Rightarrow> stream_state \<Rightarrow> stream_state" where
  "ws_Close ok s =
     (if \<not> ss_stopped s \<or> ss_closed s then s
      else if \<not> ss_closing s then (ws_try ok OutClose s)\<lparr>ss_closing := True\<rparr>
      else s\<lparr>ss_closed := True\<rparr>)"

section \<open>Messages\<close>

definition error_msg :: "string \<Rightarrow> json" where
  "error_msg err = go_map [(''type'', JStr ''error''), (''message'', JStr (''Screen capture unavailable: '' @ err))]"

text \<open>\<open>monitors\<close> is the JSON of the monitor list; the first init message has the audio fields, later ones do not.\<close>

definition init_msg :: "nat \<Rightarrow> nat \<Rightarrow> string list \<Rightarrow> json \<Rightarrow> int \<Rightarrow> bool \<Rightarrow> json" where
  "init_msg w h codecs monitors audioRate audioAvail =
     go_map [(''type'', JStr ''init''), (''width'', JInt (int w)), (''height'', JInt (int h)), (''fps'', JInt stream_fps),
       (''codec'', JStr ''h264''), (''codecs'', JArr (map JStr codecs)), (''monitors'', monitors),
       (''audioRate'', JInt audioRate), (''audioAvail'', JBool audioAvail)]"

definition reinit_msg :: "nat \<Rightarrow> nat \<Rightarrow> string list \<Rightarrow> json \<Rightarrow> json" where
  "reinit_msg w h codecs monitors =
     go_map [(''type'', JStr ''init''), (''width'', JInt (int w)), (''height'', JInt (int h)), (''fps'', JInt stream_fps),
       (''codec'', JStr ''h264''), (''codecs'', JArr (map JStr codecs)), (''monitors'', monitors)]"

definition warning_msg :: json where
  "warning_msg = go_map [(''type'', JStr ''inactivity_warning''), (''seconds'', JInt (inactivityWarning div time_second))]"

definition timeout_msg :: json where
  "timeout_msg = go_map [(''type'', JStr ''inactivity_timeout'')]"

definition block_msg :: "bool \<Rightarrow> json" where
  "block_msg b = go_map [(''type'', JStr ''input_block_status''), (''blocked'', JBool b)]"

definition codec_msg :: "string \<Rightarrow> json" where
  "codec_msg c = go_map [(''type'', JStr ''codec_switch''), (''codec'', JStr c)]"

definition bitrate_msg :: "int \<Rightarrow> json" where
  "bitrate_msg b = go_map [(''type'', JStr ''bitrate''), (''bitrate'', JInt b)]"

definition clipboard_msg :: "string \<Rightarrow> json" where
  "clipboard_msg t = go_map [(''type'', JStr ''clipboard_content''), (''text'', JStr t)]"

section \<open>The start\<close>

text \<open>
  What the start asks the system: the capture (its error, or its dimensions and the origin of the monitor), the
  codecs, the input backend, the monitors as JSON, the audio (the sample rate when another stream of the process has
  it open, and whether \<open>audioInit\<close> opens it) and the first write.
\<close>

record start_env =
  se_capture :: "string + ((nat \<times> nat) \<times> (int \<times> int))"
  se_codecs :: codec_env
  se_input :: input_env
  se_monitors :: json
  se_audio_before :: "int option"
  se_audio :: bool
  se_write :: bool

definition available_codecs :: "bool \<Rightarrow> string list" where
  "available_codecs h265 = [''h264'', ''jpeg''] @ (if h265 then [''h265''] else []) @ [''vp9'', ''av1'']"

text \<open>The deferred calls: audio, watermark, encoders, capture, input block, and the stop of the session.\<close>

definition stream_end :: "platform \<Rightarrow> stream_state \<Rightarrow> stream_state" where
  "stream_end p s =
     (let (inp, ev) = inputUnblock p (ss_input s) in
      session_stop (s\<lparr>ss_audio := False, ss_video := close_at_end p (ss_video s), ss_capture := False, ss_input := inp,
        ss_events := ss_events s @ ev, ss_main := False\<rparr>))"

text \<open>An end before the encoders exist closes none, and before the capture is open closes none of it.\<close>

definition early_end :: "platform \<Rightarrow> stream_state \<Rightarrow> stream_state" where
  "early_end p s =
     (let (inp, ev) = inputUnblock p (ss_input s) in
      session_stop (s\<lparr>ss_capture := False, ss_input := inp, ss_events := ss_events s @ ev, ss_main := False\<rparr>))"

definition new_stream :: "video \<Rightarrow> input_state \<Rightarrow> stream_state" where
  "new_stream vd inp = \<lparr>ss_video = vd, ss_input = inp, ss_events = [], ss_inputCh = [], ss_codecCh = [], ss_monitorCh = [],
     ss_blockCh = [], ss_idleAt = None, ss_warnAt = None, ss_warningSent = False, ss_ab = newAdaptiveBitrate stream_fps,
     ss_out = [], ss_recording = False, ss_clipboard = [], ss_codecs = [], ss_capture = False, ss_audio = False,
     ss_main = True, ss_reader = False, ss_keepTick = False, ss_audioTick = False, ss_stopped = False, ss_closing = False,
     ss_closed = False, ss_crashed = False\<rparr>"

text \<open>
  The start of \<open>run\<close> at the time \<open>now\<close>. The init message reports the audio as it is before \<open>audioInit\<close>.
\<close>

definition stream_start :: "platform \<Rightarrow> start_env \<Rightarrow> int \<Rightarrow> video \<Rightarrow> input_state \<Rightarrow> stream_state" where
  "stream_start p e now vd inp =
     (let s = new_stream vd inp in
      case se_capture e of
        Inl err \<Rightarrow> early_end p (ws_try (se_write e) (OutText (error_msg err)) s)
      | Inr ((w, h), (ox, oy)) \<Rightarrow>
          if w = 0 \<or> h = 0 then early_end p s
          else
            (let vd1 = init_encoders p (se_codecs e) w h vd;
                 inp1 = setInputMonitorOffset p (se_input e) ox oy inp;
                 (h265, avail) = h265Available p (ce_h265_dll (se_codecs e)) (vd_h265 vd1);
                 codecs = available_codecs avail;
                 (rate, audio) = (case se_audio_before e of None \<Rightarrow> (48000, False) | Some r \<Rightarrow> (r, True));
                 (s1, ok) = ws_write (se_write e) (OutText (init_msg w h codecs (se_monitors e) rate audio))
                   (s\<lparr>ss_video := vd1\<lparr>vd_h265 := h265\<rparr>, ss_input := inp1, ss_capture := True, ss_codecs := codecs\<rparr>)
             in if \<not> ok then stream_end p s1
                else s1\<lparr>ss_audio := se_audio e, ss_reader := True, ss_keepTick := True, ss_audioTick := se_audio e,
                        ss_idleAt := Some (now + inactivityTimeout),
                        ss_warnAt := Some (now + (inactivityTimeout - inactivityWarning))\<rparr>))"

section \<open>The reader\<close>

text \<open>The control fields of a text message; an error in any of them makes it plain input.\<close>

record peek =
  pk_Type :: string
  pk_Codec :: string
  pk_Index :: int
  pk_Block :: bool
  pk_Recording :: bool

definition dec_peek :: "json \<Rightarrow> peek option" where
  "dec_peek j =
     (case dec_struct j of
        None \<Rightarrow> None
      | Some kvs \<Rightarrow>
          (let (ty, k1) = dec_string ''type'' kvs; (c, k2) = dec_string ''codec'' kvs; (i, k3) = dec_int ''index'' kvs;
               (b, k4) = dec_bool ''block'' kvs; (r, k5) = dec_bool ''recording'' kvs
           in if k1 \<and> k2 \<and> k3 \<and> k4 \<and> k5
              then Some \<lparr>pk_Type = ty, pk_Codec = c, pk_Index = i, pk_Block = b, pk_Recording = r\<rparr> else None))"

definition clip_text :: "json \<Rightarrow> string option" where
  "clip_text j =
     (case dec_struct j of
        None \<Rightarrow> None
      | Some kvs \<Rightarrow> (case dec_string ''text'' kvs of (t, ok) \<Rightarrow> if ok then Some t else None))"

text \<open>
  One text message: \<open>um\<close> parses it; \<open>clip\<close> is the clipboard of the machine (empty off Windows) and \<open>ok\<close> whether a write
  succeeds.
\<close>

definition read_text :: "platform \<Rightarrow> (bytes \<Rightarrow> json option) \<Rightarrow> string \<Rightarrow> bool \<Rightarrow> bytes \<Rightarrow> stream_state \<Rightarrow> stream_state" where
  "read_text p um clip ok payload s =
     (let j = um payload;
          plain = s\<lparr>ss_inputCh := try_send 64 (ss_inputCh s) payload\<rparr> in
      case Option.bind j dec_peek of
        None \<Rightarrow> plain
      | Some pk \<Rightarrow>
          if pk_Type pk = ''set_recording'' then s\<lparr>ss_recording := is_windows p \<and> pk_Recording pk\<rparr>
          else if pk_Type pk = ''set_codec'' then s\<lparr>ss_codecCh := try_send 4 (ss_codecCh s) (pk_Codec pk)\<rparr>
          else if pk_Type pk = ''set_monitor'' then s\<lparr>ss_monitorCh := try_send 4 (ss_monitorCh s) (pk_Index pk)\<rparr>
          else if pk_Type pk = ''set_input_block'' then s\<lparr>ss_blockCh := try_send 4 (ss_blockCh s) (pk_Block pk)\<rparr>
          else if pk_Type pk = ''clipboard_set'' then
            (case Option.bind j clip_text of
               None \<Rightarrow> s
             | Some t \<Rightarrow> if is_windows p then s\<lparr>ss_clipboard := ss_clipboard s @ [t]\<rparr> else s)
          else if pk_Type pk = ''clipboard_get'' then
            ws_try ok (OutText (clipboard_msg (if is_windows p then clip else []))) s
          else plain)"

definition read_frame :: "platform \<Rightarrow> (bytes \<Rightarrow> json option) \<Rightarrow> string \<Rightarrow> bool \<Rightarrow> byte \<Rightarrow> bytes \<Rightarrow> stream_state \<Rightarrow> stream_state" where
  "read_frame p um clip ok opcode payload s =
     (if \<not> ss_reader s then s
      else if opcode = 0x8 then session_stop (s\<lparr>ss_reader := False\<rparr>)
      else if opcode = 0x9 then ws_try ok (OutPong payload) s
      else if opcode = 0x1 then read_text p um clip ok payload s
      else s)"

definition read_error :: "stream_state \<Rightarrow> stream_state" where
  "read_error s = (if ss_reader s then session_stop (s\<lparr>ss_reader := False\<rparr>) else s)"

section \<open>The main loop\<close>

definition resetIdleTimer :: "int \<Rightarrow> stream_state \<Rightarrow> stream_state" where
  "resetIdleTimer now s =
     s\<lparr>ss_idleAt := Some (now + inactivityTimeout), ss_warnAt := Some (now + (inactivityTimeout - inactivityWarning)),
       ss_warningSent := False\<rparr>"

definition due :: "int \<Rightarrow> int option \<Rightarrow> bool" where
  "due now t = (case t of None \<Rightarrow> False | Some at \<Rightarrow> at \<le> now)"

definition on_warning :: "bool \<Rightarrow> stream_state \<Rightarrow> stream_state" where
  "on_warning ok s =
     (let s1 = s\<lparr>ss_warnAt := None\<rparr> in
      if ss_warningSent s1 then s1 else ws_try ok (OutText warning_msg) (s1\<lparr>ss_warningSent := True\<rparr>))"

definition on_idle :: "platform \<Rightarrow> bool \<Rightarrow> stream_state \<Rightarrow> stream_state" where
  "on_idle p ok s = stream_end p (ws_try ok (OutText timeout_msg) s)"

definition on_block :: "platform \<Rightarrow> bool \<Rightarrow> stream_state \<Rightarrow> stream_state" where
  "on_block p ok s =
     (case ss_blockCh s of
        [] \<Rightarrow> s
      | b # bs \<Rightarrow>
          (let (inp, ev) = inputBlock p b (ss_input s) in
           ws_try ok (OutText (block_msg b)) (s\<lparr>ss_blockCh := bs, ss_input := inp, ss_events := ss_events s @ ev\<rparr>)))"

definition on_input :: "platform \<Rightarrow> (bytes \<Rightarrow> json option) \<Rightarrow> input_env \<Rightarrow> int \<Rightarrow> stream_state \<Rightarrow> stream_state" where
  "on_input p um e now s =
     (case ss_inputCh s of
        [] \<Rightarrow> s
      | payload # rest \<Rightarrow>
          (let (inp, ev) = handle_input p e (um payload) (ss_input s) in
           (resetIdleTimer now s)\<lparr>ss_inputCh := rest, ss_input := inp, ss_events := ss_events s @ ev\<rparr>))"

text \<open>
  The monitor switch: \<open>capture\<close> gives, for the index asked, the dimensions and the origin of the monitor, or fails.
\<close>

definition on_monitor ::
  "platform \<Rightarrow> codec_env \<Rightarrow> input_env \<Rightarrow> (int \<Rightarrow> ((nat \<times> nat) \<times> (int \<times> int)) option) \<Rightarrow> json \<Rightarrow> int \<Rightarrow> bool \<Rightarrow>
     stream_state \<Rightarrow> stream_state" where
  "on_monitor p ce ie capture monitors now ok s =
     (case ss_monitorCh s of
        [] \<Rightarrow> s
      | idx # rest \<Rightarrow>
          (let s1 = (resetIdleTimer now s)\<lparr>ss_monitorCh := rest, ss_capture := False\<rparr> in
           case capture idx of
             None \<Rightarrow> s1\<lparr>ss_video := switch_monitor p ce None (ss_video s)\<rparr>
           | Some ((w, h), (ox, oy)) \<Rightarrow>
               ws_try ok (OutText (reinit_msg w h (ss_codecs s) monitors))
                 (s1\<lparr>ss_video := switch_monitor p ce (Some (w, h)) (ss_video s), ss_capture := True,
                     ss_input := setInputMonitorOffset p ie ox oy (ss_input s)\<rparr>)))"

definition on_codec :: "platform \<Rightarrow> codec_env \<Rightarrow> int \<Rightarrow> bool \<Rightarrow> stream_state \<Rightarrow> stream_state" where
  "on_codec p ce now ok s =
     (case ss_codecCh s of
        [] \<Rightarrow> s
      | c # rest \<Rightarrow>
          ws_try ok (OutText (codec_msg c))
            ((resetIdleTimer now s)\<lparr>ss_codecCh := rest, ss_video := switch_codec p ce c (ss_video s)\<rparr>))"

text \<open>\<open>sendAndAdapt\<close>: the frame, then, when the controller moves, the encoder and the browser are told.\<close>

definition sendAndAdapt :: "platform \<Rightarrow> bool \<Rightarrow> int \<Rightarrow> bool \<Rightarrow> bytes \<Rightarrow> stream_state \<Rightarrow> stream_state \<times> bool" where
  "sendAndAdapt p ok sendTime ok2 frame s =
     (let (s1, sent) = ws_write ok (OutBinary frame) s in
      if \<not> sent then (s1, False)
      else (let (ab, newBr) = report (ss_ab s1) sendTime; s2 = s1\<lparr>ss_ab := ab\<rparr> in
            if newBr \<le> 0 then (s2, True)
            else (ws_try ok2 (OutText (bitrate_msg newBr))
                    (if vd_useOpenH264 (ss_video s2) then s2\<lparr>ss_video := set_bitrate p newBr (ss_video s2)\<rparr> else s2),
                  True)))"

text \<open>The process ends in the middle of a call: with it the goroutines and the connection.\<close>

definition process_dies :: "stream_state \<Rightarrow> stream_state" where
  "process_dies s =
     s\<lparr>ss_crashed := True, ss_main := False, ss_reader := False, ss_keepTick := False, ss_audioTick := False,
       ss_stopped := True, ss_closing := True, ss_closed := True\<rparr>"

text \<open>
  The frame ticker: \<open>captureFrame\<close> gives an error, or the dimensions and the pixels in a buffer of the size the loop
  allocated.
\<close>

definition on_frame ::
  "platform \<Rightarrow> codec_env \<Rightarrow> ((nat \<times> nat) \<times> bytes) option \<Rightarrow> bool \<Rightarrow> int \<Rightarrow> bool \<Rightarrow> stream_state \<Rightarrow> stream_state" where
  "on_frame p ce captured ok sendTime ok2 s =
     (case captured of
        None \<Rightarrow> s
      | Some ((w, h), bgra) \<Rightarrow>
          if w \<noteq> vd_w (ss_video s) \<or> h \<noteq> vd_h (ss_video s) then stream_end p s
          else
            (let (vd, r) = encode_step p ce bgra (ss_video s); s1 = s\<lparr>ss_video := vd\<rparr> in
             case r of
               FrameNone \<Rightarrow> s1
             | FrameStuck \<Rightarrow> process_dies s1
             | FrameFallback \<Rightarrow> ws_try ok (OutText (codec_msg ''jpeg'')) s1
             | FrameOut c b \<Rightarrow>
                 (let (s2, sent) = sendAndAdapt p ok sendTime ok2 (frame_code c # b) s1 in
                  if sent then s2 else stream_end p s2)))"

section \<open>The tickers\<close>

text \<open>
  Each ticker waits for its time or the stop channel; when both are there it takes either, so that a tick can still
  come after the channel was closed. A failed ping stops the stream; an audio chunk that fails is lost.
\<close>

definition keepalive :: "bool \<Rightarrow> stream_state \<Rightarrow> stream_state" where
  "keepalive ok s =
     (if \<not> ss_keepTick s then s
      else (let (s1, sent) = ws_write ok OutPing s in if sent then s1 else session_stop (s1\<lparr>ss_keepTick := False\<rparr>)))"

definition keepalive_stop :: "stream_state \<Rightarrow> stream_state" where
  "keepalive_stop s = (if ss_stopped s then s\<lparr>ss_keepTick := False\<rparr> else s)"

text \<open>\<open>audioCapture\<close> gives nothing once the audio was closed.\<close>

definition audio_tick :: "bool \<Rightarrow> bytes \<Rightarrow> stream_state \<Rightarrow> stream_state" where
  "audio_tick ok data s =
     (if \<not> ss_audioTick s \<or> \<not> ss_audio s \<or> data = [] then s else ws_try ok (OutBinary (frameTypeAudio # data)) s)"

definition audio_stop :: "stream_state \<Rightarrow> stream_state" where
  "audio_stop s = (if ss_stopped s then s\<lparr>ss_audioTick := False\<rparr> else s)"

section \<open>Steps\<close>

text \<open>
  The events, with what the system answers: a frame or an error at the reader, the tickers and their ends, a stop asked
  for by a command (\<open>stopStream\<close>), a step of the goroutine that stops, and the cases of the main loop; a case whose
  channel has nothing to read does not happen.
\<close>

datatype stream_event =
    EvRead byte bytes string bool
  | EvReadError
  | EvKeepalive bool
  | EvKeepaliveStop
  | EvAudio bool bytes
  | EvAudioStop
  | EvStopStream
  | EvClose bool
  | EvStop
  | EvWarning int bool
  | EvIdle int bool
  | EvBlock bool
  | EvInput input_env int
  | EvMonitor codec_env input_env "int \<Rightarrow> ((nat \<times> nat) \<times> (int \<times> int)) option" json int bool
  | EvCodec codec_env int bool
  | EvFrame codec_env "((nat \<times> nat) \<times> bytes) option" bool int bool

definition main_step :: "(stream_state \<Rightarrow> stream_state) \<Rightarrow> stream_state \<Rightarrow> stream_state" where
  "main_step f s = (if ss_main s then f s else s)"

fun stream_step :: "platform \<Rightarrow> (bytes \<Rightarrow> json option) \<Rightarrow> stream_event \<Rightarrow> stream_state \<Rightarrow> stream_state" where
  "stream_step p um (EvRead opcode payload clip ok) s = read_frame p um clip ok opcode payload s"
| "stream_step p um EvReadError s = read_error s"
| "stream_step p um (EvKeepalive ok) s = keepalive ok s"
| "stream_step p um EvKeepaliveStop s = keepalive_stop s"
| "stream_step p um (EvAudio ok data) s = audio_tick ok data s"
| "stream_step p um EvAudioStop s = audio_stop s"
| "stream_step p um EvStopStream s = session_stop s"
| "stream_step p um (EvClose ok) s = ws_Close ok s"
| "stream_step p um EvStop s = main_step (\<lambda>s. if ss_stopped s then stream_end p s else s) s"
| "stream_step p um (EvWarning now ok) s = main_step (\<lambda>s. if due now (ss_warnAt s) then on_warning ok s else s) s"
| "stream_step p um (EvIdle now ok) s = main_step (\<lambda>s. if due now (ss_idleAt s) then on_idle p ok s else s) s"
| "stream_step p um (EvBlock ok) s = main_step (on_block p ok) s"
| "stream_step p um (EvInput e now) s = main_step (on_input p um e now) s"
| "stream_step p um (EvMonitor ce ie capture monitors now ok) s =
     main_step (on_monitor p ce ie capture monitors now ok) s"
| "stream_step p um (EvCodec ce now ok) s = main_step (on_codec p ce now ok) s"
| "stream_step p um (EvFrame ce captured ok sendTime ok2) s = main_step (on_frame p ce captured ok sendTime ok2) s"

fun stream_steps :: "platform \<Rightarrow> (bytes \<Rightarrow> json option) \<Rightarrow> stream_event list \<Rightarrow> stream_state \<Rightarrow> stream_state" where
  "stream_steps p um [] s = s"
| "stream_steps p um (ev # evs) s = stream_steps p um evs (stream_step p um ev s)"

end
