(* ===== verification/Helper.thy ===== *)
theory Helper
  imports Stream Pipe
begin

text \<open>
  The stream through a helper process (agent/remote_session_windows.go): \<open>runHelperMode\<close>, the loop of the helper in the
  session of the user, and \<open>runCrossSession\<close>, which relays between the helper's pipe and the WebSocket. Both run on
  Windows only. The messages are those of the theory Pipe; a JSON payload is kept as a value.
\<close>

section \<open>The helper\<close>

datatype pipe_msg = PipeText pipe_type json | PipeData pipe_type bytes

record helper_state =
  hs_video :: video
  hs_input :: input_state
  hs_events :: "os_event list"
  hs_inputCh :: "bytes list"
  hs_codecCh :: "string list"
  hs_monitorCh :: "int list"
  hs_blockCh :: "bool list"
  hs_out :: "pipe_msg list"
  hs_recording :: bool
  hs_main :: bool
  hs_reader :: bool
  hs_stopped :: bool
  hs_crashed :: bool

definition new_helper :: "video \<Rightarrow> input_state \<Rightarrow> helper_state" where
  "new_helper vd inp = \<lparr>hs_video = vd, hs_input = inp, hs_events = [], hs_inputCh = [], hs_codecCh = [], hs_monitorCh = [],
     hs_blockCh = [], hs_out = [], hs_recording = False, hs_main = True, hs_reader = True, hs_stopped = False,
     hs_crashed = False\<rparr>"

text \<open>A write to the pipe succeeds or not; \<open>pipe_try\<close> does not care.\<close>

definition pipe_write :: "bool \<Rightarrow> pipe_msg \<Rightarrow> helper_state \<Rightarrow> helper_state" where
  "pipe_write ok m s = (if ok then s\<lparr>hs_out := hs_out s @ [m]\<rparr> else s)"

definition helper_init_msg :: "nat \<Rightarrow> nat \<Rightarrow> json \<Rightarrow> int \<Rightarrow> bool \<Rightarrow> json" where
  "helper_init_msg w h monitors audioRate audioAvail =
     go_map [(''type'', JStr ''init''), (''width'', JInt (int w)), (''height'', JInt (int h)), (''fps'', JInt stream_fps),
       (''codec'', JStr ''h264''), (''monitors'', monitors), (''audioRate'', JInt audioRate),
       (''audioAvail'', JBool audioAvail)]"

definition helper_reinit_msg :: "nat \<Rightarrow> nat \<Rightarrow> json \<Rightarrow> json" where
  "helper_reinit_msg w h monitors =
     go_map [(''type'', JStr ''init''), (''width'', JInt (int w)), (''height'', JInt (int h)), (''fps'', JInt stream_fps),
       (''codec'', JStr ''h264''), (''monitors'', monitors)]"

text \<open>The deferred calls of a return; the process ends with it.\<close>

definition helper_end :: "platform \<Rightarrow> helper_state \<Rightarrow> helper_state" where
  "helper_end p s =
     (let (inp, ev) = inputUnblock p (hs_input s) in
      s\<lparr>hs_video := close_at_end p (hs_video s), hs_input := inp, hs_events := hs_events s @ ev, hs_main := False,
        hs_reader := False\<rparr>)"

text \<open>
  The start, after the connection: a fatal error ends the process. The capture gives the dimensions and the origin of
  the monitor, the audio its rate when it opens.
\<close>

definition helper_start ::
  "platform \<Rightarrow> codec_env \<Rightarrow> input_env \<Rightarrow> ((nat \<times> nat) \<times> (int \<times> int)) option \<Rightarrow> json \<Rightarrow> int option \<Rightarrow> bool \<Rightarrow>
     helper_state option" where
  "helper_start p ce ie capture monitors audio ok =
     (case capture of
        None \<Rightarrow> None
      | Some ((w, h), (ox, oy)) \<Rightarrow>
          if w = 0 \<or> h = 0 then None
          else (let vd = init_encoders p ce w h
                      \<lparr>vd_oh = closed_mod, vd_vp9 = closed_mod, vd_h265 = closed_mod, vd_av1 = closed_mod,
                       vd_wmf = closed_wmf, vd_useOpenH264 = False, vd_useJPEG = False, vd_useVP9 = False,
                       vd_useH265 = False, vd_useAV1 = False, vd_w = 0, vd_h = 0, vd_pts = 0, vd_tsMs = 0\<rparr>;
                    (rate, avail) = (case audio of None \<Rightarrow> (48000, False) | Some r \<Rightarrow> (r, True))
                in if \<not> ok then None
                   else Some (pipe_write True (PipeText PipeInit (helper_init_msg w h monitors rate avail))
                          (new_helper vd (setInputMonitorOffset p ie ox oy new_input)))))"

text \<open>The control fields of an input message in the helper: those of the stream and the bitrate.\<close>

definition dec_helper_peek :: "json \<Rightarrow> (peek \<times> int) option" where
  "dec_helper_peek j =
     (case dec_struct j of
        None \<Rightarrow> None
      | Some kvs \<Rightarrow>
          (case (dec_peek j, dec_int ''bitrate'' kvs) of
             (Some pk, (b, True)) \<Rightarrow> Some (pk, b)
           | _ \<Rightarrow> None))"

definition helper_read_input :: "platform \<Rightarrow> (bytes \<Rightarrow> json option) \<Rightarrow> bytes \<Rightarrow> helper_state \<Rightarrow> helper_state" where
  "helper_read_input p um payload s =
     (let plain = s\<lparr>hs_inputCh := try_send 64 (hs_inputCh s) payload\<rparr> in
      case Option.bind (um payload) dec_helper_peek of
        None \<Rightarrow> plain
      | Some (pk, bitrate) \<Rightarrow>
          if pk_Type pk = ''set_codec'' then s\<lparr>hs_codecCh := try_send 4 (hs_codecCh s) (pk_Codec pk)\<rparr>
          else if pk_Type pk = ''set_bitrate'' then
            (if 0 < bitrate then s\<lparr>hs_video := set_bitrate p bitrate (hs_video s)\<rparr> else s)
          else if pk_Type pk = ''set_monitor'' then s\<lparr>hs_monitorCh := try_send 4 (hs_monitorCh s) (pk_Index pk)\<rparr>
          else if pk_Type pk = ''set_input_block'' then s\<lparr>hs_blockCh := try_send 4 (hs_blockCh s) (pk_Block pk)\<rparr>
          else if pk_Type pk = ''set_recording'' then s\<lparr>hs_recording := pk_Recording pk\<rparr>
          else plain)"

definition helper_read :: "platform \<Rightarrow> (bytes \<Rightarrow> json option) \<Rightarrow> byte \<Rightarrow> bytes \<Rightarrow> helper_state \<Rightarrow> helper_state" where
  "helper_read p um t payload s =
     (if \<not> hs_reader s then s
      else if t = pipe_code PipeInput then helper_read_input p um payload s
      else if t = pipe_code PipeStop then s\<lparr>hs_stopped := True, hs_reader := False\<rparr>
      else s)"

section \<open>The main loop of the helper\<close>

definition helper_block :: "platform \<Rightarrow> bool \<Rightarrow> helper_state \<Rightarrow> helper_state" where
  "helper_block p ok s =
     (case hs_blockCh s of
        [] \<Rightarrow> s
      | b # bs \<Rightarrow>
          (let (inp, ev) = inputBlock p b (hs_input s) in
           pipe_write ok (PipeText PipeControl (block_msg b))
             (s\<lparr>hs_blockCh := bs, hs_input := inp, hs_events := hs_events s @ ev\<rparr>)))"

text \<open>The input channel is closed when the reader ends; the loop returns once it is drained.\<close>

definition helper_input :: "platform \<Rightarrow> (bytes \<Rightarrow> json option) \<Rightarrow> input_env \<Rightarrow> helper_state \<Rightarrow> helper_state" where
  "helper_input p um e s =
     (case hs_inputCh s of
        [] \<Rightarrow> if hs_reader s then s else helper_end p s
      | payload # rest \<Rightarrow>
          (let (inp, ev) = handle_input p e (um payload) (hs_input s) in
           s\<lparr>hs_inputCh := rest, hs_input := inp, hs_events := hs_events s @ ev\<rparr>))"

definition helper_monitor ::
  "platform \<Rightarrow> codec_env \<Rightarrow> input_env \<Rightarrow> (int \<Rightarrow> ((nat \<times> nat) \<times> (int \<times> int)) option) \<Rightarrow> json \<Rightarrow> bool \<Rightarrow>
     helper_state \<Rightarrow> helper_state" where
  "helper_monitor p ce ie capture monitors ok s =
     (case hs_monitorCh s of
        [] \<Rightarrow> s
      | idx # rest \<Rightarrow>
          (let s1 = s\<lparr>hs_monitorCh := rest\<rparr> in
           case capture idx of
             None \<Rightarrow> s1\<lparr>hs_video := switch_monitor p ce None (hs_video s)\<rparr>
           | Some ((w, h), (ox, oy)) \<Rightarrow>
               pipe_write ok (PipeText PipeInit (helper_reinit_msg w h monitors))
                 (s1\<lparr>hs_video := switch_monitor p ce (Some (w, h)) (hs_video s),
                     hs_input := setInputMonitorOffset p ie ox oy (hs_input s)\<rparr>)))"

definition helper_codec :: "platform \<Rightarrow> codec_env \<Rightarrow> bool \<Rightarrow> helper_state \<Rightarrow> helper_state" where
  "helper_codec p ce ok s =
     (case hs_codecCh s of
        [] \<Rightarrow> s
      | c # rest \<Rightarrow>
          pipe_write ok (PipeText PipeControl (codec_msg c))
            (s\<lparr>hs_codecCh := rest, hs_video := switch_codec p ce c (hs_video s)\<rparr>))"

fun frame_pipe :: "video_codec \<Rightarrow> pipe_type" where
  "frame_pipe JPEG = PipeJPEGFrame"
| "frame_pipe H264 = PipeFrame"
| "frame_pipe VP9 = PipeVP9Frame"
| "frame_pipe H265 = PipeH265Frame"
| "frame_pipe AV1 = PipeAV1Frame"

text \<open>The fallback to JPEG sends nothing here.\<close>

definition helper_frame :: "platform \<Rightarrow> codec_env \<Rightarrow> ((nat \<times> nat) \<times> bytes) option \<Rightarrow> bool \<Rightarrow> helper_state \<Rightarrow> helper_state" where
  "helper_frame p ce captured ok s =
     (case captured of
        None \<Rightarrow> s
      | Some ((w, h), bgra) \<Rightarrow>
          if w \<noteq> vd_w (hs_video s) \<or> h \<noteq> vd_h (hs_video s) then helper_end p s
          else
            (let (vd, r) = encode_step p ce bgra (hs_video s); s1 = s\<lparr>hs_video := vd\<rparr> in
             case r of
               FrameNone \<Rightarrow> s1
             | FrameStuck \<Rightarrow> s1\<lparr>hs_crashed := True, hs_main := False, hs_reader := False\<rparr>
             | FrameFallback \<Rightarrow> s1
             | FrameOut c b \<Rightarrow>
                 if ok then pipe_write True (PipeData (frame_pipe c) b) s1 else helper_end p s1))"

datatype helper_event =
    HvRead byte bytes
  | HvReadError
  | HvAudio bool bytes
  | HvStop
  | HvBlock bool
  | HvInput input_env
  | HvMonitor codec_env input_env "int \<Rightarrow> ((nat \<times> nat) \<times> (int \<times> int)) option" json bool
  | HvCodec codec_env bool
  | HvFrame codec_env "((nat \<times> nat) \<times> bytes) option" bool

definition helper_main :: "(helper_state \<Rightarrow> helper_state) \<Rightarrow> helper_state \<Rightarrow> helper_state" where
  "helper_main f s = (if hs_main s then f s else s)"

fun helper_step :: "platform \<Rightarrow> (bytes \<Rightarrow> json option) \<Rightarrow> helper_event \<Rightarrow> helper_state \<Rightarrow> helper_state" where
  "helper_step p um (HvRead t payload) s = helper_read p um t payload s"
| "helper_step p um HvReadError s = s\<lparr>hs_reader := False\<rparr>"
| "helper_step p um (HvAudio ok data) s =
     helper_main (\<lambda>s. if hs_stopped s \<or> data = [] then s else pipe_write ok (PipeData PipeAudioData data) s) s"
| "helper_step p um HvStop s = helper_main (\<lambda>s. if hs_stopped s then helper_end p s else s) s"
| "helper_step p um (HvBlock ok) s = helper_main (helper_block p ok) s"
| "helper_step p um (HvInput e) s = helper_main (helper_input p um e) s"
| "helper_step p um (HvMonitor ce ie capture monitors ok) s = helper_main (helper_monitor p ce ie capture monitors ok) s"
| "helper_step p um (HvCodec ce ok) s = helper_main (helper_codec p ce ok) s"
| "helper_step p um (HvFrame ce captured ok) s = helper_main (helper_frame p ce captured ok) s"

section \<open>The relay between the pipe and the WebSocket\<close>

text \<open>
  What was sent to the browser and to the helper, the bitrate controller, which goroutines run, how far \<open>stop\<close> is (as
  in a direct stream), and whether the main loop is in its read of the pipe. \<open>ToBitrate\<close> is an input message with the JSON of \<open>set_bitrate_msg\<close>.
\<close>

datatype to_helper = ToInput bytes | ToBitrate int | ToStop

definition set_bitrate_msg :: "int \<Rightarrow> json" where
  "set_bitrate_msg b = go_map [(''type'', JStr ''set_bitrate''), (''bitrate'', JInt b)]"

record cross_state =
  cs_out :: "ws_out list"
  cs_helper :: "to_helper list"
  cs_ab :: adaptiveBitrate
  cs_main :: bool
  cs_reader :: bool
  cs_pinging :: bool
  cs_stopped :: bool
  cs_closing :: bool
  cs_closed :: bool
  cs_reading :: bool

definition cross_write :: "bool \<Rightarrow> ws_out \<Rightarrow> cross_state \<Rightarrow> cross_state \<times> bool" where
  "cross_write ok out s =
     (if ok \<and> \<not> cs_closed s then (s\<lparr>cs_out := cs_out s @ [out]\<rparr>, True) else (s, False))"

definition cross_end :: "cross_state \<Rightarrow> cross_state" where
  "cross_end s = s\<lparr>cs_main := False, cs_stopped := True\<rparr>"

definition cross_Close :: "bool \<Rightarrow> cross_state \<Rightarrow> cross_state" where
  "cross_Close ok s =
     (if \<not> cs_stopped s \<or> cs_closed s then s
      else if \<not> cs_closing s then (fst (cross_write ok OutClose s))\<lparr>cs_closing := True\<rparr>
      else s\<lparr>cs_closed := True\<rparr>)"

text \<open>The start: the first message must be the init message of the helper, which goes on as text.\<close>

definition cross_start :: "pipe_msg option \<Rightarrow> bool \<Rightarrow> cross_state" where
  "cross_start first ok =
     (let s = \<lparr>cs_out = [], cs_helper = [], cs_ab = newAdaptiveBitrate stream_fps, cs_main = True, cs_reader = True,
               cs_pinging = True, cs_stopped = False, cs_closing = False, cs_closed = False, cs_reading = False\<rparr> in
      case first of
        Some (PipeText PipeInit j) \<Rightarrow>
          (let (s1, sent) = cross_write ok (OutText j) s in if sent then s1 else (cross_end s1)\<lparr>cs_reader := False, cs_pinging := False\<rparr>)
      | _ \<Rightarrow> (cross_end s)\<lparr>cs_reader := False, cs_pinging := False\<rparr>)"

definition cross_read :: "bool \<Rightarrow> byte \<Rightarrow> bytes \<Rightarrow> cross_state \<Rightarrow> cross_state" where
  "cross_read ok opcode payload s =
     (if \<not> cs_reader s then s
      else if opcode = 0x8 then s\<lparr>cs_reader := False, cs_stopped := True\<rparr>
      else if opcode = 0x9 then fst (cross_write ok (OutPong payload) s)
      else if opcode = 0x1 then s\<lparr>cs_helper := cs_helper s @ [ToInput payload]\<rparr>
      else s)"

definition pipe_frame_type :: "pipe_type \<Rightarrow> video_codec option" where
  "pipe_frame_type t =
     (if t = PipeFrame then Some H264 else if t = PipeJPEGFrame then Some JPEG else if t = PipeVP9Frame then Some VP9
      else if t = PipeH265Frame then Some H265 else if t = PipeAV1Frame then Some AV1 else None)"

text \<open>
  One message of the helper. A control message goes on as text, audio and frames as binary with their type byte; any
  other message is dropped. The duration and the results of the writes are arguments.
\<close>

definition cross_frame :: "video_codec \<Rightarrow> bytes \<Rightarrow> bool \<Rightarrow> int \<Rightarrow> bool \<Rightarrow> cross_state \<Rightarrow> cross_state" where
  "cross_frame c b ok sendTime ok2 s =
     (let (s1, sent) = cross_write ok (OutBinary (frame_code c # b)) s in
      if \<not> sent then cross_end s1
      else (let (ab, newBr) = report (cs_ab s1) sendTime; s2 = s1\<lparr>cs_ab := ab\<rparr> in
            if newBr \<le> 0 then s2
            else fst (cross_write ok2 (OutText (bitrate_msg newBr)) (s2\<lparr>cs_helper := cs_helper s2 @ [ToBitrate newBr]\<rparr>))))"

fun cross_pipe :: "pipe_msg \<Rightarrow> bool \<Rightarrow> int \<Rightarrow> bool \<Rightarrow> cross_state \<Rightarrow> cross_state" where
  "cross_pipe (PipeText t j) ok sendTime ok2 s =
     (if t = PipeControl then
        (let (s1, sent) = cross_write ok (OutText j) s in if sent then s1 else cross_end s1)
      else s)"
| "cross_pipe (PipeData t b) ok sendTime ok2 s =
     (if t = PipeAudioData then fst (cross_write ok (OutBinary (frameTypeAudio # b)) s)
      else (case pipe_frame_type t of
              None \<Rightarrow> s
            | Some c \<Rightarrow> cross_frame c b ok sendTime ok2 s))"

datatype cross_event =
    XvRead byte bytes bool
  | XvReadError
  | XvKeepalive bool
  | XvKeepaliveStop
  | XvStopStream
  | XvClose bool
  | XvCheck
  | XvPipe pipe_msg bool int bool
  | XvPipeTimeout
  | XvPipeError

text \<open>
  The main loop looks at the stop channel before each read of the pipe; a read that times out goes back there, and an
  error ends the loop.
\<close>

fun cross_step :: "cross_event \<Rightarrow> cross_state \<Rightarrow> cross_state" where
  "cross_step (XvRead opcode payload ok) s = cross_read ok opcode payload s"
| "cross_step XvReadError s = (if cs_reader s then s\<lparr>cs_reader := False, cs_stopped := True\<rparr> else s)"
| "cross_step (XvKeepalive ok) s =
     (if \<not> cs_pinging s then s
      else (let (s1, sent) = cross_write ok OutPing s in if sent then s1 else s1\<lparr>cs_pinging := False, cs_stopped := True\<rparr>))"
| "cross_step XvKeepaliveStop s = (if cs_stopped s then s\<lparr>cs_pinging := False\<rparr> else s)"
| "cross_step XvStopStream s = s\<lparr>cs_stopped := True\<rparr>"
| "cross_step (XvClose ok) s = cross_Close ok s"
| "cross_step XvCheck s =
     (if \<not> cs_main s \<or> cs_reading s then s
      else if cs_stopped s then cross_end (s\<lparr>cs_helper := cs_helper s @ [ToStop]\<rparr>)
      else s\<lparr>cs_reading := True\<rparr>)"
| "cross_step (XvPipe m ok sendTime ok2) s =
     (if cs_main s \<and> cs_reading s then cross_pipe m ok sendTime ok2 (s\<lparr>cs_reading := False\<rparr>) else s)"
| "cross_step XvPipeTimeout s = (if cs_main s then s\<lparr>cs_reading := False\<rparr> else s)"
| "cross_step XvPipeError s = (if cs_main s \<and> cs_reading s then cross_end (s\<lparr>cs_reading := False\<rparr>) else s)"

end
