(* ===== verification/Video_Inv.thy ===== *)
theory Video_Inv
  imports Video
begin

text \<open>
  The invariant of the encoders of a stream: at most one is in use, it is open for the dimensions of the stream and
  every other one is closed. Every operation of the theory Video keeps it; the end of a stream does not restore it.
\<close>

section \<open>The invariant\<close>

definition module_in_use :: "bool \<Rightarrow> nat \<Rightarrow> nat \<Rightarrow> enc_mod \<Rightarrow> bool" where
  "module_in_use use w h m \<longleftrightarrow> mod_inv m
     \<and> (if use then ctx_dims m = Some (w, h) \<and> buf_for w h m else em_ctx m = None)"

definition other_in_use :: "video \<Rightarrow> bool" where
  "other_in_use vd \<longleftrightarrow> vd_useOpenH264 vd \<or> vd_useVP9 vd \<or> vd_useH265 vd \<or> vd_useAV1 vd"

definition flags_in_use :: "video \<Rightarrow> bool list" where
  "flags_in_use vd = filter id [vd_useJPEG vd, vd_useAV1 vd, vd_useH265 vd, vd_useVP9 vd, vd_useOpenH264 vd]"

definition wmf_in_use :: "video \<Rightarrow> bool" where
  "wmf_in_use vd \<longleftrightarrow> wmf_inv (vd_wmf vd)
     \<and> (wm_initDone (vd_wmf vd) \<longrightarrow> map_option (\<lambda>c. (ec_w c, ec_h c)) (wm_encoder (vd_wmf vd)) = Some (vd_w vd, vd_h vd))
     \<and> (vd_useJPEG vd \<or> other_in_use vd \<longrightarrow> \<not> wm_initDone (vd_wmf vd))"

definition video_inv :: "platform \<Rightarrow> video \<Rightarrow> bool" where
  "video_inv p vd \<longleftrightarrow>
     module_in_use (vd_useOpenH264 vd) (vd_w vd) (vd_h vd) (vd_oh vd)
     \<and> module_in_use (vd_useVP9 vd) (vd_w vd) (vd_h vd) (vd_vp9 vd)
     \<and> module_in_use (vd_useH265 vd) (vd_w vd) (vd_h vd) (vd_h265 vd)
     \<and> module_in_use (vd_useAV1 vd) (vd_w vd) (vd_h vd) (vd_av1 vd)
     \<and> (vd_useVP9 vd \<longrightarrow> img_room (vd_w vd) (vd_h vd) (vd_vp9 vd))
     \<and> (vd_useH265 vd \<longrightarrow> has_h265 p)
     \<and> length (flags_in_use vd) \<le> 1 \<and> wmf_in_use vd"

definition idle_module :: "enc_mod \<Rightarrow> bool" where
  "idle_module m \<longleftrightarrow> mod_inv m \<and> em_ctx m = None"

text \<open>Every encoder is closed: what a stream finds when the last one left nothing open.\<close>

definition idle_video :: "video \<Rightarrow> bool" where
  "idle_video vd \<longleftrightarrow> idle_module (vd_oh vd) \<and> idle_module (vd_vp9 vd) \<and> idle_module (vd_h265 vd)
     \<and> idle_module (vd_av1 vd) \<and> wmf_inv (vd_wmf vd) \<and> \<not> wm_initDone (vd_wmf vd)"

definition env_roomy :: "codec_env \<Rightarrow> nat \<Rightarrow> nat \<Rightarrow> bool" where
  "env_roomy e w h \<longleftrightarrow> vpx_roomy (ce_vp9_dll e, ce_vp9_open e) w h"

section \<open>Platforms\<close>

lemma is_windows_eq:
  assumes "is_windows p"
  shows "openH264Init p d oo = oh_init_w (d, oo)" "openH264EncodeFrame p = openH264EncodeFrame (Windows True)"
    "openH264Close p = openH264Close (Windows True)" "vp9EncoderInit p d vo = vp9_init_w (d, vo)"
    "vp9EncodeFrame p = vp9EncodeFrame (Windows True)" "vp9EncoderClose p = vp9EncoderClose (Windows True)"
    "av1EncoderInit p d ao = av1_init_w (d, ao)" "av1EncodeFrame p = av1EncodeFrame (Windows True)"
    "av1EncoderClose p = av1EncoderClose (Windows True)"
  using assms
  by (auto intro!: ext simp: oh_init_w_def openH264Init_def openH264EncodeFrame_def openH264Close_def
      vp9_init_w_def vp9EncoderInit_def vp9EncodeFrame_def vp9EncoderClose_def
      av1_init_w_def av1EncoderInit_def av1EncodeFrame_def av1EncoderClose_def)

lemma has_h265_eq:
  assumes "has_h265 p"
  shows "h265EncoderInit p d xo = h265_init_w (d, xo)" "h265EncodeFrame p = h265EncodeFrame (Windows True)"
    "h265EncoderClose p = h265EncoderClose (Windows True)"
  using assms
  by (auto intro!: ext simp: h265_init_w_def h265EncoderInit_def h265EncodeFrame_def h265EncoderClose_def)

text \<open>Looking for a library changes nothing but whether it is loaded.\<close>

lemma load_dll_keeps: "oh_load_dll env l = (l', rc) \<Longrightarrow> l \<Longrightarrow> l'" "vpx_load_dll env l = (l', rc) \<Longrightarrow> l \<Longrightarrow> l'"
  "x265_load_dll env l = (l', rc) \<Longrightarrow> l \<Longrightarrow> l'" "av1_load_dll env l = (l', rc) \<Longrightarrow> l \<Longrightarrow> l'"
  by (auto simp: oh_load_dll_def vpx_load_dll_def x265_load_dll_def av1_load_dll_def load_dll_def split: if_splits)

lemma available_idle:
  "idle_module m \<Longrightarrow> openH264Available p e m = (m', b) \<Longrightarrow> idle_module m'"
  "idle_module m \<Longrightarrow> h265Available p e m = (m', b) \<Longrightarrow> idle_module m'"
  "idle_module m \<Longrightarrow> av1Available p e m = (m', b) \<Longrightarrow> idle_module m'"
  by (auto simp: idle_module_def mod_inv_def openH264Available_def h265Available_def av1Available_def Let_def
      split: if_splits prod.splits)

section \<open>Modules\<close>

lemma module_in_use_False: "module_in_use False w h m \<longleftrightarrow> idle_module m"
  by (simp add: module_in_use_def idle_module_def)

lemma module_in_use_idle [simp]: "idle_module m \<Longrightarrow> module_in_use False w h m"
  by (simp add: module_in_use_False)

lemma module_in_use_mod_inv: "module_in_use use w h m \<Longrightarrow> mod_inv m"
  by (simp add: module_in_use_def)

lemma module_in_use_same:
  "module_in_use use w h m \<Longrightarrow> same_open m m' \<Longrightarrow> module_in_use use w h m'"
  by (auto simp: module_in_use_def same_open_def contract_defs split: if_splits)

lemma module_in_use_encode:
  "is_windows p \<Longrightarrow> module_in_use use w h m \<Longrightarrow> openH264EncodeFrame p f1 bgra w' h' m = (m', r) \<Longrightarrow> module_in_use use w h m'"
  "is_windows p \<Longrightarrow> module_in_use use w h m \<Longrightarrow> vp9EncodeFrame p f2 bgra w' h' m = (m', r) \<Longrightarrow> module_in_use use w h m'"
  "has_h265 p \<Longrightarrow> module_in_use use w h m \<Longrightarrow> h265EncodeFrame p f3 bgra w' h' m = (m', r) \<Longrightarrow> module_in_use use w h m'"
  "is_windows p \<Longrightarrow> module_in_use use w h m \<Longrightarrow> av1EncodeFrame p f4 bgra w' h' m = (m', r) \<Longrightarrow> module_in_use use w h m'"
  using encode_same_w(1) [of m f1 bgra w' h'] encode_same_w(2) [of m f2 bgra w' h']
    encode_same_w(3) [of m f3 bgra w' h'] encode_same_w(4) [of m f4 bgra w' h']
  by (simp_all add: is_windows_eq(2,5,8) [of p] has_h265_eq(2) [of p] module_in_use_same)

text \<open>Opening a closed module gives one in use, or leaves it closed.\<close>

lemma open_idle:
  "is_windows p \<Longrightarrow> idle_module m \<Longrightarrow> openH264Init p d oo w h fps br m = (m', ok) \<Longrightarrow> module_in_use ok w h m'"
  "is_windows p \<Longrightarrow> idle_module m \<Longrightarrow> vp9EncoderInit p d vo w h fps br m = (m', ok) \<Longrightarrow> module_in_use ok w h m'"
  "has_h265 p \<Longrightarrow> idle_module m \<Longrightarrow> h265EncoderInit p d xo w h fps br m = (m', ok) \<Longrightarrow> module_in_use ok w h m'"
  "is_windows p \<Longrightarrow> idle_module m \<Longrightarrow> av1EncoderInit p d ao w h fps br m = (m', ok) \<Longrightarrow> module_in_use ok w h m'"
  using oh.init_fresh [of m "(d, oo)" w h fps br m' ok] vp9.init_fresh [of m "(d, vo)" w h fps br m' ok]
    h265.init_fresh [of m "(d, xo)" w h fps br m' ok] av1.init_fresh [of m "(d, ao)" w h fps br m' ok]
  by (simp_all add: is_windows_eq(1,4,7) [of p] has_h265_eq(1) [of p] idle_module_def module_in_use_def)

lemma close_idle:
  "is_windows p \<Longrightarrow> mod_inv m \<Longrightarrow> idle_module (openH264Close p m)"
  "is_windows p \<Longrightarrow> mod_inv m \<Longrightarrow> idle_module (vp9EncoderClose p m)"
  "has_h265 p \<Longrightarrow> mod_inv m \<Longrightarrow> idle_module (h265EncoderClose p m)"
  "is_windows p \<Longrightarrow> mod_inv m \<Longrightarrow> idle_module (av1EncoderClose p m)"
  using oh.close_closes vp9.close_closes h265.close_closes av1.close_closes
  by (simp_all add: is_windows_eq(3,6,9) [of p] has_h265_eq(3) [of p] idle_module_def)


section \<open>Operations\<close>

definition none_in_use :: "video \<Rightarrow> bool" where
  "none_in_use vd \<longleftrightarrow> idle_video vd \<and> \<not> other_in_use vd \<and> \<not> vd_useJPEG vd"

lemmas use_defs = other_in_use_def flags_in_use_def

lemma none_in_use_inv: "none_in_use vd \<Longrightarrow> video_inv p vd"
  by (auto simp: none_in_use_def idle_video_def video_inv_def use_defs wmf_in_use_def)

lemma try_openH264_cases:
  assumes "is_windows p" "idle_module (vd_oh vd)" "\<not> vd_useOpenH264 vd"
  obtains m ok where "try_openH264 p e vd = vd\<lparr>vd_oh := m, vd_useOpenH264 := ok\<rparr>"
    "module_in_use ok (vd_w vd) (vd_h vd) m"
proof -
  obtain m avail where m: "openH264Available p (ce_oh_dll e) (vd_oh vd) = (m, avail)" by fastforce
  have idle: "idle_module m" by (rule available_idle(1) [OF assms(2) m])
  obtain m' ok where m': "openH264Init p (ce_oh_dll e) (ce_oh_open e) (vd_w vd) (vd_h vd) stream_fps stream_bitrate m = (m', ok)"
    by fastforce
  have "module_in_use ok (vd_w vd) (vd_h vd) m'" by (rule open_idle(1) [OF assms(1) idle m'])
  moreover have keep: "vd\<lparr>vd_oh := k\<rparr> = vd\<lparr>vd_oh := k, vd_useOpenH264 := False\<rparr>" for k
    using assms(3) by (cases vd) simp
  ultimately consider
      "try_openH264 p e vd = vd\<lparr>vd_oh := m', vd_useOpenH264 := ok\<rparr>" "module_in_use ok (vd_w vd) (vd_h vd) m'"
    | "try_openH264 p e vd = vd\<lparr>vd_oh := m, vd_useOpenH264 := False\<rparr>" "module_in_use False (vd_w vd) (vd_h vd) m"
  proof (cases avail)
    case True
    then have "try_openH264 p e vd = vd\<lparr>vd_oh := m', vd_useOpenH264 := ok\<rparr>"
      using m m' keep [of m'] by (cases ok) (simp_all add: try_openH264_def)
    with \<open>module_in_use ok (vd_w vd) (vd_h vd) m'\<close> show ?thesis using that(1) by blast
  next
    case False
    then have "try_openH264 p e vd = vd\<lparr>vd_oh := m, vd_useOpenH264 := False\<rparr>"
      using m keep [of m] by (simp add: try_openH264_def)
    with idle show ?thesis using that(2) by simp
  qed
  then show ?thesis using that by cases blast+
qed

lemma none_in_use_jpeg: "none_in_use vd \<Longrightarrow> video_inv p (vd\<lparr>vd_useJPEG := True\<rparr>)"
  by (auto simp: none_in_use_def idle_video_def video_inv_def use_defs wmf_in_use_def)

lemma switch_h264_inv:
  assumes "is_windows p" "none_in_use vd"
  shows "video_inv p (switch_h264 p e vd)"
proof -
  have "idle_module (vd_oh vd)" "\<not> vd_useOpenH264 vd"
    using assms(2) by (simp_all add: none_in_use_def idle_video_def other_in_use_def)
  then obtain m ok where "try_openH264 p e vd = vd\<lparr>vd_oh := m, vd_useOpenH264 := ok\<rparr>"
      "module_in_use ok (vd_w vd) (vd_h vd) m" using try_openH264_cases assms(1) by blast
  then show ?thesis using assms(2)
    by (cases ok) (auto simp: switch_h264_def none_in_use_def idle_video_def video_inv_def use_defs
        wmf_in_use_def module_in_use_False)
qed

lemma switch_h265_inv:
  assumes "none_in_use vd"
  shows "video_inv p (switch_h265 p e vd)"
proof -
  have idle: "idle_module (vd_h265 vd)" using assms by (simp add: none_in_use_def idle_video_def)
  obtain m avail where m: "h265Available p (ce_h265_dll e) (vd_h265 vd) = (m, avail)" by fastforce
  have im: "idle_module m" by (rule available_idle(2) [OF idle m])
  obtain m' ok where m': "h265EncoderInit p (ce_h265_dll e) (ce_h265_open e) (vd_w vd) (vd_h vd) stream_fps
      (go_div stream_bitrate 1000) m = (m', ok)" by fastforce
  have avail: "avail \<Longrightarrow> has_h265 p" using m by (simp add: h265Available_def split: if_splits)
  then have "avail \<Longrightarrow> module_in_use ok (vd_w vd) (vd_h vd) m'" using open_idle(3) [OF _ im m'] by blast
  then show ?thesis
    using assms m m' im avail
    by (cases avail; cases ok) (auto simp: switch_h265_def none_in_use_def idle_video_def video_inv_def use_defs
        wmf_in_use_def module_in_use_False)
qed

lemma switch_vp9_inv:
  assumes "is_windows p" "none_in_use vd" "env_roomy e (vd_w vd) (vd_h vd)"
  shows "video_inv p (switch_vp9 p e vd)"
proof -
  obtain m ok where m: "vp9EncoderInit p (ce_vp9_dll e) (ce_vp9_open e) (vd_w vd) (vd_h vd) stream_fps
      (go_div stream_bitrate 1000) (vd_vp9 vd) = (m, ok)" by fastforce
  have idle: "idle_module (vd_vp9 vd)" using assms(2) by (simp add: none_in_use_def idle_video_def)
  have "module_in_use ok (vd_w vd) (vd_h vd) m" by (rule open_idle(2) [OF assms(1) idle m])
  moreover have "ok \<Longrightarrow> img_room (vd_w vd) (vd_h vd) m"
    using vp9_init_room [of "vd_vp9 vd" "(ce_vp9_dll e, ce_vp9_open e)"] m assms(3) idle
    by (simp add: is_windows_eq(4) [OF assms(1)] env_roomy_def idle_module_def)
  ultimately show ?thesis
    using assms(2) m
    by (cases ok) (auto simp: switch_vp9_def none_in_use_def idle_video_def video_inv_def use_defs wmf_in_use_def
        module_in_use_False)
qed

lemma switch_av1_inv:
  assumes "is_windows p" "none_in_use vd"
  shows "video_inv p (switch_av1 p e vd)"
proof -
  have idle: "idle_module (vd_av1 vd)" using assms by (simp add: none_in_use_def idle_video_def)
  obtain m avail where m: "av1Available p (ce_av1_dll e) (vd_av1 vd) = (m, avail)" by fastforce
  have im: "idle_module m" by (rule available_idle(3) [OF idle m])
  obtain m' ok where m': "av1EncoderInit p (ce_av1_dll e) (ce_av1_open e) (vd_w vd) (vd_h vd) stream_fps
      (go_div stream_bitrate 1000) m = (m', ok)" by fastforce
  have "module_in_use ok (vd_w vd) (vd_h vd) m'" by (rule open_idle(4) [OF assms(1) im m'])
  then show ?thesis
    using assms(2) m m' im
    by (cases avail; cases ok) (auto simp: switch_av1_def none_in_use_def idle_video_def video_inv_def use_defs
        wmf_in_use_def module_in_use_False)
qed

lemma close_in_use_eq:
  "close_in_use p vd = vd
     \<lparr>vd_oh := if vd_useOpenH264 vd then openH264Close p (vd_oh vd) else vd_oh vd, vd_useOpenH264 := False,
      vd_vp9 := if vd_useVP9 vd then vp9EncoderClose p (vd_vp9 vd) else vd_vp9 vd, vd_useVP9 := False,
      vd_h265 := if vd_useH265 vd then h265EncoderClose p (vd_h265 vd) else vd_h265 vd, vd_useH265 := False,
      vd_av1 := if vd_useAV1 vd then av1EncoderClose p (vd_av1 vd) else vd_av1 vd, vd_useAV1 := False\<rparr>"
  by (cases vd) (simp add: close_in_use_def Let_def)

lemma close_in_use_idle:
  assumes "is_windows p" "video_inv p vd" "vd' = close_in_use p vd"
  shows "idle_module (vd_oh vd')" "idle_module (vd_vp9 vd')" "idle_module (vd_h265 vd')" "idle_module (vd_av1 vd')"
    "\<not> other_in_use vd'" "vd_wmf vd' = vd_wmf vd" "vd_useJPEG vd' = vd_useJPEG vd" "vd_w vd' = vd_w vd" "vd_h vd' = vd_h vd"
proof -
  have "vd_useOpenH264 vd \<Longrightarrow> idle_module (openH264Close p (vd_oh vd))"
    "vd_useVP9 vd \<Longrightarrow> idle_module (vp9EncoderClose p (vd_vp9 vd))"
    "vd_useH265 vd \<Longrightarrow> idle_module (h265EncoderClose p (vd_h265 vd))"
    "vd_useAV1 vd \<Longrightarrow> idle_module (av1EncoderClose p (vd_av1 vd))"
    using assms(1,2) by (auto simp: video_inv_def intro: close_idle dest: module_in_use_mod_inv)
  moreover have "\<not> vd_useOpenH264 vd \<Longrightarrow> idle_module (vd_oh vd)" "\<not> vd_useVP9 vd \<Longrightarrow> idle_module (vd_vp9 vd)"
    "\<not> vd_useH265 vd \<Longrightarrow> idle_module (vd_h265 vd)" "\<not> vd_useAV1 vd \<Longrightarrow> idle_module (vd_av1 vd)"
    using assms(2) by (simp_all add: video_inv_def module_in_use_False)
  ultimately show "idle_module (vd_oh vd')" "idle_module (vd_vp9 vd')" "idle_module (vd_h265 vd')"
    "idle_module (vd_av1 vd')" "\<not> other_in_use vd'" "vd_wmf vd' = vd_wmf vd" "vd_useJPEG vd' = vd_useJPEG vd"
    "vd_w vd' = vd_w vd" "vd_h vd' = vd_h vd"
    unfolding assms(3) close_in_use_eq by (simp_all add: other_in_use_def)
qed

text \<open>After the closes that begin a switch nothing is in use.\<close>

lemma encoderClose_idle:
  "is_windows p \<Longrightarrow> wmf_inv m \<Longrightarrow> wmf_inv (encoderClose p m) \<and> \<not> wm_initDone (encoderClose p m)"
  using encoderClose_inv encoderClose_closed by blast

lemma closed_for_switch:
  assumes "is_windows p" "video_inv p vd"
  shows "none_in_use ((close_in_use p vd)\<lparr>vd_wmf := encoderClose p (vd_wmf vd), vd_useJPEG := False\<rparr>)"
    "vd_useJPEG vd \<Longrightarrow> none_in_use ((close_in_use p vd)\<lparr>vd_useJPEG := False\<rparr>)"
  using close_in_use_idle [OF assms refl] encoderClose_idle [OF assms(1), of "vd_wmf vd"] assms(2)
  by (auto simp: none_in_use_def idle_video_def other_in_use_def video_inv_def wmf_in_use_def)

lemma switch_codec_inv:
  assumes "is_windows p" "video_inv p vd" "env_roomy e (vd_w vd) (vd_h vd)"
  shows "video_inv p (switch_codec p e newCodec vd)"
proof -
  define vd3 where "vd3 = (if vd_useJPEG vd then (close_in_use p vd)\<lparr>vd_useJPEG := False\<rparr>
      else (close_in_use p vd)\<lparr>vd_wmf := encoderClose p (vd_wmf vd), vd_useJPEG := False\<rparr>)"
  have n: "none_in_use vd3" using closed_for_switch [OF assms(1,2)] by (simp add: vd3_def)
  have d: "vd_w vd3 = vd_w vd" "vd_h vd3 = vd_h vd" by (simp_all add: vd3_def close_in_use_eq)
  have "switch_codec p e newCodec vd =
      (if newCodec = ''h264'' then switch_h264 p e vd3
       else if newCodec = ''h265'' then switch_h265 p e vd3
       else if newCodec = ''vp9'' then switch_vp9 p e vd3
       else if newCodec = ''av1'' then switch_av1 p e vd3
       else if newCodec = ''jpeg'' then vd3\<lparr>vd_useJPEG := True\<rparr> else vd3)"
    using close_in_use_idle(6,7) [OF assms(1,2) refl] by (simp add: switch_codec_def vd3_def Let_def)
  then show ?thesis
    using switch_h264_inv [OF assms(1) n] switch_h265_inv [OF n] switch_vp9_inv [OF assms(1) n]
      switch_av1_inv [OF assms(1) n] none_in_use_jpeg [OF n] none_in_use_inv [OF n] assms(3) d by simp
qed

lemma switch_monitor_inv:
  assumes "is_windows p" "video_inv p vd"
  shows "video_inv p (switch_monitor p e capture vd)"
proof -
  let ?vd2 = "(close_in_use p vd)\<lparr>vd_wmf := encoderClose p (vd_wmf vd), vd_useJPEG := False\<rparr>"
  have n: "none_in_use ?vd2" by (rule closed_for_switch(1) [OF assms])
  then have "none_in_use (?vd2\<lparr>vd_w := w, vd_h := h\<rparr>)" for w h
    by (simp add: none_in_use_def idle_video_def other_in_use_def)
  then show ?thesis
    using close_in_use_idle(6) [OF assms refl] none_in_use_inv [OF n] switch_h264_inv [OF assms(1)]
    by (auto simp: switch_monitor_def Let_def split: option.splits)
qed

lemma init_encoders_inv:
  assumes "is_windows p" "idle_video vd"
  shows "video_inv p (init_encoders p e w h vd)"
proof -
  let ?vd0 = "vd\<lparr>vd_useOpenH264 := False, vd_useJPEG := False, vd_useVP9 := False, vd_useH265 := False,
      vd_useAV1 := False, vd_w := w, vd_h := h, vd_pts := 0, vd_tsMs := 0\<rparr>"
  have "idle_module (vd_oh ?vd0)" "\<not> vd_useOpenH264 ?vd0" using assms(2) by (simp_all add: idle_video_def)
  then obtain m ok where t: "try_openH264 p e ?vd0 = ?vd0\<lparr>vd_oh := m, vd_useOpenH264 := ok\<rparr>"
      "module_in_use ok (vd_w ?vd0) (vd_h ?vd0) m" using try_openH264_cases assms(1) by blast
  have "wmf_inv (fst (encoderInit p wo w h f b (vd_wmf vd)))
    \<and> (wm_initDone (fst (encoderInit p wo w h f b (vd_wmf vd))) \<longrightarrow>
        map_option (\<lambda>c. (ec_w c, ec_h c)) (wm_encoder (fst (encoderInit p wo w h f b (vd_wmf vd)))) = Some (w, h))"
    for wo f b
    using assms by (auto simp: encoderInit_def encoder_init_def wmf_inv_def idle_video_def Let_def)
  then show ?thesis
    using assms(2) t
    by (cases ok) (auto simp: init_encoders_def Let_def idle_video_def video_inv_def use_defs wmf_in_use_def
        module_in_use_False)
qed

text \<open>One frame: the modules keep their state, and no call goes out of bounds on a full frame.\<close>

lemma encodeFrame_dims:
  "encodeFrame p f bgra w h m = (m', r) \<Longrightarrow> wm_initDone m' = wm_initDone m \<and> wm_encoder m' = wm_encoder m"
  by (auto simp: encodeFrame_def encode_frame_def Let_def
      split: option.splits sum.splits mft_in.splits if_splits)

lemma bgra_to_rgba_full: "n * 4 \<le> length bgra \<Longrightarrow> bgra_to_rgba n bgra \<noteq> None"
proof -
  assume n: "n * 4 \<le> length bgra"
  have "\<exists>s'. bgra_to_rgba n bgra = Some s' \<and> True"
    unfolding bgra_to_rgba_def
  proof (rule for_loop_inv)
    show "True" ..
    fix k and s :: bytes assume "k < n"
    then have "4 * k + 2 < length bgra" using n by simp
    then show "\<exists>s'. (do {
       let i = 4 * k;
       r \<leftarrow> get_byte bgra (i + 2); g \<leftarrow> get_byte bgra (i + 1); b \<leftarrow> get_byte bgra i;
       Some (s @ [word_of_int r, word_of_int g, word_of_int b, 255]) }) = Some s' \<and> True"
      by (simp add: get_byte_def Let_def)
  qed
  then show ?thesis by auto
qed

lemma video_inv_wmf:
  assumes "video_inv p vd" "\<not> vd_useJPEG vd" "\<not> other_in_use vd" "wmf_inv m"
  shows "wm_initDone m = wm_initDone (vd_wmf vd) \<Longrightarrow> wm_encoder m = wm_encoder (vd_wmf vd) \<Longrightarrow>
      video_inv p (vd\<lparr>vd_wmf := m\<rparr>) \<and> video_inv p (vd\<lparr>vd_wmf := m, vd_pts := t\<rparr>)"
    "\<not> wm_initDone m \<Longrightarrow> video_inv p (vd\<lparr>vd_pts := t, vd_useJPEG := True, vd_wmf := m\<rparr>)"
  using assms by (simp_all add: video_inv_def wmf_in_use_def use_defs)

lemma wmf_frame_step_inv:
  assumes "is_windows p" "video_inv p vd" "\<not> vd_useJPEG vd" "\<not> other_in_use vd"
  shows "video_inv p (fst (wmf_frame_step p e bgra vd))"
proof -
  obtain m r where m: "encodeFrame p (ce_wmf_frame e) bgra (vd_w vd) (vd_h vd) (vd_wmf vd) = (m, r)" by fastforce
  have k: "wm_initDone m = wm_initDone (vd_wmf vd)" "wm_encoder m = wm_encoder (vd_wmf vd)" "wmf_inv m"
    using encodeFrame_dims [OF m] encodeFrame_inv [of "vd_wmf vd" p "ce_wmf_frame e" bgra "vd_w vd" "vd_h vd"]
      m assms(2) by (auto simp: video_inv_def wmf_in_use_def)
  have c: "wmf_inv (encoderClose p m)" "\<not> wm_initDone (encoderClose p m)"
    using encoderClose_idle [OF assms(1) k(3)] by auto
  show ?thesis
    using video_inv_wmf(1) [OF assms(2-4) k(3,1,2)] video_inv_wmf(2) [OF assms(2-4) c]
    by (simp add: wmf_frame_step_def m Let_def split: enc_result.split)
qed

lemma encode_same_p:
  "is_windows p \<Longrightarrow> same_open m (fst (openH264EncodeFrame p f1 bgra w h m))"
  "is_windows p \<Longrightarrow> same_open m (fst (vp9EncodeFrame p f2 bgra w h m))"
  "same_open m (fst (h265EncodeFrame p f3 bgra w h m))"
  "is_windows p \<Longrightarrow> same_open m (fst (av1EncodeFrame p f4 bgra w h m))"
proof -
  show "same_open m (fst (openH264EncodeFrame p f1 bgra w h m))" if "is_windows p"
    unfolding is_windows_eq(2) [OF that] by (rule encode_same_w)
  show "same_open m (fst (vp9EncodeFrame p f2 bgra w h m))" if "is_windows p"
    unfolding is_windows_eq(5) [OF that] by (rule encode_same_w)
  show "same_open m (fst (av1EncodeFrame p f4 bgra w h m))" if "is_windows p"
    unfolding is_windows_eq(8) [OF that] by (rule encode_same_w)
  show "same_open m (fst (h265EncodeFrame p f3 bgra w h m))"
    using encode_same_w(3) [of m f3 bgra w h]
    by (cases "has_h265 p") (simp_all add: has_h265_eq(2) [of p], simp add: h265EncodeFrame_def)
qed

lemma flags_update [simp]:
  "flags_in_use (vd\<lparr>vd_oh := m\<rparr>) = flags_in_use vd" "flags_in_use (vd\<lparr>vd_tsMs := t\<rparr>) = flags_in_use vd"
  "flags_in_use (vd\<lparr>vd_vp9 := m\<rparr>) = flags_in_use vd" "flags_in_use (vd\<lparr>vd_h265 := m\<rparr>) = flags_in_use vd"
  "flags_in_use (vd\<lparr>vd_av1 := m\<rparr>) = flags_in_use vd"
  "wmf_in_use (vd\<lparr>vd_oh := m\<rparr>) = wmf_in_use vd" "wmf_in_use (vd\<lparr>vd_tsMs := t\<rparr>) = wmf_in_use vd"
  "wmf_in_use (vd\<lparr>vd_vp9 := m\<rparr>) = wmf_in_use vd" "wmf_in_use (vd\<lparr>vd_h265 := m\<rparr>) = wmf_in_use vd"
  "wmf_in_use (vd\<lparr>vd_av1 := m\<rparr>) = wmf_in_use vd"
  by (simp_all add: use_defs wmf_in_use_def)

lemma video_inv_same:
  "video_inv p vd \<Longrightarrow> same_open (vd_oh vd) m \<Longrightarrow> video_inv p (vd\<lparr>vd_oh := m\<rparr>)"
  "video_inv p vd \<Longrightarrow> same_open (vd_oh vd) m \<Longrightarrow> video_inv p (vd\<lparr>vd_oh := m, vd_tsMs := t\<rparr>)"
  "video_inv p vd \<Longrightarrow> same_open (vd_vp9 vd) m \<Longrightarrow> video_inv p (vd\<lparr>vd_vp9 := m\<rparr>)"
  "video_inv p vd \<Longrightarrow> same_open (vd_h265 vd) m \<Longrightarrow> video_inv p (vd\<lparr>vd_h265 := m\<rparr>)"
  "video_inv p vd \<Longrightarrow> same_open (vd_av1 vd) m \<Longrightarrow> video_inv p (vd\<lparr>vd_av1 := m\<rparr>)"
  by (auto simp: video_inv_def intro: module_in_use_same img_room_same)

lemma encode_step_inv:
  assumes "is_windows p" "video_inv p vd"
  shows "video_inv p (fst (encode_step p e bgra vd))"
proof -
  consider "vd_useJPEG vd" | "\<not> vd_useJPEG vd" "other_in_use vd" | "\<not> vd_useJPEG vd" "\<not> other_in_use vd" by blast
  then show ?thesis
  proof cases
    case 1
    then show ?thesis using assms(2) by (simp add: encode_step_def Let_def split: option.splits)
  next
    case 2
    then show ?thesis
      using video_inv_same [OF assms(2)] encode_same_p(1,2,4) [OF assms(1)] encode_same_p(3)
      by (auto simp: encode_step_def Let_def case_prod_unfold other_in_use_def)
  next
    case 3
    then show ?thesis
      using wmf_frame_step_inv [OF assms 3] by (simp add: encode_step_def other_in_use_def)
  qed
qed

lemma set_bitrate_inv:
  assumes "video_inv p vd"
  shows "video_inv p (set_bitrate p b vd)"
proof -
  have "module_in_use u w h (openH264SetBitrate p b m)" if "module_in_use u w h m" for u w h m
    using that by (auto simp: openH264SetBitrate_def oh_set_bitrate_def module_in_use_def contract_defs
        split: option.splits if_splits)
  then show ?thesis using assms by (simp add: set_bitrate_def video_inv_def)
qed

section \<open>What a frame gives\<close>

text \<open>The codec of the frames: the first flag in the order of the branches, or WMF when it is open.\<close>

definition codec_in_use :: "video \<Rightarrow> video_codec option" where
  "codec_in_use vd =
     (if vd_useJPEG vd then Some JPEG else if vd_useAV1 vd then Some AV1 else if vd_useH265 vd then Some H265
      else if vd_useVP9 vd then Some VP9 else if vd_useOpenH264 vd \<or> wm_initDone (vd_wmf vd) then Some H264
      else None)"

lemma frame_of_codec: "frame_of c r = FrameOut c' b \<Longrightarrow> c' = c \<and> b \<noteq> []"
  by (cases r) (auto split: if_splits)

lemma frame_of_cases: "frame_of c r \<noteq> FrameFallback"
  by (cases r) simp_all

lemma encode_step_codec:
  assumes "encode_step p e bgra vd = (vd', FrameOut c b)" "is_windows p"
  shows "codec_in_use vd = Some c"
proof (cases "vd_useJPEG vd \<or> other_in_use vd")
  case True
  with assms show ?thesis
    by (auto simp: encode_step_def Let_def codec_in_use_def other_in_use_def case_prod_unfold
        dest!: frame_of_codec split: option.splits if_splits)
next
  case False
  with assms show ?thesis
    by (cases "wm_initDone (vd_wmf vd)")
      (auto simp: encode_step_def wmf_frame_step_def Let_def codec_in_use_def other_in_use_def encodeFrame_closed
        split: enc_result.splits prod.splits if_splits)
qed

text \<open>With no codec in use a frame does nothing at all.\<close>

lemma encode_step_silent:
  "codec_in_use vd = None \<Longrightarrow> encode_step p e bgra vd = (vd, FrameNone)"
  by (auto simp: encode_step_def wmf_frame_step_def Let_def codec_in_use_def encodeFrame_closed split: if_splits)

text \<open>Whether the answers let the WMF transform come to an end on this frame.\<close>

definition wmf_drains :: "codec_env \<Rightarrow> bool" where
  "wmf_drains e \<longleftrightarrow> (NeedMoreInput \<in> set (wf_outputs (ce_wmf_frame e)) \<or> OutputFailed \<in> set (wf_outputs (ce_wmf_frame e)))"

end
