(* ===== verification/Video_Props.thy ===== *)
theory Video_Props
  imports Video_Inv
begin

text \<open>
  Properties of the encoders of a stream over whole runs: safety of the buffers while a stream lasts, what its end
  leaves open, the states in which no video is sent, and the fallback to JPEG.
\<close>

section \<open>Runs\<close>

datatype video_op =
    VSwitch codec_env string
  | VMonitor codec_env "(nat \<times> nat) option"
  | VFrame codec_env bytes
  | VRate int

fun video_step :: "platform \<Rightarrow> video_op \<Rightarrow> video \<Rightarrow> video \<times> frame_out" where
  "video_step p (VSwitch e c) vd = (switch_codec p e c vd, FrameNone)"
| "video_step p (VMonitor e cap) vd = (switch_monitor p e cap vd, FrameNone)"
| "video_step p (VFrame e bgra) vd = encode_step p e bgra vd"
| "video_step p (VRate b) vd = (set_bitrate p b vd, FrameNone)"

fun video_run :: "platform \<Rightarrow> video_op list \<Rightarrow> video \<Rightarrow> video \<times> frame_out list" where
  "video_run p [] vd = (vd, [])"
| "video_run p (x # xs) vd =
     (let (vd1, out) = video_step p x vd; (vd2, outs) = video_run p xs vd1 in (vd2, out # outs))"

text \<open>The answers a run may rely on: room in VP9's picture, full frames and a WMF transform that comes to an end.\<close>

fun op_ok :: "video_op \<Rightarrow> video \<Rightarrow> bool" where
  "op_ok (VSwitch e c) vd = env_roomy e (vd_w vd) (vd_h vd)"
| "op_ok (VMonitor e cap) vd = True"
| "op_ok (VFrame e bgra) vd = (full_frame bgra (vd_w vd) (vd_h vd) \<and> wmf_drains e)"
| "op_ok (VRate b) vd = True"

fun run_ok :: "platform \<Rightarrow> video_op list \<Rightarrow> video \<Rightarrow> bool" where
  "run_ok p [] vd = True"
| "run_ok p (x # xs) vd = (op_ok x vd \<and> run_ok p xs (fst (video_step p x vd)))"

lemma video_step_inv:
  "is_windows p \<Longrightarrow> video_inv p vd \<Longrightarrow> op_ok x vd \<Longrightarrow> video_inv p (fst (video_step p x vd))"
  by (cases x) (simp_all add: switch_codec_inv switch_monitor_inv encode_step_inv set_bitrate_inv)

lemma init_encoders_dims [simp]:
  "vd_w (init_encoders p e w h vd) = w" "vd_h (init_encoders p e w h vd) = h"
  by (simp_all add: init_encoders_def try_openH264_def Let_def case_prod_unfold)

lemma switch_dims [simp]:
  "vd_w (switch_h264 p e vd) = vd_w vd" "vd_h (switch_h264 p e vd) = vd_h vd"
  "vd_w (switch_h265 p e vd) = vd_w vd" "vd_h (switch_h265 p e vd) = vd_h vd"
  "vd_w (switch_vp9 p e vd) = vd_w vd" "vd_h (switch_vp9 p e vd) = vd_h vd"
  "vd_w (switch_av1 p e vd) = vd_w vd" "vd_h (switch_av1 p e vd) = vd_h vd"
  by (simp_all add: switch_h264_def switch_h265_def switch_vp9_def switch_av1_def try_openH264_def Let_def
      case_prod_unfold)

lemma switch_wmf [simp]:
  "vd_wmf (switch_h264 p e vd) = vd_wmf vd" "vd_wmf (switch_h265 p e vd) = vd_wmf vd"
  "vd_wmf (switch_vp9 p e vd) = vd_wmf vd" "vd_wmf (switch_av1 p e vd) = vd_wmf vd"
  by (simp_all add: switch_h264_def switch_h265_def switch_vp9_def switch_av1_def try_openH264_def Let_def
      case_prod_unfold)

lemma close_in_use_dims [simp]:
  "vd_w (close_in_use p vd) = vd_w vd" "vd_h (close_in_use p vd) = vd_h vd" "vd_wmf (close_in_use p vd) = vd_wmf vd"
  by (simp_all add: close_in_use_eq)

lemma switch_codec_dims [simp]:
  "vd_w (switch_codec p e c vd) = vd_w vd" "vd_h (switch_codec p e c vd) = vd_h vd"
  by (simp_all add: switch_codec_def Let_def)

lemma wmf_step_not_stuck:
  assumes "full_frame bgra (vd_w vd) (vd_h vd)" "wmf_drains e"
  shows "snd (wmf_frame_step p e bgra vd) \<noteq> FrameStuck"
proof -
  have "bgra \<noteq> []" using assms(1) by (auto simp: full_frame_def)
  moreover have "wmf_i420 bgra (vd_w vd) (vd_h vd) \<noteq> None"
    using assms(1) gen_i420_planes [of "vd_w vd" "vd_h vd" bgra "replicate (i420_size (vd_w vd) (vd_h vd)) 0"]
    by (simp add: wmf_i420_gen full_frame_def)
  moreover have "wmf_drain max_nal_buf max_nal_buf [] (wf_outputs (ce_wmf_frame e)) \<noteq> None"
    using assms(2) unfolding wmf_drains_def wmf_drain_returns [OF order_refl] .
  ultimately have "snd (encodeFrame p (ce_wmf_frame e) bgra (vd_w vd) (vd_h vd) (vd_wmf vd)) \<noteq> EncStuck"
    by (auto simp: encodeFrame_def encode_frame_def Let_def split: mft_in.splits if_splits)
  then show ?thesis
    by (auto simp: wmf_frame_step_def Let_def split: prod.splits enc_result.splits)
qed

lemma frame_of_stuck: "frame_of c r = FrameStuck \<longleftrightarrow> r = EncStuck"
  by (cases r) simp_all

lemma encode_step_not_stuck:
  assumes "is_windows p" "video_inv p vd" "full_frame bgra (vd_w vd) (vd_h vd)" "wmf_drains e"
  shows "snd (encode_step p e bgra vd) \<noteq> FrameStuck"
proof -
  have fits: "vd_useOpenH264 vd \<Longrightarrow> snd (openH264EncodeFrame p f1 bgra (vd_w vd) (vd_h vd) (vd_oh vd)) \<noteq> EncStuck"
    "vd_useVP9 vd \<Longrightarrow> snd (vp9EncodeFrame p f2 bgra (vd_w vd) (vd_h vd) (vd_vp9 vd)) \<noteq> EncStuck"
    "vd_useH265 vd \<Longrightarrow> snd (h265EncodeFrame p f3 bgra (vd_w vd) (vd_h vd) (vd_h265 vd)) \<noteq> EncStuck"
    "vd_useAV1 vd \<Longrightarrow> snd (av1EncodeFrame p f4 bgra (vd_w vd) (vd_h vd) (vd_av1 vd)) \<noteq> EncStuck" for f1 f2 f3 f4
    using assms(2) encode_fits_w [OF assms(3)] has_h265_eq(2) [of p]
    unfolding is_windows_eq(2,5,8) [OF assms(1)] by (auto simp: video_inv_def module_in_use_def)
  have jpeg: "bgra_to_rgba (vd_w vd * vd_h vd) bgra \<noteq> None"
    using bgra_to_rgba_full assms(3) by (simp add: full_frame_def)
  show ?thesis
    using fits jpeg wmf_step_not_stuck [OF assms(3,4)]
    by (auto simp: encode_step_def Let_def case_prod_unfold frame_of_stuck encodeJPEG_def split: option.splits)
qed

lemma video_run_inv:
  assumes "is_windows p"
  shows "video_inv p vd \<Longrightarrow> run_ok p xs vd \<Longrightarrow>
    video_inv p (fst (video_run p xs vd)) \<and> FrameStuck \<notin> set (snd (video_run p xs vd))"
proof (induction xs arbitrary: vd)
  case Nil
  then show ?case by simp
next
  case (Cons x xs)
  have "video_inv p (fst (video_step p x vd))" using video_step_inv [OF assms] Cons.prems by simp
  then have "video_inv p (fst (video_run p xs (fst (video_step p x vd))))
      \<and> FrameStuck \<notin> set (snd (video_run p xs (fst (video_step p x vd))))"
    using Cons.IH Cons.prems(2) by simp
  moreover have "snd (video_step p x vd) \<noteq> FrameStuck"
    using encode_step_not_stuck [OF assms Cons.prems(1)] Cons.prems(2) by (cases x) auto
  ultimately show ?case by (auto simp: case_prod_unfold Let_def)
qed

text \<open>
  In a stream on Windows that starts with every encoder closed, whatever codec and monitor switches, frames and
  bitrate changes follow and whatever the codec libraries answer, at most one encoder is in use, it is open for the
  dimensions of the stream, the others are closed, and no conversion or encoding leaves a buffer.
\<close>
theorem stream_encoders_safe:
  assumes "is_windows p" "idle_video vd" "run_ok p ops (init_encoders p e w h vd)"
  shows "video_inv p (fst (video_run p ops (init_encoders p e w h vd)))
    \<and> FrameStuck \<notin> set (snd (video_run p ops (init_encoders p e w h vd)))"
  using video_run_inv [OF assms(1) init_encoders_inv [OF assms(1,2)] assms(3)] .

definition closed_video :: video where
  "closed_video = \<lparr>vd_oh = closed_mod, vd_vp9 = closed_mod, vd_h265 = closed_mod, vd_av1 = closed_mod,
     vd_wmf = closed_wmf, vd_useOpenH264 = False, vd_useJPEG = False, vd_useVP9 = False, vd_useH265 = False,
     vd_useAV1 = False, vd_w = 0, vd_h = 0, vd_pts = 0, vd_tsMs = 0\<rparr>"

lemma closed_video_idle [simp]: "idle_video closed_video"
  by (simp add: idle_video_def closed_video_def idle_module_def wmf_inv_def closed_wmf_def)

definition demo_env :: codec_env where
  "demo_env = \<lparr>ce_oh_dll = demo_dll, ce_vp9_dll = demo_dll, ce_h265_dll = demo_dll, ce_av1_dll = demo_dll,
     ce_oh_open = \<lparr>oo_create = True, oo_initExt = True\<rparr>,
     ce_vp9_open = \<lparr>vo_config = True, vo_init = True, vo_img = Some (4, 1)\<rparr>,
     ce_h265_open = \<lparr>xo_param = True, xo_preset = True, xo_open = True, xo_pic = True\<rparr>,
     ce_av1_open = \<lparr>ao_handle = True, ao_params = True, ao_init = True\<rparr>,
     ce_wmf_open = \<lparr>wo_startup = True, wo_class0 = True, wo_class1 = True, wo_setOut = True, wo_setIn = True, wo_provides = False\<rparr>,
     ce_oh_frame = \<lparr>of_rv = 0, of_skip = False, of_size = 5, of_layers = [[[0, 0, 0, 1, 0x65]]]\<rparr>,
     ce_vp9_frame = \<lparr>vf_ok = True, vf_packets = [(True, [7])]\<rparr>,
     ce_h265_frame = \<lparr>xf_ret = 1, xf_nals = [[8]]\<rparr>,
     ce_av1_frame = \<lparr>af_sent = True, af_packet = Some [9]\<rparr>,
     ce_wmf_frame = \<lparr>wf_alloc = True, wf_input = InputOk, wf_outputs = [NeedMoreInput]\<rparr>,
     ce_jpeg = (\<lambda>w h pix q. Some [1])\<rparr>"

definition demo_frame :: bytes where
  "demo_frame = replicate 16 255"

lemma stream_encoders_safe_witness:
  "FrameStuck \<notin> set (snd (video_run (Windows True) [VSwitch demo_env ''vp9'', VFrame demo_env demo_frame]
       (init_encoders (Windows True) demo_env 2 2 closed_video)))"
proof -
  have "run_ok (Windows True) [VSwitch demo_env ''vp9'', VFrame demo_env demo_frame]
      (init_encoders (Windows True) demo_env 2 2 closed_video)"
    by (simp add: env_roomy_def vpx_roomy_def room_for_def demo_env_def demo_frame_def full_frame_def wmf_drains_def)
  from stream_encoders_safe [OF _ closed_video_idle this] show ?thesis by (simp del: video_run.simps)
qed

section \<open>The end of a stream\<close>

lemma close_at_end_idle:
  assumes "is_windows p" "video_inv p vd"
  shows "idle_video (close_at_end p vd) \<longleftrightarrow> \<not> (vd_useVP9 vd \<or> vd_useH265 vd \<or> vd_useAV1 vd)"
proof -
  have oh: "vd_useOpenH264 vd \<Longrightarrow> idle_module (openH264Close p (vd_oh vd))"
    using assms by (auto simp: video_inv_def intro: close_idle dest: module_in_use_mod_inv)
  have w: "wmf_inv (encoderClose p (vd_wmf vd))" "\<not> wm_initDone (encoderClose p (vd_wmf vd))" "wmf_inv (vd_wmf vd)"
    using encoderClose_idle [OF assms(1)] assms(2) by (auto simp: video_inv_def wmf_in_use_def)
  have i: "idle_module (vd_vp9 vd) \<longleftrightarrow> \<not> vd_useVP9 vd" "idle_module (vd_h265 vd) \<longleftrightarrow> \<not> vd_useH265 vd"
    "idle_module (vd_av1 vd) \<longleftrightarrow> \<not> vd_useAV1 vd" "\<not> vd_useOpenH264 vd \<Longrightarrow> idle_module (vd_oh vd)"
    "vd_useOpenH264 vd \<Longrightarrow> \<not> wm_initDone (vd_wmf vd)"
    using assms(2) by (auto simp: video_inv_def module_in_use_def idle_module_def ctx_dims_def wmf_in_use_def
        other_in_use_def split: if_splits)
  show ?thesis using oh w i by (auto simp: close_at_end_def idle_video_def)
qed

text \<open>
  C19. The end of a stream closes every encoder exactly when the codec in use is not VP9, H.265 or AV1. After a
  stream that ended on VP9, the next stream that switches to VP9 uses the context of the old dimensions, and its first
  frame runs over the planes of the old picture when it does not fit them.
\<close>
theorem stream_end_leaves_encoder:
  assumes "is_windows p" "video_inv p vd"
  shows "(idle_video (close_at_end p vd) \<longleftrightarrow> \<not> (vd_useVP9 vd \<or> vd_useH265 vd \<or> vd_useAV1 vd))
    \<and> (vd_useVP9 vd \<longrightarrow>
        (let next_stream = switch_codec p e2 ''vp9'' (init_encoders p e1 w h (close_at_end p vd)) in
         vd_useVP9 next_stream \<and> ctx_dims (vd_vp9 next_stream) = Some (vd_w vd, vd_h vd)
         \<and> (full_frame bgra w h \<and> \<not> room_for w h (em_img (vd_vp9 vd)) \<longrightarrow>
              snd (encode_step p e3 bgra next_stream) = FrameStuck)))"
proof (intro conjI impI)
  show "idle_video (close_at_end p vd) \<longleftrightarrow> \<not> (vd_useVP9 vd \<or> vd_useH265 vd \<or> vd_useAV1 vd)"
    by (rule close_at_end_idle [OF assms])
  assume vp9: "vd_useVP9 vd"
  define vd1 where "vd1 = init_encoders p e1 w h (close_at_end p vd)"
  define vd2 where "vd2 = switch_codec p e2 ''vp9'' vd1"
  have m: "mod_inv (vd_vp9 vd)" "ctx_dims (vd_vp9 vd) = Some (vd_w vd, vd_h vd)"
    using assms(2) vp9 by (auto simp: video_inv_def module_in_use_def)
  have v1: "vd_vp9 vd1 = vd_vp9 vd" "\<not> vd_useVP9 vd1" "\<not> vd_useH265 vd1" "\<not> vd_useAV1 vd1" "vd_w vd1 = w" "vd_h vd1 = h"
    by (simp_all add: vd1_def init_encoders_def close_at_end_def try_openH264_def Let_def case_prod_unfold)
  define m' where "m' = fst (vp9_init_w (ce_vp9_dll e2, ce_vp9_open e2) w h stream_fps (go_div stream_bitrate 1000) (vd_vp9 vd))"
  have m': "snd (vp9_init_w (ce_vp9_dll e2, ce_vp9_open e2) w h stream_fps (go_div stream_bitrate 1000) (vd_vp9 vd))"
      "ctx_dims m' = Some (vd_w vd, vd_h vd)"
    using vp9.reopen_keeps_dims [OF m] by (simp_all add: m'_def)
  have v2: "vd_vp9 vd2 = m'" "vd_useVP9 vd2" "\<not> vd_useJPEG vd2" "\<not> vd_useAV1 vd2" "\<not> vd_useH265 vd2"
      "vd_w vd2 = w" "vd_h vd2 = h"
    using v1 m'(1)
    by (simp_all add: vd2_def switch_codec_def switch_vp9_def close_in_use_eq Let_def case_prod_unfold
        is_windows_eq(4) [OF assms(1)] m'_def)
  have "snd (encode_step p e3 bgra vd2) = FrameStuck"
    if "full_frame bgra w h" "\<not> room_for w h (em_img (vd_vp9 vd))"
    using reopened_vp9_overflows [OF m that(1), where a = "(ce_vp9_dll e2, ce_vp9_open e2)"] that v2
    by (simp add: encode_step_def Let_def case_prod_unfold is_windows_eq(5) [OF assms(1)] m'_def img_room_def)
  then show "let next_stream = switch_codec p e2 ''vp9'' (init_encoders p e1 w h (close_at_end p vd)) in
         vd_useVP9 next_stream \<and> ctx_dims (vd_vp9 next_stream) = Some (vd_w vd, vd_h vd)
         \<and> (full_frame bgra w h \<and> \<not> room_for w h (em_img (vd_vp9 vd)) \<longrightarrow>
              snd (encode_step p e3 bgra next_stream) = FrameStuck)"
    using v2 m'(2) by (simp add: vd2_def vd1_def)
qed

definition demo_vp9_stream :: video where
  "demo_vp9_stream = closed_video
     \<lparr>vd_vp9 := \<lparr>em_dll = True, em_ctx = Some \<lparr>ec_w = 2, ec_h = 2, ec_fps = 30, ec_bitrate = 20000\<rparr>, em_pts = 0,
        em_img = (4, 1), em_initDone = True, em_i420 = replicate 6 0\<rparr>, vd_useVP9 := True, vd_w := 2, vd_h := 2\<rparr>"

lemma demo_vp9_stream_inv: "video_inv (Windows True) demo_vp9_stream"
  by (simp add: demo_vp9_stream_def closed_video_def video_inv_def module_in_use_def contract_defs closed_mod_def
      i420_size_def img_room_def room_for_def use_defs wmf_in_use_def wmf_inv_closed)
    (simp add: closed_wmf_def)

lemma stream_end_leaves_encoder_witness:
  "snd (encode_step (Windows True) demo_env (replicate 64 0)
     (switch_codec (Windows True) demo_env ''vp9''
        (init_encoders (Windows True) demo_env 4 4 (close_at_end (Windows True) demo_vp9_stream)))) = FrameStuck"
  using stream_end_leaves_encoder [OF _ demo_vp9_stream_inv, of demo_env demo_env 4 4 "replicate 64 0" demo_env]
  by (simp add: Let_def) (simp add: demo_vp9_stream_def room_for_def full_frame_def)

section \<open>States without video\<close>

lemma silent_frames:
  "codec_in_use vd = None \<Longrightarrow>
     video_run p (map (\<lambda>(e, b). VFrame e b) frames) vd = (vd, replicate (length frames) FrameNone)"
  by (induction frames) (auto simp: encode_step_silent)

definition known_codecs :: "string list" where
  "known_codecs = [''h264'', ''h265'', ''vp9'', ''av1'', ''jpeg'']"

text \<open>
  A codec request with a name the agent does not know closes the encoder in use and sets no other: from then on
  no frame is sent, until the browser asks for another codec or monitor.
\<close>
theorem unknown_codec_silences:
  assumes "is_windows p" "video_inv p vd" "newCodec \<notin> set known_codecs"
  shows "video_run p (VSwitch e newCodec # map (\<lambda>(e, b). VFrame e b) frames) vd
    = (switch_codec p e newCodec vd, FrameNone # replicate (length frames) FrameNone)"
proof -
  have "switch_codec p e newCodec vd = (if vd_useJPEG vd then (close_in_use p vd)\<lparr>vd_useJPEG := False\<rparr>
      else (close_in_use p vd)\<lparr>vd_wmf := encoderClose p (vd_wmf vd), vd_useJPEG := False\<rparr>)"
    using assms(3) close_in_use_idle(6,7) [OF assms(1,2) refl] by (simp add: switch_codec_def known_codecs_def Let_def)
  moreover have "none_in_use x \<Longrightarrow> codec_in_use x = None" for x
    by (simp add: none_in_use_def idle_video_def other_in_use_def codec_in_use_def)
  ultimately have "codec_in_use (switch_codec p e newCodec vd) = None"
    using closed_for_switch [OF assms(1,2)] by simp
  then show ?thesis by (simp add: silent_frames)
qed

lemma unknown_codec_silences_witness:
  "snd (video_run (Windows True) (VSwitch demo_env ''H264'' # map (\<lambda>(e, b). VFrame e b) [(demo_env, demo_frame)])
     demo_vp9_stream) = [FrameNone, FrameNone]"
  using unknown_codec_silences [OF _ demo_vp9_stream_inv, of "''H264''" demo_env "[(demo_env, demo_frame)]"]
  by (simp add: known_codecs_def)

text \<open>
  When neither OpenH264 nor WMF opens at the start, as on Linux and macOS always, no frame is ever sent before a
  codec switch: the fallback to JPEG that the log announces never comes, since a frame that fails is not counted.
\<close>
theorem failed_start_is_silent:
  assumes "\<not> wm_initDone (vd_wmf vd)" "vd1 = init_encoders p e w h vd"
    and "\<not> is_windows p \<or> (\<not> vd_useOpenH264 vd1 \<and> \<not> wm_initDone (vd_wmf vd1))"
  shows "video_run p (map (\<lambda>(e, b). VFrame e b) frames) vd1 = (vd1, replicate (length frames) FrameNone)"
proof (rule silent_frames)
  have "\<not> vd_useJPEG vd1" "\<not> vd_useVP9 vd1" "\<not> vd_useH265 vd1" "\<not> vd_useAV1 vd1"
    by (simp_all add: assms(2) init_encoders_def try_openH264_def Let_def case_prod_unfold)
  moreover have "\<not> is_windows p \<Longrightarrow> \<not> vd_useOpenH264 vd1 \<and> \<not> wm_initDone (vd_wmf vd1)"
    using assms(1) by (simp add: assms(2) init_encoders_def try_openH264_def Let_def openH264Available_def encoderInit_def)
  ultimately show "codec_in_use vd1 = None" using assms(3) by (auto simp: codec_in_use_def)
qed

lemma failed_start_is_silent_witness:
  "snd (video_run Linux (map (\<lambda>(e, b). VFrame e b) (replicate 100 (demo_env, demo_frame)))
     (init_encoders Linux demo_env 2 2 closed_video)) = replicate 100 FrameNone"
  using failed_start_is_silent [of closed_video _ Linux demo_env 2 2 "replicate 100 (demo_env, demo_frame)"]
  by (simp add: closed_video_def closed_wmf_def)

text \<open>
  On Linux and macOS a switch to VP9 always succeeds, since the stub of the encoder reports success, and no frame
  is sent from then on; the list of codecs in the init message names VP9 on every platform.
\<close>
theorem vp9_stub_is_silent:
  assumes "\<not> is_windows p" "vd1 = switch_codec p e ''vp9'' vd" "\<not> vd_useAV1 vd \<and> \<not> vd_useH265 vd"
  shows "vd_useVP9 vd1 \<and> snd (video_run p (map (\<lambda>(e, b). VFrame e b) frames) vd1) = replicate (length frames) FrameNone"
proof
  show v: "vd_useVP9 vd1"
    using assms(1) by (simp add: assms(2) switch_codec_def switch_vp9_def Let_def vp9EncoderInit_def)
  have f: "\<not> vd_useJPEG vd1" "\<not> vd_useAV1 vd1" "\<not> vd_useH265 vd1"
    using assms(1,3) by (simp_all add: assms(2) switch_codec_def switch_vp9_def Let_def vp9EncoderInit_def close_in_use_eq)
  have "encode_step p e b vd1 = (vd1, FrameNone)" for e b
    using v f assms(1) by (simp add: encode_step_def Let_def vp9EncodeFrame_def)
  then have "video_run p (map (\<lambda>(e, b). VFrame e b) frames) vd1 = (vd1, replicate (length frames) FrameNone)"
    by (induction frames) auto
  then show "snd (video_run p (map (\<lambda>(e, b). VFrame e b) frames) vd1) = replicate (length frames) FrameNone" by simp
qed

lemma vp9_stub_is_silent_witness:
  "snd (video_run Linux (map (\<lambda>(e, b). VFrame e b) (replicate 100 (demo_env, demo_frame)))
     (switch_codec Linux demo_env ''vp9'' closed_video)) = replicate 100 FrameNone"
  using vp9_stub_is_silent [of Linux _ demo_env closed_video "replicate 100 (demo_env, demo_frame)"]
  by (simp add: closed_video_def)

section \<open>The fallback to JPEG\<close>

lemma encodeFrame_counts:
  "wm_outputs m \<le> wm_outputs (fst (encodeFrame p f bgra w h m))"
  by (auto simp: encodeFrame_def encode_frame_def Let_def split: option.splits sum.splits mft_in.splits if_splits)

lemma wmf_counts [simp]:
  "wm_outputs (encoderClose p m) = wm_outputs m" "wm_outputs (fst (encoderInit p wo w h f b m)) = wm_outputs m"
  by (simp_all add: encoderClose_def encoder_close_def encoderInit_def encoder_init_def Let_def)

lemma video_step_outputs:
  "wm_outputs (vd_wmf vd) \<le> wm_outputs (vd_wmf (fst (video_step p x vd)))"
proof (cases x)
  case (VSwitch e c)
  then show ?thesis
    by (simp add: switch_codec_def Let_def)
next
  case (VMonitor e cap)
  then show ?thesis by (simp add: switch_monitor_def Let_def split: option.split)
next
  case (VFrame e bgra)
  have "wm_outputs (vd_wmf vd) \<le> wm_outputs (vd_wmf (fst (wmf_frame_step p e bgra vd)))"
    using encodeFrame_counts [of "vd_wmf vd" p "ce_wmf_frame e" bgra "vd_w vd" "vd_h vd"]
    by (auto simp: wmf_frame_step_def Let_def case_prod_unfold split: enc_result.split)
  then show ?thesis
    using VFrame by (simp add: encode_step_def Let_def case_prod_unfold split: option.split)
qed (simp add: set_bitrate_def)

lemma video_step_fallback:
  "snd (video_step p x vd) = FrameFallback \<Longrightarrow> wm_outputs (vd_wmf vd) = 0"
proof (cases x)
  case (VFrame e bgra)
  assume a: "snd (video_step p x vd) = FrameFallback"
  have "snd (wmf_frame_step p e bgra vd) = FrameFallback"
    using a VFrame frame_of_cases
    by (auto simp: encode_step_def Let_def case_prod_unfold split: option.splits if_splits)
  then show ?thesis
    using encodeFrame_counts [of "vd_wmf vd" p "ce_wmf_frame e" bgra "vd_w vd" "vd_h vd"]
    by (auto simp: wmf_frame_step_def Let_def case_prod_unfold split: enc_result.splits if_splits)
qed simp_all

text \<open>
  Once the WMF encoder has given one frame in the life of the process, no stream falls back to JPEG any more,
  neither this one nor a later one, however many frames give nothing: the counters of the fallback are never reset.
\<close>
theorem fallback_before_first_output:
  assumes "0 < wm_outputs (vd_wmf vd)"
  shows "FrameFallback \<notin> set (snd (video_run p ops vd))
    \<and> 0 < wm_outputs (vd_wmf (init_encoders p e w h (close_at_end p (fst (video_run p ops vd)))))"
proof -
  have "FrameFallback \<notin> set (snd (video_run p ops vd)) \<and> 0 < wm_outputs (vd_wmf (fst (video_run p ops vd)))"
    using assms
  proof (induction ops arbitrary: vd)
    case (Cons x xs)
    then show ?case
      using Cons.IH [of "fst (video_step p x vd)"] video_step_outputs [of vd p x] video_step_fallback [of p x vd]
      by (auto simp: Let_def case_prod_unfold)
  qed simp
  then show ?thesis
    by (simp add: init_encoders_def try_openH264_def close_at_end_def Let_def case_prod_unfold)
qed

lemma fallback_before_first_output_witness:
  "FrameFallback \<notin> set (snd (video_run (Windows True) (replicate 100 (VFrame demo_env demo_frame))
     (closed_video\<lparr>vd_wmf := closed_wmf\<lparr>wm_outputs := 1, wm_inputs := 1\<rparr>\<rparr>)))"
  using fallback_before_first_output
    [of "closed_video\<lparr>vd_wmf := closed_wmf\<lparr>wm_outputs := 1, wm_inputs := 1\<rparr>\<rparr>" "Windows True"
       "replicate 100 (VFrame demo_env demo_frame)"] by simp

end
