(* ===== verification/Stream_Inv.thy ===== *)
theory Stream_Inv
  imports Stream Video_Props Bitrate
begin

text \<open>
  The invariant of a direct stream over its events: the bounds of the channels, the controller and the encoders in
  order, the two timers in step, and the local input released once the stream has ended.
\<close>

section \<open>Normal forms of the writes and of the end\<close>

lemma ws_write_eq:
  "ws_write ok out s = (s\<lparr>ss_out := ss_out s @ (if ok \<and> \<not> ss_closed s then [out] else [])\<rparr>, ok \<and> \<not> ss_closed s)"
  by (simp add: ws_write_def)

lemma ws_try_eq: "ws_try ok out s = s\<lparr>ss_out := ss_out s @ (if ok \<and> \<not> ss_closed s then [out] else [])\<rparr>"
  by (simp add: ws_try_def ws_write_eq)

lemma inputUnblock_blocked: "is_windows p \<Longrightarrow> \<not> in_blocked (fst (inputUnblock p i))"
  by (simp add: inputUnblock_def)

lemma stream_end_eq:
  "stream_end p s = s\<lparr>ss_audio := False, ss_video := close_at_end p (ss_video s), ss_capture := False,
     ss_input := fst (inputUnblock p (ss_input s)), ss_events := ss_events s @ snd (inputUnblock p (ss_input s)),
     ss_main := False, ss_stopped := True\<rparr>"
  by (simp add: stream_end_def session_stop_def case_prod_unfold Let_def)

lemma early_end_eq:
  "early_end p s = s\<lparr>ss_capture := False, ss_input := fst (inputUnblock p (ss_input s)),
     ss_events := ss_events s @ snd (inputUnblock p (ss_input s)), ss_main := False, ss_stopped := True\<rparr>"
  by (simp add: early_end_def session_stop_def case_prod_unfold Let_def)

section \<open>The invariant\<close>

definition channels_ok :: "stream_state \<Rightarrow> bool" where
  "channels_ok s \<longleftrightarrow> length (ss_inputCh s) \<le> 64 \<and> length (ss_codecCh s) \<le> 4 \<and> length (ss_monitorCh s) \<le> 4
     \<and> length (ss_blockCh s) \<le> 4"

text \<open>The warning comes thirty seconds before the end, or has been read.\<close>

definition timers_ok :: "stream_state \<Rightarrow> bool" where
  "timers_ok s \<longleftrightarrow> (ss_main s \<longrightarrow> ss_idleAt s \<noteq> None)
     \<and> (ss_warnAt s = None \<or> ss_warnAt s = map_option (\<lambda>t. t - inactivityWarning) (ss_idleAt s))"

definition ended_ok :: "stream_state \<Rightarrow> bool" where
  "ended_ok s \<longleftrightarrow> \<not> ss_crashed s \<and> (ss_main s \<or> (ss_stopped s \<and> \<not> in_blocked (ss_input s)))"

text \<open>
  The connection is closed after the close frame, which comes after the stop channel is closed: at most one close frame, and
  none before.
\<close>

definition closing_ok :: "stream_state \<Rightarrow> bool" where
  "closing_ok s \<longleftrightarrow> (ss_closed s \<longrightarrow> ss_closing s) \<and> (ss_closing s \<longrightarrow> ss_stopped s)
     \<and> length (filter (\<lambda>out. out = OutClose) (ss_out s)) \<le> (if ss_closing s then 1 else 0)"

definition stream_inv :: "platform \<Rightarrow> stream_state \<Rightarrow> bool" where
  "stream_inv p s \<longleftrightarrow> channels_ok s \<and> ab_inv (ss_ab s) \<and> timers_ok s \<and> ended_ok s \<and> closing_ok s
     \<and> (ss_main s \<longrightarrow> video_inv p (ss_video s))"

lemmas stream_inv_defs = stream_inv_def channels_ok_def timers_ok_def ended_ok_def closing_ok_def

text \<open>What the system may answer to an event: room in VP9's picture, full frames and a WMF transform that ends.\<close>

fun ev_ok :: "stream_event \<Rightarrow> stream_state \<Rightarrow> bool" where
  "ev_ok (EvCodec ce now ok) s = env_roomy ce (vd_w (ss_video s)) (vd_h (ss_video s))"
| "ev_ok (EvFrame ce (Some (wh, bgra)) ok t ok2) s =
     (full_frame bgra (vd_w (ss_video s)) (vd_h (ss_video s)) \<and> wmf_drains ce)"
| "ev_ok ev s = True"

fun evs_ok :: "platform \<Rightarrow> (bytes \<Rightarrow> json option) \<Rightarrow> stream_event list \<Rightarrow> stream_state \<Rightarrow> bool" where
  "evs_ok p um [] s = True"
| "evs_ok p um (ev # evs) s = (ev_ok ev s \<and> evs_ok p um evs (stream_step p um ev s))"

section \<open>The parts of a step keep it\<close>

lemma ws_try_inv [simp]: "out \<noteq> OutClose \<Longrightarrow> stream_inv p (ws_try ok out s) = stream_inv p s"
  by (simp add: ws_try_eq stream_inv_defs)

lemma session_stop_inv: "stream_inv p s \<Longrightarrow> stream_inv p (session_stop s)"
  by (auto simp: session_stop_def stream_inv_defs)

lemma ws_Close_inv: "stream_inv p s \<Longrightarrow> stream_inv p (ws_Close ok s)"
  by (auto simp: ws_Close_def ws_try_eq stream_inv_defs)

lemma stream_end_inv:
  "is_windows p \<Longrightarrow> stream_inv p s \<Longrightarrow> stream_inv p (stream_end p s)"
  by (auto simp: stream_end_eq stream_inv_defs inputUnblock_blocked split: option.splits)

lemma early_end_inv:
  "is_windows p \<Longrightarrow> channels_ok s \<Longrightarrow> ab_inv (ss_ab s) \<Longrightarrow> ss_warnAt s = None \<Longrightarrow> \<not> ss_crashed s \<Longrightarrow>
     closing_ok s \<Longrightarrow> stream_inv p (early_end p s)"
  by (auto simp: early_end_eq stream_inv_defs inputUnblock_blocked split: option.splits)

lemma h265Available_module:
  assumes "module_in_use u w h m"
  shows "module_in_use u w h (fst (h265Available p d m))"
proof -
  have "fst (h265Available p d m) = m\<lparr>em_dll := em_dll (fst (h265Available p d m))\<rparr>"
    "em_dll m \<Longrightarrow> em_dll (fst (h265Available p d m))"
    by (auto simp: h265Available_def Let_def dest: load_dll_keeps(3) split: prod.splits)
  then obtain l where "fst (h265Available p d m) = m\<lparr>em_dll := l\<rparr>" "em_dll m \<Longrightarrow> l" by blast
  then show ?thesis using assms by (auto simp: module_in_use_def contract_defs split: if_splits)
qed

lemma h265Available_inv: "video_inv p vd \<Longrightarrow> video_inv p (vd\<lparr>vd_h265 := fst (h265Available p d (vd_h265 vd))\<rparr>)"
  by (simp add: video_inv_def h265Available_module)

text \<open>A step of the main loop only has to be looked at while the loop runs.\<close>

lemma main_step_inv: "stream_inv p s \<Longrightarrow> (ss_main s \<Longrightarrow> stream_inv p (f s)) \<Longrightarrow> stream_inv p (main_step f s)"
  by (simp add: main_step_def)

lemma stream_start_inv:
  assumes "is_windows p" "idle_video vd"
  shows "stream_inv p (stream_start p e now vd inp)"
proof -
  have new: "channels_ok (new_stream vd inp)" "ab_inv (ss_ab (new_stream vd inp))" "ss_warnAt (new_stream vd inp) = None"
    "\<not> ss_crashed (new_stream vd inp)" "ss_main (new_stream vd inp)" "\<not> ss_stopped (new_stream vd inp)" "\<not> ss_closing (new_stream vd inp)"
    "\<not> ss_closed (new_stream vd inp)" "ss_out (new_stream vd inp) = []" "closing_ok (new_stream vd inp)"
    by (simp_all add: channels_ok_def closing_ok_def new_stream_def new_inv)
  have early: "stream_inv p (early_end p (new_stream vd inp))" by (rule early_end_inv [OF assms(1) new(1-4,10)])
  show ?thesis
  proof (cases "se_capture e")
    case (Inl err)
    then show ?thesis
      using new by (auto simp: stream_start_def Let_def ws_try_eq channels_ok_def closing_ok_def intro!: early_end_inv [OF assms(1)])
  next
    case (Inr dims)
    obtain w h ox oy where d: "dims = ((w, h), (ox, oy))" by (cases dims) auto
    let ?vd = "init_encoders p (se_codecs e) w h vd"
    have vd: "video_inv p (?vd\<lparr>vd_h265 := fst (h265Available p (ce_h265_dll (se_codecs e)) (vd_h265 ?vd))\<rparr>)"
      by (rule h265Available_inv [OF init_encoders_inv [OF assms]])
    show ?thesis
    proof (cases "w = 0 \<or> h = 0")
      case True
      then show ?thesis using early by (simp add: stream_start_def Inr d Let_def)
    next
      case False
      then show ?thesis
        using new vd inputUnblock_blocked [OF assms(1)]
        by (simp add: stream_start_def Inr d Let_def case_prod_unfold ws_write_eq stream_inv_defs stream_end_eq)
    qed
  qed
qed

section \<open>Steps keep it\<close>

lemma read_text_inv: "stream_inv p s \<Longrightarrow> stream_inv p (read_text q um clip ok payload s)"
  by (auto simp: read_text_def Let_def ws_try_eq stream_inv_defs try_send_bound split: option.split)

lemma read_frame_inv: "stream_inv p s \<Longrightarrow> stream_inv p (read_frame q um clip ok opcode payload s)"
  by (simp add: read_frame_def read_text_inv) (auto simp: session_stop_def stream_inv_defs)

lemma read_error_inv: "stream_inv p s \<Longrightarrow> stream_inv p (read_error s)"
  by (auto simp: read_error_def session_stop_def stream_inv_defs)

lemma tickers_inv:
  "stream_inv p s \<Longrightarrow> stream_inv p (keepalive ok s)" "stream_inv p s \<Longrightarrow> stream_inv p (audio_tick ok data s)"
  "stream_inv p s \<Longrightarrow> stream_inv p (keepalive_stop s)" "stream_inv p s \<Longrightarrow> stream_inv p (audio_stop s)"
  by (auto simp: keepalive_def audio_tick_def keepalive_stop_def audio_stop_def session_stop_def ws_write_eq ws_try_eq
      stream_inv_defs)

lemma resetIdleTimer_inv: "stream_inv p s \<Longrightarrow> stream_inv p (resetIdleTimer now s)"
  by (auto simp: resetIdleTimer_def stream_inv_defs)

lemma on_warning_inv: "stream_inv p s \<Longrightarrow> stream_inv p (on_warning ok s)"
  by (auto simp: on_warning_def Let_def ws_try_eq stream_inv_defs)

lemma on_idle_inv: "is_windows p \<Longrightarrow> stream_inv p s \<Longrightarrow> stream_inv p (on_idle p ok s)"
  by (simp add: on_idle_def stream_end_inv)

lemma on_block_inv: "stream_inv p s \<Longrightarrow> ss_main s \<Longrightarrow> stream_inv p (on_block q ok s)"
  by (auto simp: on_block_def Let_def ws_try_eq case_prod_unfold stream_inv_defs split: list.split)

lemma on_input_inv: "stream_inv p s \<Longrightarrow> ss_main s \<Longrightarrow> stream_inv p (on_input q um e now s)"
  by (auto simp: on_input_def Let_def case_prod_unfold resetIdleTimer_def stream_inv_defs split: list.split)

lemma on_monitor_inv:
  assumes "is_windows p" "stream_inv p s" "ss_main s"
  shows "stream_inv p (on_monitor p ce ie capture monitors now ok s)"
proof -
  have "video_inv p (switch_monitor p ce cap (ss_video s))" for cap
    using switch_monitor_inv [OF assms(1)] assms(2,3) by (simp add: stream_inv_def)
  then show ?thesis
    using assms(2,3)
    by (auto simp: on_monitor_def Let_def ws_try_eq resetIdleTimer_def stream_inv_defs split: list.split option.split)
qed

lemma on_codec_inv:
  assumes "is_windows p" "stream_inv p s" "ss_main s" "env_roomy ce (vd_w (ss_video s)) (vd_h (ss_video s))"
  shows "stream_inv p (on_codec p ce now ok s)"
proof -
  have "video_inv p (switch_codec p ce c (ss_video s))" for c
    using switch_codec_inv [OF assms(1)] assms(2-4) by (simp add: stream_inv_def)
  then show ?thesis
    using assms(2,3) by (auto simp: on_codec_def Let_def ws_try_eq resetIdleTimer_def stream_inv_defs split: list.split)
qed

lemma sendAndAdapt_inv: "stream_inv p s \<Longrightarrow> stream_inv p (fst (sendAndAdapt p ok t ok2 frame s))"
  by (auto simp: sendAndAdapt_def Let_def ws_try_eq case_prod_unfold ws_write_eq stream_inv_defs report_inv set_bitrate_inv)

lemma on_frame_inv:
  assumes "is_windows p" "stream_inv p s" "ss_main s" "ev_ok (EvFrame ce captured ok t ok2) s"
  shows "stream_inv p (on_frame p ce captured ok t ok2 s)"
proof (cases captured)
  case None
  then show ?thesis using assms(2) by (simp add: on_frame_def)
next
  case (Some c)
  obtain w h bgra where c: "c = ((w, h), bgra)" by (cases c) auto
  obtain vd r where r: "encode_step p ce bgra (ss_video s) = (vd, r)" by fastforce
  have "video_inv p vd" using encode_step_inv [OF assms(1)] assms(2,3) r by (metis fst_conv stream_inv_def)
  then have s1: "stream_inv p (s\<lparr>ss_video := vd\<rparr>)" using assms(2,3) by (simp add: stream_inv_defs)
  have "r \<noteq> FrameStuck"
    using encode_step_not_stuck [OF assms(1), of "ss_video s" bgra ce] assms(2-4) r Some c by (simp add: stream_inv_def)
  then show ?thesis
    using s1 assms(2) sendAndAdapt_inv [OF s1] stream_end_inv [OF assms(1)] Some c r
    by (auto simp: on_frame_def Let_def case_prod_unfold split: frame_out.split)
qed

lemma stream_step_inv:
  assumes "is_windows p" "stream_inv p s" "ev_ok ev s"
  shows "stream_inv p (stream_step p um ev s)"
proof (cases ev)
  case (EvFrame ce captured ok t ok2)
  then show ?thesis using assms by (simp add: main_step_inv on_frame_inv)
qed (use assms in \<open>simp_all add: main_step_inv read_frame_inv read_error_inv tickers_inv on_warning_inv on_idle_inv
       on_block_inv on_input_inv on_monitor_inv on_codec_inv stream_end_inv session_stop_inv ws_Close_inv\<close>)

lemma stream_steps_inv:
  assumes "is_windows p"
  shows "stream_inv p s \<Longrightarrow> evs_ok p um evs s \<Longrightarrow> stream_inv p (stream_steps p um evs s)"
  by (induction evs arbitrary: s) (simp_all add: stream_step_inv [OF assms])

end
