(* ===== verification/Stream_Props.thy ===== *)
theory Stream_Props
  imports Stream_Inv "HOL-Library.Multiset"
begin

text \<open>
  Properties of a direct stream over whole runs: the invariant, what goes out and when it stops, the warnings of
  inactivity, and what a codec switch leads to.
\<close>

section \<open>The invariant\<close>


definition demo_start :: start_env where
  "demo_start = \<lparr>se_capture = Inr ((2, 2), (0, 0)), se_codecs = demo_env,
     se_input = \<lparr>ie_display = False, ie_keycode = (\<lambda>k. False),
       ie_metrics = \<lparr>sm_virtual = (2, 2, 0, 0), sm_primary = (2, 2)\<rparr>, ie_sas = False, ie_scan = (\<lambda>c. -1)\<rparr>,
     se_monitors = JArr [], se_audio_before = None, se_audio = True, se_write = True\<rparr>"



section \<open>What goes out\<close>

text \<open>The type field of a message.\<close>

definition msg_type :: "json \<Rightarrow> string" where
  "msg_type j =
     (case dec_struct j of
        None \<Rightarrow> []
      | Some kvs \<Rightarrow> (case map_of kvs ''type'' of Some (JStr t) \<Rightarrow> t | _ \<Rightarrow> []))"

lemma map_of_sort_key:
  assumes "distinct (map fst xs)"
  shows "map_of (sort_key fst xs) = map_of xs"
proof -
  have "mset (map fst (sort_key fst xs)) = mset (map fst xs)" by simp
  then have "distinct (map fst (sort_key fst xs))" using assms mset_eq_imp_distinct_iff by blast
  then show ?thesis using assms map_of_inject_set by fastforce
qed

lemma msg_type_go_map: "msg_type (go_map kvs) = (case map_of (rev kvs) ''type'' of Some (JStr t) \<Rightarrow> t | _ \<Rightarrow> [])"
  by (simp add: msg_type_def go_map_def map_of_sort_key map_of_clearjunk distinct_clearjunk)

lemma msg_types [simp]:
  "msg_type (error_msg e) = ''error''" "msg_type (init_msg w h c m r av) = ''init''"
  "msg_type (reinit_msg w h c m) = ''init''" "msg_type warning_msg = ''inactivity_warning''"
  "msg_type timeout_msg = ''inactivity_timeout''" "msg_type (block_msg b) = ''input_block_status''"
  "msg_type (codec_msg cd) = ''codec_switch''" "msg_type (bitrate_msg i) = ''bitrate''"
  "msg_type (clipboard_msg t) = ''clipboard_content''"
  by (simp_all add: error_msg_def init_msg_def reinit_msg_def warning_msg_def timeout_msg_def block_msg_def
      codec_msg_def bitrate_msg_def clipboard_msg_def msg_type_go_map)

fun is_warning :: "ws_out \<Rightarrow> bool" where
  "is_warning (OutText j) = (msg_type j = ''inactivity_warning'')"
| "is_warning out = False"

definition warnings :: "ws_out list \<Rightarrow> nat" where
  "warnings out = length (filter is_warning out)"

text \<open>Whether a binary message is an audio chunk of the event, or a frame of the codec in use before it.\<close>

fun typed_frame :: "stream_event \<Rightarrow> stream_state \<Rightarrow> bytes \<Rightarrow> bool" where
  "typed_frame (EvAudio ok data) s f = (data \<noteq> [] \<and> f = frameTypeAudio # data)"
| "typed_frame (EvFrame ce captured ok t ok2) s f =
     (\<exists>c b. codec_in_use (ss_video s) = Some c \<and> f = frame_code c # b \<and> (c \<noteq> JPEG \<longrightarrow> b \<noteq> []))"
| "typed_frame ev s f = False"

text \<open>The events that start the idle timer again.\<close>

fun activity :: "stream_event \<Rightarrow> bool" where
  "activity (EvInput e now) = True"
| "activity (EvMonitor ce ie capture monitors now ok) = True"
| "activity (EvCodec ce now ok) = True"
| "activity ev = False"

fun is_close :: "stream_event \<Rightarrow> bool" where
  "is_close (EvClose ok) = True"
| "is_close ev = False"

definition stop_goes_on :: "stream_state \<Rightarrow> stream_state \<Rightarrow> bool" where
  "stop_goes_on s s' \<longleftrightarrow> (ss_stopped s \<longrightarrow> ss_stopped s') \<and> (ss_closing s \<longrightarrow> ss_closing s') \<and> (ss_closed s \<longrightarrow> ss_closed s')"

lemma stop_goes_on_refl [simp]: "stop_goes_on s s"
  by (simp add: stop_goes_on_def)

text \<open>
  What an event may write: nothing once the connection is closed, typed frames, a close frame only in the step of
  \<open>ws.Close\<close>, and a warning only when one is due and none was sent since the last activity. A stop does not go back.
\<close>

definition writes_ok :: "stream_event \<Rightarrow> stream_state \<Rightarrow> stream_state \<Rightarrow> bool" where
  "writes_ok ev s s' \<longleftrightarrow> (\<exists>new. ss_out s' = ss_out s @ new
     \<and> (ss_closed s \<longrightarrow> new = []) \<and> stop_goes_on s s' \<and> (OutClose \<in> set new \<longrightarrow> is_close ev)
     \<and> (\<forall>f. OutBinary f \<in> set new \<longrightarrow> typed_frame ev s f)
     \<and> warnings new \<le> (if ss_warningSent s' \<and> \<not> ss_warningSent s then 1 else 0)
     \<and> (ss_warningSent s \<longrightarrow> ss_warningSent s' \<or> activity ev))"

lemma writes_ok_same [simp]: "writes_ok ev s s"
  by (simp add: writes_ok_def warnings_def)

lemma warnings_simps [simp]: "warnings [] = 0" "warnings (x # xs) = (if is_warning x then 1 else 0) + warnings xs"
  by (simp_all add: warnings_def)

lemma writes_ok_main: "(ss_main s \<Longrightarrow> writes_ok ev s (f s)) \<Longrightarrow> writes_ok ev s (main_step f s)"
  by (cases "ss_main s") (simp_all add: main_step_def)

lemma writes_ok_end: "writes_ok ev s s' \<Longrightarrow> writes_ok ev s (stream_end p s')"
  by (auto simp: writes_ok_def stream_end_eq stop_goes_on_def)

lemma writes_ok_silent:
  "ss_out s' = ss_out s \<Longrightarrow> stop_goes_on s s' \<Longrightarrow>
     ss_warningSent s \<longrightarrow> ss_warningSent s' \<or> activity ev \<Longrightarrow> writes_ok ev s s'"
  by (simp add: writes_ok_def)

lemma writes_ok_try:
  assumes "ss_out s1 = ss_out s" "ss_closed s1 = ss_closed s" "stop_goes_on s s1"
    "case out of OutBinary f \<Rightarrow> typed_frame ev s f | OutClose \<Rightarrow> is_close ev | _ \<Rightarrow> True"
    "is_warning out \<longrightarrow> ss_warningSent s1 \<and> \<not> ss_warningSent s" "ss_warningSent s \<longrightarrow> ss_warningSent s1 \<or> activity ev"
  shows "writes_ok ev s (ws_try ok out s1)"
proof (cases "ok \<and> \<not> ss_closed s")
  case True
  then show ?thesis using assms by (auto simp: writes_ok_def ws_try_eq stop_goes_on_def intro!: exI [of _ "[out]"])
next
  case False
  then show ?thesis using assms(1,2,3,6) by (auto simp: ws_try_eq stop_goes_on_def intro!: writes_ok_silent)
qed

lemma writes_ok_read: "writes_ok ev s (read_frame p um clip ok opcode payload s)"
proof -
  have "writes_ok ev s (read_text p um clip ok payload s)"
    by (simp add: read_text_def Let_def writes_ok_silent writes_ok_try stop_goes_on_def split: option.split)
  then show ?thesis by (simp add: read_frame_def writes_ok_silent writes_ok_try stop_goes_on_def session_stop_def)
qed

lemma writes_ok_loop:
  "writes_ok ev s (on_warning ok s)" "writes_ok ev s (on_idle p ok s)" "writes_ok ev s (on_block p ok s)"
  by (simp_all add: on_warning_def on_idle_def on_block_def Let_def case_prod_unfold writes_ok_silent writes_ok_try
      writes_ok_end stop_goes_on_def split: list.split)

lemma writes_ok_activity:
  assumes "activity ev"
  shows "writes_ok ev s (on_input p um e now s)" "writes_ok ev s (on_monitor p ce ie capture monitors now ok s)"
    "writes_ok ev s (on_codec p ce now ok s)"
  using assms
  by (simp_all add: on_input_def on_monitor_def on_codec_def resetIdleTimer_def Let_def case_prod_unfold
      writes_ok_silent writes_ok_try stop_goes_on_def split: list.split option.split)

lemma frame_code_not_empty: "encode_step p ce bgra vd = (vd', FrameOut c b) \<Longrightarrow> c \<noteq> JPEG \<Longrightarrow> b \<noteq> []"
  by (auto simp: encode_step_def wmf_frame_step_def Let_def case_prod_unfold
      dest: frame_of_codec split: if_splits option.splits enc_result.splits)

lemma writes_ok_frame:
  assumes "is_windows p"
  shows "writes_ok (EvFrame ce captured ok t ok2) s (on_frame p ce captured ok t ok2 s)"
proof (cases captured)
  case None
  then show ?thesis by (simp add: on_frame_def)
next
  case (Some x)
  obtain w h bgra where x: "x = ((w, h), bgra)" by (cases x) auto
  obtain vd r where r: "encode_step p ce bgra (ss_video s) = (vd, r)" by fastforce
  show ?thesis
  proof (cases "w \<noteq> vd_w (ss_video s) \<or> h \<noteq> vd_h (ss_video s)")
    case True
    then show ?thesis using writes_ok_end [OF writes_ok_same] by (simp add: on_frame_def Some x)
  next
    case dims: False
    show ?thesis
    proof (cases r)
      case (FrameOut c b)
      have "codec_in_use (ss_video s) = Some c" "c \<noteq> JPEG \<longrightarrow> b \<noteq> []"
        using encode_step_codec [OF _ assms] frame_code_not_empty r FrameOut by blast+
      then have "writes_ok (EvFrame ce captured ok t ok2) s
          (fst (sendAndAdapt p ok t ok2 (frame_code c # b) (s\<lparr>ss_video := vd\<rparr>)))"
        by (auto simp: writes_ok_def sendAndAdapt_def ws_write_eq ws_try_eq stop_goes_on_def Let_def case_prod_unfold)
      then show ?thesis
        using dims writes_ok_end by (auto simp: on_frame_def Some x r FrameOut Let_def case_prod_unfold)
    qed (use dims in \<open>auto simp: on_frame_def Some x r Let_def ws_try_eq writes_ok_def process_dies_def stop_goes_on_def\<close>)
  qed
qed

lemma writes_ok_step:
  assumes "is_windows p"
  shows "writes_ok ev s (stream_step p um ev s)"
proof (cases ev)
  case (EvRead opcode payload clip ok)
  then show ?thesis by (simp add: writes_ok_read)
next
  case EvReadError
  then show ?thesis by (auto simp: read_error_def session_stop_def writes_ok_def stop_goes_on_def)
next
  case (EvKeepalive ok)
  then show ?thesis by (auto simp: keepalive_def session_stop_def ws_write_eq writes_ok_def stop_goes_on_def)
next
  case (EvClose ok)
  then show ?thesis by (auto simp: ws_Close_def ws_try_eq writes_ok_def stop_goes_on_def)
next
  case (EvAudio ok data)
  then show ?thesis by (auto simp: audio_tick_def ws_try_eq writes_ok_def stop_goes_on_def)
next
  case EvStop
  then show ?thesis by (cases "ss_stopped s") (simp_all add: main_step_def writes_ok_end)
next
  case (EvFrame ce captured ok t ok2)
  then show ?thesis using writes_ok_frame [OF assms] by (simp add: writes_ok_main)
next
  case EvKeepaliveStop
  then show ?thesis by (simp add: keepalive_stop_def stop_goes_on_def writes_ok_silent)
next
  case EvAudioStop
  then show ?thesis by (simp add: audio_stop_def stop_goes_on_def writes_ok_silent)
next
  case EvStopStream
  then show ?thesis by (simp add: session_stop_def stop_goes_on_def writes_ok_silent)
qed (auto intro!: writes_ok_main writes_ok_loop writes_ok_activity)

text \<open>
  C11. Every binary message a step of a direct stream writes is one type byte and a payload: an audio chunk, written
  by the audio ticker, or a frame, written by the frame ticker, whose type byte is that of the one codec in use and
  which is not empty for any codec but JPEG.
\<close>
theorem frames_match_codec:
  assumes "is_windows p" "OutBinary f \<in> set (drop (length (ss_out s)) (ss_out (stream_step p um ev s)))"
  shows "case ev of
      EvAudio ok data \<Rightarrow> data \<noteq> [] \<and> f = frameTypeAudio # data
    | EvFrame ce captured ok t ok2 \<Rightarrow>
        (\<exists>c b. codec_in_use (ss_video s) = Some c \<and> f = frame_code c # b \<and> \<not> (c \<noteq> JPEG \<and> b = []))
    | _ \<Rightarrow> False"
proof -
  obtain new where "ss_out (stream_step p um ev s) = ss_out s @ new" "\<forall>f. OutBinary f \<in> set new \<longrightarrow> typed_frame ev s f"
    using writes_ok_step [OF assms(1), of ev s um] by (auto simp: writes_ok_def)
  then have "typed_frame ev s f" using assms(2) by simp
  then show ?thesis by (cases ev) auto
qed

definition demo_jpeg_stream :: stream_state where
  "demo_jpeg_stream = new_stream (closed_video\<lparr>vd_useJPEG := True, vd_w := 2, vd_h := 2\<rparr>) new_input"

lemma demo_jpeg_encode: "encodeJPEG (ce_jpeg demo_env) demo_frame 2 2 15 = Some (Some [1])"
  using bgra_to_rgba_full [of 4 demo_frame] by (auto simp: encodeJPEG_def demo_env_def demo_frame_def)

lemma demo_jpeg_frame:
  "ss_out (stream_step (Windows True) um (EvFrame demo_env (Some ((2, 2), demo_frame)) True 0 True) demo_jpeg_stream)
     = [OutBinary [1, 1]]"
  by (simp add: main_step_def demo_jpeg_stream_def new_stream_def on_frame_def encode_step_def demo_jpeg_encode
      sendAndAdapt_def ws_write_eq Let_def report_def newAdaptiveBitrate_def bitrateWindow_def case_prod_unfold)

lemma frames_match_codec_witness:
  "\<exists>c b. codec_in_use (ss_video demo_jpeg_stream) = Some c \<and> [1, 1] = frame_code c # b \<and> \<not> (c \<noteq> JPEG \<and> b = [])"
  using frames_match_codec [of "Windows True" "[1, 1]" demo_jpeg_stream "\<lambda>b. None"
      "EvFrame demo_env (Some ((2, 2), demo_frame)) True 0 True"]
    demo_jpeg_frame [of "\<lambda>b. None"]
  by (simp del: stream_step.simps) (simp add: demo_jpeg_stream_def new_stream_def)

section \<open>The stop\<close>

text \<open>
  What a step does to the goroutines: none starts again, the end of one is a stop, a process that has died stays so,
  and only \<open>ws.Close\<close> writes the close frame and closes the connection.
\<close>

definition goes_on :: "stream_state \<Rightarrow> stream_state \<Rightarrow> bool" where
  "goes_on s s' \<longleftrightarrow> (ss_main s' \<longrightarrow> ss_main s) \<and> (ss_reader s' \<longrightarrow> ss_reader s) \<and> (ss_keepTick s' \<longrightarrow> ss_keepTick s)
     \<and> (ss_audioTick s' \<longrightarrow> ss_audioTick s) \<and> (ss_crashed s \<longrightarrow> ss_crashed s')
     \<and> (ss_main s \<and> \<not> ss_main s' \<or> ss_reader s \<and> \<not> ss_reader s' \<or> ss_keepTick s \<and> \<not> ss_keepTick s' \<longrightarrow> ss_stopped s')"

definition same_close :: "stream_state \<Rightarrow> stream_state \<Rightarrow> bool" where
  "same_close s s' \<longleftrightarrow> (ss_closing s' = ss_closing s \<and> ss_closed s' = ss_closed s)
     \<or> (ss_crashed s' \<and> ss_closing s' \<and> ss_closed s')"

lemmas goes_defs = goes_on_def same_close_def

lemma goes_on_refl [simp]: "goes_on s s" "same_close s s"
  by (simp_all add: goes_defs)

lemma goes_on_end: "goes_on s s' \<Longrightarrow> goes_on s (stream_end p s')" "same_close s s' \<Longrightarrow> same_close s (stream_end p s')"
  by (auto simp: goes_defs stream_end_eq)

lemma goes_on_main: "(ss_main s \<Longrightarrow> goes_on s (f s) \<and> same_close s (f s)) \<Longrightarrow> goes_on s (main_step f s) \<and> same_close s (main_step f s)"
  by (simp add: main_step_def)

lemma goes_on_read: "goes_on s (read_frame p um clip ok opcode payload s) \<and> same_close s (read_frame p um clip ok opcode payload s)"
proof -
  have "goes_on s (read_text p um clip ok payload s) \<and> same_close s (read_text p um clip ok payload s)"
    by (simp add: read_text_def Let_def ws_try_eq goes_defs split: option.split)
  then show ?thesis by (simp add: read_frame_def ws_try_eq session_stop_def goes_defs)
qed

lemma goes_on_loop:
  "goes_on s (on_warning ok s) \<and> same_close s (on_warning ok s)" "goes_on s (on_idle p ok s) \<and> same_close s (on_idle p ok s)"
  "goes_on s (on_block p ok s) \<and> same_close s (on_block p ok s)"
  "goes_on s (on_input p um e now s) \<and> same_close s (on_input p um e now s)"
  "goes_on s (on_monitor p ce ie capture monitors now ok s) \<and> same_close s (on_monitor p ce ie capture monitors now ok s)"
  "goes_on s (on_codec p ce now ok s) \<and> same_close s (on_codec p ce now ok s)"
  by (simp_all add: on_warning_def on_idle_def on_block_def on_input_def on_monitor_def on_codec_def resetIdleTimer_def
      Let_def case_prod_unfold ws_try_eq stream_end_eq goes_defs split: list.split option.split)

lemma goes_on_frame: "goes_on s (on_frame p ce captured ok t ok2 s) \<and> same_close s (on_frame p ce captured ok t ok2 s)"
proof (cases captured)
  case (Some x)
  obtain w h bgra where x: "x = ((w, h), bgra)" by (cases x) auto
  obtain vd r where r: "encode_step p ce bgra (ss_video s) = (vd, r)" by fastforce
  have "goes_on s (fst (sendAndAdapt p ok t ok2 f (s\<lparr>ss_video := vd\<rparr>))) \<and> same_close s (fst (sendAndAdapt p ok t ok2 f (s\<lparr>ss_video := vd\<rparr>)))"
    for f by (simp add: sendAndAdapt_def Let_def case_prod_unfold ws_write_eq ws_try_eq goes_defs)
  then show ?thesis
    by (cases r) (auto simp: on_frame_def Some x r Let_def case_prod_unfold ws_try_eq process_dies_def goes_on_end goes_defs
        stream_end_eq)
qed (simp add: on_frame_def)

lemma goes_on_step: "goes_on s (stream_step p um ev s) \<and> (is_close ev \<or> same_close s (stream_step p um ev s))"
proof (cases ev)
  case (EvFrame ce captured ok t ok2)
  then show ?thesis by (simp add: goes_on_main goes_on_frame)
next
  case (EvRead opcode payload clip ok)
  then show ?thesis using goes_on_read by simp
next
  case EvStop
  then show ?thesis using goes_on_end [of s s p] by (simp add: main_step_def)
next
  case (EvWarning now ok)
  then show ?thesis using goes_on_loop(1) [of s ok] by (simp add: main_step_def)
next
  case (EvIdle now ok)
  then show ?thesis using goes_on_loop(2) [of s p ok] by (simp add: main_step_def)
next
  case (EvBlock ok)
  then show ?thesis by (simp add: goes_on_main goes_on_loop(3))
next
  case (EvInput e now)
  then show ?thesis by (simp add: goes_on_main goes_on_loop(4))
next
  case (EvMonitor ce ie capture monitors now ok)
  then show ?thesis by (simp add: goes_on_main goes_on_loop(5))
next
  case (EvCodec ce now ok)
  then show ?thesis by (simp add: goes_on_main goes_on_loop(6))
qed (auto simp: read_error_def keepalive_def keepalive_stop_def audio_tick_def audio_stop_def session_stop_def ws_Close_def
    ws_try_eq ws_write_eq goes_defs)

lemma step_goroutines:
  "ss_main (stream_step p um ev s) \<Longrightarrow> ss_main s" "ss_reader (stream_step p um ev s) \<Longrightarrow> ss_reader s"
  "ss_keepTick (stream_step p um ev s) \<Longrightarrow> ss_keepTick s" "ss_audioTick (stream_step p um ev s) \<Longrightarrow> ss_audioTick s"
  using goes_on_step [of s p um ev] by (auto simp: goes_on_def)

lemma step_closing:
  "\<not> is_close ev \<Longrightarrow> same_close s (stream_step p um ev s)"
  using goes_on_step [of s p um ev] by blast

lemma step_crashed: "ss_crashed s \<Longrightarrow> ss_crashed (stream_step p um ev s)"
  using goes_on_step [of s p um ev] by (auto simp: goes_on_def)

lemma steps_append: "stream_steps p um (evs @ evs') s = stream_steps p um evs' (stream_steps p um evs s)"
  by (induction evs arbitrary: s) simp_all

lemma steps_crashed: "ss_crashed s \<Longrightarrow> ss_crashed (stream_steps p um evs s)"
  by (induction evs arbitrary: s) (simp_all add: step_crashed)

lemma steps_keep:
  assumes "\<And>ev s. f (stream_step p um ev s) \<Longrightarrow> f s"
  shows "f (stream_steps p um evs s) \<Longrightarrow> f s"
  by (induction evs arbitrary: s) (auto dest: assms)

lemma steps_main: "ss_main (stream_steps p um evs s) \<Longrightarrow> ss_main s"
  using steps_keep [of ss_main, OF step_goroutines(1)] .

lemma step_goes_on: "is_windows p \<Longrightarrow> stop_goes_on s (stream_step p um ev s)"
  using writes_ok_step [of p ev s um] by (auto simp: writes_ok_def)

lemma steps_go_on:
  assumes "is_windows p"
  shows "stop_goes_on s (stream_steps p um evs s)"
proof (induction evs arbitrary: s)
  case (Cons ev evs)
  show ?case using step_goes_on [OF assms, of s um ev] Cons.IH [of "stream_step p um ev s"] by (simp add: stop_goes_on_def)
qed simp

text \<open>A goroutine that looks at the stop channel after it was closed has ended.\<close>

lemma ended_by:
  assumes "is_windows p" "\<And>ev s. f (stream_step p um ev s) \<Longrightarrow> f s" "\<And>s. ss_stopped s \<Longrightarrow> \<not> f (stream_step p um e s)"
    and "ss_stopped s" "e \<in> set evs"
  shows "\<not> f (stream_steps p um evs s)"
proof -
  obtain xs ys where e: "evs = xs @ e # ys" using assms(5) split_list by fast
  have "ss_stopped (stream_steps p um xs s)" using steps_go_on [OF assms(1), of s um xs] assms(4) by (simp add: stop_goes_on_def)
  then have "\<not> f (stream_step p um e (stream_steps p um xs s))" by (rule assms(3))
  then have "\<not> f (stream_steps p um ys (stream_step p um e (stream_steps p um xs s)))"
    by (rule contrapos_nn) (rule steps_keep, rule assms(2))
  then show ?thesis by (simp add: e steps_append)
qed

lemma goroutines_end:
  assumes "is_windows p" "ss_stopped s"
  shows "EvStop \<in> set evs \<Longrightarrow> \<not> ss_main (stream_steps p um evs s)"
    "EvReadError \<in> set evs \<Longrightarrow> \<not> ss_reader (stream_steps p um evs s)"
    "EvKeepaliveStop \<in> set evs \<Longrightarrow> \<not> ss_keepTick (stream_steps p um evs s)"
    "EvAudioStop \<in> set evs \<Longrightarrow> \<not> ss_audioTick (stream_steps p um evs s)"
proof -
  show "EvStop \<in> set evs \<Longrightarrow> \<not> ss_main (stream_steps p um evs s)"
    by (rule ended_by [where f = ss_main and e = EvStop, OF assms(1) step_goroutines(1) _ assms(2)]) (simp_all add: main_step_def stream_end_eq)
  show "EvReadError \<in> set evs \<Longrightarrow> \<not> ss_reader (stream_steps p um evs s)"
    by (rule ended_by [where f = ss_reader and e = EvReadError, OF assms(1) step_goroutines(2) _ assms(2)]) (simp_all add: read_error_def session_stop_def)
  show "EvKeepaliveStop \<in> set evs \<Longrightarrow> \<not> ss_keepTick (stream_steps p um evs s)"
    by (rule ended_by [where f = ss_keepTick and e = EvKeepaliveStop, OF assms(1) step_goroutines(3) _ assms(2)]) (simp_all add: keepalive_stop_def)
  show "EvAudioStop \<in> set evs \<Longrightarrow> \<not> ss_audioTick (stream_steps p um evs s)"
    by (rule ended_by [where f = ss_audioTick and e = EvAudioStop, OF assms(1) step_goroutines(4) _ assms(2)]) (simp_all add: audio_stop_def)
qed

text \<open>What a run writes of the close frame, and nothing at all once the connection is closed.\<close>

definition closes :: "ws_out list \<Rightarrow> ws_out list" where
  "closes out = filter (\<lambda>x. x = OutClose) out"

lemma closes_append [simp]: "closes (xs @ ys) = closes xs @ closes ys"
  by (simp add: closes_def)

lemma step_closes:
  assumes "is_windows p"
  shows "\<not> is_close ev \<Longrightarrow> closes (ss_out (stream_step p um ev s)) = closes (ss_out s)"
    "ss_closed s \<Longrightarrow> ss_out (stream_step p um ev s) = ss_out s"
  using writes_ok_step [OF assms, of ev s um] by (auto simp: writes_ok_def closes_def filter_empty_conv)

lemma closed_steps:
  assumes "is_windows p" "ss_closed s"
  shows "ss_out (stream_steps p um evs s) = ss_out s"
  using assms(2)
proof (induction evs arbitrary: s)
  case (Cons ev evs)
  have "ss_closed (stream_step p um ev s)" using step_goes_on [OF assms(1), of s um ev] Cons.prems by (simp add: stop_goes_on_def)
  then show ?case using Cons step_closes(2) [OF assms(1) Cons.prems] by simp
qed simp

lemma quiet_steps:
  assumes "is_windows p"
  shows "list_all (\<lambda>e. \<not> is_close e) evs \<Longrightarrow>
     closes (ss_out (stream_steps p um evs s)) = closes (ss_out s) \<and> same_close s (stream_steps p um evs s)"
proof (induction evs arbitrary: s)
  case (Cons ev evs)
  let ?s = "stream_step p um ev s"
  have "closes (ss_out ?s) = closes (ss_out s)" "same_close s ?s"
    using step_closes(1) [OF assms, of ev um s] step_closing [of ev s p um] Cons.prems by simp_all
  moreover have "closes (ss_out (stream_steps p um evs ?s)) = closes (ss_out ?s)" "same_close ?s (stream_steps p um evs ?s)"
    using Cons.IH [of ?s] Cons.prems by simp_all
  moreover have "ss_crashed ?s \<longrightarrow> ss_crashed (stream_steps p um evs ?s)" by (simp add: steps_crashed)
  ultimately show ?case by (auto simp: same_close_def)
qed simp

text \<open>
  C12. As soon as one goroutine of a direct stream ends (the reader at a close frame or an error, the keepalive at a
  failed ping, the main loop for any reason) or a command stops it, the whole stream ends: the goroutine that stops it
  writes one close frame and closes the connection; until then the others may still write, and after it nothing is
  written, whatever they do; and each of them has ended once it has looked at the stop channel or read from the connection.
\<close>
theorem stop_is_final:
  assumes "is_windows p" "s = stream_step p um ev s0"
    "ev = EvStopStream \<or> (ss_main s0 \<and> \<not> ss_main s) \<or> (ss_reader s0 \<and> \<not> ss_reader s) \<or> (ss_keepTick s0 \<and> \<not> ss_keepTick s)"
    "stream_inv p s" "\<not> ss_closing s" "list_all (\<lambda>e. \<not> is_close e) (evs1 @ evs2)"
    "u = stream_steps p um (evs1 @ EvClose ok1 # evs2 @ [EvClose ok2]) s" "t = stream_steps p um evs3 u"
  shows "ss_stopped s \<and> ss_closed u \<and> ss_out t = ss_out u \<and>
    (\<not> ss_crashed u \<longrightarrow> closes (ss_out u) = closes (ss_out s) @ (if ok1 then [OutClose] else [])) \<and>
    (EvStop \<in> set (evs1 @ evs2 @ evs3) \<longrightarrow> \<not> ss_main t) \<and> (EvReadError \<in> set (evs1 @ evs2 @ evs3) \<longrightarrow> \<not> ss_reader t) \<and>
    (EvKeepaliveStop \<in> set (evs1 @ evs2 @ evs3) \<longrightarrow> \<not> ss_keepTick t) \<and>
    (EvAudioStop \<in> set (evs1 @ evs2 @ evs3) \<longrightarrow> \<not> ss_audioTick t)"
proof -
  let ?a = "stream_steps p um evs1 s" and ?b = "stream_step p um (EvClose ok1) (stream_steps p um evs1 s)"
  let ?c = "stream_steps p um evs2 ?b"
  have u: "u = ws_Close ok2 ?c" using assms(7) by (simp add: steps_append)
  have all: "t = stream_steps p um (evs1 @ EvClose ok1 # evs2 @ EvClose ok2 # evs3) s"
    using assms(7,8) by (simp add: steps_append)
  have stopped: "ss_stopped s" using goes_on_step [of s0 p um ev] assms(2,3) by (auto simp: goes_on_def session_stop_def)
  have cl: "\<not> ss_closed s" using assms(4,5) by (auto simp: stream_inv_defs)
  have q1: "closes (ss_out ?a) = closes (ss_out s)" "same_close s ?a"
    using quiet_steps [OF assms(1), of evs1 um s] assms(6) by auto
  have q2: "closes (ss_out ?c) = closes (ss_out ?b)" "same_close ?b ?c"
    using quiet_steps [OF assms(1), of evs2 um ?b] assms(6) by auto
  have st: "ss_stopped ?a" "ss_stopped ?c"
    using steps_go_on [OF assms(1), of s um "evs1"] steps_go_on [OF assms(1), of s um "evs1 @ EvClose ok1 # evs2"] stopped
    by (simp_all add: stop_goes_on_def steps_append)
  have b: "?b = (if ss_closed ?a then ?a else (ws_try ok1 OutClose ?a)\<lparr>ss_closing := True\<rparr>)"
    using q1(2) assms(5) cl st(1) by (auto simp: ws_Close_def same_close_def)
  have "ss_closing ?b" using b q1(2) cl by (auto simp: same_close_def)
  then have c: "ss_closing ?c" using q2(2) by (auto simp: same_close_def)
  have closed: "ss_closed u" "ss_out u = ss_out ?c" using u c st(2) by (auto simp: ws_Close_def)
  have "closes (ss_out u) = closes (ss_out s) @ (if ok1 then [OutClose] else [])" if "\<not> ss_crashed u"
  proof -
    have "\<not> ss_crashed ?a" using that steps_crashed [of ?a p um "EvClose ok1 # evs2 @ [EvClose ok2]"] assms(7) by (auto simp: steps_append)
    then have "\<not> ss_closed ?a" using q1(2) cl by (auto simp: same_close_def)
    then show ?thesis using b closed(2) q1(1) q2(1) by (simp add: ws_try_eq closes_def)
  qed
  moreover have "set (evs1 @ evs2 @ evs3) \<subseteq> set (evs1 @ EvClose ok1 # evs2 @ EvClose ok2 # evs3)" by auto
  ultimately show ?thesis
    using stopped closed(1) closed_steps [OF assms(1) closed(1), of um evs3] assms(8)
      goroutines_end [OF assms(1) stopped, of "evs1 @ EvClose ok1 # evs2 @ EvClose ok2 # evs3" um, folded all] by auto
qed

definition demo_stream :: stream_state where
  "demo_stream = stream_start (Windows True) demo_start 0 closed_video new_input"

lemma demo_stream_inv: "stream_inv (Windows True) demo_stream"
  unfolding demo_stream_def by (rule stream_start_inv) simp_all

lemma demo_stream_runs: "ss_main demo_stream" "\<not> ss_closing demo_stream" "\<not> ss_stopped demo_stream" "\<not> ss_closed demo_stream"
  by (simp_all add: demo_stream_def stream_start_def demo_start_def ws_write_eq case_prod_unfold Let_def new_stream_def)

lemma stop_is_final_witness:
  "ss_closed (stream_steps (Windows True) (\<lambda>b. None) [EvAudio True [7], EvClose True, EvClose True]
      (stream_step (Windows True) (\<lambda>b. None) EvStopStream demo_stream)) \<and>
   \<not> ss_main (stream_steps (Windows True) (\<lambda>b. None) [EvAudio True [8], EvStop]
      (stream_steps (Windows True) (\<lambda>b. None) [EvAudio True [7], EvClose True, EvClose True]
        (stream_step (Windows True) (\<lambda>b. None) EvStopStream demo_stream)))"
proof -
  have "stream_inv (Windows True) (stream_step (Windows True) (\<lambda>b. None) EvStopStream demo_stream)"
    using session_stop_inv [OF demo_stream_inv] by simp
  moreover have "\<not> ss_closing (stream_step (Windows True) (\<lambda>b. None) EvStopStream demo_stream)"
    using demo_stream_runs by (simp add: session_stop_def)
  ultimately show ?thesis
    using stop_is_final [of "Windows True" _ "\<lambda>b. None" EvStopStream demo_stream "[EvAudio True [7]]" "[]" _ True True _ "[EvAudio True [8], EvStop]",
        OF _ refl _ _ _ _ refl refl]
    by (simp del: stream_step.simps stream_steps.simps)
qed

section \<open>The idle end\<close>

text \<open>The time at which an event of the main loop starts the timers again: it took something from its channel.\<close>

fun rearmed :: "stream_event \<Rightarrow> stream_state \<Rightarrow> int option" where
  "rearmed (EvInput e now) s = (if ss_main s \<and> ss_inputCh s \<noteq> [] then Some now else None)"
| "rearmed (EvMonitor ce ie capture monitors now ok) s = (if ss_main s \<and> ss_monitorCh s \<noteq> [] then Some now else None)"
| "rearmed (EvCodec ce now ok) s = (if ss_main s \<and> ss_codecCh s \<noteq> [] then Some now else None)"
| "rearmed ev s = None"

fun quiet_run :: "platform \<Rightarrow> (bytes \<Rightarrow> json option) \<Rightarrow> stream_event list \<Rightarrow> stream_state \<Rightarrow> bool" where
  "quiet_run p um [] s = True"
| "quiet_run p um (ev # evs) s = (rearmed ev s = None \<and> quiet_run p um evs (stream_step p um ev s))"

fun reads_warning :: "stream_event \<Rightarrow> bool" where
  "reads_warning (EvWarning now ok) = True"
| "reads_warning ev = False"

text \<open>The two timers, counted from \<open>t\<close>, while the main loop runs; the warning may have been read.\<close>

definition armed :: "int \<Rightarrow> bool \<Rightarrow> stream_state \<Rightarrow> bool" where
  "armed t fresh s \<longleftrightarrow> \<not> ss_main s \<or> (ss_idleAt s = Some (t + 600000000000)
     \<and> (if fresh then ss_warnAt s = Some (t + 570000000000) \<and> \<not> ss_warningSent s
        else ss_warnAt s = None \<or> ss_warnAt s = Some (t + 570000000000)))"

lemmas timer_defs = inactivityTimeout_def inactivityWarning_def time_second_def

lemma rearmed_arms: "rearmed ev s = Some t \<Longrightarrow> armed t True (stream_step p um ev s)"
  by (cases ev) (auto simp: armed_def main_step_def on_input_def on_monitor_def on_codec_def resetIdleTimer_def timer_defs
      Let_def case_prod_unfold ws_try_eq split: if_splits list.splits option.splits)

lemma start_arms: "armed t True (stream_start p e t vd inp)"
  by (auto simp: armed_def stream_start_def Let_def case_prod_unfold early_end_eq stream_end_eq ws_write_eq ws_try_eq timer_defs
      new_stream_def split: sum.split)

lemma frame_timers:
  "ss_idleAt (on_frame p ce captured ok t ok2 s) = ss_idleAt s" "ss_warnAt (on_frame p ce captured ok t ok2 s) = ss_warnAt s"
  "ss_warningSent (on_frame p ce captured ok t ok2 s) = ss_warningSent s"
  by (simp_all add: on_frame_def sendAndAdapt_def Let_def case_prod_unfold ws_write_eq ws_try_eq stream_end_eq process_dies_def
      split: option.split frame_out.split)

lemma armed_step:
  assumes "armed t fresh s" "rearmed ev s = None" "fresh \<longrightarrow> \<not> reads_warning ev"
  shows "armed t fresh (stream_step p um ev s)"
proof -
  have timers: "ss_idleAt (stream_step p um ev s) = ss_idleAt s \<and> (ss_warnAt (stream_step p um ev s) = ss_warnAt s
      \<and> ss_warningSent (stream_step p um ev s) = ss_warningSent s \<or> reads_warning ev \<and> ss_warnAt (stream_step p um ev s) = None)"
  proof (cases ev)
    case (EvRead opcode payload clip ok)
    then show ?thesis
      by (simp add: read_frame_def read_text_def Let_def ws_try_eq session_stop_def split: option.split)
  next
    case (EvFrame ce captured ok t ok2)
    then show ?thesis by (simp add: main_step_def frame_timers)
  next
    case (EvInput e now)
    then show ?thesis using assms(2) by (auto simp: main_step_def on_input_def split: list.split if_splits)
  next
    case (EvMonitor ce ie capture monitors now ok)
    then show ?thesis using assms(2) by (auto simp: main_step_def on_monitor_def split: list.split if_splits)
  next
    case (EvCodec ce now ok)
    then show ?thesis using assms(2) by (auto simp: main_step_def on_codec_def split: list.split if_splits)
  qed (auto simp: main_step_def read_error_def keepalive_def keepalive_stop_def audio_tick_def audio_stop_def session_stop_def
      ws_Close_def ws_try_eq ws_write_eq on_warning_def on_idle_def on_block_def stream_end_eq Let_def case_prod_unfold
      split: list.split)
  have "ss_main (stream_step p um ev s) \<longrightarrow> ss_main s" using step_goroutines(1) by blast
  with timers assms(1,3) show ?thesis by (auto simp: armed_def split: if_splits)
qed

lemma armed_steps:
  "armed t fresh s \<Longrightarrow> quiet_run p um evs s \<Longrightarrow> (fresh \<longrightarrow> list_all (\<lambda>ev. \<not> reads_warning ev) evs) \<Longrightarrow>
     armed t fresh (stream_steps p um evs s)"
  by (induction evs arbitrary: s) (auto simp: armed_step)

lemma armed_stale: "armed t True s \<Longrightarrow> armed t False s"
  by (auto simp: armed_def)

text \<open>
  C13. An idle stream ends, and is told before. Each input, monitor or codec request that the main loop takes, and the start,
  sets both timers: with none after it, the loop ends once the idle timer is read ten minutes later or after,
  whatever else happens, and not before; and the warning thirty seconds before that is written when it is read then, and
  not before. Over a whole run there is at most one warning for the start and one for each of these requests.
\<close>
theorem idle_stream_ends:
  assumes "is_windows p" "(\<exists>ev s0. rearmed ev s0 = Some t \<and> s = stream_step p um ev s0) \<or> (\<exists>e vd inp. s = stream_start p e t vd inp)"
    "quiet_run p um evs s" "u = stream_steps p um evs s"
  shows "(t + 600000000000 \<le> now \<longrightarrow> \<not> ss_main (stream_steps p um (EvIdle now ok # evs') u)) \<and>
    (now < t + 600000000000 \<longrightarrow> stream_step p um (EvIdle now ok) u = u) \<and>
    (now < t + 570000000000 \<longrightarrow> stream_step p um (EvWarning now ok) u = u) \<and>
    (t + 570000000000 \<le> now \<and> ss_main u \<and> \<not> ss_closed u \<and> list_all (\<lambda>ev. \<not> reads_warning ev) evs \<longrightarrow>
       ss_out (stream_step p um (EvWarning now True) u) = ss_out u @ [OutText warning_msg]) \<and>
    warnings (ss_out (stream_steps p um run (stream_start p e start vd inp))) \<le> 1 + length (filter activity run)"
proof -
  have armed: "armed t True s" using assms(2) rearmed_arms start_arms by blast
  have u: "armed t False u" unfolding assms(4) by (rule armed_steps [OF armed_stale [OF armed] assms(3)]) simp
  have fresh: "armed t True u" if "list_all (\<lambda>ev. \<not> reads_warning ev) evs"
    unfolding assms(4) by (rule armed_steps [OF armed assms(3)]) (simp add: that)
  have idle: "\<not> ss_main (stream_step p um (EvIdle now ok) u)" if "t + 600000000000 \<le> now"
    using u that by (auto simp: armed_def main_step_def due_def on_idle_def stream_end_eq)
  then have ends: "t + 600000000000 \<le> now \<longrightarrow> \<not> ss_main (stream_steps p um (EvIdle now ok # evs') u)"
    using steps_main [of p um evs' "stream_step p um (EvIdle now ok) u"] by auto
  have early: "now < t + 600000000000 \<longrightarrow> stream_step p um (EvIdle now ok) u = u"
    "now < t + 570000000000 \<longrightarrow> stream_step p um (EvWarning now ok) u = u"
    using u by (auto simp: armed_def main_step_def due_def)
  have told: "t + 570000000000 \<le> now \<and> ss_main u \<and> \<not> ss_closed u \<and> list_all (\<lambda>ev. \<not> reads_warning ev) evs \<longrightarrow>
      ss_out (stream_step p um (EvWarning now True) u) = ss_out u @ [OutText warning_msg]"
    using fresh by (auto simp: armed_def main_step_def due_def on_warning_def ws_try_eq Let_def)
  have bound: "warnings (ss_out (stream_steps p um run s)) \<le> warnings (ss_out s) + length (filter activity run)
      + (if ss_warningSent s then 0 else 1)" for s
  proof (induction run arbitrary: s)
    case (Cons ev run)
    have w: "writes_ok ev s (stream_step p um ev s)" by (rule writes_ok_step [OF assms(1)])
    show ?case
      using Cons.IH [of "stream_step p um ev s"] w
      by (auto simp: writes_ok_def warnings_def split: if_splits)
  qed simp
  moreover have "warnings (ss_out (stream_start p e start vd inp)) = 0"
    by (simp add: stream_start_def Let_def early_end_eq stream_end_eq ws_try_eq ws_write_eq new_stream_def case_prod_unfold
        split: sum.split)
  ultimately have "warnings (ss_out (stream_steps p um run (stream_start p e start vd inp))) \<le> 1 + length (filter activity run)"
    using bound [of "stream_start p e start vd inp"] by (simp split: if_splits)
  with ends early told show ?thesis by blast
qed

lemma idle_stream_ends_witness:
  "\<not> ss_main (stream_steps (Windows True) (\<lambda>b. None) [EvIdle 600000000000 True]
      (stream_steps (Windows True) (\<lambda>b. None) [EvKeepalive True, EvBlock True] demo_stream))"
proof -
  have "\<exists>e vd inp. demo_stream = stream_start (Windows True) e 0 vd inp" unfolding demo_stream_def by blast
  then show ?thesis
    using idle_stream_ends [of "Windows True" 0 demo_stream "\<lambda>b. None" "[EvKeepalive True, EvBlock True]" _ 600000000000 True "[]", OF _ _ _ refl]
    by (simp del: stream_step.simps stream_steps.simps)
qed

end
