(* ===== verification/Switch_Props.thy ===== *)
theory Switch_Props
  imports Stream_Props
begin

text \<open>
  What a codec switch leads to: which encoder is in use afterwards, as a function of the codec asked and of what the
  libraries of the machine can open, and what the browser is told.
\<close>

section \<open>The contract of a switch\<close>

fun codec_named :: "string \<Rightarrow> video_codec option" where
  "codec_named name =
     (if name = ''h264'' then Some H264 else if name = ''h265'' then Some H265 else if name = ''vp9'' then Some VP9
      else if name = ''av1'' then Some AV1 else if name = ''jpeg'' then Some JPEG else None)"

text \<open>
  Whether the encoder of a codec can be opened: its library is loaded or loads, and each of its calls succeeds. For
  H.264 only OpenH264 counts.
\<close>

fun codec_opens :: "platform \<Rightarrow> codec_env \<Rightarrow> video \<Rightarrow> video_codec \<Rightarrow> bool" where
  "codec_opens p e vd JPEG = True"
| "codec_opens p e vd H264 =
     (snd (oh_load_dll (ce_oh_dll e) (em_dll (vd_oh vd))) = 0 \<and> oo_create (ce_oh_open e) \<and> oo_initExt (ce_oh_open e))"
| "codec_opens p e vd VP9 =
     (snd (vpx_load_dll (ce_vp9_dll e) (em_dll (vd_vp9 vd))) = 0 \<and> vo_config (ce_vp9_open e) \<and> vo_init (ce_vp9_open e)
      \<and> vo_img (ce_vp9_open e) \<noteq> None)"
| "codec_opens p e vd H265 =
     (has_h265 p \<and> snd (x265_load_dll (ce_h265_dll e) (em_dll (vd_h265 vd))) = 0 \<and> xo_param (ce_h265_open e)
      \<and> xo_preset (ce_h265_open e) \<and> xo_open (ce_h265_open e) \<and> xo_pic (ce_h265_open e))"
| "codec_opens p e vd AV1 =
     (snd (av1_load_dll (ce_av1_dll e) (em_dll (vd_av1 vd))) = 0 \<and> ao_handle (ce_av1_open e)
      \<and> ao_params (ce_av1_open e) \<and> ao_init (ce_av1_open e))"

definition switch_target :: "platform \<Rightarrow> codec_env \<Rightarrow> string \<Rightarrow> video \<Rightarrow> video_codec option" where
  "switch_target p e name vd = map_option (\<lambda>c. if codec_opens p e vd c then c else JPEG) (codec_named name)"

section \<open>Each switch meets it\<close>

lemma load_dll_again: "load_dll names env l = (l', 0) \<Longrightarrow> load_dll names env l' = (True, 0)"
  by (auto simp: load_dll_def split: if_splits)

lemma loads_again:
  "oh_load_dll env l = (l', 0) \<Longrightarrow> oh_load_dll env l' = (True, 0)"
  "x265_load_dll env l = (l', 0) \<Longrightarrow> x265_load_dll env l' = (True, 0)"
  "av1_load_dll env l = (l', 0) \<Longrightarrow> av1_load_dll env l' = (True, 0)"
  using load_dll_again by (auto simp: oh_load_dll_def x265_load_dll_def av1_load_dll_def)

lemma none_in_use_flags:
  assumes "none_in_use vd"
  shows "\<not> vd_useJPEG vd" "\<not> vd_useAV1 vd" "\<not> vd_useH265 vd" "\<not> vd_useVP9 vd" "\<not> vd_useOpenH264 vd"
    "\<not> wm_initDone (vd_wmf vd)" "em_ctx (vd_oh vd) = None" "em_ctx (vd_vp9 vd) = None" "em_ctx (vd_h265 vd) = None"
    "em_ctx (vd_av1 vd) = None"
  using assms by (simp_all add: none_in_use_def idle_video_def other_in_use_def idle_module_def)

lemma switch_h264_result:
  assumes "is_windows p" "none_in_use vd"
  shows "codec_in_use (switch_h264 p e vd) = Some (if codec_opens p e vd H264 then H264 else JPEG)"
proof -
  obtain l rc where l: "oh_load_dll (ce_oh_dll e) (em_dll (vd_oh vd)) = (l, rc)" by fastforce
  show ?thesis
  proof (cases "rc = 0")
    case True
    then show ?thesis
      using none_in_use_flags [OF assms(2)] assms(1) l loads_again(1) [of "ce_oh_dll e" "em_dll (vd_oh vd)" l]
      by (simp add: switch_h264_def try_openH264_def openH264Available_def openH264Init_def oh_encoder_init_def codec_in_use_def Let_def split: option.split)
  next
    case False
    then show ?thesis
      using none_in_use_flags [OF assms(2)] assms(1) l
      by (simp add: switch_h264_def try_openH264_def openH264Available_def openH264Init_def oh_encoder_init_def codec_in_use_def Let_def)
  qed
qed

lemma switch_vp9_result:
  assumes "is_windows p" "none_in_use vd"
  shows "codec_in_use (switch_vp9 p e vd) = Some (if codec_opens p e vd VP9 then VP9 else JPEG)"
proof -
  obtain l rc where l: "vpx_load_dll (ce_vp9_dll e) (em_dll (vd_vp9 vd)) = (l, rc)" by fastforce
  show ?thesis
  proof (cases "rc = 0")
    case True
    then show ?thesis
      using none_in_use_flags [OF assms(2)] assms(1) l
      by (simp add: switch_vp9_def vp9EncoderInit_def vpx_encoder_init_def codec_in_use_def Let_def split: option.split)
  next
    case False
    then show ?thesis
      using none_in_use_flags [OF assms(2)] assms(1) l
      by (simp add: switch_vp9_def vp9EncoderInit_def vpx_encoder_init_def codec_in_use_def Let_def)
  qed
qed

lemma switch_h265_result:
  assumes "none_in_use vd"
  shows "codec_in_use (switch_h265 p e vd) = Some (if codec_opens p e vd H265 then H265 else JPEG)"
proof -
  obtain l rc where l: "x265_load_dll (ce_h265_dll e) (em_dll (vd_h265 vd)) = (l, rc)" by fastforce
  show ?thesis
  proof (cases "rc = 0")
    case True
    then show ?thesis
      using none_in_use_flags [OF assms] l loads_again(2) [of "ce_h265_dll e" "em_dll (vd_h265 vd)" l]
      by (simp add: switch_h265_def h265Available_def h265EncoderInit_def x265_encoder_init_def codec_in_use_def Let_def split: option.split)
  next
    case False
    then show ?thesis
      using none_in_use_flags [OF assms] l
      by (simp add: switch_h265_def h265Available_def h265EncoderInit_def x265_encoder_init_def codec_in_use_def Let_def)
  qed
qed

lemma switch_av1_result:
  assumes "is_windows p" "none_in_use vd"
  shows "codec_in_use (switch_av1 p e vd) = Some (if codec_opens p e vd AV1 then AV1 else JPEG)"
proof -
  obtain l rc where l: "av1_load_dll (ce_av1_dll e) (em_dll (vd_av1 vd)) = (l, rc)" by fastforce
  show ?thesis
  proof (cases "rc = 0")
    case True
    then show ?thesis
      using none_in_use_flags [OF assms(2)] assms(1) l loads_again(3) [of "ce_av1_dll e" "em_dll (vd_av1 vd)" l]
      by (simp add: switch_av1_def av1Available_def av1EncoderInit_def av1_encoder_init_def codec_in_use_def Let_def split: option.split)
  next
    case False
    then show ?thesis
      using none_in_use_flags [OF assms(2)] assms(1) l
      by (simp add: switch_av1_def av1Available_def av1EncoderInit_def av1_encoder_init_def codec_in_use_def Let_def)
  qed
qed

lemma codec_opens_cong:
  "em_dll (vd_oh vd') = em_dll (vd_oh vd) \<Longrightarrow> em_dll (vd_vp9 vd') = em_dll (vd_vp9 vd) \<Longrightarrow>
   em_dll (vd_h265 vd') = em_dll (vd_h265 vd) \<Longrightarrow> em_dll (vd_av1 vd') = em_dll (vd_av1 vd) \<Longrightarrow>
   codec_opens p e vd' c = codec_opens p e vd c"
  by (cases c) simp_all

lemma close_dll [simp]:
  "em_dll (openH264Close p m) = em_dll m" "em_dll (vp9EncoderClose p m) = em_dll m"
  "em_dll (h265EncoderClose p m) = em_dll m" "em_dll (av1EncoderClose p m) = em_dll m"
  by (simp_all add: openH264Close_def oh_encoder_close_def vp9EncoderClose_def vpx_encoder_close_def
      h265EncoderClose_def x265_encoder_close_def av1EncoderClose_def av1_encoder_close_def)

lemma switch_codec_result:
  assumes "is_windows p" "video_inv p vd"
  shows "codec_in_use (switch_codec p e c vd) = switch_target p e c vd"
proof -
  define vd3 where "vd3 = (if vd_useJPEG vd then (close_in_use p vd)\<lparr>vd_useJPEG := False\<rparr>
      else (close_in_use p vd)\<lparr>vd_wmf := encoderClose p (vd_wmf vd), vd_useJPEG := False\<rparr>)"
  have idle: "none_in_use vd3" using closed_for_switch [OF assms] by (simp add: vd3_def)
  have opens: "codec_opens p e vd3 k = codec_opens p e vd k" for k
    by (rule codec_opens_cong) (simp_all add: vd3_def close_in_use_eq)
  have "switch_codec p e c vd = (if c = ''h264'' then switch_h264 p e vd3 else if c = ''h265'' then switch_h265 p e vd3
      else if c = ''vp9'' then switch_vp9 p e vd3 else if c = ''av1'' then switch_av1 p e vd3
      else if c = ''jpeg'' then vd3\<lparr>vd_useJPEG := True\<rparr> else vd3)"
    by (simp add: switch_codec_def vd3_def close_in_use_eq Let_def)
  moreover have "codec_in_use vd3 = None" using none_in_use_flags [OF idle] by (simp add: codec_in_use_def)
  ultimately show ?thesis
    by (simp add: switch_target_def switch_h264_result [OF assms(1) idle] switch_h265_result [OF idle]
        switch_vp9_result [OF assms(1) idle] switch_av1_result [OF assms(1) idle] opens del: codec_opens.simps)
      (simp add: codec_in_use_def)
qed

text \<open>
  When a direct stream on Windows takes a codec request, the codec in use afterwards is the one asked for if its
  library opens, JPEG if it does not, and none if the name is not known; H.264 means OpenH264 alone, so a stream that
  ran on WMF goes to JPEG when it is asked for H.264 without OpenH264. The browser is told the name it asked for in
  every case.
\<close>
theorem codec_switch_outcome:
  assumes "is_windows p" "stream_inv p s" "ss_main s" "ss_codecCh s = c # rest"
  shows "codec_in_use (ss_video (stream_step p um (EvCodec ce now ok) s)) = switch_target p ce c (ss_video s)
    \<and> ss_out (stream_step p um (EvCodec ce now ok) s)
       = ss_out s @ (if ok \<and> \<not> ss_closed s then [OutText (codec_msg c)] else [])
    \<and> ss_codecCh (stream_step p um (EvCodec ce now ok) s) = rest"
proof -
  have "video_inv p (ss_video s)" using assms(2,3) by (simp add: stream_inv_def)
  then show ?thesis
    using switch_codec_result [OF assms(1)] assms(3,4)
    by (simp add: main_step_def on_codec_def resetIdleTimer_def ws_try_eq)
qed

definition bare_env :: codec_env where
  "bare_env = demo_env\<lparr>ce_oh_dll := \<lparr>de_loads = (\<lambda>n. False), de_exe_dir = None, de_symbols = False\<rparr>\<rparr>"

definition demo_switch_stream :: stream_state where
  "demo_switch_stream = demo_jpeg_stream\<lparr>ss_codecCh := [''h264''], ss_idleAt := Some 0\<rparr>"

lemma demo_switch_stream_inv: "stream_inv (Windows True) demo_switch_stream"
  by (simp add: demo_switch_stream_def demo_jpeg_stream_def new_stream_def stream_inv_defs new_inv closed_video_def
      video_inv_def module_in_use_def contract_defs closed_mod_def use_defs wmf_in_use_def wmf_inv_closed)
    (simp add: closed_wmf_def)

lemma codec_switch_outcome_witness:
  "codec_in_use (ss_video (stream_step (Windows True) (\<lambda>b. None) (EvCodec bare_env 5 True) demo_switch_stream)) = Some JPEG
   \<and> ss_out (stream_step (Windows True) (\<lambda>b. None) (EvCodec bare_env 5 True) demo_switch_stream)
      = [OutText (codec_msg ''h264'')]"
proof -
  have "ss_main demo_switch_stream" "ss_codecCh demo_switch_stream = ''h264'' # []" "ss_out demo_switch_stream = []"
    "\<not> ss_closed demo_switch_stream" "\<not> em_dll (vd_oh (ss_video demo_switch_stream))"
    by (simp_all add: demo_switch_stream_def demo_jpeg_stream_def new_stream_def closed_video_def closed_mod_def)
  then show ?thesis
    using codec_switch_outcome [OF _ demo_switch_stream_inv, of "''h264''" "[]" "\<lambda>b. None" bare_env 5 True]
    by (simp add: switch_target_def bare_env_def oh_load_dll_def load_dll_def del: stream_step.simps)
qed

end
