(* ===== verification/Helper_Props.thy ===== *)
theory Helper_Props
  imports Helper Switch_Props "HOL-Library.Sublist"
begin

text \<open>
  The stream through a helper compared with the direct stream: one event of the helper's loop, with its messages
  relayed to the browser and the orders of the relay brought back, does what the same event does in a direct stream,
  but for the messages that are lost on the way.
\<close>

section \<open>One event, relayed\<close>

text \<open>
  The messages of the helper, read by the relay one by one; a payload over the limit of the pipe is an error of the
  read, and control messages are short. \<open>t\<close> is the time of a write and \<open>ok2\<close> whether the note on the bitrate is
  written.
\<close>

fun pipe_fits :: "pipe_msg \<Rightarrow> bool" where
  "pipe_fits (PipeData t b) = (length b \<le> pipe_cap)"
| "pipe_fits (PipeText t j) = True"

fun relay_msgs :: "pipe_msg list \<Rightarrow> int \<Rightarrow> bool \<Rightarrow> cross_state \<Rightarrow> cross_state" where
  "relay_msgs [] t ok2 x = x"
| "relay_msgs (m # ms) t ok2 x = relay_msgs ms t ok2
     (cross_step (if pipe_fits m then XvPipe m True t ok2 else XvPipeError) (cross_step XvCheck x))"

fun order_event :: "(json \<Rightarrow> bytes) \<Rightarrow> to_helper \<Rightarrow> helper_event" where
  "order_event mar (ToInput payload) = HvRead (pipe_code PipeInput) payload"
| "order_event mar (ToBitrate b) = HvRead (pipe_code PipeInput) (mar (set_bitrate_msg b))"
| "order_event mar ToStop = HvRead (pipe_code PipeStop) []"

definition relayed ::
  "platform \<Rightarrow> (bytes \<Rightarrow> json option) \<Rightarrow> (json \<Rightarrow> bytes) \<Rightarrow> helper_event \<Rightarrow> int \<Rightarrow> bool \<Rightarrow> helper_state \<times> cross_state \<Rightarrow>
     helper_state \<times> cross_state" where
  "relayed p um mar ev t ok2 hx =
     (let h1 = helper_step p um ev (fst hx);
          x1 = relay_msgs (drop (length (hs_out (fst hx))) (hs_out h1)) t ok2 (snd hx)
      in (foldl (\<lambda>h ord. helper_step p um (order_event mar ord) h) h1 (drop (length (cs_helper (snd hx))) (cs_helper x1)), x1))"

text \<open>The helper's event for an event of the main loop; none for the timers, which only a direct stream has.\<close>

fun helper_ev :: "stream_event \<Rightarrow> helper_event option" where
  "helper_ev (EvBlock ok) = Some (HvBlock True)"
| "helper_ev (EvInput e now) = Some (HvInput e)"
| "helper_ev (EvMonitor ce ie capture monitors now ok) = Some (HvMonitor ce ie capture monitors True)"
| "helper_ev (EvCodec ce now ok) = Some (HvCodec ce True)"
| "helper_ev (EvFrame ce captured ok t ok2) = Some (HvFrame ce captured True)"
| "helper_ev ev = None"

fun frame_args :: "stream_event \<Rightarrow> int \<times> bool" where
  "frame_args (EvFrame ce captured ok t ok2) = (t, ok2)"
| "frame_args ev = (0, False)"

text \<open>The writes succeed and the frame has the dimensions expected and fits the pipe.\<close>

fun calm :: "platform \<Rightarrow> stream_event \<Rightarrow> stream_state \<Rightarrow> bool" where
  "calm p (EvBlock ok) s = ok"
| "calm p (EvMonitor ce ie capture monitors now ok) s = ok"
| "calm p (EvCodec ce now ok) s = ok"
| "calm p (EvFrame ce None ok t ok2) s = ok"
| "calm p (EvFrame ce (Some ((w, h), bgra)) ok t ok2) s =
     (ok \<and> w = vd_w (ss_video s) \<and> h = vd_h (ss_video s)
      \<and> (case snd (encode_step p ce bgra (ss_video s)) of FrameOut c b \<Rightarrow> length b \<le> pipe_cap | _ \<Rightarrow> True))"
| "calm p ev s = True"

section \<open>The relation\<close>

definition same_session :: "stream_state \<Rightarrow> helper_state \<times> cross_state \<Rightarrow> bool" where
  "same_session s hx \<longleftrightarrow> (case hx of (h, x) \<Rightarrow>
     hs_video h = ss_video s \<and> hs_input h = ss_input s \<and> hs_inputCh h = ss_inputCh s \<and> hs_codecCh h = ss_codecCh s
     \<and> hs_monitorCh h = ss_monitorCh s \<and> hs_blockCh h = ss_blockCh s \<and> cs_ab x = ss_ab s
     \<and> ss_main s \<and> \<not> ss_stopped s \<and> \<not> ss_closed s \<and> hs_main h \<and> hs_reader h \<and> cs_main x \<and> \<not> cs_stopped x \<and> \<not> cs_closed x \<and> \<not> cs_reading x)"

text \<open>What the browser is told in a direct stream only: the new dimensions, and the fallback to JPEG.\<close>

fun lost_out :: "stream_event \<Rightarrow> ws_out \<Rightarrow> bool" where
  "lost_out (EvMonitor ce ie capture monitors now ok) out = True"
| "lost_out (EvFrame ce captured ok t ok2) (OutText j) = (msg_type j = ''codec_switch'')"
| "lost_out ev out = False"

definition mirrors :: "stream_event \<Rightarrow> stream_state \<Rightarrow> stream_state \<Rightarrow> helper_state \<times> cross_state \<Rightarrow> helper_state \<times> cross_state \<Rightarrow> bool" where
  "mirrors ev s s' hx hx' \<longleftrightarrow> same_session s' hx' \<and> (\<exists>new. ss_out s' = ss_out s @ new
     \<and> cs_out (snd hx') = cs_out (snd hx) @ filter (\<lambda>out. \<not> lost_out ev out) new)"

section \<open>Each event is mirrored\<close>

lemma cross_write_eq:
  "cross_write ok out s = (s\<lparr>cs_out := cs_out s @ (if ok \<and> \<not> cs_closed s then [out] else [])\<rparr>, ok \<and> \<not> cs_closed s)"
  by (simp add: cross_write_def)

definition relay_idle :: "cross_state \<Rightarrow> bool" where
  "relay_idle x \<longleftrightarrow> cs_main x \<and> \<not> cs_stopped x \<and> \<not> cs_closed x \<and> \<not> cs_reading x"

lemma relay_control:
  "relay_idle x \<Longrightarrow> relay_msgs [PipeText PipeControl j] t ok2 x = x\<lparr>cs_out := cs_out x @ [OutText j]\<rparr>"
  by (simp add: relay_idle_def cross_write_eq)

lemma relay_init: "relay_idle x \<Longrightarrow> relay_msgs [PipeText PipeInit j] t ok2 x = x"
  by (simp add: relay_idle_def)

lemma pipe_frame_type_frame [simp]: "pipe_frame_type (frame_pipe c) = Some c" "frame_pipe c \<noteq> PipeAudioData"
  by (cases c; simp add: pipe_frame_type_def)+

lemma relay_frame:
  assumes "relay_idle x" "length b \<le> pipe_cap" "report (cs_ab x) t = (ab, rate)"
  shows "relay_msgs [PipeData (frame_pipe c) b] t ok2 x = x\<lparr>cs_ab := ab,
      cs_out := cs_out x @ OutBinary (frame_code c # b) # (if 0 < rate \<and> ok2 then [OutText (bitrate_msg rate)] else []),
      cs_helper := cs_helper x @ (if 0 < rate then [ToBitrate rate] else [])\<rparr>"
  using assms by (simp add: relay_idle_def cross_write_eq cross_frame_def)

lemma set_bitrate_decodes:
  assumes "0 < b" "b < 2 ^ 63"
  obtains pk where "dec_helper_peek (set_bitrate_msg b) = Some (pk, b)" "pk_Type pk = ''set_bitrate''"
  using assms
  by (simp add: set_bitrate_msg_def go_map_def dec_helper_peek_def dec_peek_def dec_string_def dec_int_def dec_bool_def
      dec_field_def to_lower_def)

lemma set_bitrate_closed:
  "video_inv p vd \<Longrightarrow> \<not> vd_useOpenH264 vd \<Longrightarrow> set_bitrate p b vd = vd"
  by (simp add: set_bitrate_def openH264SetBitrate_def video_inv_def module_in_use_def mod_inv_def)

lemma report_rate: "ab_inv ab \<Longrightarrow> report ab t = (ab', rate) \<Longrightarrow> rate \<le> bitrateMax"
  using report_inv [of ab t] report_refines_spec [of ab t]
  by (auto simp: report_spec_def ab_inv_def Let_def bitrateMax_def split: if_splits)

lemma same_session_idle: "same_session s (h, x) \<Longrightarrow> relay_idle x"
  by (simp add: same_session_def relay_idle_def)

text \<open>Events of the helper that write nothing or one control message, and bring no order back.\<close>

lemma relayed_quiet:
  assumes "helper_step p um ev h = h'" "hs_out h' = hs_out h"
  shows "relayed p um mar ev t ok2 (h, x) = (h', x)"
  using assms by (simp add: relayed_def)

lemma relayed_text:
  assumes "relay_idle x" "helper_step p um ev h = h'" "hs_out h' = hs_out h @ [PipeText c j]" "c = PipeControl \<or> c = PipeInit"
  shows "relayed p um mar ev t ok2 (h, x)
    = (h', x\<lparr>cs_out := cs_out x @ (if c = PipeControl then [OutText j] else [])\<rparr>)"
  using assms relay_control [OF assms(1)] relay_init [OF assms(1)] by (auto simp: relayed_def simp del: relay_msgs.simps)

lemma mirrors_block:
  assumes "same_session s (h, x)"
  shows "mirrors (EvBlock True) s (stream_step p um (EvBlock True) s) (h, x) (relayed p um mar (HvBlock True) t ok2 (h, x))"
proof (cases "ss_blockCh s")
  case Nil
  then show ?thesis
    using assms
    by (subst relayed_quiet [OF refl])
      (auto simp: helper_main_def helper_block_def main_step_def on_block_def mirrors_def same_session_def)
next
  case (Cons b bs)
  then show ?thesis
    using assms
    by (subst relayed_text [OF same_session_idle [OF assms] refl])
      (auto simp: helper_main_def helper_block_def main_step_def on_block_def mirrors_def same_session_def pipe_write_def
        ws_try_eq Let_def case_prod_unfold)
qed

lemma mirrors_input:
  assumes "same_session s (h, x)"
  shows "mirrors (EvInput e now) s (stream_step p um (EvInput e now) s) (h, x) (relayed p um mar (HvInput e) t ok2 (h, x))"
  using assms
  by (subst relayed_quiet [OF refl])
    (auto simp: helper_main_def helper_input_def main_step_def on_input_def mirrors_def same_session_def resetIdleTimer_def
      Let_def case_prod_unfold split: list.splits)

lemma mirrors_codec:
  assumes "same_session s (h, x)"
  shows "mirrors (EvCodec ce now True) s (stream_step p um (EvCodec ce now True) s) (h, x)
    (relayed p um mar (HvCodec ce True) t ok2 (h, x))"
proof (cases "ss_codecCh s")
  case Nil
  then show ?thesis
    using assms
    by (subst relayed_quiet [OF refl])
      (auto simp: helper_main_def helper_codec_def main_step_def on_codec_def mirrors_def same_session_def)
next
  case (Cons c cs)
  then show ?thesis
    using assms
    by (subst relayed_text [OF same_session_idle [OF assms] refl])
      (auto simp: helper_main_def helper_codec_def main_step_def on_codec_def mirrors_def same_session_def pipe_write_def
        ws_try_eq resetIdleTimer_def Let_def)
qed

lemma mirrors_monitor:
  assumes "same_session s (h, x)"
  shows "mirrors (EvMonitor ce ie cap ms now True) s (stream_step p um (EvMonitor ce ie cap ms now True) s) (h, x)
    (relayed p um mar (HvMonitor ce ie cap ms True) t ok2 (h, x))"
proof (cases "ss_monitorCh s = [] \<or> cap (hd (ss_monitorCh s)) = None")
  case True
  then show ?thesis
    using assms
    by (subst relayed_quiet [OF refl])
      (auto simp: helper_main_def helper_monitor_def main_step_def on_monitor_def mirrors_def same_session_def
        resetIdleTimer_def Let_def split: list.splits)
next
  case False
  then obtain idx rest w h' ox oy where "ss_monitorCh s = idx # rest" "cap idx = Some ((w, h'), (ox, oy))"
    by (cases "ss_monitorCh s") auto
  then show ?thesis
    using assms
    by (subst relayed_text [OF same_session_idle [OF assms] refl])
      (auto simp: helper_main_def helper_monitor_def main_step_def on_monitor_def mirrors_def same_session_def
        resetIdleTimer_def pipe_write_def ws_try_eq Let_def)
qed

text \<open>The JSON of an order, written by the relay, is parsed by the helper.\<close>

definition orders_parse :: "(bytes \<Rightarrow> json option) \<Rightarrow> (json \<Rightarrow> bytes) \<Rightarrow> bool" where
  "orders_parse um mar \<longleftrightarrow>
     (\<forall>b. 0 < b \<and> b \<le> bitrateMax \<longrightarrow> um (mar (set_bitrate_msg b)) = Some (set_bitrate_msg b))"

lemma bitrate_order:
  assumes "hs_reader h" "um (mar (set_bitrate_msg rate)) = Some (set_bitrate_msg rate)" "0 < rate" "rate < 2 ^ 63"
  shows "helper_step p um (order_event mar (ToBitrate rate)) h = h\<lparr>hs_video := set_bitrate p rate (hs_video h)\<rparr>"
proof -
  obtain pk where "dec_helper_peek (set_bitrate_msg rate) = Some (pk, rate)" "pk_Type pk = ''set_bitrate''"
    using set_bitrate_decodes [OF assms(3,4)] .
  then show ?thesis using assms by (simp add: helper_read_def helper_read_input_def)
qed

lemma mirrors_sent_frame:
  assumes same: "same_session s (h, x)" and inv: "stream_inv p s" "video_inv p vd"
    and fits: "length b \<le> pipe_cap" and json: "orders_parse um mar"
    and enc: "encode_step p ce bgra (ss_video s) = (vd, FrameOut c b)"
  shows "mirrors (EvFrame ce (Some ((vd_w (ss_video s), vd_h (ss_video s)), bgra)) True t ok2) s
    (stream_step p um (EvFrame ce (Some ((vd_w (ss_video s), vd_h (ss_video s)), bgra)) True t ok2) s) (h, x)
    (relayed p um mar (HvFrame ce (Some ((vd_w (ss_video s), vd_h (ss_video s)), bgra)) True) t ok2 (h, x))"
proof -
  obtain ab rate where r: "report (ss_ab s) t = (ab, rate)" by fastforce
  have x: "relay_idle x" "cs_ab x = ss_ab s" using same by (auto simp: same_session_def relay_idle_def)
  have rate: "rate \<le> bitrateMax" using report_rate [of "ss_ab s", OF _ r] inv(1) by (simp add: stream_inv_def)
  then have order: "hs_reader h' \<Longrightarrow> 0 < rate \<Longrightarrow> helper_step p um (order_event mar (ToBitrate rate)) h'
      = h'\<lparr>hs_video := set_bitrate p rate (hs_video h')\<rparr>" for h'
    using bitrate_order [of h' um mar rate] json rate by (simp add: orders_parse_def bitrateMax_def)
  let ?h1 = "h\<lparr>hs_video := vd, hs_out := hs_out h @ [PipeData (frame_pipe c) b]\<rparr>"
  have h1: "helper_step p um (HvFrame ce (Some ((vd_w (ss_video s), vd_h (ss_video s)), bgra)) True) h = ?h1"
    using same by (simp add: helper_main_def helper_frame_def same_session_def enc pipe_write_def)
  have s1: "stream_step p um (EvFrame ce (Some ((vd_w (ss_video s), vd_h (ss_video s)), bgra)) True t ok2) s
      = s\<lparr>ss_video := if 0 < rate then set_bitrate p rate vd else vd, ss_ab := ab,
           ss_out := ss_out s @ OutBinary (frame_code c # b) # (if 0 < rate \<and> ok2 then [OutText (bitrate_msg rate)] else [])\<rparr>"
    using same set_bitrate_closed [OF inv(2)]
    by (cases "vd_useOpenH264 vd")
      (auto simp: main_step_def on_frame_def same_session_def enc sendAndAdapt_def r ws_write_eq ws_try_eq Let_def)
  show ?thesis
    unfolding relayed_def Let_def fst_conv snd_conv h1 s1
    using same relay_frame [OF x(1) fits, of t ab rate c ok2] x(2) r order
    by (simp add: mirrors_def same_session_def del: relay_msgs.simps order_event.simps helper_step.simps)
qed

lemma mirrors_frame:
  assumes "same_session s (h, x)" "is_windows p" "stream_inv p s" "calm p (EvFrame ce captured True t ok2) s"
    and "ev_ok (EvFrame ce captured True t ok2) s" "orders_parse um mar"
  shows "mirrors (EvFrame ce captured True t ok2) s (stream_step p um (EvFrame ce captured True t ok2) s) (h, x)
    (relayed p um mar (HvFrame ce captured True) t ok2 (h, x))"
proof (cases captured)
  case None
  then show ?thesis
    using assms(1)
    by (subst relayed_quiet [OF refl])
      (auto simp: helper_main_def helper_frame_def main_step_def on_frame_def mirrors_def same_session_def)
next
  case (Some a)
  then obtain bgra where c: "captured = Some ((vd_w (ss_video s), vd_h (ss_video s)), bgra)"
    using assms(4) by (cases a) auto
  obtain vd r where enc: "encode_step p ce bgra (ss_video s) = (vd, r)" by fastforce
  have v: "video_inv p (ss_video s)" using assms(1,3) by (simp add: stream_inv_def same_session_def)
  have vd: "video_inv p vd" using encode_step_inv [OF assms(2) v, of ce bgra] enc by simp
  have stuck: "r \<noteq> FrameStuck" using encode_step_not_stuck [OF assms(2) v, of bgra ce] assms(5) enc c by simp
  have quiet: "relayed p um mar (HvFrame ce captured True) t ok2 (h, x) = (h\<lparr>hs_video := vd\<rparr>, x)"
    if "r = FrameNone \<or> r = FrameFallback"
    using that assms(1) enc c
    by (intro relayed_quiet) (auto simp: helper_main_def helper_frame_def same_session_def)
  show ?thesis
  proof (cases r)
    case (FrameOut k b)
    then show ?thesis
      using mirrors_sent_frame [where um = um, OF assms(1,3) vd _ assms(6)] enc assms(4) c by simp
  next
    case FrameFallback
    then show ?thesis
      using assms(1) quiet enc c by (auto simp: main_step_def on_frame_def mirrors_def same_session_def ws_try_eq)
  next
    case FrameNone
    then show ?thesis
      using assms(1) quiet enc c by (auto simp: main_step_def on_frame_def mirrors_def same_session_def)
  qed (use stuck in simp)
qed

section \<open>Whole runs\<close>

fun relayed_run ::
  "platform \<Rightarrow> (bytes \<Rightarrow> json option) \<Rightarrow> (json \<Rightarrow> bytes) \<Rightarrow> stream_event list \<Rightarrow> helper_state \<times> cross_state \<Rightarrow>
     helper_state \<times> cross_state" where
  "relayed_run p um mar [] hx = hx"
| "relayed_run p um mar (ev # evs) hx =
     (case helper_ev ev of
        None \<Rightarrow> relayed_run p um mar evs hx
      | Some hev \<Rightarrow> relayed_run p um mar evs (relayed p um mar hev (fst (frame_args ev)) (snd (frame_args ev)) hx))"

fun calm_run :: "platform \<Rightarrow> (bytes \<Rightarrow> json option) \<Rightarrow> stream_event list \<Rightarrow> stream_state \<Rightarrow> bool" where
  "calm_run p um [] s = True"
| "calm_run p um (ev # evs) s =
     (helper_ev ev \<noteq> None \<and> calm p ev s \<and> ev_ok ev s \<and> calm_run p um evs (stream_step p um ev s))"

lemma mirrors_event:
  assumes "same_session s hx" "is_windows p" "stream_inv p s" "calm p ev s" "ev_ok ev s" "orders_parse um mar"
    and "helper_ev ev = Some hev"
  shows "mirrors ev s (stream_step p um ev s) hx (relayed p um mar hev (fst (frame_args ev)) (snd (frame_args ev)) hx)"
proof -
  obtain h x where hx: "hx = (h, x)" by fastforce
  show ?thesis
  proof (cases ev)
    case (EvFrame ce captured ok t ok2)
    moreover from this assms(4) have "ok" by (cases captured) auto
    ultimately show ?thesis using mirrors_frame [where um = um] assms hx by auto
  qed (use assms hx mirrors_block mirrors_input mirrors_codec mirrors_monitor in auto)
qed

fun is_binary :: "ws_out \<Rightarrow> bool" where
  "is_binary (OutBinary b) = True"
| "is_binary out = False"

lemma lost_not_binary:
  "is_windows p \<Longrightarrow> ss_out (stream_step p um ev s) = ss_out s @ new \<Longrightarrow>
     filter is_binary (filter (\<lambda>out. \<not> lost_out ev out) new) = filter is_binary new"
proof -
  assume p: "is_windows p" and new: "ss_out (stream_step p um ev s) = ss_out s @ new"
  have "\<not> (is_binary out \<and> lost_out ev out)" if "out \<in> set new" for out
  proof (cases out)
    case (OutBinary f)
    then have "typed_frame ev s f" using writes_ok_step [OF p, of ev s um] new that by (auto simp: writes_ok_def)
    then show ?thesis using OutBinary by (cases ev) auto
  qed auto
  then show ?thesis by (auto intro: filter_cong)
qed

text \<open>
  C5. A stream through a helper does what a direct stream does: over any run of input, block, codec and monitor
  requests and frames, with every write succeeding and the frames within the limit of the pipe, the encoders, the
  input, the queues and the bitrate controller of the two stay equal, the browser receives the very same binary
  messages, and of the text messages those of the direct stream in their order, some missing.
\<close>
theorem cross_session_mirrors:
  assumes "is_windows p" "orders_parse um mar" "stream_inv p s" "same_session s hx" "calm_run p um evs s"
  shows "same_session (stream_steps p um evs s) (relayed_run p um mar evs hx)
    \<and> (\<exists>direct relay. ss_out (stream_steps p um evs s) = ss_out s @ direct
        \<and> cs_out (snd (relayed_run p um mar evs hx)) = cs_out (snd hx) @ relay
        \<and> filter is_binary relay = filter is_binary direct \<and> subseq relay direct)"
  using assms(3-5)
proof (induction evs arbitrary: s hx)
  case (Cons ev evs)
  obtain hev where hev: "helper_ev ev = Some hev" using Cons.prems(3) by auto
  let ?s = "stream_step p um ev s" and ?hx = "relayed p um mar hev (fst (frame_args ev)) (snd (frame_args ev)) hx"
  have "mirrors ev s ?s hx ?hx"
    using mirrors_event [OF Cons.prems(2) assms(1) Cons.prems(1) _ _ assms(2) hev] Cons.prems(3) by simp
  then obtain new where new: "same_session ?s ?hx" "ss_out ?s = ss_out s @ new"
    "cs_out (snd ?hx) = cs_out (snd hx) @ filter (\<lambda>out. \<not> lost_out ev out) new"
    by (auto simp: mirrors_def)
  have "stream_inv p ?s" using stream_step_inv [OF assms(1) Cons.prems(1)] Cons.prems(3) by simp
  from Cons.IH [OF this new(1)] Cons.prems(3) obtain direct relay where
    "same_session (stream_steps p um evs ?s) (relayed_run p um mar evs ?hx)"
    "ss_out (stream_steps p um evs ?s) = ss_out ?s @ direct"
    "cs_out (snd (relayed_run p um mar evs ?hx)) = cs_out (snd ?hx) @ relay"
    "filter is_binary relay = filter is_binary direct" "subseq relay direct"
    by auto
  then show ?case
    using new(2,3) hev lost_not_binary [OF assms(1) new(2)]
    by (auto intro!: exI [of _ "new @ direct"] exI [of _ "filter (\<lambda>out. \<not> lost_out ev out) new @ relay"]
        list_emb_append_mono)
qed simp

definition demo_relay :: cross_state where
  "demo_relay = \<lparr>cs_out = [], cs_helper = [], cs_ab = newAdaptiveBitrate stream_fps, cs_main = True, cs_reader = True,
     cs_pinging = True, cs_stopped = False, cs_closing = False, cs_closed = False, cs_reading = False\<rparr>"

definition demo_helper :: helper_state where
  "demo_helper = (new_helper (ss_video demo_switch_stream) new_input)\<lparr>hs_codecCh := [''h264'']\<rparr>"

definition demo_mar :: "json \<Rightarrow> bytes" where
  "demo_mar j = (case j of JObj kvs \<Rightarrow> (case map_of kvs ''bitrate'' of Some (JInt b) \<Rightarrow> be_bytes 4 (nat b) | _ \<Rightarrow> []) | _ \<Rightarrow> [])"

definition demo_um :: "bytes \<Rightarrow> json option" where
  "demo_um bs = Some (set_bitrate_msg (int (be_nat bs)))"

lemma demo_orders_parse: "orders_parse demo_um demo_mar"
  by (auto simp: orders_parse_def demo_um_def demo_mar_def set_bitrate_msg_def go_map_def bitrateMax_def be_nat_be_bytes
      zmod_int)

lemma cross_session_mirrors_witness:
  "filter is_binary (cs_out (snd (relayed_run (Windows True) demo_um demo_mar
       [EvFrame demo_env (Some ((2, 2), demo_frame)) True 0 True, EvBlock True] (demo_helper, demo_relay))))
   = filter is_binary (ss_out (stream_steps (Windows True) demo_um
       [EvFrame demo_env (Some ((2, 2), demo_frame)) True 0 True, EvBlock True] demo_switch_stream))"
proof -
  let ?evs = "[EvFrame demo_env (Some ((2, 2), demo_frame)) True 0 True, EvBlock True]"
  have "same_session demo_switch_stream (demo_helper, demo_relay)"
    by (simp add: same_session_def demo_relay_def demo_helper_def new_helper_def demo_switch_stream_def
        demo_jpeg_stream_def new_stream_def)
  moreover have "full_frame demo_frame 2 2" "wmf_drains demo_env"
    by (simp_all add: full_frame_def demo_frame_def wmf_drains_def demo_env_def)
  then have "calm_run (Windows True) demo_um ?evs demo_switch_stream"
    by (simp add: demo_switch_stream_def demo_jpeg_stream_def new_stream_def encode_step_def demo_jpeg_encode pipe_cap_def)
  ultimately have "\<exists>direct relay. ss_out (stream_steps (Windows True) demo_um ?evs demo_switch_stream)
          = ss_out demo_switch_stream @ direct
      \<and> cs_out (snd (relayed_run (Windows True) demo_um demo_mar ?evs (demo_helper, demo_relay))) = cs_out demo_relay @ relay
      \<and> filter is_binary relay = filter is_binary direct"
    using cross_session_mirrors [OF _ demo_orders_parse demo_switch_stream_inv] by fastforce
  moreover have "ss_out demo_switch_stream = []" "cs_out demo_relay = []"
    by (simp_all add: demo_switch_stream_def demo_jpeg_stream_def new_stream_def demo_relay_def)
  ultimately show ?thesis by (auto simp del: relayed_run.simps stream_steps.simps)
qed

text \<open>
  After a monitor switch in a stream through a helper, the browser is not told the new dimensions: the helper
  sends them as an init message, which the relay drops, and goes on encoding in the new dimensions. A direct stream
  tells them.
\<close>
theorem monitor_switch_not_forwarded:
  assumes "same_session s (h, x)" "ss_monitorCh s = idx # rest" "capture idx = Some ((w, ht), (ox, oy))"
  shows "let s' = stream_step p um (EvMonitor ce ie capture monitors now True) s;
             (h', x') = relayed p um mar (HvMonitor ce ie capture monitors True) t ok2 (h, x)
         in ss_out s' = ss_out s @ [OutText (reinit_msg w ht (ss_codecs s) monitors)]
            \<and> hs_out h' = hs_out h @ [PipeText PipeInit (helper_reinit_msg w ht monitors)] \<and> cs_out x' = cs_out x
            \<and> vd_w (hs_video h') = w \<and> vd_h (hs_video h') = ht"
proof -
  have "relayed p um mar (HvMonitor ce ie capture monitors True) t ok2 (h, x)
      = (helper_step p um (HvMonitor ce ie capture monitors True) h, x)"
    using assms
    by (subst relayed_text [OF same_session_idle [OF assms(1)] refl])
      (auto simp: helper_main_def helper_monitor_def same_session_def pipe_write_def Let_def)
  then show ?thesis
    using assms
    by (simp add: helper_main_def helper_monitor_def same_session_def pipe_write_def main_step_def on_monitor_def
        resetIdleTimer_def ws_try_eq switch_monitor_def)
qed

lemma monitor_switch_not_forwarded_witness:
  "cs_out (snd (relayed (Windows True) demo_um demo_mar
       (HvMonitor demo_env (se_input demo_start) (\<lambda>i. Some ((4, 4), (0, 0))) (JArr []) True) 0 True
       (demo_helper\<lparr>hs_monitorCh := [1]\<rparr>, demo_relay))) = []"
proof -
  have "same_session (demo_switch_stream\<lparr>ss_monitorCh := [1]\<rparr>) (demo_helper\<lparr>hs_monitorCh := [1]\<rparr>, demo_relay)"
    by (simp add: same_session_def demo_relay_def demo_helper_def new_helper_def demo_switch_stream_def
        demo_jpeg_stream_def new_stream_def)
  from monitor_switch_not_forwarded [OF this, of 1 "[]" "\<lambda>i. Some ((4, 4), (0, 0))" 4 4 0 0 "Windows True" demo_um demo_env
      "se_input demo_start" "JArr []" 0 demo_mar 0 True]
  show ?thesis by (simp add: Let_def case_prod_unfold demo_relay_def del: stream_step.simps helper_step.simps)
qed

end
