(* ===== verification/Capture.thy ===== *)
theory Capture
  imports Color Go_Strings
begin

text \<open>
  The screen capture of agent/capture_windows.go (DXGI with a fallback to GDI), agent/capture_linux.go (X11) and
  agent/capture_darwin.go, each with its C part: the list of monitors, the choice of one, one frame into the buffer of
  the stream, and the way back after a failure. What the system answers is an argument.
\<close>

section \<open>Buffers\<close>

text \<open>A \<open>memcpy\<close> between two offsets; \<open>None\<close> when it leaves one of the buffers.\<close>

definition copy_bytes :: "bytes \<Rightarrow> nat \<Rightarrow> nat \<Rightarrow> nat \<Rightarrow> bytes \<Rightarrow> bytes option" where
  "copy_bytes src from n to dst =
     (if from + n \<le> length src \<and> to + n \<le> length dst
      then Some (take to dst @ take n (drop from src) @ drop (to + n) dst) else None)"

text \<open>The rows of a picture with its own distance between rows.\<close>

definition copy_rows :: "bytes \<Rightarrow> nat \<Rightarrow> nat \<Rightarrow> nat \<Rightarrow> bytes \<Rightarrow> bytes option" where
  "copy_rows src pitch row_bytes h out =
     for_loop h (\<lambda>y. copy_bytes src (y * pitch) row_bytes (y * row_bytes)) out"

section \<open>Monitors\<close>

record monitorInfo =
  mi_Index :: nat
  mi_Name :: string
  mi_X :: int
  mi_Y :: int
  mi_Width :: int
  mi_Height :: int

text \<open>What DXGI says of an output: its name and its rectangle on the desktop.\<close>

record output_desc =
  od_name :: string
  od_left :: int
  od_top :: int
  od_right :: int
  od_bottom :: int

definition monitor_of :: "nat \<Rightarrow> output_desc \<Rightarrow> monitorInfo" where
  "monitor_of i d = \<lparr>mi_Index = i, mi_Name = od_name d, mi_X = od_left d, mi_Y = od_top d,
     mi_Width = od_right d - od_left d, mi_Height = od_bottom d - od_top d\<rparr>"

definition max_monitors :: nat where
  "max_monitors = 16"

fun enum_outputs :: "monitorInfo list \<Rightarrow> output_desc list \<Rightarrow> monitorInfo list" where
  "enum_outputs out [] = out"
| "enum_outputs out (d # ds) =
     (if max_monitors \<le> length out then out else enum_outputs (out @ [monitor_of (length out) d]) ds)"

text \<open>\<open>None\<close> when there is no DXGI factory; the outputs are those of each adapter in turn.\<close>

definition enumerate_monitors :: "output_desc list list option \<Rightarrow> monitorInfo list" where
  "enumerate_monitors adapters = (case adapters of None \<Rightarrow> [] | Some as \<Rightarrow> foldl enum_outputs [] as)"

fun walk_outputs :: "int \<Rightarrow> int \<Rightarrow> output_desc list \<Rightarrow> int \<times> output_desc option" where
  "walk_outputs idx cur [] = (cur, None)"
| "walk_outputs idx cur (d # ds) = (if cur = idx then (cur, Some d) else walk_outputs idx (cur + 1) ds)"

fun walk_adapters :: "int \<Rightarrow> int \<Rightarrow> output_desc list list \<Rightarrow> output_desc option" where
  "walk_adapters idx cur [] = None"
| "walk_adapters idx cur (a # as) =
     (case walk_outputs idx cur a of (cur', Some d) \<Rightarrow> Some d | (cur', None) \<Rightarrow> walk_adapters idx cur' as)"

section \<open>Windows: state and initialisation\<close>

text \<open>
  The globals: the duplication is open, GDI is in use, the size and the origin of the monitor, the monitor asked for,
  and the Go flag.
\<close>

record win_cap =
  wc_dup :: bool
  wc_gdi :: bool
  wc_w :: int
  wc_h :: int
  wc_x :: int
  wc_y :: int
  wc_target :: int
  wc_active :: bool

definition no_capture :: win_cap where
  "no_capture = \<lparr>wc_dup = False, wc_gdi = False, wc_w = 0, wc_h = 0, wc_x = 0, wc_y = 0, wc_target = 0, wc_active = False\<rparr>"

text \<open>
  DXGI: a device (hardware or WARP), its interface, its adapter, the factory, the newer interface of the output and
  the duplication. GDI: the screen, the memory context, the bitmap, and the virtual screen (origin, size).
\<close>

record screen_env =
  xe_device :: bool
  xe_iface :: bool
  xe_adapter :: bool
  xe_outputs :: "output_desc list list option"
  xe_output1 :: bool
  xe_duplicate :: bool
  xe_screen :: bool
  xe_mem :: bool
  xe_bitmap :: bool
  xe_virtual :: "int \<times> int \<times> int \<times> int"

definition dxgi_close :: "win_cap \<Rightarrow> win_cap" where
  "dxgi_close s = s\<lparr>wc_dup := False\<rparr>"

definition dxgi_init :: "screen_env \<Rightarrow> int \<Rightarrow> win_cap \<Rightarrow> win_cap \<times> int" where
  "dxgi_init e idx s =
     (if \<not> xe_device e then (s, - 1)
      else if \<not> xe_iface e then (dxgi_close s, - 2)
      else if \<not> xe_adapter e then (dxgi_close s, - 3)
      else (case xe_outputs e of
              None \<Rightarrow> (dxgi_close s, - 3)
            | Some adapters \<Rightarrow>
                (case walk_adapters idx 0 adapters of
                   None \<Rightarrow> (dxgi_close s, - 4)
                 | Some d \<Rightarrow>
                     (let s1 = s\<lparr>wc_w := od_right d - od_left d, wc_h := od_bottom d - od_top d,
                                 wc_x := od_left d, wc_y := od_top d\<rparr> in
                      if \<not> xe_output1 e then (dxgi_close s1, - 5)
                      else if \<not> xe_duplicate e then ((dxgi_close s1)\<lparr>wc_w := 0, wc_h := 0\<rparr>, - 6)
                      else (s1\<lparr>wc_dup := True\<rparr>, 0)))))"

definition gdi_close :: "win_cap \<Rightarrow> win_cap" where
  "gdi_close s = s\<lparr>wc_gdi := False\<rparr>"

definition gdi_init :: "screen_env \<Rightarrow> int \<Rightarrow> int \<Rightarrow> int \<Rightarrow> int \<Rightarrow> win_cap \<Rightarrow> win_cap \<times> int" where
  "gdi_init e rx ry rw rh s =
     (if \<not> xe_screen e then (s, - 10)
      else (let s1 = (if 0 < rw \<and> 0 < rh then s\<lparr>wc_w := rw, wc_h := rh, wc_x := rx, wc_y := ry\<rparr>
                      else (case xe_virtual e of (vx, vy, vw, vh) \<Rightarrow> s\<lparr>wc_w := vw, wc_h := vh, wc_x := vx, wc_y := vy\<rparr>)) in
            if wc_w s1 \<le> 0 \<or> wc_h s1 \<le> 0 then (s1, - 11)
            else if \<not> xe_mem e then (gdi_close s1, - 12)
            else if \<not> xe_bitmap e then (gdi_close s1, - 13)
            else (s1\<lparr>wc_gdi := True\<rparr>, 0)))"

definition capture_init_monitor :: "screen_env \<Rightarrow> int \<Rightarrow> win_cap \<Rightarrow> win_cap \<times> int" where
  "capture_init_monitor e idx s =
     (let (s1, rc) = dxgi_init e idx (s\<lparr>wc_target := idx\<rparr>) in
      if rc = 0 then (s1, 0)
      else (let mons = enumerate_monitors (xe_outputs e) in
            if 0 \<le> idx \<and> idx < int (length mons)
            then (let m = mons ! nat idx in gdi_init e (mi_X m) (mi_Y m) (mi_Width m) (mi_Height m) s1)
            else gdi_init e 0 0 0 0 s1))"

definition capture_close :: "win_cap \<Rightarrow> win_cap" where
  "capture_close s = (if wc_gdi s then gdi_close s else dxgi_close s)\<lparr>wc_w := 0, wc_h := 0\<rparr>"

text \<open>The Go part; \<open>captureInit\<close> is the same for monitor 0. True is success.\<close>

definition captureInitMonitor :: "screen_env \<Rightarrow> int \<Rightarrow> win_cap \<Rightarrow> win_cap \<times> bool" where
  "captureInitMonitor e idx s =
     (let (s1, ret) = capture_init_monitor e idx s in if ret < 0 then (s1, False) else (s1\<lparr>wc_active := True\<rparr>, True))"

definition captureInit :: "screen_env \<Rightarrow> win_cap \<Rightarrow> win_cap \<times> bool" where
  "captureInit e s = captureInitMonitor e 0 s"

definition captureClose :: "win_cap \<Rightarrow> win_cap" where
  "captureClose s = (if wc_active s then (capture_close s)\<lparr>wc_active := False\<rparr> else s)"

definition captureMonitorOffset :: "win_cap \<Rightarrow> int \<times> int" where
  "captureMonitorOffset s = (wc_x s, wc_y s)"

section \<open>Windows: one frame\<close>

text \<open>
  A bitmap as it is asked of GDI: its width, its height (negative for rows from the top down) and the bits of a pixel.
  Rows are padded to four bytes.
\<close>

record dib_header =
  dh_width :: int
  dh_height :: int
  dh_bits :: int

definition dib_stride :: "dib_header \<Rightarrow> nat" where
  "dib_stride hdr = nat ((dh_width hdr * dh_bits hdr + 31) div 32 * 4)"

text \<open>
  \<open>GetDIBits\<close> writes the rows it was asked for (from the top of the picture) at the places the header gives them, and
  does not know the size of the buffer: \<open>None\<close> when a row is out of it.
\<close>

definition get_dibits :: "dib_header \<Rightarrow> bytes list \<Rightarrow> bytes \<Rightarrow> bytes option" where
  "get_dibits hdr rows out =
     for_loop (length rows)
       (\<lambda>y. copy_bytes (rows ! y) 0 (length (rows ! y))
             ((if dh_height hdr < 0 then y else nat (dh_height hdr) - 1 - y) * dib_stride hdr)) out"

text \<open>
  What one grab meets: GDI's \<open>BitBlt\<close> and the rows \<open>GetDIBits\<close> has for a header and a number of rows (\<open>None\<close> for a
  failure), the duplication's next frame, the texture, and the mapped memory with its row pitch. The cursor gets the
  picture it is drawn on, and gives the rows to read back, or \<open>None\<close> when there is none to draw.
\<close>

datatype acquired = AcqTimeout | AcqFailed | AcqFrame

record grab_env =
  ge_bitblt :: bool
  ge_dib :: "dib_header \<Rightarrow> nat \<Rightarrow> bytes list option"
  ge_acquire :: acquired
  ge_texture :: bool
  ge_map :: "(nat \<times> bytes) option"
  ge_cursor :: "bytes \<Rightarrow> dib_header \<Rightarrow> nat \<Rightarrow> bytes list option"

text \<open>
  The cursor is drawn on a copy of the picture, which is made from the buffer and read back over it. \<open>None\<close> when the
  buffer is left.
\<close>

definition overlay_cursor_gdi ::
  "(bytes \<Rightarrow> dib_header \<Rightarrow> nat \<Rightarrow> bytes list option) \<Rightarrow> int \<Rightarrow> int \<Rightarrow> bytes \<Rightarrow> bytes option" where
  "overlay_cursor_gdi cursor w h out =
     (let hdr = \<lparr>dh_width = w, dh_height = - h, dh_bits = 32\<rparr>; n = dib_stride hdr * nat h in
      case cursor (take n out) hdr (nat h) of
        None \<Rightarrow> Some out
      | Some rows \<Rightarrow> if length out < n then None else get_dibits hdr rows out)"

text \<open>
  \<open>capture_frame\<close>: the return code and the buffer; \<open>None\<close> when it does not return, since the duplication is not open
  or a copy leaves a buffer.
\<close>

definition capture_frame :: "grab_env \<Rightarrow> bytes \<Rightarrow> win_cap \<Rightarrow> (int \<times> bytes) option" where
  "capture_frame g out s =
     (if wc_gdi s then
        (if \<not> ge_bitblt g then Some (- 1, out)
         else (let hdr = \<lparr>dh_width = wc_w s, dh_height = - wc_h s, dh_bits = 32\<rparr> in
               case ge_dib g hdr (nat (wc_h s)) of
                 None \<Rightarrow> Some (- 1, out)
               | Some rows \<Rightarrow> do {
                   filled \<leftarrow> get_dibits hdr rows out;
                   if rows = [] then Some (- 1, filled)
                   else map_option (Pair 0) (overlay_cursor_gdi (ge_cursor g) (wc_w s) (wc_h s) filled) }))
      else if \<not> wc_dup s then None
      else (case ge_acquire g of
              AcqTimeout \<Rightarrow> Some (1, out)
            | AcqFailed \<Rightarrow> Some (- 1, out)
            | AcqFrame \<Rightarrow>
                if \<not> ge_texture g then Some (- 1, out)
                else (case ge_map g of
                        None \<Rightarrow> Some (- 1, out)
                      | Some (pitch, pix) \<Rightarrow> do {
                          filled \<leftarrow> copy_rows pix pitch (nat (wc_w s) * 4) (nat (wc_h s)) out;
                          map_option (Pair 0) (overlay_cursor_gdi (ge_cursor g) (wc_w s) (wc_h s) filled) })))"

text \<open>What the stream gets: a frame with its size, no frame, or a crash of the process.\<close>

datatype grabbed = Grabbed int int bytes | NoFrame | GrabCrash

definition captureFrame :: "grab_env \<Rightarrow> screen_env \<Rightarrow> bytes \<Rightarrow> win_cap \<Rightarrow> win_cap \<times> grabbed" where
  "captureFrame g e buf s =
     (let width = wc_w s; height = wc_h s in
      if int (length buf) < width * height * 4 then (s, NoFrame)
      else if buf = [] then (s, GrabCrash)
      else (case capture_frame g buf s of
              None \<Rightarrow> (s, GrabCrash)
            | Some (ret, buf') \<Rightarrow>
                if ret = 1 then (s, NoFrame)
                else if ret < 0 then (fst (capture_init_monitor e 0 (capture_close s)), NoFrame)
                else (s, Grabbed width height buf')))"

end
