(* ===== verification/Capture_Unix.thy ===== *)
theory Capture_Unix
  imports Capture
begin

text \<open>
  The screen capture of Linux (agent/capture_linux.go) and of macOS (agent/capture_darwin.go; its frames come from
  Objective-C, which is a parameter), and the stub of agent/capture_stub.go. They share the record of the globals: the
  connection is open, the size and the origin, and the Go flag.
\<close>

record unix_cap =
  uc_open :: bool
  uc_w :: int
  uc_h :: int
  uc_x :: int
  uc_y :: int
  uc_active :: bool

definition no_unix_capture :: unix_cap where
  "no_unix_capture = \<lparr>uc_open = False, uc_w = 0, uc_h = 0, uc_x = 0, uc_y = 0, uc_active = False\<rparr>"

section \<open>Linux\<close>

text \<open>What RandR says of a monitor, the name when there is one.\<close>

record xrr_monitor =
  xr_name :: "string option"
  xr_x :: int
  xr_y :: int
  xr_w :: int
  xr_h :: int

text \<open>The display opens or not; the monitors or none; the size of the screen.\<close>

record x11_env =
  x1_display :: bool
  x1_monitors :: "xrr_monitor list option"
  x1_screen :: "int \<times> int"

definition lx_monitor :: "nat \<Rightarrow> xrr_monitor \<Rightarrow> monitorInfo" where
  "lx_monitor i m = \<lparr>mi_Index = i,
     mi_Name = (case xr_name m of Some n \<Rightarrow> take 63 n | None \<Rightarrow> take 63 (''Monitor '' @ show_int (int i))),
     mi_X = xr_x m, mi_Y = xr_y m, mi_Width = xr_w m, mi_Height = xr_h m\<rparr>"

definition lx_enumerate_monitors :: "x11_env \<Rightarrow> monitorInfo list" where
  "lx_enumerate_monitors e =
     (if \<not> x1_display e then []
      else (case x1_monitors e of
              None \<Rightarrow> []
            | Some mons \<Rightarrow> map (\<lambda>i. lx_monitor i (mons ! i)) [0..<min max_monitors (length mons)]))"

definition lx_capture_init :: "x11_env \<Rightarrow> int \<Rightarrow> unix_cap \<Rightarrow> unix_cap \<times> int" where
  "lx_capture_init e idx s =
     (if \<not> x1_display e then (s\<lparr>uc_open := False\<rparr>, - 1)
      else (let whole = s\<lparr>uc_open := True, uc_w := fst (x1_screen e), uc_h := snd (x1_screen e), uc_x := 0, uc_y := 0\<rparr> in
            case x1_monitors e of
              None \<Rightarrow> (whole, 0)
            | Some mons \<Rightarrow>
                if 0 \<le> idx \<and> idx < int (length mons)
                then (let m = mons ! nat idx in
                      (s\<lparr>uc_open := True, uc_w := xr_w m, uc_h := xr_h m, uc_x := xr_x m, uc_y := xr_y m\<rparr>, 0))
                else (whole, 0)))"

definition lx_capture_close :: "unix_cap \<Rightarrow> unix_cap" where
  "lx_capture_close s = s\<lparr>uc_open := False, uc_w := 0, uc_h := 0\<rparr>"

text \<open>An image: the bits of a pixel, the bytes of a line and the data.\<close>

record x_image =
  xi_bpp :: nat
  xi_line :: nat
  xi_data :: bytes

text \<open>One line of a picture without alpha, made opaque.\<close>

definition line_24 :: "bytes \<Rightarrow> nat \<Rightarrow> nat \<Rightarrow> nat \<Rightarrow> bytes \<Rightarrow> bytes option" where
  "line_24 src from w to dst =
     for_loop w (\<lambda>x d. Option.bind (copy_bytes src (from + x * 3) 3 (to + x * 4) d) (put_byte (to + x * 4 + 3) 255)) dst"

definition lx_capture_frame :: "x_image option \<Rightarrow> bytes \<Rightarrow> unix_cap \<Rightarrow> (int \<times> bytes) option" where
  "lx_capture_frame grabbed_image out s =
     (let w = nat (uc_w s); h = nat (uc_h s) in
      if \<not> uc_open s \<or> uc_w s \<le> 0 \<or> uc_h s \<le> 0 then Some (- 1, out)
      else (case grabbed_image of
              None \<Rightarrow> Some (- 2, out)
            | Some img \<Rightarrow>
                if xi_bpp img = 32 then map_option (Pair 0) (copy_rows (xi_data img) (xi_line img) (w * 4) h out)
                else if xi_bpp img = 24 then
                  map_option (Pair 0) (for_loop h (\<lambda>y. line_24 (xi_data img) (y * xi_line img) w (y * w * 4)) out)
                else Some (- 3, out)))"

definition lx_captureInitMonitor :: "x11_env \<Rightarrow> int \<Rightarrow> unix_cap \<Rightarrow> unix_cap \<times> bool" where
  "lx_captureInitMonitor e idx s =
     (let (s1, ret) = lx_capture_init e idx s in if ret < 0 then (s1, False) else (s1\<lparr>uc_active := True\<rparr>, True))"

definition lx_captureClose :: "unix_cap \<Rightarrow> unix_cap" where
  "lx_captureClose s = (if uc_active s then (lx_capture_close s)\<lparr>uc_active := False\<rparr> else s)"

definition lx_captureFrame :: "x_image option \<Rightarrow> bytes \<Rightarrow> unix_cap \<Rightarrow> grabbed" where
  "lx_captureFrame grabbed_image buf s =
     (if int (length buf) < uc_w s * uc_h s * 4 then NoFrame
      else if buf = [] then GrabCrash
      else (case lx_capture_frame grabbed_image buf s of
              None \<Rightarrow> GrabCrash
            | Some (ret, buf') \<Rightarrow> if ret \<noteq> 0 then NoFrame else Grabbed (uc_w s) (uc_h s) buf'))"

section \<open>macOS\<close>

text \<open>An active display: whether it is the main one, and its bounds.\<close>

record mac_display =
  md_main :: bool
  md_x :: int
  md_y :: int
  md_w :: int
  md_h :: int

definition mac_enumerate_monitors :: "mac_display list \<Rightarrow> monitorInfo list" where
  "mac_enumerate_monitors ds =
     map (\<lambda>i. let d = ds ! i in
              \<lparr>mi_Index = i, mi_Name = (if md_main d then ''Main Display'' else ''Display '' @ show_int (int i + 1)),
               mi_X = md_x d, mi_Y = md_y d, mi_Width = md_w d, mi_Height = md_h d\<rparr>)
       [0..<min max_monitors (length ds)]"

text \<open>The size of the main display, and what ScreenCaptureKit's initialisation returns.\<close>

definition mac_capture_init :: "mac_display list \<Rightarrow> int \<times> int \<Rightarrow> int \<Rightarrow> int \<Rightarrow> unix_cap \<Rightarrow> unix_cap \<times> int" where
  "mac_capture_init ds main sck idx s =
     (let mons = mac_enumerate_monitors ds;
          s1 = (if 0 \<le> idx \<and> idx < int (length mons)
                then (let m = mons ! nat idx in
                      s\<lparr>uc_w := mi_Width m, uc_h := mi_Height m, uc_x := mi_X m, uc_y := mi_Y m\<rparr>)
                else if mons \<noteq> [] then s\<lparr>uc_w := mi_Width (mons ! 0), uc_h := mi_Height (mons ! 0), uc_x := 0, uc_y := 0\<rparr>
                else s\<lparr>uc_w := fst main, uc_h := snd main, uc_x := 0, uc_y := 0\<rparr>)
      in if uc_w s1 \<le> 0 \<or> uc_h s1 \<le> 0 then (s1, - 1) else (s1\<lparr>uc_open := sck = 0\<rparr>, sck))"

definition mac_capture_close :: "unix_cap \<Rightarrow> unix_cap" where
  "mac_capture_close s = s\<lparr>uc_open := False, uc_w := 0, uc_h := 0\<rparr>"

definition mac_captureInitMonitor :: "mac_display list \<Rightarrow> int \<times> int \<Rightarrow> int \<Rightarrow> int \<Rightarrow> unix_cap \<Rightarrow> unix_cap \<times> bool" where
  "mac_captureInitMonitor ds main sck idx s =
     (let (s1, ret) = mac_capture_init ds main sck idx s in
      if ret < 0 then (s1, False) else (s1\<lparr>uc_active := True\<rparr>, True))"

definition mac_captureClose :: "unix_cap \<Rightarrow> unix_cap" where
  "mac_captureClose s = (if uc_active s then (mac_capture_close s)\<lparr>uc_active := False\<rparr> else s)"

text \<open>\<open>frame\<close> gives the return code and the picture of the Objective-C part for a buffer of this length.\<close>

definition mac_captureFrame :: "(nat \<Rightarrow> int \<times> bytes) \<Rightarrow> bytes \<Rightarrow> unix_cap \<Rightarrow> grabbed" where
  "mac_captureFrame frame buf s =
     (if int (length buf) < uc_w s * uc_h s * 4 then NoFrame
      else if buf = [] then GrabCrash
      else (case frame (length buf) of
              (ret, pix) \<Rightarrow>
                if ret \<noteq> 0 then NoFrame
                else Grabbed (uc_w s) (uc_h s) (take (length buf) (pix @ drop (length pix) buf))))"

end
