(* ===== verification/Capture_Props.thy ===== *)
theory Capture_Props
  imports Capture_Unix Stream_Props
begin

text \<open>
  Properties of the screen capture: which monitor is captured, the buffer of a frame, and what a failure or the end of
  another stream does to the next frame.
\<close>

section \<open>Buffers\<close>

lemma copy_bytes_keeps:
  "copy_bytes src from n to dst = Some dst' \<Longrightarrow> length dst' = length dst \<and> drop (to + n) dst' = drop (to + n) dst"
  by (auto simp: copy_bytes_def split: if_splits)

text \<open>Rows of one length, each copied to its place, are the head of the buffer.\<close>

definition lines_over :: "bytes list \<Rightarrow> bytes \<Rightarrow> bytes" where
  "lines_over rows out = concat rows @ drop (length (concat rows)) out"

lemma place_rows:
  assumes "\<And>y d. y < n \<Longrightarrow> length d = length out \<Longrightarrow>
             f y d = Some (take (y * k) d @ row y @ drop (y * k + k) d)"
    and "\<And>y. y < n \<Longrightarrow> length (row y) = k" "n * k \<le> length out"
  shows "for_loop n f out = Some (concat (map row [0..<n]) @ drop (n * k) out)
         \<and> length (concat (map row [0..<n])) = n * k"
  using assms
proof (induction n)
  case (Suc n)
  let ?d = "concat (map row [0..<n]) @ drop (n * k) out"
  have "for_loop n f out = Some ?d" and l: "length (concat (map row [0..<n])) = n * k"
    using Suc.IH Suc.prems by auto
  moreover have "f n ?d = Some (take (n * k) ?d @ row n @ drop (n * k + k) ?d)"
    using Suc.prems(3) l by (intro Suc.prems(1)) auto
  moreover have "take (n * k) ?d = concat (map row [0..<n])" "drop (n * k + k) ?d = drop (Suc n * k) out"
    using l by (simp_all add: add.commute)
  ultimately show ?case using Suc.prems(2) by simp
qed simp

lemma copy_rows_eq:
  assumes "h * n \<le> length out" "0 < h \<Longrightarrow> (h - 1) * pitch + n \<le> length src"
  defines "rows \<equiv> map (\<lambda>y. take n (drop (y * pitch) src)) [0..<h]"
  shows "copy_rows src pitch n h out = Some (lines_over rows out) \<and> length (concat rows) = h * n"
proof -
  have in_src: "y * pitch + n \<le> length src" if "y < h" for y
  proof -
    have "y * pitch \<le> (h - 1) * pitch" using that by (intro mult_le_mono1) simp
    then show ?thesis using assms(2) that by linarith
  qed
  have in_out: "y * n + n \<le> length out" if "y < h" for y
    using mult_le_mono1 [of "Suc y" h n] that assms(1) by simp
  show ?thesis
    using place_rows [of h out "\<lambda>y. copy_bytes src (y * pitch) n (y * n)" n "\<lambda>y. take n (drop (y * pitch) src)"]
      in_src in_out assms(1) unfolding copy_rows_def copy_bytes_def rows_def lines_over_def by fastforce
qed

text \<open>What GDI promises: at most the rows asked for, each as long as the header says.\<close>

definition rows_for :: "dib_header \<Rightarrow> nat \<Rightarrow> bytes list \<Rightarrow> bool" where
  "rows_for hdr n rows \<longleftrightarrow> length rows \<le> n \<and> list_all (\<lambda>r. length r = dib_stride hdr) rows"

lemma get_dibits_eq:
  assumes "rows_for hdr n rows" "dh_height hdr < 0" "n * dib_stride hdr \<le> length out"
  shows "get_dibits hdr rows out = Some (lines_over rows out) \<and> length (concat rows) \<le> length out"
proof -
  let ?k = "dib_stride hdr"
  have len: "length (rows ! y) = ?k" if "y < length rows" for y
    using assms(1) that by (simp add: rows_for_def list_all_length)
  have fits: "length rows * ?k \<le> length out"
    using assms(1,3) by (meson le_trans mult_le_mono1 rows_for_def)
  have in_out: "y * ?k + ?k \<le> length out" if "y < length rows" for y
    using mult_le_mono1 [of "Suc y" "length rows" ?k] that fits by simp
  have "map ((!) rows) [0..<length rows] = rows" by (rule map_nth)
  moreover have "for_loop (length rows) (\<lambda>y. copy_bytes (rows ! y) 0 (length (rows ! y)) (y * ?k)) out
      = Some (concat (map ((!) rows) [0..<length rows]) @ drop (length rows * ?k) out)
      \<and> length (concat (map ((!) rows) [0..<length rows])) = length rows * ?k"
    using in_out len fits by (intro place_rows) (auto simp: copy_bytes_def)
  ultimately show ?thesis using assms(2) fits by (simp add: get_dibits_def lines_over_def)
qed

lemma length_lines_over [simp]: "length (concat rows) \<le> length out \<Longrightarrow> length (lines_over rows out) = length out"
  by (simp add: lines_over_def)

lemma dib_stride_32 [simp]: "0 \<le> w \<Longrightarrow> dib_stride \<lparr>dh_width = w, dh_height = h, dh_bits = 32\<rparr> = nat w * 4"
  by (simp add: dib_stride_def nat_mult_distrib)

section \<open>Monitors\<close>

lemma enum_outputs_eq:
  "length out \<le> max_monitors \<Longrightarrow> enum_outputs out ds =
     out @ map (\<lambda>(i, d). monitor_of i d) (enumerate (length out) (take (max_monitors - length out) ds))"
proof (induction ds arbitrary: out)
  case (Cons d ds)
  show ?case
  proof (cases "max_monitors \<le> length out")
    case False
    then have "max_monitors - length out = Suc (max_monitors - Suc (length out))" by simp
    then show ?thesis using Cons.IH [of "out @ [monitor_of (length out) d]"] False by simp
  qed simp
qed simp

lemma foldl_enum_outputs:
  "length out \<le> max_monitors \<Longrightarrow> foldl enum_outputs out as =
     out @ map (\<lambda>(i, d). monitor_of i d) (enumerate (length out) (take (max_monitors - length out) (concat as)))"
proof (induction as arbitrary: out)
  case (Cons a as)
  have "length (enum_outputs out a) = min max_monitors (length out + length a)"
    using Cons.prems by (simp add: enum_outputs_eq)
  then show ?case
    using Cons.IH [of "enum_outputs out a"] Cons.prems
    by (cases "length out + length a \<le> max_monitors") (simp_all add: enum_outputs_eq enumerate_append_eq)
qed simp

lemma enumerate_monitors_nth:
  assumes "xs = concat adapters"
  shows "length (enumerate_monitors (Some adapters)) = min max_monitors (length xs)"
    "i < max_monitors \<Longrightarrow> i < length xs \<Longrightarrow> enumerate_monitors (Some adapters) ! i = monitor_of i (xs ! i)"
  using assms by (simp_all add: enumerate_monitors_def foldl_enum_outputs nth_enumerate_eq)

lemma walk_outputs_eq:
  "cur \<le> idx \<Longrightarrow> walk_outputs idx cur ds =
     (if idx < cur + int (length ds) then (idx, Some (ds ! nat (idx - cur))) else (cur + int (length ds), None))"
proof (induction ds arbitrary: cur)
  case (Cons d ds)
  show ?case
  proof (cases "cur = idx")
    case False
    then have "nat (idx - cur) = Suc (nat (idx - (cur + 1)))" using Cons.prems by simp
    then show ?thesis using Cons.IH [of "cur + 1"] Cons.prems False by auto
  qed simp
qed simp

lemma walk_adapters_eq:
  "cur \<le> idx \<Longrightarrow> walk_adapters idx cur as =
     (if idx < cur + int (length (concat as)) then Some (concat as ! nat (idx - cur)) else None)"
proof (induction as arbitrary: cur)
  case (Cons a as)
  show ?case
  proof (cases "idx < cur + int (length a)")
    case True
    then have "nat (idx - cur) < length a" using Cons.prems by linarith
    then show ?thesis using True Cons.prems by (simp add: walk_outputs_eq nth_append)
  next
    case False
    then have "cur + int (length a) \<le> idx" by simp
    moreover from this have "\<not> nat (idx - cur) < length a" "nat (idx - cur) - length a = nat (idx - (cur + int (length a)))"
      by linarith+
    ultimately show ?thesis
      using Cons.IH [of "cur + int (length a)"] Cons.prems False by (simp add: walk_outputs_eq nth_append)
  qed
qed simp

text \<open>
  The monitor captured is the one the browser chose in the list it was sent: when the index is one of that list
  and the monitor has a size, the capture on Windows takes its origin and its size, with DXGI and, when DXGI fails, with
  GDI. Only an index that is not in the list is captured as the whole virtual screen.
\<close>
theorem monitor_choice:
  assumes "capture_init_monitor e idx s = (s', 0)" "xe_outputs e = Some adapters"
    and "0 \<le> idx" "idx < int (length (enumerate_monitors (xe_outputs e)))"
    and "mi_Index m = nat idx" "m \<in> set (enumerate_monitors (xe_outputs e))" "0 < mi_Width m" "0 < mi_Height m"
  shows "wc_w s' = mi_Width m \<and> wc_h s' = mi_Height m \<and> captureMonitorOffset s' = (mi_X m, mi_Y m)"
proof -
  let ?xs = "concat adapters" and ?i = "nat idx"
  have i: "?i < length ?xs" "?i < max_monitors"
    using assms(2-4) enumerate_monitors_nth(1) [OF refl] by auto
  have nth: "enumerate_monitors (Some adapters) ! ?i = monitor_of ?i (?xs ! ?i)"
    by (rule enumerate_monitors_nth(2) [OF refl i(2,1)])
  obtain k where k: "k < max_monitors" "k < length ?xs" "m = monitor_of k (?xs ! k)"
    using assms(2,6) enumerate_monitors_nth [OF refl] by (auto simp: in_set_conv_nth)
  then have m: "m = monitor_of ?i (?xs ! ?i)" using assms(5) by (simp add: monitor_of_def)
  have walk: "walk_adapters idx 0 adapters = Some (?xs ! ?i)"
    using assms(3) i(1) by (simp add: walk_adapters_eq)
  obtain s1 rc where d: "dxgi_init e idx (s\<lparr>wc_target := idx\<rparr>) = (s1, rc)" by fastforce
  show ?thesis
  proof (cases "rc = 0")
    case True
    then show ?thesis
      using d assms(1,2) m walk
      by (auto simp: capture_init_monitor_def dxgi_init_def Let_def monitor_of_def captureMonitorOffset_def split: if_splits)
  next
    case False
    then have "gdi_init e (mi_X m) (mi_Y m) (mi_Width m) (mi_Height m) s1 = (s', 0)"
      using d assms(1-4) m nth by (simp add: capture_init_monitor_def Let_def)
    then show ?thesis
      using assms(7,8) by (auto simp: gdi_init_def Let_def captureMonitorOffset_def split: if_splits)
  qed
qed

definition demo_screens :: screen_env where
  "demo_screens = \<lparr>xe_device = True, xe_iface = True, xe_adapter = True,
     xe_outputs = Some [[\<lparr>od_name = ''A'', od_left = 0, od_top = 0, od_right = 2, od_bottom = 2\<rparr>],
       [\<lparr>od_name = ''B'', od_left = 2, od_top = 0, od_right = 4, od_bottom = 2\<rparr>]],
     xe_output1 = True, xe_duplicate = False, xe_screen = True, xe_mem = True, xe_bitmap = True, xe_virtual = (0, 0, 4, 2)\<rparr>"

lemma demo_screens_init:
  "capture_init_monitor demo_screens 1 no_capture = (no_capture\<lparr>wc_target := 1, wc_gdi := True, wc_w := 2, wc_h := 2, wc_x := 2\<rparr>, 0)"
  by (simp add: capture_init_monitor_def dxgi_init_def dxgi_close_def gdi_init_def demo_screens_def no_capture_def
      enumerate_monitors_def max_monitors_def monitor_of_def)

lemma monitor_choice_witness:
  "captureMonitorOffset (fst (capture_init_monitor demo_screens 1 no_capture)) = (2, 0)"
  using monitor_choice [OF demo_screens_init, of "[[\<lparr>od_name = ''A'', od_left = 0, od_top = 0, od_right = 2, od_bottom = 2\<rparr>],
       [\<lparr>od_name = ''B'', od_left = 2, od_top = 0, od_right = 4, od_bottom = 2\<rparr>]]"
      "\<lparr>mi_Index = 1, mi_Name = ''B'', mi_X = 2, mi_Y = 0, mi_Width = 2, mi_Height = 2\<rparr>"] demo_screens_init
  by (simp add: demo_screens_def enumerate_monitors_def max_monitors_def monitor_of_def)

section \<open>One frame\<close>

text \<open>One of the two ways to capture is open, and not both.\<close>

definition capturing :: "win_cap \<Rightarrow> bool" where
  "capturing s \<longleftrightarrow> wc_gdi s \<noteq> wc_dup s"

definition capture_closed :: "win_cap \<Rightarrow> bool" where
  "capture_closed s \<longleftrightarrow> \<not> wc_gdi s \<and> \<not> wc_dup s"

lemma dxgi_from_closed:
  "capture_closed s \<Longrightarrow> dxgi_init e idx s = (s', rc) \<Longrightarrow>
     rc \<le> 0 \<and> (rc = 0 \<longrightarrow> capturing s') \<and> (rc \<noteq> 0 \<longrightarrow> capture_closed s')"
  by (auto simp: dxgi_init_def dxgi_close_def capture_closed_def capturing_def Let_def split: if_splits option.splits)

lemma gdi_from_closed:
  "capture_closed s \<Longrightarrow> gdi_init e rx ry rw rh s = (s', rc) \<Longrightarrow>
     rc \<le> 0 \<and> (rc = 0 \<longrightarrow> capturing s') \<and> (rc \<noteq> 0 \<longrightarrow> capture_closed s')"
  by (cases "xe_virtual e")
    (auto simp: gdi_init_def gdi_close_def capture_closed_def capturing_def Let_def split: if_splits)

lemma init_from_closed:
  assumes "capture_closed s" "capture_init_monitor e idx s = (s', rc)"
  shows "rc \<le> 0 \<and> (rc = 0 \<longrightarrow> capturing s') \<and> (rc \<noteq> 0 \<longrightarrow> capture_closed s')"
proof -
  obtain s1 rc1 where d: "dxgi_init e idx (s\<lparr>wc_target := idx\<rparr>) = (s1, rc1)" by fastforce
  have "capture_closed (s\<lparr>wc_target := idx\<rparr>)" using assms(1) by (simp add: capture_closed_def)
  from dxgi_from_closed [OF this d] show ?thesis
    using assms(2) d gdi_from_closed [of s1 e] by (auto simp: capture_init_monitor_def Let_def split: if_splits)
qed

lemma init_target:
  "wc_target (fst (dxgi_init e idx s)) = wc_target s" "wc_target (fst (gdi_init e rx ry rw rh s)) = wc_target s"
  "wc_target (fst (capture_init_monitor e idx s)) = idx"
proof -
  show d: "wc_target (fst (dxgi_init e idx s)) = wc_target s" for s
    by (simp add: dxgi_init_def dxgi_close_def Let_def split: option.split)
  show g: "wc_target (fst (gdi_init e rx ry rw rh s)) = wc_target s" for rx ry rw rh s
    by (cases "xe_virtual e") (simp add: gdi_init_def gdi_close_def Let_def)
  show "wc_target (fst (capture_init_monitor e idx s)) = idx"
    by (simp add: capture_init_monitor_def Let_def case_prod_unfold d g)
qed

lemma capture_close_closed: "capturing s \<Longrightarrow> capture_closed (capture_close s)"
  by (auto simp: capturing_def capture_closed_def capture_close_def gdi_close_def dxgi_close_def)

text \<open>
  What the system promises of one grab: the mapped picture has the rows of the monitor, and GDI gives rows as the header
  asks.
\<close>

definition grab_ok :: "grab_env \<Rightarrow> win_cap \<Rightarrow> bool" where
  "grab_ok g s \<longleftrightarrow>
     (case ge_map g of None \<Rightarrow> True | Some (pitch, pix) \<Rightarrow> (nat (wc_h s) - 1) * pitch + nat (wc_w s) * 4 \<le> length pix)
     \<and> (\<forall>hdr n rows. ge_dib g hdr n = Some rows \<longrightarrow> rows_for hdr n rows)
     \<and> (\<forall>pic hdr n rows. ge_cursor g pic hdr n = Some rows \<longrightarrow> rows_for hdr n rows)"

text \<open>The rows the system has on this grab, from the top of the monitor (\<open>None\<close>: the grab gives none), and the cursor.\<close>

definition asked_header :: "win_cap \<Rightarrow> dib_header" where
  "asked_header s = \<lparr>dh_width = wc_w s, dh_height = - wc_h s, dh_bits = 32\<rparr>"

definition screen_rows :: "grab_env \<Rightarrow> win_cap \<Rightarrow> bytes list option" where
  "screen_rows g s =
     (if wc_gdi s then
        (if ge_bitblt g \<and> ge_dib g (asked_header s) (nat (wc_h s)) \<noteq> Some []
         then ge_dib g (asked_header s) (nat (wc_h s)) else None)
      else if ge_acquire g = AcqFrame \<and> ge_texture g
      then map_option (\<lambda>(pitch, pix). map (\<lambda>y. take (nat (wc_w s) * 4) (drop (y * pitch) pix)) [0..<nat (wc_h s)]) (ge_map g)
      else None)"

definition with_cursor :: "grab_env \<Rightarrow> win_cap \<Rightarrow> bytes \<Rightarrow> bytes" where
  "with_cursor g s pic =
     (case ge_cursor g (take (nat (wc_w s) * 4 * nat (wc_h s)) pic) (asked_header s) (nat (wc_h s)) of
        None \<Rightarrow> pic
      | Some rows \<Rightarrow> lines_over rows pic)"

lemma overlay_eq:
  assumes "grab_ok g s" "0 < wc_w s" "0 < wc_h s" "nat (wc_w s) * 4 * nat (wc_h s) \<le> length out"
  shows "overlay_cursor_gdi (ge_cursor g) (wc_w s) (wc_h s) out = Some (with_cursor g s out)
         \<and> length (with_cursor g s out) = length out"
proof (cases "ge_cursor g (take (nat (wc_w s) * 4 * nat (wc_h s)) out) (asked_header s) (nat (wc_h s))")
  case None
  then show ?thesis using assms by (simp add: overlay_cursor_gdi_def with_cursor_def asked_header_def)
next
  case (Some rows)
  then have "rows_for (asked_header s) (nat (wc_h s)) rows" using assms(1) unfolding grab_ok_def by blast
  then have "get_dibits (asked_header s) rows out = Some (lines_over rows out) \<and> length (concat rows) \<le> length out"
    using get_dibits_eq assms(2-4) by (simp add: asked_header_def mult.commute)
  then show ?thesis using Some assms by (simp add: overlay_cursor_gdi_def with_cursor_def asked_header_def)
qed

lemma capture_frame_eq:
  assumes "capturing s" "grab_ok g s" "0 < wc_w s" "0 < wc_h s" "nat (wc_w s) * 4 * nat (wc_h s) \<le> length out"
  shows "case screen_rows g s of
      Some rows \<Rightarrow> capture_frame g out s = Some (0, with_cursor g s (lines_over rows out))
        \<and> length (with_cursor g s (lines_over rows out)) = length out
    | None \<Rightarrow> \<exists>out'. capture_frame g out s = Some (if \<not> wc_gdi s \<and> ge_acquire g = AcqTimeout then 1 else - 1, out')"
proof (cases "wc_gdi s")
  case True
  show ?thesis
  proof (cases "ge_bitblt g")
    case blt: True
    show ?thesis
    proof (cases "ge_dib g (asked_header s) (nat (wc_h s))")
      case (Some rows)
      then have "rows_for (asked_header s) (nat (wc_h s)) rows" using assms(2) unfolding grab_ok_def by blast
      then have d: "get_dibits (asked_header s) rows out = Some (lines_over rows out) \<and> length (concat rows) \<le> length out"
        using get_dibits_eq assms(3-5) by (simp add: asked_header_def mult.commute)
      then have "overlay_cursor_gdi (ge_cursor g) (wc_w s) (wc_h s) (lines_over rows out)
            = Some (with_cursor g s (lines_over rows out))
          \<and> length (with_cursor g s (lines_over rows out)) = length (lines_over rows out)"
        using assms by (intro overlay_eq) simp_all
      then show ?thesis
        using True blt Some d by (cases rows) (simp_all add: capture_frame_def screen_rows_def asked_header_def)
    qed (use True blt in \<open>simp add: capture_frame_def screen_rows_def asked_header_def\<close>)
  qed (use True in \<open>simp add: capture_frame_def screen_rows_def\<close>)
next
  case False
  then have dup: "wc_dup s" "\<not> wc_gdi s" using assms(1) by (auto simp: capturing_def)
  show ?thesis
  proof (cases "ge_acquire g = AcqFrame \<and> ge_texture g \<and> ge_map g \<noteq> None")
    case True
    then obtain pitch pix where g: "ge_acquire g = AcqFrame" "ge_texture g" "ge_map g = Some (pitch, pix)" by auto
    define rows where "rows = map (\<lambda>y. take (nat (wc_w s) * 4) (drop (y * pitch) pix)) [0..<nat (wc_h s)]"
    have c: "copy_rows pix pitch (nat (wc_w s) * 4) (nat (wc_h s)) out = Some (lines_over rows out)
        \<and> length (concat rows) = nat (wc_h s) * (nat (wc_w s) * 4)"
      using assms(2,5) g unfolding rows_def by (intro copy_rows_eq) (simp_all add: grab_ok_def ac_simps)
    then have "length (concat rows) \<le> length out" using assms(5) by (simp add: ac_simps)
    then have "overlay_cursor_gdi (ge_cursor g) (wc_w s) (wc_h s) (lines_over rows out)
          = Some (with_cursor g s (lines_over rows out))
        \<and> length (with_cursor g s (lines_over rows out)) = length out"
      using assms overlay_eq [of g s "lines_over rows out"] by simp
    then show ?thesis using dup g c by (simp add: capture_frame_def screen_rows_def rows_def)
  next
    case False
    then show ?thesis
      using dup by (cases "ge_acquire g"; cases "ge_map g") (auto simp: capture_frame_def screen_rows_def)
  qed
qed

text \<open>What the stream's loop is given.\<close>

fun captured_of :: "grabbed \<Rightarrow> ((nat \<times> nat) \<times> bytes) option" where
  "captured_of (Grabbed w h buf) = Some ((nat w, nat h), buf)"
| "captured_of r = None"

text \<open>
  C17. While the capture is open, \<open>captureFrame\<close> with any buffer does not crash. A buffer too small for the monitor is
  refused before anything is written. Otherwise the frame is the picture: the rows the system has, from the top of the
  monitor, one after the other without the padding of the texture, then the cursor, and what is past the picture is left
  as it was. A grab that gives no rows gives no frame; after a timeout the capture is as before, after a failure it was
  opened again, and then it is open, on the primary monitor whichever was asked for, or closed.
\<close>
theorem capture_frame_safe:
  assumes "capturing s" "grab_ok g s" "0 < wc_w s" "0 < wc_h s" "buf \<noteq> []"
  shows "case captureFrame g e buf s of (s', r) \<Rightarrow> r \<noteq> GrabCrash
    \<and> (if int (length buf) < wc_w s * wc_h s * 4 then r = NoFrame \<and> s' = s
       else case screen_rows g s of
         Some rows \<Rightarrow> s' = s \<and> r = Grabbed (wc_w s) (wc_h s) (with_cursor g s (lines_over rows buf))
           \<and> full_frame (with_cursor g s (lines_over rows buf)) (nat (wc_w s)) (nat (wc_h s))
           \<and> length (with_cursor g s (lines_over rows buf)) = length buf
       | None \<Rightarrow> r = NoFrame
           \<and> (if \<not> wc_gdi s \<and> ge_acquire g = AcqTimeout then s' = s
              else wc_target s' = 0 \<and> (capturing s' \<or> capture_closed s')))"
proof (cases "int (length buf) < wc_w s * wc_h s * 4")
  case False
  let ?w = "nat (wc_w s)" and ?h = "nat (wc_h s)"
  have "int (?w * 4 * ?h) \<le> int (length buf)" using False assms(3,4) by (simp add: ac_simps)
  then have len: "?w * 4 * ?h \<le> length buf" by (simp only: of_nat_le_iff)
  obtain s2 rc2 where i: "capture_init_monitor e 0 (capture_close s) = (s2, rc2)" by fastforce
  have t: "wc_target s2 = 0" using init_target(3) [of e 0 "capture_close s"] i by simp
  have c: "capturing s2 \<or> capture_closed s2"
    using init_from_closed [OF capture_close_closed [OF assms(1)] i] by blast
  have size: "?w * ?h * 4 \<le> length buf" "0 < ?w * ?h" using len assms(3,4) by (simp_all add: ac_simps)
  show ?thesis
  proof (cases "screen_rows g s")
    case None
    then obtain out' where "capture_frame g buf s = Some (if \<not> wc_gdi s \<and> ge_acquire g = AcqTimeout then 1 else - 1, out')"
      using capture_frame_eq [OF assms(1-4) len] by auto
    then show ?thesis
      using None False assms(5) i t c
      by (cases "\<not> wc_gdi s \<and> ge_acquire g = AcqTimeout") (simp_all add: captureFrame_def del: de_Morgan_conj)
  next
    case (Some rows)
    define pic where "pic = with_cursor g s (lines_over rows buf)"
    have "capture_frame g buf s = Some (0, pic)" "length pic = length buf"
      using capture_frame_eq [OF assms(1-4) len] Some by (simp_all add: pic_def)
    moreover from this(2) have "full_frame pic ?w ?h" using size by (simp add: full_frame_def)
    ultimately show ?thesis
      using Some False assms(5) by (simp add: captureFrame_def pic_def [symmetric])
  qed
qed (simp add: captureFrame_def)

text \<open>A grab of a monitor of two by two pixels, with GDI and with the duplication, whose texture has rows of twelve bytes.\<close>

definition demo_grab :: grab_env where
  "demo_grab = \<lparr>ge_bitblt = True, ge_dib = (\<lambda>hdr n. Some (replicate n (replicate (dib_stride hdr) 7))),
     ge_acquire = AcqFrame, ge_texture = True,
     ge_map = Some (12, replicate 8 9 @ replicate 4 0 @ replicate 8 5 @ replicate 4 0),
     ge_cursor = (\<lambda>pic hdr n. if n = 0 then None else Some [replicate (dib_stride hdr) 1])\<rparr>"

definition demo_capture :: win_cap where
  "demo_capture = \<lparr>wc_dup = True, wc_gdi = False, wc_w = 2, wc_h = 2, wc_x = 2, wc_y = 0, wc_target = 1, wc_active = True\<rparr>"

lemma demo_grab_ok: "grab_ok demo_grab demo_capture"
  by (auto simp: grab_ok_def demo_grab_def demo_capture_def rows_for_def list_all_length split: if_splits)

lemma capture_frame_safe_witness:
  "captureFrame (demo_grab\<lparr>ge_cursor := \<lambda>pic hdr n. None\<rparr>) demo_screens (replicate 18 0) demo_capture
     = (demo_capture, Grabbed 2 2 (replicate 8 9 @ replicate 8 5 @ [0, 0]))
   \<and> captureFrame demo_grab demo_screens (replicate 16 0) demo_capture
     = (demo_capture, Grabbed 2 2 (replicate 8 1 @ replicate 8 5))"
proof -
  let ?g = "demo_grab\<lparr>ge_cursor := \<lambda>pic hdr n. None\<rparr>" and ?rows = "[replicate 8 9, replicate 8 (5::byte)]"
  have c: "capturing demo_capture" "\<not> wc_gdi demo_capture" "wc_w demo_capture = 2" "wc_h demo_capture = 2"
    by (simp_all add: capturing_def demo_capture_def)
  have g: "grab_ok ?g demo_capture" using demo_grab_ok by (simp add: grab_ok_def)
  have r: "screen_rows ?g demo_capture = Some ?rows" "screen_rows demo_grab demo_capture = Some ?rows" by code_simp+
  have w: "with_cursor ?g demo_capture (lines_over ?rows (replicate 18 0)) = replicate 8 9 @ replicate 8 5 @ [0, 0]"
    "with_cursor demo_grab demo_capture (lines_over ?rows (replicate 16 0)) = replicate 8 1 @ replicate 8 5"
    by code_simp+
  show ?thesis
    using capture_frame_safe [OF c(1) g, of "replicate 18 0" demo_screens]
      capture_frame_safe [OF c(1) demo_grab_ok, of "replicate 16 0" demo_screens] c r w
    by (simp add: case_prod_unfold prod_eq_iff)
qed

section \<open>After a failure, and after the end of another stream\<close>

lemma closed_frame:
  "capture_closed s \<Longrightarrow> buf \<noteq> [] \<Longrightarrow>
     snd (captureFrame g e buf s) = (if wc_w s * wc_h s * 4 \<le> int (length buf) then GrabCrash else NoFrame)"
  by (simp add: captureFrame_def capture_frame_def capture_closed_def Let_def)

lemma captureClose_closed:
  assumes "wc_active s" "capturing s"
  shows "capture_closed (captureClose s)" "wc_w (captureClose s) = 0" "wc_h (captureClose s) = 0"
  using capture_close_closed [OF assms(2)] assms(1)
  by (simp_all add: captureClose_def capture_closed_def) (simp_all add: capture_close_def)

text \<open>
  The globals of the capture belong to the process, and a closed capture is not asked for a frame with care: once
  another direct stream has ended, or a monitor switch could not open the new monitor, or the capture could not be
  opened again after a failure, the next frame of the stream dereferences a null pointer, which ends the agent with all
  its streams. After a failed opening this is so when the size left over fits the buffer, as after a failed duplication,
  which leaves none.
\<close>
theorem closed_capture_crashes:
  assumes "wc_active s" "capturing s" "buf \<noteq> []"
  shows "snd (captureFrame g e buf (captureClose s)) = GrabCrash
    \<and> (case captureInitMonitor e1 idx (captureClose s) of (s1, ok) \<Rightarrow>
         \<not> ok \<longrightarrow> snd (captureFrame g e buf s1) = (if wc_w s1 * wc_h s1 * 4 \<le> int (length buf) then GrabCrash else NoFrame))
    \<and> (case capture_init_monitor e1 0 (capture_close s) of (s2, rc) \<Rightarrow>
         rc < 0 \<longrightarrow> snd (captureFrame g e buf s2) = (if wc_w s2 * wc_h s2 * 4 \<le> int (length buf) then GrabCrash else NoFrame))"
proof (intro conjI)
  show "snd (captureFrame g e buf (captureClose s)) = GrabCrash"
    using closed_frame [OF captureClose_closed(1) [OF assms(1,2)] assms(3)] captureClose_closed [OF assms(1,2)] by simp
  obtain s1 rc where i: "capture_init_monitor e1 idx (captureClose s) = (s1, rc)" by fastforce
  then have "rc < 0 \<Longrightarrow> capture_closed s1"
    using init_from_closed [OF captureClose_closed(1) [OF assms(1,2)] i] by simp
  then show "case captureInitMonitor e1 idx (captureClose s) of (s1, ok) \<Rightarrow>
      \<not> ok \<longrightarrow> snd (captureFrame g e buf s1) = (if wc_w s1 * wc_h s1 * 4 \<le> int (length buf) then GrabCrash else NoFrame)"
    using closed_frame assms(3) i by (simp add: captureInitMonitor_def)
  obtain s2 rc2 where j: "capture_init_monitor e1 0 (capture_close s) = (s2, rc2)" by fastforce
  then have "rc2 < 0 \<Longrightarrow> capture_closed s2"
    using init_from_closed [OF capture_close_closed [OF assms(2)] j] by simp
  then show "case capture_init_monitor e1 0 (capture_close s) of (s2, rc) \<Rightarrow>
      rc < 0 \<longrightarrow> snd (captureFrame g e buf s2) = (if wc_w s2 * wc_h s2 * 4 \<le> int (length buf) then GrabCrash else NoFrame)"
    using closed_frame assms(3) j by simp
qed

lemma closed_capture_crashes_witness:
  "snd (captureFrame demo_grab demo_screens (replicate 16 0) (captureClose demo_capture)) = GrabCrash"
  using closed_capture_crashes [of demo_capture "replicate 16 0" demo_grab demo_screens]
  by (simp add: demo_capture_def capturing_def)

text \<open>
  When a grab fails for good on another monitor, as when access to the desktop is lost, the capture is opened
  again on the primary monitor. If that has the same size, the stream goes on with the picture of the primary monitor,
  while the mouse still goes to the monitor the browser chose.
\<close>
theorem lost_access_moves_to_primary:
  assumes "capture_frame g buf s = Some (- 1, buf1)" "int (length buf) = wc_w s * wc_h s * 4" "buf \<noteq> []"
    and "capture_init_monitor e 0 (capture_close s) = (s', 0)" "xe_outputs e = Some adapters"
    and "enumerate_monitors (xe_outputs e) = m # ms" "mi_Width m = wc_w s" "mi_Height m = wc_h s" "0 < wc_w s" "0 < wc_h s"
  shows "captureFrame g e buf s = (s', NoFrame) \<and> captureMonitorOffset s' = (mi_X m, mi_Y m)
    \<and> on_frame p ce (captured_of (snd (captureFrame g e buf s))) ok t ok2 st = st
    \<and> (case capture_frame g2 buf s' of
         Some (rc, frame) \<Rightarrow> rc = 0 \<longrightarrow> captureFrame g2 e2 buf s' = (s', Grabbed (wc_w s) (wc_h s) frame)
       | None \<Rightarrow> True)"
proof -
  have f: "captureFrame g e buf s = (s', NoFrame)"
    using assms(1-4) by (simp add: captureFrame_def Let_def)
  obtain d ds where c: "concat adapters = d # ds"
    using assms(5,6) enumerate_monitors_nth(1) [OF refl, of adapters] by (cases "concat adapters") auto
  have "m = monitor_of 0 d"
    using enumerate_monitors_nth(2) [OF c [symmetric], of 0] assms(5,6) by (simp add: max_monitors_def)
  then have "mi_Index m = nat 0" by (simp add: monitor_of_def)
  then have m: "wc_w s' = mi_Width m \<and> wc_h s' = mi_Height m \<and> captureMonitorOffset s' = (mi_X m, mi_Y m)"
    using monitor_choice [OF assms(4,5)] assms(6-10) by simp
  have "captureFrame g2 e2 buf s' = (s', Grabbed (wc_w s) (wc_h s) frame)" if "capture_frame g2 buf s' = Some (0, frame)" for frame
    using that m assms(2,3,7,8) by (simp add: captureFrame_def)
  then show ?thesis using f m by (auto simp: on_frame_def split: option.splits)
qed

lemma lost_access_moves_to_primary_witness:
  "captureMonitorOffset (fst (captureFrame (demo_grab\<lparr>ge_acquire := AcqFailed\<rparr>) demo_screens (replicate 16 0) demo_capture))
     = (0, 0)"
proof -
  let ?s' = "demo_capture\<lparr>wc_target := 0, wc_dup := False, wc_gdi := True, wc_x := 0\<rparr>"
  have "capture_init_monitor demo_screens 0 (capture_close demo_capture) = (?s', 0)"
    by (simp add: capture_init_monitor_def dxgi_init_def dxgi_close_def gdi_init_def demo_screens_def demo_capture_def
        capture_close_def enumerate_monitors_def max_monitors_def monitor_of_def)
  moreover have "enumerate_monitors (xe_outputs demo_screens) =
      [\<lparr>mi_Index = 0, mi_Name = ''A'', mi_X = 0, mi_Y = 0, mi_Width = 2, mi_Height = 2\<rparr>,
       \<lparr>mi_Index = 1, mi_Name = ''B'', mi_X = 2, mi_Y = 0, mi_Width = 2, mi_Height = 2\<rparr>]"
    by (simp add: demo_screens_def enumerate_monitors_def max_monitors_def monitor_of_def)
  moreover have "xe_outputs demo_screens = Some [[\<lparr>od_name = ''A'', od_left = 0, od_top = 0, od_right = 2, od_bottom = 2\<rparr>],
       [\<lparr>od_name = ''B'', od_left = 2, od_top = 0, od_right = 4, od_bottom = 2\<rparr>]]"
    by (simp add: demo_screens_def)
  moreover have "capture_frame (demo_grab\<lparr>ge_acquire := AcqFailed\<rparr>) (replicate 16 0) demo_capture = Some (- 1, replicate 16 0)"
    by (simp add: capture_frame_def demo_grab_def demo_capture_def)
  ultimately show ?thesis
    using lost_access_moves_to_primary [of "demo_grab\<lparr>ge_acquire := AcqFailed\<rparr>" "replicate 16 0" demo_capture]
    by (simp add: demo_capture_def)
qed

end
