(* ===== verification/Client_Session.thy ===== *)
theory Client_Session
  imports Json
begin

text \<open>
  client-app/proxy.go, the first part: the cookies of the client application, kept in memory and in
  session.json, and how they enter a request. The parser of JSON files and of \<open>Set-Cookie\<close> headers is
  Go's: a file is the value it holds, an answer carries its cookies. Go walks a map in no set order;
  the list of the model is that order.
\<close>

section \<open>Request and response headers of net/http\<close>

text \<open>Headers under their canonical names; several values of a name keep their order.\<close>

type_synonym headers = "(string \<times> string) list"

definition hdr_get :: "headers \<Rightarrow> string \<Rightarrow> string" where
  "hdr_get hs n = (case map_of hs n of Some v \<Rightarrow> v | None \<Rightarrow> [])"

definition hdr_del :: "headers \<Rightarrow> string \<Rightarrow> headers" where
  "hdr_del hs n = filter (\<lambda>(k, v). k \<noteq> n) hs"

definition hdr_set :: "headers \<Rightarrow> string \<Rightarrow> string \<Rightarrow> headers" where
  "hdr_set hs n v = hdr_del hs n @ [(n, v)]"

definition hdr_values :: "headers \<Rightarrow> string \<Rightarrow> string list" where
  "hdr_values hs n = map snd (filter (\<lambda>(k, v). k = n) hs)"

lemma hdr_get_set [simp]: "hdr_get (hdr_set hs n v) m = (if m = n then v else hdr_get hs m)"
proof -
  have "map_of (filter (\<lambda>(k, v). k \<noteq> n) hs) m = (if m = n then None else map_of hs m)"
    by (induction hs) auto
  then show ?thesis by (simp add: hdr_get_def hdr_set_def hdr_del_def map_add_def split: option.splits)
qed

lemma hdr_get_del [simp]: "hdr_get (hdr_del hs n) m = (if m = n then [] else hdr_get hs m)"
proof -
  have "map_of (filter (\<lambda>(k, v). k \<noteq> n) hs) m = (if m = n then None else map_of hs m)"
    by (induction hs) auto
  then show ?thesis by (simp add: hdr_get_def hdr_del_def)
qed

lemma hdr_del_set: "m \<noteq> n \<Longrightarrow> hdr_del (hdr_set hs n v) m = hdr_set (hdr_del hs m) n v"
  by (auto simp: hdr_set_def hdr_del_def intro: filter_cong)

lemma hdr_values_append [simp]: "hdr_values (xs @ ys) n = hdr_values xs n @ hdr_values ys n"
  by (simp add: hdr_values_def)

text \<open>\<open>Request.AddCookie\<close>: it drops the bytes a cookie may not hold and appends to the first \<open>Cookie\<close> header.\<close>

definition sanitizeCookieName :: "string \<Rightarrow> string" where
  "sanitizeCookieName n = map (\<lambda>c. if c = CHR 0x0A \<or> c = CHR 0x0D then CHR ''-'' else c) n"

definition cookie_byte :: "char \<Rightarrow> bool" where
  "cookie_byte c \<longleftrightarrow> 0x20 \<le> (of_char c :: nat) \<and> (of_char c :: nat) < 0x7F
     \<and> c \<noteq> CHR 0x22 \<and> c \<noteq> CHR '';'' \<and> c \<noteq> CHR 0x5C"

definition sanitizeCookieValue :: "string \<Rightarrow> string" where
  "sanitizeCookieValue v =
     (let w = filter cookie_byte v
      in if CHR '' '' \<in> set w \<or> CHR '','' \<in> set w then [CHR 0x22] @ w @ [CHR 0x22] else w)"

definition cookie_pair :: "string \<times> string \<Rightarrow> string" where
  "cookie_pair nv = sanitizeCookieName (fst nv) @ ''='' @ sanitizeCookieValue (snd nv)"

definition add_cookie :: "string \<times> string \<Rightarrow> headers \<Rightarrow> headers" where
  "add_cookie nv hs =
     (let c = hdr_get hs ''Cookie''
      in hdr_set hs ''Cookie'' (if c \<noteq> [] then c @ ''; '' @ cookie_pair nv else cookie_pair nv))"

definition inject_cookies :: "(string \<times> string) list \<Rightarrow> headers \<Rightarrow> headers" where
  "inject_cookies m hs = fold add_cookie m hs"

lemma cookie_pair_ne [simp]: "cookie_pair nv \<noteq> []"
  by (simp add: cookie_pair_def)

lemma inject_cookies_Nil [simp]: "inject_cookies [] hs = hs"
  by (simp add: inject_cookies_def)

lemma inject_cookies_Cons: "inject_cookies (nv # m) hs = inject_cookies m (add_cookie nv hs)"
  by (simp add: inject_cookies_def)

lemma inject_get: "n \<noteq> ''Cookie'' \<Longrightarrow> hdr_get (inject_cookies m hs) n = hdr_get hs n"
  by (induction m arbitrary: hs) (simp_all add: inject_cookies_Cons add_cookie_def Let_def)

lemma inject_del: "n \<noteq> ''Cookie'' \<Longrightarrow> hdr_del (inject_cookies m hs) n = inject_cookies m (hdr_del hs n)"
  by (induction m arbitrary: hs) (simp_all add: inject_cookies_Cons add_cookie_def Let_def hdr_del_set)

text \<open>The text of the \<open>Cookie\<close> header after cookies were added to a request that had none.\<close>

fun cookie_text :: "(string \<times> string) list \<Rightarrow> string" where
  "cookie_text [] = []"
| "cookie_text [nv] = cookie_pair nv"
| "cookie_text (nv # m) = cookie_pair nv @ ''; '' @ cookie_text m"

lemma cookie_text_Cons: "cookie_text (nv # m) = cookie_pair nv @ (if m = [] then [] else ''; '' @ cookie_text m)"
  by (cases m) simp_all

lemma cookie_text_ne: "cookie_text m = [] \<longleftrightarrow> m = []"
  by (cases m) (simp_all add: cookie_text_Cons)

lemma inject_cookies_text:
  "hdr_get (inject_cookies m hs) ''Cookie'' =
     (if hdr_get hs ''Cookie'' = [] then cookie_text m
      else hdr_get hs ''Cookie'' @ (if m = [] then [] else ''; '' @ cookie_text m))"
proof (induction m arbitrary: hs)
  case (Cons nv m)
  then show ?case
    by (simp add: inject_cookies_Cons add_cookie_def Let_def cookie_text_Cons)
qed simp

section \<open>The session store\<close>

text \<open>
  \<open>Cookies\<close> is \<open>None\<close> for the nil map that a file with the value \<open>null\<close> leaves. \<open>held\<close> is the mutex, left locked by a
  panic between \<open>Lock\<close> and \<open>Unlock\<close>. \<open>session_file\<close> is the value in session.json, \<open>None\<close> without a readable one.
\<close>

record SessionStore =
  Cookies :: "(string \<times> string) list option"
  held :: bool
  session_file :: "json option"

text \<open>
  A cookie of an answer, as Go parses it: \<open>MaxAge\<close> is 0 without a \<open>Max-Age\<close> attribute and negative for one that is not
  positive; \<open>Expires\<close> is a time in seconds.
\<close>

record set_cookie =
  ck_Name :: string
  ck_Value :: string
  ck_MaxAge :: int
  ck_Expires :: "int option"

text \<open>How an operation of the store ends: it returns, it panics, or it waits for the mutex for ever.\<close>

datatype verdict = Returns | Panics | Blocks

definition cookie_list :: "SessionStore \<Rightarrow> (string \<times> string) list" where
  "cookie_list s = (case Cookies s of Some m \<Rightarrow> m | None \<Rightarrow> [])"

text \<open>
  What \<open>json.Unmarshal\<close> does with the field \<open>cookies\<close>: an object enters its keys in the map, with the empty string for
  a value that is no string; \<open>null\<close> makes the map nil; any other value changes nothing. A file that
  holds no object changes nothing either.
\<close>

definition dec_entry :: "string \<times> json \<Rightarrow> (string \<times> string) list \<Rightarrow> (string \<times> string) list" where
  "dec_entry kj m = AList.update (fst kj) (case snd kj of JStr v \<Rightarrow> v | _ \<Rightarrow> []) m"

fun dec_map :: "json \<Rightarrow> (string \<times> string) list option \<Rightarrow> (string \<times> string) list option" where
  "dec_map (JObj kvs) m = Some (fold dec_entry kvs (case m of Some m' \<Rightarrow> m' | None \<Rightarrow> []))"
| "dec_map JNull m = None"
| "dec_map j m = m"

definition loadSession :: "json option \<Rightarrow> SessionStore" where
  "loadSession file =
     \<lparr>Cookies = (case file of
          Some (JObj kvs) \<Rightarrow> fold dec_map (json_field ''cookies'' kvs) (Some [])
        | _ \<Rightarrow> Some []),
      held = False, session_file = file\<rparr>"

definition cookies_json :: "(string \<times> string) list option \<Rightarrow> json" where
  "cookies_json m =
     JObj [(''cookies'', case m of None \<Rightarrow> JNull | Some m' \<Rightarrow> go_map (map (\<lambda>(k, v). (k, JStr v)) m'))]"

text \<open>Writing a file: it holds the new value, or it could not be opened, or was cut short and holds no value.\<close>

datatype disk = DiskOk | DiskUnopened | DiskCut

fun write_file :: "disk \<Rightarrow> json \<Rightarrow> json option \<Rightarrow> json option" where
  "write_file DiskOk j old = Some j"
| "write_file DiskUnopened j old = old"
| "write_file DiskCut j old = None"

definition save_session :: "disk \<Rightarrow> SessionStore \<Rightarrow> SessionStore" where
  "save_session d s = s\<lparr>session_file := write_file d (cookies_json (Cookies s)) (session_file s)\<rparr>"

text \<open>One cookie of an answer; a store into the nil map panics with the mutex held.\<close>

definition set_one :: "set_cookie \<Rightarrow> (string \<times> string) list \<Rightarrow> (string \<times> string) list" where
  "set_one c m = (if ck_MaxAge c < 0 then AList.delete (ck_Name c) m else AList.update (ck_Name c) (ck_Value c) m)"

definition setCookies :: "disk \<Rightarrow> SessionStore \<Rightarrow> set_cookie list \<Rightarrow> SessionStore \<times> verdict" where
  "setCookies d s cs =
     (if held s then (s, Blocks)
      else (case Cookies s of
          Some m \<Rightarrow> (save_session d (s\<lparr>Cookies := Some (fold set_one cs m)\<rparr>), Returns)
        | None \<Rightarrow> if list_all (\<lambda>c. ck_MaxAge c < 0) cs then (save_session d s, Returns)
                  else (s\<lparr>held := True\<rparr>, Panics)))"

definition inject :: "SessionStore \<Rightarrow> headers \<Rightarrow> headers option" where
  "inject s hs = (if held s then None else Some (inject_cookies (cookie_list s) hs))"

definition hasCookies :: "SessionStore \<Rightarrow> bool option" where
  "hasCookies s = (if held s then None else Some (0 < length (cookie_list s)))"

definition clear_session :: "disk \<Rightarrow> SessionStore \<Rightarrow> SessionStore \<times> verdict" where
  "clear_session d s = (if held s then (s, Blocks) else (save_session d (s\<lparr>Cookies := Some []\<rparr>), Returns))"

section \<open>The contract of a cookie jar\<close>

text \<open>
  What the proxy relies on: a cookie read after answers were stored is the one of the last answer that names it, and
  none is left after the jar was emptied.
\<close>

definition cookie_after :: "set_cookie list \<Rightarrow> string \<Rightarrow> string option \<Rightarrow> string option" where
  "cookie_after cs n v =
     fold (\<lambda>c v. if ck_Name c = n then (if ck_MaxAge c < 0 then None else Some (ck_Value c)) else v) cs v"

lemma cookie_after_simps [simp]:
  "cookie_after [] n v = v"
  "cookie_after (c # cs) n v =
     cookie_after cs n (if ck_Name c = n then (if ck_MaxAge c < 0 then None else Some (ck_Value c)) else v)"
  by (simp_all add: cookie_after_def)

lemma cookie_after_origin:
  "cookie_after cs n v = Some x \<Longrightarrow>
     v = Some x \<or> (\<exists>c \<in> set cs. ck_Name c = n \<and> ck_Value c = x \<and> \<not> ck_MaxAge c < 0)"
  by (induction cs arbitrary: v) (fastforce split: if_splits)+

locale cookie_jar =
  fixes store :: "'s \<Rightarrow> set_cookie list \<Rightarrow> 's"
    and wipe :: "'s \<Rightarrow> 's"
    and look :: "'s \<Rightarrow> string \<Rightarrow> string option"
    and ok :: "'s \<Rightarrow> bool"
  assumes store_ok: "ok s \<Longrightarrow> ok (store s cs)"
    and wipe_ok: "ok s \<Longrightarrow> ok (wipe s)"
    and look_store: "ok s \<Longrightarrow> look (store s cs) n = cookie_after cs n (look s n)"
    and look_wipe: "ok s \<Longrightarrow> look (wipe s) n = None"
begin

text \<open>Every cookie of the jar was there before or came with the answer.\<close>

lemma origin:
  "ok s \<Longrightarrow> look (store s cs) n = Some x \<Longrightarrow>
     look s n = Some x \<or> (\<exists>c \<in> set cs. ck_Name c = n \<and> ck_Value c = x \<and> \<not> ck_MaxAge c < 0)"
  using cookie_after_origin [of cs n "look s n" x] by (simp add: look_store)

lemma wipe_then_store: "ok s \<Longrightarrow> look (store (wipe s) cs) n = cookie_after cs n None"
  by (simp add: look_store wipe_ok look_wipe)

text \<open>Only the last answer that names a cookie counts, whatever answers came before.\<close>

lemma last_answer:
  assumes "ok s" "ck_Name c = n" "\<forall>c' \<in> set cs. ck_Name c' \<noteq> n"
  shows "look (store s (pre @ c # cs)) n = (if ck_MaxAge c < 0 then None else Some (ck_Value c))"
proof -
  have skip: "cookie_after cs n v = v" for v
    using assms(3) by (induction cs arbitrary: v) auto
  have "cookie_after (pre @ c # cs) n v = cookie_after (c # cs) n (cookie_after pre n v)" for v
    by (simp add: cookie_after_def)
  with assms skip show ?thesis by (simp add: look_store)
qed

lemma expired_gone:
  assumes "ok s" "ck_Name c = n" "ck_MaxAge c < 0" "\<forall>c' \<in> set cs. ck_Name c' \<noteq> n"
  shows "look (store s (pre @ c # cs)) n = None"
  using last_answer [OF assms(1,2,4)] assms(3) by simp

end

section \<open>The session store is a cookie jar\<close>

definition jar_ok :: "SessionStore \<Rightarrow> bool" where
  "jar_ok s \<longleftrightarrow> \<not> held s \<and> Cookies s \<noteq> None \<and> distinct (map fst (cookie_list s))"

definition jar_get :: "SessionStore \<Rightarrow> string \<Rightarrow> string option" where
  "jar_get s = map_of (cookie_list s)"

lemma set_one_distinct: "distinct (map fst m) \<Longrightarrow> distinct (map fst (set_one c m))"
  by (simp add: set_one_def distinct_update distinct_delete)

lemma set_ones_distinct: "distinct (map fst m) \<Longrightarrow> distinct (map fst (fold set_one cs m))"
  by (induction cs arbitrary: m) (simp_all add: set_one_distinct)

lemma set_ones_get: "map_of (fold set_one cs m) n = cookie_after cs n (map_of m n)"
  by (induction cs arbitrary: m) (simp_all add: set_one_def update_conv' delete_conv')

lemma cookie_list_upd [simp]:
  "cookie_list (s\<lparr>Cookies := Some m\<rparr>) = m"
  "cookie_list (save_session d s) = cookie_list s"
  "Cookies (save_session d s) = Cookies s"
  "held (save_session d s) = held s"
  by (simp_all add: cookie_list_def save_session_def)

interpretation jar: cookie_jar "\<lambda>s cs. fst (setCookies d s cs)" "\<lambda>s. fst (clear_session d s)" jar_get jar_ok
proof unfold_locales
  fix s cs n
  assume s: "jar_ok s"
  then obtain m where m: "Cookies s = Some m" "\<not> held s" "distinct (map fst m)" "cookie_list s = m"
    by (auto simp: jar_ok_def cookie_list_def)
  then show "jar_ok (fst (setCookies d s cs))" "jar_get (fst (setCookies d s cs)) n = cookie_after cs n (jar_get s n)"
    "jar_ok (fst (clear_session d s))" "jar_get (fst (clear_session d s)) n = None"
    by (simp_all add: setCookies_def clear_session_def jar_ok_def jar_get_def set_ones_distinct set_ones_get)
qed

lemma setCookies_ok: "jar_ok s \<Longrightarrow> snd (setCookies d s cs) = Returns"
  by (auto simp: setCookies_def jar_ok_def)

lemma clear_session_ok: "jar_ok s \<Longrightarrow> snd (clear_session d s) = Returns"
  by (simp add: clear_session_def jar_ok_def)

lemma inject_ok: "jar_ok s \<Longrightarrow> inject s hs = Some (inject_cookies (cookie_list s) hs)"
  by (simp add: inject_def jar_ok_def)

lemma hasCookies_ok: "jar_ok s \<Longrightarrow> hasCookies s = Some (cookie_list s \<noteq> [])"
  by (simp add: hasCookies_def jar_ok_def)

section \<open>The file\<close>

text \<open>Decoding an object of strings gives the map that was written, whatever the order of its keys.\<close>

lemma dec_entries:
  "map_of (fold dec_entry (map (\<lambda>(k, v). (k, JStr v)) m) acc) = map_of acc ++ map_of (rev m)"
  by (induction m arbitrary: acc) (auto simp: dec_entry_def update_conv' map_add_def fun_eq_iff split: option.splits)

lemma dec_entries_distinct: "distinct (map fst acc) \<Longrightarrow> distinct (map fst (fold dec_entry kvs acc))"
  by (induction kvs arbitrary: acc) (simp_all add: dec_entry_def distinct_update)

lemma map_of_distinct_set:
  "distinct (map fst xs) \<Longrightarrow> distinct (map fst ys) \<Longrightarrow> set xs = set ys \<Longrightarrow> map_of xs = map_of ys"
  by (metis map_of_inject_set)

lemma insort_key_map:
  "insort_key fst (f x) (map f xs) = map f (insort_key fst x xs)" if "\<And>x. fst (f x) = fst x"
  by (induction xs) (simp_all add: that)

lemma sort_key_map:
  "sort_key fst (map f xs) = map f (sort_key fst xs)" if "\<And>x. fst (f x) = fst x"
  using insort_key_map [of f, OF that] by (induction xs) (simp_all add: sort_key_def)

lemma go_map_strings:
  assumes "distinct (map fst m)"
  shows "go_map (map (\<lambda>(k, v). (k, JStr v)) m) = JObj (map (\<lambda>(k, v). (k, JStr v)) (sort_key fst (rev m)))"
proof -
  let ?f = "\<lambda>(k :: string, v). (k, JStr v)"
  have 1: "fst (?f x) = fst x" for x by (simp add: case_prod_beta)
  have 2: "map fst (rev (map ?f m)) = rev (map fst m)" by (simp add: rev_map comp_def case_prod_beta)
  then have "AList.clearjunk (rev (map ?f m)) = rev (map ?f m)"
    using assms by (intro distinct_clearjunk_id) simp
  then show ?thesis using sort_key_map [of ?f "rev m", OF 1] by (simp add: go_map_def rev_map)
qed

lemma session_reloads:
  assumes "distinct (map fst m)"
  shows "jar_ok (loadSession (Some (cookies_json (Some m))))
     \<and> jar_get (loadSession (Some (cookies_json (Some m)))) = map_of m"
proof -
  let ?m = "sort_key fst (rev m)"
  have "distinct (map fst (rev m))" using assms by (simp add: rev_map [symmetric])
  then have d: "distinct (map fst ?m)" by (metis distinct_map distinct_sort inj_on_def set_sort)
  have r: "map_of (rev ?m) = map_of m"
    by (rule map_of_distinct_set) (use d assms in \<open>simp_all add: rev_map [symmetric]\<close>)
  let ?e = "map (\<lambda>(k, v). (k, JStr v)) ?m"
  have "Cookies (loadSession (Some (cookies_json (Some m)))) = Some (fold dec_entry ?e [])"
    "\<not> held (loadSession (Some (cookies_json (Some m))))"
    by (simp_all add: loadSession_def cookies_json_def go_map_strings [OF assms])
  moreover have "map_of (fold dec_entry ?e []) = map_of m" using dec_entries [of ?m "[]"] r by simp
  moreover have "distinct (map fst (fold dec_entry ?e []))" by (rule dec_entries_distinct) simp
  ultimately show ?thesis by (simp add: jar_ok_def jar_get_def cookie_list_def)
qed

text \<open>The jar a file gives is one, whatever the file holds, unless it holds the value null.\<close>

lemma dec_map_distinct:
  "(\<forall>m. m0 = Some m \<longrightarrow> distinct (map fst m)) \<Longrightarrow> dec_map j m0 = Some m \<Longrightarrow> distinct (map fst m)"
  by (cases j) (auto intro!: dec_entries_distinct split: option.splits)

lemma loadSession_distinct: "Cookies (loadSession file) = Some m \<Longrightarrow> distinct (map fst m)"
proof -
  have f: "(\<forall>m. m0 = Some m \<longrightarrow> distinct (map fst m)) \<Longrightarrow> fold dec_map js m0 = Some m \<Longrightarrow> distinct (map fst m)"
    for js m0 m
  proof (induction js arbitrary: m0)
    case (Cons j js)
    have "\<forall>m. dec_map j m0 = Some m \<longrightarrow> distinct (map fst m)"
      by (intro allI impI) (rule dec_map_distinct [OF Cons.prems(1)])
    moreover have "fold dec_map js (dec_map j m0) = Some m" using Cons.prems(2) by simp
    ultimately show ?case by (rule Cons.IH)
  qed simp
  have "\<exists>js. Cookies (loadSession file) = fold dec_map js (Some [])"
  proof (cases "file :: json option")
    case None
    then show ?thesis by (intro exI [of _ "[]"]) (simp add: loadSession_def)
  next
    case (Some j)
    show ?thesis
    proof (cases "\<exists>kvs. j = JObj kvs")
      case True
      then obtain kvs where "j = JObj kvs" ..
      with Some show ?thesis by (intro exI [of _ "json_field ''cookies'' kvs"]) (simp add: loadSession_def)
    next
      case False
      with Some show ?thesis by (intro exI [of _ "[]"], cases j) (simp_all add: loadSession_def)
    qed
  qed
  then obtain js where "Cookies (loadSession file) = fold dec_map js (Some [])" ..
  then show "Cookies (loadSession file) = Some m \<Longrightarrow> distinct (map fst m)" using f [of "Some []" js m] by simp
qed

end
