(* ===== verification/Client_Proxy.thy ===== *)
theory Client_Proxy
  imports Client_Session
begin

text \<open>
  client-app/main.go and client-app/proxy.go: the configuration, the local HTTP server of the client application and
  its handlers. A handler that calls the server is two steps, up to its request and from the answer on, with any
  number of other handlers between them. \<open>handleWSProxy\<close> is in theory \<open>Client_Tunnel\<close>; the page itself is a value.
\<close>

section \<open>Configuration\<close>

record client_config =
  cc_ServerURL :: string
  cc_Username :: string

definition client_dec_config :: "json option \<Rightarrow> client_config" where
  "client_dec_config file =
     (case Option.bind file dec_struct of
        None \<Rightarrow> \<lparr>cc_ServerURL = [], cc_Username = []\<rparr>
      | Some kvs \<Rightarrow> \<lparr>cc_ServerURL = fst (dec_string ''serverUrl'' kvs), cc_Username = fst (dec_string ''username'' kvs)\<rparr>)"

definition client_config_json :: "client_config \<Rightarrow> json" where
  "client_config_json c = JObj [(''serverUrl'', JStr (cc_ServerURL c)), (''username'', JStr (cc_Username c))]"

text \<open>\<open>init\<close>: the directory of the configuration; \<open>join\<close> is \<open>filepath.Join\<close>.\<close>

definition client_configDir :: "(string list \<Rightarrow> string) \<Rightarrow> bool \<Rightarrow> (string \<Rightarrow> string) \<Rightarrow> string \<Rightarrow> string" where
  "client_configDir join windows env home =
     (if windows then
        (let appData = (if env ''APPDATA'' = [] then join [env ''USERPROFILE'', ''AppData'', ''Roaming''] else env ''APPDATA'')
         in join [appData, ''OblireachClient''])
      else join [home, ''.oblireach-client''])"

section \<open>State\<close>

text \<open>\<open>sso\<close> is the request id of the pending flow; the field \<open>state\<close> of the source is always empty and never read.\<close>

record Proxy =
  px_cfg :: client_config
  px_session :: SessionStore
  px_sso :: "string option"
  px_port :: nat
  px_cfg_file :: "json option"
  px_fav_file :: "string option"

definition newProxy :: "json option \<Rightarrow> json option \<Rightarrow> string option \<Rightarrow> nat \<Rightarrow> Proxy" where
  "newProxy cfg_file ses_file fav port =
     \<lparr>px_cfg = client_dec_config cfg_file, px_session = loadSession ses_file, px_sso = None, px_port = port,
      px_cfg_file = cfg_file, px_fav_file = fav\<rparr>"

text \<open>
  Requests of the browser, requests to the server, its answers, and responses. \<open>rq_Body\<close> is \<open>None\<close> when reading the
  body fails. A request to the server has the URL as it was given to the library, or the parts the handler set.
\<close>

record request =
  rq_Method :: string
  rq_Path :: string
  rq_RawQuery :: string
  rq_Headers :: headers
  rq_Body :: "string option"

record go_url =
  u_Scheme :: string
  u_Host :: string

datatype body = BodyEmpty | BodyText string | BodyJson json | PageUI client_config | PageMissing | PageError string | PageDone

datatype up_url = FullURL string | PartsURL string string string string

record up_request =
  uq_Method :: string
  uq_URL :: up_url
  uq_Headers :: headers
  uq_Body :: body

record answer =
  an_Status :: int
  an_Cookies :: "set_cookie list"
  an_Headers :: headers
  an_Body :: string

datatype upstream = UpFailed string | UpAnswer answer

record response =
  rs_Status :: int
  rs_Headers :: headers
  rs_Body :: body

text \<open>
  What waits for an answer of the server, and how a handler's step ends. \<open>Hang\<close> waits for the mutex of the session,
  \<open>Crash\<close> is a panic, which net/http turns into a closed connection.
\<close>

datatype flight = FlLogout | FlSsoInit | FlSsoCallback | FlProxy

datatype outcome =
    Respond response
  | Ask up_request flight
  | Tunnel go_url request
  | Hang
  | Crash

text \<open>
  What the handlers use of Go and of the disk: \<open>json.Decoder\<close> and \<open>json.Unmarshal\<close> on a text, \<open>url.Parse\<close>,
  \<open>url.ParseQuery\<close>, how each file is written and, when favorites.json is cut, how much of it is.
\<close>

record client_env =
  ce_decode :: "string \<Rightarrow> json option"
  ce_unmarshal :: "string \<Rightarrow> json option"
  ce_url :: "string \<Rightarrow> go_url option"
  ce_query :: "string \<Rightarrow> (string \<times> string) list"
  ce_disk_cfg :: disk
  ce_disk_ses :: disk
  ce_disk_fav :: disk
  ce_fav_cut :: nat

section \<open>Responses\<close>

text \<open>Every response starts with the header that \<open>ServeHTTP\<close> sets.\<close>

definition cors :: headers where
  "cors = [(''Access-Control-Allow-Origin'', ''*'')]"

definition json_response :: "json \<Rightarrow> response" where
  "json_response j = \<lparr>rs_Status = 200, rs_Headers = hdr_set cors ''Content-Type'' ''application/json'', rs_Body = BodyJson j\<rparr>"

definition page_response :: "body \<Rightarrow> response" where
  "page_response b = \<lparr>rs_Status = 200, rs_Headers = hdr_set cors ''Content-Type'' ''text/html'', rs_Body = b\<rparr>"

text \<open>\<open>http.Error\<close>: plain text, whatever type was set before, with a newline.\<close>

definition http_error :: "string \<Rightarrow> int \<Rightarrow> response" where
  "http_error msg code =
     \<lparr>rs_Status = code,
      rs_Headers = hdr_set (hdr_set cors ''Content-Type'' ''text/plain; charset=utf-8'') ''X-Content-Type-Options'' ''nosniff'',
      rs_Body = BodyText (msg @ [CHR 0x0A])\<rparr>"

text \<open>\<open>WriteHeader\<close> with the status of an answer panics below 100 and above 999.\<close>

definition with_status :: "response \<Rightarrow> outcome" where
  "with_status r = (if rs_Status r < 100 \<or> 999 < rs_Status r then Crash else Respond r)"

section \<open>The handlers of the local endpoints\<close>

definition config_body :: "Proxy \<Rightarrow> bool \<Rightarrow> json" where
  "config_body p has =
     go_map [(''serverUrl'', JStr (cc_ServerURL (px_cfg p))), (''username'', JStr (cc_Username (px_cfg p))),
             (''hasSession'', JBool has), (''localPort'', JInt (int (px_port p)))]"

definition show_config :: "Proxy \<Rightarrow> Proxy \<times> outcome" where
  "show_config p =
     (case hasCookies (px_session p) of
        None \<Rightarrow> (p, Hang)
      | Some has \<Rightarrow> (p, Respond (json_response (config_body p has))))"

definition saveConfig :: "client_env \<Rightarrow> Proxy \<Rightarrow> Proxy" where
  "saveConfig e p = p\<lparr>px_cfg_file := write_file (ce_disk_cfg e) (client_config_json (px_cfg p)) (px_cfg_file p)\<rparr>"

definition set_server :: "client_env \<Rightarrow> string \<Rightarrow> Proxy \<Rightarrow> Proxy \<times> verdict" where
  "set_server e url p =
     (case clear_session (ce_disk_ses e) (px_session p) of
        (s, v) \<Rightarrow> (p\<lparr>px_cfg := (px_cfg p)\<lparr>cc_ServerURL := trim_right CHR ''/'' url\<rparr>, px_session := s\<rparr>, v))"

definition set_user :: "client_env \<Rightarrow> string \<Rightarrow> bool \<Rightarrow> Proxy \<Rightarrow> Proxy" where
  "set_user e user changed p =
     (let p1 = (if user \<noteq> [] then p\<lparr>px_cfg := (px_cfg p)\<lparr>cc_Username := user\<rparr>\<rparr> else p)
      in if changed \<or> user \<noteq> [] then saveConfig e p1 else p1)"

text \<open>The fields of the posted object; none when it cannot be read or is no object.\<close>

definition posted_config :: "client_env \<Rightarrow> request \<Rightarrow> string \<times> string" where
  "posted_config e r =
     (let kvs = (case Option.bind (Option.bind (rq_Body r) (ce_decode e)) dec_struct of Some kvs \<Rightarrow> kvs | None \<Rightarrow> [])
      in (fst (dec_string ''serverUrl'' kvs), fst (dec_string ''username'' kvs)))"

definition handleConfig :: "client_env \<Rightarrow> request \<Rightarrow> Proxy \<Rightarrow> Proxy \<times> outcome" where
  "handleConfig e r p =
     (if rq_Method r = ''POST'' then
        (let (url, user) = posted_config e r
         in if url \<noteq> [] \<and> url \<noteq> cc_ServerURL (px_cfg p) then
              (case set_server e url p of
                 (p1, Returns) \<Rightarrow> show_config (set_user e user True p1)
               | (p1, Panics) \<Rightarrow> (p1, Crash)
               | (p1, Blocks) \<Rightarrow> (p1, Hang))
            else show_config (set_user e user False p))
      else show_config p)"

text \<open>\<open>handleLogout\<close>: the call to the server when there is one and its URL parses, then the end of the session.\<close>

definition end_logout :: "client_env \<Rightarrow> Proxy \<Rightarrow> Proxy \<times> outcome" where
  "end_logout e p =
     (case clear_session (ce_disk_ses e) (px_session p) of
        (s, Returns) \<Rightarrow> (p\<lparr>px_session := s\<rparr>, Respond (json_response (go_map [(''ok'', JBool True)])))
      | (s, Panics) \<Rightarrow> (p\<lparr>px_session := s\<rparr>, Crash)
      | (s, Blocks) \<Rightarrow> (p\<lparr>px_session := s\<rparr>, Hang))"

definition handleLogout :: "client_env \<Rightarrow> Proxy \<Rightarrow> Proxy \<times> outcome" where
  "handleLogout e p =
     (let url = cc_ServerURL (px_cfg p) @ ''/api/auth/logout''
      in if cc_ServerURL (px_cfg p) \<noteq> [] \<and> ce_url e url \<noteq> None then
           (case inject (px_session p) [] of
              None \<Rightarrow> (p, Hang)
            | Some hs \<Rightarrow>
                (p, Ask \<lparr>uq_Method = ''POST'', uq_URL = FullURL url, uq_Headers = hs, uq_Body = BodyEmpty\<rparr> FlLogout))
         else end_logout e p)"

fun write_text :: "disk \<Rightarrow> nat \<Rightarrow> string \<Rightarrow> string option \<Rightarrow> string option" where
  "write_text DiskOk n t old = Some t"
| "write_text DiskUnopened n t old = old"
| "write_text DiskCut n t old = Some (take n t)"

definition handleFavorites :: "client_env \<Rightarrow> request \<Rightarrow> Proxy \<Rightarrow> Proxy \<times> outcome" where
  "handleFavorites e r p =
     (let hs = hdr_set cors ''Content-Type'' ''application/json''; ok = (\<lambda>b. \<lparr>rs_Status = 200, rs_Headers = hs, rs_Body = b\<rparr>)
      in if rq_Method r = ''POST'' then
           (case rq_Body r of
              None \<Rightarrow> (p, Respond (http_error (''{'' @ [CHR 0x22] @ ''error'' @ [CHR 0x22] @ '':'' @ [CHR 0x22] @ ''read body'' @ [CHR 0x22] @ ''}'') 400))
            | Some b \<Rightarrow>
                (p\<lparr>px_fav_file := write_text (ce_disk_fav e) (ce_fav_cut e) b (px_fav_file p)\<rparr>,
                 Respond (ok (BodyJson (JObj [(''ok'', JBool True)])))))
         else (p, Respond (ok (case px_fav_file p of None \<Rightarrow> BodyJson (JArr []) | Some t \<Rightarrow> BodyText t))))"

section \<open>Single sign-on\<close>

definition query_get :: "(string \<times> string) list \<Rightarrow> string \<Rightarrow> string" where
  "query_get q k = (case map_of q k of Some v \<Rightarrow> v | None \<Rightarrow> [])"

definition json_request :: "string \<Rightarrow> headers \<Rightarrow> json \<Rightarrow> up_request" where
  "json_request url hs j =
     \<lparr>uq_Method = ''POST'', uq_URL = FullURL url, uq_Headers = hs, uq_Body = BodyJson j\<rparr>"

text \<open>A URL that does not parse leaves a nil request, whose headers are then set.\<close>

definition ask_server :: "client_env \<Rightarrow> string \<Rightarrow> json \<Rightarrow> flight \<Rightarrow> Proxy \<Rightarrow> outcome" where
  "ask_server e path j fl p =
     (let url = cc_ServerURL (px_cfg p) @ path
      in if ce_url e url = None then Crash
         else (case inject (px_session p) [(''Content-Type'', ''application/json'')] of
             None \<Rightarrow> Hang
           | Some hs \<Rightarrow> Ask (json_request url hs j) fl))"

definition handleSsoCallback :: "client_env \<Rightarrow> request \<Rightarrow> Proxy \<Rightarrow> Proxy \<times> outcome" where
  "handleSsoCallback e r p =
     (let q = ce_query e (rq_RawQuery r); code = query_get q ''code''; state = query_get q ''state''
      in case px_sso p of
           None \<Rightarrow> (p, Respond (page_response PageMissing))
         | Some rid \<Rightarrow>
             if code = [] \<or> state = [] then (p, Respond (page_response PageMissing))
             else (p\<lparr>px_sso := None\<rparr>,
                   ask_server e ''/api/auth/sso-desktop-complete''
                     (go_map [(''requestId'', JStr rid), (''code'', JStr code), (''state'', JStr state)]) FlSsoCallback p))"

definition startSsoFlow :: "client_env \<Rightarrow> Proxy \<Rightarrow> outcome" where
  "startSsoFlow e p =
     ask_server e ''/api/auth/sso-desktop-init''
       (go_map [(''localCallbackUrl'', JStr (''http://127.0.0.1:'' @ show_nat (px_port p) @ ''/sso/callback''))]) FlSsoInit p"

text \<open>Storing the cookies of an answer, when it has some.\<close>

definition keep_cookies :: "client_env \<Rightarrow> set_cookie list \<Rightarrow> Proxy \<Rightarrow> Proxy \<times> verdict" where
  "keep_cookies e cs p =
     (if cs = [] then (p, Returns)
      else (case setCookies (ce_disk_ses e) (px_session p) cs of (s, v) \<Rightarrow> (p\<lparr>px_session := s\<rparr>, v)))"

text \<open>The request id of a successful answer: the fields of \<open>data\<close> add up over repeated keys; any wrong type is an error.\<close>

definition dec_sso_data :: "json \<Rightarrow> string \<times> bool \<Rightarrow> string \<times> bool" where
  "dec_sso_data j st =
     (case dec_struct j of
        None \<Rightarrow> (fst st, False)
      | Some kvs \<Rightarrow>
          (case (dec_field as_string (fst st) ''requestId'' kvs, dec_string ''authorizeUrl'' kvs) of
             ((rid, ok1), (u, ok2)) \<Rightarrow> (rid, snd st \<and> ok1 \<and> ok2)))"

definition dec_sso_init :: "json \<Rightarrow> string option" where
  "dec_sso_init j =
     (case dec_struct j of
        None \<Rightarrow> None
      | Some kvs \<Rightarrow>
          (case (dec_bool ''success'' kvs, fold dec_sso_data (json_field ''data'' kvs) ([], True)) of
             ((success, ok1), (rid, ok2)) \<Rightarrow> if ok1 \<and> ok2 \<and> success then Some rid else None))"

definition after_cookies :: "Proxy \<times> verdict \<Rightarrow> (Proxy \<Rightarrow> Proxy \<times> outcome) \<Rightarrow> Proxy \<times> outcome" where
  "after_cookies pv k = (case pv of (p, Returns) \<Rightarrow> k p | (p, Panics) \<Rightarrow> (p, Crash) | (p, Blocks) \<Rightarrow> (p, Hang))"

definition end_sso_init :: "client_env \<Rightarrow> upstream \<Rightarrow> Proxy \<Rightarrow> Proxy \<times> outcome" where
  "end_sso_init e up p =
     (case up of
        UpFailed err \<Rightarrow> (p, Respond (http_error (''{'' @ [CHR 0x22] @ ''success'' @ [CHR 0x22] @ '':false,'' @ [CHR 0x22] @
            ''error'' @ [CHR 0x22] @ '':'' @ [CHR 0x22] @ err @ [CHR 0x22] @ ''}'') 502))
      | UpAnswer a \<Rightarrow>
          after_cookies (keep_cookies e (an_Cookies a) p)
            (\<lambda>p1. (case Option.bind (ce_unmarshal e (an_Body a)) dec_sso_init of
                 Some rid \<Rightarrow> p1\<lparr>px_sso := Some rid\<rparr> | None \<Rightarrow> p1,
               with_status \<lparr>rs_Status = an_Status a, rs_Headers = hdr_set cors ''Content-Type'' ''application/json'',
                            rs_Body = BodyText (an_Body a)\<rparr>)))"

definition end_sso_callback :: "client_env \<Rightarrow> upstream \<Rightarrow> Proxy \<Rightarrow> Proxy \<times> outcome" where
  "end_sso_callback e up p =
     (case up of
        UpFailed err \<Rightarrow> (p, Respond (page_response (PageError err)))
      | UpAnswer a \<Rightarrow>
          after_cookies (keep_cookies e (an_Cookies a) p)
            (\<lambda>p1. (p1, Respond (page_response (if an_Status a \<noteq> 200 then PageError (an_Body a) else PageDone)))))"

section \<open>The reverse proxy of net/http/httputil\<close>

text \<open>
  Its hop-by-hop headers, in the fixed list or named by a \<open>Connection\<close> header, do not pass. A request keeps \<open>Te: trailers\<close>
  and an upgrade it asks for, and gets the address of the client, which is always the local host.
\<close>

definition hop_headers :: "string list" where
  "hop_headers = [''Connection'', ''Proxy-Connection'', ''Keep-Alive'', ''Proxy-Authenticate'', ''Proxy-Authorization'',
     ''Te'', ''Trailer'', ''Transfer-Encoding'', ''Upgrade'']"

definition header_tokens :: "headers \<Rightarrow> string \<Rightarrow> string list" where
  "header_tokens hs n = map trim_space (concat (map (split_on CHR '','') (hdr_values hs n)))"

definition removeHopByHopHeaders :: "headers \<Rightarrow> headers" where
  "removeHopByHopHeaders hs =
     (let named = map to_lower (header_tokens hs ''Connection'')
      in filter (\<lambda>(k, v). k \<notin> set hop_headers \<and> to_lower k \<notin> set named) hs)"

definition has_token :: "headers \<Rightarrow> string \<Rightarrow> string \<Rightarrow> bool" where
  "has_token hs n t \<longleftrightarrow> to_lower t \<in> set (map to_lower (header_tokens hs n))"

definition upgrade_type :: "headers \<Rightarrow> string" where
  "upgrade_type hs = (if has_token hs ''Connection'' ''Upgrade'' then hdr_get hs ''Upgrade'' else [])"

definition forwarded_for :: "headers \<Rightarrow> string" where
  "forwarded_for hs =
     (let prior = hdr_values hs ''X-Forwarded-For''
      in concat (map (\<lambda>v. v @ '', '') prior) @ ''127.0.0.1'')"

definition outgoing_headers :: "headers \<Rightarrow> headers" where
  "outgoing_headers hs =
     (let h1 = removeHopByHopHeaders hs;
          h2 = (if has_token hs ''Te'' ''trailers'' then hdr_set h1 ''Te'' ''trailers'' else h1);
          h3 = (if upgrade_type hs \<noteq> [] then hdr_set (hdr_set h2 ''Connection'' ''Upgrade'') ''Upgrade'' (upgrade_type hs) else h2);
          h4 = hdr_set h3 ''X-Forwarded-For'' (forwarded_for h3)
      in if hdr_values h4 ''User-Agent'' = [] then hdr_set h4 ''User-Agent'' [] else h4)"

text \<open>\<open>ModifyResponse\<close> on the headers of an answer, which are then added to those of the response.\<close>

definition modify_headers :: "headers \<Rightarrow> headers" where
  "modify_headers hs = hdr_set (hdr_del (removeHopByHopHeaders hs) ''Set-Cookie'') ''Access-Control-Allow-Origin'' ''*''"

definition end_proxy :: "client_env \<Rightarrow> upstream \<Rightarrow> Proxy \<Rightarrow> Proxy \<times> outcome" where
  "end_proxy e up p =
     (case up of
        UpFailed err \<Rightarrow>
          (p, Respond \<lparr>rs_Status = 502, rs_Headers = hdr_set cors ''Content-Type'' ''application/json'',
                       rs_Body = BodyText (''{'' @ [CHR 0x22] @ ''error'' @ [CHR 0x22] @ '':'' @ [CHR 0x22] @ ''proxy: '' @ err @
                         [CHR 0x22] @ ''}'')\<rparr>)
      | UpAnswer a \<Rightarrow>
          after_cookies (keep_cookies e (an_Cookies a) p)
            (\<lambda>p1. (p1, with_status \<lparr>rs_Status = an_Status a, rs_Headers = cors @ modify_headers (an_Headers a),
                                     rs_Body = BodyText (an_Body a)\<rparr>)))"

section \<open>handleProxy\<close>

definition proxied :: "go_url \<Rightarrow> request \<Rightarrow> up_request" where
  "proxied target r =
     \<lparr>uq_Method = rq_Method r, uq_URL = PartsURL (u_Scheme target) (u_Host target) (rq_Path r) (rq_RawQuery r),
      uq_Headers = outgoing_headers (rq_Headers r),
      uq_Body = (case rq_Body r of Some b \<Rightarrow> BodyText b | None \<Rightarrow> BodyEmpty)\<rparr>"

definition handleProxy :: "client_env \<Rightarrow> request \<Rightarrow> Proxy \<Rightarrow> Proxy \<times> outcome" where
  "handleProxy e r p =
     (let serverURL = cc_ServerURL (px_cfg p); quoted = (\<lambda>t. [CHR 0x22] @ t @ [CHR 0x22])
      in if serverURL = [] then
           (p, Respond (http_error (''{'' @ quoted ''error'' @ '':'' @ quoted ''no server configured'' @ ''}'') 503))
         else (case ce_url e serverURL of
             None \<Rightarrow> (p, Respond (http_error (''{'' @ quoted ''error'' @ '':'' @ quoted ''invalid server url'' @ ''}'') 500))
           | Some target \<Rightarrow>
               (let path = trim_prefix (rq_Path r) ''/proxy''
                in if path = ''/api/auth/sso-desktop-init'' \<and> rq_Method r = ''POST'' then (p, startSsoFlow e p)
                   else (case inject (px_session p) (rq_Headers r) of
                       None \<Rightarrow> (p, Hang)
                     | Some hs \<Rightarrow>
                         (let r1 = r\<lparr>rq_Path := path, rq_Headers := hs\<rparr>
                          in if to_lower (hdr_get hs ''Upgrade'') = ''websocket'' then (p, Tunnel target r1)
                             else (p, Ask (proxied target r1) FlProxy))))))"

section \<open>The routes of the server\<close>

text \<open>
  \<open>ServeMux\<close>: a path that is not clean is redirected, the longest pattern wins. \<open>path.Clean\<close> drops empty segments and
  dots; a final slash stays. The \<open>Location\<close> is the path before its escaping, and the page of a redirection is left out.
\<close>

definition clean_segments :: "string \<Rightarrow> string list" where
  "clean_segments p =
     foldl (\<lambda>acc seg. if seg = [] \<or> seg = ''.'' then acc else if seg = ''..'' then butlast acc else acc @ [seg]) []
       (split_on CHR ''/'' p)"

definition clean_path :: "string \<Rightarrow> string" where
  "clean_path p =
     (let segs = clean_segments p
      in if segs = [] then ''/''
         else CHR ''/'' # join_with CHR ''/'' segs @ (if last p = CHR ''/'' then ''/'' else []))"

datatype route = RUI | RProxy | RConfig | RLogout | RFavorites | RSso | RRedirect string

definition route_of :: "string \<Rightarrow> route" where
  "route_of p =
     (if clean_path p \<noteq> p then RRedirect (clean_path p)
      else if p = ''/local/config'' then RConfig
      else if p = ''/local/logout'' then RLogout
      else if p = ''/local/favorites'' then RFavorites
      else if p = ''/sso/callback'' then RSso
      else if has_prefix p ''/proxy/'' then RProxy
      else if p = ''/proxy'' then RRedirect ''/proxy/''
      else RUI)"

definition redirect_response :: "request \<Rightarrow> string \<Rightarrow> response" where
  "redirect_response r to =
     \<lparr>rs_Status = 301,
      rs_Headers = hdr_set cors ''Location'' (to @ (if rq_RawQuery r = [] then [] else ''?'' @ rq_RawQuery r)),
      rs_Body = BodyEmpty\<rparr>"

definition handleUI :: "Proxy \<Rightarrow> Proxy \<times> outcome" where
  "handleUI p =
     (p, Respond \<lparr>rs_Status = 200, rs_Headers = hdr_set cors ''Content-Type'' ''text/html; charset=utf-8'',
                  rs_Body = PageUI (px_cfg p)\<rparr>)"

definition mux :: "client_env \<Rightarrow> request \<Rightarrow> Proxy \<Rightarrow> Proxy \<times> outcome" where
  "mux e r p =
     (case route_of (rq_Path r) of
        RUI \<Rightarrow> handleUI p
      | RProxy \<Rightarrow> handleProxy e r p
      | RConfig \<Rightarrow> handleConfig e r p
      | RLogout \<Rightarrow> handleLogout e p
      | RFavorites \<Rightarrow> handleFavorites e r p
      | RSso \<Rightarrow> handleSsoCallback e r p
      | RRedirect to \<Rightarrow> (p, Respond (redirect_response r to)))"

definition ServeHTTP :: "client_env \<Rightarrow> request \<Rightarrow> Proxy \<Rightarrow> Proxy \<times> outcome" where
  "ServeHTTP e r p =
     (if rq_Method r = ''OPTIONS'' then (p, Respond \<lparr>rs_Status = 204, rs_Headers = cors, rs_Body = BodyEmpty\<rparr>)
      else mux e r p)"

definition end_flight :: "client_env \<Rightarrow> flight \<Rightarrow> upstream \<Rightarrow> Proxy \<Rightarrow> Proxy \<times> outcome" where
  "end_flight e fl up p =
     (case fl of
        FlLogout \<Rightarrow> end_logout e p
      | FlSsoInit \<Rightarrow> end_sso_init e up p
      | FlSsoCallback \<Rightarrow> end_sso_callback e up p
      | FlProxy \<Rightarrow> end_proxy e up p)"

section \<open>Runs\<close>

text \<open>
  Handlers in flight, by the number of their request: which one it is and the server it asked. \<open>Request\<close> is a request
  of the browser, which gets the next number, \<open>Answer\<close> what the server gave for one in flight.
\<close>

record client_state =
  cl_proxy :: Proxy
  cl_flights :: "(nat \<times> flight \<times> string) list"
  cl_next :: nat

datatype client_event =
    Request client_env request
  | Answer client_env nat upstream

definition start_flight :: "string \<Rightarrow> outcome \<Rightarrow> client_state \<Rightarrow> client_state" where
  "start_flight server out st =
     (case out of
        Ask q fl \<Rightarrow> st\<lparr>cl_flights := (cl_next st, fl, server) # cl_flights st, cl_next := Suc (cl_next st)\<rparr>
      | _ \<Rightarrow> st)"

definition client_step :: "client_event \<Rightarrow> client_state \<Rightarrow> client_state \<times> outcome option" where
  "client_step ev st =
     (case ev of
        Request e r \<Rightarrow>
          (case ServeHTTP e r (cl_proxy st) of
             (p, out) \<Rightarrow> (start_flight (cc_ServerURL (px_cfg (cl_proxy st))) out (st\<lparr>cl_proxy := p\<rparr>), Some out))
      | Answer e i up \<Rightarrow>
          (case map_of (cl_flights st) i of
             None \<Rightarrow> (st, None)
           | Some (fl, server) \<Rightarrow>
               (case end_flight e fl up (cl_proxy st) of
                  (p, out) \<Rightarrow> (st\<lparr>cl_proxy := p, cl_flights := AList.delete i (cl_flights st)\<rparr>, Some out))))"

fun client_run :: "client_event list \<Rightarrow> client_state \<Rightarrow> client_state \<times> outcome option list" where
  "client_run [] st = (st, [])"
| "client_run (ev # evs) st =
     (case client_step ev st of
        (st1, out) \<Rightarrow> (case client_run evs st1 of (st2, outs) \<Rightarrow> (st2, out # outs)))"

definition client_start :: "json option \<Rightarrow> json option \<Rightarrow> string option \<Rightarrow> nat \<Rightarrow> client_state" where
  "client_start cfg_file ses_file fav port = \<lparr>cl_proxy = newProxy cfg_file ses_file fav port, cl_flights = [], cl_next = 0\<rparr>"

end
