(* ===== verification/Client_Tunnel.thy ===== *)
theory Client_Tunnel
  imports Client_Proxy Websocket "HOL-Library.Sublist"
begin

text \<open>
  client-app/proxy.go, \<open>handleWSProxy\<close>: the upgrade request to the server, its answer read through a buffered reader, and
  the two copies that follow. A connection is what its reads deliver: a list of chunks, of which a read with room for
  \<open>n\<close> bytes takes at most \<open>n\<close>.
\<close>

section \<open>The request to the server\<close>

definition ws_host :: "go_url \<Rightarrow> string" where
  "ws_host target =
     (if CHR '':'' \<in> set (u_Host target) then u_Host target
      else if u_Scheme target = ''https'' then u_Host target @ '':443'' else u_Host target @ '':80'')"

definition ws_tls :: "go_url \<Rightarrow> bool" where
  "ws_tls target \<longleftrightarrow> u_Scheme target = ''https''"

text \<open>The headers of the browser's request, which hold the cookies already, get the cookies once more and lose \<open>Origin\<close>.\<close>

definition ws_request :: "go_url \<Rightarrow> request \<Rightarrow> SessionStore \<Rightarrow> up_request option" where
  "ws_request target r s =
     (case inject s (rq_Headers r) of
        None \<Rightarrow> None
      | Some hs \<Rightarrow>
          Some \<lparr>uq_Method = ''GET'', uq_URL = PartsURL (u_Scheme target) (u_Host target) (rq_Path r) (rq_RawQuery r),
                uq_Headers = hdr_del hs ''Origin'', uq_Body = BodyEmpty\<rparr>)"

section \<open>The buffered reader\<close>

definition bufio_size :: nat where "bufio_size = 4096"

text \<open>One read of a connection with room for \<open>n\<close> bytes.\<close>

fun conn_read :: "nat \<Rightarrow> bytes list \<Rightarrow> (bytes \<times> bytes list) option" where
  "conn_read n [] = None"
| "conn_read n (c # cs) = Some (take n c, if n < length c then drop n c # cs else cs)"

text \<open>What is left in a connection, counting reads that deliver nothing.\<close>

definition conn_size :: "bytes list \<Rightarrow> nat" where
  "conn_size cs = sum_list (map (\<lambda>c. Suc (length c)) cs)"

lemma conn_read_shorter: "0 < n \<Longrightarrow> conn_read n cs = Some (b, cs') \<Longrightarrow> conn_size cs' < conn_size cs"
  by (cases cs) (auto simp: conn_size_def)

lemma conn_read_bytes: "conn_read n cs = Some (b, cs') \<Longrightarrow> b @ concat cs' = concat cs \<and> length b \<le> n"
  by (cases cs) (auto simp flip: append_assoc split: if_splits)

text \<open>
  \<open>ReadLine\<close>: the bytes up to the next newline, without it. The state is what the buffer holds unread; a full buffer
  without a newline is given out and the line goes on.
\<close>

function buf_line :: "bytes \<Rightarrow> bytes \<Rightarrow> bytes list \<Rightarrow> (bytes \<times> bytes \<times> bytes list) option" where
  "buf_line acc buf conn =
     (if 10 \<in> set buf then
        Some (acc @ takeWhile (\<lambda>b. b \<noteq> 10) buf, tl (dropWhile (\<lambda>b. b \<noteq> 10) buf), conn)
      else if bufio_size \<le> length buf then buf_line (acc @ buf) [] conn
      else (case conn_read (bufio_size - length buf) conn of
          None \<Rightarrow> None
        | Some (b, conn') \<Rightarrow> buf_line acc (buf @ b) conn'))"
  by pat_completeness auto
termination
  by (relation "measures [\<lambda>(acc, buf, conn). conn_size conn, \<lambda>(acc, buf, conn). length buf]")
    (auto simp: bufio_size_def dest: conn_read_shorter [rotated])

declare buf_line.simps [simp del]

lemma split_at_newline: "10 \<in> set bs \<Longrightarrow> bs = takeWhile (\<lambda>b. b \<noteq> 10) bs @ (10 :: byte) # tl (dropWhile (\<lambda>b. b \<noteq> 10) bs)"
  by (induction bs) auto

text \<open>No byte is lost in the reader: the line, its newline, the buffer and the connection are all there was.\<close>

lemma buf_line_bytes:
  "buf_line acc buf conn = Some (l, buf', conn') \<Longrightarrow>
     acc @ buf @ concat conn = l @ 10 # buf' @ concat conn'"
proof (induction acc buf conn arbitrary: l buf' conn' rule: buf_line.induct)
  case (1 acc buf conn)
  consider (line) "10 \<in> set buf" | (full) "10 \<notin> set buf" "bufio_size \<le> length buf"
    | (fill) b conn1 where "10 \<notin> set buf" "\<not> bufio_size \<le> length buf"
        "conn_read (bufio_size - length buf) conn = Some (b, conn1)"
    using "1.prems" by (fastforce simp: buf_line.simps [of acc buf conn] split: if_splits option.splits)
  then show ?case
  proof cases
    case line
    with "1.prems" split_at_newline [OF line] show ?thesis
      by (auto simp: buf_line.simps [of acc buf conn])
  next
    case full
    with "1.prems" "1.IH"(1) [of l buf' conn'] show ?thesis by (simp add: buf_line.simps [of acc buf conn])
  next
    case fill
    with "1.prems" "1.IH"(2) [of "(b, conn1)" b conn1 l buf' conn'] conn_read_bytes [OF fill(3)] show ?thesis
      by (simp add: buf_line.simps [of acc buf conn])
  qed
qed

lemma buf_line_room:
  "buf_line acc buf conn = Some (l, buf', conn') \<Longrightarrow> length buf \<le> bufio_size \<Longrightarrow> length buf' < bufio_size"
proof (induction acc buf conn arbitrary: l buf' conn' rule: buf_line.induct)
  case (1 acc buf conn)
  show ?case
  proof (cases "10 \<in> set buf")
    case True
    with "1.prems" have "buf' = tl (dropWhile (\<lambda>b. b \<noteq> 10) buf)" by (simp add: buf_line.simps [of acc buf conn])
    moreover from arg_cong [OF split_at_newline [OF True], of length]
    have "length (tl (dropWhile (\<lambda>b. b \<noteq> 10) buf)) < length buf" by simp
    ultimately show ?thesis using "1.prems"(2) by simp
  next
    case False
    show ?thesis
    proof (cases "bufio_size \<le> length buf")
      case True
      with False "1.prems" "1.IH"(1) [OF False True, of l buf' conn'] show ?thesis
        by (simp add: buf_line.simps [of acc buf conn])
    next
      case short: False
      with False "1.prems"(1) obtain b conn1 where r: "conn_read (bufio_size - length buf) conn = Some (b, conn1)"
          "buf_line acc (buf @ b) conn1 = Some (l, buf', conn')"
        by (auto simp: buf_line.simps [of acc buf conn] split: option.splits)
      have "length (buf @ b) \<le> bufio_size" using conn_read_bytes [OF r(1)] short by auto
      with "1.IH"(2) [OF False short r(1) refl r(2)] show ?thesis by simp
    qed
  qed
qed

section \<open>The answer of the server\<close>

text \<open>\<open>http.ReadResponse\<close>: the status line, then header lines up to an empty one. A line loses one carriage return.\<close>

definition trim_cr :: "bytes \<Rightarrow> bytes" where
  "trim_cr l = (if l \<noteq> [] \<and> last l = 13 then butlast l else l)"

function head_lines :: "bytes \<Rightarrow> bytes list \<Rightarrow> (bytes list \<times> bytes \<times> bytes list) option" where
  "head_lines buf conn =
     (case buf_line [] buf conn of
        None \<Rightarrow> None
      | Some (l, buf', conn') \<Rightarrow>
          if trim_cr l = [] then Some ([], buf', conn')
          else (case head_lines buf' conn' of
              None \<Rightarrow> None
            | Some (ls, buf'', conn'') \<Rightarrow> Some (trim_cr l # ls, buf'', conn'')))"
  by pat_completeness auto

lemma buf_line_size:
  assumes "buf_line [] buf conn = Some (l, buf', conn')"
  shows "length (buf' @ concat conn') < length (buf @ concat conn)"
  using arg_cong [OF buf_line_bytes [OF assms], of length] by simp

termination head_lines
  by (relation "measure (\<lambda>(buf, conn). length (buf @ concat conn))") (auto dest!: buf_line_size simp del: length_append)

declare head_lines.simps [simp del]

text \<open>Header lines: a name of token characters and spaces before a colon, and no control character in the value.\<close>

definition token_char :: "char \<Rightarrow> bool" where
  "token_char c \<longleftrightarrow> is_digit c \<or> c \<in> set ''abcdefghijklmnopqrstuvwxyzABCDEFGHIJKLMNOPQRSTUVWXYZ'' \<or> c \<in> set ''!#$%&*+-.^_|~''
     \<or> c = CHR 0x27 \<or> c = CHR 0x60"

definition value_char :: "char \<Rightarrow> bool" where
  "value_char c \<longleftrightarrow> c = CHR 0x09 \<or> (0x20 \<le> (of_char c :: nat) \<and> (of_char c :: nat) \<noteq> 0x7F)"

definition folded :: "string \<Rightarrow> bool" where
  "folded l \<longleftrightarrow> l \<noteq> [] \<and> (hd l = CHR '' '' \<or> hd l = CHR 0x09)"

definition header_ok :: "string \<Rightarrow> bool" where
  "header_ok l \<longleftrightarrow> CHR '':'' \<in> set l \<and> list_all (\<lambda>c. token_char c \<or> c = CHR '' '') (takeWhile (\<lambda>c. c \<noteq> CHR '':'') l)
     \<and> list_all value_char (tl (dropWhile (\<lambda>c. c \<noteq> CHR '':'') l))"

definition headers_ok :: "string list \<Rightarrow> bool" where
  "headers_ok ls \<longleftrightarrow> (case ls of [] \<Rightarrow> True
     | l # ls' \<Rightarrow> header_ok l \<and> list_all (\<lambda>x. if folded x then list_all value_char x else header_ok x) ls')"

definition http_version_ok :: "string \<Rightarrow> bool" where
  "http_version_ok v \<longleftrightarrow> has_prefix v ''HTTP/'' \<and> length v = 8 \<and> v ! 6 = CHR ''.'' \<and> is_digit (v ! 5) \<and> is_digit (v ! 7)"

definition status_code :: "string \<Rightarrow> int option" where
  "status_code l =
     (if CHR '' '' \<in> set l \<and> http_version_ok (takeWhile (\<lambda>c. c \<noteq> CHR '' '') l) then
        (let code = takeWhile (\<lambda>c. c \<noteq> CHR '' '') (trim_left CHR '' '' (tl (dropWhile (\<lambda>c. c \<noteq> CHR '' '') l)))
         in if length code = 3 then (case atoi code of Some n \<Rightarrow> if 0 \<le> n then Some n else None | None \<Rightarrow> None) else None)
      else None)"

record ws_answer =
  wa_code :: int
  wa_head :: "string list"
  wa_buf :: bytes
  wa_conn :: "bytes list"

definition ReadResponse :: "bytes list \<Rightarrow> ws_answer option" where
  "ReadResponse conn =
     (case buf_line [] [] conn of
        None \<Rightarrow> None
      | Some (l, buf, conn1) \<Rightarrow>
          (case (status_code (str_of_bytes (trim_cr l)), head_lines buf conn1) of
             (Some code, Some (ls, buf', conn')) \<Rightarrow>
               (if headers_ok (map str_of_bytes ls)
                then Some \<lparr>wa_code = code, wa_head = map str_of_bytes (trim_cr l # ls), wa_buf = buf', wa_conn = conn'\<rparr>
                else None)
           | _ \<Rightarrow> None))"

section \<open>The handler\<close>

text \<open>What the handler meets: the error of the dial, with TLS or without, to a host and port, the connection, the error of a bad answer, that of taking over.\<close>

record ws_env =
  we_dial :: "bool \<Rightarrow> string \<Rightarrow> string option"
  we_conn :: "bytes list"
  we_read_err :: string
  we_hijack :: "string option"

text \<open>
  It ends in a response, a crash or a wait for the session's mutex, or opens the tunnel: the request it wrote, the head
  it forwards to the browser, and the connection from which it copies.
\<close>

datatype tunnel_start =
    TunnelRefused response
  | TunnelCrash
  | TunnelHang
  | TunnelOpen up_request "string list" "bytes list"

definition handleWSProxy :: "ws_env \<Rightarrow> go_url \<Rightarrow> request \<Rightarrow> SessionStore \<Rightarrow> tunnel_start" where
  "handleWSProxy we target r s =
     (case we_dial we (ws_tls target) (ws_host target) of
        Some err \<Rightarrow> TunnelRefused (http_error (''upstream dial failed: '' @ err) 502)
      | None \<Rightarrow>
          (case ws_request target r s of
             None \<Rightarrow> TunnelHang
           | Some q \<Rightarrow>
               (case ReadResponse (we_conn we) of
                  None \<Rightarrow> TunnelRefused (http_error (''upstream WS handshake failed: '' @ we_read_err we) 502)
                | Some a \<Rightarrow>
                    if wa_code a \<noteq> 101 then
                      (if wa_code a < 100 \<or> 999 < wa_code a then TunnelCrash
                       else TunnelRefused (http_error ''upstream WS handshake failed: <nil>'' (wa_code a)))
                    else (case we_hijack we of
                        Some err \<Rightarrow> TunnelRefused (http_error (''hijack failed: '' @ err) 500)
                      | None \<Rightarrow> TunnelOpen q (wa_head a) (wa_conn a)))))"

text \<open>
  The two copies, in an order of their reads: \<open>True\<close> reads from the server. The first end of a connection closes both.
\<close>

definition copy_size :: nat where "copy_size = 32768"

fun tunnel :: "bool list \<Rightarrow> bytes list \<Rightarrow> bytes list \<Rightarrow> bytes \<times> bytes" where
  "tunnel [] up cl = ([], [])"
| "tunnel (True # sched) up cl =
     (case conn_read copy_size up of
        None \<Rightarrow> ([], [])
      | Some (b, up') \<Rightarrow> (case tunnel sched up' cl of (to_cl, to_up) \<Rightarrow> (b @ to_cl, to_up)))"
| "tunnel (False # sched) up cl =
     (case conn_read copy_size cl of
        None \<Rightarrow> ([], [])
      | Some (b, cl') \<Rightarrow> (case tunnel sched up cl' of (to_cl, to_up) \<Rightarrow> (to_cl, b @ to_up)))"

text \<open>Each side gets a beginning of what the other sent, and all of it when enough is read.\<close>

lemma tunnel_read:
  "conn_read copy_size up = Some (b, up') \<Longrightarrow>
     tunnel (True # sched) up cl = (b @ fst (tunnel sched up' cl), snd (tunnel sched up' cl))"
  "conn_read copy_size cl = Some (b, cl') \<Longrightarrow>
     tunnel (False # sched) up cl = (fst (tunnel sched up cl'), b @ snd (tunnel sched up cl'))"
  by (simp_all split: prod.split)

lemma tunnel_prefix:
  "prefix (fst (tunnel sched up cl)) (concat up) \<and> prefix (snd (tunnel sched up cl)) (concat cl)"
proof (induction sched arbitrary: up cl)
  case (Cons d sched)
  show ?case
  proof (cases "conn_read copy_size (if d then up else cl)")
    case None
    then show ?thesis by (cases d) simp_all
  next
    case (Some x)
    obtain b c where "x = (b, c)" by (cases x)
    with Some have r: "conn_read copy_size (if d then up else cl) = Some (b, c)" by simp
    from conn_read_bytes [OF r] have c: "concat (if d then up else cl) = b @ concat c" by simp
    show ?thesis
    proof (cases d)
      case True
      with r c Cons.IH [of c cl] show ?thesis by (simp add: tunnel_read del: tunnel.simps)
    next
      case False
      with r c Cons.IH [of up c] show ?thesis by (simp add: tunnel_read del: tunnel.simps)
    qed
  qed
qed simp

lemma tunnel_delivers: "\<exists>n. fst (tunnel (replicate n True) up cl) = concat up"
proof (induction "conn_size up" arbitrary: up rule: less_induct)
  case less
  show ?case
  proof (cases up)
    case (Cons c cs)
    then obtain b up' where r: "conn_read copy_size up = Some (b, up')" by simp
    then have "conn_size up' < conn_size up" by (intro conn_read_shorter) (simp_all add: copy_size_def)
    from less [OF this] obtain n where "fst (tunnel (replicate n True) up' cl) = concat up'" ..
    with r conn_read_bytes [OF r] have "fst (tunnel (replicate (Suc n) True) up cl) = concat up"
      by (auto split: prod.split)
    then show ?thesis ..
  qed (simp add: exI [of _ 0])
qed

section \<open>A head that comes with the bytes after it\<close>

lemma buf_line_buffered: "10 \<notin> set l \<Longrightarrow> buf_line acc (l @ 10 # rest) conn = Some (acc @ l, rest, conn)"
proof -
  assume l: "10 \<notin> set l"
  then have "\<forall>b \<in> set l. b \<noteq> 10" by auto
  then have "takeWhile (\<lambda>b. b \<noteq> 10) (l @ 10 # rest) = l" "dropWhile (\<lambda>b. b \<noteq> 10) (l @ 10 # rest) = 10 # rest"
    by simp_all
  then show ?thesis by (simp add: buf_line.simps)
qed

lemma buf_line_first:
  assumes "length c \<le> bufio_size" "10 \<in> set c"
  shows "buf_line [] [] (c # later) = buf_line [] c later"
  using assms by (subst buf_line.simps) (simp add: bufio_size_def)

text \<open>A line of the head, and the head: every line with its carriage return and newline, then an empty line.\<close>

definition head_line :: "bytes \<Rightarrow> bool" where
  "head_line l \<longleftrightarrow> l \<noteq> [] \<and> 10 \<notin> set l"

definition head_bytes :: "bytes list \<Rightarrow> bytes" where
  "head_bytes ls = concat (map (\<lambda>l. l @ [13, 10]) ls) @ [13, 10]"

lemma trim_cr_cr [simp]: "trim_cr (l @ [13]) = l" "trim_cr [13] = []"
  by (simp_all add: trim_cr_def)

lemma head_lines_buffered:
  "list_all head_line ls \<Longrightarrow> head_lines (head_bytes ls @ rest) conn = Some (ls, rest, conn)"
proof (induction ls)
  case Nil
  have "buf_line [] ([13] @ 10 # rest) conn = Some ([13], rest, conn)"
    using buf_line_buffered [of "[13]" "[]" rest conn] by simp
  then show ?case by (simp add: head_lines.simps [of "13 # 10 # rest"] head_bytes_def)
next
  case (Cons l ls)
  then have l: "10 \<notin> set (l @ [13])" "l \<noteq> []" by (simp_all add: head_line_def)
  have e: "head_bytes (l # ls) @ rest = (l @ [13]) @ 10 # (head_bytes ls @ rest)" by (simp add: head_bytes_def)
  from buf_line_buffered [OF l(1), of "[]" "head_bytes ls @ rest" conn]
  have "buf_line [] (head_bytes (l # ls) @ rest) conn = Some (l @ [13], head_bytes ls @ rest, conn)" unfolding e by simp
  with l Cons show ?case by (simp add: head_lines.simps [of "head_bytes (l # ls) @ rest"])
qed

lemma ReadResponse_one_chunk:
  assumes "status_code (str_of_bytes l) = Some code" "headers_ok (map str_of_bytes hs)" "list_all head_line (l # hs)"
    and "length (head_bytes (l # hs) @ early) \<le> bufio_size"
  shows "ReadResponse ((head_bytes (l # hs) @ early) # later)
     = Some \<lparr>wa_code = code, wa_head = map str_of_bytes (l # hs), wa_buf = early, wa_conn = later\<rparr>"
proof -
  have l: "10 \<notin> set (l @ [13])" using assms(3) by (simp add: head_line_def)
  have e: "head_bytes (l # hs) @ early = (l @ [13]) @ 10 # (head_bytes hs @ early)" by (simp add: head_bytes_def)
  have "buf_line [] [] ((head_bytes (l # hs) @ early) # later) = Some (l @ [13], head_bytes hs @ early, later)"
    using buf_line_first [OF assms(4), of later] buf_line_buffered [OF l, of "[]" "head_bytes hs @ early" later]
    unfolding e by simp
  then show ?thesis using assms(1-3) head_lines_buffered [of hs early later] by (simp add: ReadResponse_def)
qed

text \<open>However the answer is cut into reads, what the tunnel misses is less than one buffer.\<close>

lemma head_lines_bytes:
  "head_lines buf conn = Some (ls, buf', conn') \<Longrightarrow>
     (\<exists>head. buf @ concat conn = head @ buf' @ concat conn') \<and> (length buf < bufio_size \<longrightarrow> length buf' < bufio_size)"
proof (induction buf conn arbitrary: ls buf' conn' rule: head_lines.induct)
  case (1 buf conn)
  from "1.prems" obtain l b1 c1 where b: "buf_line [] buf conn = Some (l, b1, c1)"
    by (auto simp: head_lines.simps [of buf] split: option.splits)
  note bytes = buf_line_bytes [OF b]
  have room: "length buf < bufio_size \<Longrightarrow> length b1 < bufio_size" using buf_line_room [OF b] by simp
  show ?case
  proof (cases "trim_cr l = []")
    case True
    with "1.prems" b have "buf' = b1" "conn' = c1" by (simp_all add: head_lines.simps [of buf])
    with bytes room show ?thesis by (auto intro: exI [of _ "l @ [10]"])
  next
    case False
    with "1.prems" b obtain ls' where h: "head_lines b1 c1 = Some (ls', buf', conn')"
      by (auto simp: head_lines.simps [of buf] split: option.splits)
    from "1.IH" [OF b _ _ False h] obtain head where "b1 @ concat c1 = head @ buf' @ concat conn'"
      "length b1 < bufio_size \<longrightarrow> length buf' < bufio_size" by auto
    with bytes room show ?thesis by (auto intro: exI [of _ "l @ 10 # head"])
  qed
qed

lemma ReadResponse_bytes:
  assumes "ReadResponse conn = Some a"
  shows "(\<exists>head. concat conn = head @ wa_buf a @ concat (wa_conn a)) \<and> length (wa_buf a) < bufio_size"
proof -
  from assms obtain l b c code ls b' c' where b: "buf_line [] [] conn = Some (l, b, c)"
    and h: "head_lines b c = Some (ls, b', c')" and a: "wa_buf a = b'" "wa_conn a = c'"
    by (auto simp: ReadResponse_def split: option.splits prod.splits if_splits)
  from head_lines_bytes [OF h] buf_line_room [OF b] obtain head where "b @ concat c = head @ b' @ concat c'"
    "length b' < bufio_size" by (auto simp: bufio_size_def)
  with buf_line_bytes [OF b] a show ?thesis by (auto intro: exI [of _ "l @ 10 # head"])
qed

end
