(* ===== verification/Client_Inv.thy ===== *)
theory Client_Inv
  imports Client_Tunnel
begin

text \<open>
  What the steps of the client application do to its session and its configuration: the session stays a cookie jar, it
  is emptied when the server changes, and only answers add to it. The files follow the state as long as they are written.
\<close>

section \<open>The answer steps\<close>

fun answer_cookies :: "flight \<Rightarrow> upstream \<Rightarrow> set_cookie list" where
  "answer_cookies FlLogout up = []"
| "answer_cookies fl (UpFailed err) = []"
| "answer_cookies fl (UpAnswer a) = an_Cookies a"

lemma keep_cookies_jar:
  assumes "jar_ok (px_session p)" "keep_cookies e cs p = (p1, v)"
  shows "v = Returns \<and> p1 = (if cs = [] then p else p\<lparr>px_session := fst (setCookies (ce_disk_ses e) (px_session p) cs)\<rparr>)"
  using assms setCookies_ok [OF assms(1), of "ce_disk_ses e" cs]
  by (auto simp: keep_cookies_def split: if_splits prod.splits)

lemma after_keep:
  assumes "jar_ok (px_session p)"
  shows "after_cookies (keep_cookies e cs p) k
     = k (if cs = [] then p else p\<lparr>px_session := fst (setCookies (ce_disk_ses e) (px_session p) cs)\<rparr>)"
proof -
  obtain p1 v where "keep_cookies e cs p = (p1, v)" by (cases "keep_cookies e cs p")
  with keep_cookies_jar [OF assms this] show ?thesis by (simp add: after_cookies_def)
qed

lemma end_logout_jar:
  "jar_ok (px_session p) \<Longrightarrow>
     end_logout e p = (p\<lparr>px_session := fst (clear_session (ce_disk_ses e) (px_session p))\<rparr>,
                       Respond (json_response (go_map [(''ok'', JBool True)])))"
  using clear_session_ok [of "px_session p" "ce_disk_ses e"]
  by (cases "clear_session (ce_disk_ses e) (px_session p)") (simp add: end_logout_def)

lemma end_flight_config [simp]:
  "px_cfg (fst (end_flight e fl up p)) = px_cfg p" "px_cfg_file (fst (end_flight e fl up p)) = px_cfg_file p"
proof -
  have k: "px_cfg (fst (keep_cookies e cs p)) = px_cfg p \<and> px_cfg_file (fst (keep_cookies e cs p)) = px_cfg_file p" for cs
    by (simp add: keep_cookies_def split: prod.split)
  have a: "px_cfg (fst (after_cookies pv k)) = px_cfg (fst pv) \<and> px_cfg_file (fst (after_cookies pv k)) = px_cfg_file (fst pv)"
    if "\<And>p. px_cfg (fst (k p)) = px_cfg p \<and> px_cfg_file (fst (k p)) = px_cfg_file p" for pv k
    using that by (simp add: after_cookies_def split: prod.split verdict.split)
  have "px_cfg (fst (end_flight e fl up p)) = px_cfg p \<and> px_cfg_file (fst (end_flight e fl up p)) = px_cfg_file p"
    by (cases fl; cases up)
      (simp_all add: end_flight_def end_logout_def end_sso_init_def end_sso_callback_def end_proxy_def a k
        split: prod.split verdict.split option.split)
  then show "px_cfg (fst (end_flight e fl up p)) = px_cfg p" "px_cfg_file (fst (end_flight e fl up p)) = px_cfg_file p"
    by simp_all
qed

lemma end_flight_session:
  assumes "jar_ok (px_session p)"
  shows "px_session (fst (end_flight e fl up p)) =
     (if fl = FlLogout then fst (clear_session (ce_disk_ses e) (px_session p))
      else if answer_cookies fl up = [] then px_session p
      else fst (setCookies (ce_disk_ses e) (px_session p) (answer_cookies fl up)))"
  by (cases fl; cases up)
    (simp_all add: end_flight_def end_logout_jar [OF assms] end_sso_init_def end_sso_callback_def end_proxy_def
      after_keep [OF assms] split: option.split)

section \<open>The request steps\<close>

lemma show_config_fst [simp]: "fst (show_config p) = p"
  by (simp add: show_config_def split: option.split)

lemma set_server_jar:
  assumes "jar_ok (px_session p)"
  shows "set_server e url p = (p\<lparr>px_cfg := (px_cfg p)\<lparr>cc_ServerURL := trim_right CHR ''/'' url\<rparr>,
      px_session := fst (clear_session (ce_disk_ses e) (px_session p))\<rparr>, Returns)"
  using clear_session_ok [OF assms, of "ce_disk_ses e"]
  by (cases "clear_session (ce_disk_ses e) (px_session p)") (simp add: set_server_def)

text \<open>The change of the server that a request makes, if it makes one.\<close>

definition new_server :: "client_env \<Rightarrow> request \<Rightarrow> Proxy \<Rightarrow> string option" where
  "new_server e r p =
     (let url = fst (posted_config e r)
      in if rq_Method r = ''POST'' \<and> url \<noteq> [] \<and> url \<noteq> cc_ServerURL (px_cfg p) then Some (trim_right CHR ''/'' url) else None)"

lemma handleConfig_eq:
  assumes "jar_ok (px_session p)"
  shows "handleConfig e r p = show_config
     (case new_server e r p of
        Some url \<Rightarrow> set_user e (snd (posted_config e r)) True
            (p\<lparr>px_cfg := (px_cfg p)\<lparr>cc_ServerURL := url\<rparr>,
               px_session := fst (clear_session (ce_disk_ses e) (px_session p))\<rparr>)
      | None \<Rightarrow> if rq_Method r = ''POST'' then set_user e (snd (posted_config e r)) False p else p)"
  by (cases "posted_config e r") (simp add: handleConfig_def new_server_def set_server_jar [OF assms])

lemma set_user_simps [simp]:
  "px_session (set_user e u ch p) = px_session p"
  "cc_ServerURL (px_cfg (set_user e u ch p)) = cc_ServerURL (px_cfg p)"
  "px_sso (set_user e u ch p) = px_sso p"
  by (simp_all add: set_user_def saveConfig_def Let_def)

lemma handleProxy_fst [simp]: "fst (handleProxy e r p) = p"
  by (simp add: handleProxy_def Let_def split: option.split)

lemma handleSso_fst: "fst (handleSsoCallback e r p) = p \<or> fst (handleSsoCallback e r p) = p\<lparr>px_sso := None\<rparr>"
  by (simp add: handleSsoCallback_def Let_def split: option.split)

lemma handleFavorites_fst: "\<exists>f. fst (handleFavorites e r p) = p\<lparr>px_fav_file := f\<rparr>"
proof -
  have "\<exists>f. p = p\<lparr>px_fav_file := f\<rparr>" by (rule exI [of _ "px_fav_file p"]) simp
  then show ?thesis by (auto simp: handleFavorites_def Let_def split: option.split)
qed

lemma handleLogout_fst:
  "jar_ok (px_session p) \<Longrightarrow> fst (handleLogout e p) = p
     \<or> fst (handleLogout e p) = p\<lparr>px_session := fst (clear_session (ce_disk_ses e) (px_session p))\<rparr>"
  by (simp add: handleLogout_def Let_def end_logout_jar inject_ok)

text \<open>What a request does to the state, handler by handler.\<close>

lemma ServeHTTP_cases:
  assumes "jar_ok (px_session p)"
  obtains (same) "px_session (fst (ServeHTTP e r p)) = px_session p" "px_cfg (fst (ServeHTTP e r p)) = px_cfg p"
      "px_cfg_file (fst (ServeHTTP e r p)) = px_cfg_file p"
  | (logout) "px_session (fst (ServeHTTP e r p)) = fst (clear_session (ce_disk_ses e) (px_session p))"
      "px_cfg (fst (ServeHTTP e r p)) = px_cfg p" "px_cfg_file (fst (ServeHTTP e r p)) = px_cfg_file p"
  | (config) "rq_Method r \<noteq> ''OPTIONS''" "route_of (rq_Path r) = RConfig" "fst (ServeHTTP e r p) = fst (handleConfig e r p)"
proof (cases "rq_Method r = ''OPTIONS''")
  case True
  with same show ?thesis by (simp add: ServeHTTP_def)
next
  case False
  then have m: "ServeHTTP e r p = mux e r p" by (simp add: ServeHTTP_def)
  show ?thesis
  proof (cases "route_of (rq_Path r)")
    case RConfig
    with config False m show ?thesis by (simp add: mux_def)
  next
    case RLogout
    with m handleLogout_fst [OF assms, of e] same logout show ?thesis by (auto simp: mux_def)
  next
    case RFavorites
    with m handleFavorites_fst [of e r p] same show ?thesis by (auto simp: mux_def)
  next
    case RSso
    with m handleSso_fst [of e r p] same show ?thesis by (auto simp: mux_def)
  qed (use m same in \<open>simp_all add: mux_def handleUI_def\<close>)
qed

lemma ServeHTTP_session:
  assumes "jar_ok (px_session p)"
  shows "px_session (fst (ServeHTTP e r p)) \<in> {px_session p, fst (clear_session (ce_disk_ses e) (px_session p))}"
    and "cc_ServerURL (px_cfg (fst (ServeHTTP e r p))) \<noteq> cc_ServerURL (px_cfg p) \<Longrightarrow>
      px_session (fst (ServeHTTP e r p)) = fst (clear_session (ce_disk_ses e) (px_session p))"
proof -
  let ?c = "fst (clear_session (ce_disk_ses e) (px_session p))" and ?p = "fst (ServeHTTP e r p)"
  have h: "px_session (fst (handleConfig e r p)) = (case new_server e r p of Some u \<Rightarrow> ?c | None \<Rightarrow> px_session p)"
    "cc_ServerURL (px_cfg (fst (handleConfig e r p))) = (case new_server e r p of Some u \<Rightarrow> u | None \<Rightarrow> cc_ServerURL (px_cfg p))"
    by (simp_all add: handleConfig_eq [OF assms] split: option.split)
  show "px_session ?p \<in> {px_session p, ?c}"
    by (cases rule: ServeHTTP_cases [OF assms, of e r]) (simp_all add: h split: option.split)
  show "px_session ?p = ?c" if "cc_ServerURL (px_cfg ?p) \<noteq> cc_ServerURL (px_cfg p)"
    using that by (cases rule: ServeHTTP_cases [OF assms, of e r]) (simp_all add: h split: option.splits)
qed

lemma start_flight_proxy [simp]: "cl_proxy (start_flight server out st) = cl_proxy st"
  by (simp add: start_flight_def split: outcome.split)

lemma client_step_proxy:
  "cl_proxy (fst (client_step (Request e r) st)) = fst (ServeHTTP e r (cl_proxy st))"
  "cl_proxy (fst (client_step (Answer e i up) st)) =
     (case map_of (cl_flights st) i of None \<Rightarrow> cl_proxy st | Some (fl, server) \<Rightarrow> fst (end_flight e fl up (cl_proxy st)))"
  by (simp_all add: client_step_def split: prod.split option.split)

lemma client_run_Cons:
  "fst (client_run (ev # evs) st) = fst (client_run evs (fst (client_step ev st)))"
  "snd (client_run (ev # evs) st) = snd (client_step ev st) # snd (client_run evs (fst (client_step ev st)))"
  by (simp_all split: prod.split)

lemma client_step_jar:
  assumes "jar_ok (px_session (cl_proxy st))"
  shows "jar_ok (px_session (cl_proxy (fst (client_step ev st))))"
proof (cases ev)
  case (Request e r)
  with ServeHTTP_session(1) [OF assms, of e r] assms jar.wipe_ok [OF assms, of "ce_disk_ses e"] show ?thesis
    by (auto simp: client_step_proxy)
next
  case (Answer e i up)
  have "jar_ok (px_session (fst (end_flight e fl up (cl_proxy st))))" for fl
    using assms by (simp add: end_flight_session jar.wipe_ok jar.store_ok)
  with Answer assms show ?thesis by (simp add: client_step_proxy split: option.split prod.split)
qed

lemma client_run_jar:
  "jar_ok (px_session (cl_proxy st)) \<Longrightarrow> jar_ok (px_session (cl_proxy (fst (client_run evs st))))"
proof (induction evs arbitrary: st)
  case (Cons ev evs)
  from Cons.IH [OF client_step_jar [OF Cons.prems, of ev]] show ?case by (simp only: client_run_Cons)
qed simp

end
