(* ===== verification/Client_Props.thy ===== *)
theory Client_Props
  imports Client_Inv
begin

text \<open>
  The properties of the client application: what survives a restart, which server a cookie reaches, the single sign-on
  flow, and what the WebSocket tunnel delivers.
\<close>

section \<open>The files follow the state\<close>

definition persisted :: "Proxy \<Rightarrow> bool" where
  "persisted p \<longleftrightarrow> jar_ok (px_session p) \<and> client_dec_config (px_cfg_file p) = px_cfg p
     \<and> jar_ok (loadSession (session_file (px_session p)))
     \<and> jar_get (loadSession (session_file (px_session p))) = jar_get (px_session p)"

text \<open>The files are written in full.\<close>

fun writable :: "client_event \<Rightarrow> bool" where
  "writable (Request e r) \<longleftrightarrow> ce_disk_cfg e = DiskOk \<and> ce_disk_ses e = DiskOk"
| "writable (Answer e i up) \<longleftrightarrow> ce_disk_cfg e = DiskOk \<and> ce_disk_ses e = DiskOk"

definition ses_persisted :: "SessionStore \<Rightarrow> bool" where
  "ses_persisted s \<longleftrightarrow> jar_ok s \<and> jar_ok (loadSession (session_file s)) \<and> jar_get (loadSession (session_file s)) = jar_get s"

lemma persisted_iff: "persisted p \<longleftrightarrow> ses_persisted (px_session p) \<and> client_dec_config (px_cfg_file p) = px_cfg p"
  by (auto simp: persisted_def ses_persisted_def)

lemma saved_persisted: "distinct (map fst m) \<Longrightarrow> \<not> held s \<Longrightarrow> ses_persisted (save_session DiskOk (s\<lparr>Cookies := Some m\<rparr>))"
proof -
  assume m: "distinct (map fst m)" "\<not> held s"
  have "cookie_list (save_session DiskOk (s\<lparr>Cookies := Some m\<rparr>)) = m" by simp
  moreover have "session_file (save_session DiskOk (s\<lparr>Cookies := Some m\<rparr>)) = Some (cookies_json (Some m))"
    by (simp add: save_session_def)
  ultimately show ?thesis using m session_reloads [OF m(1)] by (simp add: ses_persisted_def jar_ok_def jar_get_def)
qed

lemma cleared_persisted: "jar_ok s \<Longrightarrow> ses_persisted (fst (clear_session DiskOk s))"
  by (simp add: clear_session_def jar_ok_def saved_persisted)

lemma stored_persisted: "jar_ok s \<Longrightarrow> ses_persisted (fst (setCookies DiskOk s cs))"
proof -
  assume s: "jar_ok s"
  then obtain m where "Cookies s = Some m" "distinct (map fst m)" "\<not> held s" by (auto simp: jar_ok_def cookie_list_def)
  then show ?thesis by (simp add: setCookies_def saved_persisted set_ones_distinct)
qed

lemma client_config_reloads: "client_dec_config (Some (client_config_json c)) = c"
proof -
  have "to_lower ''serverUrl'' \<noteq> to_lower ''username''" by code_simp
  then show ?thesis by (simp add: client_dec_config_def client_config_json_def dec_string_def dec_field_def)
qed

lemma set_user_config:
  "ce_disk_cfg e = DiskOk \<Longrightarrow> ch \<or> client_dec_config (px_cfg_file p) = px_cfg p \<Longrightarrow>
     client_dec_config (px_cfg_file (set_user e u ch p)) = px_cfg (set_user e u ch p)"
  by (auto simp: set_user_def saveConfig_def Let_def client_config_reloads)

lemma ServeHTTP_persisted:
  assumes "persisted p" "ce_disk_cfg e = DiskOk" "ce_disk_ses e = DiskOk"
  shows "persisted (fst (ServeHTTP e r p))"
proof -
  have j: "jar_ok (px_session p)" and s: "ses_persisted (px_session p)" and c: "client_dec_config (px_cfg_file p) = px_cfg p"
    using assms(1) by (simp_all add: persisted_iff ses_persisted_def)
  show ?thesis
  proof (cases rule: ServeHTTP_cases [OF j, of e r])
    case 3
    have "persisted (fst (handleConfig e r p))"
      using s c assms(2,3) cleared_persisted [OF j]
      by (simp add: handleConfig_eq [OF j] persisted_iff set_user_config split: option.split)
    with 3 show ?thesis by simp
  qed (use s c assms(3) cleared_persisted [OF j] in \<open>simp_all add: persisted_iff\<close>)
qed

lemma end_flight_persisted:
  "persisted p \<Longrightarrow> ce_disk_ses e = DiskOk \<Longrightarrow> persisted (fst (end_flight e fl up p))"
  by (simp add: persisted_iff end_flight_session ses_persisted_def [of "px_session p"] cleared_persisted stored_persisted)

lemma client_run_persisted:
  "persisted (cl_proxy st) \<Longrightarrow> list_all writable evs \<Longrightarrow> persisted (cl_proxy (fst (client_run evs st)))"
proof (induction evs arbitrary: st)
  case (Cons ev evs)
  have "persisted (cl_proxy (fst (client_step ev st)))"
    using Cons.prems by (cases ev) (auto simp: client_step_proxy ServeHTTP_persisted end_flight_persisted split: option.split)
  with Cons show ?case by (simp only: client_run_Cons list.pred_inject)
qed simp

text \<open>
  C16. The client application can be closed at any moment: as long as its files can be written, starting it again loads
  the configuration and the cookies it had, whatever requests and answers came, in any order. The session file must not
  have held a null map at the first start.
\<close>

theorem client_restart_keeps_session:
  assumes "Cookies (loadSession ses) \<noteq> None" "list_all writable evs"
    and "p = cl_proxy (fst (client_run evs (client_start cfg ses fav port)))"
    and "p' = newProxy (px_cfg_file p) (session_file (px_session p)) (px_fav_file p) port'"
  shows "px_cfg p' = px_cfg p \<and> jar_get (px_session p') = jar_get (px_session p) \<and> hasCookies (px_session p') = hasCookies (px_session p)"
proof -
  have "jar_ok (loadSession ses)"
    using assms(1) loadSession_distinct [of ses] by (auto simp: jar_ok_def cookie_list_def loadSession_def split: option.split)
  then have "persisted (cl_proxy (client_start cfg ses fav port))"
    by (simp add: client_start_def newProxy_def persisted_def) (simp add: loadSession_def)
  from client_run_persisted [OF this assms(2)] have p: "persisted p" by (simp add: assms(3))
  then have j: "jar_get (px_session p') = jar_get (px_session p)" "jar_ok (px_session p')" "jar_ok (px_session p)" "px_cfg p' = px_cfg p"
    by (simp_all add: persisted_def assms(4) newProxy_def)
  then have "cookie_list (px_session p') = [] \<longleftrightarrow> cookie_list (px_session p) = []"
    by (metis jar_get_def map_of_eq_empty_iff)
  with j show ?thesis by (simp add: hasCookies_ok)
qed

section \<open>Where cookies come from and go to\<close>

text \<open>
  The cookies that answers set, each with the server it came from, along a run; and the runs in which the server is
  changed only while no request waits for an answer.
\<close>

definition log_answer :: "string \<Rightarrow> set_cookie list \<Rightarrow> (string \<times> string \<times> string) list" where
  "log_answer server cs = map (\<lambda>c. (server, ck_Name c, ck_Value c)) (filter (\<lambda>c. \<not> ck_MaxAge c < 0) cs)"

definition step_log :: "client_event \<Rightarrow> client_state \<Rightarrow> (string \<times> string \<times> string) list" where
  "step_log ev st =
     (case ev of
        Request e r \<Rightarrow> []
      | Answer e i up \<Rightarrow>
          (case map_of (cl_flights st) i of
             None \<Rightarrow> []
           | Some (fl, server) \<Rightarrow> log_answer server (answer_cookies fl up)))"

fun client_log :: "client_event list \<Rightarrow> client_state \<Rightarrow> (string \<times> string \<times> string) list" where
  "client_log [] st = []"
| "client_log (ev # evs) st = step_log ev st @ client_log evs (fst (client_step ev st))"

abbreviation cl_server :: "client_state \<Rightarrow> string" where
  "cl_server st \<equiv> cc_ServerURL (px_cfg (cl_proxy st))"

fun quiet_changes :: "client_event list \<Rightarrow> client_state \<Rightarrow> bool" where
  "quiet_changes [] st = True"
| "quiet_changes (ev # evs) st \<longleftrightarrow>
     (cl_server (fst (client_step ev st)) = cl_server st \<or> cl_flights st = []) \<and> quiet_changes evs (fst (client_step ev st))"

definition jar_entries :: "client_state \<Rightarrow> (string \<times> string \<times> string) list" where
  "jar_entries st = map (\<lambda>nv. (cl_server st, nv)) (cookie_list (px_session (cl_proxy st)))"

definition from_server :: "(string \<times> string \<times> string) list \<Rightarrow> client_state \<Rightarrow> bool" where
  "from_server log st \<longleftrightarrow> jar_ok (px_session (cl_proxy st))
     \<and> (\<forall>n v. jar_get (px_session (cl_proxy st)) n = Some v \<longrightarrow> (cl_server st, n, v) \<in> set log)
     \<and> (\<forall>i fl server. (i, fl, server) \<in> set (cl_flights st) \<longrightarrow> server = cl_server st)"

lemma Ask_keeps_config:
  assumes "jar_ok (px_session p)" "ServeHTTP e r p = (p1, Ask q fl)"
  shows "px_cfg p1 = px_cfg p"
proof (cases rule: ServeHTTP_cases [OF assms(1), of e r])
  case 3
  have "snd (handleConfig e r p) \<noteq> Ask q fl" by (simp add: handleConfig_eq [OF assms(1)] show_config_def split: option.split)
  with 3 assms(2) show ?thesis by (simp add: ServeHTTP_def mux_def)
qed (use assms(2) in simp_all)

lemma step_flights_Request:
  assumes "jar_ok (px_session (cl_proxy st))" "(i, fl, server) \<in> set (cl_flights (fst (client_step (Request e r) st)))"
  shows "(i, fl, server) \<in> set (cl_flights st) \<or> server = cl_server (fst (client_step (Request e r) st))"
proof -
  obtain p out where s: "ServeHTTP e r (cl_proxy st) = (p, out)" by (cases "ServeHTTP e r (cl_proxy st)")
  then have st: "fst (client_step (Request e r) st) = start_flight (cl_server st) out (st\<lparr>cl_proxy := p\<rparr>)"
    by (simp add: client_step_def)
  show ?thesis
  proof (cases out)
    case (Ask q fl')
    with s Ask_keeps_config [OF assms(1)] have "px_cfg p = px_cfg (cl_proxy st)" by blast
    with assms(2) st Ask show ?thesis by (auto simp: start_flight_def)
  qed (use assms(2) st in \<open>simp_all add: start_flight_def\<close>)
qed

lemma step_from_server:
  assumes "from_server log st" "cl_server (fst (client_step ev st)) = cl_server st \<or> cl_flights st = []"
  shows "from_server (log @ step_log ev st) (fst (client_step ev st))"
proof -
  let ?st' = "fst (client_step ev st)"
  have j: "jar_ok (px_session (cl_proxy st))" and j': "jar_ok (px_session (cl_proxy ?st'))"
    using assms(1) client_step_jar by (auto simp: from_server_def)
  show ?thesis
  proof (cases ev)
    case (Request e r)
    have "(cl_server ?st', n, v) \<in> set log" if "jar_get (px_session (cl_proxy ?st')) n = Some v" for n v
    proof (cases "px_session (cl_proxy ?st') = fst (clear_session (ce_disk_ses e) (px_session (cl_proxy st)))")
      case True
      with that jar.look_wipe [OF j, of "ce_disk_ses e" n] show ?thesis by simp
    next
      case False
      with ServeHTTP_session [OF j, of e r] Request have "px_session (cl_proxy ?st') = px_session (cl_proxy st)"
        "cl_server ?st' = cl_server st" by (auto simp: client_step_proxy)
      with that assms(1) show ?thesis by (simp add: from_server_def)
    qed
    moreover have "server = cl_server ?st'" if "(i, fl, server) \<in> set (cl_flights ?st')" for i fl server
      using step_flights_Request [OF j, of i fl server e r] that Request assms by (auto simp: from_server_def)
    ultimately show ?thesis using j' Request by (simp add: from_server_def step_log_def)
  next
    case (Answer e i up)
    have c: "cl_server ?st' = cl_server st" using Answer by (simp add: client_step_proxy split: option.split prod.split)
    have f: "set (cl_flights ?st') \<subseteq> set (cl_flights st)"
      using Answer by (auto simp: client_step_def AList.delete_eq split: option.split prod.split)
    show ?thesis
    proof (cases "map_of (cl_flights st) i")
      case None
      with Answer assms(1) show ?thesis by (simp add: client_step_def step_log_def)
    next
      case (Some x)
      obtain fl server where x: "x = (fl, server)" by (cases x)
      with Some map_of_SomeD [OF Some] assms(1) have server: "server = cl_server st" by (auto simp: from_server_def)
      have s: "px_session (cl_proxy ?st') = px_session (fst (end_flight e fl up (cl_proxy st)))"
        using Answer Some x by (simp add: client_step_proxy)
      have "(cl_server st, n, v) \<in> set log \<union> set (step_log ev st)" if v: "jar_get (px_session (cl_proxy ?st')) n = Some v" for n v
      proof -
        have "jar_get (px_session (cl_proxy st)) n = Some v
            \<or> (\<exists>c \<in> set (answer_cookies fl up). ck_Name c = n \<and> ck_Value c = v \<and> \<not> ck_MaxAge c < 0)"
          using v s jar.origin [OF j, of "ce_disk_ses e" "answer_cookies fl up" n v] jar.look_wipe [OF j, of "ce_disk_ses e" n]
          by (auto simp: end_flight_session [OF j] split: if_splits)
        with assms(1) Answer Some x server show ?thesis by (force simp: from_server_def step_log_def log_answer_def)
      qed
      with j' c f assms(1) show ?thesis by (auto simp: from_server_def)
    qed
  qed
qed

lemma run_from_server:
  "from_server log st \<Longrightarrow> quiet_changes evs st \<Longrightarrow> from_server (log @ client_log evs st) (fst (client_run evs st))"
proof (induction evs arbitrary: log st)
  case (Cons ev evs)
  have "from_server (log @ step_log ev st) (fst (client_step ev st))"
    by (rule step_from_server) (use Cons.prems in simp_all)
  from Cons.IH [OF this] Cons.prems(2) show ?case by (simp only: client_run_Cons client_log.simps quiet_changes.simps append_assoc)
qed simp

text \<open>
  C14. A cookie goes only to the server it came from, as long as the server is changed while no request is waiting: every
  cookie a request would carry was stored by an answer of the server that is configured now, or was in the session file at
  the start with no change of server since.
\<close>

theorem cookies_reach_their_server:
  assumes "Cookies (loadSession ses) \<noteq> None" "quiet_changes evs (client_start cfg ses fav port)"
    and "st = fst (client_run evs (client_start cfg ses fav port))"
  shows "set (jar_entries st) \<subseteq> set (jar_entries (client_start cfg ses fav port) @ client_log evs (client_start cfg ses fav port))
     \<and> inject (px_session (cl_proxy st)) hs = Some (inject_cookies (map snd (jar_entries st)) hs)"
proof -
  let ?s = "client_start cfg ses fav port"
  have j: "jar_ok (px_session (cl_proxy ?s))"
    using assms(1) loadSession_distinct [of ses]
    by (auto simp: client_start_def newProxy_def jar_ok_def cookie_list_def loadSession_def split: option.split)
  then have "from_server (jar_entries ?s) ?s"
    by (auto simp: from_server_def jar_entries_def jar_get_def dest!: map_of_SomeD) (simp add: client_start_def)
  from run_from_server [OF this assms(2)] have f: "from_server (jar_entries ?s @ client_log evs ?s) st" by (simp add: assms(3))
  then have j': "jar_ok (px_session (cl_proxy st))" by (simp add: from_server_def)
  have "set (jar_entries st) \<subseteq> set (jar_entries ?s @ client_log evs ?s)"
  proof
    fix x
    assume "x \<in> set (jar_entries st)"
    then obtain n v where x: "x = (cl_server st, n, v)" "(n, v) \<in> set (cookie_list (px_session (cl_proxy st)))"
      by (auto simp: jar_entries_def)
    with j' have "jar_get (px_session (cl_proxy st)) n = Some v" by (simp add: jar_get_def jar_ok_def)
    with f x show "x \<in> set (jar_entries ?s @ client_log evs ?s)" by (simp add: from_server_def)
  qed
  moreover have "map snd (jar_entries st) = cookie_list (px_session (cl_proxy st))"
    by (simp add: jar_entries_def comp_def)
  ultimately show ?thesis using inject_ok [OF j'] by simp
qed

section \<open>A concrete session\<close>

definition demo_ce :: client_env where
  "demo_ce =
     \<lparr>ce_decode = (\<lambda>t. Some (JObj [(''serverUrl'', JStr (''https://'' @ t))])), ce_unmarshal = (\<lambda>t. None),
      ce_url = (\<lambda>u. Some \<lparr>u_Scheme = ''https'', u_Host = drop 8 u\<rparr>), ce_query = (\<lambda>q. [(''code'', q), (''state'', q)]),
      ce_disk_cfg = DiskOk, ce_disk_ses = DiskOk, ce_disk_fav = DiskOk, ce_fav_cut = 0\<rparr>"

definition demo_rq :: "string \<Rightarrow> string \<Rightarrow> string \<Rightarrow> request" where
  "demo_rq meth path b = \<lparr>rq_Method = meth, rq_Path = path, rq_RawQuery = [], rq_Headers = [], rq_Body = Some b\<rparr>"

definition demo_cookie :: set_cookie where
  "demo_cookie = \<lparr>ck_Name = ''sid'', ck_Value = ''x1'', ck_MaxAge = 0, ck_Expires = None\<rparr>"

definition demo_answer :: upstream where
  "demo_answer = UpAnswer \<lparr>an_Status = 200, an_Cookies = [demo_cookie], an_Headers = [], an_Body = []\<rparr>"

definition demo_login :: "client_event list" where
  "demo_login = [Request demo_ce (demo_rq ''POST'' ''/local/config'' ''a/''), Request demo_ce (demo_rq ''POST'' ''/proxy/api/auth/login'' []),
     Answer demo_ce 0 demo_answer]"

lemma client_restart_keeps_session_witness:
  "case cl_proxy (fst (client_run demo_login (client_start None None None 1))) of p \<Rightarrow>
     jar_get (px_session (newProxy (px_cfg_file p) (session_file (px_session p)) (px_fav_file p) 2)) ''sid'' = Some ''x1''"
proof -
  have w: "list_all writable demo_login" "Cookies (loadSession None) \<noteq> None" by code_simp+
  have "jar_get (px_session (cl_proxy (fst (client_run demo_login (client_start None None None 1))))) ''sid'' = Some ''x1''"
    by code_simp
  with client_restart_keeps_session [OF w(2) w(1) refl refl] show ?thesis by simp
qed

lemma cookies_reach_their_server_witness:
  "set (jar_entries (fst (client_run demo_login (client_start None None None 1)))) \<subseteq> {(''https://a'', ''sid'', ''x1'')}"
proof -
  have "quiet_changes demo_login (client_start None None None 1)" "Cookies (loadSession None) \<noteq> None" by code_simp+
  note c = cookies_reach_their_server [OF this(2) this(1) refl, of "[]"]
  have "jar_entries (client_start None None None 1) @ client_log demo_login (client_start None None None 1) = [(''https://a'', ''sid'', ''x1'')]"
    by code_simp
  then show ?thesis using c by simp
qed

section \<open>A change of server with a request in flight\<close>

lemma to_lower_Cookie: "to_lower ''Cookie'' = ''cookie''"
  by code_simp

lemma outgoing_cookie:
  assumes "hdr_values hs ''Connection'' = []" "''Cookie'' \<notin> fst ` set hs"
  shows "hdr_get (outgoing_headers (hs @ [(''Cookie'', c)])) ''Cookie'' = c"
proof -
  have n: "header_tokens (hs @ [(''Cookie'', c)]) ''Connection'' = []"
    using assms(1) by (simp add: header_tokens_def) (simp add: hdr_values_def)
  have "map_of (filter (\<lambda>(k, v). k \<notin> set hop_headers) hs) ''Cookie'' = None"
    using assms(2) by (auto simp: map_of_eq_None_iff)
  then have "hdr_get (removeHopByHopHeaders (hs @ [(''Cookie'', c)])) ''Cookie'' = c"
    by (simp add: removeHopByHopHeaders_def n hdr_get_def hop_headers_def map_add_def split: option.split)
  then show ?thesis by (simp add: outgoing_headers_def Let_def)
qed

text \<open>
  C15. Nothing ties the answer of a request to the session it was sent in: when the server is changed while a request to the
  old one waits, the session is emptied, but the answer of the old server then stores its cookie, and the next request
  carries it to the new server.
\<close>

theorem late_answer_leaks_session:
  assumes "jar_ok (px_session (cl_proxy st))" "map_of (cl_flights st) i = Some (FlProxy, old)"
    and "route_of (rq_Path rc) = RConfig" "new_server e1 rc (cl_proxy st) = Some new" "new \<noteq> []"
    and "an_Cookies a = [c]" "\<not> ck_MaxAge c < 0"
    and "route_of (rq_Path r) = RProxy" "rq_Method r = ''GET''" "rq_Headers r = []" "ce_url e3 new = Some target"
  shows "\<exists>o1 o2 q. snd (client_run [Request e1 rc, Answer e2 i (UpAnswer a), Request e3 r] st) = [o1, o2, Some (Ask q FlProxy)]
     \<and> uq_URL q = PartsURL (u_Scheme target) (u_Host target) (trim_prefix (rq_Path r) ''/proxy'') (rq_RawQuery r)
     \<and> hdr_get (uq_Headers q) ''Cookie'' = cookie_pair (ck_Name c, ck_Value c)"
proof -
  let ?p = "cl_proxy st" and ?s1 = "fst (client_step (Request e1 rc) st)"
  have p: "rq_Method rc = ''POST''" using assms(4) by (simp add: new_server_def Let_def split: if_splits)
  then have serve: "ServeHTTP e1 rc ?p = handleConfig e1 rc ?p" by (simp add: ServeHTTP_def mux_def assms(3))
  have s1: "px_session (cl_proxy ?s1) = fst (clear_session (ce_disk_ses e1) (px_session ?p))" "cl_server ?s1 = new"
    by (simp_all add: client_step_proxy serve handleConfig_eq [OF assms(1)] assms(4))
  have out: "start_flight x (snd (show_config y)) z = z" for x y z
    by (simp add: show_config_def start_flight_def split: option.split)
  have f1: "cl_flights ?s1 = cl_flights st"
    using serve by (simp add: client_step_def handleConfig_eq [OF assms(1)] out split: prod.split)
      (metis (no_types, lifting) client_state.select_convs(2) client_state.surjective client_state.update_convs(1) out snd_conv)
  let ?s2 = "fst (client_step (Answer e2 i (UpAnswer a)) ?s1)" and ?nv = "(ck_Name c, ck_Value c)"
  have j1: "jar_ok (px_session (cl_proxy ?s1))" by (rule client_step_jar [OF assms(1)])
  have l1: "cookie_list (px_session (cl_proxy ?s1)) = []"
    using assms(1) by (simp add: s1 clear_session_def jar_ok_def)
  have s2: "cl_proxy ?s2 = fst (end_flight e2 FlProxy (UpAnswer a) (cl_proxy ?s1))"
    using f1 assms(2) by (simp add: client_step_proxy)
  have j2: "jar_ok (px_session (cl_proxy ?s2))" by (rule client_step_jar [OF j1])
  have l2: "cookie_list (px_session (cl_proxy ?s2)) = [?nv]"
    unfolding s2 end_flight_session [OF j1] using j1 l1 assms(6,7)
    by (auto simp: setCookies_def jar_ok_def cookie_list_def set_one_def)
  have c2: "cl_server ?s2 = new" by (simp add: s2 s1)
  let ?h = "[(''Cookie'', cookie_pair ?nv)]"
  have "inject (px_session (cl_proxy ?s2)) [] = Some ?h"
    by (simp add: inject_ok [OF j2] l2 inject_cookies_Cons add_cookie_def hdr_get_def hdr_set_def hdr_del_def)
  then have "ServeHTTP e3 r (cl_proxy ?s2) =
      (cl_proxy ?s2, Ask (proxied target (r\<lparr>rq_Path := trim_prefix (rq_Path r) ''/proxy'', rq_Headers := ?h\<rparr>)) FlProxy)"
    using assms(5,8-11) c2 by (simp add: ServeHTTP_def mux_def handleProxy_def Let_def hdr_get_def to_lower_def)
  moreover have "hdr_get (outgoing_headers ([] @ ?h)) ''Cookie'' = cookie_pair ?nv"
    by (rule outgoing_cookie) (simp_all add: hdr_values_def)
  ultimately show ?thesis
    by (simp add: client_run_Cons client_step_def [of "Request e3 r" ?s2] proxied_def del: client_run.simps(2))
qed

definition demo_late :: client_state where
  "demo_late = fst (client_run [Request demo_ce (demo_rq ''POST'' ''/local/config'' ''a''),
     Request demo_ce (demo_rq ''GET'' ''/proxy/api/me'' [])] (client_start None None None 1))"

lemma late_answer_leaks_session_witness:
  "\<exists>o1 o2 q. snd (client_run [Request demo_ce (demo_rq ''POST'' ''/local/config'' ''b''), Answer demo_ce 0 demo_answer,
       Request demo_ce (demo_rq ''GET'' ''/proxy/api/me'' [])] demo_late) = [o1, o2, Some (Ask q FlProxy)]
     \<and> uq_URL q = PartsURL ''https'' ''b'' ''/api/me'' [] \<and> hdr_get (uq_Headers q) ''Cookie'' = ''sid=x1''"
proof -
  have w: "jar_ok (px_session (cl_proxy demo_late))" "map_of (cl_flights demo_late) 0 = Some (FlProxy, ''https://a'')"
    "route_of ''/local/config'' = RConfig" "route_of ''/proxy/api/me'' = RProxy"
    "new_server demo_ce (demo_rq ''POST'' ''/local/config'' ''b'') (cl_proxy demo_late) = Some ''https://b''"
    "ce_url demo_ce ''https://b'' = Some \<lparr>u_Scheme = ''https'', u_Host = ''b''\<rparr>" by code_simp+
  have c: "cookie_pair (''sid'', ''x1'') = ''sid=x1''" "trim_prefix ''/proxy/api/me'' ''/proxy'' = ''/api/me''" by code_simp+
  show ?thesis
    using late_answer_leaks_session [of demo_late 0 "''https://a''" "demo_rq ''POST'' ''/local/config'' ''b''" demo_ce "''https://b''"
        "\<lparr>an_Status = 200, an_Cookies = [demo_cookie], an_Headers = [], an_Body = []\<rparr>" demo_cookie
        "demo_rq ''GET'' ''/proxy/api/me'' []" demo_ce "\<lparr>u_Scheme = ''https'', u_Host = ''b''\<rparr>" demo_ce] w c
    by (simp add: demo_rq_def demo_answer_def demo_cookie_def)
qed

section \<open>Single sign-on\<close>

text \<open>Callbacks that went to the server, and answers that opened a flow.\<close>

fun sso_completion :: "outcome option \<Rightarrow> bool" where
  "sso_completion (Some (Ask q FlSsoCallback)) = True"
| "sso_completion out = False"

definition sso_opened :: "client_event \<Rightarrow> client_state \<Rightarrow> bool" where
  "sso_opened ev st =
     (case ev of
        Answer e i (UpAnswer a) \<Rightarrow>
          (case map_of (cl_flights st) i of
             Some (FlSsoInit, server) \<Rightarrow> Option.bind (ce_unmarshal e (an_Body a)) dec_sso_init \<noteq> None
           | _ \<Rightarrow> False)
      | _ \<Rightarrow> False)"

fun sso_openings :: "client_event list \<Rightarrow> client_state \<Rightarrow> nat" where
  "sso_openings [] st = 0"
| "sso_openings (ev # evs) st = (if sso_opened ev st then 1 else 0) + sso_openings evs (fst (client_step ev st))"

definition pending :: "client_state \<Rightarrow> nat" where
  "pending st = (if px_sso (cl_proxy st) = None then 0 else 1)"

lemma after_cookies_sso:
  "px_sso (fst (after_cookies (keep_cookies e cs p) k)) = px_sso p \<or>
     (\<exists>p1. px_sso p1 = px_sso p \<and> fst (after_cookies (keep_cookies e cs p) k) = fst (k p1))"
proof -
  obtain p1 v where k: "keep_cookies e cs p = (p1, v)" by (cases "keep_cookies e cs p")
  then have "px_sso p1 = px_sso p" by (auto simp: keep_cookies_def split: if_splits prod.splits)
  with k show ?thesis by (cases v) (auto simp: after_cookies_def)
qed

lemma end_flight_sso:
  "px_sso (fst (end_flight e fl up p)) = px_sso p \<or>
     (fl = FlSsoInit \<and> (\<exists>a. up = UpAnswer a \<and> Option.bind (ce_unmarshal e (an_Body a)) dec_sso_init \<noteq> None))"
proof (cases fl)
  case FlLogout
  then show ?thesis by (simp add: end_flight_def end_logout_def split: prod.split verdict.split)
next
  case FlSsoInit
  show ?thesis
  proof (cases up)
    case (UpAnswer a)
    show ?thesis
    proof (cases "Option.bind (ce_unmarshal e (an_Body a)) dec_sso_init")
      case None
      with FlSsoInit UpAnswer after_cookies_sso [of e "an_Cookies a" p] show ?thesis
        by (fastforce simp: end_flight_def end_sso_init_def)
    qed (use FlSsoInit UpAnswer in simp)
  qed (simp add: FlSsoInit end_flight_def end_sso_init_def)
next
  case FlSsoCallback
  show ?thesis
  proof (cases up)
    case (UpAnswer a)
    with FlSsoCallback after_cookies_sso [of e "an_Cookies a" p] show ?thesis
      by (fastforce simp: end_flight_def end_sso_callback_def)
  qed (simp add: FlSsoCallback end_flight_def end_sso_callback_def)
next
  case FlProxy
  show ?thesis
  proof (cases up)
    case (UpAnswer a)
    with FlProxy after_cookies_sso [of e "an_Cookies a" p] show ?thesis
      by (fastforce simp: end_flight_def end_proxy_def)
  qed (simp add: FlProxy end_flight_def end_proxy_def)
qed

lemma end_flight_completion [simp]: "\<not> sso_completion (Some (snd (end_flight e fl up p)))"
proof -
  have w: "\<not> sso_completion (Some (with_status r))" for r by (simp add: with_status_def)
  have a: "\<not> sso_completion (Some (snd (after_cookies pv k)))" if "\<And>p. \<not> sso_completion (Some (snd (k p)))" for pv k
    using that by (simp add: after_cookies_def split: prod.split verdict.split)
  show ?thesis
    by (cases fl; cases up)
      (simp_all add: end_flight_def end_logout_def end_sso_init_def end_sso_callback_def end_proxy_def w a
        split: prod.split verdict.split)
qed

lemma handleConfig_sso:
  "px_sso (fst (handleConfig e r p)) = px_sso p \<and> \<not> sso_completion (Some (snd (handleConfig e r p)))"
proof -
  have s: "\<not> sso_completion (Some (snd (show_config p')))" for p' by (simp add: show_config_def split: option.split)
  have v: "px_sso (fst (set_server e url p)) = px_sso p" for url by (simp add: set_server_def split: prod.split)
  obtain url user where u: "posted_config e r = (url, user)" by (cases "posted_config e r")
  obtain p1 w where c: "set_server e url p = (p1, w)" by (cases "set_server e url p")
  with v [of url] have "px_sso p1 = px_sso p" by simp
  with s u c show ?thesis by (cases w) (simp_all add: handleConfig_def)
qed

lemma ask_server_completion: "sso_completion (Some (ask_server e path j fl p)) \<Longrightarrow> fl = FlSsoCallback"
  by (cases fl) (auto simp: ask_server_def Let_def split: if_splits option.splits)

lemma ServeHTTP_sso:
  "(px_sso (fst (ServeHTTP e r p)) = px_sso p \<and> \<not> sso_completion (Some (snd (ServeHTTP e r p)))) \<or>
     (px_sso p \<noteq> None \<and> px_sso (fst (ServeHTTP e r p)) = None)"
proof (cases "rq_Method r = ''OPTIONS''")
  case True
  then show ?thesis by (simp add: ServeHTTP_def)
next
  case False
  then have m: "ServeHTTP e r p = mux e r p" by (simp add: ServeHTTP_def)
  show ?thesis
  proof (cases "route_of (rq_Path r)")
    case RProxy
    have "\<not> sso_completion (Some (snd (handleProxy e r p)))"
      using ask_server_completion [of e _ _ FlSsoInit p]
      by (auto simp: handleProxy_def Let_def startSsoFlow_def split: option.split)
    with RProxy m show ?thesis by (simp add: mux_def)
  next
    case RConfig
    with m handleConfig_sso [of e r p] show ?thesis by (simp add: mux_def)
  next
    case RLogout
    with m show ?thesis
      by (simp add: mux_def handleLogout_def Let_def end_logout_def split: option.split prod.split verdict.split)
  next
    case RFavorites
    with m show ?thesis by (simp add: mux_def handleFavorites_def Let_def split: option.split)
  next
    case RSso
    with m show ?thesis by (simp add: mux_def handleSsoCallback_def Let_def split: option.split)
  qed (use m in \<open>simp_all add: mux_def handleUI_def\<close>)
qed

lemma step_sso:
  "(if sso_completion (snd (client_step ev st)) then 1 else 0) + pending (fst (client_step ev st))
     \<le> pending st + (if sso_opened ev st then 1 else 0)"
proof (cases ev)
  case (Request e r)
  then have "snd (client_step ev st) = Some (snd (ServeHTTP e r (cl_proxy st)))"
    "cl_proxy (fst (client_step ev st)) = fst (ServeHTTP e r (cl_proxy st))"
    by (simp_all add: client_step_proxy) (simp add: client_step_def split: prod.split)
  with ServeHTTP_sso [of e r "cl_proxy st"] show ?thesis by (auto simp: pending_def)
next
  case (Answer e i up)
  show ?thesis
  proof (cases "map_of (cl_flights st) i")
    case None
    with Answer show ?thesis by (simp add: client_step_def)
  next
    case (Some x)
    obtain fl server where x: "x = (fl, server)" by (cases x)
    with Some Answer have s: "snd (client_step ev st) = Some (snd (end_flight e fl up (cl_proxy st)))"
      "cl_proxy (fst (client_step ev st)) = fst (end_flight e fl up (cl_proxy st))"
      by (simp_all add: client_step_proxy) (simp add: client_step_def split: prod.split)
    from end_flight_sso [of e fl up "cl_proxy st"] show ?thesis
    proof
      assume "px_sso (fst (end_flight e fl up (cl_proxy st))) = px_sso (cl_proxy st)"
      with s show ?thesis by (simp add: pending_def)
    next
      assume "fl = FlSsoInit \<and> (\<exists>a. up = UpAnswer a \<and> Option.bind (ce_unmarshal e (an_Body a)) dec_sso_init \<noteq> None)"
      with Answer Some x have "sso_opened ev st" by (auto simp: sso_opened_def)
      with s show ?thesis by (simp add: pending_def)
    qed
  qed
qed

lemma run_sso:
  "length (filter sso_completion (snd (client_run evs st))) + pending (fst (client_run evs st)) \<le> pending st + sso_openings evs st"
proof (induction evs arbitrary: st)
  case (Cons ev evs)
  from step_sso [of ev st] Cons.IH [of "fst (client_step ev st)"] show ?case
    by (simp only: client_run_Cons sso_openings.simps filter.simps split: if_splits) (auto split: if_splits)
qed simp

text \<open>
  A sign-on flow is completed at most once: over any run, the callbacks that reach the server are no more than the flows
  the server opened, however often the callback page is loaded, and after one the next callback is refused until
  another flow is opened.
\<close>

theorem sso_completed_once:
  "length (filter sso_completion (snd (client_run evs (client_start cfg ses fav port))))
       \<le> sso_openings evs (client_start cfg ses fav port)
   \<and> handleSsoCallback e r (p\<lparr>px_sso := None\<rparr>) = (p\<lparr>px_sso := None\<rparr>, Respond (page_response PageMissing))
   \<and> px_sso (fst (handleSsoCallback e r p)) \<in> {px_sso p, None}"
proof -
  have "pending (client_start cfg ses fav port) = 0" by (simp add: pending_def client_start_def newProxy_def)
  with run_sso [of evs "client_start cfg ses fav port"]
  have "length (filter sso_completion (snd (client_run evs (client_start cfg ses fav port))))
       \<le> sso_openings evs (client_start cfg ses fav port)" by simp
  moreover have "handleSsoCallback e r (p\<lparr>px_sso := None\<rparr>) = (p\<lparr>px_sso := None\<rparr>, Respond (page_response PageMissing))"
    by (simp add: handleSsoCallback_def Let_def)
  moreover have "px_sso (fst (handleSsoCallback e r p)) \<in> {px_sso p, None}"
    using handleSso_fst [of e r p] by auto
  ultimately show ?thesis by simp
qed

section \<open>Cookies that a server takes back\<close>

text \<open>
  Only \<open>Max-Age\<close> takes a cookie away. A server that ends its session with a date in the past, and no \<open>Max-Age\<close>, leaves
  the cookie in the store with whatever value it gave: the client still says it has a session, and sends the cookie with
  the next request. With a \<open>Max-Age\<close> that is not positive the cookie is gone.
\<close>

theorem expired_cookie_stays:
  assumes "jar_ok s" "setCookies d s (pre @ c # post) = (s', v)" "\<forall>c' \<in> set post. ck_Name c' \<noteq> ck_Name c"
  shows "v = Returns \<and> jar_get s' (ck_Name c) = (if ck_MaxAge c < 0 then None else Some (ck_Value c))
     \<and> (ck_MaxAge c = 0 \<longrightarrow> hasCookies s' = Some True \<and> snd (setCookies d s (pre @ c\<lparr>ck_Expires := x\<rparr> # post)) = v
        \<and> jar_get (fst (setCookies d s (pre @ c\<lparr>ck_Expires := x\<rparr> # post))) (ck_Name c) = Some (ck_Value c))"
proof -
  have s': "s' = fst (setCookies d s (pre @ c # post))" "v = snd (setCookies d s (pre @ c # post))" using assms(2) by simp_all
  have g: "jar_get s' (ck_Name c) = (if ck_MaxAge c < 0 then None else Some (ck_Value c))"
    unfolding s' by (rule jar.last_answer [OF assms(1) refl assms(3)])
  have g2: "jar_get (fst (setCookies d s (pre @ c\<lparr>ck_Expires := x\<rparr> # post))) (ck_Name c)
      = (if ck_MaxAge c < 0 then None else Some (ck_Value c))"
    using jar.last_answer [OF assms(1), of "c\<lparr>ck_Expires := x\<rparr>" "ck_Name c" post d pre] assms(3) by simp
  have j: "jar_ok s'" unfolding s' by (rule jar.store_ok [OF assms(1)])
  have "cookie_list s' \<noteq> []" if "ck_MaxAge c = 0"
    using g that by (auto simp: jar_get_def)
  with g g2 j s' setCookies_ok [OF assms(1)] show ?thesis by (simp add: hasCookies_ok)
qed

definition demo_expired :: set_cookie where
  "demo_expired = \<lparr>ck_Name = ''sid'', ck_Value = [], ck_MaxAge = 0, ck_Expires = Some 0\<rparr>"

lemma expired_cookie_stays_witness:
  "hasCookies (fst (setCookies DiskOk (loadSession None) [demo_cookie, demo_expired])) = Some True
     \<and> jar_get (fst (setCookies DiskOk (loadSession None) [demo_cookie, demo_expired])) ''sid'' = Some []"
proof -
  have "jar_ok (loadSession None)" by code_simp
  from expired_cookie_stays [OF this, of DiskOk "[demo_cookie]" demo_expired "[]" _ _ "Some 0"] show ?thesis
    by (cases "setCookies DiskOk (loadSession None) [demo_cookie, demo_expired]") (simp add: demo_expired_def)
qed

section \<open>The WebSocket tunnel\<close>

text \<open>
  What the server sends right behind its answer to the upgrade never reaches the browser: the bytes that arrived in the
  same read as the end of the head stay in the buffered reader, and the copy starts with the connection. The browser gets the
  head and then exactly what the later reads deliver, so the first messages of the relay can be missing and a frame can
  begin in the middle.
\<close>

theorem ws_proxy_loses_early_bytes:
  assumes "we_dial we (ws_tls target) (ws_host target) = None" "we_hijack we = None" "jar_ok s"
    and "status_code (str_of_bytes l) = Some 101" "headers_ok (map str_of_bytes hs)" "list_all head_line (l # hs)"
    and "we_conn we = (head_bytes (l # hs) @ early) # later" "length (head_bytes (l # hs) @ early) \<le> bufio_size"
  shows "\<exists>q. handleWSProxy we target r s = TunnelOpen q (map str_of_bytes (l # hs)) later
     \<and> prefix (fst (tunnel sched later cl)) (concat later)
     \<and> (\<exists>n. fst (tunnel (replicate n True) later cl) = concat later)"
proof -
  have "ReadResponse (we_conn we) = Some \<lparr>wa_code = 101, wa_head = map str_of_bytes (l # hs), wa_buf = early, wa_conn = later\<rparr>"
    unfolding assms(7) by (rule ReadResponse_one_chunk) (use assms in simp_all)
  moreover obtain q where "ws_request target r s = Some q"
    using inject_ok [OF assms(3), of "rq_Headers r"] by (simp add: ws_request_def)
  ultimately have "handleWSProxy we target r s = TunnelOpen q (map str_of_bytes (l # hs)) later"
    using assms(1,2) by (simp add: handleWSProxy_def)
  then show ?thesis using tunnel_prefix [of sched later cl] tunnel_delivers [of later cl] by blast
qed

definition demo_head :: "bytes list" where
  "demo_head = [bytes_of_str ''HTTP/1.1 101 Switching Protocols'', bytes_of_str ''Upgrade: websocket'']"

definition demo_we :: ws_env where
  "demo_we = \<lparr>we_dial = (\<lambda>tls host. if tls \<and> host = ''h:443'' then None else Some ''refused''), we_conn = [head_bytes demo_head @ [0x81, 1, 65], [0x81, 1, 66]], we_read_err = [], we_hijack = None\<rparr>"

lemma ws_proxy_loses_early_bytes_witness:
  "\<exists>q. handleWSProxy demo_we \<lparr>u_Scheme = ''https'', u_Host = ''h''\<rparr> (demo_rq ''GET'' ''/t'' []) (loadSession None)
       = TunnelOpen q (map str_of_bytes demo_head) [[0x81, 1, 66]]
     \<and> prefix (fst (tunnel [True, True, True] [[0x81, 1, 66]] [])) [0x81, 1, 66]"
proof -
  let ?l = "bytes_of_str ''HTTP/1.1 101 Switching Protocols''" and ?hs = "[bytes_of_str ''Upgrade: websocket'']"
  have w: "we_dial demo_we (ws_tls \<lparr>u_Scheme = ''https'', u_Host = ''h''\<rparr>) (ws_host \<lparr>u_Scheme = ''https'', u_Host = ''h''\<rparr>) = None" "we_hijack demo_we = None" "jar_ok (loadSession None)"
    "status_code (str_of_bytes ?l) = Some 101" "headers_ok (map str_of_bytes ?hs)" "list_all head_line (?l # ?hs)" by code_simp+
  have "we_conn demo_we = (head_bytes (?l # ?hs) @ [0x81, 1, 65]) # [[0x81, 1, 66]]" by (simp add: demo_we_def demo_head_def)
  from ws_proxy_loses_early_bytes [OF w this, of "demo_rq ''GET'' ''/t'' []" "[True, True, True]" "[]"]
  show ?thesis by (auto simp: demo_head_def head_bytes_def bufio_size_def bytes_of_str_def)
qed

text \<open>
  However the answer is cut into reads, the tunnel loses less than one buffer of 4096 bytes, always right behind the head,
  and all the rest of the connection reaches the browser.
\<close>

lemma ws_proxy_loss_bounded:
  assumes "handleWSProxy we target r s = TunnelOpen q ls later"
  shows "\<exists>head lost n. concat (we_conn we) = head @ lost @ fst (tunnel (replicate n True) later cl) \<and> length lost < 4096
     \<and> (\<exists>a. ReadResponse (we_conn we) = Some a \<and> wa_code a = 101 \<and> wa_head a = ls \<and> wa_buf a = lost)"
proof -
  from assms obtain a where a: "ReadResponse (we_conn we) = Some a" "wa_code a = 101" "wa_head a = ls" "wa_conn a = later"
    by (auto simp: handleWSProxy_def split: option.splits if_splits)
  from ReadResponse_bytes [OF a(1)] obtain head where "concat (we_conn we) = head @ wa_buf a @ concat later"
    "length (wa_buf a) < 4096" using a(4) by (auto simp: bufio_size_def)
  with a tunnel_delivers [of later cl] show ?thesis by metis
qed

text \<open>
  The local server answers every web page, not only its own. Whatever page opens a WebSocket on it, as the \<open>Origin\<close> header
  tells, the request that reaches the server is the same: without an \<open>Origin\<close>, and with the cookies of the session, in
  fact twice.
\<close>

theorem any_page_may_open_a_tunnel:
  assumes "jar_ok (px_session p)" "handleProxy e r p = (p, Tunnel target r1)" "cookie_list (px_session p) = m" "m \<noteq> []"
  shows "\<exists>q q2 r2. ws_request target r1 (px_session p) = Some q
     \<and> handleProxy e (r\<lparr>rq_Headers := hdr_set (rq_Headers r) ''Origin'' page\<rparr>) p = (p, Tunnel target r2)
     \<and> ws_request target r2 (px_session p) = Some q2
     \<and> uq_URL q2 = uq_URL q \<and> hdr_get (uq_Headers q2) = hdr_get (uq_Headers q) \<and> hdr_get (uq_Headers q2) ''Origin'' = []
     \<and> hdr_get (uq_Headers q2) ''Cookie'' =
         (if hdr_get (rq_Headers r) ''Cookie'' = [] then [] else hdr_get (rq_Headers r) ''Cookie'' @ ''; '')
           @ cookie_text m @ ''; '' @ cookie_text m"
proof -
  let ?r' = "r\<lparr>rq_Headers := hdr_set (rq_Headers r) ''Origin'' page\<rparr>"
  let ?hs = "inject_cookies m (rq_Headers r)" and ?hs' = "inject_cookies m (rq_Headers ?r')"
  have i: "inject (px_session p) hs = Some (inject_cookies m hs)" for hs
    using inject_ok [OF assms(1)] assms(3) by simp
  have up: "hdr_get ?hs' ''Upgrade'' = hdr_get ?hs ''Upgrade''" by (simp add: inject_get)
  let ?path = "trim_prefix (rq_Path r) ''/proxy''" and ?url = "cc_ServerURL (px_cfg p)"
  have ne: "?url \<noteq> []" using assms(2) by (auto simp: handleProxy_def)
  have sso: "startSsoFlow e p \<noteq> Tunnel target r1" by (simp add: startSsoFlow_def ask_server_def Let_def split: option.split)
  obtain target' where u: "ce_url e ?url = Some target'"
    using assms(2) ne by (auto simp: handleProxy_def Let_def split: option.splits)
  have np: "\<not> (?path = ''/api/auth/sso-desktop-init'' \<and> rq_Method r = ''POST'')"
  proof
    assume "?path = ''/api/auth/sso-desktop-init'' \<and> rq_Method r = ''POST''"
    then have "handleProxy e r p = (p, startSsoFlow e p)" using ne u by (simp add: handleProxy_def Let_def)
    with assms(2) sso show False by simp
  qed
  have t: "r1 = r\<lparr>rq_Path := ?path, rq_Headers := ?hs\<rparr>" "target' = target" "to_lower (hdr_get ?hs ''Upgrade'') = ''websocket''"
    using assms(2) ne np u i [of "rq_Headers r"] by (simp_all add: handleProxy_def Let_def split: if_splits)
  let ?r2 = "?r'\<lparr>rq_Path := trim_prefix (rq_Path r) ''/proxy'', rq_Headers := ?hs'\<rparr>"
  have "handleProxy e ?r' p = (p, Tunnel target ?r2)"
    using ne np u t(2,3) up i [of "rq_Headers ?r'"] by (auto simp add: handleProxy_def Let_def)
  moreover have "hdr_get (hdr_del (inject_cookies m ?hs') ''Origin'') = hdr_get (hdr_del (inject_cookies m ?hs) ''Origin'')"
  proof
    fix n
    have c: "hdr_get (inject_cookies m h1) n = hdr_get (inject_cookies m h2) n" if "hdr_get h1 n = hdr_get h2 n" for h1 h2
      using that by (cases "n = ''Cookie''") (simp_all add: inject_cookies_text inject_get)
    show "hdr_get (hdr_del (inject_cookies m ?hs') ''Origin'') n = hdr_get (hdr_del (inject_cookies m ?hs) ''Origin'') n"
    proof (cases "n = ''Origin''")
      case False
      then have "hdr_get (inject_cookies m ?hs') n = hdr_get (inject_cookies m ?hs) n" by (intro c) simp
      with False show ?thesis by simp
    qed simp
  qed
  moreover have "hdr_get (inject_cookies m ?hs) ''Cookie'' =
         (if hdr_get (rq_Headers r) ''Cookie'' = [] then [] else hdr_get (rq_Headers r) ''Cookie'' @ ''; '')
           @ cookie_text m @ ''; '' @ cookie_text m"
    using assms(4) by (simp add: inject_cookies_text cookie_text_ne)
  ultimately show ?thesis by (simp add: ws_request_def i t(1))
qed

definition demo_upgrade :: request where
  "demo_upgrade = (demo_rq ''GET'' ''/proxy/api/remote/tunnel/t'' [])\<lparr>rq_Headers := [(''Upgrade'', ''WebSocket'')]\<rparr>"

lemma any_page_may_open_a_tunnel_witness:
  "\<exists>q2 r2. handleProxy demo_ce (demo_upgrade\<lparr>rq_Headers := hdr_set [(''Upgrade'', ''WebSocket'')] ''Origin'' ''http://evil''\<rparr>)
         (cl_proxy (fst (client_run demo_login (client_start None None None 1))))
       = (cl_proxy (fst (client_run demo_login (client_start None None None 1))), Tunnel \<lparr>u_Scheme = ''https'', u_Host = ''a''\<rparr> r2)
     \<and> ws_request \<lparr>u_Scheme = ''https'', u_Host = ''a''\<rparr> r2 (px_session (cl_proxy (fst (client_run demo_login (client_start None None None 1)))))
       = Some q2 \<and> hdr_get (uq_Headers q2) ''Cookie'' = ''sid=x1; sid=x1''"
proof -
  let ?p = "cl_proxy (fst (client_run demo_login (client_start None None None 1)))"
  have w: "jar_ok (px_session ?p)" "cookie_list (px_session ?p) = [(''sid'', ''x1'')]" by code_simp+
  have t: "handleProxy demo_ce demo_upgrade ?p = (?p, Tunnel \<lparr>u_Scheme = ''https'', u_Host = ''a''\<rparr>
      (demo_upgrade\<lparr>rq_Path := ''/api/remote/tunnel/t'', rq_Headers := [(''Upgrade'', ''WebSocket''), (''Cookie'', ''sid=x1'')]\<rparr>))"
    by code_simp
  have c: "cookie_pair (''sid'', ''x1'') = ''sid=x1''" by code_simp
  show ?thesis
    using any_page_may_open_a_tunnel [OF w(1) t w(2), of "''http://evil''"] c
    by (auto simp: demo_upgrade_def hdr_get_def)
qed

end
