(* ===== verification/Cmdline.thy ===== *)
theory Cmdline
  imports Chat
begin

text \<open>
  From a command line to a mode of the executable: Go's splitting of a Windows command line
  (\<open>commandLineToArgv\<close> of its runtime), the flags of \<open>main\<close> with the \<open>flag\<close> package, and the command lines
  the service starts its helpers with: the toast (agent/notify\_windows.go), the chat window (agent/chat.go) and
  the capture helper (agent/remote\_session\_windows.go). Strings are valid UTF-8, which the conversion to UTF-16
  and back keeps.
\<close>

section \<open>Splitting a command line\<close>

definition backslashes :: "nat \<Rightarrow> string" where
  "backslashes n = replicate n (CHR 0x5C)"

text \<open>The rest of an argument, in or out of quotes, after \<open>n\<close> pending backslashes: the argument and the rest.\<close>

definition doubled_quote :: "bool \<Rightarrow> string \<Rightarrow> nat" where
  "doubled_quote inquote cs = (if inquote \<and> cs \<noteq> [] \<and> hd cs = CHR 0x22 then 1 else 0)"

function readNextArg :: "bool \<Rightarrow> nat \<Rightarrow> string \<Rightarrow> string \<Rightarrow> string \<times> string" where
  "readNextArg inquote n b [] = (b @ backslashes n, [])"
| "readNextArg inquote n b (c # cs) =
     (if (c = CHR '' '' \<or> c = CHR 0x09) \<and> \<not> inquote then (b @ backslashes n, cs)
      else if c = CHR 0x22 then
        (if n mod 2 = 0
         then readNextArg (\<not> inquote) 0 (b @ backslashes (n div 2) @ replicate (doubled_quote inquote cs) c)
                (drop (doubled_quote inquote cs) cs)
         else readNextArg inquote 0 (b @ backslashes (n div 2) @ [c]) cs)
      else if c = CHR 0x5C then readNextArg inquote (n + 1) b cs
      else readNextArg inquote 0 (b @ backslashes n @ [c]) cs)"
  by pat_completeness auto
termination by (relation "measure (\<lambda>(q, n, b, s). length s)") auto

lemma readNextArg_shorter: "length (snd (readNextArg q n b s)) \<le> length s"
proof (induction q n b s rule: readNextArg.induct)
  case (2 q n b c cs)
  show ?case using 2
    by (cases q; cases "n mod 2 = 0"; cases "c = CHR 0x22")
      (auto intro: le_SucI le_SucI [OF order_trans [OF _ diff_le_self]])
qed simp

lemma readNextArg_decreases: "length (snd (readNextArg q n b (c # cs))) < Suc (length cs)"
proof -
  have *: "length (snd (readNextArg q' n' b' (drop k cs))) < Suc (length cs)"
      "length (snd (readNextArg q' n' b' cs)) < Suc (length cs)" for q' n' b' k
    using readNextArg_shorter [of q' n' b' "drop k cs"] readNextArg_shorter [of q' n' b' cs] by simp_all
  show ?thesis by (subst readNextArg.simps(2)) (simp del: readNextArg.simps add: *)
qed

function commandLineToArgv :: "string \<Rightarrow> string list" where
  "commandLineToArgv [] = []"
| "commandLineToArgv (c # cs) =
     (if c = CHR '' '' \<or> c = CHR 0x09 then commandLineToArgv cs
      else fst (readNextArg False 0 [] (c # cs)) # commandLineToArgv (snd (readNextArg False 0 [] (c # cs))))"
  by pat_completeness auto
termination by (relation "measure length") (simp_all del: readNextArg.simps add: readNextArg_decreases)

section \<open>The flags\<close>

datatype flag_kind = StringFlag | BoolFlag | IntFlag

definition main_flags :: "(string \<times> flag_kind) list" where
  "main_flags = [(''url'', StringFlag), (''key'', StringFlag), (''capture-helper'', BoolFlag), (''addr'', StringFlag),
     (''notify-title'', StringFlag), (''notify-msg'', StringFlag), (''notify-timeout'', IntFlag),
     (''chat-helper'', BoolFlag), (''chat-id'', StringFlag), (''operator'', StringFlag)]"

definition default_flags :: agent_flags where
  "default_flags = \<lparr>fl_url = [], fl_key = [], fl_captureHelper = False, fl_addr = [], fl_notifyTitle = [],
     fl_notifyMsg = [], fl_notifyTimeout = 8, fl_chatHelper = False, fl_chatID = [], fl_operator = []\<rparr>"

definition set_string :: "string \<Rightarrow> string \<Rightarrow> agent_flags \<Rightarrow> agent_flags" where
  "set_string name v f =
     (if name = ''url'' then f\<lparr>fl_url := v\<rparr> else if name = ''key'' then f\<lparr>fl_key := v\<rparr>
      else if name = ''addr'' then f\<lparr>fl_addr := v\<rparr> else if name = ''notify-title'' then f\<lparr>fl_notifyTitle := v\<rparr>
      else if name = ''notify-msg'' then f\<lparr>fl_notifyMsg := v\<rparr> else if name = ''chat-id'' then f\<lparr>fl_chatID := v\<rparr>
      else if name = ''operator'' then f\<lparr>fl_operator := v\<rparr> else f)"

definition set_bool :: "string \<Rightarrow> bool \<Rightarrow> agent_flags \<Rightarrow> agent_flags" where
  "set_bool name v f =
     (if name = ''capture-helper'' then f\<lparr>fl_captureHelper := v\<rparr>
      else if name = ''chat-helper'' then f\<lparr>fl_chatHelper := v\<rparr> else f)"

text \<open>\<open>strconv.ParseBool\<close>, and \<open>strconv.ParseInt\<close> with base 0, which the integer flag uses.\<close>

definition parse_bool :: "string \<Rightarrow> bool option" where
  "parse_bool s =
     (if s \<in> {''1'', ''t'', ''T'', ''true'', ''TRUE'', ''True''} then Some True
      else if s \<in> {''0'', ''f'', ''F'', ''false'', ''FALSE'', ''False''} then Some False else None)"

definition base_digit :: "char \<Rightarrow> nat option" where
  "base_digit c =
     (if is_digit c then Some (digit_val c)
      else let l = (of_char (lower_char c) :: nat) in if 97 \<le> l \<and> l \<le> 122 then Some (l - 87) else None)"

fun base_value :: "nat \<Rightarrow> nat \<Rightarrow> string \<Rightarrow> nat option" where
  "base_value b a [] = Some a"
| "base_value b a (c # cs) =
     (if c = CHR ''_'' then base_value b a cs
      else (case base_digit c of None \<Rightarrow> None | Some d \<Rightarrow> if b \<le> d then None else base_value b (a * b + d) cs))"

text \<open>Where an underscore may stand: \<open>i\<close> is the class of the last character (0 a digit, 1 an underscore, 2 other).\<close>

fun underscores :: "bool \<Rightarrow> nat \<Rightarrow> string \<Rightarrow> bool" where
  "underscores hex i [] = (i \<noteq> 1)"
| "underscores hex i (c # cs) =
     (if is_digit c \<or> (hex \<and> is_hex (lower_char c)) then underscores hex 0 cs
      else if c = CHR ''_'' then i = 0 \<and> underscores hex 1 cs
      else i \<noteq> 1 \<and> underscores hex 2 cs)"

definition base_prefix :: "string \<Rightarrow> nat \<times> string" where
  "base_prefix s =
     (case s of
        c # d # ds \<Rightarrow>
          if c \<noteq> CHR ''0'' then (10, s)
          else if ds \<noteq> [] \<and> lower_char d = CHR ''b'' then (2, ds)
          else if ds \<noteq> [] \<and> lower_char d = CHR ''o'' then (8, ds)
          else if ds \<noteq> [] \<and> lower_char d = CHR ''x'' then (16, ds)
          else (8, d # ds)
      | [c] \<Rightarrow> if c = CHR ''0'' then (8, []) else (10, s)
      | [] \<Rightarrow> (10, s))"

definition underscoreOK :: "string \<Rightarrow> bool" where
  "underscoreOK s =
     (case s of
        c # d # ds \<Rightarrow>
          if c = CHR ''0'' \<and> lower_char d \<in> {CHR ''b'', CHR ''o'', CHR ''x''}
          then underscores (lower_char d = CHR ''x'') 0 ds else underscores False 2 s
      | _ \<Rightarrow> underscores False 2 s)"

definition parse_int0 :: "string \<Rightarrow> int option" where
  "parse_int0 s =
     (let neg = (case s of [] \<Rightarrow> False | c # cs \<Rightarrow> c = CHR ''-'');
          ds = (case s of [] \<Rightarrow> [] | c # cs \<Rightarrow> if c = CHR ''+'' \<or> c = CHR ''-'' then cs else s)
      in if ds = [] then None
         else (case base_value (fst (base_prefix ds)) 0 (snd (base_prefix ds)) of
                 None \<Rightarrow> None
               | Some n \<Rightarrow>
                   if CHR ''_'' \<in> set ds \<and> \<not> underscoreOK ds then None
                   else if neg then (if n \<le> 2 ^ 63 then Some (- int n) else None)
                   else if n < 2 ^ 63 then Some (int n) else None))"

text \<open>
  \<open>flag.Parse\<close>: the flags set until the first argument that is not a flag, the help, or an error
  (the program then exits with 0 or 2).
\<close>

datatype flag_result = Flags agent_flags | FlagHelp | FlagErr string

definition flag_name :: "string \<Rightarrow> string \<times> string option" where
  "flag_name name =
     (case name of
        [] \<Rightarrow> ([], None)
      | c # cs \<Rightarrow> (c # takeWhile (\<lambda>d. d \<noteq> CHR ''='') cs,
                   case dropWhile (\<lambda>d. d \<noteq> CHR ''='') cs of [] \<Rightarrow> None | e # v \<Rightarrow> Some v))"

fun flag_parse :: "agent_flags \<Rightarrow> string list \<Rightarrow> flag_result" where
  "flag_parse f [] = Flags f"
| "flag_parse f (s # args) =
     (if length s < 2 \<or> hd s \<noteq> CHR ''-'' then Flags f
      else if s = ''--'' then Flags f
      else
        (let name0 = (if hd (tl s) = CHR ''-'' then tl (tl s) else tl s);
             name = fst (flag_name name0); value = snd (flag_name name0)
         in if name0 = [] \<or> hd name0 = CHR ''-'' \<or> hd name0 = CHR ''='' then FlagErr ''bad flag syntax''
            else (case map_of main_flags name of
                    None \<Rightarrow> if name = ''help'' \<or> name = ''h'' then FlagHelp
                            else FlagErr ''flag provided but not defined''
                  | Some BoolFlag \<Rightarrow>
                      (case value of
                         None \<Rightarrow> flag_parse (set_bool name True f) args
                       | Some v \<Rightarrow> (case parse_bool v of None \<Rightarrow> FlagErr ''invalid boolean value''
                                    | Some b \<Rightarrow> flag_parse (set_bool name b f) args))
                  | Some StringFlag \<Rightarrow>
                      (case value of
                         Some v \<Rightarrow> flag_parse (set_string name v f) args
                       | None \<Rightarrow> (case args of [] \<Rightarrow> FlagErr ''flag needs an argument''
                                  | v # args' \<Rightarrow> flag_parse (set_string name v f) args'))
                  | Some IntFlag \<Rightarrow>
                      (case value of
                         Some v \<Rightarrow> (case parse_int0 v of None \<Rightarrow> FlagErr ''invalid value''
                                    | Some n \<Rightarrow> flag_parse (f\<lparr>fl_notifyTimeout := n\<rparr>) args)
                       | None \<Rightarrow> (case args of [] \<Rightarrow> FlagErr ''flag needs an argument''
                                  | v # args' \<Rightarrow> (case parse_int0 v of None \<Rightarrow> FlagErr ''invalid value''
                                                 | Some n \<Rightarrow> flag_parse (f\<lparr>fl_notifyTimeout := n\<rparr>) args'))))))"

text \<open>The mode a command line starts the executable in: none when the flags end it.\<close>

definition start_mode :: "string \<Rightarrow> agent_mode option" where
  "start_mode cmdLine =
     (case flag_parse default_flags (tl (commandLineToArgv cmdLine)) of
        Flags f \<Rightarrow> Some (agent_main f)
      | FlagHelp \<Rightarrow> None
      | FlagErr e \<Rightarrow> None)"

section \<open>The toast\<close>

text \<open>\<open>notifySession\<close>: the title and the text, in French or in English, and the command line of the toast.\<close>

definition em_dash :: string where "em_dash = [CHR 0xE2, CHR 0x80, CHR 0x94]"
definition e_acute :: string where "e_acute = [CHR 0xC3, CHR 0xA9]"
definition a_grave :: string where "a_grave = [CHR 0xC3, CHR 0xA0]"

definition notify_text :: "bool \<Rightarrow> string \<Rightarrow> bool \<Rightarrow> string \<times> string" where
  "notify_text isFrench username connected =
     (if connected then
        (if isFrench
         then (''Oblireach '' @ em_dash @ '' Connexion distante'',
               username @ '' ouvre une connexion Oblireach '' @ a_grave @ '' votre machine.'')
         else (''Oblireach '' @ em_dash @ '' Remote Connection'',
               username @ '' is opening an Oblireach connection to your machine.''))
      else
        (if isFrench
         then (''Oblireach '' @ em_dash @ '' Connexion ferm'' @ e_acute @ ''e'',
               username @ '' a ferm'' @ e_acute @ '' la connexion Oblireach '' @ a_grave @ '' votre machine.'')
         else (''Oblireach '' @ em_dash @ '' Connection Closed'',
               username @ '' has closed the Oblireach connection to your machine.'')))"

definition notify_cmdline :: "string \<Rightarrow> string \<Rightarrow> string \<Rightarrow> string" where
  "notify_cmdline exe title msg =
     (let q = [CHR 0x22] in
      q @ exe @ q @ '' --notify-title '' @ q @ title @ q @ '' --notify-msg '' @ q @ msg @ q @ '' --notify-timeout 8'')"

definition lang_french :: "16 word" where "lang_french = 0x0C"

definition notifySession ::
  "machine \<Rightarrow> 16 word \<Rightarrow> int \<Rightarrow> string \<Rightarrow> bool \<Rightarrow> (int \<times> string) list \<Rightarrow> (int \<times> string) list" where
  "notifySession m lang sessionID username connected spawned =
     (case notify_text (lang = lang_french) username connected of
        (title, msg) \<Rightarrow>
          (case mc_exe m of
             None \<Rightarrow> spawned
           | Some exe \<Rightarrow>
               (case agent_spawn m sessionID (notify_cmdline exe title msg) of
                  (pid, rc) \<Rightarrow> if rc \<noteq> 0 then spawned
                               else spawned @ [(sessionID, notify_cmdline exe title msg)])))"

end
