(* ===== verification/Chat_Window.thy ===== *)
theory Chat_Window
  imports Cmdline Input
begin

text \<open>
  agent/chat_windows.go: the helper process that shows the chat window. It connects to the agent, turns the messages of the
  pipe into scripts for its page and the calls of the page into messages, and places its window. The page itself is a
  text; what is modelled of JavaScript is where a string literal of a script ends, and what it stands for.
\<close>

section \<open>Names\<close>

text \<open>\<open>getUserDisplayName\<close>: \<open>base\<close> is \<open>filepath.Base\<close> of the home directory, when there is one.\<close>

definition getUserDisplayName :: "(string \<Rightarrow> string) \<Rightarrow> string option \<Rightarrow> string \<Rightarrow> string" where
  "getUserDisplayName base home hostname = (case home of Some h \<Rightarrow> base h | None \<Rightarrow> hostname)"

text \<open>\<open>unicode.IsSpace\<close>, and \<open>strings.Fields\<close> on the runes of a text.\<close>

definition rune_space :: "nat \<Rightarrow> bool" where
  "rune_space r \<longleftrightarrow> (9 \<le> r \<and> r \<le> 13) \<or> r \<in> {0x20, 0x85, 0xA0, 0x1680, 0x2028, 0x2029, 0x202F, 0x205F, 0x3000}
     \<or> (0x2000 \<le> r \<and> r \<le> 0x200A)"

function rune_fields :: "nat list \<Rightarrow> nat list list" where
  "rune_fields rs =
     (let rs' = dropWhile rune_space rs
      in if rs' = [] then [] else takeWhile (\<lambda>r. \<not> rune_space r) rs' # rune_fields (dropWhile (\<lambda>r. \<not> rune_space r) rs'))"
  by pat_completeness auto
termination
proof (relation "measure length", simp)
  fix rs rs' :: "nat list"
  assume d: "rs' = dropWhile rune_space rs" "rs' \<noteq> []"
  then have "\<not> rune_space (hd rs')" by (metis hd_dropWhile)
  with d(2) have "length (dropWhile (\<lambda>r. \<not> rune_space r) rs') < length rs'"
    by (cases rs') (simp_all add: le_imp_less_Suc length_dropWhile_le)
  then show "(dropWhile (\<lambda>r. \<not> rune_space r) rs', rs) \<in> measure length"
    using length_dropWhile_le [of rune_space rs] by (simp add: d(1))
qed

declare rune_fields.simps [simp del]

text \<open>
  The slice \<open>[]rune(s)[0:1]\<close>. On an empty text it is within the capacity of the conversion or panics; the language leaves
  that open, and \<open>spare\<close> is the choice of the implementation. A slice past the length reads a zero rune.
\<close>

definition first_rune :: "bool \<Rightarrow> nat list \<Rightarrow> nat list option" where
  "first_rune spare rs = (case rs of r # _ \<Rightarrow> Some [r] | [] \<Rightarrow> if spare then Some [0] else None)"

text \<open>The initials of the user: of the first and the last word of a name of several; \<open>up\<close> is \<open>unicode.ToUpper\<close>.\<close>

definition user_initials :: "bool \<Rightarrow> (nat \<Rightarrow> nat) \<Rightarrow> string \<Rightarrow> nat list option" where
  "user_initials spare up name =
     (let rs = runes name; parts = rune_fields rs
      in case first_rune spare rs of
           None \<Rightarrow> None
         | Some f \<Rightarrow>
             Some (map up (if 1 < length rs \<and> 2 \<le> length parts then [hd (hd parts), hd (last parts)] else f)))"

definition rune_utf8 :: "nat \<Rightarrow> string" where
  "rune_utf8 r =
     map char_of
       (if r < 0x80 then [r]
        else if r < 0x800 then [0xC0 + r div 64, 0x80 + r mod 64]
        else if r < 0x10000 then [0xE0 + r div 4096, 0x80 + r div 64 mod 64, 0x80 + r mod 64]
        else [0xF0 + r div 262144, 0x80 + r div 4096 mod 64, 0x80 + r div 64 mod 64, 0x80 + r mod 64])"

section \<open>Scripts\<close>

text \<open>\<open>strings.ReplaceAll\<close> of one character.\<close>

definition replace_char :: "char \<Rightarrow> string \<Rightarrow> string \<Rightarrow> string" where
  "replace_char c r s = concat (map (\<lambda>x. if x = c then r else [x]) s)"

definition bslash :: char where "bslash = CHR 0x5C"
definition squote :: char where "squote = CHR 0x27"

text \<open>The escaping of the text of a message, and the one of a request for remote control.\<close>

definition js_text :: "string \<Rightarrow> string" where
  "js_text t = replace_char (CHR 0x0A) [bslash, CHR ''n''] (replace_char squote [bslash, squote] (replace_char bslash [bslash, bslash] t))"

definition js_msg :: "string \<Rightarrow> string" where
  "js_msg t = replace_char squote [bslash, squote] t"

definition user_script :: "string \<Rightarrow> string \<Rightarrow> string" where
  "user_script text initials = ''addMessage('' @ [squote] @ js_text text @ [squote] @ '', '' @ [squote] @ initials @ [squote] @ '', false)''"

definition operator_script :: "string \<Rightarrow> string" where
  "operator_script text =
     ''addMessage('' @ [squote] @ js_text text @ [squote] @ '', '' @ [squote, squote] @ '', true); playSound()''"

definition remote_script :: "string \<Rightarrow> string" where
  "remote_script message = ''showRemoteRequest('' @ [squote] @ js_msg message @ [squote] @ '')''"

definition file_script :: "string \<Rightarrow> string" where
  "file_script fileName =
     ''addMessage('' @ [squote] @ map char_of [0xF0, 0x9F, 0x93, 0x8E :: nat] @ '' File received: '' @ fileName @ [squote] @ '', '' @
       [squote, squote] @ '', true)''"

text \<open>
  JavaScript's single-quoted literal, from behind its opening quote: its characters and what follows the closing quote. A
  backslash takes the next character with it (a carriage return with its newline); a line that ends is an error.
\<close>

fun js_span :: "string \<Rightarrow> (string \<times> string) option" where
  "js_span [] = None"
| "js_span (c # cs) =
     (if c = squote then Some ([], cs)
      else if c = CHR 0x0A \<or> c = CHR 0x0D then None
      else if c = bslash then
        (case cs of
           [] \<Rightarrow> None
         | d # ds \<Rightarrow>
             if d = CHR 0x0D \<and> ds \<noteq> [] \<and> hd ds = CHR 0x0A then
               map_option (\<lambda>(l, rest). (c # d # hd ds # l, rest)) (js_span (tl ds))
             else map_option (\<lambda>(l, rest). (c # d # l, rest)) (js_span ds))
      else map_option (\<lambda>(l, rest). (c # l, rest)) (js_span cs))"

text \<open>What the characters of a literal stand for, for the escapes that the program writes; \<open>None\<close> for any other escape.\<close>

fun js_value :: "string \<Rightarrow> string option" where
  "js_value [] = Some []"
| "js_value [c] = (if c = bslash then None else Some [c])"
| "js_value (c # d # cs) =
     (if c = bslash then
        (if d = bslash \<or> d = squote then map_option (\<lambda>v. d # v) (js_value cs)
         else if d = CHR ''n'' then map_option (\<lambda>v. CHR 0x0A # v) (js_value cs)
         else None)
      else map_option (\<lambda>v. c # v) (js_value (d # cs)))"

section \<open>The helper\<close>

text \<open>What the helper has done: the scripts its page ran, the messages it wrote, and whether the page is closed.\<close>

record chat_helper =
  hp_operator :: string
  hp_avatar :: string
  hp_initials :: string
  hp_scripts :: "string list"
  hp_sent :: "(chat_pipe_type \<times> json) list"
  hp_closed :: bool
  hp_reading :: bool

definition helper_write :: "chat_helper \<Rightarrow> chat_pipe_type \<Rightarrow> json \<Rightarrow> chat_helper" where
  "helper_write h ty j = h\<lparr>hp_sent := hp_sent h @ [(ty, j)]\<rparr>"

definition helper_eval :: "chat_helper \<Rightarrow> string \<Rightarrow> chat_helper" where
  "helper_eval h script = h\<lparr>hp_scripts := hp_scripts h @ [script]\<rparr>"

definition goChatSend :: "string \<Rightarrow> chat_helper \<Rightarrow> string \<Rightarrow> string \<Rightarrow> chat_helper" where
  "goChatSend display h action text =
     (if action = ''user_message'' then
        helper_write h ChatMsg (go_map [(''action'', JStr ''user_message''), (''text'', JStr text), (''from'', JStr display)])
      else if action = ''user_closed'' then helper_write h ChatEvent (go_map [(''action'', JStr ''user_closed'')])
      else if action = ''allow_remote'' then
        helper_write h ChatEvent (go_map [(''action'', JStr ''allow_remote''), (''allowed'', JBool True)])
      else if action = ''deny_remote'' then
        helper_write h ChatEvent (go_map [(''action'', JStr ''deny_remote''), (''allowed'', JBool False)])
      else h)"

text \<open>The calls of the page.\<close>

datatype page_call = PageSend string | PageClose | PageAllow | PageDeny | PageTyping

fun page_step :: "string \<Rightarrow> chat_helper \<Rightarrow> page_call \<Rightarrow> chat_helper" where
  "page_step display h (PageSend text) =
     helper_eval (goChatSend display h ''user_message'' text) (user_script text (hp_initials h))"
| "page_step display h PageClose = (goChatSend display h ''user_closed'' [])\<lparr>hp_closed := True\<rparr>"
| "page_step display h PageAllow = goChatSend display h ''allow_remote'' []"
| "page_step display h PageDeny = goChatSend display h ''deny_remote'' []"
| "page_step display h PageTyping = helper_write h ChatEvent (go_map [(''action'', JStr ''typing'')])"

text \<open>The reader of the pipe: a message with the value of its payload, or the end of the pipe.\<close>

definition dec_chat_msg :: "json \<Rightarrow> (string \<times> string \<times> string \<times> string) option" where
  "dec_chat_msg j =
     (case dec_struct j of
        None \<Rightarrow> None
      | Some kvs \<Rightarrow>
          (let (action, ok1) = dec_string ''action'' kvs; (text, ok2) = dec_string ''text'' kvs;
               (name, ok3) = dec_string ''operatorName'' kvs; (message, ok4) = dec_string ''message'' kvs;
               (file, ok5) = dec_string ''fileName'' kvs; (data, ok6) = dec_string ''fileData'' kvs
           in if ok1 \<and> ok2 \<and> ok3 \<and> ok4 \<and> ok5 \<and> ok6 then Some (action, text, message, file) else None))"

definition show_message :: "chat_helper \<Rightarrow> json option \<Rightarrow> chat_helper" where
  "show_message h payload =
     (case Option.bind payload dec_chat_msg of
        None \<Rightarrow> h
      | Some (action, text, message, file) \<Rightarrow>
          if action = ''operator_message'' then helper_eval h (operator_script text)
          else if action = ''request_remote'' then helper_eval h (remote_script message)
          else if action = ''operator_typing'' then helper_eval h ''showTyping()''
          else if action = ''file_transfer'' then helper_eval h (file_script file)
          else h)"

definition helper_stop :: "chat_helper \<Rightarrow> chat_helper" where
  "helper_stop h = h\<lparr>hp_closed := True, hp_reading := False\<rparr>"

fun pipe_step :: "chat_helper \<Rightarrow> (chat_pipe_type \<times> json option) option \<Rightarrow> chat_helper" where
  "pipe_step h None = helper_stop h"
| "pipe_step h (Some (ty, payload)) =
     (case ty of ChatMsg \<Rightarrow> show_message h payload | ChatStop \<Rightarrow> helper_stop h | _ \<Rightarrow> h)"

datatype helper_event = FromPage page_call | FromPipe "(chat_pipe_type \<times> json option) option"

definition chat_helper_step :: "string \<Rightarrow> chat_helper \<Rightarrow> helper_event \<Rightarrow> chat_helper" where
  "chat_helper_step display h ev =
     (if hp_closed h then h
      else (case ev of FromPage c \<Rightarrow> page_step display h c | FromPipe m \<Rightarrow> if hp_reading h then pipe_step h m else h))"

section \<open>The start\<close>

text \<open>Twenty attempts to connect; the number of the first that succeeds.\<close>

definition chat_connect :: "(nat \<Rightarrow> bool) \<Rightarrow> nat option" where
  "chat_connect up = find up [0..<20]"

text \<open>
  \<open>runChatHelperMode\<close>: no helper when it cannot connect, when the name of the user has no first letter or the window cannot be
  made. The first message is the init message, or it is dropped.
\<close>

definition init_names :: "string \<Rightarrow> (chat_pipe_type \<times> json option) option \<Rightarrow> string \<times> string" where
  "init_names operator first =
     (case first of
        Some (ChatInit, Some j) \<Rightarrow>
          (case dec_struct j of
             None \<Rightarrow> (operator, [])
           | Some kvs \<Rightarrow>
               (let (name, ok1) = dec_string ''operatorName'' kvs; (avatar, ok2) = dec_string ''operatorAvatar'' kvs
                in if ok1 \<and> ok2 then (if name \<noteq> [] then name else operator, avatar) else (operator, [])))
      | _ \<Rightarrow> (operator, []))"

definition runChatHelperMode ::
  "(nat \<Rightarrow> bool) \<Rightarrow> bool \<Rightarrow> (nat \<Rightarrow> nat) \<Rightarrow> bool \<Rightarrow> string \<Rightarrow> string \<Rightarrow> (chat_pipe_type \<times> json option) option
     \<Rightarrow> chat_helper option" where
  "runChatHelperMode connects spare up window display operator first =
     (case chat_connect connects of
        None \<Rightarrow> None
      | Some n \<Rightarrow>
          (case (user_initials spare up display, init_names operator first) of
             (Some initials, (name, avatar)) \<Rightarrow>
               if first_rune spare (runes name) = None \<or> \<not> window then None
               else Some \<lparr>hp_operator = name, hp_avatar = avatar, hp_initials = concat (map rune_utf8 initials), hp_scripts = [],
                          hp_sent = [], hp_closed = False, hp_reading = True\<rparr>
           | (None, _) \<Rightarrow> None))"

section \<open>The language of the window\<close>

definition chatIsFrench :: "nat \<Rightarrow> bool" where
  "chatIsFrench lang = (lang mod 2 ^ 16 mod 1024 = 0x0C)"

definition o_circ :: string where "o_circ = [CHR 0xC3, CHR 0xB4]"

definition chat_i18n :: "bool \<Rightarrow> (string \<times> string) list" where
  "chat_i18n fr =
     (if fr then
        [(''chattingWith'', ''Discussion avec''), (''online'', ''En ligne''), (''yourMessage'', ''Votre message...''),
         (''remoteRequested'', ''Demande de prise de contr'' @ o_circ @ ''le '' @ a_grave @ '' distance re'' @ [CHR 0xC3, CHR 0xA7] @ ''ue.''),
         (''allow'', ''Accepter''), (''deny'', ''Refuser''),
         (''remoteGranted'', ''Contr'' @ o_circ @ ''le '' @ a_grave @ '' distance autoris'' @ e_acute @ ''.''),
         (''remoteDenied'', ''Contr'' @ o_circ @ ''le '' @ a_grave @ '' distance refus'' @ e_acute @ ''.'')]
      else
        [(''chattingWith'', ''Chatting with''), (''online'', ''Online''), (''yourMessage'', ''Your message...''),
         (''remoteRequested'', ''Remote control access requested.''), (''allow'', ''Allow''), (''deny'', ''Deny''),
         (''remoteGranted'', ''Remote control access granted.''), (''remoteDenied'', ''Remote control access denied.'')])"

section \<open>The window\<close>

text \<open>
  What the calls of user32 and gdi32 make of the window: styles, rectangle (position and size), region (size and diameter of the
  corners) and opacity. The work area is its right and bottom edge.
\<close>

record chat_win =
  cw_ex :: "32 word"
  cw_style :: "32 word"
  cw_rect :: "int \<times> int \<times> int \<times> int"
  cw_rgn :: "(int \<times> int \<times> int) option"
  cw_alpha :: nat

definition set_region :: "bool \<Rightarrow> int \<times> int \<times> int \<Rightarrow> chat_win \<Rightarrow> chat_win" where
  "set_region made r w = (if made then w\<lparr>cw_rgn := Some r\<rparr> else w)"

definition full_place :: "int \<times> int \<Rightarrow> int \<times> int" where
  "full_place wa = (fst wa - 380 - 16, snd wa - 520 - 16)"

definition place :: "int \<times> int \<Rightarrow> int \<Rightarrow> int \<Rightarrow> chat_win \<Rightarrow> chat_win" where
  "place xy width height w = w\<lparr>cw_rect := (fst xy, snd xy, width, height)\<rparr>"

text \<open>\<open>chatMakePopup\<close>: up to sixty looks for the window, then its looks and place; the opacity is 0 until the end.\<close>

definition chatMakePopup :: "(nat \<Rightarrow> bool) \<Rightarrow> bool \<Rightarrow> int \<times> int \<Rightarrow> chat_win \<Rightarrow> chat_win \<times> bool" where
  "chatMakePopup found region wa w =
     (case find found [0..<60] of
        None \<Rightarrow> (w, False)
      | Some n \<Rightarrow>
          (let w1 = w\<lparr>cw_ex := or (cw_ex w) (or 0x00000008 (or 0x00000080 0x00080000)), cw_alpha := 0\<rparr>;
               w2 = set_region region (380, 520, 18) (w1\<lparr>cw_style := or 0x80000000 0x10000000\<rparr>)
           in ((place (full_place wa) 380 520 w2)\<lparr>cw_alpha := 240\<rparr>, True)))"

text \<open>\<open>chatPostShowFixup\<close>: two pixels more, then the size again.\<close>

definition chatPostShowFixup :: "bool \<Rightarrow> bool \<Rightarrow> int \<times> int \<Rightarrow> chat_win \<Rightarrow> chat_win list" where
  "chatPostShowFixup hwnd region wa w =
     (if \<not> hwnd then []
      else (let w1 = place (full_place wa) 382 522 w
            in [w1, place (full_place wa) 380 520 (set_region region (380, 520, 18) w1)]))"

definition goMinimizeChat :: "bool \<Rightarrow> bool \<Rightarrow> int \<times> int \<Rightarrow> chat_win \<Rightarrow> chat_win" where
  "goMinimizeChat hwnd region wa w =
     (if \<not> hwnd then w
      else place (fst wa - 56 - 20, snd wa - 56 - 20) 56 56 (set_region region (56, 56, 56) w))"

definition goRestoreChat :: "bool \<Rightarrow> bool \<Rightarrow> int \<times> int \<Rightarrow> chat_win \<Rightarrow> chat_win" where
  "goRestoreChat hwnd region wa w =
     (if \<not> hwnd then w else place (full_place wa) 380 520 (set_region region (380, 520, 18) w))"

end
