(* ===== verification/Chat_Window_Props.thy ===== *)
theory Chat_Window_Props
  imports Chat_Window
begin

text \<open>
  Properties of the chat window and of the way of a message from the operator to the page and from the page to the server.
\<close>

section \<open>Literals\<close>

lemma squote_bslash [simp]: "squote \<noteq> bslash" "bslash \<noteq> squote" "squote \<noteq> CHR 0x0A" "squote \<noteq> CHR 0x0D" "bslash \<noteq> CHR 0x0A"
  "bslash \<noteq> CHR 0x0D" "CHR ''n'' \<noteq> bslash" "CHR ''n'' \<noteq> squote" "CHR 0x0A \<noteq> bslash" "CHR 0x0D \<noteq> bslash" "CHR 0x0A \<noteq> squote"
  "CHR 0x0D \<noteq> squote"
  by (simp_all add: squote_def bslash_def)

lemma replace_char_simps [simp]:
  "replace_char c r [] = []"
  "replace_char c r (x # s) = (if x = c then r @ replace_char c r s else x # replace_char c r s)"
  "replace_char c r (s @ t) = replace_char c r s @ replace_char c r t"
  by (simp_all add: replace_char_def)

text \<open>The escapes of a message, character by character.\<close>

definition js_char :: "char \<Rightarrow> string" where
  "js_char c = (if c = bslash then [bslash, bslash] else if c = squote then [bslash, squote]
     else if c = CHR 0x0A then [bslash, CHR ''n''] else [c])"

lemma js_text_Nil [simp]: "js_text [] = []"
  by (simp add: js_text_def)

lemma js_text_Cons: "js_text (c # t) = js_char c @ js_text t"
  by (simp add: js_text_def js_char_def)

lemma js_span_plain:
  "c \<noteq> squote \<Longrightarrow> c \<noteq> bslash \<Longrightarrow> c \<noteq> CHR 0x0A \<Longrightarrow> c \<noteq> CHR 0x0D \<Longrightarrow>
     js_span (c # cs) = map_option (\<lambda>(l, rest). (c # l, rest)) (js_span cs)"
  by simp

lemma js_span_escape: "d \<noteq> CHR 0x0D \<Longrightarrow> js_span (bslash # d # cs) = map_option (\<lambda>(l, rest). (bslash # d # l, rest)) (js_span cs)"
  by simp

declare js_span.simps(2) [simp del]

lemma js_span_quote [simp]: "js_span (squote # cs) = Some ([], cs)"
  by (simp add: js_span.simps)

lemma js_span_text: "CHR 0x0D \<notin> set t \<Longrightarrow> js_span (js_text t @ squote # rest) = Some (js_text t, rest)"
proof (induction t)
  case (Cons c t)
  then have ih: "js_span (js_text t @ squote # rest) = Some (js_text t, rest)" "c \<noteq> CHR 0x0D" by auto
  show ?case
    by (cases "c = bslash"; cases "c = squote"; cases "c = CHR 0x0A")
      (use ih in \<open>simp_all add: js_text_Cons js_char_def js_span_escape js_span_plain\<close>)
qed simp

lemma js_span_return: "CHR 0x0D \<in> set t \<Longrightarrow> js_span (js_text t @ rest) = None"
proof (induction t)
  case (Cons c t)
  show ?case
  proof (cases "c = CHR 0x0D")
    case True
    then show ?thesis by (simp add: js_text_Cons js_char_def js_span.simps)
  next
    case False
    with Cons have "js_span (js_text t @ rest) = None" by simp
    with False show ?thesis
      by (cases "c = bslash"; cases "c = squote"; cases "c = CHR 0x0A")
        (simp_all add: js_text_Cons js_char_def js_span_escape js_span_plain)
  qed
qed simp

lemma js_value_plain: "c \<noteq> bslash \<Longrightarrow> js_value (c # cs) = map_option (\<lambda>v. c # v) (js_value cs)"
  by (cases cs) simp_all

lemma js_value_text: "js_value (js_text t) = Some t"
proof (induction t)
  case (Cons c t)
  show ?case
    by (cases "c = bslash"; cases "c = squote"; cases "c = CHR 0x0A")
      (use Cons in \<open>simp_all add: js_text_Cons js_char_def js_value_plain\<close>)
qed simp

section \<open>From the operator to the page\<close>

lemma dec_operator_message:
  "dec_chat_msg (operator_message name text ts) = Some (''operator_message'', text, [], [])"
proof -
  have "to_lower ''action'' \<noteq> to_lower ''text''" "to_lower ''action'' \<noteq> to_lower ''operatorName''" "to_lower ''action'' \<noteq> to_lower ''timestamp''"
    "to_lower ''text'' \<noteq> to_lower ''operatorName''" "to_lower ''text'' \<noteq> to_lower ''timestamp''"
    "to_lower ''operatorName'' \<noteq> to_lower ''timestamp''"
    "to_lower ''message'' \<noteq> to_lower ''action''" "to_lower ''message'' \<noteq> to_lower ''text''"
    "to_lower ''message'' \<noteq> to_lower ''operatorName''" "to_lower ''message'' \<noteq> to_lower ''timestamp''"
    "to_lower ''fileName'' \<noteq> to_lower ''action''" "to_lower ''fileName'' \<noteq> to_lower ''text''"
    "to_lower ''fileName'' \<noteq> to_lower ''operatorName''" "to_lower ''fileName'' \<noteq> to_lower ''timestamp''"
    "to_lower ''fileData'' \<noteq> to_lower ''action''" "to_lower ''fileData'' \<noteq> to_lower ''text''"
    "to_lower ''fileData'' \<noteq> to_lower ''operatorName''" "to_lower ''fileData'' \<noteq> to_lower ''timestamp''" by (simp_all add: to_lower_def lower_char_def)
  then show ?thesis
    by (simp add: dec_chat_msg_def operator_message_def dec_string_def dec_field_def) (metis)?
qed

text \<open>A message in the page's script, behind its opening quote.\<close>

lemma operator_script_drop:
  "drop 12 (operator_script text) = js_text text @ squote # ('', '' @ [squote, squote] @ '', true); playSound()'')"
  by (simp add: operator_script_def)

text \<open>
  A message of the operator reaches the page of the chat as it was written, whatever quotes, backslashes and newlines it
  has: it is one message on the pipe, and the helper runs one script whose string literal stands for the text. With a
  carriage return in it, as in a text pasted with Windows line ends, the script is not valid and the message is lost.
\<close>

theorem operator_message_shown:
  assumes "map_of (ch_active s) chatID = Some a" "cs_conn (ch_heap s ! a) = Some c" "c < length (ch_conns s)"
    and "\<not> cc_closed (ch_conns s ! c)" "\<not> cc_dead (ch_conns s ! c)" "\<not> hp_closed h" "hp_reading h"
  shows "\<exists>msg script. cc_sent (ch_conns (forwardChatMessage s chatID name text ts) ! c) = cc_sent (ch_conns s ! c) @ [(ChatMsg, Some msg)]
     \<and> hp_scripts (chat_helper_step display h (FromPipe (Some (ChatMsg, Some msg)))) = hp_scripts h @ [script]
     \<and> take 12 script = ''addMessage('' @ [squote]
     \<and> js_span (drop 12 script) =
         (if CHR 0x0D \<in> set text then None
          else Some (js_text text, '', '' @ [squote, squote] @ '', true); playSound()''))
     \<and> js_value (js_text text) = Some text"
proof (intro exI conjI)
  let ?msg = "operator_message name text ts"
  show "cc_sent (ch_conns (forwardChatMessage s chatID name text ts) ! c) = cc_sent (ch_conns s ! c) @ [(ChatMsg, Some ?msg)]"
    using assms(1-5) by (simp add: forwardChatMessage_def chat_write_def set_conn_def Let_def)
  show "hp_scripts (chat_helper_step display h (FromPipe (Some (ChatMsg, Some ?msg)))) = hp_scripts h @ [operator_script text]"
    using assms(6,7) by (simp add: chat_helper_step_def show_message_def dec_operator_message helper_eval_def)
  show "take 12 (operator_script text) = ''addMessage('' @ [squote]" by (simp add: operator_script_def)
  show "js_span (drop 12 (operator_script text)) =
      (if CHR 0x0D \<in> set text then None else Some (js_text text, '', '' @ [squote, squote] @ '', true); playSound()''))"
    unfolding operator_script_drop using js_span_text [of "text"] js_span_return [of "text"] by auto
  show "js_value (js_text text) = Some text" by (rule js_value_text)
qed

lemma dec_remote_request:
  "dec_chat_msg (JObj [(''action'', JStr ''request_remote''), (''message'', JStr m)]) = Some (''request_remote'', [], m, [])"
proof -
  have "to_lower ''action'' \<noteq> to_lower ''message''" "to_lower ''text'' \<noteq> to_lower ''action''" "to_lower ''text'' \<noteq> to_lower ''message''"
    "to_lower ''operatorName'' \<noteq> to_lower ''action''" "to_lower ''operatorName'' \<noteq> to_lower ''message''"
    "to_lower ''fileName'' \<noteq> to_lower ''action''" "to_lower ''fileName'' \<noteq> to_lower ''message''"
    "to_lower ''fileData'' \<noteq> to_lower ''action''" "to_lower ''fileData'' \<noteq> to_lower ''message''" by (simp_all add: to_lower_def lower_char_def)
  then show ?thesis by (simp add: dec_chat_msg_def dec_string_def dec_field_def) (metis)?
qed

lemma js_msg_plain: "squote \<notin> set t \<Longrightarrow> js_msg t = t"
  by (induction t) (auto simp: js_msg_def)

lemma js_span_msg:
  "bslash \<notin> set t \<Longrightarrow> CHR 0x0A \<notin> set t \<Longrightarrow> CHR 0x0D \<notin> set t \<Longrightarrow>
     js_span (js_msg t @ squote # rest) = Some (js_msg t, rest) \<and> js_value (js_msg t) = Some t"
proof (induction t)
  case Nil
  then show ?case by (simp add: js_msg_def)
next
  case (Cons c t)
  then have "js_span (js_msg t @ squote # rest) = Some (js_msg t, rest)" "js_value (js_msg t) = Some t" by auto
  moreover have "c \<noteq> bslash" "c \<noteq> CHR 0x0A" "c \<noteq> CHR 0x0D" using Cons.prems by auto
  ultimately show ?case
    by (cases "c = squote") (simp_all add: js_msg_def js_span_escape js_span_plain js_value_plain)
qed

text \<open>
  The text of a request for remote control is escaped for quotes alone. A text with neither backslash nor line end is shown
  as it is. One that begins with a backslash and a quote closes the literal, and what follows runs in the page as a
  script: an operator can grant the request himself, in the name of the user.
\<close>

theorem remote_request_injects:
  "hp_scripts (chat_helper_step display (h\<lparr>hp_closed := False, hp_reading := True\<rparr>)
       (FromPipe (Some (ChatMsg, Some (JObj [(''action'', JStr ''request_remote''), (''message'', JStr (bslash # squote # code))])))))
     = hp_scripts h @ [''showRemoteRequest('' @ [squote, bslash, bslash, squote] @ js_msg code @ [squote] @ '')'']
   \<and> js_span ([bslash, bslash, squote] @ js_msg code @ [squote] @ '')'') = Some ([bslash, bslash], js_msg code @ [squote] @ '')'')
   \<and> js_msg '');goAllowRemote();//'' = '');goAllowRemote();//''
   \<and> page_step display h PageAllow = goChatSend display h ''allow_remote'' []"
proof -
  have s: "remote_script (bslash # squote # code) =
      ''showRemoteRequest('' @ [squote, bslash, bslash, squote] @ js_msg code @ [squote] @ '')''"
    by (simp add: remote_script_def js_msg_def)
  have "js_span ([bslash, bslash, squote] @ js_msg code @ [squote] @ '')'') = Some ([bslash, bslash], js_msg code @ [squote] @ '')'')"
    by (simp add: js_span_escape)
  moreover have "js_msg '');goAllowRemote();//'' = '');goAllowRemote();//''" by (rule js_msg_plain) (simp add: squote_def)
  ultimately show ?thesis
    by (simp add: chat_helper_step_def show_message_def dec_remote_request helper_eval_def s)
qed

section \<open>From the page to the server\<close>

text \<open>The moves of the agent's goroutine that read messages of the helper, and what the server is to get for a call of the page.\<close>

definition relay_reads :: "nat \<Rightarrow> int \<Rightarrow> (chat_pipe_type \<times> json) list \<Rightarrow> chat_event list" where
  "relay_reads a now msgs = concat (map (\<lambda>(ty, j). [CCheck a, CRead a True now (ReadMsg ty (Some j))]) msgs)"

definition chat_up :: "string \<Rightarrow> string \<Rightarrow> json \<Rightarrow> json" where
  "chat_up chatID type payload = JObj [(''chatId'', JStr chatID), (''payload'', payload), (''type'', JStr type)]"

fun server_message :: "string \<Rightarrow> string \<Rightarrow> int \<Rightarrow> page_call \<Rightarrow> json" where
  "server_message chatID display now (PageSend text) =
     chat_up chatID ''chat_message'' (JObj [(''from'', JStr display), (''text'', JStr text), (''timestamp'', JInt now)])"
| "server_message chatID display now PageClose = user_closed chatID"
| "server_message chatID display now PageAllow =
     chat_up chatID ''chat_event'' (JObj [(''action'', JStr ''allow_remote''), (''allowed'', JBool True)])"
| "server_message chatID display now PageDeny =
     chat_up chatID ''chat_event'' (JObj [(''action'', JStr ''deny_remote''), (''allowed'', JBool False)])"
| "server_message chatID display now PageTyping = chat_up chatID ''chat_event'' (JObj [(''action'', JStr ''typing'')])"

text \<open>The message the helper writes for a call, and what the agent makes of it.\<close>

fun page_message :: "string \<Rightarrow> page_call \<Rightarrow> chat_pipe_type \<times> json" where
  "page_message display (PageSend text) =
     (ChatMsg, go_map [(''action'', JStr ''user_message''), (''text'', JStr text), (''from'', JStr display)])"
| "page_message display PageClose = (ChatEvent, go_map [(''action'', JStr ''user_closed'')])"
| "page_message display PageAllow = (ChatEvent, go_map [(''action'', JStr ''allow_remote''), (''allowed'', JBool True)])"
| "page_message display PageDeny = (ChatEvent, go_map [(''action'', JStr ''deny_remote''), (''allowed'', JBool False)])"
| "page_message display PageTyping = (ChatEvent, go_map [(''action'', JStr ''typing'')])"

lemma page_sends:
  "\<not> hp_closed h \<Longrightarrow> hp_sent (chat_helper_step display h (FromPage c)) = hp_sent h @ [page_message display c]
     \<and> (hp_closed (chat_helper_step display h (FromPage c)) \<longleftrightarrow> c = PageClose)"
  by (cases c) (simp_all add: chat_helper_step_def goChatSend_def helper_write_def helper_eval_def)

lemma go_map_values:
  "go_map [(''action'', JStr ''user_message''), (''text'', t), (''from'', f)]
     = JObj [(''action'', JStr ''user_message''), (''from'', f), (''text'', t)]"
  "go_map [(''action'', x)] = JObj [(''action'', x)]"
  "go_map [(''action'', x), (''allowed'', y)] = JObj [(''action'', x), (''allowed'', y)]"
  by code_simp+

lemma page_message_up:
  "up_message chatID now (fst (page_message display c)) (snd (page_message display c)) = Some (server_message chatID display now c)"
  by (cases c) (simp_all add: up_message_def go_map_values chat_up_def user_closed_def any_field_def map_get_def)

text \<open>A session of the agent whose goroutine is about to check its stop channel, with a helper that is connected.\<close>

definition relaying :: "chats \<Rightarrow> nat \<Rightarrow> string \<Rightarrow> bool" where
  "relaying s a chatID \<longleftrightarrow> chat_at s a Checking \<and> \<not> cs_stopped (ch_heap s ! a) \<and> cs_chatID (ch_heap s ! a) = chatID
     \<and> (case cs_conn (ch_heap s ! a) of None \<Rightarrow> False | Some c \<Rightarrow> \<not> cc_closed (ch_conns s ! c))"

lemma relaying_check:
  assumes "relaying s a chatID"
  shows "chat_check s a = set_chat s a ((ch_heap s ! a)\<lparr>cs_pc := Reading\<rparr>)" "chat_at (chat_check s a) a Reading"
    "\<not> conn_gone (chat_check s a) a"
  using assms by (auto simp: relaying_def chat_check_def chat_at_def set_chat_def conn_gone_def split: option.splits)

lemma relay_one:
  assumes "relaying s a chatID" "up_message chatID now ty j = Some msg"
  shows "chat_run m s ([CCheck a, CRead a True now (ReadMsg ty (Some j))] @ es) = chat_run m (s\<lparr>ch_up := ch_up s @ [msg]\<rparr>) es"
proof -
  have a: "a < length (ch_heap s)" "cs_pc (ch_heap s ! a) = Checking" "cs_chatID (ch_heap s ! a) = chatID"
    using assms(1) by (auto simp: relaying_def chat_at_def)
  have "(ch_heap s ! a)\<lparr>cs_pc := Checking\<rparr> = ch_heap s ! a" using a(2) by simp
  then have "(ch_heap s)[a := (ch_heap s ! a)\<lparr>cs_pc := Checking\<rparr>] = ch_heap s" by (simp only: list_update_id)
  then have "s\<lparr>ch_up := ch_up s @ [msg], ch_heap := (ch_heap s)[a := (ch_heap s ! a)\<lparr>cs_pc := Checking\<rparr>]\<rparr> = s\<lparr>ch_up := ch_up s @ [msg]\<rparr>"
    by simp
  then have "chat_read_step (chat_check s a) a True now (ReadMsg ty (Some j)) = s\<lparr>ch_up := ch_up s @ [msg]\<rparr>"
    using a assms(2) by (simp add: relaying_check(1) [OF assms(1)] chat_read_step_def set_chat_def chat_send_up_def Let_def)
  then show ?thesis
    using assms(1) relaying_check(2,3) [OF assms(1)] by (simp add: relaying_def)
qed

lemma relaying_up [simp]: "relaying (s\<lparr>ch_up := x\<rparr>) a chatID = relaying s a chatID"
  by (auto simp: relaying_def chat_at_def split: option.splits)

lemma relay_all:
  "relaying s a chatID \<Longrightarrow>
     chat_run m s (relay_reads a now (map (page_message display) calls) @ es)
       = chat_run m (s\<lparr>ch_up := ch_up s @ map (server_message chatID display now) calls\<rparr>) es"
proof (induction calls arbitrary: s)
  case (Cons c calls)
  obtain ty j where c: "page_message display c = (ty, j)" by (cases "page_message display c")
  then have "up_message chatID now ty j = Some (server_message chatID display now c)"
    using page_message_up [of chatID now display c] by simp
  note one = relay_one [OF Cons.prems this]
  have "relay_reads a now (map (page_message display) (c # calls)) @ es
      = [CCheck a, CRead a True now (ReadMsg ty (Some j))] @ (relay_reads a now (map (page_message display) calls) @ es)"
    by (simp add: relay_reads_def c)
  with one Cons.IH [of "s\<lparr>ch_up := ch_up s @ [server_message chatID display now c]\<rparr>"] Cons.prems show ?case
    by (simp only: relaying_up) simp
qed (simp add: relay_reads_def)

definition page_run :: "string \<Rightarrow> chat_helper \<Rightarrow> page_call list \<Rightarrow> chat_helper" where
  "page_run display h calls = fold (\<lambda>c h. chat_helper_step display h (FromPage c)) calls h"

lemma page_run_sent:
  "\<not> hp_closed h \<Longrightarrow> PageClose \<notin> set calls \<Longrightarrow>
     hp_sent (page_run display h calls) = hp_sent h @ map (page_message display) calls \<and> \<not> hp_closed (page_run display h calls)"
proof (induction calls arbitrary: h)
  case (Cons c calls)
  with page_sends [of h display c] have h: "hp_sent (chat_helper_step display h (FromPage c)) = hp_sent h @ [page_message display c]"
    "\<not> hp_closed (chat_helper_step display h (FromPage c))" by auto
  have "PageClose \<notin> set calls" using Cons.prems(2) by simp
  from Cons.IH [OF h(2) this] h(1) show ?case by (simp add: page_run_def)
qed (simp add: page_run_def)

text \<open>
  C40. What the user does in the page reaches the server in order, each message, answer and sign of typing once, with the name
  of the user and the text as they were given: the messages the helper wrote, read by the agent, are those of the calls.
\<close>

theorem page_calls_reach_server:
  assumes "relaying s a chatID" "\<not> hp_closed h" "hp_sent h = []" "PageClose \<notin> set calls"
  shows "\<exists>s'. chat_run m s (relay_reads a now (hp_sent (page_run display h calls))) = Some s'
     \<and> ch_up s' = ch_up s @ map (server_message chatID display now) calls \<and> relaying s' a chatID"
  using relay_all [OF assms(1), of m now display calls "[]"] page_run_sent [OF assms(2,4), of display] assms(1,3) by simp

text \<open>
  A user who closes the chat is reported to the server twice: the helper's message is forwarded, and the end of its pipe is
  reported as a close again. The two messages are the same.
\<close>

theorem user_close_reported_twice:
  assumes "relaying s a chatID" "\<not> hp_closed h" "hp_sent h = []" "PageClose \<notin> set calls"
  shows "\<exists>s'. chat_run m s (relay_reads a now (hp_sent (page_run display h (calls @ [PageClose]))) @ [CCheck a, CRead a True now ReadFailed]) = Some s'
     \<and> ch_up s' = ch_up s @ map (server_message chatID display now) calls @ [user_closed chatID, user_closed chatID]
     \<and> hp_closed (page_run display h (calls @ [PageClose]))"
proof -
  note r = page_run_sent [OF assms(2,4), of display]
  from page_sends [of "page_run display h calls" display PageClose] r
  have p: "hp_sent (page_run display h (calls @ [PageClose])) = map (page_message display) (calls @ [PageClose])"
    "hp_closed (page_run display h (calls @ [PageClose]))"
    using assms(3) by (simp_all add: page_run_def)
  let ?s = "s\<lparr>ch_up := ch_up s @ map (server_message chatID display now) (calls @ [PageClose])\<rparr>"
  have run: "chat_run m s (relay_reads a now (hp_sent (page_run display h (calls @ [PageClose]))) @ [CCheck a, CRead a True now ReadFailed])
      = chat_run m ?s [CCheck a, CRead a True now ReadFailed]"
    unfolding p(1) by (rule relay_all [OF assms(1)])
  have s: "relaying ?s a chatID" using assms(1) by simp
  then have a: "a < length (ch_heap ?s)" "cs_chatID (ch_heap ?s ! a) = chatID" "chat_at ?s a Checking"
    by (auto simp: relaying_def chat_at_def)
  have up: "ch_up (chat_read_step (chat_check ?s a) a True now ReadFailed) = ch_up ?s @ [user_closed chatID]"
  proof -
    have "a < length (ch_heap (chat_send_up (chat_check ?s a) True x))" for x
      using a(1) unfolding relaying_check(1) [OF s] by (simp add: set_chat_def chat_send_up_def)
    note st = chat_stop_simps(6) [OF this]
    have id: "cs_chatID (ch_heap (chat_check ?s a) ! a) = chatID"
      using a unfolding relaying_check(1) [OF s] by (simp add: set_chat_def)
    have "ch_up (chat_check ?s a) = ch_up ?s" unfolding relaying_check(1) [OF s] by (simp add: set_chat_def)
    with st [of "user_closed chatID"] id show ?thesis
      by (simp only: chat_read_step_def Let_def chat_read.case) (simp add: set_chat_def chat_send_up_def)
  qed
  have "chat_run m ?s [CCheck a, CRead a True now ReadFailed] = Some (chat_read_step (chat_check ?s a) a True now ReadFailed)"
    using a(3) relaying_check(2,3) [OF s] by simp
  with run up p(2) show ?thesis by simp
qed

section \<open>The window\<close>

text \<open>
  The window of the chat comes back as it was: minimised to its bubble and restored, in the same work area, it has the place,
  the size, the region and the looks it had when it was first shown, and the fix-up after the start does not change them.
\<close>

theorem chat_window_restored:
  assumes "chatMakePopup found True wa w = (w', True)"
  shows "goRestoreChat True True wa (goMinimizeChat True True wa w') = w'
     \<and> last (chatPostShowFixup True True wa w') = w' \<and> cw_rect w' = (fst wa - 396, snd wa - 536, 380, 520) \<and> cw_alpha w' = 240"
  using assms
  by (auto simp: chatMakePopup_def goRestoreChat_def goMinimizeChat_def chatPostShowFixup_def place_def set_region_def full_place_def
      Let_def split: option.splits)

section \<open>A concrete chat\<close>

definition demo_helper_win :: chat_helper where
  "demo_helper_win = \<lparr>hp_operator = ''Bob'', hp_avatar = [], hp_initials = ''AL'', hp_scripts = [], hp_sent = [],
     hp_closed = False, hp_reading = True\<rparr>"

definition demo_connected :: chats where
  "demo_connected = chat_state (demo_chat @ [CAccept 0 True])"

definition demo_calls :: "page_call list" where
  "demo_calls = [PageTyping, PageSend ''hello'', PageAllow]"

lemma demo_helper_win_simps: "\<not> hp_closed demo_helper_win" "hp_reading demo_helper_win" "hp_sent demo_helper_win = []"
  "hp_scripts demo_helper_win = []"
  by (simp_all add: demo_helper_win_def)

lemma operator_message_shown_witness:
  "\<exists>msg script. cc_sent (ch_conns (forwardChatMessage demo_connected ''c1'' ''Bob'' [CHR ''a'', CHR 0x27, CHR 0x0A] 5) ! 0)
       = cc_sent (ch_conns demo_connected ! 0) @ [(ChatMsg, Some msg)]
     \<and> hp_scripts (chat_helper_step ''Ann Lee'' demo_helper_win (FromPipe (Some (ChatMsg, Some msg)))) = [script]
     \<and> js_span (drop 12 script) = Some (js_text [CHR ''a'', CHR 0x27, CHR 0x0A], '', '' @ [squote, squote] @ '', true); playSound()'')"
proof -
  have w: "map_of (ch_active demo_connected) ''c1'' = Some 0" "cs_conn (ch_heap demo_connected ! 0) = Some 0"
    "0 < length (ch_conns demo_connected)" "\<not> cc_closed (ch_conns demo_connected ! 0)" "\<not> cc_dead (ch_conns demo_connected ! 0)"
    by code_simp+
  from operator_message_shown [OF w demo_helper_win_simps(1,2), of "''Bob''" "[CHR ''a'', CHR 0x27, CHR 0x0A]" 5 "''Ann Lee''"]
  obtain msg script where 1:
    "cc_sent (ch_conns (forwardChatMessage demo_connected ''c1'' ''Bob'' [CHR ''a'', CHR 0x27, CHR 0x0A] 5) ! 0)
       = cc_sent (ch_conns demo_connected ! 0) @ [(ChatMsg, Some msg)]"
    "hp_scripts (chat_helper_step ''Ann Lee'' demo_helper_win (FromPipe (Some (ChatMsg, Some msg)))) = [] @ [script]"
    "js_span (drop 12 script) = (if CHR 0x0D \<in> set [CHR ''a'', CHR 0x27, CHR 0x0A] then None
      else Some (js_text [CHR ''a'', CHR 0x27, CHR 0x0A], '', '' @ [squote, squote] @ '', true); playSound()''))"
    unfolding demo_helper_win_simps by blast
  have "CHR 0x0D \<notin> set [CHR ''a'', CHR 0x27, CHR 0x0A]" by simp
  with 1(3) have 3: "js_span (drop 12 script) = Some (js_text [CHR ''a'', CHR 0x27, CHR 0x0A], '', '' @ [squote, squote] @ '', true); playSound()'')"
    by (simp only: if_False)
  show ?thesis by (intro exI conjI) (fact 1(1), use 1(2) in simp, fact 3)
qed

lemma demo_relaying: "relaying demo_connected 0 ''c1''" "PageClose \<notin> set demo_calls"
  by code_simp+

lemma page_calls_reach_server_witness:
  "\<exists>s'. chat_run demo_machine demo_connected (relay_reads 0 7 (hp_sent (page_run ''Ann Lee'' demo_helper_win demo_calls))) = Some s'
     \<and> ch_up s' = map (server_message ''c1'' ''Ann Lee'' 7) demo_calls"
proof -
  have "ch_up demo_connected = []" by code_simp
  with page_calls_reach_server [OF demo_relaying(1) demo_helper_win_simps(1,3) demo_relaying(2), of demo_machine 7 "''Ann Lee''"]
  show ?thesis by auto
qed

lemma user_close_reported_twice_witness:
  "\<exists>s'. chat_run demo_machine demo_connected (relay_reads 0 7 (hp_sent (page_run ''Ann Lee'' demo_helper_win (demo_calls @ [PageClose])))
         @ [CCheck 0, CRead 0 True 7 ReadFailed]) = Some s'
     \<and> ch_up s' = map (server_message ''c1'' ''Ann Lee'' 7) demo_calls @ [user_closed ''c1'', user_closed ''c1'']"
proof -
  have "ch_up demo_connected = []" by code_simp
  with user_close_reported_twice [OF demo_relaying(1) demo_helper_win_simps(1,3) demo_relaying(2), of demo_machine 7 "''Ann Lee''"]
  show ?thesis by auto
qed

lemma chat_window_restored_witness:
  "case chatMakePopup (\<lambda>n. n = 3) True (1920, 1040) \<lparr>cw_ex = 0, cw_style = 0, cw_rect = (0, 0, 380, 520), cw_rgn = None, cw_alpha = 255\<rparr> of
     (w', ok) \<Rightarrow> ok \<and> goRestoreChat True True (1920, 1040) (goMinimizeChat True True (1920, 1040) w') = w' \<and> cw_rect w' = (1524, 504, 380, 520)"
proof -
  let ?w = "\<lparr>cw_ex = 0, cw_style = 0, cw_rect = (0, 0, 380, 520), cw_rgn = None, cw_alpha = 255\<rparr>"
  have "snd (chatMakePopup (\<lambda>n. n = 3) True (1920, 1040) ?w)" by code_simp
  then obtain w' where w: "chatMakePopup (\<lambda>n. n = 3) True (1920, 1040) ?w = (w', True)" by (metis prod.collapse)
  from chat_window_restored [OF w] show ?thesis unfolding w by simp
qed

end
