(* ===== verification/Audio.thy ===== *)
theory Audio
  imports Prelude Complex_Main "HOL-Library.Log_Nat"
begin

text \<open>
  The audio capture of agent/audio_windows.go and the stub of agent/audio_stub.go: the globals of its C part, the
  conversion of the packets of WASAPI to 16-bit mono, and the Go functions the streams call. A C \<open>float\<close> is a rational
  rounded to 24 bits, an infinity or no number; the two zeros are one.
\<close>

section \<open>Floats of 32 bits\<close>

datatype f32 = Fin rat | Inf bool | NaN

text \<open>Rounding to the nearest integer, ties to even, and the exponent of a positive rational.\<close>

definition round_even :: "rat \<Rightarrow> int" where
  "round_even r =
     (let f = \<lfloor>r\<rfloor>; d = r - of_int f
      in if d < 1 / 2 then f else if 1 / 2 < d then f + 1 else if even f then f else f + 1)"

definition rat_pow2 :: "int \<Rightarrow> rat" where
  "rat_pow2 e = (if 0 \<le> e then 2 ^ nat e else 1 / 2 ^ nat (- e))"

definition rat_exponent :: "rat \<Rightarrow> int" where
  "rat_exponent x =
     (let (p, q) = quotient_of x; e = int (floorlog 2 (nat p)) - int (floorlog 2 (nat q))
      in if rat_pow2 e \<le> x then e else e - 1)"

definition f32_round :: "rat \<Rightarrow> f32" where
  "f32_round x =
     (if x = 0 then Fin 0
      else (let ulp = rat_pow2 (max (rat_exponent \<bar>x\<bar>) (- 126) - 23); y = of_int (round_even (\<bar>x\<bar> / ulp)) * ulp
            in if 2 ^ 128 \<le> y then Inf (x < 0) else Fin (if x < 0 then - y else y)))"

definition f32_of_bits :: "32 word \<Rightarrow> f32" where
  "f32_of_bits b =
     (let neg = bit b 31; e = unat (and (drop_bit 23 b) 0xFF); m = unat (and b 0x7FFFFF);
          s = (if neg then - 1 else 1 :: rat)
      in if e = 255 then (if m = 0 then Inf neg else NaN)
         else if e = 0 then Fin (s * of_nat m * rat_pow2 (- 149))
         else Fin (s * of_nat (2 ^ 23 + m) * rat_pow2 (int e - 150)))"

fun f32_add :: "f32 \<Rightarrow> f32 \<Rightarrow> f32" where
  "f32_add (Fin x) (Fin y) = f32_round (x + y)"
| "f32_add NaN y = NaN"
| "f32_add x NaN = NaN"
| "f32_add (Inf a) (Inf b) = (if a = b then Inf a else NaN)"
| "f32_add (Inf a) (Fin y) = Inf a"
| "f32_add (Fin x) (Inf b) = Inf b"

text \<open>Division by an integer that a float holds exactly.\<close>

fun f32_div_int :: "f32 \<Rightarrow> int \<Rightarrow> f32" where
  "f32_div_int (Fin x) n = (if n = 0 then (if x = 0 then NaN else Inf (x < 0)) else f32_round (x / of_int n))"
| "f32_div_int (Inf a) n = Inf (a \<noteq> (n < 0))"
| "f32_div_int NaN n = NaN"

text \<open>The two comparisons of the clamp, which no NaN passes, and the conversion to \<open>short\<close>; of a NaN it is not defined.\<close>

fun f32_clamp :: "f32 \<Rightarrow> f32" where
  "f32_clamp (Fin x) = (if 1 < x then Fin 1 else if x < - 1 then Fin (- 1) else Fin x)"
| "f32_clamp (Inf neg) = (if neg then Fin (- 1) else Fin 1)"
| "f32_clamp NaN = NaN"

definition rat_trunc :: "rat \<Rightarrow> int" where
  "rat_trunc x = (if 0 \<le> x then \<lfloor>x\<rfloor> else - \<lfloor>- x\<rfloor>)"

definition to_short :: "int \<Rightarrow> f32 \<Rightarrow> int" where
  "to_short undefined_short v =
     (case v of Fin x \<Rightarrow> (case f32_round (x * 32767) of Fin y \<Rightarrow> rat_trunc y | _ \<Rightarrow> undefined_short) | _ \<Rightarrow> undefined_short)"

section \<open>The packets\<close>

record wave_format =
  wf_tag :: nat
  wf_channels :: nat
  wf_rate :: nat
  wf_bits :: nat
  wf_cbSize :: nat

definition short_bytes :: "int \<Rightarrow> bytes" where
  "short_bytes s = le_bytes 2 (nat (s mod 2 ^ 16))"

text \<open>A read of the packet's memory as an array of floats or of shorts; \<open>None\<close> past its end.\<close>

definition read_float :: "bytes \<Rightarrow> nat \<Rightarrow> f32 option" where
  "read_float d k = (if 4 * k + 4 \<le> length d then Some (f32_of_bits (of_nat (le_nat (take 4 (drop (4 * k) d))))) else None)"

definition read_short :: "bytes \<Rightarrow> nat \<Rightarrow> int option" where
  "read_short d k =
     (if 2 * k + 2 \<le> length d
      then (let n = int (le_nat (take 2 (drop (2 * k) d))) in Some (if n < 2 ^ 15 then n else n - 2 ^ 16)) else None)"

fun sum_floats :: "bytes \<Rightarrow> nat list \<Rightarrow> f32 \<Rightarrow> f32 option" where
  "sum_floats d [] acc = Some acc"
| "sum_floats d (k # ks) acc = (case read_float d k of None \<Rightarrow> None | Some v \<Rightarrow> sum_floats d ks (f32_add acc v))"

fun sum_shorts :: "bytes \<Rightarrow> nat list \<Rightarrow> int \<Rightarrow> int option" where
  "sum_shorts d [] acc = Some acc"
| "sum_shorts d (k # ks) acc = (case read_short d k of None \<Rightarrow> None | Some v \<Rightarrow> sum_shorts d ks (acc + v))"

definition is_float_format :: "wave_format \<Rightarrow> bool" where
  "is_float_format f \<longleftrightarrow> wf_tag f = 3 \<or> (wf_tag f = 0xFFFE \<and> 22 \<le> wf_cbSize f)"

text \<open>
  One frame: the two bytes of its sample. \<open>None\<close> is a read past the packet or, for shorts without a channel, a
  division by zero.
\<close>

definition frame_places :: "wave_format \<Rightarrow> nat \<Rightarrow> nat list" where
  "frame_places f i = map (\<lambda>ch. i * wf_channels f + ch) [0..<wf_channels f]"

definition audio_sample :: "int \<Rightarrow> wave_format \<Rightarrow> bool \<Rightarrow> bytes \<Rightarrow> nat \<Rightarrow> bytes option" where
  "audio_sample ub f silent d i =
     (if silent then Some (short_bytes 0)
      else if is_float_format f \<or> wf_bits f div 8 = 4 then
        map_option (\<lambda>s. short_bytes (to_short ub (f32_clamp (f32_div_int s (int (wf_channels f))))))
          (sum_floats d (frame_places f i) (Fin 0))
      else if wf_bits f div 8 = 2 then
        (if wf_channels f = 0 then None
         else map_option (\<lambda>s. short_bytes (go_div s (int (wf_channels f)))) (sum_shorts d (frame_places f i) 0))
      else Some (short_bytes 0))"

fun audio_frames :: "(nat \<Rightarrow> bytes option) \<Rightarrow> nat list \<Rightarrow> nat \<Rightarrow> bytes \<Rightarrow> bytes option" where
  "audio_frames sample [] cap out = Some out"
| "audio_frames sample (i # is) cap out =
     (if length out + 2 \<le> cap then
        (case sample i of None \<Rightarrow> None | Some b \<Rightarrow> audio_frames sample is cap (out @ b))
      else Some out)"

text \<open>The packets that WASAPI has: what \<open>GetBuffer\<close> gives for each, the memory, the frames and the flag of silence.\<close>

type_synonym packet = "(bytes \<times> nat \<times> bool) option"

fun audio_packets :: "int \<Rightarrow> wave_format \<Rightarrow> nat \<Rightarrow> packet list \<Rightarrow> bytes \<Rightarrow> bytes option" where
  "audio_packets ub f cap [] out = Some out"
| "audio_packets ub f cap (None # ps) out = Some out"
| "audio_packets ub f cap (Some (d, frames, silent) # ps) out =
     (case audio_frames (audio_sample ub f silent d) [0..<frames] cap out of
        None \<Rightarrow> None
      | Some out' \<Rightarrow> audio_packets ub f cap ps out')"

section \<open>The globals\<close>

text \<open>
  The interfaces are named by numbers, and so those that are lost without a release are seen. \<open>au_open\<close> is \<open>g_audioInit\<close>,
  \<open>au_done\<close> the Go flag.
\<close>

record audio_mod =
  au_client :: "nat option"
  au_capture :: "nat option"
  au_fmt :: "wave_format option"
  au_open :: bool
  au_done :: bool
  au_alive :: "nat list"
  au_next :: nat

definition no_audio :: audio_mod where
  "no_audio = \<lparr>au_client = None, au_capture = None, au_fmt = None, au_open = False, au_done = False, au_alive = [], au_next = 0\<rparr>"

text \<open>What the system answers to each step of the initialisation.\<close>

record audio_env =
  ae_enumerator :: bool
  ae_endpoint :: bool
  ae_activate :: bool
  ae_format :: "wave_format option"
  ae_initialize :: bool
  ae_service :: bool
  ae_start :: bool

definition new_client :: "audio_mod \<Rightarrow> audio_mod" where
  "new_client m = m\<lparr>au_client := Some (au_next m), au_alive := au_next m # au_alive m, au_next := Suc (au_next m)\<rparr>"

definition new_capture :: "audio_mod \<Rightarrow> audio_mod" where
  "new_capture m = m\<lparr>au_capture := Some (au_next m), au_alive := au_next m # au_alive m, au_next := Suc (au_next m)\<rparr>"

definition audio_init :: "audio_env \<Rightarrow> audio_mod \<Rightarrow> audio_mod \<times> int" where
  "audio_init e m =
     (if au_open m then (m, 0)
      else if \<not> ae_enumerator e then (m, - 1)
      else if \<not> ae_endpoint e then (m, - 2)
      else if \<not> ae_activate e then (m, - 3)
      else (let m1 = new_client m
            in case ae_format e of
                 None \<Rightarrow> (m1, - 4)
               | Some f \<Rightarrow>
                   (let m2 = m1\<lparr>au_fmt := Some f\<rparr>
                    in if \<not> ae_initialize e then (m2, - 5)
                       else if \<not> ae_service e then (m2, - 6)
                       else (let m3 = new_capture m2
                             in if \<not> ae_start e then (m3, - 7) else (m3\<lparr>au_open := True\<rparr>, 0)))))"

definition release :: "nat option \<Rightarrow> nat list \<Rightarrow> nat list" where
  "release x xs = (case x of None \<Rightarrow> xs | Some i \<Rightarrow> removeAll i xs)"

definition audio_close :: "audio_mod \<Rightarrow> audio_mod" where
  "audio_close m =
     m\<lparr>au_alive := release (au_capture m) (release (au_client m) (au_alive m)),
       au_client := None, au_capture := None, au_fmt := None, au_open := False\<rparr>"

text \<open>\<open>audio_capture\<close>: \<open>None\<close> is a crash; \<open>Some None\<close> is the code -1 of a module that is not open.\<close>

definition audio_capture :: "int \<Rightarrow> packet list \<Rightarrow> nat \<Rightarrow> audio_mod \<Rightarrow> bytes option option" where
  "audio_capture ub ps cap m =
     (if \<not> au_open m \<or> au_capture m = None then Some None
      else if ps = [] then Some (Some [])
      else (case au_fmt m of None \<Rightarrow> None | Some f \<Rightarrow> map_option Some (audio_packets ub f cap ps [])))"

definition audioMaxBuf :: nat where "audioMaxBuf = 128 * 1024"

definition audioInit :: "audio_env \<Rightarrow> audio_mod \<Rightarrow> audio_mod" where
  "audioInit e m = (case audio_init e m of (m', rc) \<Rightarrow> if rc \<noteq> 0 then m' else m'\<lparr>au_done := True\<rparr>)"

definition audioCapture :: "int \<Rightarrow> packet list \<Rightarrow> audio_mod \<Rightarrow> bytes option option" where
  "audioCapture ub ps m =
     (if \<not> au_done m then Some None
      else (case audio_capture ub ps audioMaxBuf m of
          None \<Rightarrow> None
        | Some None \<Rightarrow> Some None
        | Some (Some out) \<Rightarrow> Some (if out = [] then None else Some out)))"

definition audioClose :: "audio_mod \<Rightarrow> audio_mod" where
  "audioClose m = (if au_done m then (audio_close m)\<lparr>au_done := False\<rparr> else m)"

definition audioSampleRate :: "audio_mod \<Rightarrow> int" where
  "audioSampleRate m = (if \<not> au_done m then 48000 else (case au_fmt m of Some f \<Rightarrow> int (wf_rate f) | None \<Rightarrow> 48000))"

text \<open>The stub of the other platforms: never open, never data.\<close>

definition stub_audioCapture :: "bytes option" where "stub_audioCapture = None"

definition stub_audioSampleRate :: int where "stub_audioSampleRate = 48000"

end
