(* ===== verification/Audio_Props.thy ===== *)
theory Audio_Props
  imports Audio
begin

text \<open>
  Properties of the audio capture: what its buffer holds, the range of a sample, and the life of its interfaces.
\<close>

section \<open>Samples\<close>

lemma round_even_le: "r \<le> of_int n \<Longrightarrow> round_even r \<le> n"
proof -
  assume r: "r \<le> of_int n"
  then have f: "\<lfloor>r\<rfloor> \<le> n" by (simp add: floor_le_iff)
  show ?thesis
  proof (cases "\<lfloor>r\<rfloor> = n")
    case True
    with r have "r - of_int \<lfloor>r\<rfloor> \<le> 0" by simp
    with True show ?thesis by (simp add: round_even_def Let_def)
  next
    case False
    with f show ?thesis by (simp add: round_even_def Let_def)
  qed
qed

lemma round_even_nonneg: "0 \<le> r \<Longrightarrow> 0 \<le> round_even r"
  by (simp add: round_even_def Let_def)

lemma rat_pow2_pos: "0 < rat_pow2 e"
  by (simp add: rat_pow2_def)

lemma rat_pow2_add: "rat_pow2 a * rat_pow2 b = rat_pow2 (a + b)"
proof -
  have p: "rat_pow2 e = 2 powi e" for e
    by (cases "0 \<le> e") (simp_all add: rat_pow2_def power_int_def field_simps)
  show ?thesis unfolding p by (rule power_int_add [symmetric]) simp
qed

lemma rat_pow2_mono: "a \<le> b \<Longrightarrow> rat_pow2 a \<le> rat_pow2 b"
proof -
  assume "a \<le> b"
  then have "rat_pow2 b = rat_pow2 a * 2 ^ nat (b - a)" using rat_pow2_add [of a "b - a"] by (simp add: rat_pow2_def)
  moreover have "(1 :: rat) \<le> 2 ^ nat (b - a)" by simp
  ultimately show ?thesis using rat_pow2_pos [of a] by simp
qed

text \<open>The exponent of a positive rational is its logarithm, rounded down.\<close>

lemma floorlog_nat: "0 < n \<Longrightarrow> 2 ^ (floorlog 2 n - 1) \<le> n \<and> n < (2 :: nat) ^ floorlog 2 n \<and> 0 < floorlog 2 n"
  using floorlog_bounds [of n 2] by (simp add: floorlog_def)

lemma rat_exponent_le:
  assumes "0 < x"
  shows "rat_pow2 (rat_exponent x) \<le> x"
proof -
  obtain p q where pq: "quotient_of x = (p, q)" by (cases "quotient_of x")
  have q: "0 < q" using quotient_of_denom_pos [OF pq] .
  have x: "x = of_int p / of_int q" using quotient_of_div [OF pq] .
  with assms q have p: "0 < p" by (simp add: zero_less_divide_iff)
  let ?a = "floorlog 2 (nat p)" and ?b = "floorlog 2 (nat q)"
  have a: "2 ^ (?a - 1) \<le> nat p" "0 < ?a" using floorlog_nat [of "nat p"] p by auto
  have b: "nat q < 2 ^ ?b" using floorlog_nat [of "nat q"] q by auto
  have a1: "rat_pow2 (int ?a - 1) \<le> of_int p"
  proof -
    have "int (2 ^ (?a - 1)) \<le> p" using a(1) p by linarith
    then have "(of_int (2 ^ (?a - 1)) :: rat) \<le> of_int p" by (simp only: of_int_le_iff of_nat_power of_nat_numeral)
    moreover have "nat (int ?a - 1) = ?a - 1" using a(2) by linarith
    ultimately show ?thesis using a(2) by (simp add: rat_pow2_def)
  qed
  have b1: "of_int q \<le> rat_pow2 (int ?b)"
  proof -
    have "q \<le> int (2 ^ ?b)" using b q by linarith
    then have "(of_int q :: rat) \<le> of_int (2 ^ ?b)" by (simp only: of_int_le_iff of_nat_power of_nat_numeral)
    then show ?thesis by (simp add: rat_pow2_def)
  qed
  have "rat_pow2 (int ?a - int ?b - 1) * of_int q \<le> rat_pow2 (int ?a - int ?b - 1) * rat_pow2 (int ?b)"
    using b1 rat_pow2_pos [of "int ?a - int ?b - 1"] by simp
  also have "\<dots> = rat_pow2 (int ?a - 1)" by (simp add: rat_pow2_add)
  also have "\<dots> \<le> of_int p" by (rule a1)
  finally have "rat_pow2 (int ?a - int ?b - 1) \<le> x" using q by (simp add: x pos_le_divide_eq)
  then show ?thesis by (simp add: rat_exponent_def pq Let_def)
qed

text \<open>Rounding does not pass an integer below \<open>2 ^ 24\<close>, which a float holds.\<close>

lemma f32_round_le:
  assumes "\<bar>x\<bar> \<le> of_int n" "0 \<le> n" "n < 2 ^ 24"
  obtains y where "f32_round x = Fin y" "\<bar>y\<bar> \<le> of_int n"
proof (cases "x = 0")
  case True
  with assms(2) that [of 0] show ?thesis by (simp add: f32_round_def)
next
  case False
  define e where "e = max (rat_exponent \<bar>x\<bar>) (- 126) - 23"
  let ?u = "rat_pow2 e" and ?r = "round_even (\<bar>x\<bar> / rat_pow2 e)"
  have u: "0 < ?u" by (rule rat_pow2_pos)
  have "rat_pow2 (rat_exponent \<bar>x\<bar>) \<le> of_int n" using rat_exponent_le [of "\<bar>x\<bar>"] assms(1) False by simp
  also have "\<dots> < rat_pow2 24" using assms(3) by (simp add: rat_pow2_def)
  finally have "rat_exponent \<bar>x\<bar> < 24" using rat_pow2_mono [of 24 "rat_exponent \<bar>x\<bar>"] by (meson not_le)
  then have e: "e \<le> 0" by (simp add: e_def)
  let ?k = "2 ^ nat (- e) :: int"
  have k: "?u * of_int ?k = 1" using e by (simp add: rat_pow2_def)
  have "\<bar>x\<bar> / ?u \<le> of_int (n * ?k)"
  proof -
    have "\<bar>x\<bar> \<le> of_int n * (of_int ?k * ?u)" using assms(1) k by (simp add: mult.commute)
    then show ?thesis using u by (simp add: pos_divide_le_eq mult.assoc)
  qed
  then have "?r \<le> n * ?k" by (rule round_even_le)
  then have "(of_int ?r :: rat) \<le> of_int (n * ?k)" by (simp only: of_int_le_iff)
  then have "of_int ?r * ?u \<le> of_int (n * ?k) * ?u" using u by simp
  also have "\<dots> = of_int n * (?u * of_int ?k)" by simp
  also have "\<dots> = of_int n" by (simp only: k mult_1_right)
  finally have y: "of_int ?r * ?u \<le> of_int n" .
  have "0 \<le> \<bar>x\<bar> / ?u" using u by simp
  then have y0: "0 \<le> of_int ?r * ?u" using round_even_nonneg [of "\<bar>x\<bar> / ?u"] u by simp
  have "(of_int n :: rat) < 2 ^ 128"
  proof -
    have "n < 2 ^ 128" using assms(3) by (rule less_trans) simp
    then have "(of_int n :: rat) < of_int (2 ^ 128)" by (simp only: of_int_less_iff)
    then show ?thesis by simp
  qed
  with y have lt: "\<not> 2 ^ 128 \<le> of_int ?r * ?u" by linarith
  let ?y = "if x < 0 then - (of_int ?r * ?u) else of_int ?r * ?u"
  have "f32_round x = Fin ?y"
    unfolding f32_round_def Let_def e_def [symmetric] using False lt by simp
  moreover have "\<bar>?y\<bar> \<le> of_int n" using y y0 by (simp only: if_distrib [of abs] abs_minus_cancel if_cancel abs_of_nonneg [OF y0])
  ultimately show ?thesis by (rule that)
qed

lemma rat_trunc_bound: "\<bar>y\<bar> \<le> of_int n \<Longrightarrow> \<bar>rat_trunc y\<bar> \<le> n"
proof -
  assume y: "\<bar>y\<bar> \<le> of_int n"
  have "\<lfloor>\<bar>y\<bar>\<rfloor> \<le> n" using floor_mono [OF y] by simp
  moreover have "0 \<le> \<lfloor>\<bar>y\<bar>\<rfloor>" by simp
  ultimately show ?thesis by (cases "0 \<le> y") (simp_all add: rat_trunc_def)
qed

lemma f32_clamp_range: "v \<noteq> NaN \<Longrightarrow> \<exists>c. f32_clamp v = Fin c \<and> \<bar>c\<bar> \<le> 1"
  by (cases v) auto

lemma to_short_range:
  assumes "v \<noteq> NaN"
  shows "\<bar>to_short ub (f32_clamp v)\<bar> \<le> 32767"
proof -
  obtain c where c: "f32_clamp v = Fin c" "\<bar>c\<bar> \<le> 1"
    using f32_clamp_range [OF assms] by blast
  have "\<bar>c * 32767\<bar> \<le> of_int 32767" using c(2) by (simp add: abs_mult)
  from f32_round_le [OF this] obtain y where "f32_round (c * 32767) = Fin y" "\<bar>y\<bar> \<le> of_int 32767" by auto
  with rat_trunc_bound [of y 32767] c(1) show ?thesis by (simp add: to_short_def)
qed

section \<open>The buffer\<close>

text \<open>A packet that has the memory its format needs.\<close>

definition sample_bytes :: "wave_format \<Rightarrow> nat" where
  "sample_bytes f = (if is_float_format f \<or> wf_bits f div 8 = 4 then 4 else if wf_bits f div 8 = 2 then 2 else 0)"

fun packet_ok :: "wave_format \<Rightarrow> packet \<Rightarrow> bool" where
  "packet_ok f None = True"
| "packet_ok f (Some (d, n, silent)) = (silent \<or> (0 < wf_channels f \<and> n * wf_channels f * sample_bytes f \<le> length d))"

lemma short_bytes_length [simp]: "length (short_bytes s) = 2"
  by (simp add: short_bytes_def)

lemma sum_floats_Some: "(\<And>k. k \<in> set ks \<Longrightarrow> 4 * k + 4 \<le> length d) \<Longrightarrow> \<exists>s. sum_floats d ks acc = Some s"
  by (induction ks arbitrary: acc) (simp_all add: read_float_def)

lemma sum_shorts_Some: "(\<And>k. k \<in> set ks \<Longrightarrow> 2 * k + 2 \<le> length d) \<Longrightarrow> \<exists>s. sum_shorts d ks acc = Some s"
  by (induction ks arbitrary: acc) (simp_all add: read_short_def Let_def)

lemma frame_places_bound: "k \<in> set (frame_places f i) \<Longrightarrow> i < n \<Longrightarrow> k + 1 \<le> n * wf_channels f"
proof -
  assume k: "k \<in> set (frame_places f i)" "i < n"
  then have "k < Suc i * wf_channels f" by (auto simp: frame_places_def)
  also have "\<dots> \<le> n * wf_channels f" using k(2) by (intro mult_le_mono1) simp
  finally show ?thesis by simp
qed

lemma audio_sample_ok:
  assumes "packet_ok f (Some (d, n, silent))" "i < n"
  shows "\<exists>b. audio_sample ub f silent d i = Some b \<and> length b = 2"
proof (cases silent)
  case True
  then show ?thesis by (simp add: audio_sample_def)
next
  case False
  with assms have ch: "0 < wf_channels f" "n * wf_channels f * sample_bytes f \<le> length d" by simp_all
  have fl: "4 * k + 4 \<le> length d" if "sample_bytes f = 4" "k \<in> set (frame_places f i)" for k
    using frame_places_bound [OF that(2) assms(2)] ch(2) that(1) by simp
  have sh: "2 * k + 2 \<le> length d" if "sample_bytes f = 2" "k \<in> set (frame_places f i)" for k
    using frame_places_bound [OF that(2) assms(2)] ch(2) that(1) by simp
  show ?thesis
  proof (cases "is_float_format f \<or> wf_bits f div 8 = 4")
    case True
    then have "sample_bytes f = 4" by (simp add: sample_bytes_def)
    from sum_floats_Some [OF fl [OF this]] obtain s where "sum_floats d (frame_places f i) (Fin 0) = Some s" by blast
    with True False show ?thesis by (simp add: audio_sample_def)
  next
    case nf: False
    show ?thesis
    proof (cases "wf_bits f div 8 = 2")
      case True
      with nf have "sample_bytes f = 2" by (simp add: sample_bytes_def)
      from sum_shorts_Some [OF sh [OF this]] obtain s where "sum_shorts d (frame_places f i) 0 = Some s" by blast
      with True False nf ch show ?thesis by (simp add: audio_sample_def)
    next
      case False
      with nf \<open>\<not> silent\<close> show ?thesis by (simp add: audio_sample_def)
    qed
  qed
qed

text \<open>The samples of all packets up to the first that cannot be got.\<close>

fun all_samples :: "int \<Rightarrow> wave_format \<Rightarrow> packet list \<Rightarrow> bytes list" where
  "all_samples ub f [] = []"
| "all_samples ub f (None # ps) = []"
| "all_samples ub f (Some (d, n, silent) # ps) =
     map (\<lambda>i. the (audio_sample ub f silent d i)) [0..<n] @ all_samples ub f ps"

lemma audio_frames_samples:
  "(\<And>i. i \<in> set is \<Longrightarrow> \<exists>b. sample i = Some b \<and> length b = 2) \<Longrightarrow> length out \<le> cap \<Longrightarrow>
     audio_frames sample is cap out = Some (out @ concat (take ((cap - length out) div 2) (map (\<lambda>i. the (sample i)) is)))"
proof (induction "is" arbitrary: out)
  case (Cons i "is")
  then obtain b where b: "sample i = Some b" "length b = 2" by auto
  show ?case
  proof (cases "length out + 2 \<le> cap")
    case True
    then have "(cap - length out) div 2 = Suc ((cap - length (out @ b)) div 2)" using b(2) by simp
    with True Cons.IH [of "out @ b"] Cons.prems b show ?thesis by simp
  next
    case False
    then have "(cap - length out) div 2 = 0" by simp
    with False show ?thesis by simp
  qed
qed simp

lemma length_concat_pairs: "list_all (\<lambda>b. length b = 2) bs \<Longrightarrow> length (concat bs) = 2 * length bs"
  by (induction bs) auto

lemma list_all_take: "list_all P xs \<Longrightarrow> list_all P (take n xs)"
  by (meson in_set_takeD list.pred_set)

lemma audio_packets_samples:
  "list_all (packet_ok f) ps \<Longrightarrow> length out \<le> cap \<Longrightarrow>
     audio_packets ub f cap ps out = Some (out @ concat (take ((cap - length out) div 2) (all_samples ub f ps)))"
proof (induction ps arbitrary: out)
  case (Cons p ps)
  show ?case
  proof (cases p)
    case (Some x)
    obtain d n silent where x: "x = (d, n, silent)" by (cases x)
    with Cons.prems Some have ok: "packet_ok f (Some (d, n, silent))" "list_all (packet_ok f) ps" by simp_all
    let ?k = "(cap - length out) div 2" and ?s = "map (\<lambda>i. the (audio_sample ub f silent d i)) [0..<n]"
    have s: "\<exists>b. audio_sample ub f silent d i = Some b \<and> length b = 2" if "i \<in> set [0..<n]" for i
      using audio_sample_ok [OF ok(1), of i ub] that by simp
    let ?out = "out @ concat (take ?k ?s)"
    have fr: "audio_frames (audio_sample ub f silent d) [0..<n] cap out = Some ?out"
      by (rule audio_frames_samples [OF s Cons.prems(2)])
    have "length (the (audio_sample ub f silent d i)) = 2" if "i \<in> set [0..<n]" for i
      using s [OF that] by auto
    then have "list_all (\<lambda>b. length b = 2) ?s" by (auto simp: list_all_iff)
    then have "list_all (\<lambda>b. length b = 2) (take ?k ?s)" by (rule list_all_take)
    from length_concat_pairs [OF this] have l: "length ?out = length out + 2 * min ?k n" by (simp add: min.commute)
    have k2: "2 * ?k \<le> cap - length out" by simp
    have "2 * min ?k n \<le> 2 * ?k" by simp
    with k2 l Cons.prems(2) have le: "length ?out \<le> cap" by linarith
    have "(cap - length ?out) div 2 = ?k - min ?k n" unfolding l by linarith
    then have "concat (take ?k ?s) @ concat (take ((cap - length ?out) div 2) (all_samples ub f ps))
        = concat (take ?k (?s @ all_samples ub f ps))"
      by (simp add: take_append)  (simp add: min_def)
    with Cons.IH [OF ok(2) le] fr Some x show ?thesis by simp
  qed simp
qed simp

text \<open>
  C29. The audio chunk of a stream is the samples of the waiting packets in order, two bytes each, cut at the capacity of the
  buffer: the reads stay inside the packets when these have the memory their format needs, nothing is written past the
  buffer, and what does not fit is dropped.
\<close>

theorem audio_chunk_samples:
  assumes "au_done m" "au_open m" "au_capture m \<noteq> None" "au_fmt m = Some f" "list_all (packet_ok f) ps"
  shows "audioCapture ub ps m = Some (if all_samples ub f ps = [] then None else Some (concat (take 65536 (all_samples ub f ps))))
     \<and> length (concat (take 65536 (all_samples ub f ps))) = 2 * min 65536 (length (all_samples ub f ps))"
proof -
  have p: "audio_packets ub f audioMaxBuf ps [] = Some (concat (take 65536 (all_samples ub f ps)))"
    using audio_packets_samples [OF assms(5), of "[]" audioMaxBuf ub] by (simp add: audioMaxBuf_def)
  have two: "list_all (\<lambda>b. length b = 2) (all_samples ub f ps)"
    using assms(5)
  proof (induction ps)
    case (Cons p ps)
    show ?case
    proof (cases p)
      case (Some x)
      obtain d n silent where x: "x = (d, n, silent)" by (cases x)
      with Cons Some have "packet_ok f (Some (d, n, silent))" "list_all (\<lambda>b. length b = 2) (all_samples ub f ps)" by simp_all
      with audio_sample_ok [of f d n silent _ ub] Some x show ?thesis by (fastforce simp: list_all_iff)
    qed simp
  qed simp
  then have "list_all (\<lambda>b. length b = 2) (take 65536 (all_samples ub f ps))" by (rule list_all_take)
  from length_concat_pairs [OF this]
  have l: "length (concat (take 65536 (all_samples ub f ps))) = 2 * min 65536 (length (all_samples ub f ps))"
    by (simp add: min.commute)
  then have "length (concat (take 65536 (all_samples ub f ps))) = 0 \<longleftrightarrow> length (all_samples ub f ps) = 0"
    by (cases "length (all_samples ub f ps) = 0") (simp_all add: min_def)
  then have "concat (take 65536 (all_samples ub f ps)) = [] \<longleftrightarrow> all_samples ub f ps = []" by (simp only: length_0_conv)
  with p l assms(1-4) show ?thesis by (auto simp: audioCapture_def audio_capture_def)
qed

section \<open>Formats\<close>

lemma byte_pair: "le_bytes 2 (le_nat [x, y]) = [x, y]"
proof -
  have z: "(256 :: byte) = 0" by simp
  have "(of_nat (unat x + 256 * unat y) :: byte) = of_nat (unat x) + 256 * of_nat (unat y)" by (simp only: of_nat_add of_nat_mult of_nat_numeral)
  also have "\<dots> = x" unfolding z by simp
  finally have 1: "(of_nat (unat x + 256 * unat y) :: byte) = x" .
  have "(unat x + 256 * unat y) div 256 = unat y" using unat_byte_less [of x] by simp
  then have 2: "(of_nat ((unat x + 256 * unat y) div 256) :: byte) = y" by simp
  have "le_nat [x, y] = unat x + 256 * unat y" by simp
  with 1 2 show ?thesis by (simp only: numeral_2_eq_2 le_bytes.simps)
qed

lemma read_short_bytes: "read_short d k = Some s \<Longrightarrow> short_bytes s = take 2 (drop (2 * k) d)"
proof -
  assume r: "read_short d k = Some s"
  then have l: "2 * k + 2 \<le> length d" by (simp add: read_short_def split: if_splits)
  then obtain x y rest where d: "drop (2 * k) d = x # y # rest"
    by (metis Cons_nth_drop_Suc Suc_leD add_2_eq_Suc' le_less_trans lessI not_less_eq_eq not_le)
  let ?n = "le_nat [x, y]"
  have n: "?n < 2 ^ 16" using le_nat_bound [of "[x, y]"] by simp
  have "s = (if int ?n < 2 ^ 15 then int ?n else int ?n - 2 ^ 16)"
    using r d by (simp add: read_short_def Let_def split: if_splits)
  moreover have "(int ?n - 2 ^ 16) mod 2 ^ 16 = int ?n mod 2 ^ 16" by (simp only: minus_mod_self2)
  ultimately have "s mod 2 ^ 16 = int ?n mod 2 ^ 16" by (auto split: if_splits)
  also have "\<dots> = int ?n" using n by (metis mod_less of_nat_mod of_nat_numeral of_nat_power)
  finally have "nat (s mod 2 ^ 16) = ?n" by (simp only: nat_int)
  then show ?thesis by (simp only: short_bytes_def byte_pair d) simp
qed

text \<open>
  What the conversion does to a sample, by format: 16-bit mono goes through unchanged; a float is clamped, and its sample
  lies in -32767 to 32767; silence, and every other width, as 24 bits, gives zeros.
\<close>

theorem audio_sample_formats:
  assumes "read_short d i = Some s" "sum_floats d (frame_places fl i) (Fin 0) = Some v" "f32_div_int v (int (wf_channels fl)) \<noteq> NaN"
    and "is_float_format fl" "\<not> is_float_format f" "wf_channels f = 1" "wf_bits f = 16" "\<not> is_float_format g" "wf_bits g = 24"
  shows "audio_sample ub f False d i = Some (take 2 (drop (2 * i) d))
     \<and> (\<exists>x. audio_sample ub fl False d i = Some (short_bytes x) \<and> \<bar>x\<bar> \<le> 32767)
     \<and> audio_sample ub g False d i = Some [0, 0] \<and> audio_sample ub h True d i = Some [0, 0]"
proof -
  have "frame_places f i = [i]" using assms(6) by (simp add: frame_places_def)
  then have "audio_sample ub f False d i = Some (short_bytes s)"
    using assms(1,5,6,7) by (simp add: audio_sample_def go_div_def)
  then have 1: "audio_sample ub f False d i = Some (take 2 (drop (2 * i) d))" using read_short_bytes [OF assms(1)] by simp
  have "audio_sample ub fl False d i = Some (short_bytes (to_short ub (f32_clamp (f32_div_int v (int (wf_channels fl))))))"
    using assms(2,4) by (simp add: audio_sample_def)
  with to_short_range [OF assms(3), of ub] have 2: "\<exists>x. audio_sample ub fl False d i = Some (short_bytes x) \<and> \<bar>x\<bar> \<le> 32767" by blast
  have "short_bytes 0 = [0, 0]" by (simp add: short_bytes_def numeral_2_eq_2)
  with 1 2 assms(8,9) show ?thesis by (simp add: audio_sample_def)
qed

text \<open>
  A device whose extensible format has 16-bit samples is taken for one of floats: the conversion reads four bytes for
  every two there are, past the end of the packet.
\<close>

theorem extensible_short_reads_past:
  assumes "wf_tag f = 0xFFFE" "22 \<le> wf_cbSize f" "0 < wf_channels f" "0 < n" "length d = 2 * wf_channels f * n" "n \<le> 65536"
    and "au_done m" "au_open m" "au_capture m \<noteq> None" "au_fmt m = Some f"
  shows "audioCapture ub (Some (d, n, False) # ps) m = None"
proof -
  have frames: "audio_frames sample is cap out = None"
    if "\<exists>i \<in> set is. sample i = None" "length out + 2 * length is \<le> cap" "\<And>i b. sample i = Some b \<Longrightarrow> length b = 2"
    for sample "is" cap out
    using that
  proof (induction "is" arbitrary: out)
    case (Cons i "is")
    show ?case
    proof (cases "sample i")
      case (Some b)
      with Cons.prems have "\<exists>i \<in> set is. sample i = None" "length (out @ b) + 2 * length is \<le> cap" by auto
      from Cons.IH [OF this Cons.prems(3)] Some Cons.prems(2) show ?thesis by simp
    qed (use Cons.prems(2) in simp)
  qed simp
  let ?last = "(n - 1) * wf_channels f + (wf_channels f - 1)"
  have l: "?last + 1 = n * wf_channels f" using assms(3,4) by (cases n) simp_all
  have "0 < n * wf_channels f" using assms(3,4) by simp
  then have "length d < 4 * ?last + 4" using l assms(5) by (simp add: mult.commute)
  then have none: "read_float d ?last = None" by (simp add: read_float_def)
  have sums: "k \<in> set ks \<Longrightarrow> read_float d k = None \<Longrightarrow> sum_floats d ks acc = None" for k ks acc
    by (induction ks arbitrary: acc) (auto split: option.split)
  have "?last \<in> set (frame_places f (n - 1))" using assms(3) by (auto simp: frame_places_def)
  then have "sum_floats d (frame_places f (n - 1)) (Fin 0) = None" using sums none by blast
  then have "audio_sample ub f False d (n - 1) = None" using assms(1,2) by (simp add: audio_sample_def is_float_format_def)
  then have ex: "\<exists>i \<in> set [0..<n]. audio_sample ub f False d i = None" using assms(4) by (intro bexI [of _ "n - 1"]) simp_all
  have two: "length b = 2" if "audio_sample ub f False d i = Some b" for i b
    using that assms(1,2) by (auto simp: audio_sample_def is_float_format_def)
  have "audio_frames (audio_sample ub f False d) [0..<n] audioMaxBuf [] = None"
    by (rule frames [OF ex _ two]) (use assms(6) in \<open>simp add: audioMaxBuf_def\<close>)
  then show ?thesis using assms(7-) by (simp add: audioCapture_def audio_capture_def)
qed

section \<open>The life of the interfaces\<close>

text \<open>Between uses nothing is open, and what is open is alive and has its own number.\<close>

definition audio_inv :: "audio_mod \<Rightarrow> bool" where
  "audio_inv m \<longleftrightarrow> list_all (\<lambda>i. i < au_next m) (au_alive m)
     \<and> (au_open m \<longrightarrow> au_client m \<noteq> None \<and> au_capture m \<noteq> None \<and> au_fmt m \<noteq> None)
     \<and> (au_done m \<longrightarrow> au_open m)"

text \<open>
  The interfaces of the audio capture belong to the process. Opened and closed, they are all released. The end of one
  stream closes them for every other, which is silent from then on; and when the initialisation fails after the client was
  made, nothing releases it: each further attempt leaves one more behind.
\<close>

theorem audio_interfaces:
  assumes "audio_inv m" "\<not> au_open m" "ae_enumerator e" "ae_endpoint e" "ae_activate e"
  shows "(case audio_init e m of (m1, rc) \<Rightarrow>
       if rc = 0 then au_alive (audioClose (audioInit e m)) = au_alive m
            \<and> audioCapture ub ps (audioClose (audioInit e m)) = Some None
            \<and> audioInit e2 (audioInit e m) = audioInit e m
       else \<not> au_done (audioInit e m) \<and> audioClose (audioInit e m) = audioInit e m
            \<and> length (au_alive m) < length (au_alive (audioInit e m)))"
proof -
  have d: "\<not> au_done m" using assms(1,2) by (auto simp: audio_inv_def)
  have fresh: "au_next m \<notin> set (au_alive m)" "Suc (au_next m) \<notin> set (au_alive m)"
    using assms(1) by (auto simp: audio_inv_def list_all_iff)
  then have r: "removeAll (Suc (au_next m)) (removeAll (au_next m) (Suc (au_next m) # au_next m # au_alive m)) = au_alive m" by simp
  show ?thesis
  proof (cases "ae_format e")
    case None
    with assms d show ?thesis by (simp add: audio_init_def audioInit_def audioClose_def new_client_def)
  next
    case (Some f)
    show ?thesis
    proof (cases "ae_initialize e \<and> ae_service e \<and> ae_start e")
      case True
      with Some assms d r show ?thesis
        by (simp add: audio_init_def audioInit_def audioClose_def audio_close_def release_def audioCapture_def new_client_def new_capture_def)
    next
      case False
      with Some assms d show ?thesis
        by (auto simp: audio_init_def audioInit_def audioClose_def new_client_def new_capture_def Let_def)
    qed
  qed
qed

section \<open>Concrete captures\<close>

definition demo_fmt :: "nat \<Rightarrow> nat \<Rightarrow> wave_format" where
  "demo_fmt tag bits = \<lparr>wf_tag = tag, wf_channels = 1, wf_rate = 48000, wf_bits = bits, wf_cbSize = 22\<rparr>"

definition demo_pcm :: wave_format where
  "demo_pcm = demo_fmt 1 16"

definition demo_audio :: "wave_format \<Rightarrow> audio_env" where
  "demo_audio f = \<lparr>ae_enumerator = True, ae_endpoint = True, ae_activate = True, ae_format = Some f, ae_initialize = True,
     ae_service = True, ae_start = True\<rparr>"

lemma demo_audio_open:
  "au_done (audioInit (demo_audio f) no_audio)" "au_open (audioInit (demo_audio f) no_audio)"
  "au_capture (audioInit (demo_audio f) no_audio) \<noteq> None" "au_fmt (audioInit (demo_audio f) no_audio) = Some f"
  by (simp_all add: audioInit_def audio_init_def demo_audio_def no_audio_def new_client_def new_capture_def)

lemma audio_chunk_samples_witness:
  "audioCapture 0 [Some ([1, 2, 3, 4], 2, False), Some ([], 1, True), None] (audioInit (demo_audio demo_pcm) no_audio)
     = Some (Some [1, 2, 3, 4, 0, 0])"
proof -
  let ?ps = "[Some ([1, 2, 3, 4], 2, False), Some ([], 1, True), None] :: packet list"
  have ok: "list_all (packet_ok demo_pcm) ?ps"
    by (simp add: demo_fmt_def demo_pcm_def sample_bytes_def is_float_format_def)
  have fp: "frame_places demo_pcm i = [i]" for i by (simp add: frame_places_def demo_fmt_def demo_pcm_def)
  have one: "audio_sample 0 demo_pcm False d i = map_option short_bytes (read_short d i)" for d i
    using fp [of i] by (cases "read_short d i") (simp_all add: audio_sample_def is_float_format_def demo_fmt_def demo_pcm_def go_div_def)
  have r: "read_short [1, 2, 3, 4] 0 = Some 513" "read_short [1, 2, 3, 4] 1 = Some 1027"
    by (simp_all add: read_short_def Let_def)
  have "short_bytes 513 = [1, 2]" "short_bytes 1027 = [3, 4]" "short_bytes 0 = [0, 0]"
    using read_short_bytes [OF r(1)] read_short_bytes [OF r(2)] by (simp_all add: short_bytes_def numeral_2_eq_2)
  moreover note r
  moreover have "[0..<2] = [0, 1 :: nat]" "[0..<1] = [0 :: nat]" by (simp_all add: upt_rec)
  ultimately have "all_samples 0 demo_pcm ?ps = [[1, 2], [3, 4], [0, 0]]"
    by (simp add: one) (simp add: audio_sample_def)
  with audio_chunk_samples [OF demo_audio_open ok, of 0] show ?thesis by simp
qed

lemma audio_sample_formats_witness:
  "\<exists>x. audio_sample 0 (demo_fmt 3 32) False [0, 0, 0, 0] 0 = Some (short_bytes x) \<and> \<bar>x\<bar> \<le> 32767"
proof -
  have r: "read_short [0, 0, 0, 0] 0 = Some 0" by (simp add: read_short_def Let_def)
  have "read_float [0, 0, 0, 0] 0 = Some (Fin 0)" by (simp add: read_float_def f32_of_bits_def Let_def)
  then have f: "sum_floats [0, 0, 0, 0] (frame_places (demo_fmt 3 32) 0) (Fin 0) = Some (Fin 0)"
    by (simp add: frame_places_def demo_fmt_def demo_pcm_def f32_round_def)
  have d: "f32_div_int (Fin 0) (int (wf_channels (demo_fmt 3 32))) \<noteq> NaN" by (simp add: demo_fmt_def demo_pcm_def f32_round_def)
  show ?thesis
    using audio_sample_formats [OF r f d, of "demo_pcm" "demo_fmt 1 24" 0 "demo_pcm"]
    by (simp add: demo_fmt_def demo_pcm_def is_float_format_def)
qed

lemma extensible_short_reads_past_witness:
  "audioCapture 0 [Some ([1, 2, 3, 4], 2, False)] (audioInit (demo_audio (demo_fmt 0xFFFE 16)) no_audio) = None"
proof -
  have w: "wf_tag (demo_fmt 0xFFFE 16) = 0xFFFE" "22 \<le> wf_cbSize (demo_fmt 0xFFFE 16)" "0 < wf_channels (demo_fmt 0xFFFE 16)"
    "0 < (2 :: nat)" "length ([1, 2, 3, 4] :: bytes) = 2 * wf_channels (demo_fmt 0xFFFE 16) * 2" "(2 :: nat) \<le> 65536"
    by (simp_all add: demo_fmt_def demo_pcm_def)
  show ?thesis by (rule extensible_short_reads_past [OF w demo_audio_open])
qed

lemma audio_interfaces_witness:
  "audioCapture 0 [] (audioClose (audioInit (demo_audio demo_pcm) no_audio)) = Some None"
proof -
  have i: "audio_inv no_audio" "\<not> au_open no_audio" by (simp_all add: audio_inv_def no_audio_def)
  have e: "ae_enumerator (demo_audio f)" "ae_endpoint (demo_audio f)" "ae_activate (demo_audio f)" for f
    by (simp_all add: demo_audio_def)
  have "snd (audio_init (demo_audio demo_pcm) no_audio) = 0"
    by (simp add: audio_init_def demo_audio_def no_audio_def new_client_def new_capture_def)
  then obtain m1 where "audio_init (demo_audio demo_pcm) no_audio = (m1, 0)" by (metis prod.collapse)
  with audio_interfaces [OF i e, of "demo_pcm" 0 "[]" "demo_audio demo_pcm"] show ?thesis by simp
qed

end
