(* ===== verification/Cmdline_Props.thy ===== *)
theory Cmdline_Props
  imports Cmdline
begin

text \<open>
  What a helper receives of the command line it was started with: every text without a quotation mark arrives as
  it was given, and an operator's name with one adds flags of its own.
\<close>

section \<open>Arguments\<close>

definition quotable :: "string \<Rightarrow> bool" where
  "quotable s \<longleftrightarrow> CHR 0x22 \<notin> set s \<and> (s \<noteq> [] \<longrightarrow> last s \<noteq> CHR 0x5C)"

definition plain_word :: "string \<Rightarrow> bool" where
  "plain_word s \<longleftrightarrow> s \<noteq> [] \<and> list_all (\<lambda>c. c \<notin> {CHR 0x22, CHR 0x5C, CHR '' '', CHR 0x09}) s"

lemma backslashes_simps [simp]:
  "backslashes 0 = []" "backslashes n @ CHR 0x5C # s = CHR 0x5C # backslashes n @ s"
  "backslashes (Suc n) = CHR 0x5C # backslashes n"
  by (simp_all add: backslashes_def replicate_app_Cons_same)

lemma arg_text:
  assumes "CHR 0x22 \<notin> set s" "s \<noteq> []" "last s \<noteq> CHR 0x5C" "q \<or> (CHR '' '' \<notin> set s \<and> CHR 0x09 \<notin> set s)"
  shows "readNextArg q n b (s @ r) = readNextArg q 0 (b @ backslashes n @ s) r"
  using assms
proof (induction s arbitrary: n b)
  case (Cons c cs)
  show ?case
  proof (cases "c = CHR 0x5C")
    case True
    with Cons.prems have "cs \<noteq> []" "last cs \<noteq> CHR 0x5C" by (auto split: if_splits)
    with Cons.IH [of "Suc n" b] Cons.prems True show ?thesis by auto
  next
    case False
    show ?thesis
    proof (cases "cs = []")
      case True
      with False Cons.prems show ?thesis by auto
    next
      case ne: False
      with Cons.IH [of 0 "b @ backslashes n @ [c]"] Cons.prems False show ?thesis by auto
    qed
  qed
qed simp

lemma arg_quotable: "quotable s \<Longrightarrow> readNextArg True 0 b (s @ r) = readNextArg True 0 (b @ s) r"
  using arg_text [of s True 0 b r] by (cases "s = []") (auto simp: quotable_def)

lemma arg_plain: "plain_word s \<Longrightarrow> readNextArg False 0 b (s @ r) = readNextArg False 0 (b @ s) r"
  using arg_text [of s False 0 b r] by (auto simp: plain_word_def list_all_iff)

lemma arg_quoted:
  assumes "quotable s" "r = [] \<or> hd r \<noteq> CHR 0x22"
  shows "readNextArg False 0 b (CHR 0x22 # s @ CHR 0x22 # r) = readNextArg False 0 (b @ s) r"
proof -
  have "readNextArg False 0 b (CHR 0x22 # s @ CHR 0x22 # r) = readNextArg True 0 b (s @ CHR 0x22 # r)"
    by (simp add: doubled_quote_def)
  also have "\<dots> = readNextArg True 0 (b @ s) (CHR 0x22 # r)" by (rule arg_quotable) (rule assms)
  also have "\<dots> = readNextArg False 0 (b @ s) r" using assms(2) by (auto simp: doubled_quote_def)
  finally show ?thesis .
qed

lemma arg_end: "readNextArg False 0 b (CHR '' '' # r) = (b, r)" "readNextArg False 0 b [] = (b, [])"
  by simp_all

text \<open>One argument of a command line: in quotes, a word, or a word with a text in quotes behind it.\<close>

definition argument :: "string \<Rightarrow> string \<Rightarrow> bool" where
  "argument t w \<longleftrightarrow> t \<noteq> [] \<and> hd t \<noteq> CHR '' '' \<and> hd t \<noteq> CHR 0x09 \<and>
     (\<forall>r. r = [] \<or> hd r = CHR '' '' \<longrightarrow> readNextArg False 0 [] (t @ r) = readNextArg False 0 w r)"

lemma argument_quoted: "quotable s \<Longrightarrow> argument (CHR 0x22 # s @ [CHR 0x22]) s"
  using arg_quoted [of s _ "[]"] by (auto simp: argument_def simp del: readNextArg.simps)

lemma argument_word: "plain_word s \<Longrightarrow> argument s s"
  using arg_plain [of s "[]"] by (auto simp: argument_def plain_word_def neq_Nil_conv simp del: readNextArg.simps)

lemma argument_word_quoted:
  assumes "plain_word p" "quotable s" shows "argument (p @ CHR 0x22 # s @ [CHR 0x22]) (p @ s)"
proof -
  have "p \<noteq> []" "hd p \<noteq> CHR '' ''" "hd p \<noteq> CHR 0x09" using assms(1) by (auto simp: plain_word_def neq_Nil_conv)
  moreover have "readNextArg False 0 [] ((p @ CHR 0x22 # s @ [CHR 0x22]) @ r) = readNextArg False 0 (p @ s) r"
    if "r = [] \<or> hd r = CHR '' ''" for r
    using arg_plain [OF assms(1), of "[]" "CHR 0x22 # s @ CHR 0x22 # r"] arg_quoted [OF assms(2), of r p] that
    by (auto simp del: readNextArg.simps)
  ultimately show ?thesis by (simp add: argument_def del: readNextArg.simps)
qed

lemma argv_last: "argument t w \<Longrightarrow> commandLineToArgv t = [w]"
proof -
  assume a: "argument t w"
  then obtain c cs where t: "t = c # cs" "c \<noteq> CHR '' ''" "c \<noteq> CHR 0x09" by (auto simp: argument_def neq_Nil_conv)
  have "readNextArg False 0 [] (t @ []) = readNextArg False 0 w []" using a unfolding argument_def by blast
  then have "readNextArg False 0 [] t = (w, [])" by (simp only: append_Nil2 arg_end)
  with t show ?thesis by (simp del: readNextArg.simps)
qed

lemma argv_next: "argument t w \<Longrightarrow> commandLineToArgv (t @ CHR '' '' # r) = w # commandLineToArgv r"
proof -
  assume a: "argument t w"
  then obtain c cs where t: "t = c # cs" "c \<noteq> CHR '' ''" "c \<noteq> CHR 0x09" by (auto simp: argument_def neq_Nil_conv)
  have "readNextArg False 0 [] (t @ CHR '' '' # r) = readNextArg False 0 w (CHR '' '' # r)"
    using a unfolding argument_def by (metis list.sel(1))
  then have "readNextArg False 0 [] (t @ CHR '' '' # r) = (w, r)" by (simp only: arg_end)
  with t show ?thesis by (simp del: readNextArg.simps)
qed

section \<open>Flags\<close>

lemma flag_name_eq: "CHR ''='' \<notin> set n \<Longrightarrow> n \<noteq> [] \<Longrightarrow> flag_name (n @ CHR ''='' # v) = (n, Some v)"
proof (cases n)
  case (Cons c cs)
  assume "CHR ''='' \<notin> set n"
  then have "list_all (\<lambda>d. d \<noteq> CHR ''='') cs" using Cons by (auto simp: list_all_iff)
  then show ?thesis using Cons by (simp add: flag_name_def takeWhile_append_stop dropWhile_append_stop)
qed simp

lemma flag_name_plain: "CHR ''='' \<notin> set n \<Longrightarrow> n \<noteq> [] \<Longrightarrow> flag_name n = (n, None)"
proof (cases n)
  case (Cons c cs)
  assume "CHR ''='' \<notin> set n"
  then have "\<forall>d \<in> set cs. d \<noteq> CHR ''=''" using Cons by auto
  then have d: "takeWhile (\<lambda>d. d \<noteq> CHR ''='') cs = cs" "dropWhile (\<lambda>d. d \<noteq> CHR ''='') cs = []"
    by (simp_all add: takeWhile_eq_all_conv dropWhile_eq_Nil_conv)
  show ?thesis unfolding flag_name_def Cons list.case d by simp
qed simp

lemma flag_value_next:
  assumes "map_of main_flags n = Some StringFlag" "CHR ''='' \<notin> set n" "n \<noteq> []" "hd n \<noteq> CHR ''-''"
  shows "flag_parse f ((''--'' @ n) # v # args) = flag_parse (set_string n v f) args"
proof -
  have "hd n \<noteq> CHR ''=''" using assms(2,3) by (cases n) auto
  then show ?thesis using assms by (simp add: flag_name_plain)
qed

lemma flag_value_eq:
  assumes "map_of main_flags n = Some StringFlag" "CHR ''='' \<notin> set n" "n \<noteq> []" "hd n \<noteq> CHR ''-''"
  shows "flag_parse f ((''--'' @ n @ CHR ''='' # v) # args) = flag_parse (set_string n v f) args"
proof -
  have "hd n \<noteq> CHR ''=''" using assms(2,3) by (cases n) auto
  then show ?thesis using assms by (simp add: flag_name_eq)
qed

lemma flag_switch:
  assumes "map_of main_flags n = Some BoolFlag" "CHR ''='' \<notin> set n" "n \<noteq> []" "hd n \<noteq> CHR ''-''"
  shows "flag_parse f ((''--'' @ n) # args) = flag_parse (set_bool n True f) args"
proof -
  have "hd n \<noteq> CHR ''=''" using assms(2,3) by (cases n) auto
  then show ?thesis using assms by (simp add: flag_name_plain)
qed

lemma main_flag_kinds:
  "map_of main_flags ''addr'' = Some StringFlag" "map_of main_flags ''notify-title'' = Some StringFlag"
  "map_of main_flags ''notify-msg'' = Some StringFlag" "map_of main_flags ''chat-id'' = Some StringFlag"
  "map_of main_flags ''operator'' = Some StringFlag" "map_of main_flags ''chat-helper'' = Some BoolFlag"
  "map_of main_flags ''capture-helper'' = Some BoolFlag" "map_of main_flags ''notify-timeout'' = Some IntFlag"
  by (simp_all add: main_flags_def)

lemma flag_addr: "flag_parse f ((''--addr='' @ v) # args) = flag_parse (f\<lparr>fl_addr := v\<rparr>) args"
  using flag_value_eq [of "''addr''" f v args] by (simp add: main_flag_kinds set_string_def del: flag_parse.simps)

lemma flag_chat_id: "flag_parse f ((''--chat-id='' @ v) # args) = flag_parse (f\<lparr>fl_chatID := v\<rparr>) args"
  using flag_value_eq [of "''chat-id''" f v args] by (simp add: main_flag_kinds set_string_def del: flag_parse.simps)

lemma flag_operator: "flag_parse f ((''--operator='' @ v) # args) = flag_parse (f\<lparr>fl_operator := v\<rparr>) args"
  using flag_value_eq [of "''operator''" f v args] by (simp add: main_flag_kinds set_string_def del: flag_parse.simps)

lemma flag_notify_title: "flag_parse f (''--notify-title'' # v # args) = flag_parse (f\<lparr>fl_notifyTitle := v\<rparr>) args"
  using flag_value_next [of "''notify-title''" f v args] by (simp add: main_flag_kinds set_string_def del: flag_parse.simps)

lemma flag_notify_msg: "flag_parse f (''--notify-msg'' # v # args) = flag_parse (f\<lparr>fl_notifyMsg := v\<rparr>) args"
  using flag_value_next [of "''notify-msg''" f v args] by (simp add: main_flag_kinds set_string_def del: flag_parse.simps)

lemma flag_chat_helper: "flag_parse f (''--chat-helper'' # args) = flag_parse (f\<lparr>fl_chatHelper := True\<rparr>) args"
  using flag_switch [of "''chat-helper''" f args] by (simp add: main_flag_kinds set_bool_def del: flag_parse.simps)

lemma flag_capture_helper: "flag_parse f (''--capture-helper'' # args) = flag_parse (f\<lparr>fl_captureHelper := True\<rparr>) args"
  using flag_switch [of "''capture-helper''" f args] by (simp add: main_flag_kinds set_bool_def del: flag_parse.simps)

lemma parse_int0_8: "parse_int0 ''8'' = Some 8"
  by (simp add: parse_int0_def base_prefix_def base_digit_def is_digit_def digit_val_def Let_def)

lemma flag_timeout: "flag_parse f [''--notify-timeout'', ''8''] = Flags (f\<lparr>fl_notifyTimeout := 8\<rparr>)"
  by (simp add: main_flag_kinds flag_name_def parse_int0_8)

lemmas flag_simps = flag_addr [unfolded append.simps] flag_chat_id [unfolded append.simps]
  flag_operator [unfolded append.simps] flag_notify_title flag_notify_msg flag_chat_helper
  flag_capture_helper flag_timeout

lemma argument_flag_words:
  "argument ''--notify-title'' ''--notify-title''" "argument ''--notify-msg'' ''--notify-msg''"
  "argument ''--notify-timeout'' ''--notify-timeout''" "argument ''8'' ''8''" "argument ''--chat-helper'' ''--chat-helper''"
  "argument ''--capture-helper'' ''--capture-helper''"
  by (rule argument_word, simp add: plain_word_def)+

lemma plain_word_append: "plain_word p \<Longrightarrow> plain_word s \<Longrightarrow> plain_word (p @ s)"
  by (simp add: plain_word_def)

lemma argument_eq_words:
  "plain_word v \<Longrightarrow> argument (''--addr='' @ v) (''--addr='' @ v)"
  "plain_word v \<Longrightarrow> argument (''--chat-id='' @ v) (''--chat-id='' @ v)"
  by (rule argument_word, simp add: plain_word_def)+

lemma notify_text_quotable:
  assumes "notify_text fr username connected = (title, msg)" "CHR 0x22 \<notin> set username"
  shows "quotable title" "quotable msg" "title \<noteq> []"
  using assms by (auto simp: notify_text_def quotable_def em_dash_def e_acute_def a_grave_def split: if_splits)

lemma notify_argv:
  assumes "quotable exe" "quotable title" "quotable msg"
  shows "commandLineToArgv (notify_cmdline exe title msg) =
    [exe, ''--notify-title'', title, ''--notify-msg'', msg, ''--notify-timeout'', ''8'']"
proof -
  note a = argv_next [OF argument_quoted [OF assms(1)]] argv_next [OF argument_quoted [OF assms(2)]]
    argv_next [OF argument_quoted [OF assms(3)]] argv_next [OF argument_flag_words(1)] argv_next [OF argument_flag_words(2)]
    argv_next [OF argument_flag_words(3)] argv_last [OF argument_flag_words(4)]
  show ?thesis using a by (simp add: notify_cmdline_def Let_def del: commandLineToArgv.simps readNextArg.simps)
qed

lemma chat_argv:
  assumes "quotable exe" "plain_word addr" "plain_word chatID" "quotable operator"
  shows "commandLineToArgv (chat_cmdline exe addr chatID operator) =
    [exe, ''--chat-helper'', ''--addr='' @ addr, ''--chat-id='' @ chatID, ''--operator='' @ operator]"
proof -
  have "plain_word ''--operator=''" by (simp add: plain_word_def)
  note a = argv_next [OF argument_quoted [OF assms(1)]] argv_next [OF argument_eq_words(1) [OF assms(2)]]
    argv_next [OF argument_eq_words(2) [OF assms(3)]] argv_next [OF argument_flag_words(5)]
    argv_last [OF argument_word_quoted [OF this assms(4)]]
  show ?thesis using a by (simp add: chat_cmdline_def Let_def del: commandLineToArgv.simps readNextArg.simps)
qed

lemma capture_argv:
  assumes "quotable exe" "plain_word addr"
  shows "commandLineToArgv (capture_cmdline exe addr) = [exe, ''--capture-helper'', ''--addr='' @ addr]"
proof -
  note a = argv_next [OF argument_quoted [OF assms(1)]] argv_last [OF argument_eq_words(1) [OF assms(2)]]
    argv_next [OF argument_flag_words(6)]
  show ?thesis using a by (simp add: capture_cmdline_def del: commandLineToArgv.simps readNextArg.simps)
qed

section \<open>The helpers start as they were asked to\<close>

text \<open>
  C36. The command lines the service builds for its helpers are read back by the executable as they were meant:
  the toast with its title, its text and eight seconds, the chat window with its address, chat and operator, the
  capture helper with its address; provided that no name has a quotation mark (nor the operator's a final
  backslash) and that the address and the identifier of the chat are words.
\<close>

theorem helpers_start_as_asked:
  assumes "quotable exe" "plain_word addr" "plain_word chatID" "quotable operator" "CHR 0x22 \<notin> set username"
  shows "start_mode (notify_cmdline exe (fst (notify_text fr username connected)) (snd (notify_text fr username connected))) =
       Some (ToastMode (fst (notify_text fr username connected)) (snd (notify_text fr username connected)) 8) \<and>
    start_mode (chat_cmdline exe addr chatID operator) = Some (ChatHelperMode addr chatID operator) \<and>
    start_mode (capture_cmdline exe addr) = Some (CaptureHelperMode addr)"
proof -
  have ne: "addr \<noteq> []" "chatID \<noteq> []" using assms by (auto simp: plain_word_def)
  obtain title msg where t: "notify_text fr username connected = (title, msg)" by fastforce
  note q = notify_text_quotable [OF t assms(5)]
  show ?thesis
    using ne q(3) by (simp add: start_mode_def t notify_argv [OF assms(1) q(1,2)] chat_argv [OF assms(1-4)]
      capture_argv [OF assms(1,2)] flag_simps default_flags_def agent_main_def
      del: flag_parse.simps(2) commandLineToArgv.simps)
qed

theorem helpers_start_as_asked_witness:
  "start_mode (chat_cmdline ''C:/a b.exe'' ''127.0.0.1:5'' ''c1'' ''Jo Do'') =
     Some (ChatHelperMode ''127.0.0.1:5'' ''c1'' ''Jo Do'')"
  using helpers_start_as_asked [of "''C:/a b.exe''" "''127.0.0.1:5''" "''c1''" "''Jo Do''" "''Jo''" False True]
  by (simp add: quotable_def plain_word_def del: commandLineToArgv.simps readNextArg.simps)

text \<open>
  C37. The operator's name is put between quotation marks and not escaped: a name with one adds flags. One with
  \<open>--addr=\<close> behind it makes the chat helper, started in the user's session, connect to an address of the
  sender's choice instead of the service's.
\<close>

theorem operator_name_redirects_helper:
  assumes "quotable exe" "plain_word addr" "plain_word chatID" "plain_word elsewhere"
  shows "start_mode (chat_cmdline exe addr chatID ([CHR 0x22] @ '' --addr='' @ elsewhere @ '' '' @ [CHR 0x22])) =
    Some (ChatHelperMode elsewhere chatID [])"
proof -
  let ?op = "[CHR 0x22] @ '' --addr='' @ elsewhere @ '' '' @ [CHR 0x22]"
  have w: "plain_word ''--operator=''" "quotable []" by (simp_all add: plain_word_def quotable_def)
  have op: "argument (''--operator='' @ CHR 0x22 # [CHR 0x22]) ''--operator=''"
    using argument_word_quoted [OF w] by (simp del: readNextArg.simps)
  have em: "commandLineToArgv [CHR 0x22, CHR 0x22] = [[]]" using argv_last [OF argument_quoted [OF w(2)]]
    by (simp del: readNextArg.simps commandLineToArgv.simps)
  note a = argv_next [OF argument_quoted [OF assms(1)]] argv_next [OF argument_eq_words(1) [OF assms(2)]]
    argv_next [OF argument_eq_words(2) [OF assms(3)]] argv_next [OF argument_flag_words(5)] argv_next [OF op]
    argv_next [OF argument_eq_words(1) [OF assms(4)]] em
  have argv: "commandLineToArgv (chat_cmdline exe addr chatID ?op) =
      [exe, ''--chat-helper'', ''--addr='' @ addr, ''--chat-id='' @ chatID, ''--operator='', ''--addr='' @ elsewhere, []]"
    using a by (simp add: chat_cmdline_def Let_def del: commandLineToArgv.simps readNextArg.simps)
  have "elsewhere \<noteq> []" "chatID \<noteq> []" using assms by (auto simp: plain_word_def)
  moreover have "flag_parse f [[]] = Flags f" for f by simp
  ultimately show ?thesis unfolding start_mode_def argv
    by (simp add: flag_simps flag_operator [of _ "[]", unfolded append.simps] default_flags_def agent_main_def
      del: flag_parse.simps(2))
qed

theorem operator_name_redirects_helper_witness:
  "start_mode (chat_cmdline ''a.exe'' ''127.0.0.1:5'' ''c1'' ([CHR 0x22] @ '' --addr='' @ ''far:9'' @ '' '' @ [CHR 0x22])) =
     Some (ChatHelperMode ''far:9'' ''c1'' [])"
  by (rule operator_name_redirects_helper) (simp_all add: quotable_def plain_word_def)

end
