(* ===== verification/Windows_Glue.thy ===== *)
theory Windows_Glue
  imports Commands Cmdline
begin

text \<open>
  How the agent deals with Windows: starting a program in the session of a user
  (agent/remote\_session\_windows.go), running as a service (agent/service\_windows.go) and installing an update
  (agent/update\_windows.go). What a call of Windows returns is an argument; the calls themselves are kept
  in a log.
\<close>

section \<open>Starting a program in a session\<close>

text \<open>
  The objects of Windows the function opens and must release, and its calls, each with the objects it hands over: an
  object opened with others, an object closed, a privilege of a token, the session of a token, the question for the
  user of a session, a call that failed, and the creation of a process by a token from a command line with an
  environment, and its number if it was created.
\<close>

datatype win_obj = SelfToken | SysToken | PrimaryToken | UserToken | EnvBlock | CmdCopy | ProcessHandle | ThreadHandle

datatype win_call =
    Opened win_obj "win_obj list"
  | Closed win_obj
  | Privilege win_obj string
  | SessionSet win_obj "32 word"
  | UserOf "32 word"
  | Failed "win_obj list"
  | CreateProcessAsUser win_obj win_obj "win_obj option" string "32 word option"

record spawn_win =
  sw_self :: bool
  sw_lookup :: "string \<Rightarrow> bool"
  sw_sys :: bool
  sw_duplicate :: bool
  sw_session :: bool
  sw_user :: bool
  sw_user_env :: bool
  sw_sys_env :: bool
  sw_copy :: bool
  sw_create :: "32 word option"
  sw_error :: "32 word"

definition enablePrivilege :: "spawn_win \<Rightarrow> win_obj \<Rightarrow> string \<Rightarrow> win_call list" where
  "enablePrivilege w token name = (if sw_lookup w name then [Privilege token name] else [])"

definition spawn_privileges :: "spawn_win \<Rightarrow> win_call list" where
  "spawn_privileges w =
     (if sw_self w
      then [Opened SelfToken []] @ enablePrivilege w SelfToken ''SeTcbPrivilege'' @
           enablePrivilege w SelfToken ''SeAssignPrimaryTokenPrivilege'' @
           enablePrivilege w SelfToken ''SeIncreaseQuotaPrivilege'' @ [Closed SelfToken]
      else [])"

text \<open>The environment block: the user's when there is one, else the one of the system's token.\<close>

definition env_from :: "win_obj \<Rightarrow> bool \<Rightarrow> win_call list" where
  "env_from token ok = [if ok then Opened EnvBlock [token] else Failed [token]]"

definition spawn_env :: "spawn_win \<Rightarrow> 32 word \<Rightarrow> win_call list \<times> bool" where
  "spawn_env w sessionId =
     (let user = [UserOf sessionId] @
            (if sw_user w then [Opened UserToken []] @ env_from UserToken (sw_user_env w) @ [Closed UserToken] else [])
      in if sw_user w \<and> sw_user_env w then (user, True)
         else (user @ env_from PrimaryToken (sw_sys_env w), sw_sys_env w))"

definition env_release :: "bool \<Rightarrow> win_call list" where
  "env_release have = (if have then [Closed EnvBlock] else [])"

definition error_code :: "spawn_win \<Rightarrow> int" where
  "error_code w = sint (- sw_error w)"

definition not_enough_memory :: int where "not_enough_memory = 8"

definition spawnInSession :: "spawn_win \<Rightarrow> 32 word \<Rightarrow> string \<Rightarrow> int \<times> 32 word \<times> win_call list" where
  "spawnInSession w sessionId cmdLine =
     (let l0 = spawn_privileges w in
      if \<not> sw_sys w then (error_code w, 0, l0)
      else if \<not> sw_duplicate w then (error_code w, 0, l0 @ [Opened SysToken [], Failed [SysToken], Closed SysToken])
      else
        (let l1 = l0 @ [Opened SysToken [], Opened PrimaryToken [SysToken], Closed SysToken] in
         if \<not> sw_session w then (error_code w, 0, l1 @ [Failed [PrimaryToken], Closed PrimaryToken])
         else
           (let (env, have) = spawn_env w sessionId;
                l2 = l1 @ [SessionSet PrimaryToken sessionId] @ env in
            if \<not> sw_copy w then (- not_enough_memory, 0, l2 @ env_release have @ [Closed PrimaryToken])
            else
              (let l3 = l2 @ [Opened CmdCopy [],
                              CreateProcessAsUser PrimaryToken CmdCopy (if have then Some EnvBlock else None) cmdLine (sw_create w)] @
                        (if sw_create w = None then [] else [Opened ProcessHandle [], Opened ThreadHandle []]) @
                        [Closed CmdCopy] @ env_release have @ [Closed PrimaryToken] in
               case sw_create w of
                 None \<Rightarrow> (error_code w, 0, l3)
               | Some pid \<Rightarrow> (0, pid, l3 @ [Closed ProcessHandle, Closed ThreadHandle])))))"

text \<open>\<open>spawnInSessionGo\<close>: a command line with a NUL is refused; the session is converted to a \<open>DWORD\<close>.\<close>

definition spawnInSessionGo :: "spawn_win \<Rightarrow> int \<Rightarrow> string \<Rightarrow> nat \<times> int" where
  "spawnInSessionGo w sessionID cmdLine =
     (if CHR 0x00 \<in> set cmdLine then (0, - 1)
      else (case spawnInSession w (word_of_int sessionID) cmdLine of (rc, pid, log) \<Rightarrow> (unat pid, rc)))"

text \<open>A machine whose spawning is this function.\<close>

definition on_windows :: "spawn_win \<Rightarrow> machine \<Rightarrow> machine" where
  "on_windows w m = m\<lparr>mc_windows := True,
     mc_spawn := (\<lambda>sid cmd. case spawnInSession w (word_of_int sid) cmd of (rc, pid, log) \<Rightarrow> (unat pid, rc))\<rparr>"

section \<open>The Windows service\<close>

definition svcTypeOwnProcess :: "32 word" where "svcTypeOwnProcess = 0x10"
definition svcAcceptStop :: "32 word" where "svcAcceptStop = 1"
definition svcAcceptShutdown :: "32 word" where "svcAcceptShutdown = 4"
definition svcStateStopped :: "32 word" where "svcStateStopped = 1"
definition svcStateStarting :: "32 word" where "svcStateStarting = 2"
definition svcStateStopping :: "32 word" where "svcStateStopping = 3"
definition svcStateRunning :: "32 word" where "svcStateRunning = 4"
definition svcCtrlStop :: "32 word" where "svcCtrlStop = 1"
definition svcCtrlShutdown :: "32 word" where "svcCtrlShutdown = 5"

record serviceStatus =
  ServiceType :: "32 word"
  CurrentState :: "32 word"
  ControlsAccepted :: "32 word"
  Win32ExitCode :: "32 word"
  ServiceSpecificExitCode :: "32 word"
  CheckPoint :: "32 word"
  WaitHint :: "32 word"

text \<open>
  The state of the service: whether the control handler is registered (\<open>gSvcHandle\<close>), the statuses reported so
  far, whether \<open>gSvcStopOnce\<close> is used and how often \<open>gSvcStopCh\<close> was closed, whether the agent runs and whether
  it returned (\<open>done\<close>), the place of the service's main function and of the control handler.
\<close>

datatype svc_pc = SvcStart | SvcReportStarting | SvcLaunch | SvcReportRunning | SvcWait | SvcReportStopping
  | SvcReportStopped | SvcReturned nat

datatype svc_handler = HandlerIdle | HandlerCalled "32 word" | HandlerReported

record service =
  sv_handle :: bool
  sv_reported :: "serviceStatus list"
  sv_once :: bool
  sv_closes :: nat
  sv_launched :: bool
  sv_done :: bool
  sv_pc :: svc_pc
  sv_handler :: svc_handler

definition new_service :: service where
  "new_service = \<lparr>sv_handle = False, sv_reported = [], sv_once = False, sv_closes = 0, sv_launched = False,
     sv_done = False, sv_pc = SvcStart, sv_handler = HandlerIdle\<rparr>"

definition status_of :: "32 word \<Rightarrow> serviceStatus" where
  "status_of state =
     \<lparr>ServiceType = svcTypeOwnProcess, CurrentState = state,
      ControlsAccepted = (if state = svcStateRunning then svcAcceptStop OR svcAcceptShutdown else 0),
      Win32ExitCode = 0, ServiceSpecificExitCode = 0, CheckPoint = 0,
      WaitHint = (if state = svcStateStarting \<or> state = svcStateStopping then 5000 else 0)\<rparr>"

definition svcSetStatus :: "32 word \<Rightarrow> service \<Rightarrow> service" where
  "svcSetStatus state s =
     (if \<not> sv_handle s then s else s\<lparr>sv_reported := sv_reported s @ [status_of state]\<rparr>)"

definition stop_once :: "service \<Rightarrow> service" where
  "stop_once s = (if sv_once s then s else s\<lparr>sv_once := True, sv_closes := sv_closes s + 1\<rparr>)"

text \<open>One step of the service's main function; \<open>registered\<close> says whether the registration of the handler succeeds.\<close>

definition svc_main :: "bool \<Rightarrow> service \<Rightarrow> service" where
  "svc_main registered s =
     (case sv_pc s of
        SvcStart \<Rightarrow> if registered then s\<lparr>sv_handle := True, sv_pc := SvcReportStarting\<rparr>
                    else s\<lparr>sv_handle := False, sv_pc := SvcReturned 1\<rparr>
      | SvcReportStarting \<Rightarrow> (svcSetStatus svcStateStarting s)\<lparr>sv_pc := SvcLaunch\<rparr>
      | SvcLaunch \<Rightarrow> s\<lparr>sv_launched := True, sv_pc := SvcReportRunning\<rparr>
      | SvcReportRunning \<Rightarrow> (svcSetStatus svcStateRunning s)\<lparr>sv_pc := SvcWait\<rparr>
      | SvcWait \<Rightarrow> if sv_closes s > 0 \<or> sv_done s then s\<lparr>sv_pc := SvcReportStopping\<rparr> else s
      | SvcReportStopping \<Rightarrow> (svcSetStatus svcStateStopping s)\<lparr>sv_pc := SvcReportStopped\<rparr>
      | SvcReportStopped \<Rightarrow> (svcSetStatus svcStateStopped s)\<lparr>sv_pc := SvcReturned 0\<rparr>
      | SvcReturned n \<Rightarrow> s)"

text \<open>
  The control handler. Windows calls it, one call at a time, with a control the last reported status accepts
  (the documented contract of \<open>SERVICE_STATUS\<close>) or one that every service gets (interrogate, 4).
\<close>

definition control_accepted :: "service \<Rightarrow> 32 word \<Rightarrow> bool" where
  "control_accepted s ctrl \<longleftrightarrow>
     sv_handler s = HandlerIdle \<and> sv_handle s \<and>
     (ctrl = 4 \<or>
      (sv_reported s \<noteq> [] \<and>
       ((ctrl = svcCtrlStop \<and> ControlsAccepted (last (sv_reported s)) AND svcAcceptStop \<noteq> 0) \<or>
        (ctrl = svcCtrlShutdown \<and> ControlsAccepted (last (sv_reported s)) AND svcAcceptShutdown \<noteq> 0))))"

definition svc_handler_step :: "service \<Rightarrow> service" where
  "svc_handler_step s =
     (case sv_handler s of
        HandlerIdle \<Rightarrow> s
      | HandlerCalled ctrl \<Rightarrow>
          if ctrl = svcCtrlStop \<or> ctrl = svcCtrlShutdown
          then (svcSetStatus svcStateStopping s)\<lparr>sv_handler := HandlerReported\<rparr>
          else s\<lparr>sv_handler := HandlerIdle\<rparr>
      | HandlerReported \<Rightarrow> (stop_once s)\<lparr>sv_handler := HandlerIdle\<rparr>)"

datatype svc_event = SvcMain bool | SvcControl "32 word" | SvcHandler | SvcRunReturns

definition svc_step :: "service \<Rightarrow> svc_event \<Rightarrow> service" where
  "svc_step s e =
     (case e of
        SvcMain registered \<Rightarrow> svc_main registered s
      | SvcControl ctrl \<Rightarrow> if control_accepted s ctrl then s\<lparr>sv_handler := HandlerCalled ctrl\<rparr> else s
      | SvcHandler \<Rightarrow> svc_handler_step s
      | SvcRunReturns \<Rightarrow> if sv_launched s then s\<lparr>sv_done := True\<rparr> else s)"

text \<open>
  \<open>tryRunAsService\<close>: what the dispatcher returned (nothing: it failed, for one with error 1063 outside of a
  service) decides whether the process was a service; elsewhere than on Windows it never is. \<open>main\<close> then runs
  the agent itself.
\<close>

definition tryRunAsService :: "bool \<Rightarrow> bool \<Rightarrow> bool" where
  "tryRunAsService windows dispatched = (windows \<and> dispatched)"

definition run_agent :: "bool \<Rightarrow> bool \<Rightarrow> nat" where
  "run_agent windows dispatched = (if tryRunAsService windows dispatched then 0 else 1)"

section \<open>The update\<close>

text \<open>
  What the network and the disk answer: whether the request can be built, the response (its status), whether the
  file can be created, the bytes copied and whether they are all there, whether msiexec starts. \<open>tmp\<close> is the
  path of a file of the temporary directory.
\<close>

record update_env =
  ue_request :: bool
  ue_status :: "int option"
  ue_create :: bool
  ue_body :: bytes
  ue_copied :: bool
  ue_start :: bool
  ue_tmp :: "string \<Rightarrow> string"

record update_effects =
  uf_requests :: "(string \<times> string) list"
  uf_files :: "(string \<times> bytes) list"
  uf_started :: "string list list"

definition no_update :: update_effects where
  "no_update = \<lparr>uf_requests = [], uf_files = [], uf_started = []\<rparr>"

definition msiexec_args :: "(string \<Rightarrow> string) \<Rightarrow> agent_config \<Rightarrow> string list" where
  "msiexec_args tmp cfg =
     [''msiexec.exe'', ''/i'', tmp ''oblireach-update.msi'', ''SERVERURL='' @ ServerURL cfg, ''APIKEY='' @ APIKey cfg,
      ''/quiet'', ''/norestart'', ''/l*v'', tmp ''oblireach-update.log'']"

definition performUpdate :: "bool \<Rightarrow> update_env \<Rightarrow> agent_config \<Rightarrow> string \<Rightarrow> update_effects" where
  "performUpdate windows u cfg relativeURL =
     (if \<not> windows then no_update
      else if \<not> ue_request u then no_update
      else
        (let e1 = no_update\<lparr>uf_requests := [(update_url (ServerURL cfg) relativeURL, APIKey cfg)]\<rparr> in
         case ue_status u of
           None \<Rightarrow> e1
         | Some status \<Rightarrow>
             if status \<noteq> 200 then e1
             else if \<not> ue_create u then e1
             else (let e2 = e1\<lparr>uf_files := [(ue_tmp u ''oblireach-update.msi'', ue_body u)]\<rparr> in
                   if \<not> ue_copied u then e2
                   else if \<not> ue_start u then e2
                   else e2\<lparr>uf_started := [msiexec_args (ue_tmp u) cfg]\<rparr>)))"

end
