(* ===== verification/Overlay.thy ===== *)
theory Overlay
  imports Prelude
begin

text \<open>
  What the agent shows on the user's screen: the pill that says a remote session is live or recorded
  (agent/watermark\_windows.go, a window with a thread of its own) and the toast that announces a connection
  (agent/toast\_windows.go). The drawing itself is left out.
\<close>

section \<open>The watermark\<close>

text \<open>
  The globals of the Go and of the C part (\<open>watermarkRunning\<close>, \<open>g_watermark\<close>, \<open>g_wm_font\<close>, \<open>g_wm_recording\<close>,
  \<open>g_watermark_tid\<close>), the messages posted to the thread, and the place of the thread in \<open>watermark_run\<close>. A
  thread has a message queue from its first call to the window system on; what is posted before is lost.
\<close>

datatype wm_msg = WmSetMode nat | WmQuit

datatype wm_pc = WmNone | WmBegin | WmCreate | WmPump | WmHide | WmClearTid | WmEnd

record watermark =
  watermarkRunning :: bool
  g_watermark :: bool
  g_wm_font :: bool
  g_wm_recording :: nat
  g_watermark_tid :: bool
  wm_queue :: "wm_msg list"
  wm_has_queue :: bool
  wm_dirty :: bool
  wm_pc :: wm_pc

definition no_watermark :: watermark where
  "no_watermark = \<lparr>watermarkRunning = False, g_watermark = False, g_wm_font = False, g_wm_recording = 0,
     g_watermark_tid = False, wm_queue = [], wm_has_queue = False, wm_dirty = False, wm_pc = WmNone\<rparr>"

definition showWatermark :: "watermark \<Rightarrow> watermark" where
  "showWatermark w = (if watermarkRunning w then w else w\<lparr>watermarkRunning := True, wm_pc := WmBegin\<rparr>)"

definition wm_post :: "wm_msg \<Rightarrow> watermark \<Rightarrow> watermark" where
  "wm_post m w = (if wm_has_queue w then w\<lparr>wm_queue := wm_queue w @ [m]\<rparr> else w)"

definition stop_watermark_pump :: "watermark \<Rightarrow> watermark" where
  "stop_watermark_pump w = (if g_watermark_tid w then wm_post WmQuit w else w)"

definition hideWatermark :: "watermark \<Rightarrow> watermark" where
  "hideWatermark w = (if watermarkRunning w then stop_watermark_pump w else w)"

definition set_watermark_mode :: "nat \<Rightarrow> watermark \<Rightarrow> watermark" where
  "set_watermark_mode v w = (if g_watermark w then wm_post (WmSetMode v) w else w)"

definition setWatermarkRecording :: "bool \<Rightarrow> watermark \<Rightarrow> watermark" where
  "setWatermarkRecording recording w =
     (if watermarkRunning w then set_watermark_mode (if recording then 1 else 0) w else w)"

text \<open>
  The window procedure: a mode is stored and the window is painted again once its queue is empty; the first
  painting creates the font.
\<close>

definition wmSetMode :: "nat \<Rightarrow> watermark \<Rightarrow> watermark" where
  "wmSetMode n w = w\<lparr>g_wm_recording := n, wm_dirty := True\<rparr>"

definition wmPaint :: "watermark \<Rightarrow> watermark" where
  "wmPaint w = w\<lparr>g_wm_font := True, wm_dirty := False\<rparr>"

definition show_watermark_rec :: "bool \<Rightarrow> watermark \<Rightarrow> watermark" where
  "show_watermark_rec created w =
     (if g_watermark w then w
      else if created then w\<lparr>g_watermark := True, wm_has_queue := True, wm_dirty := True\<rparr>
      else w\<lparr>wm_has_queue := True\<rparr>)"

definition hide_watermark_rec :: "watermark \<Rightarrow> watermark" where
  "hide_watermark_rec w = w\<lparr>g_watermark := False, g_wm_font := False, wm_dirty := False\<rparr>"

text \<open>One step of the thread; \<open>created\<close> says whether the window can be created.\<close>

definition watermark_run :: "bool \<Rightarrow> watermark \<Rightarrow> watermark" where
  "watermark_run created w =
     (case wm_pc w of
        WmNone \<Rightarrow> w
      | WmBegin \<Rightarrow> w\<lparr>g_watermark_tid := True, wm_pc := WmCreate\<rparr>
      | WmCreate \<Rightarrow> (show_watermark_rec created w)\<lparr>wm_pc := WmPump\<rparr>
      | WmPump \<Rightarrow>
          (case wm_queue w of
             [] \<Rightarrow> if wm_dirty w then wmPaint w else w
           | WmQuit # ms \<Rightarrow> w\<lparr>wm_queue := ms, wm_pc := WmHide\<rparr>
           | WmSetMode n # ms \<Rightarrow> wmSetMode n (w\<lparr>wm_queue := ms\<rparr>))
      | WmHide \<Rightarrow> (hide_watermark_rec w)\<lparr>wm_pc := WmClearTid\<rparr>
      | WmClearTid \<Rightarrow> w\<lparr>g_watermark_tid := False, wm_pc := WmEnd\<rparr>
      | WmEnd \<Rightarrow> w\<lparr>watermarkRunning := False, wm_queue := [], wm_has_queue := False, wm_pc := WmNone\<rparr>)"

datatype wm_event = WmShowCall | WmHideCall | WmRecordCall bool | WmThread bool

definition wm_step :: "watermark \<Rightarrow> wm_event \<Rightarrow> watermark" where
  "wm_step w e =
     (case e of
        WmShowCall \<Rightarrow> showWatermark w
      | WmHideCall \<Rightarrow> hideWatermark w
      | WmRecordCall b \<Rightarrow> setWatermarkRecording b w
      | WmThread created \<Rightarrow> watermark_run created w)"

definition wm_label :: "watermark \<Rightarrow> string" where
  "wm_label w = (if g_wm_recording w \<noteq> 0 then ''REC'' else ''LIVE'')"

section \<open>The toast\<close>

definition toast_w :: int where "toast_w = 360"
definition toast_h :: int where "toast_h = 90"
definition toast_margin :: int where "toast_margin = 16"
definition toast_steps :: int where "toast_steps = 8"

text \<open>The place of the toast: its final corner, and the left edges it slides through from behind the right edge.\<close>

definition toast_corner :: "int \<Rightarrow> int \<Rightarrow> int \<times> int" where
  "toast_corner right bottom = (right - toast_w - toast_margin, bottom - toast_h - toast_margin)"

definition toast_slide :: "int \<Rightarrow> int list" where
  "toast_slide right =
     (let finalX = right - toast_w - toast_margin; startX = right + 10
      in map (\<lambda>i. startX + go_div ((finalX - startX) * i) toast_steps) [0..toast_steps])"

record toast =
  g_toast_alpha :: "8 word"
  ts_close_timer :: "32 word option"
  ts_fade_timer :: bool
  ts_open :: bool
  ts_quit :: bool

definition toast_create :: "32 word \<Rightarrow> toast" where
  "toast_create timeoutSec =
     \<lparr>g_toast_alpha = 240, ts_close_timer = Some (timeoutSec * 1000), ts_fade_timer = False, ts_open = True,
      ts_quit = False\<rparr>"

definition toast_destroy :: "toast \<Rightarrow> toast" where
  "toast_destroy t = t\<lparr>ts_open := False, ts_close_timer := None, ts_fade_timer := False, ts_quit := True\<rparr>"

datatype toast_event = CloseTimer | FadeTimer | ButtonUp | ToastPaint

text \<open>The window procedure; a timer that is not set sends nothing, and a closed window gets nothing.\<close>

definition toastWndProc :: "toast \<Rightarrow> toast_event \<Rightarrow> toast" where
  "toastWndProc t e =
     (if \<not> ts_open t then t
      else (case e of
              CloseTimer \<Rightarrow>
                if ts_close_timer t = None then t else t\<lparr>ts_close_timer := None, ts_fade_timer := True\<rparr>
            | FadeTimer \<Rightarrow>
                if \<not> ts_fade_timer t then t
                else if g_toast_alpha t \<le> 15 then toast_destroy (t\<lparr>ts_fade_timer := False\<rparr>)
                else t\<lparr>g_toast_alpha := g_toast_alpha t - 15\<rparr>
            | ButtonUp \<Rightarrow> toast_destroy t
            | ToastPaint \<Rightarrow> t))"

text \<open>
  \<open>runToastNotification\<close>: a text with a NUL has no UTF-16 form; the error is dropped and its first element taken,
  which panics (none). Otherwise the toast is created, unless its window cannot be.
\<close>

definition runToastNotification :: "bool \<Rightarrow> string \<Rightarrow> string \<Rightarrow> int \<Rightarrow> toast option option" where
  "runToastNotification created title message timeoutSec =
     (if CHR 0x00 \<in> set title \<or> CHR 0x00 \<in> set message then None
      else Some (if created then Some (toast_create (word_of_int timeoutSec)) else None))"

end
