(* ===== verification/Windows_Props.thy ===== *)
theory Windows_Props
  imports Windows_Glue Overlay
begin

text \<open>
  What holds of the agent's dealings with Windows: a helper is spawned without a leaked handle, the service
  reports its states in order, an update installs complete downloads only, and what the watermark and the toast
  show.
\<close>

section \<open>Spawning\<close>

text \<open>
  The state of Windows that matters to the calls: the objects that are open, the session of the primary token, the
  token the environment block was made from, the privileges enabled for the process, the sessions whose user was asked
  for with the privileges at that time, and the processes created, with the session, the environment and the
  privileges at their creation. A call that uses an object which is not open, or opens one twice, has no next state.
\<close>

record win_process =
  np_pid :: "32 word"
  np_cmd :: string
  np_session :: "32 word option"
  np_env :: "win_obj option"
  np_privileges :: "string list"

record win_run =
  wr_open :: "win_obj list"
  wr_session :: "32 word option"
  wr_env :: "win_obj option"
  wr_privileges :: "string list"
  wr_asked :: "(32 word \<times> string list) list"
  wr_processes :: "win_process list"

definition no_run :: win_run where
  "no_run = \<lparr>wr_open = [], wr_session = None, wr_env = None, wr_privileges = [], wr_asked = [], wr_processes = []\<rparr>"

fun win_effect :: "win_call \<Rightarrow> win_run \<Rightarrow> win_run" where
  "win_effect (Opened x uses) r =
     (let r1 = r\<lparr>wr_open := x # wr_open r\<rparr> in
      if x = EnvBlock then r1\<lparr>wr_env := Some (hd uses)\<rparr> else if x = PrimaryToken then r1\<lparr>wr_session := None\<rparr> else r1)"
| "win_effect (Closed x) r = r\<lparr>wr_open := remove1 x (wr_open r)\<rparr>"
| "win_effect (Privilege token p) r = (if token = SelfToken then r\<lparr>wr_privileges := wr_privileges r @ [p]\<rparr> else r)"
| "win_effect (SessionSet token s) r = (if token = PrimaryToken then r\<lparr>wr_session := Some s\<rparr> else r)"
| "win_effect (UserOf s) r = r\<lparr>wr_asked := wr_asked r @ [(s, wr_privileges r)]\<rparr>"
| "win_effect (Failed uses) r = r"
| "win_effect (CreateProcessAsUser token copy env cmd created) r =
     (case created of
        None \<Rightarrow> r
      | Some pid \<Rightarrow> r\<lparr>wr_processes := wr_processes r @
          [\<lparr>np_pid = pid, np_cmd = cmd, np_session = (if token = PrimaryToken then wr_session r else None),
            np_env = (if env = None then None else wr_env r), np_privileges = wr_privileges r\<rparr>]\<rparr>)"

fun win_uses :: "win_call \<Rightarrow> win_obj list" where
  "win_uses (Opened x uses) = uses"
| "win_uses (Closed x) = [x]"
| "win_uses (Privilege token p) = [token]"
| "win_uses (SessionSet token s) = [token]"
| "win_uses (UserOf s) = []"
| "win_uses (Failed uses) = uses"
| "win_uses (CreateProcessAsUser token copy env cmd created) = [token, copy] @ (case env of None \<Rightarrow> [] | Some e \<Rightarrow> [e])"

definition win_allowed :: "win_call \<Rightarrow> win_run \<Rightarrow> bool" where
  "win_allowed c r \<longleftrightarrow> list_all (\<lambda>x. x \<in> set (wr_open r)) (win_uses c)
     \<and> (case c of Opened x uses \<Rightarrow> x \<notin> set (wr_open r) | _ \<Rightarrow> True)"

primrec win_calls :: "win_call list \<Rightarrow> win_run \<Rightarrow> win_run option" where
  "win_calls [] r = Some r"
| "win_calls (c # cs) r = (if win_allowed c r then win_calls cs (win_effect c r) else None)"

lemma win_calls_append: "win_calls (xs @ ys) r = Option.bind (win_calls xs r) (win_calls ys)"
  by (induction xs arbitrary: r) simp_all

text \<open>The privileges that the process can have, and the token whose environment a new process gets.\<close>

definition spawn_rights :: "spawn_win \<Rightarrow> string list" where
  "spawn_rights w = (if sw_self w
     then filter (sw_lookup w) [''SeTcbPrivilege'', ''SeAssignPrimaryTokenPrivilege'', ''SeIncreaseQuotaPrivilege''] else [])"

definition env_token :: "spawn_win \<Rightarrow> win_obj option" where
  "env_token w = (if sw_user w \<and> sw_user_env w then Some UserToken else if sw_sys_env w then Some PrimaryToken else None)"

lemma privileges_run:
  "win_calls (spawn_privileges w) no_run = Some
     \<lparr>wr_open = [], wr_session = None, wr_env = None, wr_privileges = spawn_rights w, wr_asked = [], wr_processes = []\<rparr>"
  by (simp add: spawn_privileges_def enablePrivilege_def spawn_rights_def no_run_def win_allowed_def)

lemma env_have: "spawn_env w sid = (env, have) \<Longrightarrow> have = (env_token w \<noteq> None)"
  by (auto simp: spawn_env_def env_token_def Let_def split: if_splits)

lemma env_run:
  "wr_open r = [PrimaryToken] \<Longrightarrow> wr_env r = None \<Longrightarrow> spawn_env w sid = (env, have) \<Longrightarrow>
     win_calls env r = Some (r\<lparr>wr_open := (if have then [EnvBlock] else []) @ [PrimaryToken], wr_env := env_token w,
                                wr_asked := wr_asked r @ [(sid, wr_privileges r)]\<rparr>)"
  by (cases "sw_user w"; cases "sw_user_env w"; cases "sw_sys_env w"; cases r)
    (auto simp: spawn_env_def env_from_def env_token_def win_allowed_def)

text \<open>
  C38. \<open>spawnInSession\<close>: whatever Windows answers, no call uses an object that is not open, and at the end every token,
  environment, copy and handle is closed. The result is 0 exactly when every call that has to succeed did, and then one
  process was created: with the number that is returned, from the command line, by a token that was in the session asked
  for when it was created, with the environment of the session's user (the system's when there is no user), and with the
  privileges enabled; otherwise none was. The user, when one is asked for, is the one of that session, and the privileges
  are enabled before. A failing call leaves an error.
\<close>

theorem spawn_releases_everything:
  assumes "sw_error w \<noteq> 0"
  shows "case spawnInSession w sid cmd of (rc, pid, calls) \<Rightarrow>
      (rc = 0) = (sw_sys w \<and> sw_duplicate w \<and> sw_session w \<and> sw_copy w \<and> sw_create w \<noteq> None)
    \<and> (rc = 0 \<longrightarrow> sw_create w = Some pid)
    \<and> (\<exists>r. win_calls calls no_run = Some r \<and> wr_open r = []
         \<and> wr_processes r = (if rc = 0 then [\<lparr>np_pid = pid, np_cmd = cmd, np_session = Some sid, np_env = env_token w,
                                              np_privileges = spawn_rights w\<rparr>] else [])
         \<and> wr_asked r = (if sw_sys w \<and> sw_duplicate w \<and> sw_session w then [(sid, spawn_rights w)] else []))"
proof -
  have e: "error_code w \<noteq> 0" using assms by (simp add: error_code_def signed_eq_0_iff neg_equal_0_iff_equal)
  obtain env have' where v: "spawn_env w sid = (env, have')" by fastforce
  note run = win_calls_append privileges_run env_run [OF _ _ v] win_allowed_def
  show ?thesis
    using e v env_have [OF v] by (cases have'; cases "sw_create w")
      (auto simp: spawnInSession_def Let_def run env_release_def not_enough_memory_def)
qed

definition plain_windows :: spawn_win where
  "plain_windows = \<lparr>sw_self = True, sw_lookup = (\<lambda>p. True), sw_sys = True, sw_duplicate = True, sw_session = True,
     sw_user = True, sw_user_env = False, sw_sys_env = True, sw_copy = True, sw_create = Some 42, sw_error = 5\<rparr>"

theorem spawn_releases_everything_witness:
  "\<exists>r. win_calls (snd (snd (spawnInSession plain_windows 2 ''a.exe''))) no_run = Some r \<and> wr_open r = []
     \<and> map np_session (wr_processes r) = [Some 2] \<and> map np_env (wr_processes r) = [Some PrimaryToken]"
  using spawn_releases_everything [where w = plain_windows and sid = 2 and cmd = "''a.exe''"]
  by (auto simp: case_prod_unfold plain_windows_def env_token_def)

section \<open>The service\<close>

definition svc_states :: "service \<Rightarrow> 32 word list" where
  "svc_states s = map CurrentState (sv_reported s)"

definition svc_order :: "32 word list" where
  "svc_order = [svcStateStarting, svcStateRunning, svcStateStopping, svcStateStopping, svcStateStopped]"

text \<open>How far the reports are at each place of the main function and of the handler.\<close>

definition svc_inv :: "service \<Rightarrow> bool" where
  "svc_inv s \<longleftrightarrow> \<not> sv_done s \<and> sv_closes s = (if sv_once s then 1 else 0) \<and>
     (case sv_pc s of
        SvcStart \<Rightarrow> sv_reported s = [] \<and> \<not> sv_once s \<and> sv_handler s = HandlerIdle \<and> \<not> sv_handle s
      | SvcReportStarting \<Rightarrow> sv_handle s \<and> sv_reported s = [] \<and> \<not> sv_once s
      | SvcLaunch \<Rightarrow> sv_handle s \<and> sv_reported s = map status_of (take 1 svc_order) \<and> \<not> sv_once s
      | SvcReportRunning \<Rightarrow> sv_handle s \<and> sv_reported s = map status_of (take 1 svc_order) \<and> \<not> sv_once s
      | SvcWait \<Rightarrow> sv_handle s \<and> (if sv_once s then sv_reported s = map status_of (take 3 svc_order)
                   else sv_reported s = map status_of (take 2 svc_order) \<or>
                        (sv_reported s = map status_of (take 3 svc_order) \<and> sv_handler s = HandlerReported))
      | SvcReportStopping \<Rightarrow> sv_handle s \<and> sv_once s \<and> sv_reported s = map status_of (take 3 svc_order)
      | SvcReportStopped \<Rightarrow> sv_handle s \<and> sv_once s \<and> sv_reported s = map status_of (take 4 svc_order)
      | SvcReturned n \<Rightarrow> (n = 0 \<and> sv_handle s \<and> sv_once s \<and> sv_reported s = map status_of svc_order) \<or>
                         (n = 1 \<and> \<not> sv_handle s \<and> sv_reported s = [] \<and> \<not> sv_once s)) \<and>
     (case sv_handler s of
        HandlerIdle \<Rightarrow> True
      | HandlerCalled c \<Rightarrow> sv_handle s \<and> (c = 4 \<or> (sv_pc s = SvcWait \<and> sv_reported s = map status_of (take 2 svc_order)))
      | HandlerReported \<Rightarrow> sv_pc s = SvcWait \<and> \<not> sv_once s \<and> sv_reported s = map status_of (take 3 svc_order))"

lemmas svc_words = svcStateStarting_def svcStateRunning_def svcStateStopping_def svcStateStopped_def
  svcCtrlStop_def svcCtrlShutdown_def svcAcceptStop_def svcAcceptShutdown_def

lemma status_accepts [simp]:
  "ControlsAccepted (status_of svcStateRunning) = 5" "ControlsAccepted (status_of svcStateStarting) = 0"
  "ControlsAccepted (status_of svcStateStopping) = 0" "ControlsAccepted (status_of svcStateStopped) = 0"
  by (simp_all add: status_of_def svc_words)

lemma svc_order_takes [simp]:
  "take 1 svc_order = [svcStateStarting]" "take (Suc 0) svc_order = [svcStateStarting]"
  "take 2 svc_order = [svcStateStarting, svcStateRunning]"
  "take 3 svc_order = [svcStateStarting, svcStateRunning, svcStateStopping]"
  "take 4 svc_order = [svcStateStarting, svcStateRunning, svcStateStopping, svcStateStopping]"
  by (simp_all add: svc_order_def)

lemma svc_inv_main: "svc_inv s \<Longrightarrow> svc_inv (svc_main registered s)"
  by (cases "sv_pc s"; cases "sv_handler s")
    (auto simp: svc_inv_def svc_main_def svcSetStatus_def svc_order_def split: if_splits)

lemma svc_inv_control:
  assumes "svc_inv s" "control_accepted s c" shows "svc_inv (s\<lparr>sv_handler := HandlerCalled c\<rparr>)"
proof -
  have h: "sv_handle s" "sv_handler s = HandlerIdle" using assms(2) by (simp_all add: control_accepted_def)
  have "c = 4 \<or> (sv_pc s = SvcWait \<and> sv_reported s = map status_of (take 2 svc_order))"
    using assms h by (cases "sv_pc s") (auto simp: svc_inv_def control_accepted_def svc_order_def split: if_splits)
  with assms(1) h show ?thesis by (cases "sv_pc s") (auto simp: svc_inv_def)
qed

lemma svc_inv_handler: "svc_inv s \<Longrightarrow> svc_inv (svc_handler_step s)"
  by (cases "sv_handler s"; cases "sv_pc s")
    (auto simp: svc_inv_def svc_handler_step_def svcSetStatus_def stop_once_def svc_words)

lemma svc_inv_step: "svc_inv s \<Longrightarrow> e \<noteq> SvcRunReturns \<Longrightarrow> svc_inv (svc_step s e)"
  by (cases e) (simp_all add: svc_step_def svc_inv_main svc_inv_control svc_inv_handler)

lemma svc_inv_new: "svc_inv new_service"
  by (simp add: svc_inv_def new_service_def)

lemma svc_inv_run: "svc_inv s \<Longrightarrow> SvcRunReturns \<notin> set es \<Longrightarrow> svc_inv (foldl svc_step s es)"
proof (induction es arbitrary: s)
  case (Cons e es)
  have "e \<noteq> SvcRunReturns" using Cons.prems(2) by (metis list.set_intros(1))
  with svc_inv_step Cons.prems(1) have "svc_inv (svc_step s e)" by blast
  with Cons.IH Cons.prems(2) show ?case by simp
qed simp

lemma svc_inv_order:
  assumes "svc_inv s"
  shows "\<exists>k. svc_states s = take k svc_order" "sv_closes s \<le> 1"
    "sv_pc s = SvcReturned 0 \<Longrightarrow> svc_states s = svc_order \<and> sv_closes s = 1"
proof -
  have cs: "CurrentState (status_of x) = x" for x by (simp add: status_of_def)
  have m: "svc_states s = take k svc_order" if "sv_reported s = map status_of (take k svc_order)" for k
    using that by (simp add: svc_states_def comp_def cs)
  have "\<exists>k \<in> {0, 1, 2, 3, 4, 5}. sv_reported s = map status_of (take k svc_order)"
    using assms unfolding svc_inv_def by (cases "sv_pc s") (auto split: if_splits simp: svc_order_def)
  then show "\<exists>k. svc_states s = take k svc_order" using m by blast
  show "sv_closes s \<le> 1" using assms by (auto simp: svc_inv_def)
  show "svc_states s = svc_order \<and> sv_closes s = 1" if "sv_pc s = SvcReturned 0"
    using assms that by (auto simp: svc_inv_def svc_states_def comp_def cs)
qed

text \<open>
  C39. The service, under every interleaving of its main function, of the controls Windows sends and of the
  handler, as long as the agent does not return (its command channel never does): the reported states are a part
  from the start of starting, running, stopping, stopping, stopped; the stop channel is closed at most once, which
  would panic otherwise; and when the main function returns, all five were reported and stopped was the last.
\<close>

theorem service_stop_sequence:
  assumes "SvcRunReturns \<notin> set es" "s = foldl svc_step new_service es"
  shows "(\<exists>k. svc_states s = take k svc_order) \<and> sv_closes s \<le> 1 \<and>
    (sv_pc s = SvcReturned 0 \<longrightarrow> svc_states s = svc_order \<and> sv_closes s = 1)"
  using svc_inv_order [OF svc_inv_run [OF svc_inv_new assms(1)]] unfolding assms(2) by blast

definition service_run :: "svc_event list" where
  "service_run = [SvcMain True, SvcMain True, SvcMain True, SvcMain True, SvcControl svcCtrlStop, SvcHandler, SvcMain True,
     SvcHandler, SvcMain True, SvcControl svcCtrlShutdown, SvcMain True, SvcMain True]"

lemma service_run_returns: "sv_pc (foldl svc_step new_service service_run) = SvcReturned 0"
  by (simp add: service_run_def svc_step_def svc_main_def new_service_def svcSetStatus_def control_accepted_def
    svc_handler_step_def stop_once_def svc_words status_of_def)

theorem service_stop_sequence_witness:
  "svc_states (foldl svc_step new_service service_run) = svc_order \<and>
   sv_closes (foldl svc_step new_service service_run) = 1"
  using service_stop_sequence [of service_run, OF _ refl] service_run_returns by (simp add: service_run_def)

text \<open>If the agent did return while a control was being handled, stopping could be reported after stopped.\<close>

lemma service_race_after_return:
  "svc_states (foldl svc_step new_service
     [SvcMain True, SvcMain True, SvcMain True, SvcMain True, SvcControl svcCtrlStop, SvcRunReturns, SvcMain True,
      SvcMain True, SvcMain True, SvcHandler]) =
   [svcStateStarting, svcStateRunning, svcStateStopping, svcStateStopped, svcStateStopping]"
  by (simp add: svc_states_def svc_step_def svc_main_def new_service_def svcSetStatus_def control_accepted_def
    svc_handler_step_def stop_once_def svc_words status_of_def)

section \<open>The update\<close>

lemma update_installs_complete_downloads:
  assumes "uf_started (performUpdate windows u cfg rel) \<noteq> []"
  shows "windows \<and> ue_status u = Some 200 \<and> ue_copied u \<and>
    uf_requests (performUpdate windows u cfg rel) = [(update_url (ServerURL cfg) rel, APIKey cfg)] \<and>
    uf_files (performUpdate windows u cfg rel) = [(ue_tmp u ''oblireach-update.msi'', ue_body u)] \<and>
    uf_started (performUpdate windows u cfg rel) = [msiexec_args (ue_tmp u) cfg]"
  using assms by (simp add: performUpdate_def Let_def no_update_def split: if_splits option.splits)

section \<open>The watermark\<close>

text \<open>
  Two sessions of the agent share one watermark, and the end of either takes it away: once it is shown,
  a second session's call changes nothing, and when the first session ends the thread destroys the window, after
  which the second session goes on without one however long the thread and further recordings run.
\<close>

theorem first_stream_end_hides_watermark:
  assumes "w = foldl wm_step no_watermark [WmShowCall, WmThread True, WmThread True, WmThread True]"
    "list_all (\<lambda>e. e \<noteq> WmShowCall) es" "list_all (\<lambda>e. case e of WmThread c \<Rightarrow> c | _ \<Rightarrow> True) es"
  shows "g_watermark w \<and> showWatermark w = w \<and>
    \<not> g_watermark (foldl wm_step w ([WmShowCall, WmHideCall, WmThread True, WmThread True] @ es))"
proof -
  let ?w = "foldl wm_step w [WmShowCall, WmHideCall, WmThread True, WmThread True]"
  define gone where "gone = (\<lambda>w :: watermark. \<not> g_watermark w \<and> wm_pc w \<in> {WmClearTid, WmEnd, WmNone})"
  have "gone (wm_step v e)" if "gone v" "e \<noteq> WmShowCall" for v e
    using that by (cases e) (auto simp: gone_def wm_step_def hideWatermark_def stop_watermark_pump_def wm_post_def
      setWatermarkRecording_def set_watermark_mode_def watermark_run_def)
  then have "gone (foldl wm_step v es)" if "gone v" for v
    using that assms(2) by (induction es arbitrary: v) auto
  moreover have "gone ?w"
    by (simp add: gone_def assms(1) wm_step_def showWatermark_def no_watermark_def watermark_run_def show_watermark_rec_def
      wmPaint_def hideWatermark_def stop_watermark_pump_def wm_post_def hide_watermark_rec_def)
  moreover have "g_watermark w \<and> showWatermark w = w"
    by (simp add: assms(1) wm_step_def showWatermark_def no_watermark_def watermark_run_def show_watermark_rec_def wmPaint_def)
  ultimately show ?thesis by (simp add: gone_def)
qed

theorem first_stream_end_hides_watermark_witness:
  "\<not> g_watermark (foldl wm_step (foldl wm_step no_watermark [WmShowCall, WmThread True, WmThread True, WmThread True])
     ([WmShowCall, WmHideCall, WmThread True, WmThread True] @ [WmRecordCall True, WmThread True, WmHideCall]))"
  using first_stream_end_hides_watermark [OF refl, of "[WmRecordCall True, WmThread True, WmHideCall]"] by simp

text \<open>
  A session that ends before the thread of its watermark has a message queue does not take it away: the
  window then appears and stays, labelled live, until some later session ends.
\<close>

theorem watermark_outlives_short_session:
  assumes "e \<in> {[], [WmThread True]}" "list_all (\<lambda>e. e \<noteq> WmHideCall) es"
    "list_all (\<lambda>e. case e of WmThread c \<Rightarrow> c | _ \<Rightarrow> True) es"
    "2 \<le> length (filter (\<lambda>e. e = WmThread True) (e @ es))"
  shows "g_watermark (foldl wm_step no_watermark (WmShowCall # e @ WmHideCall # es))"
proof -
  define alive where "alive = (\<lambda>k (w :: watermark). watermarkRunning w \<and> WmQuit \<notin> set (wm_queue w) \<and>
    ((wm_pc w = WmBegin \<and> \<not> wm_has_queue w \<and> \<not> g_watermark w \<and> k \<ge> (2::nat)) \<or>
     (wm_pc w = WmCreate \<and> \<not> wm_has_queue w \<and> \<not> g_watermark w \<and> k \<ge> 1) \<or>
     (wm_pc w = WmPump \<and> wm_has_queue w \<and> g_watermark w)))"
  have step: "alive (k - (if e = WmThread True then 1 else 0)) (wm_step w e)"
    if "alive k w" "e \<noteq> WmHideCall" "case e of WmThread c \<Rightarrow> c | _ \<Rightarrow> True" for k w e
    using that by (cases e) (auto simp: alive_def wm_step_def showWatermark_def setWatermarkRecording_def
      set_watermark_mode_def wm_post_def watermark_run_def show_watermark_rec_def wmPaint_def wmSetMode_def
      split: list.split wm_msg.split)
  have run: "alive 0 (foldl wm_step w es)" if "alive k w" "k \<le> length (filter (\<lambda>e. e = WmThread True) es)" for k w
    using that assms(2,3)
  proof (induction es arbitrary: k w)
    case Nil then show ?case by simp
  next
    case (Cons x es)
    have "alive (k - (if x = WmThread True then 1 else 0)) (wm_step w x)" using Cons.prems by (intro step) auto
    with Cons.IH Cons.prems show ?case by (auto split: if_splits)
  qed
  have "alive (2 - length e) (foldl wm_step no_watermark (WmShowCall # e @ [WmHideCall]))"
    using assms(1) by (auto simp: alive_def wm_step_def showWatermark_def no_watermark_def watermark_run_def
      hideWatermark_def stop_watermark_pump_def wm_post_def)
  from run [OF this] assms(1,4) show ?thesis by (auto simp: alive_def)
qed

theorem watermark_outlives_short_session_witness:
  "g_watermark (foldl wm_step no_watermark
     (WmShowCall # [WmThread True] @ WmHideCall # [WmThread True, WmThread True, WmShowCall, WmRecordCall True]))"
  by (rule watermark_outlives_short_session) simp_all

text \<open>The mode is not reset either: the watermark of a session after a recorded one starts as recorded.\<close>

lemma watermark_keeps_recording:
  "wm_label (foldl wm_step no_watermark
     ([WmShowCall, WmThread True, WmThread True, WmRecordCall True, WmThread True, WmHideCall] @
      replicate 4 (WmThread True) @ [WmShowCall, WmThread True, WmThread True, WmThread True])) = ''REC''"
  by (simp add: wm_label_def wm_step_def showWatermark_def no_watermark_def watermark_run_def hideWatermark_def
    stop_watermark_pump_def wm_post_def setWatermarkRecording_def set_watermark_mode_def show_watermark_rec_def
    wmSetMode_def wmPaint_def hide_watermark_rec_def numeral_eq_Suc)

section \<open>The toast\<close>

definition fading :: "8 word \<Rightarrow> toast" where
  "fading a = \<lparr>g_toast_alpha = a, ts_close_timer = None, ts_fade_timer = True, ts_open = True, ts_quit = False\<rparr>"

lemma fade_steps:
  assumes "k \<le> 15"
  shows "foldl toastWndProc (fading 240) (replicate k FadeTimer) = fading (240 - 15 * of_nat k)"
  using assms
proof (induction k)
  case (Suc k)
  have "(240 :: 8 word) - 15 * of_nat k = of_nat (240 - 15 * k)"
    using Suc.prems by (simp add: of_nat_diff)
  moreover have "unat (of_nat (240 - 15 * k) :: 8 word) = 240 - 15 * k"
    by (simp only: unat_of_nat) simp
  ultimately have "\<not> (240 :: 8 word) - 15 * of_nat k \<le> 15"
    using Suc.prems by (simp only: word_le_nat_alt) simp
  with Suc show ?case
    by (simp add: replicate_append_same [symmetric] toastWndProc_def fading_def algebra_simps del: replicate_append_same)
qed (simp add: fading_def)

text \<open>
  The toast closes by itself: after its close timer it takes exactly sixteen ticks of the fading timer,
  painting in between changes nothing, it is never brighter than at the start and is open through the fifteenth
  tick; a click closes it at once.
\<close>

theorem toast_fades_out:
  assumes "k \<le> 15"
  shows "foldl toastWndProc (toast_create secs) (CloseTimer # replicate k FadeTimer) = fading (240 - 15 * of_nat k) \<and>
    ts_quit (foldl toastWndProc (toast_create secs) (CloseTimer # replicate 16 FadeTimer)) \<and>
    ts_quit (toastWndProc (fading (240 - 15 * of_nat k)) ButtonUp) \<and>
    toastWndProc (fading (240 - 15 * of_nat k)) ToastPaint = fading (240 - 15 * of_nat k)"
proof -
  have c: "toastWndProc (toast_create secs) CloseTimer = fading 240"
    by (simp add: toastWndProc_def toast_create_def fading_def)
  have "replicate 16 FadeTimer = replicate 15 FadeTimer @ [FadeTimer]" by (simp add: numeral_eq_Suc)
  then have "foldl toastWndProc (fading 240) (replicate 16 FadeTimer) = toastWndProc (fading 15) FadeTimer"
    using fade_steps [of 15] by simp
  also have "ts_quit \<dots>" by (simp add: toastWndProc_def fading_def toast_destroy_def)
  finally show ?thesis
    using c fade_steps [OF assms] by (simp add: toastWndProc_def toast_destroy_def fading_def)
qed

theorem toast_fades_out_witness:
  "ts_quit (foldl toastWndProc (toast_create 8) (CloseTimer # replicate 16 FadeTimer)) \<and>
   g_toast_alpha (foldl toastWndProc (toast_create 8) (CloseTimer # replicate 3 FadeTimer)) = 195"
  using toast_fades_out [of 3 8] by (simp add: fading_def)

lemma toast_slide_in: "toast_slide right = map (\<lambda>d. right + d) [10, - 38, - 86, - 134, - 183, - 231, - 279, - 327, - 376]"
  by (simp add: toast_slide_def toast_steps_def toast_w_def toast_margin_def go_div_def upto.simps Let_def)

lemma toast_stays_on_screen:
  "fst (toast_corner right bottom) = last (toast_slide right)"
  "fst (toast_corner right bottom) + toast_w < right" "snd (toast_corner right bottom) + toast_h < bottom"
  by (simp_all add: toast_slide_in toast_corner_def toast_w_def toast_h_def toast_margin_def)

lemma toast_nul_panics: "runToastNotification created (t @ CHR 0x00 # u) msg secs = None"
  by (simp add: runToastNotification_def)

text \<open>A toast asked to stay for 4294968 seconds closes after less than a second: the milliseconds wrap.\<close>

lemma toast_timeout_wraps: "ts_close_timer (toast_create (word_of_int 4294968)) = Some 704"
  by (simp add: toast_create_def)

end
