(* ===== verification/Page_Remote.thy ===== *)
theory Page_Remote
  imports Stream Audio
begin

text \<open>
  The viewer in the page of the client application (client-app/ui.go, its script): the tabs of remote sessions, their
  WebSockets and decoders, the messages of the agent and the input sent to it. The page has one set of globals for all
  its tabs; objects that closures keep (tabs, sockets, decoders, canvases) are numbered and live in lists. What a
  call of the browser answers (a decoded picture, a valid configuration, the layout) is an argument.
\<close>

section \<open>Values of the script\<close>

text \<open>The property of a parsed object (the last of its name), and whether a value counts as true.\<close>

definition js_get :: "string \<Rightarrow> json \<Rightarrow> json option" where
  "js_get k j = (case j of JObj kvs \<Rightarrow> map_of (rev kvs) k | _ \<Rightarrow> None)"

definition js_truthy :: "json option \<Rightarrow> bool" where
  "js_truthy v =
     (case v of
        None \<Rightarrow> False
      | Some JNull \<Rightarrow> False
      | Some (JBool b) \<Rightarrow> b
      | Some (JInt i) \<Rightarrow> i \<noteq> 0
      | Some (JDec neg m e) \<Rightarrow> m \<noteq> 0
      | Some (JStr s) \<Rightarrow> s \<noteq> []
      | Some (JArr xs) \<Rightarrow> True
      | Some (JObj kvs) \<Rightarrow> True)"

text \<open>
  A number of the script is a double; its operations round the exact result to 53 bits. Sizes and places on a screen
  are far from the ends of the range.
\<close>

definition js_num :: "rat \<Rightarrow> rat" where
  "js_num x =
     (if x = 0 then 0
      else (let ulp = rat_pow2 (rat_exponent \<bar>x\<bar> - 52); y = of_int (round_even (\<bar>x\<bar> / ulp)) * ulp
            in if x < 0 then - y else y))"

definition js_round :: "rat \<Rightarrow> int" where
  "js_round x = \<lfloor>x + 1 / 2\<rfloor>"

section \<open>Objects\<close>

record device =
  dv_id :: int
  dv_host :: string
  dv_online :: bool

datatype ready_state = Connecting | Open | Closing | Closed

record socket =
  so_state :: ready_state
  so_token :: string
  so_tab :: nat
  so_sent :: "json list"
  so_clip :: bool

record tab =
  tb_id :: int
  tb_device :: device
  tb_ws :: "nat option"
  tb_decoder :: "nat option"
  tb_ts :: int

text \<open>A decoder has its configuration, the chunks it took (key, time, data) and the canvas it paints on.\<close>

record decoder =
  dc_config :: "(int \<times> int \<times> bytes option) option"
  dc_closed :: bool
  dc_chunks :: "(bool \<times> int \<times> bytes) list"
  dc_canvas :: nat

datatype picture = JpegPicture bytes | DecodedPicture nat

record canvas =
  cv_shown :: bool
  cv_width :: int
  cv_height :: int
  cv_agent :: "(int \<times> int) option"
  cv_painted :: "picture option"

datatype page_tab = RemoteTab | ScriptsTab | InfoTab

record page =
  pg_selected :: "device option"
  pg_tab :: page_tab
  pg_tabs :: "tab list"
  pg_open :: "nat list"
  pg_active :: "int option"
  pg_sockets :: "socket list"
  pg_ws :: "nat option"
  pg_decoders :: "decoder list"
  pg_decoder :: "nat option"
  pg_ts :: int
  pg_canvases :: "canvas list"
  pg_canvas :: "nat option"
  pg_recording :: bool
  pg_codec :: string
  pg_frames :: nat
  pg_bytes :: nat
  pg_annotating :: bool
  pg_jpegs :: "bytes list"

definition new_page :: page where
  "new_page = \<lparr>pg_selected = None, pg_tab = RemoteTab, pg_tabs = [], pg_open = [], pg_active = None, pg_sockets = [],
     pg_ws = None, pg_decoders = [], pg_decoder = None, pg_ts = 0, pg_canvases = [], pg_canvas = None,
     pg_recording = False, pg_codec = ''H.264'', pg_frames = 0, pg_bytes = 0, pg_annotating = False,
     pg_jpegs = []\<rparr>"

text \<open>A canvas before anything is drawn: hidden, with the default size of the browser.\<close>

definition fresh_canvas :: canvas where
  "fresh_canvas = \<lparr>cv_shown = False, cv_width = 300, cv_height = 150, cv_agent = None, cv_painted = None\<rparr>"

section \<open>Sockets, decoders and canvases\<close>

definition upd_socket :: "nat \<Rightarrow> (socket \<Rightarrow> socket) \<Rightarrow> page \<Rightarrow> page" where
  "upd_socket s f p = (if s < length (pg_sockets p) then p\<lparr>pg_sockets := (pg_sockets p)[s := f (pg_sockets p ! s)]\<rparr> else p)"

definition upd_tab :: "nat \<Rightarrow> (tab \<Rightarrow> tab) \<Rightarrow> page \<Rightarrow> page" where
  "upd_tab t f p = (if t < length (pg_tabs p) then p\<lparr>pg_tabs := (pg_tabs p)[t := f (pg_tabs p ! t)]\<rparr> else p)"

definition upd_canvas :: "nat \<Rightarrow> (canvas \<Rightarrow> canvas) \<Rightarrow> page \<Rightarrow> page" where
  "upd_canvas c f p = (if c < length (pg_canvases p) then p\<lparr>pg_canvases := (pg_canvases p)[c := f (pg_canvases p ! c)]\<rparr> else p)"

definition upd_decoder :: "nat \<Rightarrow> (decoder \<Rightarrow> decoder) \<Rightarrow> page \<Rightarrow> page" where
  "upd_decoder d f p = (if d < length (pg_decoders p) then p\<lparr>pg_decoders := (pg_decoders p)[d := f (pg_decoders p ! d)]\<rparr> else p)"

definition close_socket :: "socket \<Rightarrow> socket" where
  "close_socket s = (if so_state s = Closed then s else s\<lparr>so_state := Closing\<rparr>)"

text \<open>The open socket the page sends to; a message to no socket or to one that is not open is dropped.\<close>

definition open_ws :: "page \<Rightarrow> nat option" where
  "open_ws p =
     (case pg_ws p of
        None \<Rightarrow> None
      | Some s \<Rightarrow> if s < length (pg_sockets p) \<and> so_state (pg_sockets p ! s) = Open then Some s else None)"

definition ws_send :: "json list \<Rightarrow> page \<Rightarrow> page" where
  "ws_send js p =
     (case open_ws p of
        None \<Rightarrow> p
      | Some s \<Rightarrow> upd_socket s (\<lambda>so. so\<lparr>so_sent := so_sent so @ js\<rparr>) p)"

section \<open>Recording\<close>

definition recording_msg :: "bool \<Rightarrow> json" where
  "recording_msg b = JObj [(''type'', JStr ''set_recording''), (''recording'', JBool b)]"

definition canvas_shown :: "page \<Rightarrow> bool" where
  "canvas_shown p = (case pg_canvas p of None \<Rightarrow> False | Some c \<Rightarrow> c < length (pg_canvases p) \<and> cv_shown (pg_canvases p ! c))"

text \<open>\<open>toggleRecording\<close>: it stops a recording, or starts one of a canvas that is shown; \<open>supported\<close>: the recorder exists.\<close>

definition toggleRecording :: "bool \<Rightarrow> page \<Rightarrow> page" where
  "toggleRecording supported p =
     (if pg_recording p then ws_send [recording_msg False] (p\<lparr>pg_recording := False\<rparr>)
      else if \<not> canvas_shown p then p
      else if \<not> supported then p
      else ws_send [recording_msg True] (p\<lparr>pg_recording := True\<rparr>))"

definition stop_recording :: "page \<Rightarrow> page" where
  "stop_recording p = (if pg_recording p then toggleRecording False p else p)"

definition stopRemote :: "page \<Rightarrow> page" where
  "stopRemote p =
     (let p1 = (case pg_ws p of None \<Rightarrow> p | Some s \<Rightarrow> (upd_socket s close_socket p)\<lparr>pg_ws := None\<rparr>);
          p2 = (case pg_decoder p1 of None \<Rightarrow> p1
                | Some d \<Rightarrow> (upd_decoder d (\<lambda>dc. dc\<lparr>dc_closed := True\<rparr>) p1)\<lparr>pg_decoder := None\<rparr>)
      in stop_recording p2)"

section \<open>Tabs\<close>

text \<open>
  Selecting a device draws its pane anew, with a canvas of its own when the device is online and the remote tab is
  shown; the other tabs disconnect first.
\<close>

definition render_remote :: "page \<Rightarrow> page" where
  "render_remote p =
     (case pg_selected p of
        Some d \<Rightarrow>
          if dv_online d
          then p\<lparr>pg_canvases := pg_canvases p @ [fresh_canvas], pg_canvas := Some (length (pg_canvases p))\<rparr>
          else p\<lparr>pg_canvas := None\<rparr>
      | None \<Rightarrow> p\<lparr>pg_canvas := None\<rparr>)"

definition switchTab :: "page_tab \<Rightarrow> page \<Rightarrow> page" where
  "switchTab t p =
     (let p1 = p\<lparr>pg_tab := t\<rparr>
      in if t \<noteq> RemoteTab then (stopRemote p1)\<lparr>pg_canvas := None\<rparr> else render_remote p1)"

definition selectDevice :: "device \<Rightarrow> page \<Rightarrow> page" where
  "selectDevice d p = switchTab (pg_tab p) (p\<lparr>pg_selected := Some d\<rparr>)"

definition find_tab :: "int \<Rightarrow> page \<Rightarrow> nat option" where
  "find_tab i p = find (\<lambda>t. tb_id (pg_tabs p ! t) = i) (pg_open p)"

definition switchSessionTab :: "int \<Rightarrow> page \<Rightarrow> page" where
  "switchSessionTab i p =
     (let p1 = p\<lparr>pg_active := Some i\<rparr>
      in case find_tab i p1 of
           None \<Rightarrow> p1
         | Some t \<Rightarrow>
             (let tab = pg_tabs p1 ! t
              in selectDevice (tb_device tab)
                   (p1\<lparr>pg_selected := Some (tb_device tab), pg_ws := tb_ws tab, pg_decoder := tb_decoder tab,
                       pg_ts := tb_ts tab\<rparr>)))"

definition tab_index :: "int \<Rightarrow> page \<Rightarrow> nat" where
  "tab_index i p = length (takeWhile (\<lambda>t. tb_id (pg_tabs p ! t) \<noteq> i) (pg_open p))"

definition closeSessionTab :: "int \<Rightarrow> page \<Rightarrow> page" where
  "closeSessionTab i p =
     (let idx = tab_index i p in
      if length (pg_open p) \<le> idx then p
      else
        (let tab = pg_tabs p ! (pg_open p ! idx);
             p1 = (case tb_ws tab of None \<Rightarrow> p | Some s \<Rightarrow> upd_socket s close_socket p);
             p2 = (case tb_decoder tab of None \<Rightarrow> p1 | Some d \<Rightarrow> upd_decoder d (\<lambda>dc. dc\<lparr>dc_closed := True\<rparr>) p1);
             p3 = p2\<lparr>pg_open := take idx (pg_open p) @ drop (Suc idx) (pg_open p)\<rparr>
         in if pg_active p = Some i
            then (if pg_open p3 \<noteq> []
                  then switchSessionTab (tb_id (pg_tabs p3 ! (pg_open p3 ! min idx (length (pg_open p3) - 1)))) p3
                  else p3\<lparr>pg_active := None, pg_ws := None, pg_decoder := None\<rparr>)
            else p3))"

text \<open>\<open>addSessionTab\<close>: the tab of the device, switched to when it has one; a new tab is named after the time.\<close>

definition addSessionTab :: "int \<Rightarrow> device \<Rightarrow> page \<Rightarrow> page \<times> nat" where
  "addSessionTab now d p =
     (case find (\<lambda>t. dv_id (tb_device (pg_tabs p ! t)) = dv_id d) (pg_open p) of
        Some t \<Rightarrow> (switchSessionTab (tb_id (pg_tabs p ! t)) p, t)
      | None \<Rightarrow>
          (p\<lparr>pg_tabs := pg_tabs p @ [\<lparr>tb_id = now, tb_device = d, tb_ws = None, tb_decoder = None, tb_ts = 0\<rparr>],
             pg_open := pg_open p @ [length (pg_tabs p)], pg_active := Some now\<rparr>, length (pg_tabs p)))"

section \<open>A session\<close>

text \<open>
  \<open>startRemote\<close> up to its request, of which the tab and the body are kept, and after the answer: a token opens a socket,
  none is an error that is only shown.
\<close>

definition startRemote :: "int \<Rightarrow> int option \<Rightarrow> page \<Rightarrow> page \<times> (nat \<times> json) option" where
  "startRemote now wts p =
     (case pg_selected p of
        None \<Rightarrow> (p, None)
      | Some d \<Rightarrow>
          (case addSessionTab now d p of
             (p1, t) \<Rightarrow>
               (p1, Some (t, JObj ([(''deviceId'', JInt (case pg_selected p1 of Some d' \<Rightarrow> dv_id d' | None \<Rightarrow> dv_id d)),
                                    (''protocol'', JStr ''oblireach'')] @
                                   (case wts of None \<Rightarrow> [] | Some s \<Rightarrow> [(''sessionId'', JInt s)]))))))"

definition session_answer :: "nat \<Rightarrow> string option \<Rightarrow> page \<Rightarrow> page" where
  "session_answer t token p =
     (case token of
        None \<Rightarrow> p
      | Some tok \<Rightarrow>
          if tok = [] then p
          else upd_tab t (\<lambda>tab. tab\<lparr>tb_ws := Some (length (pg_sockets p))\<rparr>)
                 (p\<lparr>pg_sockets := pg_sockets p @ [\<lparr>so_state = Connecting, so_token = tok, so_tab = t, so_sent = [], so_clip = False\<rparr>],
                    pg_ws := Some (length (pg_sockets p))\<rparr>))"

definition ws_onopen :: "nat \<Rightarrow> page \<Rightarrow> page" where
  "ws_onopen s p = (upd_socket s (\<lambda>so. so\<lparr>so_state := Open\<rparr>) p)\<lparr>pg_frames := 0, pg_bytes := 0\<rparr>"

definition hide_canvas :: "page \<Rightarrow> page" where
  "hide_canvas p = (case pg_canvas p of None \<Rightarrow> p | Some c \<Rightarrow> upd_canvas c (\<lambda>cv. cv\<lparr>cv_shown := False\<rparr>) p)"

definition ws_onclose :: "nat \<Rightarrow> page \<Rightarrow> page" where
  "ws_onclose s p =
     (if length (pg_sockets p) \<le> s then p
      else stop_recording
             (upd_tab (so_tab (pg_sockets p ! s)) (\<lambda>tab. tab\<lparr>tb_ws := None, tb_decoder := None\<rparr>)
               ((hide_canvas (upd_socket s (\<lambda>so. so\<lparr>so_state := Closed\<rparr>) p))\<lparr>pg_ws := None, pg_decoder := None\<rparr>)))"

section \<open>Messages of the agent\<close>

text \<open>The H.264 parameter sets or key slice in a payload: the start codes are looked for byte by byte.\<close>

function keyframe_scan :: "bytes \<Rightarrow> nat \<Rightarrow> bool" where
  "keyframe_scan d i =
     (if length d < i + 5 then False
      else if d ! i = 0 \<and> d ! (i + 1) = 0 then
        (if d ! (i + 2) = 1 then
           (i + 3 < length d \<and> unat (and (d ! (i + 3)) 0x1f) \<in> {5, 7, 8}) \<or> keyframe_scan d (i + 4)
         else if d ! (i + 2) = 0 \<and> d ! (i + 3) = 1 then
           (i + 4 < length d \<and> unat (and (d ! (i + 4)) 0x1f) \<in> {5, 7, 8}) \<or> keyframe_scan d (i + 5)
         else keyframe_scan d (i + 1))
      else keyframe_scan d (i + 1))"
  by pat_completeness auto
termination by (relation "measure (\<lambda>(d, i). length d - i)") auto

definition isH264Keyframe :: "bytes \<Rightarrow> bool" where
  "isH264Keyframe d = keyframe_scan d 0"

text \<open>
  \<open>initDecoder\<close>: a canvas is needed; \<open>extra\<close> is the decoded description (none: \<open>atob\<close> raised) and \<open>accepted\<close> what
  \<open>configure\<close> said. The result says whether it came to its end; an exception leaves a decoder without configuration.
\<close>

definition close_decoder :: "page \<Rightarrow> page" where
  "close_decoder p = (case pg_decoder p of None \<Rightarrow> p | Some d \<Rightarrow> upd_decoder d (\<lambda>dc. dc\<lparr>dc_closed := True\<rparr>) p)"

definition sync_tab :: "page \<Rightarrow> page" where
  "sync_tab p =
     (case pg_active p of
        None \<Rightarrow> p
      | Some i \<Rightarrow> (case find_tab i p of None \<Rightarrow> p
                   | Some t \<Rightarrow> upd_tab t (\<lambda>tab. tab\<lparr>tb_decoder := pg_decoder p, tb_ts := pg_ts p\<rparr>) p))"

definition initDecoder :: "int \<Rightarrow> int \<Rightarrow> bytes option option \<Rightarrow> bool \<Rightarrow> page \<Rightarrow> page \<times> bool" where
  "initDecoder w h extra accepted p0 =
     (let p = close_decoder p0 in
      case pg_canvas p of
        None \<Rightarrow> (p, True)
      | Some c \<Rightarrow>
          (let p1 = p\<lparr>pg_decoders := pg_decoders p @ [\<lparr>dc_config = None, dc_closed = False, dc_chunks = [], dc_canvas = c\<rparr>],
                      pg_decoder := Some (length (pg_decoders p)), pg_ts := 0\<rparr>
           in case extra of
                None \<Rightarrow> (p1, False)
              | Some x \<Rightarrow>
                  if \<not> accepted then (p1, False)
                  else (sync_tab (upd_decoder (length (pg_decoders p)) (\<lambda>dc. dc\<lparr>dc_config := Some (w, h, x)\<rparr>) p1), True)))"

definition switch_codec_name :: "json option \<Rightarrow> string" where
  "switch_codec_name c =
     (if c = Some (JStr ''jpeg'') then ''JPEG'' else if c = Some (JStr ''h265'') then ''H.265''
      else if c = Some (JStr ''vp9'') then ''VP9'' else if c = Some (JStr ''av1'') then ''AV1'' else ''H.264'')"

definition js_int :: "json option \<Rightarrow> int" where
  "js_int v = (case v of Some (JInt i) \<Rightarrow> i | _ \<Rightarrow> 0)"

text \<open>
  A text message: one that is not JSON (none) or not an object changes nothing; the sizes of an init message are integers,
  as the agent writes them.
\<close>

definition remote_text :: "bytes option option \<Rightarrow> bool \<Rightarrow> json option \<Rightarrow> page \<Rightarrow> page" where
  "remote_text extra accepted msg p =
     (case msg of
        None \<Rightarrow> p
      | Some info \<Rightarrow>
          if js_get ''type'' info = Some (JStr ''paired'') then p
          else if js_get ''type'' info = Some (JStr ''codec_switch'')
          then p\<lparr>pg_codec := switch_codec_name (js_get ''codec'' info)\<rparr>
          else if \<not> js_truthy (js_get ''width'' info) \<or> \<not> js_truthy (js_get ''height'' info) then p
          else
            (let w = js_int (js_get ''width'' info); h = js_int (js_get ''height'' info) in
             case initDecoder w h (if js_truthy (js_get ''extradata'' info) then extra else Some None) accepted p of
               (p1, ok) \<Rightarrow>
                 if \<not> ok then p1
                 else (let p2 = p1\<lparr>pg_codec := ''H.264''\<rparr> in
                       case pg_canvas p2 of
                         None \<Rightarrow> p2
                       | Some c \<Rightarrow> upd_canvas c (\<lambda>cv. cv\<lparr>cv_width := w, cv_height := h, cv_shown := True,
                                                           cv_painted := None\<rparr>) p2)))"

text \<open>
  A picture of JPEG data is decoded while the page goes on; once it is (to its size; none: it could not), it is drawn
  on the canvas the page has then. \<open>area\<close> is the size of that canvas on the screen in device pixels.
\<close>

definition jpeg_decoded :: "int \<times> int \<Rightarrow> (int \<times> int) option \<Rightarrow> nat \<Rightarrow> page \<Rightarrow> page" where
  "jpeg_decoded area bmp k p =
     (if length (pg_jpegs p) \<le> k then p
      else
        (let payload = pg_jpegs p ! k; p1 = p\<lparr>pg_jpegs := take k (pg_jpegs p) @ drop (Suc k) (pg_jpegs p)\<rparr>
         in case (bmp, pg_canvas p1) of
              (Some wh, Some c) \<Rightarrow>
                upd_canvas c (\<lambda>cv. cv\<lparr>cv_agent := Some wh, cv_width := fst area, cv_height := snd area, cv_shown := True,
                                     cv_painted := Some (JpegPicture payload)\<rparr>) p1
            | _ \<Rightarrow> p1))"

text \<open>\<open>decode\<close> raises, and the page ignores it, unless the decoder is configured and its first chunk is a key frame.\<close>

definition decode_chunk :: "bool \<times> int \<times> bytes \<Rightarrow> decoder \<Rightarrow> decoder" where
  "decode_chunk ch dc =
     (if dc_closed dc \<or> dc_config dc = None \<or> (dc_chunks dc = [] \<and> \<not> fst ch) then dc
      else dc\<lparr>dc_chunks := dc_chunks dc @ [ch]\<rparr>)"

definition remote_bytes :: "bytes \<Rightarrow> page \<Rightarrow> page" where
  "remote_bytes buf p =
     (case buf of
        [] \<Rightarrow> p
      | ty # payload \<Rightarrow>
          (let p1 = p\<lparr>pg_frames := pg_frames p + 1, pg_bytes := pg_bytes p + length buf\<rparr> in
           if ty = 1 then p1\<lparr>pg_codec := ''JPEG'', pg_jpegs := pg_jpegs p1 @ [payload]\<rparr>
           else if ty = 2
           then (case pg_decoder p1 of
                   None \<Rightarrow> p1
                 | Some d \<Rightarrow> upd_decoder d (decode_chunk (isH264Keyframe payload, pg_ts p1, payload))
                               (p1\<lparr>pg_ts := pg_ts p1 + 66667\<rparr>))
           else p1))"

text \<open>A frame the decoder puts out is painted on the canvas it was made with, which takes its size.\<close>

definition decoder_output :: "nat \<Rightarrow> int \<times> int \<Rightarrow> page \<Rightarrow> page" where
  "decoder_output d wh p =
     (if d < length (pg_decoders p)
      then upd_canvas (dc_canvas (pg_decoders p ! d))
             (\<lambda>cv. cv\<lparr>cv_width := fst wh, cv_height := snd wh, cv_painted := Some (DecodedPicture d)\<rparr>) p
      else p)"

section \<open>Input\<close>

record layout =
  la_left :: rat
  la_top :: rat
  la_width :: rat
  la_height :: rat
  la_dpr :: rat

text \<open>
  The scale of the picture on the canvas: the smaller of the two quotients, of which one with a divisor 0 is infinite;
  no number if both are, or if one is 0 by 0.
\<close>

definition view_scale :: "rat \<Rightarrow> rat \<Rightarrow> int \<Rightarrow> int \<Rightarrow> rat option" where
  "view_scale cw ch aw ah =
     (if aw = 0 \<and> ah = 0 then None
      else if aw = 0 then (if cw = 0 then None else Some (js_num (ch / of_int ah)))
      else if ah = 0 then (if ch = 0 then None else Some (js_num (cw / of_int aw)))
      else Some (min (js_num (cw / of_int aw)) (js_num (ch / of_int ah))))"

text \<open>One coordinate: the place in the element, less the margin of the picture, by the scale; \<open>null\<close> if it is no number.\<close>

definition view_coord :: "rat \<Rightarrow> rat \<Rightarrow> rat \<Rightarrow> rat \<Rightarrow> int \<Rightarrow> rat option \<Rightarrow> json" where
  "view_coord client start c dpr a scale =
     (case scale of
        None \<Rightarrow> JNull
      | Some k \<Rightarrow>
          if k = 0 then JNull
          else (let d = js_num (js_num (c - js_num (of_int a * k)) / 2);
                    q = js_num (js_num (js_num (client - start) * dpr) - d)
                in JInt (js_round (js_num (q / k)))))"

datatype mouse_event = MouseMove | MouseDown int | MouseUp int | Wheel rat

definition mouse_action :: "mouse_event \<Rightarrow> string" where
  "mouse_action ev = (case ev of MouseMove \<Rightarrow> ''move'' | MouseDown b \<Rightarrow> ''down'' | MouseUp b \<Rightarrow> ''up'' | Wheel d \<Rightarrow> ''scroll'')"

definition mouse_extra :: "mouse_event \<Rightarrow> (string \<times> json) list" where
  "mouse_extra ev =
     (case ev of
        MouseMove \<Rightarrow> []
      | MouseDown b \<Rightarrow> [(''button'', JInt b)]
      | MouseUp b \<Rightarrow> [(''button'', JInt b)]
      | Wheel d \<Rightarrow> [(''delta'', JInt (if d < 0 then 1 else if d > 0 then - 1 else 0))])"

definition agent_size :: "canvas \<Rightarrow> int \<times> int" where
  "agent_size cv = (case cv_agent cv of
      Some (w, h) \<Rightarrow> (if w \<noteq> 0 then w else cv_width cv, if h \<noteq> 0 then h else cv_height cv)
    | None \<Rightarrow> (cv_width cv, cv_height cv))"

definition mouse_msg :: "layout \<Rightarrow> canvas \<Rightarrow> mouse_event \<Rightarrow> rat \<Rightarrow> rat \<Rightarrow> json" where
  "mouse_msg la cv ev clientX clientY =
     (let (aw, ah) = agent_size cv; cw = js_num (la_width la * la_dpr la); ch = js_num (la_height la * la_dpr la);
          scale = view_scale cw ch aw ah
      in JObj ([(''type'', JStr ''mouse''), (''action'', JStr (mouse_action ev)),
                (''x'', view_coord clientX (la_left la) cw (la_dpr la) aw scale),
                (''y'', view_coord clientY (la_top la) ch (la_dpr la) ah scale)] @ mouse_extra ev))"

definition sendInput :: "layout \<Rightarrow> mouse_event \<Rightarrow> rat \<Rightarrow> rat \<Rightarrow> page \<Rightarrow> page" where
  "sendInput la ev clientX clientY p =
     (if pg_annotating p then p
      else (case pg_canvas p of
              None \<Rightarrow> p
            | Some c \<Rightarrow> if c < length (pg_canvases p) then ws_send [mouse_msg la (pg_canvases p ! c) ev clientX clientY] p
                        else p))"

definition key_msg :: "bool \<Rightarrow> string \<Rightarrow> string \<Rightarrow> bool \<Rightarrow> bool \<Rightarrow> bool \<Rightarrow> bool \<Rightarrow> json" where
  "key_msg down key code shift ctrl alt meta =
     JObj [(''type'', JStr ''key''), (''action'', JStr (if down then ''down'' else ''up'')), (''key'', JStr key),
           (''code'', JStr code), (''shift'', JBool shift), (''ctrl'', JBool ctrl), (''alt'', JBool alt), (''meta'', JBool meta)]"

definition sendInputKey :: "bool \<Rightarrow> string \<Rightarrow> string \<Rightarrow> bool \<Rightarrow> bool \<Rightarrow> bool \<Rightarrow> bool \<Rightarrow> page \<Rightarrow> page" where
  "sendInputKey down key code shift ctrl alt meta p =
     (if pg_annotating p then p else ws_send [key_msg down key code shift ctrl alt meta] p)"

text \<open>\<open>sendSystemKeys\<close>: Ctrl+Alt+Del is a message of its own, other keys go down in order and up in the reverse order.\<close>

definition is_cad :: "(string \<times> string) list \<Rightarrow> bool" where
  "is_cad keys \<longleftrightarrow> length keys = 3 \<and> list_ex (\<lambda>k. fst k = ''Control'') keys \<and> list_ex (\<lambda>k. fst k = ''Alt'') keys \<and>
     list_ex (\<lambda>k. fst k = ''Delete'') keys"

definition system_key_msgs :: "(string \<times> string) list \<Rightarrow> json list" where
  "system_key_msgs keys =
     (if is_cad keys then [JObj [(''type'', JStr ''sas'')]]
      else map (\<lambda>(k, c). key_msg True k c (k = ''Shift'') (k = ''Control'') (k = ''Alt'') (k = ''Meta'')) keys @
           map (\<lambda>(k, c). key_msg False k c False False False False) (rev keys))"

definition sendSystemKeys :: "(string \<times> string) list \<Rightarrow> page \<Rightarrow> page" where
  "sendSystemKeys keys p = ws_send (system_key_msgs keys) p"

definition sys_keys :: "(string \<times> (string \<times> string) list) list" where
  "sys_keys =
     [(''Ctrl+Alt+Del'', [(''Control'', ''ControlLeft''), (''Alt'', ''AltLeft''), (''Delete'', ''Delete'')]),
      (''Alt+Tab'', [(''Alt'', ''AltLeft''), (''Tab'', ''Tab'')]),
      (''Alt+F4'', [(''Alt'', ''AltLeft''), (''F4'', ''F4'')]),
      (''Win'', [(''Meta'', ''MetaLeft'')]),
      (''Ctrl+Shift+Esc'', [(''Control'', ''ControlLeft''), (''Shift'', ''ShiftLeft''), (''Escape'', ''Escape'')]),
      (''PrtScn'', [(''PrintScreen'', ''PrintScreen'')])]"

text \<open>\<open>typeString\<close> of an ASCII text: a key down and up for each character.\<close>

definition upper_char :: "char \<Rightarrow> char" where
  "upper_char c = (if 97 \<le> (of_char c :: nat) \<and> (of_char c :: nat) \<le> 122 then char_of ((of_char c :: nat) - 32) else c)"

definition typed_key :: "char \<Rightarrow> string" where
  "typed_key c = (if c = CHR 0x0D then ''Enter'' else [c])"

definition typed_code :: "char \<Rightarrow> string" where
  "typed_code c =
     (if c = CHR 0x0D then ''Enter'' else if c = CHR '' '' then ''Space'' else if c = CHR ''-'' then ''Minus''
      else if c = CHR ''.'' then ''Period'' else if c = CHR ''/'' then ''Slash'' else if c = CHR 0x5C then ''Backslash''
      else ''Key'' @ [upper_char c])"

definition typed_msgs :: "string \<Rightarrow> json list" where
  "typed_msgs s = concat (map (\<lambda>c. [key_msg True (typed_key c) (typed_code c) False False False False,
                                    key_msg False (typed_key c) (typed_code c) False False False False]) s)"

definition typeString :: "string \<Rightarrow> page \<Rightarrow> page" where
  "typeString s p = ws_send (typed_msgs s) p"

text \<open>The quick actions: the keys of each, and the text typed after a while.\<close>

definition quick_action :: "string \<Rightarrow> bool \<Rightarrow> ((string \<times> string) list \<times> string) option" where
  "quick_action name confirmed =
     (let run = [(''Meta'', ''MetaLeft''), (''r'', ''KeyR'')] in
      if name = ''lock'' then Some ([(''Meta'', ''MetaLeft''), (''l'', ''KeyL'')], [])
      else if name = ''taskmgr''
      then Some ([(''Control'', ''ControlLeft''), (''Shift'', ''ShiftLeft''), (''Escape'', ''Escape'')], [])
      else if name = ''cmd'' then Some (run, ''cmd'' @ [CHR 0x0D])
      else if name = ''powershell'' then Some (run, ''powershell'' @ [CHR 0x0D])
      else if name = ''reboot'' \<and> confirmed then Some (run, ''shutdown -r -t 0'' @ [CHR 0x0D])
      else None)"

section \<open>The clipboard\<close>

definition clipboardPasteToRemote :: "string option \<Rightarrow> page \<Rightarrow> page" where
  "clipboardPasteToRemote txt p =
     (case txt of
        None \<Rightarrow> p
      | Some s \<Rightarrow> if s = [] then p
                  else ws_send [JObj [(''type'', JStr ''clipboard_set''), (''text'', JStr s)]] p)"

text \<open>The request adds a listener to the socket, which writes the first content that comes and then removes itself.\<close>

definition clipboardCopyFromRemote :: "page \<Rightarrow> page" where
  "clipboardCopyFromRemote p =
     (case open_ws p of
        None \<Rightarrow> p
      | Some s \<Rightarrow> upd_socket s (\<lambda>so. so\<lparr>so_clip := True\<rparr>) (ws_send [JObj [(''type'', JStr ''clipboard_get'')]] p))"

text \<open>The listener of a socket: the text it writes to the clipboard, and the page without it; \<open>msg\<close> is a text message.\<close>

definition clip_message :: "nat \<Rightarrow> json option \<Rightarrow> page \<Rightarrow> page \<times> string option" where
  "clip_message s msg p =
     (if s < length (pg_sockets p) \<and> so_clip (pg_sockets p ! s)
      then (case msg of
              None \<Rightarrow> (p, None)
            | Some j \<Rightarrow>
                if js_get ''type'' j = Some (JStr ''clipboard_content'')
                then (case js_get ''text'' j of
                        Some (JStr t) \<Rightarrow> if t = [] then (p, None)
                                        else ((case pg_ws p of None \<Rightarrow> p
                                               | Some w \<Rightarrow> upd_socket w (\<lambda>so. so\<lparr>so_clip := False\<rparr>) p), Some t)
                      | _ \<Rightarrow> (p, None))
                else (p, None))
      else (p, None))"

text \<open>After three seconds it is removed from the socket the page has then.\<close>

definition clip_timeout :: "page \<Rightarrow> page" where
  "clip_timeout p = (case pg_ws p of None \<Rightarrow> p | Some w \<Rightarrow> upd_socket w (\<lambda>so. so\<lparr>so_clip := False\<rparr>) p)"

section \<open>The page as a whole\<close>

text \<open>
  What happens to the page, in any order. A socket that is closed brings no message, and a canvas that is not displayed
  gets no event of the mouse or the keyboard.
\<close>

datatype page_event =
    Select device
  | ShowTab page_tab
  | SwitchTo int
  | CloseTab int
  | Connect int "int option"
  | Answer nat "string option"
  | Disconnect
  | SocketOpen nat
  | SocketClosed nat
  | TextMessage nat "bytes option option" bool "json option"
  | BinaryMessage nat bytes
  | JpegDecoded "int \<times> int" "(int \<times> int) option" nat
  | FrameDecoded nat "int \<times> int"
  | Mouse layout mouse_event rat rat
  | Key bool string string bool bool bool bool
  | SystemKeys "(string \<times> string) list"
  | TypeText string
  | Record bool
  | PasteText "string option"
  | CopyText
  | CopyTimeout

definition receiving :: "nat \<Rightarrow> page \<Rightarrow> bool" where
  "receiving s p \<longleftrightarrow> s < length (pg_sockets p) \<and> so_state (pg_sockets p ! s) = Open"

definition page_event_step :: "page \<Rightarrow> page_event \<Rightarrow> page" where
  "page_event_step p e =
     (case e of
        Select d \<Rightarrow> selectDevice d p
      | ShowTab t \<Rightarrow> switchTab t p
      | SwitchTo i \<Rightarrow> switchSessionTab i p
      | CloseTab i \<Rightarrow> closeSessionTab i p
      | Connect now wts \<Rightarrow> fst (startRemote now wts p)
      | Answer t token \<Rightarrow> if t < length (pg_tabs p) then session_answer t token p else p
      | Disconnect \<Rightarrow> stopRemote p
      | SocketOpen s \<Rightarrow>
          if s < length (pg_sockets p) \<and> so_state (pg_sockets p ! s) = Connecting then ws_onopen s p else p
      | SocketClosed s \<Rightarrow> ws_onclose s p
      | TextMessage s extra accepted msg \<Rightarrow>
          if receiving s p then fst (clip_message s msg (remote_text extra accepted msg p)) else p
      | BinaryMessage s buf \<Rightarrow> if receiving s p then remote_bytes buf p else p
      | JpegDecoded area bmp k \<Rightarrow> jpeg_decoded area bmp k p
      | FrameDecoded d wh \<Rightarrow> decoder_output d wh p
      | Mouse la ev x y \<Rightarrow> if canvas_shown p then sendInput la ev x y p else p
      | Key down key code sh ct al me \<Rightarrow> if canvas_shown p then sendInputKey down key code sh ct al me p else p
      | SystemKeys keys \<Rightarrow> sendSystemKeys keys p
      | TypeText s \<Rightarrow> typeString s p
      | Record supported \<Rightarrow> toggleRecording supported p
      | PasteText txt \<Rightarrow> (case open_ws p of None \<Rightarrow> p | Some s \<Rightarrow> clipboardPasteToRemote txt p)
      | CopyText \<Rightarrow> clipboardCopyFromRemote p
      | CopyTimeout \<Rightarrow> clip_timeout p)"

end
