(* ===== verification/Page_Props.thy ===== *)
theory Page_Props
  imports Page_Remote Audio_Props Stream_Props
begin

text \<open>
  What the viewer's page does with the agent's frames and what the agent makes of the page's input: the search for key
  frames against the agent's Annex B output, and texts, system keys and the pointer from the page to the calls of the
  agent's input backend.
\<close>

section \<open>Key frames\<close>

text \<open>The scan read off the rest of the data.\<close>

fun key_scan :: "bytes \<Rightarrow> bool" where
  "key_scan (a # b # c # d # e # r) =
     (if a = 0 \<and> b = 0 then
        (if c = 1 then unat (and d 0x1f) \<in> {5, 7, 8} \<or> key_scan (e # r)
         else if c = 0 \<and> d = 1 then unat (and e 0x1f) \<in> {5, 7, 8} \<or> key_scan r
         else key_scan (b # c # d # e # r))
      else key_scan (b # c # d # e # r))"
| "key_scan _ = False"

declare keyframe_scan.simps [simp del]

lemma key_scan_short: "length r < 5 \<Longrightarrow> \<not> key_scan r"
  by (induction r rule: key_scan.induct) auto

lemma keyframe_scan_drop: "keyframe_scan d i = key_scan (drop i d)"
proof (induction d i rule: keyframe_scan.induct)
  case (1 d i)
  show ?case
  proof (cases "length d < i + 5")
    case True
    then show ?thesis by (subst keyframe_scan.simps) (auto simp: key_scan_short)
  next
    case False
    have nth: "i + 4 < length d" using False by simp
    have dr: "drop i d = d ! i # d ! (i + 1) # d ! (i + 2) # d ! (i + 3) # d ! (i + 4) # drop (i + 5) d"
      using nth by (simp add: Cons_nth_drop_Suc numeral_eq_Suc)
    have dr1: "drop (Suc i) d = d ! (i + 1) # d ! (i + 2) # d ! (i + 3) # d ! (i + 4) # drop (i + 5) d"
      "drop (i + 4) d = d ! (i + 4) # drop (i + 5) d"
      using nth by (simp_all add: Cons_nth_drop_Suc numeral_eq_Suc)
    show ?thesis using 1 False nth by (subst keyframe_scan.simps) (simp add: dr dr1)
  qed
qed

text \<open>
  A unit as an encoder writes it: a header that is not zero, no start code inside, and no zero at its end.
\<close>

fun no_start_code :: "bytes \<Rightarrow> bool" where
  "no_start_code (a # b # c # r) = (\<not> (a = 0 \<and> b = 0 \<and> c \<in> {0, 1}) \<and> no_start_code (b # c # r))"
| "no_start_code _ = True"

definition nal_clean :: "bytes \<Rightarrow> bool" where
  "nal_clean n \<longleftrightarrow> n \<noteq> [] \<and> hd n \<noteq> 0 \<and> last n \<noteq> 0 \<and> no_start_code n"

definition key_nal :: "bytes \<Rightarrow> bool" where
  "key_nal n \<longleftrightarrow> unat (and (hd n) 0x1f) \<in> {5, 7, 8}"

lemma key_scan_step: "a \<noteq> 0 \<or> (r \<noteq> [] \<and> hd r \<noteq> 0) \<or> \<not> (2 \<le> length r \<and> r ! 1 \<in> {0, 1}) \<Longrightarrow> key_scan (a # r) = key_scan r"
proof -
  assume h: "a \<noteq> 0 \<or> (r \<noteq> [] \<and> hd r \<noteq> 0) \<or> \<not> (2 \<le> length r \<and> r ! 1 \<in> {0, 1})"
  show ?thesis
  proof (cases "length r < 4")
    case True
    then show ?thesis by (simp add: key_scan_short)
  next
    case False
    then obtain b c d e q where r: "r = b # c # d # e # q"
      by (metis One_nat_def Suc_le_length_iff add_2_eq_Suc' not_less numeral_2_eq_2 numeral_Bit0 plus_1_eq_Suc)
    show ?thesis using h by (auto simp: r)
  qed
qed

lemma key_scan_skip: "no_start_code n \<Longrightarrow> n \<noteq> [] \<Longrightarrow> last n \<noteq> 0 \<Longrightarrow> key_scan (n @ r) = key_scan r"
proof (induction n rule: no_start_code.induct)
  case (1 a b c r')
  have "key_scan (a # (b # c # r') @ r) = key_scan ((b # c # r') @ r)" using 1 by (intro key_scan_step) auto
  with 1 show ?case by simp
qed (simp_all add: key_scan_step)

lemma key_scan_start: "n \<noteq> [] \<Longrightarrow> key_scan (startCode @ n @ r) = (key_nal n \<or> key_scan (tl n @ r))"
  by (cases n) (auto simp: startCode_def key_nal_def)

lemma no_start_code_tl: "no_start_code n \<Longrightarrow> no_start_code (tl n)"
  by (cases n rule: no_start_code.cases) auto

lemma key_scan_annexb: "list_all nal_clean nals \<Longrightarrow> key_scan (annexb nals) = list_ex key_nal nals"
proof (induction nals)
  case (Cons n nals)
  then have n: "n \<noteq> []" "last n \<noteq> 0" "no_start_code n" by (simp_all add: nal_clean_def)
  have "key_scan (tl n @ annexb nals) = key_scan (annexb nals)"
    using key_scan_skip [of "tl n" "annexb nals"] no_start_code_tl [OF n(3)] n by (cases n) (auto split: if_splits)
  then show ?case
    using Cons key_scan_start [OF n(1), of "annexb nals"] by (simp add: annexb_def)
qed (simp add: annexb_def)

text \<open>
  C22. The agent turns the length-prefixed units of its encoder into Annex B, and the page finds a key frame in the
  result exactly when one of the units is an IDR slice or a parameter set; unless the first length reads as a start
  code, when the agent leaves the data as it is.
\<close>

theorem keyframe_found_in_agent_output:
  assumes "list_all nal_ok (n # nals)" "list_all nal_clean (n # nals)" "\<not> misread_length (length n)" "length tail < 4"
  shows "isH264Keyframe (ensureAnnexB (avcc (n # nals) @ tail)) = list_ex key_nal (n # nals) \<and>
    isH264Keyframe (annexb (n # nals)) = list_ex key_nal (n # nals)"
  using key_scan_annexb [OF assms(2)] ensureAnnexB_avcc [OF assms(1,4)] assms(3)
  by (simp add: isH264Keyframe_def keyframe_scan_drop)

theorem keyframe_found_in_agent_output_witness:
  "isH264Keyframe (ensureAnnexB (avcc [[0x67, 0x42], [0x65, 0x88]])) \<and> \<not> isH264Keyframe (ensureAnnexB (avcc [[0x41, 0x9a]]))"
  using keyframe_found_in_agent_output [of "[0x67, 0x42]" "[[0x65, 0x88]]" "[]"]
    keyframe_found_in_agent_output [of "[0x41, 0x9a]" "[]" "[]"]
  by (simp add: nal_ok_def nal_clean_def misread_length_def key_nal_def)

section \<open>Keys\<close>

text \<open>The calls of the agent for a list of messages of the page, one after the other.\<close>

definition agent_calls :: "(string \<Rightarrow> int \<times> int) \<Rightarrow> json list \<Rightarrow> input_call list" where
  "agent_calls vk js = concat (map (\<lambda>j. dispatchInputJSON vk (Some j)) js)"

lemma agent_calls_simps [simp]:
  "agent_calls vk [] = []" "agent_calls vk (j # js) = dispatchInputJSON vk (Some j) @ agent_calls vk js"
  "agent_calls vk (xs @ ys) = agent_calls vk xs @ agent_calls vk ys"
  by (simp_all add: agent_calls_def)

lemmas dec_simps = dec_input_def dec_string_def dec_float_def dec_int_def dec_bool_def dec_field_def
  json_field_def Let_def

lemma lower_field:
  "to_lower ''type'' = ''type''" "to_lower ''action'' = ''action''" "to_lower ''x'' = ''x''" "to_lower ''y'' = ''y''"
  "to_lower ''button'' = ''button''" "to_lower ''delta'' = ''delta''" "to_lower ''code'' = ''code''"
  "to_lower ''key'' = ''key''" "to_lower ''ctrl'' = ''ctrl''" "to_lower ''shift'' = ''shift''" "to_lower ''alt'' = ''alt''"
  "to_lower ''meta'' = ''meta''" "to_lower ''width'' = ''width''" "to_lower ''height'' = ''height''"
  by (simp_all add: to_lower_def lower_char_def)

lemma dec_key_msg:
  "dec_input (key_msg down key code sh ct al me) =
     Some \<lparr>im_Type = ''key'', im_Action = (if down then ''down'' else ''up''), im_X = float_of_int 0, im_Y = float_of_int 0,
           im_Button = 0, im_Delta = float_of_int 0, im_Code = code, im_Key = key, im_Shift = sh\<rparr>"
  by (simp add: key_msg_def dec_simps lower_field)

lemma key_dispatch:
  "dispatchInputJSON vk (Some (key_msg down key code sh ct al me)) =
     (let (k, mods) = (if length (runes key) = 1 then vk key else (0, 0));
          shift = down \<and> mods AND 1 \<noteq> 0 \<and> \<not> sh in
      if k \<noteq> 0 then (if shift then [InKey 0x10 True] else []) @ [InKey k down] @ (if shift then [InKey 0x10 False] else [])
      else if codeToVK code \<noteq> 0 then [InKey (codeToVK code) down] else [])"
  by (simp add: dispatchInputJSON_def dec_key_msg input_calls_def key_calls_def Let_def split: prod.split)

text \<open>What a character of a typed text should do: the return key, or the key of the layout, with shift where it needs it.\<close>

definition typed_calls :: "(string \<Rightarrow> int \<times> int) \<Rightarrow> char \<Rightarrow> input_call list" where
  "typed_calls vk c =
     (if c = CHR 0x0D then [InKey 0x0D True, InKey 0x0D False]
      else (let (k, mods) = vk [c]; shift = (mods AND 1 \<noteq> 0)
            in (if shift then [InKey 0x10 True] else []) @ [InKey k True] @ (if shift then [InKey 0x10 False] else []) @
               [InKey k False]))"

lemma typed_char:
  assumes "of_char c < (0x80 :: nat)" "c = CHR 0x0D \<or> fst (vk [c]) \<noteq> 0"
  shows "agent_calls vk [key_msg True (typed_key c) (typed_code c) False False False False,
      key_msg False (typed_key c) (typed_code c) False False False False] = typed_calls vk c"
proof (cases "c = CHR 0x0D")
  case True
  then show ?thesis
    by (simp add: key_dispatch typed_key_def typed_code_def typed_calls_def codeToVK_def code_table_def runes_def seq_length_def
      valid_seq_def seq_rune_def)
next
  case False
  obtain k mods where v: "vk [c] = (k, mods)" by fastforce
  then show ?thesis
    using False assms runes_ascii [OF assms(1)] by (simp add: key_dispatch typed_key_def typed_calls_def Let_def)
qed

lemma typed_text:
  assumes "list_all (\<lambda>c. of_char c < (0x80 :: nat) \<and> (c = CHR 0x0D \<or> fst (vk [c]) \<noteq> 0)) s"
  shows "agent_calls vk (typed_msgs s) = concat (map (typed_calls vk) s)"
  using assms
proof (induction s)
  case (Cons c s)
  have "typed_msgs (c # s) = [key_msg True (typed_key c) (typed_code c) False False False False,
      key_msg False (typed_key c) (typed_code c) False False False False] @ typed_msgs s"
    by (simp add: typed_msgs_def)
  then have "agent_calls vk (typed_msgs (c # s)) =
      agent_calls vk [key_msg True (typed_key c) (typed_code c) False False False False,
        key_msg False (typed_key c) (typed_code c) False False False False] @ agent_calls vk (typed_msgs s)"
    by (simp only: agent_calls_simps(3))
  with Cons typed_char [of c vk] show ?case by simp
qed (simp add: typed_msgs_def)

text \<open>
  C23. A text typed for the user by a quick action reaches the agent's keyboard as that text: the page sends two messages for
  each character on its open socket, and the agent makes of them, for every character the layout has a key for, its
  press and release with shift where the key needs it, and the return key for a carriage return.
\<close>

theorem typed_text_reaches_agent:
  assumes "list_all (\<lambda>c. of_char c < (0x80 :: nat) \<and> (c = CHR 0x0D \<or> fst (vk [c]) \<noteq> 0)) s"
    "open_ws p = Some w"
  shows "\<exists>js. so_sent (pg_sockets (typeString s p) ! w) = so_sent (pg_sockets p ! w) @ js \<and> length js = 2 * length s \<and>
    agent_calls vk js = concat (map (typed_calls vk) s)"
proof (intro exI conjI)
  show "so_sent (pg_sockets (typeString s p) ! w) = so_sent (pg_sockets p ! w) @ typed_msgs s"
    using assms(2) by (auto simp: typeString_def ws_send_def upd_socket_def open_ws_def split: option.splits if_splits)
  show "length (typed_msgs s) = 2 * length s" by (induction s) (simp_all add: typed_msgs_def)
  show "agent_calls vk (typed_msgs s) = concat (map (typed_calls vk) s)" by (rule typed_text) (rule assms)
qed

definition one_socket_page :: page where
  "one_socket_page = new_page\<lparr>pg_sockets := [\<lparr>so_state = Open, so_token = ''t'', so_tab = 0, so_sent = [], so_clip = False\<rparr>],
     pg_ws := Some 0\<rparr>"

lemma open_one_socket: "open_ws one_socket_page = Some 0"
  by (simp add: open_ws_def one_socket_page_def new_page_def)

theorem typed_text_reaches_agent_witness:
  "\<exists>js. so_sent (pg_sockets (typeString ''a'' one_socket_page) ! 0) = so_sent (pg_sockets one_socket_page ! 0) @ js \<and>
     length js = 2 \<and> agent_calls (\<lambda>k. (0x41, 1)) js = [InKey 0x10 True, InKey 0x41 True, InKey 0x10 False, InKey 0x41 False]"
  using typed_text_reaches_agent [of "\<lambda>k. (0x41, 1)" "''a''", OF _ open_one_socket] by (simp add: typed_calls_def)

lemma sas_dispatch: "dispatchInputJSON vk (Some (JObj [(''type'', JStr ''sas'')])) = [InSAS]"
  by (simp add: dispatchInputJSON_def dec_simps lower_field input_calls_def)

lemma many_runes:
  "length (runes ''Alt'') = 3" "length (runes ''Tab'') = 3" "length (runes ''F4'') = 2" "length (runes ''Meta'') = 4"
  "length (runes ''Control'') = 7" "length (runes ''Shift'') = 5" "length (runes ''Escape'') = 6"
  "length (runes ''PrintScreen'') = 11"
  by (simp_all add: runes_def seq_length_def valid_seq_def seq_rune_def)

lemma system_codes:
  "codeToVK ''AltLeft'' = 0x12" "codeToVK ''Tab'' = 0x09" "codeToVK ''F4'' = 0x73" "codeToVK ''MetaLeft'' = 0x5B"
  "codeToVK ''ControlLeft'' = 0x11" "codeToVK ''ShiftLeft'' = 0x10" "codeToVK ''Escape'' = 0x1B" "codeToVK ''PrintScreen'' = 0"
  by (simp_all add: codeToVK_def code_table_def)

text \<open>
  The system keys of the toolbar at the agent, whatever its layout: Ctrl+Alt+Del is the secure attention sequence; the keys
  of the others that the agent knows go down in order and up in reverse; the print screen key is unknown to it, and
  nothing happens.
\<close>

theorem system_keys_at_agent:
  "map (\<lambda>(label, keys). (label, agent_calls vk (system_key_msgs keys))) sys_keys =
     [(''Ctrl+Alt+Del'', [InSAS]),
      (''Alt+Tab'', [InKey 0x12 True, InKey 0x09 True, InKey 0x09 False, InKey 0x12 False]),
      (''Alt+F4'', [InKey 0x12 True, InKey 0x73 True, InKey 0x73 False, InKey 0x12 False]),
      (''Win'', [InKey 0x5B True, InKey 0x5B False]),
      (''Ctrl+Shift+Esc'', [InKey 0x11 True, InKey 0x10 True, InKey 0x1B True, InKey 0x1B False, InKey 0x10 False,
                            InKey 0x11 False]),
      (''PrtScn'', [])]"
  by (simp add: sys_keys_def system_key_msgs_def is_cad_def key_dispatch sas_dispatch many_runes system_codes)

section \<open>The pointer\<close>

lemma dec_mouse_msg:
  assumes "\<bar>x\<bar> < 2 ^ 53" "\<bar>y\<bar> < 2 ^ 53"
  shows "dispatchInputJSON vk (Some (JObj [(''type'', JStr ''mouse''), (''action'', JStr ''move''), (''x'', JInt x), (''y'', JInt y)])) =
    [InMove x y]"
  using assms by (simp add: dispatchInputJSON_def dec_simps lower_field input_calls_def int_of_float_of_int)

lemma round_even_int [simp]: "round_even (of_int m) = m"
  by (simp add: round_even_def Let_def)

lemma rat_pow2_less: "rat_pow2 a < rat_pow2 b \<Longrightarrow> a < b"
  using rat_pow2_mono [of b a] by (simp add: linorder_not_le [symmetric]) (meson leD le_less_linear)

text \<open>A number of fewer than 53 significant bits is a double.\<close>

lemma js_num_exact:
  assumes "\<bar>i\<bar> < 2 ^ 53" "x = of_int i / 2 ^ k" shows "js_num x = x"
proof (cases "i = 0")
  case False
  let ?e = "rat_exponent \<bar>x\<bar>"
  have ax: "\<bar>x\<bar> = of_int \<bar>i\<bar> * rat_pow2 (- int k)" using assms(2) by (simp add: rat_pow2_def abs_mult)
  have pos: "0 < \<bar>x\<bar>" using False assms(2) by simp
  have "of_int \<bar>i\<bar> < (2 ^ 53 :: rat)" using assms(1) by (metis of_int_less_iff of_int_numeral of_int_power)
  then have "\<bar>x\<bar> < rat_pow2 53 * rat_pow2 (- int k)" unfolding ax using rat_pow2_pos [of "- int k"] by (simp add: rat_pow2_def)
  then have "rat_pow2 ?e < rat_pow2 (53 - int k)"
    using rat_exponent_le [OF pos] by (simp add: rat_pow2_add)
  then have e: "?e < 53 - int k" by (rule rat_pow2_less)
  define n where "n = nat (52 - int k - ?e)"
  have "\<bar>x\<bar> = of_int (\<bar>i\<bar> * 2 ^ n) * rat_pow2 (?e - 52)"
    using e rat_pow2_add [of "int n" "?e - 52"] by (simp add: ax n_def rat_pow2_def mult.assoc)
  moreover have "rat_pow2 (?e - 52) \<noteq> 0" using rat_pow2_pos [of "?e - 52"] by simp
  ultimately have "of_int (round_even (\<bar>x\<bar> / rat_pow2 (?e - 52))) * rat_pow2 (?e - 52) = \<bar>x\<bar>"
    by (metis nonzero_mult_div_cancel_right round_even_int)
  with pos show ?thesis by (cases "x < 0") (simp_all add: js_num_def Let_def)
qed (simp add: js_num_def assms(2))

lemma js_num_int: "\<bar>i\<bar> < 2 ^ 53 \<Longrightarrow> js_num (of_int i) = of_int i"
  by (rule js_num_exact [of i _ 0]) simp_all

lemma js_num_1 [simp]: "js_num 1 = 1" and js_num_2 [simp]: "js_num 2 = 2" and js_num_0 [simp]: "js_num 0 = 0"
  using js_num_int [of 1] js_num_int [of 2] by (simp_all add: js_num_def)

lemma js_round_int [simp]: "js_round (of_int i) = i"
  unfolding js_round_def by (simp add: floor_unique)

definition half_ulp :: rat where
  "half_ulp = 1 / 2 ^ 53"

lemma half_ulp_pos: "0 < half_ulp" and half_ulp_small: "1125899906842624 * half_ulp \<le> 1" "half_ulp \<le> 1"
  by (simp_all add: half_ulp_def)

lemma round_even_half: "\<bar>of_int (round_even r) - r\<bar> \<le> 1 / 2"
proof -
  have "of_int \<lfloor>r\<rfloor> \<le> r" "r < of_int \<lfloor>r\<rfloor> + 1" by linarith+
  then show ?thesis by (auto simp: round_even_def Let_def abs_le_iff)
qed

text \<open>The result of an operation is within half a unit in the last place of the exact one.\<close>

lemma js_num_error: "\<bar>js_num x - x\<bar> \<le> \<bar>x\<bar> * half_ulp"
proof (cases "x = 0")
  case False
  let ?u = "rat_pow2 (rat_exponent \<bar>x\<bar> - 52)" and ?n = "round_even (\<bar>x\<bar> / rat_pow2 (rat_exponent \<bar>x\<bar> - 52))"
  have u: "0 < ?u" by (rule rat_pow2_pos)
  have "\<bar>of_int ?n - \<bar>x\<bar> / ?u\<bar> * ?u \<le> 1 / 2 * ?u" using round_even_half u by (intro mult_right_mono) simp_all
  moreover have "\<bar>of_int ?n - \<bar>x\<bar> / ?u\<bar> * ?u = \<bar>of_int ?n * ?u - \<bar>x\<bar>\<bar>"
    using u abs_mult_pos [of ?u "of_int ?n - \<bar>x\<bar> / ?u"] by (simp add: left_diff_distrib)
  moreover have "1 / 2 * ?u = rat_pow2 (rat_exponent \<bar>x\<bar>) * half_ulp"
    using rat_pow2_add [of "rat_exponent \<bar>x\<bar>" "- 52"] by (simp add: half_ulp_def rat_pow2_def [of "- 52"])
  moreover have "rat_pow2 (rat_exponent \<bar>x\<bar>) * half_ulp \<le> \<bar>x\<bar> * half_ulp"
    using rat_exponent_le [of "\<bar>x\<bar>"] False half_ulp_pos by (intro mult_right_mono) simp_all
  ultimately have "\<bar>of_int ?n * ?u - \<bar>x\<bar>\<bar> \<le> \<bar>x\<bar> * half_ulp" by linarith
  moreover have "js_num x = (if x < 0 then - (of_int ?n * ?u) else of_int ?n * ?u)"
    using False by (simp add: js_num_def Let_def)
  ultimately show ?thesis by (cases "x < 0") (simp_all add: abs_minus_commute)
qed (simp add: js_num_def)

lemma js_num_near: "\<bar>x\<bar> \<le> b \<Longrightarrow> \<bar>x - a\<bar> \<le> e \<Longrightarrow> \<bar>js_num x - a\<bar> \<le> e + b * half_ulp"
  using js_num_error [of x] half_ulp_pos mult_right_mono [of "\<bar>x\<bar>" b half_ulp] by linarith

lemma js_round_near: "\<bar>of_int (js_round z) - z\<bar> \<le> 1 / 2"
proof -
  have "of_int \<lfloor>z + 1 / 2\<rfloor> \<le> z + 1 / 2" "z + 1 / 2 < of_int \<lfloor>z + 1 / 2\<rfloor> + 1" by linarith+
  then show ?thesis unfolding js_round_def by linarith
qed

lemma div_near:
  fixes k :: rat
  assumes "0 < k" "k / 2 \<le> k'" "\<bar>q' - q\<bar> \<le> e" "\<bar>k' - k\<bar> \<le> k * d" "\<bar>q\<bar> \<le> b"
  shows "\<bar>q' / k' - q / k\<bar> \<le> (e + b * d) * 2 / k"
proof -
  have k': "0 < k'" using assms(1,2) by linarith
  have d: "0 \<le> d" using assms(1,4) by (metis abs_ge_zero order_trans zero_le_mult_iff not_less)
  have "q' / k' - q / k = ((q' - q) - q * ((k' - k) / k)) / k'" using assms(1) k' by (simp add: field_simps)
  then have "\<bar>q' / k' - q / k\<bar> = \<bar>(q' - q) - q * ((k' - k) / k)\<bar> / k'" using k' by (simp add: abs_divide)
  also have "\<dots> \<le> (e + b * d) / k'"
  proof (rule divide_right_mono)
    have "\<bar>(k' - k) / k\<bar> \<le> d" using assms(1,4) by (simp add: abs_divide field_simps)
    then have "\<bar>q * ((k' - k) / k)\<bar> \<le> b * d" unfolding abs_mult using assms(5) by (intro mult_mono) auto
    then show "\<bar>(q' - q) - q * ((k' - k) / k)\<bar> \<le> e + b * d" using assms(3) by linarith
  qed (use k' in simp)
  also have "\<dots> \<le> (e + b * d) / (k / 2)"
    using assms d by (intro divide_left_mono) (auto intro!: add_nonneg_nonneg mult_nonneg_nonneg)
  finally show ?thesis by simp
qed

lemma quotient_near:
  assumes "0 < c" "\<bar>c' - c\<bar> \<le> c * half_ulp" "0 < w"
  shows "\<bar>js_num (c' / of_int w) - c / of_int w\<bar> \<le> c / of_int w * (3 * half_ulp)"
proof -
  let ?b = "c / of_int w"
  have b: "0 < ?b" using assms by simp
  have "\<bar>c' / of_int w - ?b\<bar> = \<bar>c' - c\<bar> / of_int w" using assms(3) by (simp add: diff_divide_distrib [symmetric] abs_divide)
  also have "\<dots> \<le> c * half_ulp / of_int w" using assms by (intro divide_right_mono) auto
  finally have e: "\<bar>c' / of_int w - ?b\<bar> \<le> ?b * half_ulp" by simp
  have "?b * half_ulp \<le> ?b" using b half_ulp_small(2) by (intro mult_left_le) auto
  then have "\<bar>c' / of_int w\<bar> \<le> 2 * ?b" using e b by linarith
  from js_num_near [OF this e] show ?thesis by (simp add: algebra_simps)
qed

lemma min_near:
  fixes a :: rat
  assumes "\<bar>a' - a\<bar> \<le> a * d" "\<bar>b' - b\<bar> \<le> b * d" "0 < a" "0 < b" "0 \<le> d" "d \<le> 1"
  shows "\<bar>min a' b' - min a b\<bar> \<le> min a b * d"
proof -
  define x y where "x = min a b" and "y = min a' b'"
  have x: "x \<le> a" "x \<le> b" "x = a \<or> x = b" and y: "y \<le> a'" "y \<le> b'" "y = a' \<or> y = b'"
    by (auto simp: x_def y_def min_def)
  have "(1 - d) * x \<le> (1 - d) * a" "(1 - d) * x \<le> (1 - d) * b" using assms(6) x by (simp_all add: mult_left_mono)
  moreover have "(1 - d) * a = a - a * d" "(1 - d) * b = b - b * d" "(1 - d) * x = x - x * d"
    by (simp_all add: left_diff_distrib mult.commute [of d])
  moreover have "a - a * d \<le> a'" "b - b * d \<le> b'" "a' \<le> a + a * d" "b' \<le> b + b * d" using assms(1,2) by linarith+
  ultimately have "x - x * d \<le> y" "y \<le> x + x * d" using x(3) y by auto
  then show ?thesis unfolding x_def [symmetric] y_def [symmetric] by linarith
qed

text \<open>The margin of the picture, and the place of the pointer in the element, in pixels of the device.\<close>

lemma margin_near:
  assumes "0 < w" "0 < c" "c \<le> 2 ^ 20" "\<bar>c' - c\<bar> \<le> c * half_ulp" "0 < k" "\<bar>k' - k\<bar> \<le> k * (3 * half_ulp)" "of_int w * k \<le> c"
  shows "\<bar>js_num (js_num (c' - js_num (of_int w * k')) / 2) - (c - of_int w * k) / 2\<bar> \<le> 5242880 * half_ulp"
proof -
  define p where "p = of_int w * k"
  define p' where "p' = js_num (of_int w * k')"
  define s' where "s' = js_num (c' - p')"
  note h = half_ulp_pos half_ulp_small(1)
  have c: "c \<le> 1048576" using assms(3) by simp
  have p: "0 < p" "p \<le> 1048576" using assms(1,5,7) c by (simp_all add: p_def)
  have c': "\<bar>c' - c\<bar> \<le> 1048576 * half_ulp" using c assms(4) h mult_right_mono [of c 1048576 half_ulp] by linarith
  have "\<bar>of_int w * k' - p\<bar> = of_int w * \<bar>k' - k\<bar>"
    using assms(1) by (simp add: p_def right_diff_distrib [symmetric] abs_mult)
  also have "\<dots> \<le> of_int w * (k * (3 * half_ulp))" using assms(1,6) by (intro mult_left_mono) auto
  also have "\<dots> = p * (3 * half_ulp)" by (simp add: p_def)
  also have "\<dots> \<le> 1048576 * (3 * half_ulp)" using p h by (intro mult_right_mono) auto
  finally have wk: "\<bar>of_int w * k' - p\<bar> \<le> 1048576 * (3 * half_ulp)" .
  have "\<bar>of_int w * k'\<bar> \<le> 2097152" using wk p h by linarith
  from js_num_near [OF this wk] have p': "\<bar>p' - p\<bar> \<le> 1048576 * (5 * half_ulp)" by (simp add: p'_def)
  have cp: "\<bar>(c' - p') - (c - p)\<bar> \<le> 1048576 * (6 * half_ulp)" using c' p' by linarith
  have "\<bar>c' - p'\<bar> \<le> 2097152" using cp p assms(2) c h by linarith
  from js_num_near [OF this cp] have s: "\<bar>s' - (c - p)\<bar> \<le> 1048576 * (8 * half_ulp)" by (simp add: s'_def)
  have s2: "\<bar>s' / 2 - (c - p) / 2\<bar> \<le> 1048576 * (4 * half_ulp)" using s by (simp add: diff_divide_distrib [symmetric] abs_divide)
  have "\<bar>s'\<bar> \<le> 2097152" using s p assms(2) c h by linarith
  then have "\<bar>s' / 2\<bar> \<le> 1048576" by (simp add: abs_divide)
  from js_num_near [OF this s2] show ?thesis by (simp add: s'_def p'_def p_def)
qed

lemma offset_near:
  assumes "\<bar>X - L\<bar> \<le> 2 ^ 17" "0 < r" "r \<le> 16"
  shows "\<bar>js_num (js_num (X - L) * r) - (X - L) * r\<bar> \<le> 8388608 * half_ulp" "\<bar>(X - L) * r\<bar> \<le> 2097152"
proof -
  note h = half_ulp_pos half_ulp_small(1)
  have xl: "\<bar>X - L\<bar> \<le> 131072" using assms(1) by simp
  have t: "\<bar>js_num (X - L) - (X - L)\<bar> \<le> 131072 * half_ulp" using js_num_near [of "X - L" 131072 "X - L" 0] xl by simp
  have "\<bar>js_num (X - L) * r - (X - L) * r\<bar> = \<bar>js_num (X - L) - (X - L)\<bar> * r"
    using assms(2) by (simp add: left_diff_distrib [symmetric] abs_mult)
  also have "\<dots> \<le> 131072 * half_ulp * 16" using t assms(2,3) h by (intro mult_mono) auto
  finally have tr: "\<bar>js_num (X - L) * r - (X - L) * r\<bar> \<le> 2097152 * half_ulp" by simp
  show xr: "\<bar>(X - L) * r\<bar> \<le> 2097152" using mult_mono [OF xl assms(3)] assms(2) by (simp add: abs_mult)
  have "\<bar>js_num (X - L) * r\<bar> \<le> 4194304" using tr xr h by linarith
  from js_num_near [OF this tr] show "\<bar>js_num (js_num (X - L) * r) - (X - L) * r\<bar> \<le> 8388608 * half_ulp" using h by simp
qed

text \<open>One coordinate, with a scale of at least 1/256 and sizes of at most \<open>2 ^ 20\<close> pixels of the device.\<close>

lemma view_coord_near:
  assumes "0 < w" "0 < c" "c \<le> 2 ^ 20" "\<bar>c' - c\<bar> \<le> c * half_ulp" "1 / 256 \<le> k" "\<bar>k' - k\<bar> \<le> k * (3 * half_ulp)"
    "of_int w * k \<le> c" "\<bar>X - L\<bar> \<le> 2 ^ 17" "0 < r" "r \<le> 16"
  defines "u \<equiv> ((X - L) * r - (c - of_int w * k) / 2) / k"
  obtains x where "view_coord X L c' r w (Some k') = JInt x" "\<bar>of_int x - u\<bar> \<le> 1 / 2 + 1 / 2 ^ 16" "\<bar>x\<bar> < 2 ^ 53"
proof -
  define d' where "d' = js_num (js_num (c' - js_num (of_int w * k')) / 2)"
  define m' where "m' = js_num (js_num (X - L) * r)"
  define q' where "q' = js_num (m' - d')"
  define q where "q = (X - L) * r - (c - of_int w * k) / 2"
  note h = half_ulp_pos half_ulp_small(1)
  have k: "0 < k" using assms(5) by linarith
  have d: "\<bar>d' - (c - of_int w * k) / 2\<bar> \<le> 5242880 * half_ulp"
    using margin_near [OF assms(1-4) k assms(6,7)] by (simp add: d'_def)
  note m = offset_near [OF assms(8-10), folded m'_def]
  have md: "\<bar>(m' - d') - q\<bar> \<le> 16777216 * half_ulp" using m(1) d h unfolding q_def by linarith
  have "\<bar>c - of_int w * k\<bar> \<le> 1048576" using assms(1-3,7) mult_pos_pos [OF _ k, of "of_int w"] by simp
  then have "\<bar>(c - of_int w * k) / 2\<bar> \<le> 1048576" by (simp add: abs_divide)
  then have q: "\<bar>q\<bar> \<le> 4194304" using m(2) unfolding q_def by linarith
  have "\<bar>m' - d'\<bar> \<le> 8388608" using md q h by linarith
  from js_num_near [OF this md] have q': "\<bar>q' - q\<bar> \<le> 33554432 * half_ulp" using h by (simp add: q'_def)
  have "k * (3 * half_ulp) \<le> k / 2" using k h by (simp add: field_simps)
  then have k2: "k / 2 \<le> k'" using assms(6) by linarith
  have "\<bar>q' / k' - u\<bar> \<le> (33554432 * half_ulp + 4194304 * (3 * half_ulp)) * 2 / k"
    unfolding u_def q_def [symmetric] using k k2 q' assms(6) q by (intro div_near)
  also have "\<dots> \<le> (33554432 * half_ulp + 4194304 * (3 * half_ulp)) * 2 / (1 / 256)"
    using k h assms(5) by (intro divide_left_mono) auto
  finally have qu: "\<bar>q' / k' - u\<bar> \<le> 34359738368 * half_ulp" using h by simp
  have "\<bar>u\<bar> = \<bar>q\<bar> / k" using k by (simp add: u_def q_def abs_divide)
  also have "\<dots> \<le> 4194304 / (1 / 256)" using q k assms(5) by (intro frac_le) auto
  finally have u: "\<bar>u\<bar> \<le> 1073741824" by simp
  have "\<bar>q' / k'\<bar> \<le> 2147483648" using qu u h by linarith
  from js_num_near [OF this qu] have z: "\<bar>js_num (q' / k') - u\<bar> \<le> 68719476736 * half_ulp" using h by simp
  have "68719476736 * half_ulp \<le> 1 / 2 ^ 16" by (simp add: half_ulp_def)
  with js_round_near [of "js_num (q' / k')"] z have x: "\<bar>of_int (js_round (js_num (q' / k'))) - u\<bar> \<le> 1 / 2 + 1 / 2 ^ 16"
    by linarith
  have "1 / 2 + 1 / 2 ^ 16 \<le> (1 :: rat)" by simp
  then have "\<bar>of_int (js_round (js_num (q' / k')))\<bar> \<le> (1073741825 :: rat)" using x u by linarith
  then have "\<bar>of_int (js_round (js_num (q' / k'))) :: rat\<bar> < of_int (2 ^ 53)" by simp
  then have "\<bar>js_round (js_num (q' / k'))\<bar> < 2 ^ 53" by (simp only: of_int_abs [symmetric] of_int_less_iff)
  moreover have "view_coord X L c' r w (Some k') = JInt (js_round (js_num (q' / k')))"
    using k k2 by (simp add: view_coord_def Let_def d'_def m'_def q'_def)
  ultimately show ?thesis using that x by blast
qed

text \<open>
  A picture is displayed as large as its element allows with its proportions kept (\<open>object-fit: contain\<close>), in the middle
  of the element; the scale is in pixels of the device. \<open>over\<close> says that a place in the window is over a point of
  the picture.
\<close>

definition picture_scale :: "layout \<Rightarrow> int \<times> int \<Rightarrow> rat" where
  "picture_scale la wh =
     min (la_width la * la_dpr la / of_int (fst wh)) (la_height la * la_dpr la / of_int (snd wh))"

definition over :: "layout \<Rightarrow> int \<times> int \<Rightarrow> rat \<times> rat \<Rightarrow> rat \<Rightarrow> rat \<Rightarrow> bool" where
  "over la wh uv X Y \<longleftrightarrow>
     (X - la_left la) * la_dpr la
       = (la_width la * la_dpr la - of_int (fst wh) * picture_scale la wh) / 2 + fst uv * picture_scale la wh
     \<and> (Y - la_top la) * la_dpr la
       = (la_height la * la_dpr la - of_int (snd wh) * picture_scale la wh) / 2 + snd uv * picture_scale la wh"

definition screen_bounds :: "layout \<Rightarrow> int \<times> int \<Rightarrow> rat \<Rightarrow> rat \<Rightarrow> bool" where
  "screen_bounds la wh X Y \<longleftrightarrow>
     0 < la_dpr la \<and> la_dpr la \<le> 16 \<and> 0 < la_width la \<and> la_width la \<le> 2 ^ 16 \<and> 0 < la_height la \<and> la_height la \<le> 2 ^ 16
     \<and> \<bar>X - la_left la\<bar> \<le> 2 ^ 17 \<and> \<bar>Y - la_top la\<bar> \<le> 2 ^ 17 \<and> 1 / 256 \<le> picture_scale la wh"

text \<open>An integer nearest to a number, or so by less than \<open>2 ^ - 16\<close>.\<close>

definition nearest :: "int \<Rightarrow> rat \<Rightarrow> bool" where
  "nearest x u \<longleftrightarrow> \<bar>of_int x - u\<bar> \<le> 1 / 2 + 1 / 2 ^ 16"

lemma nearest_int: "nearest x (of_int n) \<Longrightarrow> x = n"
proof -
  assume "nearest x (of_int n)"
  then have "\<bar>of_int (x - n) :: rat\<bar> < 1" by (simp add: nearest_def)
  then have "\<bar>x - n\<bar> < 1" by (metis of_int_abs of_int_less_1_iff)
  then show ?thesis by simp
qed

lemma place_near:
  assumes "0 < w" "0 < le" "le \<le> 2 ^ 16" "0 < r" "r \<le> 16" "1 / 256 \<le> k" "\<bar>k' - k\<bar> \<le> k * (3 * half_ulp)"
    "k \<le> le * r / of_int w" "\<bar>X - L\<bar> \<le> 2 ^ 17" "(X - L) * r = (le * r - of_int w * k) / 2 + u * k"
  obtains x where "view_coord X L (js_num (le * r)) r w (Some k') = JInt x" "nearest x u" "\<bar>x\<bar> < 2 ^ 53"
proof -
  have c: "0 < le * r" "le * r \<le> 2 ^ 20" using assms(2-5) mult_mono [OF assms(3,5)] by simp_all
  have e: "\<bar>js_num (le * r) - le * r\<bar> \<le> le * r * half_ulp" using js_num_error [of "le * r"] c(1) by simp
  have k: "of_int w * k \<le> le * r" using assms(1,8) by (simp add: pos_le_divide_eq mult.commute)
  have "((X - L) * r - (le * r - of_int w * k) / 2) / k = u" using assms(6,10) by simp
  with view_coord_near [OF assms(1) c e assms(6,7) k assms(9,4,5)] show ?thesis
    using that unfolding nearest_def by metis
qed

lemma pointer_near:
  assumes "agent_size cv = (w, h)" "0 < w" "0 < h" "screen_bounds la (w, h) X Y" "over la (w, h) (u, v) X Y"
  obtains x y where "dispatchInputJSON vk (Some (mouse_msg la cv MouseMove X Y)) = [InMove x y]" "nearest x u" "nearest y v"
proof -
  let ?W = "la_width la * la_dpr la" and ?H = "la_height la * la_dpr la" and ?k = "picture_scale la (w, h)"
  let ?k' = "min (js_num (js_num ?W / of_int w)) (js_num (js_num ?H / of_int h))"
  have b: "0 < la_dpr la" "la_dpr la \<le> 16" "0 < la_width la" "la_width la \<le> 2 ^ 16" "0 < la_height la" "la_height la \<le> 2 ^ 16"
    "\<bar>X - la_left la\<bar> \<le> 2 ^ 17" "\<bar>Y - la_top la\<bar> \<le> 2 ^ 17" "1 / 256 \<le> ?k"
    using assms(4) by (auto simp: screen_bounds_def)
  have W: "0 < ?W" and H: "0 < ?H" using b by simp_all
  have "3 * half_ulp \<le> 1" "0 \<le> 3 * half_ulp" using half_ulp_pos half_ulp_small by linarith+
  then have k: "\<bar>?k' - ?k\<bar> \<le> ?k * (3 * half_ulp)"
    using quotient_near [of ?W "js_num ?W" w] quotient_near [of ?H "js_num ?H" h] js_num_error [of ?W] js_num_error [of ?H] W H assms(2,3)
    unfolding picture_scale_def fst_conv snd_conv by (intro min_near) simp_all
  have le: "?k \<le> ?W / of_int w" "?k \<le> ?H / of_int h" by (simp_all add: picture_scale_def)
  obtain x where x: "view_coord X (la_left la) (js_num ?W) (la_dpr la) w (Some ?k') = JInt x" "nearest x u" "\<bar>x\<bar> < 2 ^ 53"
    using place_near [OF assms(2) b(3,4,1,2,9) k le(1) b(7), of u] assms(5) by (auto simp: over_def)
  obtain y where y: "view_coord Y (la_top la) (js_num ?H) (la_dpr la) h (Some ?k') = JInt y" "nearest y v" "\<bar>y\<bar> < 2 ^ 53"
    using place_near [OF assms(3) b(5,6,1,2,9) k le(2) b(8), of v] assms(5) by (auto simp: over_def)
  have "mouse_msg la cv MouseMove X Y = JObj [(''type'', JStr ''mouse''), (''action'', JStr ''move''), (''x'', JInt x), (''y'', JInt y)]"
    using x(1) y(1) assms(1-3) by (simp add: mouse_msg_def view_scale_def mouse_action_def mouse_extra_def)
  then show ?thesis using that dec_mouse_msg [OF x(3) y(3)] x(2) y(2) by simp
qed

lemma over_larger: "over la (w, h) (u, v) X Y \<Longrightarrow> 0 < m \<Longrightarrow> over la (m * w, m * h) (of_int m * u, of_int m * v) X Y"
proof -
  assume m: "0 < m" and o: "over la (w, h) (u, v) X Y"
  have "min (a / of_int (m * w)) (b / of_int (m * h)) = min (a / of_int w) (b / of_int h) / of_int m" for a b :: rat
    using m by (simp add: min_divide_distrib_right mult.commute)
  then have "picture_scale la (m * w, m * h) = picture_scale la (w, h) / of_int m" by (simp add: picture_scale_def)
  then show ?thesis using o m by (simp add: over_def)
qed

text \<open>
  C24. Over a picture of any size, displayed in an element of any size anywhere in the window of any pixel ratio (with the
  margins that keep its proportions), the pointer at a point of the picture reaches the agent as the nearest integer point,
  up to \<open>2 ^ - 16\<close> of a pixel for the rounding of the script's doubles: so at a whole pixel exactly as that pixel. This is so for
  decoded H.264 frames and for JPEG pictures. But once a JPEG picture was drawn, its size is kept for the pointer: when H.264 frames
  m times as large follow on the same canvas, the same place is m times as far in the new picture, and the agent gets the old
  point.
\<close>

theorem pointer_place:
  fixes vk :: "string \<Rightarrow> int \<times> int" and area :: "int \<times> int"
  assumes "0 < w" "0 < h" "0 < m" "screen_bounds la (w, h) X Y" "over la (w, h) (u, v) X Y"
    "pg_canvas p = Some c" "c < length (pg_canvases p)" "cv_agent (pg_canvases p ! c) = None" "pg_jpegs p = [pic]"
    "d < length (pg_decoders p)" "dc_canvas (pg_decoders p ! d) = c"
  defines "sent \<equiv> \<lambda>q. dispatchInputJSON vk (Some (mouse_msg la (pg_canvases q ! c) MouseMove X Y))"
  defines "p1 \<equiv> jpeg_decoded area (Some (w, h)) 0 p"
  defines "p2 \<equiv> decoder_output d (m * w, m * h) p1"
  shows "(\<exists>x y. sent (decoder_output d (w, h) p) = [InMove x y] \<and> nearest x u \<and> nearest y v)
    \<and> (\<exists>x y. sent p1 = [InMove x y] \<and> nearest x u \<and> nearest y v
         \<and> over la (m * w, m * h) (of_int m * u, of_int m * v) X Y
         \<and> cv_width (pg_canvases p2 ! c) = m * w \<and> cv_height (pg_canvases p2 ! c) = m * h
         \<and> cv_painted (pg_canvases p2 ! c) = Some (DecodedPicture d) \<and> sent p2 = [InMove x y])"
proof -
  let ?cv0 = "pg_canvases (decoder_output d (w, h) p) ! c" and ?cv1 = "pg_canvases p1 ! c" and ?cv2 = "pg_canvases p2 ! c"
  have a0: "agent_size ?cv0 = (w, h)"
    using assms(7,8,10,11) by (simp add: decoder_output_def upd_canvas_def agent_size_def)
  have a1: "cv_agent ?cv1 = Some (w, h)" "length (pg_canvases p1) = length (pg_canvases p)" "pg_decoders p1 = pg_decoders p"
    using assms(6,7,9) by (simp_all add: p1_def jpeg_decoded_def Let_def upd_canvas_def)
  have a2: "cv_agent ?cv2 = Some (w, h)" "cv_width ?cv2 = m * w" "cv_height ?cv2 = m * h" "cv_painted ?cv2 = Some (DecodedPicture d)"
    using a1 assms(7,10,11) by (simp_all add: p2_def decoder_output_def upd_canvas_def)
  have s: "agent_size ?cv1 = (w, h)" "agent_size ?cv2 = (w, h)" using a1(1) a2(1) assms(1,2) by (simp_all add: agent_size_def)
  then have same: "sent p2 = sent p1" by (simp add: sent_def mouse_msg_def)
  show ?thesis
    using pointer_near [OF a0 assms(1,2,4,5), of vk] pointer_near [OF s(1) assms(1,2,4,5), of vk] over_larger [OF assms(5,3)]
      a2(2-4) same unfolding sent_def by metis
qed

definition jpeg_page :: page where
  "jpeg_page = new_page\<lparr>pg_canvases := [fresh_canvas], pg_canvas := Some 0, pg_jpegs := [[0xff]],
     pg_decoders := [\<lparr>dc_config = Some (1920, 1080, None), dc_closed = False, dc_chunks = [], dc_canvas = 0\<rparr>]\<rparr>"

definition demo_layout :: layout where
  "demo_layout = \<lparr>la_left = 21 / 2, la_top = 20, la_width = 1280, la_height = 800, la_dpr = 3 / 2\<rparr>"

theorem pointer_place_witness:
  "dispatchInputJSON (\<lambda>_. (0, 0)) (Some (mouse_msg demo_layout
     (pg_canvases (decoder_output 0 (2560, 1440) (jpeg_decoded (1920, 1200) (Some (1280, 720)) 0 jpeg_page)) ! 0)
     MouseMove (821 / 2) 360)) = [InMove 400 300]"
proof -
  have k: "picture_scale demo_layout (1280, 720) = 3 / 2" by (simp add: picture_scale_def demo_layout_def min_def)
  have l: "screen_bounds demo_layout (1280, 720) (821 / 2) 360" "over demo_layout (1280, 720) (of_int 400, of_int 300) (821 / 2) 360"
    unfolding screen_bounds_def over_def k by (simp_all add: demo_layout_def)
  show ?thesis
    using pointer_place [OF _ _ _ l, of 2 jpeg_page 0 "[0xff]" 0 "\<lambda>_. (0, 0)" "(1920, 1200)"] nearest_int [of _ 400] nearest_int [of _ 300]
    by (auto simp: jpeg_page_def new_page_def fresh_canvas_def)
qed

section \<open>Codecs\<close>

text \<open>
  C28. What the viewer does with the frames of a stream: while the stream encodes VP9, H.265 or AV1, nothing that any step of it sends,
  frame or audio, changes what the page shows or gives to its decoder; the page only counts it. With JPEG in use the payload
  of a frame is taken as the next picture.
\<close>

theorem viewer_shows_jpeg_h264_only:
  assumes "is_windows p" "OutBinary f \<in> set (drop (length (ss_out s)) (ss_out (stream_step p um ev s)))"
    "codec_in_use (ss_video s) = Some c"
  shows "remote_bytes f pg =
    (if f = frameTypeAudio # tl f \<or> c \<in> {VP9, H265, AV1}
     then pg\<lparr>pg_frames := pg_frames pg + 1, pg_bytes := pg_bytes pg + length f\<rparr>
     else if c = JPEG
     then pg\<lparr>pg_frames := pg_frames pg + 1, pg_bytes := pg_bytes pg + length f, pg_codec := ''JPEG'', pg_jpegs := pg_jpegs pg @ [tl f]\<rparr>
     else remote_bytes (frame_code H264 # tl f) pg)"
proof -
  obtain new where "ss_out (stream_step p um ev s) = ss_out s @ new" "\<forall>f. OutBinary f \<in> set new \<longrightarrow> typed_frame ev s f"
    using writes_ok_step [OF assms(1), of ev s um] by (auto simp: writes_ok_def)
  then have "typed_frame ev s f" using assms(2) by simp
  then have "\<exists>b. f = frameTypeAudio # b \<or> f = frame_code c # b" using assms(3) by (cases ev) auto
  then obtain ty b where f: "f = ty # b" "ty = frameTypeAudio \<or> ty = frame_code c" by auto
  from f(2) show ?thesis unfolding f(1)
    by (elim disjE; cases c) (simp_all add: frameTypeAudio_def remote_bytes_def)
qed

theorem viewer_shows_jpeg_h264_only_witness:
  "pg_jpegs (remote_bytes [1, 1] new_page) = [[1]]"
proof -
  have "codec_in_use (ss_video demo_jpeg_stream) = Some JPEG" by (simp add: codec_in_use_def demo_jpeg_stream_def new_stream_def)
  with viewer_shows_jpeg_h264_only [of "Windows True" "[1, 1]" demo_jpeg_stream "\<lambda>b. None"
      "EvFrame demo_env (Some ((2, 2), demo_frame)) True 0 True" JPEG new_page] demo_jpeg_frame [of "\<lambda>b. None"]
  show ?thesis by (simp del: stream_step.simps)
    (simp add: demo_jpeg_stream_def new_stream_def frameTypeAudio_def new_page_def)
qed

end
