(* ===== verification/Page_Tabs.thy ===== *)
theory Page_Tabs
  imports Page_Remote
begin

text \<open>
  The tabs of the viewer's page under every order of events: what holds of its lists, and what sharing one socket, one
  decoder and one canvas among the tabs leads to.
\<close>

section \<open>The invariant\<close>

definition decs_ok :: "page \<Rightarrow> bool" where
  "decs_ok p \<longleftrightarrow> (\<forall>dc \<in> set (pg_decoders p). dc_canvas dc < length (pg_canvases p)) \<and>
     (\<forall>c. pg_canvas p = Some c \<longrightarrow> c < length (pg_canvases p))"

definition tab_device :: "page \<Rightarrow> nat \<Rightarrow> int" where
  "tab_device p = (\<lambda>t. dv_id (tb_device (pg_tabs p ! t)))"

definition tabs_ok :: "page \<Rightarrow> bool" where
  "tabs_ok p \<longleftrightarrow> set (pg_open p) \<subseteq> {..<length (pg_tabs p)} \<and> distinct (map (tab_device p) (pg_open p))"

definition socks_ok :: "page \<Rightarrow> bool" where
  "socks_ok p \<longleftrightarrow> (\<forall>so \<in> set (pg_sockets p). so_tab so < length (pg_tabs p)) \<and>
     (\<forall>t < length (pg_tabs p). \<forall>s. tb_ws (pg_tabs p ! t) = Some s \<longrightarrow> s < length (pg_sockets p) \<and> so_tab (pg_sockets p ! s) = t)"

definition page_inv :: "page \<Rightarrow> bool" where
  "page_inv p \<longleftrightarrow> decs_ok p \<and> tabs_ok p \<and> socks_ok p"

text \<open>The updates keep every part, as long as they keep the links.\<close>

lemma set_update_all: "(\<forall>x \<in> set xs. P x) \<Longrightarrow> (i < length xs \<Longrightarrow> P y) \<Longrightarrow> \<forall>x \<in> set (xs[i := y]). P x"
  by (metis in_set_conv_nth length_list_update nth_list_update_eq nth_list_update_neq nth_mem)

lemma decs_ok_same:
  "pg_decoders p' = pg_decoders p \<Longrightarrow> pg_canvas p' = pg_canvas p \<Longrightarrow> length (pg_canvases p') = length (pg_canvases p) \<Longrightarrow>
     decs_ok p' = decs_ok p"
  by (simp add: decs_ok_def)

lemma tabs_ok_same:
  "pg_open p' = pg_open p \<Longrightarrow> length (pg_tabs p') = length (pg_tabs p) \<Longrightarrow>
     (\<And>t. t < length (pg_tabs p) \<Longrightarrow> tb_device (pg_tabs p' ! t) = tb_device (pg_tabs p ! t)) \<Longrightarrow> tabs_ok p \<Longrightarrow> tabs_ok p'"
  unfolding tabs_ok_def tab_device_def by (auto simp: distinct_map inj_on_def subset_iff)

lemma socks_ok_same: "pg_sockets p' = pg_sockets p \<Longrightarrow> pg_tabs p' = pg_tabs p \<Longrightarrow> socks_ok p' = socks_ok p"
  by (simp add: socks_ok_def)

lemma upd_socket_ok:
  assumes "\<And>so. so_tab (f so) = so_tab so"
  shows "decs_ok (upd_socket s f p) = decs_ok p" "tabs_ok p \<Longrightarrow> tabs_ok (upd_socket s f p)"
    "socks_ok p \<Longrightarrow> socks_ok (upd_socket s f p)"
proof -
  show "decs_ok (upd_socket s f p) = decs_ok p" by (rule decs_ok_same) (simp_all add: upd_socket_def)
  show "tabs_ok p \<Longrightarrow> tabs_ok (upd_socket s f p)" by (rule tabs_ok_same) (simp_all add: upd_socket_def)
  assume so: "socks_ok p"
  have "\<forall>so \<in> set ((pg_sockets p)[s := f (pg_sockets p ! s)]). so_tab so < length (pg_tabs p)"
    using so by (intro set_update_all) (auto simp: socks_ok_def assms)
  with so show "socks_ok (upd_socket s f p)"
    by (auto simp: upd_socket_def socks_ok_def nth_update_if assms)
qed

lemma upd_decoder_ok:
  assumes "\<And>dc. dc_canvas (f dc) = dc_canvas dc"
  shows "decs_ok p \<Longrightarrow> decs_ok (upd_decoder d f p)" "tabs_ok (upd_decoder d f p) = tabs_ok p" "socks_ok (upd_decoder d f p) = socks_ok p"
proof -
  assume ok: "decs_ok p"
  have "\<forall>dc \<in> set ((pg_decoders p)[d := f (pg_decoders p ! d)]). dc_canvas dc < length (pg_canvases p)"
    using ok by (intro set_update_all) (auto simp: decs_ok_def assms)
  with ok show "decs_ok (upd_decoder d f p)" by (simp add: upd_decoder_def decs_ok_def)
qed (simp_all add: upd_decoder_def tabs_ok_def tab_device_def socks_ok_def)

lemma upd_canvas_ok:
  "decs_ok (upd_canvas c f p) = decs_ok p" "tabs_ok (upd_canvas c f p) = tabs_ok p" "socks_ok (upd_canvas c f p) = socks_ok p"
  by (simp_all add: upd_canvas_def decs_ok_def tabs_ok_def tab_device_def socks_ok_def)

lemma upd_tab_ok:
  assumes "\<And>tab. tb_device (f tab) = tb_device tab"
    "\<And>tab s. t < length (pg_tabs p) \<Longrightarrow> tb_ws (f tab) = Some s \<Longrightarrow>
       tb_ws tab = Some s \<or> (s < length (pg_sockets p) \<and> so_tab (pg_sockets p ! s) = t)"
  shows "decs_ok (upd_tab t f p) = decs_ok p" "tabs_ok p \<Longrightarrow> tabs_ok (upd_tab t f p)" "socks_ok p \<Longrightarrow> socks_ok (upd_tab t f p)"
proof -
  show "decs_ok (upd_tab t f p) = decs_ok p" by (rule decs_ok_same) (simp_all add: upd_tab_def)
  show "tabs_ok p \<Longrightarrow> tabs_ok (upd_tab t f p)"
    by (rule tabs_ok_same) (simp_all add: upd_tab_def nth_update_if assms(1))
  show "socks_ok p \<Longrightarrow> socks_ok (upd_tab t f p)"
    using assms(2) by (fastforce simp: upd_tab_def socks_ok_def nth_update_if)
qed

text \<open>Fields no part of the invariant reads.\<close>

lemma plain_ok:
  "decs_ok (p\<lparr>pg_selected := d\<rparr>) = decs_ok p" "tabs_ok (p\<lparr>pg_selected := d\<rparr>) = tabs_ok p" "socks_ok (p\<lparr>pg_selected := d\<rparr>) = socks_ok p"
  "decs_ok (p\<lparr>pg_tab := b\<rparr>) = decs_ok p" "tabs_ok (p\<lparr>pg_tab := b\<rparr>) = tabs_ok p" "socks_ok (p\<lparr>pg_tab := b\<rparr>) = socks_ok p"
  "decs_ok (p\<lparr>pg_active := a\<rparr>) = decs_ok p" "tabs_ok (p\<lparr>pg_active := a\<rparr>) = tabs_ok p" "socks_ok (p\<lparr>pg_active := a\<rparr>) = socks_ok p"
  "decs_ok (p\<lparr>pg_ws := w\<rparr>) = decs_ok p" "tabs_ok (p\<lparr>pg_ws := w\<rparr>) = tabs_ok p" "socks_ok (p\<lparr>pg_ws := w\<rparr>) = socks_ok p"
  "decs_ok (p\<lparr>pg_decoder := e\<rparr>) = decs_ok p" "tabs_ok (p\<lparr>pg_decoder := e\<rparr>) = tabs_ok p" "socks_ok (p\<lparr>pg_decoder := e\<rparr>) = socks_ok p"
  "decs_ok (p\<lparr>pg_ts := n\<rparr>) = decs_ok p" "tabs_ok (p\<lparr>pg_ts := n\<rparr>) = tabs_ok p" "socks_ok (p\<lparr>pg_ts := n\<rparr>) = socks_ok p"
  "decs_ok (p\<lparr>pg_recording := r\<rparr>) = decs_ok p" "tabs_ok (p\<lparr>pg_recording := r\<rparr>) = tabs_ok p" "socks_ok (p\<lparr>pg_recording := r\<rparr>) = socks_ok p"
  "decs_ok (p\<lparr>pg_codec := k\<rparr>) = decs_ok p" "tabs_ok (p\<lparr>pg_codec := k\<rparr>) = tabs_ok p" "socks_ok (p\<lparr>pg_codec := k\<rparr>) = socks_ok p"
  "decs_ok (p\<lparr>pg_frames := f\<rparr>) = decs_ok p" "tabs_ok (p\<lparr>pg_frames := f\<rparr>) = tabs_ok p" "socks_ok (p\<lparr>pg_frames := f\<rparr>) = socks_ok p"
  "decs_ok (p\<lparr>pg_bytes := y\<rparr>) = decs_ok p" "tabs_ok (p\<lparr>pg_bytes := y\<rparr>) = tabs_ok p" "socks_ok (p\<lparr>pg_bytes := y\<rparr>) = socks_ok p"
  "decs_ok (p\<lparr>pg_jpegs := j\<rparr>) = decs_ok p" "tabs_ok (p\<lparr>pg_jpegs := j\<rparr>) = tabs_ok p" "socks_ok (p\<lparr>pg_jpegs := j\<rparr>) = socks_ok p"
  by (simp_all add: decs_ok_def tabs_ok_def tab_device_def socks_ok_def)

lemma canvas_none_ok:
  "decs_ok p \<Longrightarrow> decs_ok (p\<lparr>pg_canvas := None\<rparr>)" "tabs_ok (p\<lparr>pg_canvas := c\<rparr>) = tabs_ok p" "socks_ok (p\<lparr>pg_canvas := c\<rparr>) = socks_ok p"
  by (simp_all add: decs_ok_def tabs_ok_def tab_device_def socks_ok_def)

lemma inv_plain [simp]:
  "page_inv (p\<lparr>pg_selected := d\<rparr>) = page_inv p" "page_inv (p\<lparr>pg_tab := b\<rparr>) = page_inv p" "page_inv (p\<lparr>pg_active := a\<rparr>) = page_inv p"
  "page_inv (p\<lparr>pg_ws := w\<rparr>) = page_inv p" "page_inv (p\<lparr>pg_decoder := e\<rparr>) = page_inv p" "page_inv (p\<lparr>pg_ts := n\<rparr>) = page_inv p"
  "page_inv (p\<lparr>pg_recording := r\<rparr>) = page_inv p" "page_inv (p\<lparr>pg_codec := k\<rparr>) = page_inv p" "page_inv (p\<lparr>pg_frames := f\<rparr>) = page_inv p"
  "page_inv (p\<lparr>pg_bytes := y\<rparr>) = page_inv p" "page_inv (p\<lparr>pg_jpegs := j\<rparr>) = page_inv p"
  by (simp_all add: page_inv_def plain_ok)

lemma inv_socket: "(\<And>so. so_tab (f so) = so_tab so) \<Longrightarrow> page_inv p \<Longrightarrow> page_inv (upd_socket s f p)"
  by (simp add: page_inv_def upd_socket_ok)

lemma inv_decoder: "(\<And>dc. dc_canvas (f dc) = dc_canvas dc) \<Longrightarrow> page_inv p \<Longrightarrow> page_inv (upd_decoder d f p)"
  by (simp add: page_inv_def upd_decoder_ok)

lemma inv_canvas [simp]: "page_inv (upd_canvas c f p) = page_inv p"
  by (simp add: page_inv_def upd_canvas_ok)

lemma inv_no_canvas: "page_inv p \<Longrightarrow> page_inv (p\<lparr>pg_canvas := None\<rparr>)"
  by (simp add: page_inv_def canvas_none_ok)

lemma inv_send: "page_inv p \<Longrightarrow> page_inv (ws_send js p)"
  by (auto simp: ws_send_def intro: inv_socket split: option.split)

lemma inv_toggle: "page_inv p \<Longrightarrow> page_inv (toggleRecording b p)"
  by (simp add: toggleRecording_def inv_send)

lemma inv_stop_recording: "page_inv p \<Longrightarrow> page_inv (stop_recording p)"
  by (simp add: stop_recording_def inv_toggle)

lemma inv_stopRemote: "page_inv p \<Longrightarrow> page_inv (stopRemote p)"
proof -
  assume p: "page_inv p"
  then have "page_inv (case pg_ws p of None \<Rightarrow> p | Some s \<Rightarrow> (upd_socket s close_socket p)\<lparr>pg_ws := None\<rparr>)"
    by (auto intro: inv_socket simp: close_socket_def split: option.split)
  then show ?thesis unfolding stopRemote_def Let_def
    by (auto intro!: inv_stop_recording inv_decoder split: option.split)
qed

lemma inv_render: "page_inv p \<Longrightarrow> page_inv (render_remote p)"
  by (auto simp: render_remote_def page_inv_def decs_ok_def tabs_ok_def tab_device_def socks_ok_def less_SucI split: option.split)

lemma inv_switchTab: "page_inv p \<Longrightarrow> page_inv (switchTab t p)"
  by (simp add: switchTab_def Let_def inv_no_canvas inv_stopRemote inv_render)

lemma inv_selectDevice: "page_inv p \<Longrightarrow> page_inv (selectDevice d p)"
  by (simp add: selectDevice_def inv_switchTab)

lemma inv_switch: "page_inv p \<Longrightarrow> page_inv (switchSessionTab i p)"
  by (simp add: switchSessionTab_def Let_def inv_selectDevice split: option.split)

lemma distinct_without: "distinct ys \<Longrightarrow> distinct (take n ys @ drop (Suc n) ys)"
  using set_take_disj_set_drop_if_distinct [of ys n "Suc n"] by simp

lemma inv_take: "page_inv p \<Longrightarrow> page_inv (p\<lparr>pg_open := take n (pg_open p) @ drop (Suc n) (pg_open p)\<rparr>)"
proof -
  assume p: "page_inv p"
  let ?o = "take n (pg_open p) @ drop (Suc n) (pg_open p)"
  have "distinct (map (tab_device p) ?o)"
    using p distinct_without [of "map (tab_device p) (pg_open p)" n] by (simp add: page_inv_def tabs_ok_def take_map drop_map)
  moreover have "set ?o \<subseteq> {..<length (pg_tabs p)}"
    using p set_take_subset [of n "pg_open p"] set_drop_subset [of "Suc n" "pg_open p"]
    by (simp add: page_inv_def tabs_ok_def subset_trans)
  ultimately show ?thesis using p by (simp add: page_inv_def decs_ok_def tabs_ok_def tab_device_def socks_ok_def subset_trans)
qed

lemma inv_closeTab: "page_inv p \<Longrightarrow> page_inv (closeSessionTab i p)"
proof -
  assume p: "page_inv p"
  let ?tab = "pg_tabs p ! (pg_open p ! tab_index i p)"
  let ?p1 = "case tb_ws ?tab of None \<Rightarrow> p | Some s \<Rightarrow> upd_socket s close_socket p"
  let ?p2 = "case tb_decoder ?tab of None \<Rightarrow> ?p1 | Some d \<Rightarrow> upd_decoder d (\<lambda>dc. dc\<lparr>dc_closed := True\<rparr>) ?p1"
  have "page_inv ?p1" using p by (auto intro: inv_socket simp: close_socket_def split: option.split)
  then have p2: "page_inv ?p2" by (auto intro: inv_decoder split: option.split)
  have o: "pg_open ?p2 = pg_open p" by (simp add: upd_socket_def upd_decoder_def split: option.split)
  show ?thesis
    using p inv_take [OF p2, of "tab_index i p"]
    unfolding closeSessionTab_def Let_def o by (auto intro: inv_switch)
qed

lemma inv_addTab: "page_inv p \<Longrightarrow> page_inv (fst (addSessionTab now d p))"
proof -
  assume p: "page_inv p"
  show ?thesis
  proof (cases "find (\<lambda>t. dv_id (tb_device (pg_tabs p ! t)) = dv_id d) (pg_open p)")
    case None
    then have new: "dv_id d \<notin> tab_device p ` set (pg_open p)"
      by (auto simp: find_None_iff tab_device_def)
    have below: "\<forall>t \<in> set (pg_open p). t < length (pg_tabs p)" using p by (auto simp: page_inv_def tabs_ok_def)
    let ?new = "\<lparr>tb_id = now, tb_device = d, tb_ws = None, tb_decoder = None, tb_ts = 0\<rparr>"
    let ?p = "p\<lparr>pg_tabs := pg_tabs p @ [?new], pg_open := pg_open p @ [length (pg_tabs p)], pg_active := Some now\<rparr>"
    have m: "map (tab_device ?p) (pg_open p) = map (tab_device p) (pg_open p)"
      using below by (simp add: tab_device_def nth_append)
    have "tab_device ?p (length (pg_tabs p)) = dv_id d" by (simp add: tab_device_def)
    then have "distinct (map (tab_device ?p) (pg_open ?p))"
      using p m new unfolding page_inv_def tabs_ok_def by (simp del: map_eq_conv)
    then have "tabs_ok ?p" using below by (auto simp: tabs_ok_def less_SucI)
    moreover have "socks_ok ?p" using p by (auto simp: page_inv_def socks_ok_def nth_append less_Suc_eq)
    moreover have "decs_ok ?p" using p by (simp add: page_inv_def decs_ok_def)
    ultimately show ?thesis using None by (simp add: addSessionTab_def page_inv_def)
  qed (simp add: addSessionTab_def inv_switch p)
qed

lemma inv_startRemote: "page_inv p \<Longrightarrow> page_inv (fst (startRemote now wts p))"
  by (auto simp: startRemote_def split: option.split prod.split) (metis inv_addTab fst_conv)+

lemma inv_tab:
  "(\<And>tab. tb_device (f tab) = tb_device tab) \<Longrightarrow>
   (\<And>tab s. t < length (pg_tabs p) \<Longrightarrow> tb_ws (f tab) = Some s \<Longrightarrow>
      tb_ws tab = Some s \<or> (s < length (pg_sockets p) \<and> so_tab (pg_sockets p ! s) = t)) \<Longrightarrow>
   page_inv p \<Longrightarrow> page_inv (upd_tab t f p)"
  unfolding page_inv_def using upd_tab_ok [of f t p] by blast

lemma inv_answer: "page_inv p \<Longrightarrow> t < length (pg_tabs p) \<Longrightarrow> page_inv (session_answer t token p)"
proof (cases token)
  case (Some tok)
  assume p: "page_inv p" and t: "t < length (pg_tabs p)"
  let ?p = "p\<lparr>pg_sockets := pg_sockets p @ [\<lparr>so_state = Connecting, so_token = tok, so_tab = t, so_sent = [], so_clip = False\<rparr>],
    pg_ws := Some (length (pg_sockets p))\<rparr>"
  have "page_inv ?p" using p t
    by (fastforce simp: page_inv_def decs_ok_def tabs_ok_def tab_device_def socks_ok_def nth_append)
  then have "page_inv (upd_tab t (\<lambda>tab. tab\<lparr>tb_ws := Some (length (pg_sockets p))\<rparr>) ?p)"
    by (intro inv_tab) auto
  with Some p show ?thesis by (simp add: session_answer_def)
qed (simp add: session_answer_def)

lemma inv_tab_keep:
  "(\<And>tab. tb_device (f tab) = tb_device tab) \<Longrightarrow> (\<And>tab s. tb_ws (f tab) = Some s \<Longrightarrow> tb_ws tab = Some s) \<Longrightarrow>
     page_inv p \<Longrightarrow> page_inv (upd_tab t f p)"
  by (rule inv_tab) blast+

lemma inv_hide: "page_inv p \<Longrightarrow> page_inv (hide_canvas p)"
  by (simp add: hide_canvas_def split: option.split)

lemma inv_onclose: "page_inv p \<Longrightarrow> page_inv (ws_onclose s p)"
proof -
  assume p: "page_inv p"
  have "page_inv ((hide_canvas (upd_socket s (\<lambda>so. so\<lparr>so_state := Closed\<rparr>) p))\<lparr>pg_ws := None, pg_decoder := None\<rparr>)"
    using p by (simp add: inv_hide inv_socket)
  then have "page_inv (upd_tab t (\<lambda>tab. tab\<lparr>tb_ws := None, tb_decoder := None\<rparr>)
      ((hide_canvas (upd_socket s (\<lambda>so. so\<lparr>so_state := Closed\<rparr>) p))\<lparr>pg_ws := None, pg_decoder := None\<rparr>))" for t
    by (intro inv_tab_keep) simp_all
  then show ?thesis using p by (simp add: ws_onclose_def inv_stop_recording)
qed

lemma inv_initDecoder: "page_inv p \<Longrightarrow> page_inv (fst (initDecoder w h extra accepted p))"
proof -
  assume p: "page_inv p"
  then have q: "page_inv (close_decoder p)" by (auto simp: close_decoder_def intro: inv_decoder split: option.split)
  let ?q = "close_decoder p"
  have new: "page_inv (?q\<lparr>pg_decoders := pg_decoders ?q @ [dc], pg_decoder := e, pg_ts := 0\<rparr>)"
    if "pg_canvas ?q = Some (dc_canvas dc)" for dc e
    using q that by (auto simp: page_inv_def decs_ok_def tabs_ok_def tab_device_def socks_ok_def)
  have sync: "page_inv r \<Longrightarrow> page_inv (sync_tab r)" for r
    by (auto simp: sync_tab_def intro: inv_tab_keep split: option.split)
  show ?thesis using q new by (auto simp: initDecoder_def Let_def intro!: sync inv_decoder split: option.split)
qed

lemma inv_text: "page_inv p \<Longrightarrow> page_inv (remote_text extra accepted msg p)"
  using inv_initDecoder by (auto simp: remote_text_def Let_def split: option.split prod.split) (metis fst_conv)+

lemma inv_bytes: "page_inv p \<Longrightarrow> page_inv (remote_bytes buf p)"
  by (auto simp: remote_bytes_def Let_def decode_chunk_def intro!: inv_decoder split: list.split option.split)

lemma inv_jpeg: "page_inv p \<Longrightarrow> page_inv (jpeg_decoded area bmp k p)"
  by (auto simp: jpeg_decoded_def Let_def split: option.split)

lemma inv_clip: "page_inv p \<Longrightarrow> page_inv (fst (clip_message s msg p))" "page_inv p \<Longrightarrow> page_inv (clip_timeout p)"
  by (auto simp: clip_message_def clip_timeout_def intro!: inv_socket split: option.split json.split)

lemma page_inv_step: "page_inv p \<Longrightarrow> page_inv (page_event_step p e)"
proof (cases e)
  case (SocketOpen s)
  assume "page_inv p"
  then show ?thesis using SocketOpen by (auto simp: page_event_step_def ws_onopen_def intro: inv_socket)
next
  case (FrameDecoded d wh)
  assume "page_inv p"
  then show ?thesis using FrameDecoded by (simp add: page_event_step_def decoder_output_def)
next
  case CopyText
  assume "page_inv p"
  then show ?thesis using CopyText
    by (auto simp: page_event_step_def clipboardCopyFromRemote_def inv_send intro!: inv_socket split: option.split)
qed (auto simp: page_event_step_def inv_selectDevice inv_switchTab inv_switch inv_closeTab inv_startRemote inv_answer
  inv_stopRemote inv_onclose inv_text inv_bytes inv_jpeg inv_clip inv_send inv_toggle sendInput_def sendInputKey_def
  sendSystemKeys_def typeString_def clipboardPasteToRemote_def split: option.split)

lemma page_inv_new: "page_inv new_page"
  by (simp add: page_inv_def decs_ok_def tabs_ok_def socks_ok_def new_page_def)

lemma page_inv_run: "page_inv p \<Longrightarrow> page_inv (foldl page_event_step p es)"
  by (induction es arbitrary: p) (simp_all add: page_inv_step)

section \<open>The tabs\<close>

text \<open>
  C21. In every run of the page the open tabs are tabs of different devices, and the socket a tab holds was opened for that
  tab; no tab is shown twice and no socket is shared by two.
\<close>

theorem one_tab_per_device:
  assumes "p = foldl page_event_step new_page es"
  shows "set (pg_open p) \<subseteq> {..<length (pg_tabs p)} \<and> distinct (pg_open p) \<and> distinct (map (tab_device p) (pg_open p)) \<and>
    (\<forall>t < length (pg_tabs p). \<forall>s. tb_ws (pg_tabs p ! t) = Some s \<longrightarrow> s < length (pg_sockets p) \<and> so_tab (pg_sockets p ! s) = t)"
  using page_inv_run [OF page_inv_new, of es] unfolding assms by (auto simp: page_inv_def tabs_ok_def socks_ok_def distinct_map)

definition device_a :: device where "device_a = \<lparr>dv_id = 1, dv_host = ''A'', dv_online = True\<rparr>"
definition device_b :: device where "device_b = \<lparr>dv_id = 2, dv_host = ''B'', dv_online = True\<rparr>"

theorem one_tab_per_device_witness:
  "distinct (map (tab_device (foldl page_event_step new_page [Select device_a, Connect 5 None, Select device_b, Connect 6 None]))
     (pg_open (foldl page_event_step new_page [Select device_a, Connect 5 None, Select device_b, Connect 6 None])))"
  using one_tab_per_device [OF refl, of "[Select device_a, Connect 5 None, Select device_b, Connect 6 None]"] by blast

text \<open>Two sessions, one behind the other: the events and the page they lead to.\<close>

definition two_sessions :: "device \<Rightarrow> device \<Rightarrow> int \<Rightarrow> int \<Rightarrow> string \<Rightarrow> string \<Rightarrow> page_event list" where
  "two_sessions a b m n ta tb =
     [Select a, Connect m None, Answer 0 (Some ta), SocketOpen 0, Select b, Connect n None, Answer 1 (Some tb), SocketOpen 1]"

definition two_tabs :: "device \<Rightarrow> device \<Rightarrow> int \<Rightarrow> int \<Rightarrow> string \<Rightarrow> string \<Rightarrow> page" where
  "two_tabs a b m n ta tb =
     new_page\<lparr>pg_selected := Some b,
       pg_tabs := [\<lparr>tb_id = m, tb_device = a, tb_ws = Some 0, tb_decoder = None, tb_ts = 0\<rparr>,
                   \<lparr>tb_id = n, tb_device = b, tb_ws = Some 1, tb_decoder = None, tb_ts = 0\<rparr>],
       pg_open := [0, 1], pg_active := Some n,
       pg_sockets := [\<lparr>so_state = Open, so_token = ta, so_tab = 0, so_sent = [], so_clip = False\<rparr>,
                      \<lparr>so_state = Open, so_token = tb, so_tab = 1, so_sent = [], so_clip = False\<rparr>],
       pg_ws := Some 1, pg_canvases := [fresh_canvas, fresh_canvas], pg_canvas := Some 1\<rparr>"

lemmas page_run_simps = page_event_step_def selectDevice_def switchTab_def render_remote_def Let_def startRemote_def
  addSessionTab_def session_answer_def upd_tab_def upd_socket_def upd_canvas_def ws_onopen_def new_page_def

lemma two_sessions_run:
  assumes "dv_id a \<noteq> dv_id b" "dv_online a" "dv_online b" "ta \<noteq> []" "tb \<noteq> []"
  shows "foldl page_event_step new_page (two_sessions a b m n ta tb) = two_tabs a b m n ta tb"
  using assms by (simp add: two_sessions_def two_tabs_def page_run_simps)

text \<open>
  C20. All tabs share one screen and one keyboard. With a session to a device behind the one to another, a picture that
  arrives from the first is drawn on the canvas of the second, while what is typed there goes to the second device;
  and when the first one's connection ends, the page forgets the second one's: what is typed, or sent by the buttons for
  system keys, goes nowhere, though the second socket is still open.
\<close>

theorem tabs_share_screen:
  assumes "dv_id a \<noteq> dv_id b" "dv_online a" "dv_online b" "ta \<noteq> []" "tb \<noteq> []"
    "p = foldl page_event_step new_page (two_sessions a b m n ta tb)"
    "q = foldl page_event_step p [BinaryMessage 0 (1 # pic), JpegDecoded area (Some wh) 0]"
    "k = Key True key code False False False False"
  shows "pg_selected q = Some b \<and> pg_canvas q = Some 1 \<and> cv_shown (pg_canvases q ! 1) \<and>
    cv_painted (pg_canvases q ! 1) = Some (JpegPicture pic) \<and>
    map so_sent (pg_sockets (page_event_step q k)) = [[], [key_msg True key code False False False False]] \<and>
    map so_sent (pg_sockets (foldl page_event_step q [SocketClosed 0, k])) = [[], []] \<and>
    map so_sent (pg_sockets (page_event_step q (SystemKeys keys))) = [[], system_key_msgs keys] \<and>
    map so_sent (pg_sockets (foldl page_event_step q [SocketClosed 0, SystemKeys keys])) = [[], []] \<and>
    so_state (pg_sockets (foldl page_event_step q [SocketClosed 0, k]) ! 1) = Open"
proof -
  have p: "p = two_tabs a b m n ta tb" unfolding assms(6) by (rule two_sessions_run) (use assms in simp_all)
  show ?thesis
    by (simp add: assms(7,8) p two_tabs_def page_event_step_def receiving_def remote_bytes_def jpeg_decoded_def upd_canvas_def
      sendInputKey_def sendSystemKeys_def ws_send_def open_ws_def upd_socket_def ws_onclose_def hide_canvas_def upd_tab_def
      stop_recording_def canvas_shown_def new_page_def Let_def)
qed

theorem tabs_share_screen_witness:
  "cv_painted (pg_canvases (foldl page_event_step
     (foldl page_event_step new_page (two_sessions device_a device_b 5 6 ''ta'' ''tb''))
     [BinaryMessage 0 [1, 0xff], JpegDecoded (800, 600) (Some (800, 600)) 0]) ! 1) = Some (JpegPicture [0xff])"
  using tabs_share_screen [of device_a device_b "''ta''" "''tb''", OF _ _ _ _ _ refl refl refl, of 5 6 "[0xff]" "(800, 600)" "(800, 600)"]
  by (simp add: device_a_def device_b_def)

text \<open>
  A second session that cannot be started leaves the first one behind the page of the second device: its device is
  selected and its tab is the active one, but the keys the operator sends with the toolbar go to the first device.
\<close>

theorem failed_start_types_into_other_device:
  assumes "dv_id a \<noteq> dv_id b" "dv_online a" "dv_online b" "ta \<noteq> []"
    "p = foldl page_event_step new_page [Select a, Connect m None, Answer 0 (Some ta), SocketOpen 0, Select b, Connect n None,
       Answer 1 None, SystemKeys keys]"
  shows "pg_selected p = Some b \<and> pg_active p = Some n \<and> tb_device (pg_tabs p ! 1) = b \<and> tb_id (pg_tabs p ! 1) = n \<and>
    map so_token (pg_sockets p) = [ta] \<and> map so_sent (pg_sockets p) = [system_key_msgs keys]"
  using assms(1-4) unfolding assms(5) by (simp add: page_run_simps sendSystemKeys_def ws_send_def open_ws_def)

theorem failed_start_types_into_other_device_witness:
  "map so_sent (pg_sockets (foldl page_event_step new_page [Select device_a, Connect 5 None, Answer 0 (Some ''ta''), SocketOpen 0,
     Select device_b, Connect 6 None, Answer 1 None, SystemKeys [(''Meta'', ''MetaLeft'')]])) =
   [system_key_msgs [(''Meta'', ''MetaLeft'')]]"
  using failed_start_types_into_other_device
    [of device_a device_b "''ta''", OF _ _ _ _ refl, of 5 6 "[(''Meta'', ''MetaLeft'')]"]
  by (simp add: device_a_def device_b_def)

section \<open>Switching\<close>

lemma page_canvas_only:
  "pg_canvases (upd_decoder d f p) = pg_canvases p" "pg_canvases (upd_socket s g p) = pg_canvases p"
  "pg_decoders (upd_canvas c h p) = pg_decoders p" "pg_decoders (upd_socket s g p) = pg_decoders p"
  by (simp_all add: upd_decoder_def upd_socket_def upd_canvas_def)

text \<open>The frames that come in, and those that the decoders of an earlier page put out.\<close>

definition video_event :: "nat \<Rightarrow> page_event \<Rightarrow> bool" where
  "video_event n e \<longleftrightarrow> (\<exists>s r. e = BinaryMessage s (2 # r)) \<or> (\<exists>d wh. e = FrameDecoded d wh \<and> d < n)"

lemma video_leaves_canvas:
  assumes "video_event n e" "n \<le> length (pg_decoders p)" "\<forall>d < n. dc_canvas (pg_decoders p ! d) \<noteq> c"
  shows "pg_canvases (page_event_step p e) ! c = pg_canvases p ! c"
    "n \<le> length (pg_decoders (page_event_step p e))" "\<forall>d < n. dc_canvas (pg_decoders (page_event_step p e) ! d) \<noteq> c"
    "pg_canvas (page_event_step p e) = pg_canvas p"
proof -
  consider (bin) s r where "e = BinaryMessage s (2 # r)" | (out) d wh where "e = FrameDecoded d wh" "d < n"
    using assms(1) by (auto simp: video_event_def)
  then have "pg_canvases (page_event_step p e) ! c = pg_canvases p ! c \<and> n \<le> length (pg_decoders (page_event_step p e)) \<and>
      (\<forall>d < n. dc_canvas (pg_decoders (page_event_step p e) ! d) \<noteq> c) \<and> pg_canvas (page_event_step p e) = pg_canvas p"
  proof cases
    case bin
    then show ?thesis using assms(2,3)
      by (auto simp: page_event_step_def remote_bytes_def Let_def upd_decoder_def nth_update_if decode_chunk_def split: option.split)
  next
    case out
    then show ?thesis using assms(2,3)
      by (auto simp: page_event_step_def decoder_output_def upd_canvas_def nth_update_if)
  qed
  then show "pg_canvases (page_event_step p e) ! c = pg_canvases p ! c"
    "n \<le> length (pg_decoders (page_event_step p e))" "\<forall>d < n. dc_canvas (pg_decoders (page_event_step p e) ! d) \<noteq> c"
    "pg_canvas (page_event_step p e) = pg_canvas p" by blast+
qed

lemma videos_leave_canvas:
  assumes "list_all (video_event n) es" "n \<le> length (pg_decoders p)" "\<forall>d < n. dc_canvas (pg_decoders p ! d) \<noteq> c"
  shows "pg_canvases (foldl page_event_step p es) ! c = pg_canvases p ! c \<and> pg_canvas (foldl page_event_step p es) = pg_canvas p"
  using assms
proof (induction es arbitrary: p)
  case (Cons e es)
  then have e: "video_event n e" by simp
  note v = video_leaves_canvas [OF e Cons.prems(2,3)]
  show ?case using Cons.IH [OF _ v(2,3)] Cons.prems(1) v(1,4) by simp
qed simp

text \<open>
  Switching back to the tab of a session shows nothing of it: the page makes a new canvas, hidden, and whatever video
  frames arrive and are decoded for it afterwards are painted on canvases that are no longer in the page. The view
  stays blank until the agent sends its sizes again.
\<close>

theorem switched_tab_stays_blank:
  assumes "p = foldl page_event_step new_page es" "find_tab i p = Some t" "pg_tab p = RemoteTab"
    "dv_online (tb_device (pg_tabs p ! t))" "list_all (video_event (length (pg_decoders p))) fs"
  shows "pg_canvas (foldl page_event_step (switchSessionTab i p) fs) = Some (length (pg_canvases p)) \<and>
    pg_canvases (foldl page_event_step (switchSessionTab i p) fs) ! length (pg_canvases p) = fresh_canvas"
proof -
  have inv: "page_inv p" unfolding assms(1) by (rule page_inv_run [OF page_inv_new])
  have "find_tab i (p\<lparr>pg_active := Some i\<rparr>) = Some t" using assms(2) by (simp add: find_tab_def)
  then have s: "pg_canvas (switchSessionTab i p) = Some (length (pg_canvases p))"
    "pg_canvases (switchSessionTab i p) = pg_canvases p @ [fresh_canvas]" "pg_decoders (switchSessionTab i p) = pg_decoders p"
    using assms(3,4) by (simp_all add: switchSessionTab_def Let_def selectDevice_def switchTab_def render_remote_def)
  have "\<forall>d < length (pg_decoders p). dc_canvas (pg_decoders (switchSessionTab i p) ! d) \<noteq> length (pg_canvases p)"
    using inv nth_mem by (fastforce simp: s(3) page_inv_def decs_ok_def)
  with videos_leave_canvas [OF assms(5), of "switchSessionTab i p" "length (pg_canvases p)"] show ?thesis
    by (simp add: s)
qed

definition page_video_run :: "page_event list" where
  "page_video_run = [Select device_a, Connect 5 None, Answer 0 (Some ''ta''), SocketOpen 0,
     TextMessage 0 None True (Some (JObj [(''width'', JInt 640), (''height'', JInt 480)])), Select device_b, Connect 6 None]"

lemma video_run_page:
  "find_tab 5 (foldl page_event_step new_page page_video_run) = Some 0"
  "pg_tab (foldl page_event_step new_page page_video_run) = RemoteTab"
  "dv_online (tb_device (pg_tabs (foldl page_event_step new_page page_video_run) ! 0))"
  "length (pg_decoders (foldl page_event_step new_page page_video_run)) = 1"
  "length (pg_canvases (foldl page_event_step new_page page_video_run)) = 2"
  by (simp_all add: page_video_run_def page_run_simps receiving_def clip_message_def remote_text_def js_get_def js_truthy_def js_int_def
    initDecoder_def close_decoder_def upd_decoder_def sync_tab_def find_tab_def device_a_def device_b_def fresh_canvas_def)

theorem switched_tab_stays_blank_witness:
  "pg_canvases (foldl page_event_step (switchSessionTab 5 (foldl page_event_step new_page page_video_run))
     [BinaryMessage 0 [2, 0, 0, 0, 1, 0x65], FrameDecoded 0 (640, 480)]) ! 2 = fresh_canvas"
  using switched_tab_stays_blank [OF refl video_run_page(1-3), of "[BinaryMessage 0 [2, 0, 0, 0, 1, 0x65], FrameDecoded 0 (640, 480)]"]
  by (simp add: video_run_page video_event_def)

section \<open>Recording\<close>

text \<open>A recording stopped by the button is told to the agent; one ended by disconnecting is not.\<close>

lemma recording_end_told:
  assumes "pg_recording p" "open_ws p = Some s"
  shows "so_sent (pg_sockets (toggleRecording b p) ! s) = so_sent (pg_sockets p ! s) @ [recording_msg False]"
    "so_sent (pg_sockets (stopRemote p) ! s) = so_sent (pg_sockets p ! s)" "\<not> pg_recording (stopRemote p)"
proof -
  have s: "pg_ws p = Some s" "s < length (pg_sockets p)" "so_state (pg_sockets p ! s) = Open"
    using assms(2) by (auto simp: open_ws_def split: option.splits if_splits)
  show "so_sent (pg_sockets (toggleRecording b p) ! s) = so_sent (pg_sockets p ! s) @ [recording_msg False]"
    using assms(1) s by (simp add: toggleRecording_def ws_send_def open_ws_def upd_socket_def)
  show "so_sent (pg_sockets (stopRemote p) ! s) = so_sent (pg_sockets p ! s)" "\<not> pg_recording (stopRemote p)"
    using assms(1) s by (simp_all add: stopRemote_def Let_def stop_recording_def toggleRecording_def ws_send_def open_ws_def
      upd_socket_def close_socket_def upd_decoder_def split: option.split)
qed

end
