(* ===== verification/Page_Chat.thy ===== *)
theory Page_Chat
  imports Chat_Window
begin

text \<open>
  The operator's side of a chat in the page of the client application (client-app/ui.go, its script): the panel, the messages
  and what is sent on the connection to the server's socket.io. The server's part of that connection is the
  argument of the events; a time is in milliseconds.
\<close>

section \<open>State\<close>

datatype chat_row = TimeRow int | SystemRow string | OperatorRow string | UserRow string string

datatype request_area = NoButton | RequestButton | WaitingNote

record chat_msg =
  cm_sender :: string
  cm_text :: string
  cm_time :: int
  cm_system :: bool

record chat_page =
  cp_socket :: bool
  cp_id :: "string option"
  cp_msgs :: "chat_msg list"
  cp_rows :: "chat_row list"
  cp_connected :: bool
  cp_userClosed :: bool
  cp_name :: string
  cp_avatar :: string
  cp_open :: bool
  cp_badge :: bool
  cp_inputs :: bool
  cp_status :: string
  cp_area :: request_area
  cp_typing :: bool
  cp_lastTyping :: int
  cp_emitted :: "(string \<times> json) list"

definition new_chat_page :: chat_page where
  "new_chat_page = \<lparr>cp_socket = False, cp_id = None, cp_msgs = [], cp_rows = [], cp_connected = False, cp_userClosed = False,
     cp_name = [], cp_avatar = [], cp_open = False, cp_badge = False, cp_inputs = False, cp_status = ''Disconnected'',
     cp_area = NoButton, cp_typing = False, cp_lastTyping = 0, cp_emitted = []\<rparr>"

definition chat_emit :: "string \<Rightarrow> json \<Rightarrow> chat_page \<Rightarrow> chat_page" where
  "chat_emit name data p = p\<lparr>cp_emitted := cp_emitted p @ [(name, data)]\<rparr>"

text \<open>The escape of the script, in the order of its replacements.\<close>

definition js_esc :: "string \<Rightarrow> string" where
  "js_esc s = replace_char (CHR 0x22) ''&quot;'' (replace_char (CHR ''>'') ''&gt;''
     (replace_char (CHR ''<'') ''&lt;'' (replace_char (CHR ''&'') ''&amp;'' s)))"

section \<open>Messages\<close>

text \<open>A message in the list: behind the time when it is the first or five minutes after the one before.\<close>

definition time_row :: "chat_msg list \<Rightarrow> int \<Rightarrow> chat_row list" where
  "time_row msgs now =
     (if length msgs \<le> 1 \<or> now - cm_time (msgs ! (length msgs - 2)) > 300000 then [TimeRow now] else [])"

definition msg_row :: "string \<Rightarrow> chat_msg \<Rightarrow> chat_row" where
  "msg_row operator m =
     (if cm_system m then SystemRow (js_esc (cm_text m))
      else if cm_sender m = operator then OperatorRow (js_esc (cm_text m))
      else UserRow (cm_sender m) (js_esc (cm_text m)))"

definition renderChatMsg :: "chat_msg \<Rightarrow> chat_page \<Rightarrow> chat_page" where
  "renderChatMsg m p = p\<lparr>cp_rows := cp_rows p @ time_row (cp_msgs p) (cm_time m) @ [msg_row (cp_name p) m]\<rparr>"

definition addChatMsg :: "int \<Rightarrow> string \<Rightarrow> string \<Rightarrow> bool \<Rightarrow> chat_page \<Rightarrow> chat_page" where
  "addChatMsg now sender txt sys p =
     (let m = \<lparr>cm_sender = sender, cm_text = txt, cm_time = now, cm_system = sys\<rparr>
      in renderChatMsg m (p\<lparr>cp_msgs := cp_msgs p @ [m]\<rparr>))"

definition renderRequestRemoteBtn :: "chat_page \<Rightarrow> chat_page" where
  "renderRequestRemoteBtn p = p\<lparr>cp_area := (if \<not> cp_connected p \<or> cp_userClosed p then NoButton else RequestButton)\<rparr>"

text \<open>The click on the button; it asks with an empty text.\<close>

definition request_remote :: "int \<Rightarrow> chat_page \<Rightarrow> chat_page" where
  "request_remote now p =
     (case cp_id p of
        None \<Rightarrow> p
      | Some i \<Rightarrow>
          if cp_area p \<noteq> RequestButton \<or> \<not> cp_socket p then p
          else (addChatMsg now ''System'' ''Remote control request sent.'' True
                 (chat_emit ''chat:request_remote'' (JObj [(''chatId'', JStr i), (''message'', JStr [])]) p))\<lparr>cp_area := WaitingNote\<rparr>)"

section \<open>Opening and closing\<close>

record chat_target =
  ct_uuid :: string
  ct_session :: "json option"

definition open_request :: "chat_target \<Rightarrow> chat_page \<Rightarrow> json" where
  "open_request d p =
     JObj ([(''deviceUuid'', JStr (ct_uuid d))] @ (case ct_session d of None \<Rightarrow> [] | Some s \<Rightarrow> [(''sessionId'', s)]) @
           [(''operatorName'', JStr (cp_name p))] @ (if cp_avatar p = [] then [] else [(''operatorAvatar'', JStr (cp_avatar p))]))"

definition openChatSession :: "chat_target option \<Rightarrow> chat_page \<Rightarrow> chat_page" where
  "openChatSession dev p =
     (case dev of
        None \<Rightarrow> p
      | Some d \<Rightarrow> if \<not> cp_socket p then p
                  else chat_emit ''chat:open'' (open_request d p) (p\<lparr>cp_status := ''Connecting...''\<rparr>))"

text \<open>The answer to it: the identifier of the chat or an error.\<close>

definition chat_opened :: "int \<Rightarrow> string option \<Rightarrow> string \<Rightarrow> chat_page \<Rightarrow> chat_page" where
  "chat_opened now answer err p =
     (case answer of
        Some i \<Rightarrow>
          if i = [] then addChatMsg now ''System'' (''Failed: '' @ (if err = [] then ''agent offline'' else err)) True (p\<lparr>cp_status := ''Failed''\<rparr>)
          else renderRequestRemoteBtn (addChatMsg now ''System'' ''Chat session opened.'' True
                 ((chat_emit ''join'' (JStr (''chat:'' @ i)) (p\<lparr>cp_id := Some i, cp_connected := True, cp_userClosed := False\<rparr>))
                    \<lparr>cp_status := ''Connected'', cp_inputs := True\<rparr>))
      | None \<Rightarrow> addChatMsg now ''System'' (''Failed: '' @ (if err = [] then ''agent offline'' else err)) True (p\<lparr>cp_status := ''Failed''\<rparr>))"

text \<open>Five seconds after the request.\<close>

definition chat_open_timeout :: "int \<Rightarrow> chat_page \<Rightarrow> chat_page" where
  "chat_open_timeout now p =
     (if cp_id p = None then addChatMsg now ''System'' ''Chat connection timed out.'' True (p\<lparr>cp_status := ''Timeout''\<rparr>) else p)"

definition closeChat :: "chat_page \<Rightarrow> chat_page" where
  "closeChat p =
     (let p1 = (case cp_id p of None \<Rightarrow> p
                | Some i \<Rightarrow> if cp_socket p then chat_emit ''chat:close'' (JObj [(''chatId'', JStr i)]) p else p)
      in p1\<lparr>cp_id := None, cp_connected := False, cp_userClosed := False, cp_msgs := [], cp_rows := [],
            cp_status := ''Disconnected'', cp_inputs := False, cp_open := False\<rparr>)"

definition toggleChat :: "bool option \<Rightarrow> chat_target option \<Rightarrow> chat_page \<Rightarrow> chat_page" where
  "toggleChat force dev p =
     (let should = (case force of Some b \<Rightarrow> b | None \<Rightarrow> \<not> cp_open p) in
      if should
      then (let p1 = p\<lparr>cp_open := True\<rparr>;
                p2 = (if cp_id p1 = None \<and> dev \<noteq> None \<and> cp_socket p1 then openChatSession dev p1 else p1)
            in p2\<lparr>cp_badge := False\<rparr>)
      else p\<lparr>cp_open := False\<rparr>)"

section \<open>The connection\<close>

text \<open>What the operator sends; the text is trimmed, of white space and line ends of the script's kind.\<close>

definition js_space :: "nat \<Rightarrow> bool" where
  "js_space r \<longleftrightarrow> (9 \<le> r \<and> r \<le> 13) \<or> r \<in> {0x20, 0xA0, 0x1680, 0x2028, 0x2029, 0x202F, 0x205F, 0x3000, 0xFEFF}
     \<or> (0x2000 \<le> r \<and> r \<le> 0x200A)"

definition js_trim :: "string \<Rightarrow> string" where
  "js_trim s = concat (map rune_utf8 (rev (dropWhile js_space (rev (dropWhile js_space (runes s))))))"

definition sendChatMessage :: "int \<Rightarrow> string \<Rightarrow> chat_page \<Rightarrow> chat_page" where
  "sendChatMessage now field p =
     (let txt = js_trim field in
      case cp_id p of
        None \<Rightarrow> p
      | Some i \<Rightarrow>
          if txt = [] \<or> \<not> cp_socket p then p
          else (chat_emit ''chat:message'' (JObj [(''chatId'', JStr i), (''message'', JStr txt), (''operatorName'', JStr (cp_name p))])
                 (addChatMsg now (cp_name p) txt False p))\<lparr>cp_userClosed := False\<rparr>)"

definition hideChatTyping :: "chat_page \<Rightarrow> chat_page" where
  "hideChatTyping p = p\<lparr>cp_typing := False\<rparr>"

definition onChatMessage :: "int \<Rightarrow> string \<Rightarrow> string \<Rightarrow> string \<Rightarrow> chat_page \<Rightarrow> chat_page" where
  "onChatMessage now i sender msg p =
     (if cp_id p \<noteq> Some i then p
      else (let p1 = (addChatMsg now sender msg False (hideChatTyping p))\<lparr>cp_userClosed := False\<rparr>
            in if cp_open p1 then p1 else p1\<lparr>cp_badge := True\<rparr>))"

definition onChatClosed :: "int \<Rightarrow> string \<Rightarrow> chat_page \<Rightarrow> chat_page" where
  "onChatClosed now i p =
     (if cp_id p \<noteq> Some i then p
      else (addChatMsg now ''System'' ''User has closed the chat. You can still send messages.'' True (p\<lparr>cp_userClosed := True\<rparr>))
             \<lparr>cp_status := ''User disconnected''\<rparr>)"

definition onChatRemoteResponse :: "int \<Rightarrow> string \<Rightarrow> bool \<Rightarrow> chat_page \<Rightarrow> chat_page" where
  "onChatRemoteResponse now i allowed p =
     (if cp_id p \<noteq> Some i then p
      else renderRequestRemoteBtn (addChatMsg now ''System''
             (if allowed then ''Remote control access granted.'' else ''Remote control access denied.'') True p))"

definition onChatTyping :: "string \<Rightarrow> chat_page \<Rightarrow> chat_page" where
  "onChatTyping i p = (if cp_id p \<noteq> Some i then p else p\<lparr>cp_typing := True\<rparr>)"

definition emitChatTyping :: "int \<Rightarrow> chat_page \<Rightarrow> chat_page" where
  "emitChatTyping now p =
     (if now - cp_lastTyping p < 2000 then p
      else (let p1 = p\<lparr>cp_lastTyping := now\<rparr> in
            case cp_id p1 of
              None \<Rightarrow> p1
            | Some i \<Rightarrow> if cp_socket p1 then chat_emit ''chat:typing'' (JObj [(''chatId'', JStr i)]) p1 else p1))"

section \<open>Events\<close>

text \<open>Another device is selected: a chat that is open is closed.\<close>

datatype chat_page_event =
    SocketReady
  | ToggleChat "bool option" "chat_target option"
  | ChatAnswer int "string option" string
  | ChatTimeout int
  | OtherDevice
  | SendText int string
  | Typing int
  | AskRemote int
  | GotMessage int string string string
  | GotClosed int string
  | GotResponse int string bool
  | GotTyping string
  | TypingEnds

definition chat_page_step :: "chat_page \<Rightarrow> chat_page_event \<Rightarrow> chat_page" where
  "chat_page_step p e =
     (case e of
        SocketReady \<Rightarrow> p\<lparr>cp_socket := True\<rparr>
      | ToggleChat force dev \<Rightarrow> toggleChat force dev p
      | ChatAnswer now answer err \<Rightarrow> chat_opened now answer err p
      | ChatTimeout now \<Rightarrow> chat_open_timeout now p
      | OtherDevice \<Rightarrow> closeChat p
      | SendText now txt \<Rightarrow> sendChatMessage now txt p
      | Typing now \<Rightarrow> emitChatTyping now p
      | AskRemote now \<Rightarrow> request_remote now p
      | GotMessage now i sender msg \<Rightarrow> onChatMessage now i sender msg p
      | GotClosed now i \<Rightarrow> onChatClosed now i p
      | GotResponse now i allowed \<Rightarrow> onChatRemoteResponse now i allowed p
      | GotTyping i \<Rightarrow> onChatTyping i p
      | TypingEnds \<Rightarrow> hideChatTyping p)"

section \<open>What is sent\<close>

lemmas chat_page_defs = toggleChat_def openChatSession_def chat_opened_def chat_open_timeout_def closeChat_def sendChatMessage_def
  emitChatTyping_def request_remote_def onChatMessage_def onChatClosed_def onChatRemoteResponse_def onChatTyping_def
  hideChatTyping_def chat_emit_def addChatMsg_def renderChatMsg_def renderRequestRemoteBtn_def Let_def

text \<open>The chats the server has named so far, and what may be sent: only to one of these.\<close>

definition named :: "chat_page_event list \<Rightarrow> string set" where
  "named es = {i. \<exists>now err. ChatAnswer now (Some i) err \<in> set es \<and> i \<noteq> []}"

definition emitted_to :: "string set \<Rightarrow> string \<times> json \<Rightarrow> bool" where
  "emitted_to ids m \<longleftrightarrow> fst m = ''chat:open'' \<or> (fst m = ''join'' \<and> (\<exists>i. i \<in> ids \<and> snd m = JStr (''chat:'' @ i))) \<or>
     (\<exists>i kvs. i \<in> ids \<and> snd m = JObj ((''chatId'', JStr i) # kvs))"

definition chat_ok :: "string set \<Rightarrow> chat_page \<Rightarrow> bool" where
  "chat_ok ids p \<longleftrightarrow> (\<forall>i. cp_id p = Some i \<longrightarrow> i \<in> ids) \<and> (cp_id p = None \<longrightarrow> \<not> cp_connected p \<and> \<not> cp_inputs p) \<and>
     list_all (emitted_to ids) (cp_emitted p)"

lemma chat_ok_mono: "chat_ok ids p \<Longrightarrow> ids \<subseteq> ids' \<Longrightarrow> chat_ok ids' p"
proof -
  assume a: "chat_ok ids p" "ids \<subseteq> ids'"
  have "emitted_to ids m \<Longrightarrow> emitted_to ids' m" for m
    using a(2) unfolding emitted_to_def by blast
  then show ?thesis using a by (auto simp: chat_ok_def list_all_iff)
qed

lemma chat_ok_step:
  assumes "chat_ok ids p" "\<And>now i err. e = ChatAnswer now (Some i) err \<Longrightarrow> i \<noteq> [] \<Longrightarrow> i \<in> ids"
  shows "chat_ok ids (chat_page_step p e)"
proof (cases e)
  case (ChatAnswer now' a err')
  show ?thesis
  proof (cases "\<exists>i. a = Some i \<and> i \<noteq> []")
    case True
    then obtain i where i: "a = Some i" "i \<noteq> []" "i \<in> ids" using assms(2) ChatAnswer by blast
    then show ?thesis using assms(1) ChatAnswer by (simp add: chat_page_step_def chat_page_defs chat_ok_def emitted_to_def)
  next
    case False
    then show ?thesis using assms(1) ChatAnswer
      by (auto simp: chat_page_step_def chat_page_defs chat_ok_def split: option.split)
  qed
qed (use assms(1) in \<open>auto simp: chat_page_step_def chat_page_defs chat_ok_def emitted_to_def open_request_def split: option.splits\<close>)

lemma chat_ok_run:
  "chat_ok ids p \<Longrightarrow> chat_ok (ids \<union> named es) (foldl chat_page_step p es)"
proof (induction es arbitrary: ids p)
  case Nil
  then show ?case by (simp add: named_def)
next
  case (Cons e es)
  have "chat_ok (ids \<union> named [e]) (chat_page_step p e)"
    using chat_ok_mono [OF Cons.prems, of "ids \<union> named [e]"] by (intro chat_ok_step) (auto simp: named_def)
  from Cons.IH [OF this] have "chat_ok (ids \<union> named [e] \<union> named es) (foldl chat_page_step p (e # es))" by simp
  moreover have "ids \<union> named [e] \<union> named es = ids \<union> named (e # es)" by (auto simp: named_def)
  ultimately show ?case by simp
qed

text \<open>
  C26. Whatever the operator, the server and the devices do, in any order: all the page sends about a chat, messages, signs of
  typing, requests and the close, names a chat the server has opened for it, and the fields for a message are enabled
  only while there is one.
\<close>

theorem chat_messages_name_opened_chats:
  "chat_ok (named es) (foldl chat_page_step new_chat_page es)"
  using chat_ok_run [of "{}" new_chat_page es] by (simp add: chat_ok_def new_chat_page_def)

text \<open>
  A chat that is answered after another device was selected belongs to the device before: the page takes it for the current
  one, and what the operator writes goes to the user of the first device.
\<close>

theorem late_chat_answer_stays:
  assumes "i \<noteq> []" "js_trim txt \<noteq> []"
    "p = foldl chat_page_step new_chat_page [SocketReady, ToggleChat (Some True) (Some d), OtherDevice, ChatAnswer now (Some i) []]"
  shows "cp_id p = Some i \<and> cp_inputs p \<and> \<not> cp_open p \<and>
    (''chat:close'', JObj [(''chatId'', JStr i)]) \<notin> set (cp_emitted p) \<and>
    last (cp_emitted (chat_page_step (chat_page_step p (ToggleChat None (Some d'))) (SendText now txt))) =
      (''chat:message'', JObj [(''chatId'', JStr i), (''message'', JStr (js_trim txt)), (''operatorName'', JStr [])])"
  using assms(1,2) unfolding assms(3) by (simp add: chat_page_step_def chat_page_defs new_chat_page_def open_request_def)

lemma js_trim_word: "js_trim ''hi'' = ''hi''"
  by (simp add: js_trim_def runes_def seq_length_def valid_seq_def seq_rune_def js_space_def rune_utf8_def) code_simp

theorem late_chat_answer_stays_witness:
  "last (cp_emitted (chat_page_step (chat_page_step
     (foldl chat_page_step new_chat_page [SocketReady, ToggleChat (Some True) (Some \<lparr>ct_uuid = ''A'', ct_session = None\<rparr>), OtherDevice,
        ChatAnswer 9 (Some ''c'') []]) (ToggleChat None (Some \<lparr>ct_uuid = ''B'', ct_session = None\<rparr>))) (SendText 9 ''hi''))) =
   (''chat:message'', JObj [(''chatId'', JStr ''c''), (''message'', JStr ''hi''), (''operatorName'', JStr [])])"
  using late_chat_answer_stays [of "''c''" "''hi''", OF _ _ refl, of "\<lparr>ct_uuid = ''A'', ct_session = None\<rparr>" 9
    "\<lparr>ct_uuid = ''B'', ct_session = None\<rparr>"] by (simp add: js_trim_word)

text \<open>After a close is reported a second message tells the operator the same; the request button stays on the first report.\<close>

lemma second_close_told_again:
  assumes "cp_id p = Some i"
  shows "length (filter cm_system (cp_msgs (foldl chat_page_step p [GotClosed n i, GotClosed n i]))) =
      length (filter cm_system (cp_msgs p)) + 2"
    "cp_area (chat_page_step p (GotClosed n i)) = cp_area p"
  using assms by (simp_all add: chat_page_step_def chat_page_defs)

lemma typing_throttled:
  assumes "now - cp_lastTyping p < 2000" shows "chat_page_step p (Typing now) = p"
  using assms by (simp add: chat_page_step_def emitChatTyping_def)

text \<open>Escaped text has no markup of its own.\<close>

lemma in_replace_char: "x \<in> set (replace_char c r s) \<longleftrightarrow> (x \<in> set s \<and> x \<noteq> c) \<or> (c \<in> set s \<and> x \<in> set r)"
  by (auto simp: replace_char_def split: if_splits)

lemma js_esc_safe: "CHR ''<'' \<notin> set (js_esc s)" "CHR ''>'' \<notin> set (js_esc s)" "CHR 0x22 \<notin> set (js_esc s)"
  by (auto simp: js_esc_def in_replace_char)

end
