(* ===== verification/Page_App.thy ===== *)
theory Page_App
  imports Page_Chat Client_Inv
begin

text \<open>
  The rest of the page of the client application (client-app/ui.go, its script): signing in, the list of devices with its
  favorites and recent ones, the execution of a script, annotations, the numbers of the performance display, and
  the escape of the Go part. Answers of the server are arguments.
\<close>

section \<open>The escape of the Go part\<close>

definition go_esc :: "string \<Rightarrow> string" where
  "go_esc s = replace_char (CHR 0x22) ''&quot;'' (replace_char (CHR ''>'') ''&gt;''
     (replace_char (CHR ''<'') ''&lt;'' (replace_char (CHR ''&'') ''&amp;'' s)))"

section \<open>Signing in\<close>

text \<open>What the page asks of the local server: method, path and body.\<close>

type_synonym page_request = "string \<times> string \<times> json option"

definition api_request :: "string \<Rightarrow> string \<Rightarrow> json option \<Rightarrow> page_request" where
  "api_request meth path body = (meth, ''/proxy'' @ path, body)"

text \<open>The address field: trimmed, and less one slash at its end.\<close>

definition drop_slash :: "string \<Rightarrow> string" where
  "drop_slash s = (if s \<noteq> [] \<and> last s = CHR ''/'' then butlast s else s)"

definition server_field :: "string \<Rightarrow> string" where
  "server_field s = drop_slash (js_trim s)"

datatype login_form = LocalForm | SsoForm

text \<open>\<open>checkSso\<close>: the address is stored, then the form of the answer (none: it could not be had) is shown.\<close>

definition check_sso_requests :: "string \<Rightarrow> page_request list" where
  "check_sso_requests field =
     (let server = server_field field in
      if server = [] then []
      else [(''POST'', ''/local/config'', Some (JObj [(''serverUrl'', JStr server)])),
            (''GET'', ''/proxy/api/auth/sso-config'', None)])"

definition check_sso_form :: "(bool \<times> bool) option \<Rightarrow> login_form \<Rightarrow> login_form" where
  "check_sso_form answer form =
     (case answer of None \<Rightarrow> form | Some (enabled, reachable) \<Rightarrow> if enabled \<and> reachable then SsoForm else LocalForm)"

text \<open>\<open>doLogin\<close> and \<open>doSsoLogin\<close>: the error that stops them, or the requests they make, the second once the first is answered.\<close>

definition doLogin :: "string \<Rightarrow> string \<Rightarrow> string \<Rightarrow> bool \<Rightarrow> string + page_request list" where
  "doLogin field user password remember =
     (let server = server_field field; username = js_trim user in
      if server = [] \<or> username = [] \<or> password = [] then Inl ''All fields required''
      else Inr [(''POST'', ''/local/config'', Some (JObj [(''serverUrl'', JStr server), (''username'', JStr username)])),
                api_request ''POST'' ''/api/auth/login''
                  (Some (JObj [(''username'', JStr username), (''password'', JStr password), (''remember'', JBool remember)]))])"

definition doSsoLogin :: "string \<Rightarrow> string + page_request list" where
  "doSsoLogin field =
     (let server = server_field field in
      if server = [] then Inl ''Server URL required''
      else Inr [(''POST'', ''/local/config'', Some (JObj [(''serverUrl'', JStr server)])),
                api_request ''POST'' ''/api/auth/sso-desktop-init'' (Some (JObj []))])"

text \<open>What follows the answer of the login: its status and its fields.\<close>

datatype after_login = LoginError string | EnterApp

definition login_answer :: "bool \<Rightarrow> bool \<Rightarrow> string \<Rightarrow> after_login" where
  "login_answer ok success err =
     (if \<not> ok \<or> \<not> success then LoginError (if err = [] then ''Login failed'' else err) else EnterApp)"

text \<open>The start of the page: a session that the server still knows enters, else the login is shown, with the forms of the server.\<close>

datatype page_start = StartApp | StartLogin bool

definition page_init :: "string \<Rightarrow> bool \<Rightarrow> bool \<Rightarrow> page_start" where
  "page_init serverUrl hasSession me_ok =
     (if hasSession \<and> serverUrl \<noteq> [] \<and> me_ok then StartApp else StartLogin (serverUrl \<noteq> []))"

text \<open>\<open>enterApp\<close>: who the operator is, the first tenant, the devices and the scripts.\<close>

definition first_text :: "string list \<Rightarrow> string" where
  "first_text xs = (case find (\<lambda>s. s \<noteq> []) xs of Some s \<Rightarrow> s | None \<Rightarrow> [])"

definition operator_name :: "string \<Rightarrow> string \<Rightarrow> string \<Rightarrow> string" where
  "operator_name displayName display_name username = first_text [displayName, display_name, username, ''Operator'']"

definition enter_requests :: "int list \<Rightarrow> page_request list" where
  "enter_requests tenants =
     [api_request ''GET'' ''/api/auth/me'' None, api_request ''GET'' ''/api/tenants'' None] @
     (case tenants of [] \<Rightarrow> [] | t # _ \<Rightarrow> [api_request ''POST'' (''/api/tenant/'' @ show_int t @ ''/select'') None]) @
     [api_request ''GET'' ''/api/reach/overview'' None, api_request ''GET'' ''/api/reach/scripts'' None]"

section \<open>The devices\<close>

record dev =
  de_id :: int
  de_host :: string

record dev_group =
  dg_name :: string
  dg_devices :: "dev list"

definition toggleFavorite :: "int \<Rightarrow> int list \<Rightarrow> int list" where
  "toggleFavorite i favs = (if i \<in> set favs then remove1 i favs else favs @ [i])"

text \<open>The recent devices: the one selected first, without its older entry, five at most.\<close>

definition addRecent :: "dev \<Rightarrow> dev list \<Rightarrow> dev list" where
  "addRecent d rs =
     (let rs' = d # filter (\<lambda>r. de_id r \<noteq> de_id d) rs in if length rs' > 5 then take 5 rs' else rs')"

definition countDevices :: "dev_group list \<Rightarrow> nat" where
  "countDevices gs = foldl (\<lambda>n g. n + length (dg_devices g)) 0 gs"

text \<open>
  The rows of the tree: favorites, recent ones when nothing is searched, then the groups; \<open>match\<close> says whether a name has
  the searched text, and an empty search matches all.
\<close>

datatype tree_row = GroupRow string | DeviceRow dev

definition star :: string where "star = [CHR 0xE2, CHR 0x98, CHR 0x85]"

definition tree_section :: "string \<Rightarrow> dev list \<Rightarrow> tree_row list" where
  "tree_section name ds = (if ds = [] then [] else GroupRow name # map DeviceRow ds)"

definition renderTree :: "bool \<Rightarrow> (string \<Rightarrow> bool) \<Rightarrow> int list \<Rightarrow> dev list \<Rightarrow> dev_group list \<Rightarrow> tree_row list" where
  "renderTree searching match favs recents gs =
     (let all = concat (map dg_devices gs);
          fav = filter (\<lambda>d. de_id d \<in> set favs \<and> (\<not> searching \<or> match (de_host d))) all;
          recent = filter (\<lambda>d. de_id d \<notin> set favs)
                     (concat (map (\<lambda>r. case find (\<lambda>d. de_id d = de_id r) all of Some d \<Rightarrow> [d] | None \<Rightarrow> []) recents))
      in tree_section (star @ '' Favorites'') fav @ (if searching then [] else tree_section ''Recent'' recent) @
         concat (map (\<lambda>g. tree_section (dg_name g) (filter (\<lambda>d. \<not> searching \<or> match (de_host d)) (dg_devices g))) gs))"

definition row_devices :: "tree_row list \<Rightarrow> dev list" where
  "row_devices rows = concat (map (\<lambda>r. case r of DeviceRow d \<Rightarrow> [d] | GroupRow n \<Rightarrow> []) rows)"

section \<open>Running a script\<close>

text \<open>
  The poll of an execution every two seconds: its attempts, the text shown, whether the button is enabled and whether the poll
  goes on. An answer that cannot be had (none) leaves the text.
\<close>

record exec_state =
  ex_att :: nat
  ex_text :: string
  ex_button :: bool
  ex_polling :: bool

record exec_answer =
  ea_status :: string
  ea_exit :: "int option"
  ea_stdout :: string
  ea_stderr :: string

definition newline :: char where "newline = CHR 0x0A"

definition exec_start :: "string \<Rightarrow> string \<Rightarrow> exec_state" where
  "exec_start ident status =
     \<lparr>ex_att = 0, ex_text = ''Executing...'' @ [newline] @ ''Execution ID: '' @ ident @ [newline] @ ''Status: '' @ status @ [newline],
      ex_button = False, ex_polling = True\<rparr>"

definition final_status :: "string \<Rightarrow> bool" where
  "final_status s \<longleftrightarrow> s \<in> {''success'', ''failure'', ''timeout'', ''cancelled''}"

definition exec_result :: "exec_answer \<Rightarrow> string" where
  "exec_result a =
     ''Status: '' @ ea_status a @ '' (exit '' @ (case ea_exit a of Some n \<Rightarrow> show_int n | None \<Rightarrow> ''?'') @ '')'' @ [newline, newline] @
     (if ea_stdout a = [] then [] else ''--- stdout ---'' @ [newline] @ ea_stdout a @ [newline]) @
     (if ea_stderr a = [] then [] else ''--- stderr ---'' @ [newline] @ ea_stderr a @ [newline])"

definition exec_poll :: "exec_answer option \<Rightarrow> exec_state \<Rightarrow> exec_state" where
  "exec_poll answer s =
     (if \<not> ex_polling s then s
      else (let s1 = s\<lparr>ex_att := ex_att s + 1\<rparr> in
            if ex_att s1 > 60 then s1\<lparr>ex_polling := False, ex_text := ex_text s1 @ [newline] @ ''Timeout.'' @ [newline]\<rparr>
            else (case answer of
                    None \<Rightarrow> s1
                  | Some a \<Rightarrow>
                      if final_status (ea_status a)
                      then s1\<lparr>ex_polling := False, ex_text := exec_result a, ex_button := True\<rparr>
                      else s1\<lparr>ex_text := ''Status: '' @ ea_status a @ ''...'' @ [newline]\<rparr>)))"

section \<open>Annotations\<close>

text \<open>The drawing on the overlay, the images kept for undoing, and whether a stroke is drawn; an image is of any type.\<close>

record 'a annotation =
  an_active :: bool
  an_drawing :: bool
  an_image :: 'a
  an_history :: "'a list"

datatype tool = Pen | Arrow | Circle | TextTool | Eraser

text \<open>A press starts a stroke; the text tool draws at once (\<open>typed\<close>: the image with the text, none when none was entered).\<close>

definition anno_down :: "tool \<Rightarrow> 'a option \<Rightarrow> 'a annotation \<Rightarrow> 'a annotation" where
  "anno_down t typed s =
     (if \<not> an_active s then s
      else if t = TextTool
      then (case typed of
              None \<Rightarrow> s\<lparr>an_drawing := False\<rparr>
            | Some im \<Rightarrow> s\<lparr>an_drawing := False, an_image := im, an_history := an_history s @ [im]\<rparr>)
      else s\<lparr>an_drawing := True\<rparr>)"

definition anno_move :: "'a \<Rightarrow> 'a annotation \<Rightarrow> 'a annotation" where
  "anno_move im s = (if \<not> an_drawing s \<or> \<not> an_active s then s else s\<lparr>an_image := im\<rparr>)"

definition anno_up :: "'a annotation \<Rightarrow> 'a annotation" where
  "anno_up s =
     (if an_drawing s \<and> an_active s then s\<lparr>an_drawing := False, an_history := an_history s @ [an_image s]\<rparr> else s)"

definition anno_undo :: "'a \<Rightarrow> 'a annotation \<Rightarrow> 'a annotation" where
  "anno_undo blank s =
     (if an_history s = [] then s
      else (let h = butlast (an_history s) in s\<lparr>an_history := h, an_image := (if h = [] then blank else last h)\<rparr>))"

definition anno_clear :: "'a \<Rightarrow> 'a annotation \<Rightarrow> 'a annotation" where
  "anno_clear blank s = s\<lparr>an_image := blank, an_history := []\<rparr>"

text \<open>\<open>toggleAnnotation\<close>: turning it on takes the size of the view, which clears the canvas.\<close>

definition toggleAnnotation :: "'a \<Rightarrow> 'a annotation \<Rightarrow> 'a annotation" where
  "toggleAnnotation blank s =
     (if an_active s then s\<lparr>an_active := False\<rparr> else s\<lparr>an_active := True, an_image := blank\<rparr>)"

section \<open>Properties\<close>

lemma addRecent_bounds:
  assumes "distinct (map de_id rs)" "length rs \<le> 5"
  shows "length (addRecent d rs) \<le> 5" "distinct (map de_id (addRecent d rs))" "hd (addRecent d rs) = d"
proof -
  let ?rs = "d # filter (\<lambda>r. de_id r \<noteq> de_id d) rs"
  show "length (addRecent d rs) \<le> 5" "hd (addRecent d rs) = d" by (simp_all add: addRecent_def Let_def numeral_eq_Suc)
  have "distinct (map de_id ?rs)" using assms(1) by (auto simp: distinct_map inj_on_def)
  then have "distinct (take n (map de_id ?rs))" for n by (rule distinct_take)
  then have "distinct (map de_id (take n ?rs))" for n by (simp only: take_map)
  with \<open>distinct (map de_id ?rs)\<close> show "distinct (map de_id (addRecent d rs))"
    unfolding addRecent_def Let_def by (cases "length ?rs > 5") (simp_all only: if_True if_False)
qed

lemma toggleFavorite_twice: "distinct favs \<Longrightarrow> set (toggleFavorite i (toggleFavorite i favs)) = set favs"
  by (auto simp: toggleFavorite_def remove1_append)

text \<open>Without a search every device has its row in its group, in the order of the server.\<close>

lemma row_devices_section: "row_devices (tree_section n ds) = ds"
proof -
  have "row_devices (map DeviceRow ds) = ds" by (induction ds) (simp_all add: row_devices_def)
  then show ?thesis by (simp add: tree_section_def) (simp add: row_devices_def)
qed

lemma row_devices_append: "row_devices (xs @ ys) = row_devices xs @ row_devices ys"
  by (simp add: row_devices_def)

lemma row_devices_groups:
  "row_devices (concat (map (\<lambda>g. tree_section (dg_name g) (filter P (dg_devices g))) gs)) = filter P (concat (map dg_devices gs))"
  by (induction gs) (simp_all add: row_devices_append row_devices_section, simp add: row_devices_def)

lemma find_in: "find P xs = Some x \<Longrightarrow> x \<in> set xs"
  by (induction xs) (auto split: if_splits)

lemma tree_shows_matches:
  "\<exists>fs. row_devices (renderTree searching match favs recents gs) =
     fs @ filter (\<lambda>d. \<not> searching \<or> match (de_host d)) (concat (map dg_devices gs)) \<and>
     set fs \<subseteq> set (concat (map dg_devices gs)) \<and> list_all (\<lambda>d. \<not> searching \<or> match (de_host d)) fs"
proof -
  let ?all = "concat (map dg_devices gs)" and ?P = "\<lambda>d. \<not> searching \<or> match (de_host d)"
  define fav where "fav = filter (\<lambda>d. de_id d \<in> set favs \<and> ?P d) ?all"
  define found where "found = concat (map (\<lambda>r. case find (\<lambda>d. de_id d = de_id r) ?all of Some d \<Rightarrow> [d] | None \<Rightarrow> []) recents)"
  define recent where "recent = (if searching then [] else filter (\<lambda>d. de_id d \<notin> set favs) found)"
  have nil: "row_devices [] = []" by (simp add: row_devices_def)
  have "row_devices (renderTree searching match favs recents gs) = (fav @ recent) @ filter ?P ?all"
    unfolding renderTree_def Let_def row_devices_append row_devices_section row_devices_groups recent_def found_def fav_def
    by (simp add: row_devices_section nil)
  moreover have "set found \<subseteq> set ?all"
    unfolding found_def by (auto split: option.splits dest!: find_in [OF sym])
  then have "set (fav @ recent) \<subseteq> set ?all \<and> list_all ?P (fav @ recent)"
    by (auto simp: fav_def recent_def list_all_iff)
  ultimately show ?thesis by blast
qed

text \<open>The poll of a script ends: with its result, or after the sixty-first attempt, and then the button stays disabled.\<close>

lemma exec_polls_att:
  "ex_polling (fold exec_poll as s) \<Longrightarrow> ex_att (fold exec_poll as s) = ex_att s + length as"
proof (induction as arbitrary: s)
  case (Cons a as)
  have stop: "\<not> ex_polling s' \<Longrightarrow> fold exec_poll bs s' = s'" for bs s'
    by (induction bs) (simp_all add: exec_poll_def)
  have "ex_polling (exec_poll a s)" using Cons.prems stop [of "exec_poll a s" as] by (cases "ex_polling (exec_poll a s)") simp_all
  then have "ex_att (exec_poll a s) = ex_att s + 1"
    by (auto simp: exec_poll_def Let_def split: if_splits option.splits)
  with Cons show ?case by simp
qed simp

lemma script_poll_ends:
  assumes "length as = 61" shows "\<not> ex_polling (fold exec_poll as (exec_start ident status))"
proof
  assume p: "ex_polling (fold exec_poll as (exec_start ident status))"
  have "as \<noteq> []" using assms by auto
  then obtain bs b where as: "as = bs @ [b]" by (cases as rule: rev_cases) auto
  have "ex_polling (fold exec_poll bs (exec_start ident status))"
    using p by (auto simp: as exec_poll_def split: if_splits)
  then have "ex_att (fold exec_poll bs (exec_start ident status)) = 60"
    using exec_polls_att [of bs] assms by (simp add: as exec_start_def)
  then show False using p by (auto simp: as exec_poll_def Let_def split: if_splits)
qed

lemma script_timeout_keeps_button:
  assumes "\<And>a. a \<in> set as \<Longrightarrow> a = None" shows "\<not> ex_button (fold exec_poll as (exec_start ident status))"
proof -
  have "\<not> ex_button s \<Longrightarrow> \<not> ex_button (fold exec_poll as s)" for s
    using assms
  proof (induction as arbitrary: s)
    case (Cons a as)
    have "a = None" using Cons.prems(2) by simp
    then have "\<not> ex_button (exec_poll a s)" using Cons.prems(1) by (simp add: exec_poll_def Let_def)
    with Cons.IH Cons.prems(2) show ?case by simp
  qed simp
  then show ?thesis by (simp add: exec_start_def)
qed

text \<open>Undoing a finished stroke brings back the image before it, unless the overlay was turned off and on in between.\<close>

lemma undo_stroke:
  assumes "an_active s" "an_image s = (if an_history s = [] then blank else last (an_history s))" "t \<noteq> TextTool" "ims \<noteq> []"
  shows "anno_undo blank (anno_up (fold anno_move ims (anno_down t typed s))) = s\<lparr>an_drawing := False\<rparr>"
proof -
  have m: "an_drawing s' \<Longrightarrow> an_active s' \<Longrightarrow> fold anno_move ims s' = s'\<lparr>an_image := (if ims = [] then an_image s' else last ims)\<rparr>" for s'
    by (induction ims arbitrary: s') (simp_all add: anno_move_def)
  show ?thesis using assms m [of "s\<lparr>an_drawing := True\<rparr>"]
    by (simp add: anno_down_def anno_up_def anno_undo_def Let_def)
qed

lemma annotation_lost_on_toggle: "an_active s \<Longrightarrow> an_image (toggleAnnotation blank (toggleAnnotation blank s)) = blank"
  by (simp add: toggleAnnotation_def)

section \<open>Signing in at the server\<close>

lemma posted_login:
  assumes "Option.bind (rq_Body r) (ce_decode e) = Some (JObj [(''serverUrl'', JStr s), (''username'', JStr u)])"
  shows "posted_config e r = (s, u)"
  using assms by (simp add: posted_config_def dec_string_def dec_field_def json_field_def to_lower_def lower_char_def)

text \<open>
  C25. Signing in, from the form through the local server: the first request stores the address and the name of the form, and the
  second, once the first is answered, goes to the login of that very server with the body the page gave it, as the name
  of the form; when the address is another one than before, no cookie of the old server is left. The address loses the
  slash at its end in the page, and any more of them in the local server.
\<close>

theorem login_reaches_typed_server:
  assumes "doLogin field user password remember = Inr [(m1, p1, Some b1), (m2, p2, Some b2)]"
    "rq_Method r1 = m1" "rq_Path r1 = p1" "Option.bind (rq_Body r1) (ce_decode e1) = Some b1"
    "rq_Method r2 = m2" "rq_Path r2 = p2" "rq_Body r2 = Some t2" "rq_Headers r2 = [(''Content-Type'', ''application/json'')]"
    "jar_ok (px_session p)" "ce_url e2 new = Some target" "new \<noteq> []"
    "new = (if server_field field = cc_ServerURL (px_cfg p) then server_field field else trim_right CHR ''/'' (server_field field))"
    "route_of ''/local/config'' = RConfig" "route_of ''/proxy/api/auth/login'' = RProxy"
    "cookie_list (px_session p) = [] \<or> server_field field \<noteq> cc_ServerURL (px_cfg p)"
  shows "\<exists>q. snd (ServeHTTP e2 r2 (fst (ServeHTTP e1 r1 p))) = Ask q FlProxy \<and> uq_Method q = ''POST'' \<and>
    uq_URL q = PartsURL (u_Scheme target) (u_Host target) ''/api/auth/login'' (rq_RawQuery r2) \<and> uq_Body q = BodyText t2 \<and>
    cc_Username (px_cfg (fst (ServeHTTP e1 r1 p))) = js_trim user \<and> cookie_list (px_session (fst (ServeHTTP e1 r1 p))) = []"
proof -
  let ?s = "server_field field"
  have req: "m1 = ''POST''" "p1 = ''/local/config''" "b1 = JObj [(''serverUrl'', JStr ?s), (''username'', JStr (js_trim user))]"
    "m2 = ''POST''" "p2 = ''/proxy/api/auth/login''" "?s \<noteq> []" "js_trim user \<noteq> []"
    using assms(1) by (auto simp: doLogin_def Let_def api_request_def split: if_splits)
  have posted: "posted_config e1 r1 = (?s, js_trim user)" using assms(4) by (intro posted_login) (simp add: req(3))
  define p1' where "p1' = fst (ServeHTTP e1 r1 p)"
  have serve: "ServeHTTP e1 r1 p = handleConfig e1 r1 p"
    by (simp add: ServeHTTP_def mux_def assms(2,3,13) req(1,2))
  have cfg: "cc_ServerURL (px_cfg p1') = new"
    by (simp add: p1'_def serve handleConfig_eq [OF assms(9)] new_server_def posted assms(2,12) req split: option.split)
  have user: "cc_Username (px_cfg p1') = js_trim user"
    by (simp add: p1'_def serve handleConfig_eq [OF assms(9)] new_server_def posted assms(2) req set_user_def saveConfig_def
      split: option.split)
  have ses: "px_session p1' = (if ?s = cc_ServerURL (px_cfg p) then px_session p else fst (clear_session (ce_disk_ses e1) (px_session p)))"
    by (simp add: p1'_def serve handleConfig_eq [OF assms(9)] new_server_def posted assms(2) req split: option.split)
  have empty: "cookie_list (px_session p1') = []"
    using assms(9,15) by (auto simp: ses clear_session_def jar_ok_def)
  have jar: "jar_ok (px_session p1')" using assms(9) by (auto simp: ses clear_session_def jar_ok_def)
  have "inject (px_session p1') (rq_Headers r2) = Some (rq_Headers r2)"
    by (simp add: inject_ok [OF jar] empty inject_cookies_def)
  then have "ServeHTTP e2 r2 p1' = (p1', Ask (proxied target (r2\<lparr>rq_Path := ''/api/auth/login'', rq_Headers := rq_Headers r2\<rparr>)) FlProxy)"
    using cfg assms(5-8,10,11,14) req(4,5)
    by (simp add: ServeHTTP_def mux_def handleProxy_def Let_def hdr_get_def to_lower_def trim_prefix_def has_prefix_def)
  then show ?thesis using user empty assms(5,7) req(4)
    by (simp add: p1'_def [symmetric] proxied_def)
qed

definition login_env :: client_env where
  "login_env =
     \<lparr>ce_decode = (\<lambda>t. if t = ''1'' then Some (JObj [(''serverUrl'', JStr ''h/''), (''username'', JStr ''u'')]) else None),
      ce_unmarshal = (\<lambda>t. None), ce_url = (\<lambda>u. if u = ''h'' then Some \<lparr>u_Scheme = ''https'', u_Host = ''h''\<rparr> else None),
      ce_query = (\<lambda>q. []), ce_disk_cfg = DiskOk, ce_disk_ses = DiskOk, ce_disk_fav = DiskOk, ce_fav_cut = 0\<rparr>"

definition login_request :: "string \<Rightarrow> string \<Rightarrow> request" where
  "login_request path body =
     \<lparr>rq_Method = ''POST'', rq_Path = path, rq_RawQuery = [], rq_Headers = [(''Content-Type'', ''application/json'')], rq_Body = Some body\<rparr>"

lemma login_fields: "js_trim ''h//'' = ''h//''" "js_trim ''u'' = ''u''"
proof -
  have c: "char_of (104 :: nat) = CHR ''h''" "char_of (47 :: nat) = CHR ''/''" "char_of (117 :: nat) = CHR ''u''" by code_simp+
  show "js_trim ''h//'' = ''h//''" "js_trim ''u'' = ''u''"
    by (simp_all add: js_trim_def runes_def seq_length_def valid_seq_def seq_rune_def js_space_def rune_utf8_def c)
qed

lemma login_routes: "route_of ''/local/config'' = RConfig" "route_of ''/proxy/api/auth/login'' = RProxy"
  by code_simp+

theorem login_reaches_typed_server_witness:
  "\<exists>q. snd (ServeHTTP login_env (login_request ''/proxy/api/auth/login'' ''2'')
      (fst (ServeHTTP login_env (login_request ''/local/config'' ''1'') (newProxy None None None 1)))) = Ask q FlProxy \<and>
    uq_URL q = PartsURL ''https'' ''h'' ''/api/auth/login'' [] \<and> uq_Body q = BodyText ''2''"
proof -
  have d: "doLogin ''h//'' ''u'' ''p'' True = Inr [(''POST'', ''/local/config'', Some (JObj [(''serverUrl'', JStr ''h/''), (''username'', JStr ''u'')])),
      (''POST'', ''/proxy/api/auth/login'', Some (JObj [(''username'', JStr ''u''), (''password'', JStr ''p''), (''remember'', JBool True)]))]"
    by (simp add: doLogin_def server_field_def login_fields drop_slash_def api_request_def Let_def)
  have s: "server_field ''h//'' = ''h/''" by (simp add: server_field_def login_fields drop_slash_def)
  have j: "jar_ok (px_session (newProxy None None None 1))" "cookie_list (px_session (newProxy None None None 1)) = []"
    "cc_ServerURL (px_cfg (newProxy None None None 1)) = []"
    by code_simp+
  let ?r1 = "login_request ''/local/config'' ''1''" and ?r2 = "login_request ''/proxy/api/auth/login'' ''2''"
  have r: "rq_Method ?r1 = ''POST''" "rq_Path ?r1 = ''/local/config''" "rq_Method ?r2 = ''POST''"
    "rq_Path ?r2 = ''/proxy/api/auth/login''" "rq_Body ?r2 = Some ''2''" "rq_Headers ?r2 = [(''Content-Type'', ''application/json'')]"
    "rq_RawQuery ?r2 = []"
    by (simp_all add: login_request_def)
  have b: "Option.bind (rq_Body ?r1) (ce_decode login_env) = Some (JObj [(''serverUrl'', JStr ''h/''), (''username'', JStr ''u'')])"
    "ce_url login_env ''h'' = Some \<lparr>u_Scheme = ''https'', u_Host = ''h''\<rparr>"
    by (simp_all add: login_request_def login_env_def)
  have n: "''h'' = (if server_field ''h//'' = cc_ServerURL (px_cfg (newProxy None None None 1)) then server_field ''h//''
      else trim_right CHR ''/'' (server_field ''h//''))"
    unfolding s j(3) by (simp add: trim_right_def)
  have c: "cookie_list (px_session (newProxy None None None 1)) = [] \<or> server_field ''h//'' \<noteq> cc_ServerURL (px_cfg (newProxy None None None 1))"
    using j(2) by (rule disjI1)
  have ne: "''h'' \<noteq> []" by simp
  obtain q where q: "snd (ServeHTTP login_env ?r2 (fst (ServeHTTP login_env ?r1 (newProxy None None None 1)))) = Ask q FlProxy"
    "uq_URL q = PartsURL ''https'' ''h'' ''/api/auth/login'' []" "uq_Body q = BodyText ''2''"
    using login_reaches_typed_server [OF d r(1,2) b(1) r(3-6) j(1) b(2) ne n login_routes c] unfolding r(7) go_url.select_convs
    by metis
  then show ?thesis by blast
qed

end
