(* ===== verification/Chat_Page.thy ===== *)
theory Chat_Page
  imports Chat_Window_Props Page_Chat
begin

text \<open>
  The page of the user's chat window (agent/chat_windows.go, buildChatHTML): the text it is built from, its script, and
  the helper around it. A call of a Go function reaches the helper at once; a script of the helper is evaluated later, in
  the order of the helper's queue; what minimising and restoring do to the window runs in goroutines, in any order.
\<close>

section \<open>The text of the page\<close>

text \<open>
  \<open>fmt.Sprintf\<close> for strings and the verbs of the source, \<open>%s\<close> and \<open>%%\<close>: an argument too few or too many is reported in the text.
  \<open>None\<close> stands for other verbs.
\<close>

definition extra_args :: "string list \<Rightarrow> string" where
  "extra_args args =
     (case args of [] \<Rightarrow> []
      | a # as \<Rightarrow> ''%!(EXTRA string='' @ a @ concat (map (\<lambda>x. '', string='' @ x) as) @ '')'')"

fun go_sprintf :: "string \<Rightarrow> string list \<Rightarrow> string option" where
  "go_sprintf [] args = Some (extra_args args)"
| "go_sprintf (c # cs) args =
     (if c \<noteq> CHR ''%'' then map_option (\<lambda>t. c # t) (go_sprintf cs args)
      else (case cs of
              [] \<Rightarrow> Some (''%!(NOVERB)'' @ extra_args args)
            | v # cs' \<Rightarrow>
                if v = CHR ''%'' then map_option (\<lambda>t. CHR ''%'' # t) (go_sprintf cs' args)
                else if v = CHR ''s'' then
                  (case args of
                     [] \<Rightarrow> map_option (\<lambda>t. ''%!s(MISSING)'' @ t) (go_sprintf cs' [])
                   | a # as \<Rightarrow> map_option (\<lambda>t. a @ t) (go_sprintf cs' as))
                else None))"

text \<open>
  The picture of the operator, large and small: the first letter of the name in a circle, or an image; \<open>style\<close> stands for
  the constant text between the first style and the letter.
\<close>

definition quoted :: "string \<Rightarrow> string" where
  "quoted s = [CHR 0x22] @ s @ [CHR 0x22]"

definition letter_avatar :: "string \<Rightarrow> string \<Rightarrow> string" where
  "letter_avatar style letter = ''<div style='' @ quoted style @ ''>'' @ letter @ ''</span></div>''"

definition image_avatar :: "nat \<Rightarrow> string \<Rightarrow> string" where
  "image_avatar width avatar =
     (let px = (if width = 32 then ''32px'' else ''28px'') in
      ''<img src='' @ quoted avatar @ '' style='' @
        quoted (''width:'' @ px @ '';height:'' @ px @ '';border-radius:50%;object-fit:cover;flex-shrink:0'') @ '' />'')"

definition chat_avatars :: "bool \<Rightarrow> string \<Rightarrow> string \<Rightarrow> string \<Rightarrow> (string \<times> string) option" where
  "chat_avatars spare style operatorName operatorAvatar =
     (case first_rune spare (runes operatorName) of
        None \<Rightarrow> None
      | Some rs \<Rightarrow>
          (let l = letter_avatar style (concat (map rune_utf8 rs)) in
           if operatorAvatar \<noteq> [] then Some (image_avatar 32 operatorAvatar, image_avatar 28 operatorAvatar) else Some (l, l)))"

text \<open>
  The format: the name of the operator and the texts of the language are part of it, and its four verbs take the pictures and the
  initials. \<open>part\<close> stands for the constant text between two insertions, with its percent signs doubled.
\<close>

definition i18n_text :: "(string \<times> string) list \<Rightarrow> string \<Rightarrow> string" where
  "i18n_text tr k = (case map_of tr k of None \<Rightarrow> [] | Some t \<Rightarrow> t)"

definition chat_format :: "(nat \<Rightarrow> string) \<Rightarrow> (string \<times> string) list \<Rightarrow> string \<Rightarrow> string" where
  "chat_format part tr operatorName =
     part 0 @ ''%s'' @ part 1 @ i18n_text tr ''chattingWith'' @ '' '' @ operatorName @ ''</p>'' @
     part 2 @ i18n_text tr ''online'' @ ''</span>'' @ part 3 @ ''%s'' @ part 4 @
     i18n_text tr ''remoteRequested'' @ part 5 @
     ''addSystemMessage('' @ [squote] @ i18n_text tr ''remoteGranted'' @ [squote] @ '')'' @ part 6 @ i18n_text tr ''allow'' @ part 7 @
     ''addSystemMessage('' @ [squote] @ i18n_text tr ''remoteDenied'' @ [squote] @ '')'' @ part 8 @ i18n_text tr ''deny'' @ part 9 @
     i18n_text tr ''yourMessage'' @ part 10 @
     ''const opAvatarSmall = '' @ [squote] @ ''%s'' @ [squote] @ '';'' @ [CHR 0x0A] @
     ''const userInitials = '' @ [squote] @ ''%s'' @ [squote] @ '';'' @ part 11"

definition buildChatHTML ::
  "(nat \<Rightarrow> string) \<Rightarrow> bool \<Rightarrow> string \<Rightarrow> string \<Rightarrow> string \<Rightarrow> string \<Rightarrow> (string \<times> string) list \<Rightarrow> string option" where
  "buildChatHTML part spare style operatorName operatorAvatar userInitials tr =
     (case chat_avatars spare style operatorName operatorAvatar of
        None \<Rightarrow> None
      | Some (large, small) \<Rightarrow> go_sprintf (chat_format part tr operatorName) [large, small, small, userInitials])"

section \<open>The script of the page\<close>

datatype window_call = Bound page_call | Minimize | Restore

record window_page =
  wp_avatar :: string
  wp_initials :: string
  wp_minimized :: bool
  wp_unread :: nat
  wp_badge :: bool
  wp_class :: bool
  wp_typing :: bool
  wp_timer :: "int option"
  wp_lastTyping :: int
  wp_rows :: "(string \<times> string) list"
  wp_after :: "string list"
  wp_panel :: bool
  wp_request :: string
  wp_input :: string
  wp_calls :: "window_call list"

definition new_window_page :: "string \<Rightarrow> string \<Rightarrow> string \<Rightarrow> window_page" where
  "new_window_page avatar initials request =
     \<lparr>wp_avatar = avatar, wp_initials = initials, wp_minimized = False, wp_unread = 0, wp_badge = False, wp_class = False,
      wp_typing = False, wp_timer = None, wp_lastTyping = 0, wp_rows = [], wp_after = [], wp_panel = False, wp_request = request,
      wp_input = [], wp_calls = []\<rparr>"

definition call_go :: "window_call \<Rightarrow> window_page \<Rightarrow> window_page" where
  "call_go c p = p\<lparr>wp_calls := wp_calls p @ [c]\<rparr>"

definition sendMsg :: "window_page \<Rightarrow> window_page" where
  "sendMsg p = (let text = js_trim (wp_input p) in if text = [] then p else call_go (Bound (PageSend text)) (p\<lparr>wp_input := []\<rparr>))"

text \<open>The typing indicator goes away three seconds after the last sign; \<open>typing_timeout\<close> is the timer's function.\<close>

definition showTyping :: "int \<Rightarrow> window_page \<Rightarrow> window_page" where
  "showTyping now p = p\<lparr>wp_typing := True, wp_timer := Some (now + 3000)\<rparr>"

definition typing_timeout :: "int \<Rightarrow> window_page \<Rightarrow> window_page" where
  "typing_timeout now p =
     (case wp_timer p of
        None \<Rightarrow> p
      | Some t \<Rightarrow> if t \<le> now then p\<lparr>wp_typing := False, wp_timer := None\<rparr> else p)"

definition hideTyping :: "window_page \<Rightarrow> window_page" where
  "hideTyping p = p\<lparr>wp_timer := None, wp_typing := False\<rparr>"

definition emitTyping :: "int \<Rightarrow> window_page \<Rightarrow> window_page" where
  "emitTyping now p =
     (if now - wp_lastTyping p < 2000 then p else call_go (Bound PageTyping) (p\<lparr>wp_lastTyping := now\<rparr>))"

definition escHtml :: "string \<Rightarrow> string" where
  "escHtml s = replace_char (CHR ''>'') ''&gt;'' (replace_char (CHR ''<'') ''&lt;'' (replace_char (CHR ''&'') ''&amp;'' s))"

definition minimizeChat :: "window_page \<Rightarrow> window_page" where
  "minimizeChat p = call_go Minimize (p\<lparr>wp_minimized := True, wp_class := True\<rparr>)"

definition restoreChat :: "window_page \<Rightarrow> window_page" where
  "restoreChat p = call_go Restore (p\<lparr>wp_minimized := False, wp_unread := 0, wp_class := False, wp_badge := False\<rparr>)"

definition op_row :: "string \<Rightarrow> string \<Rightarrow> string" where
  "op_row avatar text = ''<div class='' @ quoted ''avatar op'' @ ''>'' @ avatar @ ''</div>'' @
     ''<div class='' @ quoted ''bubble op'' @ ''>'' @ escHtml text @ ''</div>''"

definition user_row :: "string \<Rightarrow> string \<Rightarrow> string" where
  "user_row initials text = ''<div class='' @ quoted ''bubble user'' @ ''>'' @ escHtml text @ ''</div>'' @
     ''<div class='' @ quoted ''avatar user'' @ ''><span>'' @ initials @ ''</span></div>''"

text \<open>\<open>addMessage\<close> puts the row before the typing indicator, \<open>addSystemMessage\<close> behind it.\<close>

definition addMessage :: "string \<Rightarrow> string \<Rightarrow> bool \<Rightarrow> window_page \<Rightarrow> window_page" where
  "addMessage text initials isOp p =
     (let p1 = if isOp then hideTyping p else p;
          row = (''msg-row '' @ (if isOp then [] else ''user''),
                 if isOp then op_row (wp_avatar p1) text else user_row (if initials \<noteq> [] then initials else wp_initials p1) text);
          p2 = p1\<lparr>wp_rows := wp_rows p1 @ [row]\<rparr>
      in if wp_minimized p2 \<and> isOp then restoreChat p2 else p2)"

definition addSystemMessage :: "string \<Rightarrow> window_page \<Rightarrow> window_page" where
  "addSystemMessage text p =
     p\<lparr>wp_after := wp_after p @ [''<div class='' @ quoted ''bubble system'' @ ''>'' @ escHtml text @ ''</div>'']\<rparr>"

definition showRemoteRequest :: "string \<Rightarrow> window_page \<Rightarrow> window_page" where
  "showRemoteRequest msg p =
     (let p1 = if wp_minimized p then restoreChat p else p
      in p1\<lparr>wp_request := if msg \<noteq> [] then msg else ''Remote control access requested.'', wp_panel := True\<rparr>)"

definition answer_click :: "(string \<times> string) list \<Rightarrow> bool \<Rightarrow> window_page \<Rightarrow> window_page" where
  "answer_click tr allow p =
     addSystemMessage (i18n_text tr (if allow then ''remoteGranted'' else ''remoteDenied''))
       ((call_go (Bound (if allow then PageAllow else PageDeny)) p)\<lparr>wp_panel := False\<rparr>)"

section \<open>The scripts of the helper\<close>

text \<open>
  A script of the helper in the page: the calls it is made of, with the values of their literals. \<open>None\<close> stands for a text that is
  not one of these calls, such as one that ends inside a literal; the page is then left as it is.
\<close>

definition js_literal :: "string \<Rightarrow> (string \<times> string) option" where
  "js_literal s =
     (case js_span s of None \<Rightarrow> None
      | Some (l, rest) \<Rightarrow> (case js_value l of None \<Rightarrow> None | Some v \<Rightarrow> Some (v, rest)))"

definition strip :: "string \<Rightarrow> string \<Rightarrow> string option" where
  "strip pre s = (if has_prefix s pre then Some (drop (length pre) s) else None)"

definition add_call :: "string \<Rightarrow> (string \<times> string \<times> bool) option" where
  "add_call s =
     (case Option.bind (strip (''addMessage('' @ [squote]) s) js_literal of
        None \<Rightarrow> None
      | Some (text, rest) \<Rightarrow>
          (case Option.bind (strip ('', '' @ [squote]) rest) js_literal of
             None \<Rightarrow> None
           | Some (initials, rest') \<Rightarrow>
               if rest' = '', false)'' then Some (text, initials, False)
               else if rest' = '', true)'' \<or> rest' = '', true); playSound()'' then Some (text, initials, True)
               else None))"

definition request_call :: "string \<Rightarrow> string option" where
  "request_call s =
     (case Option.bind (strip (''showRemoteRequest('' @ [squote]) s) js_literal of
        None \<Rightarrow> None
      | Some (msg, rest) \<Rightarrow> if rest = '')'' then Some msg else None)"

definition run_script :: "int \<Rightarrow> string \<Rightarrow> window_page \<Rightarrow> window_page option" where
  "run_script now s p =
     (if s = ''showTyping()'' then Some (showTyping now p)
      else (case add_call s of
              Some (text, initials, isOp) \<Rightarrow> Some (addMessage text initials isOp p)
            | None \<Rightarrow> map_option (\<lambda>msg. showRemoteRequest msg p) (request_call s)))"

section \<open>Page, helper and window\<close>

text \<open>
  \<open>cx_next\<close> is the number of scripts that were evaluated. The calls of the page that the helper has not had are none: a call is
  made at once. \<open>cx_jobs\<close> are the goroutines that are to shrink or restore the window (\<open>True\<close>: shrink).
\<close>

record chat_window =
  cx_page :: window_page
  cx_helper :: chat_helper
  cx_next :: nat
  cx_jobs :: "bool list"
  cx_win :: chat_win

fun go_call :: "string \<Rightarrow> chat_window \<Rightarrow> window_call \<Rightarrow> chat_window" where
  "go_call display x (Bound c) = x\<lparr>cx_helper := chat_helper_step display (cx_helper x) (FromPage c)\<rparr>"
| "go_call display x Minimize = x\<lparr>cx_jobs := cx_jobs x @ [True]\<rparr>"
| "go_call display x Restore = x\<lparr>cx_jobs := cx_jobs x @ [False]\<rparr>"

definition page_does :: "string \<Rightarrow> (window_page \<Rightarrow> window_page) \<Rightarrow> chat_window \<Rightarrow> chat_window" where
  "page_does display f x =
     (let p = f ((cx_page x)\<lparr>wp_calls := []\<rparr>)
      in foldl (go_call display) (x\<lparr>cx_page := p\<lparr>wp_calls := []\<rparr>\<rparr>) (wp_calls p))"

definition run_job :: "bool \<Rightarrow> int \<times> int \<Rightarrow> bool \<Rightarrow> chat_win \<Rightarrow> chat_win" where
  "run_job region wa job w = (if job then goMinimizeChat True region wa w else goRestoreChat True region wa w)"

datatype window_event =
    TypeKey string int
  | SendClick
  | MinimizeClick
  | BubbleClick
  | CloseClick
  | AnswerClick bool
  | TimerFires int
  | PipeMessage "(chat_pipe_type \<times> json option) option"
  | RunScript int
  | WindowJob nat bool

definition window_step ::
  "string \<Rightarrow> (string \<times> string) list \<Rightarrow> int \<times> int \<Rightarrow> chat_window \<Rightarrow> window_event \<Rightarrow> chat_window" where
  "window_step display tr wa x e =
     (case e of
        TypeKey text now \<Rightarrow> page_does display (\<lambda>p. emitTyping now (p\<lparr>wp_input := text\<rparr>)) x
      | SendClick \<Rightarrow> page_does display sendMsg x
      | MinimizeClick \<Rightarrow> page_does display minimizeChat x
      | BubbleClick \<Rightarrow> page_does display restoreChat x
      | CloseClick \<Rightarrow> page_does display (call_go (Bound PageClose)) x
      | AnswerClick allow \<Rightarrow> if wp_panel (cx_page x) then page_does display (answer_click tr allow) x else x
      | TimerFires now \<Rightarrow> page_does display (typing_timeout now) x
      | PipeMessage m \<Rightarrow> x\<lparr>cx_helper := chat_helper_step display (cx_helper x) (FromPipe m)\<rparr>
      | RunScript now \<Rightarrow>
          if cx_next x < length (hp_scripts (cx_helper x)) then
            page_does display (\<lambda>p. case run_script now (hp_scripts (cx_helper x) ! cx_next x) p of None \<Rightarrow> p | Some q \<Rightarrow> q)
              (x\<lparr>cx_next := cx_next x + 1\<rparr>)
          else x
      | WindowJob k region \<Rightarrow>
          if k < length (cx_jobs x) then
            x\<lparr>cx_win := run_job region wa (cx_jobs x ! k) (cx_win x), cx_jobs := take k (cx_jobs x) @ drop (Suc k) (cx_jobs x)\<rparr>
          else x)"

end
