(* ===== verification/Chat_Page_Props.thy ===== *)
theory Chat_Page_Props
  imports Chat_Page
begin

text \<open>
  Properties of the user's chat window as a whole: what an operator's message looks like in the page, the sign of typing, the
  size of the window, and the text of the page.
\<close>

section \<open>Escaped text\<close>

text \<open>The text of a piece of HTML without tags: the three entities of the escape stand for their characters.\<close>

fun html_text :: "string \<Rightarrow> string option" where
  "html_text [] = Some []"
| "html_text (c # cs) =
     (if c = CHR ''<'' then None
      else if c \<noteq> CHR ''&'' then map_option (\<lambda>t. c # t) (html_text cs)
      else if has_prefix cs ''amp;'' then map_option (\<lambda>t. CHR ''&'' # t) (html_text (drop 4 cs))
      else if has_prefix cs ''lt;'' then map_option (\<lambda>t. CHR ''<'' # t) (html_text (drop 3 cs))
      else if has_prefix cs ''gt;'' then map_option (\<lambda>t. CHR ''>'' # t) (html_text (drop 3 cs))
      else None)"

definition html_char :: "char \<Rightarrow> string" where
  "html_char c = (if c = CHR ''&'' then ''&amp;'' else if c = CHR ''<'' then ''&lt;'' else if c = CHR ''>'' then ''&gt;'' else [c])"

lemma escHtml_simps [simp]: "escHtml [] = []" "escHtml (c # s) = html_char c @ escHtml s"
  by (simp_all add: escHtml_def html_char_def)

lemma escHtml_text: "html_text (escHtml s) = Some s"
  by (induction s) (simp_all add: html_char_def has_prefix_def)

section \<open>Calls of the page\<close>

definition jobs_of :: "window_call list \<Rightarrow> bool list" where
  "jobs_of cs = concat (map (\<lambda>c. case c of Bound _ \<Rightarrow> [] | Minimize \<Rightarrow> [True] | Restore \<Rightarrow> [False]) cs)"

lemma jobs_of_simps [simp]:
  "jobs_of [] = []" "jobs_of (c # cs) = (case c of Bound _ \<Rightarrow> [] | Minimize \<Rightarrow> [True] | Restore \<Rightarrow> [False]) @ jobs_of cs"
  "jobs_of (cs @ ds) = jobs_of cs @ jobs_of ds"
  by (simp_all add: jobs_of_def)

definition calls_of :: "window_call list \<Rightarrow> page_call list" where
  "calls_of cs = concat (map (\<lambda>c. case c of Bound d \<Rightarrow> [d] | _ \<Rightarrow> []) cs)"

lemma calls_of_simps [simp]:
  "calls_of [] = []" "calls_of (c # cs) = (case c of Bound d \<Rightarrow> [d] | _ \<Rightarrow> []) @ calls_of cs"
  "calls_of (cs @ ds) = calls_of cs @ calls_of ds"
  by (simp_all add: calls_of_def)

lemma go_calls:
  "foldl (go_call display) x cs =
     x\<lparr>cx_helper := page_run display (cx_helper x) (calls_of cs), cx_jobs := cx_jobs x @ jobs_of cs\<rparr>"
proof (induction cs arbitrary: x)
  case (Cons c cs)
  then show ?case by (cases c) (simp_all add: page_run_def)
qed (simp add: page_run_def)

lemma page_does_eq:
  "page_does display f x =
     (let p = f ((cx_page x)\<lparr>wp_calls := []\<rparr>)
      in x\<lparr>cx_page := p\<lparr>wp_calls := []\<rparr>, cx_helper := page_run display (cx_helper x) (calls_of (wp_calls p)),
           cx_jobs := cx_jobs x @ jobs_of (wp_calls p)\<rparr>)"
  by (simp add: page_does_def go_calls Let_def)

lemmas page_ops = sendMsg_def showTyping_def typing_timeout_def hideTyping_def emitTyping_def minimizeChat_def restoreChat_def
  addMessage_def addSystemMessage_def showRemoteRequest_def answer_click_def call_go_def Let_def

section \<open>A message of the operator\<close>

lemma add_call_operator:
  "CHR 0x0D \<notin> set t \<Longrightarrow> add_call (operator_script t) = Some (t, [], True)"
proof -
  assume t: "CHR 0x0D \<notin> set t"
  have "strip (''addMessage('' @ [squote]) (operator_script t) =
      Some (js_text t @ squote # ('', '' @ [squote, squote] @ '', true); playSound()''))"
    by (simp add: strip_def operator_script_def has_prefix_def)
  moreover have "js_literal (js_text t @ squote # r) = Some (t, r)" for r
    using js_span_text [OF t, of r] by (simp add: js_literal_def js_value_text)
  moreover have "strip ('', '' @ [squote]) ('', '' @ [squote, squote] @ '', true); playSound()'') = Some (squote # '', true); playSound()'')"
    by (simp add: strip_def has_prefix_def)
  ultimately show ?thesis by (simp add: add_call_def js_literal_def)
qed

lemma run_operator_script:
  "CHR 0x0D \<notin> set t \<Longrightarrow> run_script now (operator_script t) p = Some (addMessage t [] True p)"
  by (simp add: run_script_def add_call_operator) (simp add: operator_script_def)

text \<open>
  C30. A message of the operator, without carriage return, is shown in the user's window as it was written: the script of the
  helper puts one row behind the others, before the sign of typing, whose text is the message, whatever markup it has in
  it; the sign of typing goes away, and a window that was minimised is restored.
\<close>

theorem operator_message_displayed:
  assumes "\<not> hp_closed (cx_helper x)" "hp_reading (cx_helper x)" "cx_next x = length (hp_scripts (cx_helper x))"
    "CHR 0x0D \<notin> set text"
    "y = foldl (window_step display tr wa) x [PipeMessage (Some (ChatMsg, Some (operator_message name text ts))), RunScript now]"
  shows "wp_rows (cx_page y) = wp_rows (cx_page x) @
      [(''msg-row '', ''<div class='' @ quoted ''avatar op'' @ ''>'' @ wp_avatar (cx_page x) @ ''</div>'' @
         ''<div class='' @ quoted ''bubble op'' @ ''>'' @ escHtml text @ ''</div>'')] \<and>
    html_text (escHtml text) = Some text \<and> \<not> wp_typing (cx_page y) \<and> \<not> wp_minimized (cx_page y) \<and>
    cx_jobs y = cx_jobs x @ (if wp_minimized (cx_page x) then [False] else []) \<and> cx_next y = length (hp_scripts (cx_helper y))"
proof -
  let ?h = "helper_eval (cx_helper x) (operator_script text)"
  have h: "chat_helper_step display (cx_helper x) (FromPipe (Some (ChatMsg, Some (operator_message name text ts)))) = ?h"
    using assms(1,2) by (simp add: chat_helper_step_def show_message_def dec_operator_message)
  have "y = page_does display (addMessage text [] True) (x\<lparr>cx_helper := ?h, cx_next := cx_next x + 1\<rparr>)"
    unfolding assms(5) using assms(3,4)
    by (simp add: window_step_def h) (simp add: helper_eval_def run_operator_script)
  then show ?thesis
    using assms(3) by (simp add: page_does_eq page_ops escHtml_text page_run_def helper_eval_def op_row_def)
qed

section \<open>The window and the page\<close>

text \<open>An operation of the page that changes whether it is minimised says so last.\<close>

definition tells :: "(window_page \<Rightarrow> window_page) \<Rightarrow> bool" where
  "tells f \<longleftrightarrow> (\<forall>p. wp_calls p = [] \<longrightarrow>
     (let q = f p; js = jobs_of (wp_calls q) in if js = [] then wp_minimized q = wp_minimized p else wp_minimized q = last js))"

lemma tells_ops:
  "tells (\<lambda>p. emitTyping now (p\<lparr>wp_input := text\<rparr>))" "tells sendMsg" "tells minimizeChat" "tells restoreChat"
  "tells (call_go (Bound c))" "tells (answer_click tr allow)" "tells (typing_timeout now)" "tells (addMessage text initials isOp)"
  "tells (showTyping now)" "tells (showRemoteRequest msg)" "tells (\<lambda>p. p)"
  by (auto simp: tells_def page_ops split: option.splits)

lemma tells_script: "tells (\<lambda>p. case run_script now s p of None \<Rightarrow> p | Some q \<Rightarrow> q)"
proof (cases "s = ''showTyping()''")
  case True
  then show ?thesis using tells_ops(9) [of now] by (simp add: run_script_def)
next
  case False
  then show ?thesis
    using tells_ops(8,10,11)
    by (cases "add_call s"; cases "request_call s") (auto simp: run_script_def split: prod.splits)
qed

definition chat_rect :: "int \<times> int \<Rightarrow> bool \<Rightarrow> int \<times> int \<times> int \<times> int" where
  "chat_rect wa small = (if small then (fst wa - 76, snd wa - 76, 56, 56) else (fst wa - 396, snd wa - 536, 380, 520))"

definition follows :: "int \<times> int \<Rightarrow> chat_window \<Rightarrow> bool" where
  "follows wa x \<longleftrightarrow>
     (if cx_jobs x = [] then cw_rect (cx_win x) = chat_rect wa (wp_minimized (cx_page x))
      else last (cx_jobs x) = wp_minimized (cx_page x))"

lemma page_does_follows: "tells f \<Longrightarrow> follows wa x \<Longrightarrow> follows wa (page_does display f x)"
proof -
  assume f: "tells f" and x: "follows wa x"
  let ?p = "(cx_page x)\<lparr>wp_calls := []\<rparr>"
  have "if jobs_of (wp_calls (f ?p)) = [] then wp_minimized (f ?p) = wp_minimized (cx_page x)
      else wp_minimized (f ?p) = last (jobs_of (wp_calls (f ?p)))"
    using f unfolding tells_def by (auto dest!: spec [of _ ?p] simp: Let_def)
  with x show ?thesis by (auto simp: follows_def page_does_eq Let_def split: if_splits)
qed

lemma run_job_rect: "cw_rect (run_job region wa job w) = chat_rect wa job"
  by (simp add: run_job_def goMinimizeChat_def goRestoreChat_def place_def full_place_def chat_rect_def)

definition in_turn :: "window_event \<Rightarrow> bool" where
  "in_turn e \<longleftrightarrow> (case e of WindowJob k _ \<Rightarrow> k = 0 | _ \<Rightarrow> True)"

lemma follows_helper [simp]: "follows wa (x\<lparr>cx_helper := h\<rparr>) = follows wa x" "follows wa (x\<lparr>cx_next := n\<rparr>) = follows wa x"
  by (simp_all add: follows_def)

lemma window_step_follows: "in_turn e \<Longrightarrow> follows wa x \<Longrightarrow> follows wa (window_step display tr wa x e)"
proof (cases e)
  case (WindowJob k region)
  assume e: "in_turn e" and x: "follows wa x"
  then have k: "k = 0" using WindowJob by (simp add: in_turn_def)
  show ?thesis
    using x k WindowJob by (cases "cx_jobs x") (auto simp: window_step_def follows_def run_job_rect)
qed (auto simp: window_step_def intro!: page_does_follows tells_ops tells_script)

lemma window_run_follows: "list_all in_turn es \<Longrightarrow> follows wa x \<Longrightarrow> follows wa (foldl (window_step display tr wa) x es)"
  by (induction es arbitrary: x) (simp_all add: window_step_follows)

text \<open>
  C31. As long as the goroutines that shrink and restore the window run in the order they were started, the window that has none
  left is a bubble exactly when the page is minimised, whatever the user and the operator did. Nothing keeps them in
  that order: when the user minimises and restores, and the second goroutine runs first, the window stays a bubble
  with the whole page in it.
\<close>

theorem window_follows_page:
  assumes "cx_jobs x = []" "cw_rect (cx_win x) = chat_rect wa (wp_minimized (cx_page x))" "list_all in_turn es"
    "y = foldl (window_step display tr wa) x es" "cx_jobs y = []"
    "z = foldl (window_step display tr wa) x [MinimizeClick, BubbleClick, WindowJob 1 True, WindowJob 0 True]"
  shows "cw_rect (cx_win y) = chat_rect wa (wp_minimized (cx_page y)) \<and>
    cx_jobs z = [] \<and> \<not> wp_minimized (cx_page z) \<and> cw_rect (cx_win z) = chat_rect wa True"
proof (intro conjI)
  have "follows wa x" using assms(1,2) by (simp add: follows_def)
  then have "follows wa y" unfolding assms(4) by (rule window_run_follows [OF assms(3)])
  with assms(5) show "cw_rect (cx_win y) = chat_rect wa (wp_minimized (cx_page y))" by (simp add: follows_def)
  show "cx_jobs z = []" "\<not> wp_minimized (cx_page z)" "cw_rect (cx_win z) = chat_rect wa True"
    unfolding assms(6) using assms(1) by (simp_all add: window_step_def page_does_eq page_ops run_job_rect)
qed

section \<open>The sign of typing\<close>

lemma spaced_next:
  assumes "cs = [] \<or> (set cs = {b} \<and> (l :: int) \<le> x \<and> 2000 * (int (length cs) - 1) \<le> l - h)" "2000 \<le> t - l" "h \<le> t"
  shows "set (cs @ [b]) = {b}" "2000 * (int (length (cs @ [b])) - 1) \<le> t - h"
  using assms by (elim disjE; simp)+

lemma typing_count:
  "sorted ts \<Longrightarrow> p = foldl (\<lambda>p t. emitTyping t p) p0 ts \<Longrightarrow> ts \<noteq> [] \<Longrightarrow> wp_calls p0 = [] \<Longrightarrow>
     wp_calls p = [] \<or>
     (set (wp_calls p) = {Bound PageTyping} \<and> wp_lastTyping p \<le> last ts \<and>
      2000 * (int (length (wp_calls p)) - 1) \<le> wp_lastTyping p - hd ts)"
proof (induction ts arbitrary: p rule: rev_induct)
  case (snoc t ts)
  show ?case
  proof (cases "ts = []")
    case True
    with snoc.prems show ?thesis by (simp add: emitTyping_def call_go_def)
  next
    case False
    define q where "q = foldl (\<lambda>p t. emitTyping t p) p0 ts"
    have ih: "wp_calls q = [] \<or>
     (set (wp_calls q) = {Bound PageTyping} \<and> wp_lastTyping q \<le> last ts \<and>
      2000 * (int (length (wp_calls q)) - 1) \<le> wp_lastTyping q - hd ts)"
      using snoc.prems(1,4) by (intro snoc.IH [OF _ q_def False]) (simp_all add: sorted_append)
    have t: "last ts \<le> t" "hd ts \<le> t" using snoc.prems(1) False by (simp_all add: sorted_append)
    have ends: "hd (ts @ [t]) = hd ts" "last (ts @ [t]) = t" using False by simp_all
    have p: "p = emitTyping t q" using snoc.prems(2) by (simp add: q_def)
    show ?thesis unfolding ends p
    proof (cases "t - wp_lastTyping q < 2000")
      case True
      then have "emitTyping t q = q" by (simp add: emitTyping_def)
      with ih t(1) show "wp_calls (emitTyping t q) = [] \<or> set (wp_calls (emitTyping t q)) = {Bound PageTyping} \<and>
        wp_lastTyping (emitTyping t q) \<le> t \<and>
        2000 * (int (length (wp_calls (emitTyping t q))) - 1) \<le> wp_lastTyping (emitTyping t q) - hd ts" by (simp only:) linarith
    next
      case far: False
      then have "wp_calls (emitTyping t q) = wp_calls q @ [Bound PageTyping]" "wp_lastTyping (emitTyping t q) = t"
        by (simp_all add: emitTyping_def call_go_def)
      moreover have "2000 \<le> t - wp_lastTyping q" using far by simp
      ultimately show "wp_calls (emitTyping t q) = [] \<or> set (wp_calls (emitTyping t q)) = {Bound PageTyping} \<and>
        wp_lastTyping (emitTyping t q) \<le> t \<and>
        2000 * (int (length (wp_calls (emitTyping t q))) - 1) \<le> wp_lastTyping (emitTyping t q) - hd ts"
        using spaced_next [OF ih _ t(2)] by (simp only: simp_thms order_refl)
    qed
  qed
qed simp

lemma spaced_count: "2000 * (n - 1) \<le> (d :: int) \<Longrightarrow> n \<le> 1 + d div 2000"
  using zdiv_mono1 [of "2000 * (n - 1)" d 2000] by simp

text \<open>
  The page tells of typing at most once in two seconds, however fast the user types, as long as the clock does not go back.
\<close>

lemma typing_bounded:
  assumes "sorted ts" "ts \<noteq> []" "wp_calls p0 = []"
  shows "int (length (wp_calls (foldl (\<lambda>p t. emitTyping t p) p0 ts))) \<le> 1 + (last ts - hd ts) div 2000"
proof -
  have "hd ts \<le> last ts" using assms(1,2) by (cases ts) auto
  moreover have "2000 * (int (length (wp_calls (foldl (\<lambda>p t. emitTyping t p) p0 ts))) - 1) \<le> last ts - hd ts"
    using typing_count [OF assms(1) refl assms(2,3)] calculation by (elim disjE) simp_all
  ultimately show ?thesis by (intro spaced_count)
qed

section \<open>The badge\<close>

definition unseen :: "window_page \<Rightarrow> bool" where
  "unseen p \<longleftrightarrow> wp_unread p = 0 \<and> \<not> wp_badge p \<and> wp_class p = wp_minimized p"

lemma unseen_ops:
  "unseen p \<Longrightarrow> unseen (emitTyping now (p\<lparr>wp_input := text\<rparr>))" "unseen p \<Longrightarrow> unseen (sendMsg p)"
  "unseen p \<Longrightarrow> unseen (minimizeChat p)" "unseen p \<Longrightarrow> unseen (restoreChat p)" "unseen p \<Longrightarrow> unseen (call_go c p)"
  "unseen p \<Longrightarrow> unseen (answer_click tr allow p)" "unseen p \<Longrightarrow> unseen (typing_timeout now p)"
  "unseen p \<Longrightarrow> unseen (addMessage t initials isOp p)" "unseen p \<Longrightarrow> unseen (showTyping now p)"
  "unseen p \<Longrightarrow> unseen (showRemoteRequest msg p)" "unseen (p\<lparr>wp_calls := cs\<rparr>) = unseen p"
  by (simp_all add: unseen_def page_ops split: option.split)

lemma unseen_script: "unseen p \<Longrightarrow> unseen (case run_script now s p of None \<Rightarrow> p | Some q \<Rightarrow> q)"
  by (auto simp: run_script_def unseen_ops split: option.splits)

lemma unseen_does: "(\<And>p. unseen p \<Longrightarrow> unseen (f p)) \<Longrightarrow> unseen (cx_page x) \<Longrightarrow> unseen (cx_page (page_does display f x))"
  by (simp add: page_does_eq Let_def unseen_ops)

text \<open>The number of unread messages is never counted and its badge never shown; the class of the page is its state.\<close>

lemma unread_badge_never_shown:
  "unseen (cx_page x) \<Longrightarrow> unseen (cx_page (foldl (window_step display tr wa) x es))"
proof (induction es arbitrary: x)
  case (Cons e es)
  have "unseen (cx_page (window_step display tr wa x e))"
    using Cons.prems by (cases e) (auto simp: window_step_def intro!: unseen_does unseen_ops unseen_script)
  with Cons.IH show ?case by simp
qed simp

section \<open>The text of the page\<close>

definition double_pct :: "string \<Rightarrow> string" where
  "double_pct = replace_char (CHR ''%'') ''%%''"

lemma sprintf_plain: "CHR ''%'' \<notin> set t \<Longrightarrow> go_sprintf (t @ f) args = map_option (\<lambda>r. t @ r) (go_sprintf f args)"
  by (cases "go_sprintf f args"; induction t) auto

lemma sprintf_doubled: "go_sprintf (double_pct t @ f) args = map_option (\<lambda>r. t @ r) (go_sprintf f args)"
  by (cases "go_sprintf f args"; induction t) (auto simp: double_pct_def)

lemma sprintf_string: "go_sprintf (''%s'' @ f) (a # args) = map_option (\<lambda>r. a @ r) (go_sprintf f args)"
  "go_sprintf (''%s'' @ f) [] = map_option (\<lambda>r. ''%!s(MISSING)'' @ r) (go_sprintf f [])"
  by (cases "go_sprintf f []"; simp)+

lemma squote_pct [simp]: "squote \<noteq> CHR ''%''"
  by (simp add: squote_def)

lemma i18n_plain: "CHR ''%'' \<notin> set (i18n_text (chat_i18n fr) k)"
  by (auto simp: i18n_text_def chat_i18n_def o_circ_def a_grave_def e_acute_def split: option.splits if_splits)

lemma sprintf_end: "go_sprintf (double_pct t) args = Some (t @ extra_args args)"
  using sprintf_doubled [of t "[]" args] by simp

lemma percent_avatars: "chat_avatars spare style ''%s'' [] = Some (letter_avatar style ''%'', letter_avatar style ''%'')"
  by (simp add: chat_avatars_def first_rune_def runes_def seq_length_def valid_seq_def seq_rune_def rune_utf8_def Let_def) code_simp

text \<open>
  C32. The page is built from the operator's name, the language and the pictures as they are, in their places, when the name has no
  percent sign. The name is part of the format, though: that of an operator called %s takes a picture of its own, all
  later values move by one place, and the page's constants are the wrong ones.
\<close>

theorem chat_page_text:
  assumes "part = (\<lambda>i. double_pct (shown i))" "CHR ''%'' \<notin> set name" "tr = chat_i18n fr"
    "chat_avatars spare style name avatar = Some (large, small)"
  shows "buildChatHTML part spare style name avatar initials tr = Some
      (shown 0 @ large @ shown 1 @ i18n_text tr ''chattingWith'' @ '' '' @ name @ ''</p>'' @
       shown 2 @ i18n_text tr ''online'' @ ''</span>'' @ shown 3 @ small @ shown 4 @ i18n_text tr ''remoteRequested'' @ shown 5 @
       ''addSystemMessage('' @ [squote] @ i18n_text tr ''remoteGranted'' @ [squote] @ '')'' @ shown 6 @ i18n_text tr ''allow'' @ shown 7 @
       ''addSystemMessage('' @ [squote] @ i18n_text tr ''remoteDenied'' @ [squote] @ '')'' @ shown 8 @ i18n_text tr ''deny'' @ shown 9 @
       i18n_text tr ''yourMessage'' @ shown 10 @
       ''const opAvatarSmall = '' @ [squote] @ small @ [squote] @ '';'' @ [CHR 0x0A] @
       ''const userInitials = '' @ [squote] @ initials @ [squote] @ '';'' @ shown 11) \<and>
    (\<exists>pre. buildChatHTML part spare style ''%s'' [] initials tr = Some (pre @
       ''const opAvatarSmall = '' @ [squote] @ initials @ [squote] @ '';'' @ [CHR 0x0A] @
       ''const userInitials = '' @ [squote] @ ''%!s(MISSING)'' @ [squote] @ '';'' @ shown 11))"
proof
  note tr = i18n_plain [of fr, folded assms(3)]
  note fmt = buildChatHTML_def chat_format_def sprintf_plain [OF tr] sprintf_plain [OF assms(2)] sprintf_doubled sprintf_end
    extra_args_def assms(1)
  show "buildChatHTML part spare style name avatar initials tr = Some
      (shown 0 @ large @ shown 1 @ i18n_text tr ''chattingWith'' @ '' '' @ name @ ''</p>'' @
       shown 2 @ i18n_text tr ''online'' @ ''</span>'' @ shown 3 @ small @ shown 4 @ i18n_text tr ''remoteRequested'' @ shown 5 @
       ''addSystemMessage('' @ [squote] @ i18n_text tr ''remoteGranted'' @ [squote] @ '')'' @ shown 6 @ i18n_text tr ''allow'' @ shown 7 @
       ''addSystemMessage('' @ [squote] @ i18n_text tr ''remoteDenied'' @ [squote] @ '')'' @ shown 8 @ i18n_text tr ''deny'' @ shown 9 @
       i18n_text tr ''yourMessage'' @ shown 10 @
       ''const opAvatarSmall = '' @ [squote] @ small @ [squote] @ '';'' @ [CHR 0x0A] @
       ''const userInitials = '' @ [squote] @ initials @ [squote] @ '';'' @ shown 11)"
    by (simp add: fmt assms(4))
  let ?l = "letter_avatar style ''%''"
  let ?pre = "shown 0 @ ?l @ shown 1 @ i18n_text tr ''chattingWith'' @ '' '' @ ?l @ ''</p>'' @
       shown 2 @ i18n_text tr ''online'' @ ''</span>'' @ shown 3 @ ?l @ shown 4 @ i18n_text tr ''remoteRequested'' @ shown 5 @
       ''addSystemMessage('' @ [squote] @ i18n_text tr ''remoteGranted'' @ [squote] @ '')'' @ shown 6 @ i18n_text tr ''allow'' @ shown 7 @
       ''addSystemMessage('' @ [squote] @ i18n_text tr ''remoteDenied'' @ [squote] @ '')'' @ shown 8 @ i18n_text tr ''deny'' @ shown 9 @
       i18n_text tr ''yourMessage'' @ shown 10"
  show "\<exists>pre. buildChatHTML part spare style ''%s'' [] initials tr = Some (pre @
       ''const opAvatarSmall = '' @ [squote] @ initials @ [squote] @ '';'' @ [CHR 0x0A] @
       ''const userInitials = '' @ [squote] @ ''%!s(MISSING)'' @ [squote] @ '';'' @ shown 11)"
    unfolding buildChatHTML_def percent_avatars
    by (intro exI [of _ ?pre]) (simp add: fmt)
qed

section \<open>A concrete window\<close>

definition demo_window :: chat_window where
  "demo_window = \<lparr>cx_page = new_window_page ''B'' ''AL'' [], cx_helper = demo_helper_win, cx_next = 0, cx_jobs = [],
     cx_win = \<lparr>cw_ex = 0, cw_style = 0, cw_rect = (1524, 504, 380, 520), cw_rgn = None, cw_alpha = 240\<rparr>\<rparr>"

lemma demo_window_simps:
  "\<not> hp_closed (cx_helper demo_window)" "hp_reading (cx_helper demo_window)" "cx_next demo_window = length (hp_scripts (cx_helper demo_window))"
  "cx_jobs demo_window = []" "wp_rows (cx_page demo_window) = []" "wp_avatar (cx_page demo_window) = ''B''"
  "cw_rect (cx_win demo_window) = chat_rect (1920, 1040) (wp_minimized (cx_page demo_window))"
  by (simp_all add: demo_window_def demo_helper_win_simps new_window_page_def chat_rect_def)

theorem operator_message_displayed_witness:
  "wp_rows (cx_page (foldl (window_step ''Ann'' [] (1920, 1040)) demo_window
     [PipeMessage (Some (ChatMsg, Some (operator_message ''Bob'' ''a<b'' 5))), RunScript 7])) = [(''msg-row '', op_row ''B'' ''a<b'')]"
  using operator_message_displayed [OF demo_window_simps(1-3) _ refl, of "''a<b''" "''Ann''" "[]" "(1920, 1040)" "''Bob''" 5 7]
  by (simp add: demo_window_simps op_row_def)

theorem window_follows_page_witness:
  "cw_rect (cx_win (foldl (window_step ''Ann'' [] (1920, 1040)) demo_window [MinimizeClick, WindowJob 0 True])) = (1844, 964, 56, 56)"
proof -
  let ?y = "foldl (window_step ''Ann'' [] (1920, 1040)) demo_window [MinimizeClick, WindowJob 0 True]"
  have y: "cx_jobs ?y = []" "wp_minimized (cx_page ?y)"
    by (simp_all add: window_step_def page_does_eq page_ops demo_window_simps)
  have "list_all in_turn [MinimizeClick, WindowJob 0 True]" by (simp add: in_turn_def)
  from window_follows_page [OF demo_window_simps(4,7) this refl y(1) refl] y(2) show ?thesis by (simp add: chat_rect_def)
qed

theorem chat_page_text_witness:
  "(\<exists>pre. buildChatHTML (\<lambda>i. double_pct ''x'') False ''s'' ''%s'' [] ''AL'' (chat_i18n False) = Some (pre @
       ''const opAvatarSmall = '' @ [squote] @ ''AL'' @ [squote] @ '';'' @ [CHR 0x0A] @
       ''const userInitials = '' @ [squote] @ ''%!s(MISSING)'' @ [squote] @ '';'' @ ''x''))"
proof -
  have "chat_avatars False ''s'' ''Bob'' ''p'' = Some (image_avatar 32 ''p'', image_avatar 28 ''p'')"
    by (simp add: chat_avatars_def first_rune_def runes_def seq_length_def valid_seq_def seq_rune_def Let_def)
  moreover have "CHR ''%'' \<notin> set ''Bob''" by simp
  ultimately show ?thesis
    by (intro conjunct2 [OF chat_page_text [of _ "\<lambda>i. ''x''" "''Bob''", OF refl _ refl]])
qed

end
