(* ===== verification/Page_View.thy ===== *)
theory Page_View
  imports Page_App Page_Tabs Chat_Page_Props
begin

text \<open>
  What the page of the client application shows (client-app/ui.go): the text that the Go part builds, the list of devices, the
  bar of sessions, the info and scripts tabs, the performance display, zoom, the names of saved files, and signing out. Panes
  are the strings the script assigns to \<open>innerHTML\<close>.
\<close>

section \<open>The text of the Go part\<close>

text \<open>
  \<open>buildUI\<close>: the two values go into the fields of the login; \<open>part\<close> stands for the constant text around them, its percent signs doubled.
\<close>

definition ui_values :: "(nat \<Rightarrow> string) \<Rightarrow> string \<Rightarrow> string \<Rightarrow> string option" where
  "ui_values part serverURL username =
     go_sprintf (part 0 @ ''value='' @ quoted ''%s'' @ ''/>'' @ part 1 @ ''value='' @ quoted ''%s'' @ ''/>'' @ part 2)
       [go_esc serverURL, go_esc username]"

text \<open>\<open>strings.Replace\<close> with a count of one and \<open>strings.ReplaceAll\<close>, for a text that is not empty.\<close>

fun replace_first :: "string \<Rightarrow> string \<Rightarrow> string \<Rightarrow> string" where
  "replace_first old new [] = []"
| "replace_first old new (c # cs) =
     (if has_prefix (c # cs) old then new @ drop (length old) (c # cs) else c # replace_first old new cs)"

function replace_all :: "string \<Rightarrow> string \<Rightarrow> string \<Rightarrow> string" where
  "replace_all old new s =
     (case s of [] \<Rightarrow> []
      | c # cs \<Rightarrow>
          if old \<noteq> [] \<and> has_prefix s old then new @ replace_all old new (drop (length old) s)
          else c # replace_all old new cs)"
  by pat_completeness auto
termination by (relation "measure (\<lambda>(old, new, s). length s)") auto

declare replace_all.simps [simp del]

definition xml_head :: string where
  "xml_head = ''<?xml version='' @ quoted ''1.0'' @ '' encoding='' @ quoted ''UTF-8'' @ ''?>''"

text \<open>The logo is in the page twice; its classes, and the names in the second copy, get prefixes of their own. \<open>trim\<close> is \<open>strings.TrimSpace\<close>.\<close>

definition login_logo :: "(string \<Rightarrow> string) \<Rightarrow> string \<Rightarrow> string" where
  "login_logo trim svg =
     replace_first ''<svg '' (''<svg style='' @ quoted ''width:260px;height:auto'' @ '' '')
       (replace_all ''cls-'' ''lcls-'' (trim (trim_prefix svg xml_head)))"

definition topbar_logo :: "(string \<Rightarrow> string) \<Rightarrow> string \<Rightarrow> string" where
  "topbar_logo trim svg =
     (let s1 = replace_all ''cls-'' ''tcls-'' (trim (trim_prefix svg xml_head));
          s2 = replace_all (''id='' @ [CHR 0x22]) (''id='' @ [CHR 0x22] @ ''tb_'') s1;
          s3 = replace_all ''url(#'' ''url(#tb_'' s2;
          s4 = replace_all (''xlink:href='' @ [CHR 0x22] @ ''#'') (''xlink:href='' @ [CHR 0x22] @ ''#tb_'') s3
      in replace_first ''<svg '' (''<svg style='' @ quoted ''height:24px;width:auto'' @ '' '') s4)"

definition login_marker :: "string \<Rightarrow> string" where
  "login_marker logo = ''<div style='' @ quoted ''text-align:center;padding:4px 0 0'' @ '' id='' @ quoted ''login-logo'' @ ''>'' @ logo @ ''</div>''"

definition topbar_marker :: "string \<Rightarrow> string" where
  "topbar_marker logo = ''<span class='' @ quoted ''logo'' @ '' id='' @ quoted ''topbar-logo'' @ ''>'' @ logo @ ''</span>''"

definition buildUI :: "(nat \<Rightarrow> string) \<Rightarrow> (string \<Rightarrow> string) \<Rightarrow> string \<Rightarrow> string \<Rightarrow> string \<Rightarrow> string option" where
  "buildUI part trim svg serverURL username =
     map_option
       (\<lambda>html. replace_first (topbar_marker []) (topbar_marker (topbar_logo trim svg))
          (replace_first (login_marker []) (login_marker (login_logo trim svg)) html))
       (ui_values part serverURL username)"

section \<open>Devices\<close>

text \<open>A device with what the server tells of it; a text that is missing is empty.\<close>

record reach_session =
  rs_id :: int
  rs_user :: string
  rs_state :: string
  rs_station :: string

record reach_device =
  rd_id :: int
  rd_host :: string
  rd_uuid :: string
  rd_os :: string
  rd_status :: string
  rd_installed :: bool
  rd_online :: bool
  rd_version :: string
  rd_update :: bool
  rd_sessions :: "reach_session list"

definition empty_star :: string where "empty_star = [CHR 0xE2, CHR 0x98, CHR 0x86]"
definition mid_dot :: string where "mid_dot = [CHR 0xC2, CHR 0xB7]"

definition device_row :: "int option \<Rightarrow> int list \<Rightarrow> reach_device \<Rightarrow> string \<times> string" where
  "device_row selected favs d =
     (let fav = rd_id d \<in> set favs in
      (''device-row'' @ (if selected = Some (rd_id d) then '' active'' else []),
       ''<span class='' @ quoted (''dot '' @ (if rd_online d then ''online'' else ''warn'')) @ ''></span>'' @
       ''<span style='' @ quoted ''flex:1;overflow:hidden;text-overflow:ellipsis;white-space:nowrap'' @ ''>'' @ js_esc (rd_host d) @ ''</span>'' @
       ''<span class='' @ quoted (''fav-star '' @ (if fav then ''active'' else [])) @ '' title='' @ quoted ''Toggle favorite'' @ ''>'' @
       (if fav then star else empty_star) @ ''</span>''))"

text \<open>The refresh looks the selected device up again; the tabs keep the one they have.\<close>

definition refresh_selected :: "reach_device list list \<Rightarrow> reach_device option \<Rightarrow> reach_device option" where
  "refresh_selected groups selected =
     (case selected of
        None \<Rightarrow> None
      | Some s \<Rightarrow>
          (case concat (map (\<lambda>g. case find (\<lambda>d. rd_id d = rd_id s) g of Some d \<Rightarrow> [d] | None \<Rightarrow> []) groups) of
             d # _ \<Rightarrow> Some d
           | [] \<Rightarrow> Some s))"

text \<open>The choices of a session: automatic, or one of the sessions of the device, and what its value becomes for the request.\<close>

definition session_options :: "reach_device \<Rightarrow> (string \<times> string) list" where
  "session_options d =
     ([], ''Auto (active session)'') #
     map (\<lambda>s. (show_int (rs_id s), rs_user s @ '' ('' @ rs_state s @
                (if rs_station s = [] then [] else '' '' @ mid_dot @ '' '' @ rs_station s) @ '')'')) (rd_sessions d)"

definition chosen_session :: "string \<Rightarrow> int option" where
  "chosen_session v = (if v = [] then None else sscanf_d v)"

section \<open>Tabs\<close>

text \<open>The bar of the sessions: identifier, active, connected, label.\<close>

definition session_bar :: "page \<Rightarrow> (int \<times> bool \<times> bool \<times> string) list" where
  "session_bar p =
     map (\<lambda>t. let tb = pg_tabs p ! t in
            (tb_id tb, pg_active p = Some (tb_id tb),
             (case tb_ws tb of None \<Rightarrow> False | Some s \<Rightarrow> so_state (pg_sockets p ! s) = Open),
             js_esc (dv_host (tb_device tb)))) (pg_open p)"

definition info_row :: "string \<Rightarrow> string \<Rightarrow> string" where
  "info_row label val = ''<div><span style='' @ quoted ''color:var(--muted2)'' @ ''>'' @ label @ '': </span>'' @ val @ ''</div>''"

definition js_join :: "string \<Rightarrow> string list \<Rightarrow> string" where
  "js_join sep xs = (case xs of [] \<Rightarrow> [] | x # r \<Rightarrow> x @ concat (map (\<lambda>y. sep @ y) r))"

definition session_names :: "reach_device \<Rightarrow> string" where
  "session_names d = js_join '', '' (map (\<lambda>s. rs_user s @ '' ('' @ rs_state s @ '')'') (rd_sessions d))"

definition update_note :: "reach_device \<Rightarrow> string" where
  "update_note d =
     (if rd_update d then
        ''<div style='' @ quoted (''background:rgba(245,158,11,.08);border:1px solid rgba(245,158,11,.2);border-radius:10px;'' @
          ''padding:10px 14px;display:flex;align-items:center;gap:8px'') @ ''>'' @
        ''<span style='' @ quoted ''color:var(--warn);font-weight:600;font-size:12px'' @ ''>Update available</span>'' @
        ''<span style='' @ quoted ''font-size:11px;color:var(--muted)'' @ ''>'' @
        js_esc (if rd_version d = [] then ''?'' else rd_version d) @ ''</span></div>''
      else [])"

definition renderInfoTab :: "reach_device \<Rightarrow> string" where
  "renderInfoTab d =
     ''<div style='' @ quoted ''padding:16px;display:flex;flex-direction:column;gap:10px;font-size:13px'' @ ''>'' @
     update_note d @
     info_row ''Hostname'' (js_esc (rd_host d)) @
     info_row ''Device ID'' (show_int (rd_id d)) @
     info_row ''UUID'' (''<span style='' @ quoted ''font-family:monospace;font-size:11px'' @ ''>'' @ js_esc (rd_uuid d) @ ''</span>'') @
     info_row ''OS'' (js_esc (rd_os d)) @
     info_row ''Status'' (js_esc (rd_status d)) @
     info_row ''Oblireach''
       ((if rd_installed d
         then (if rd_online d then ''<span style='' @ quoted ''color:var(--success)'' @ ''>Online</span>'' else ''Offline'')
         else ''Not installed'') @
        (if rd_version d = [] then []
         else '' <span style='' @ quoted ''font-size:11px;color:var(--muted)'' @ ''>v'' @ js_esc (rd_version d) @ ''</span>'')) @
     (if rd_sessions d = [] then [] else info_row ''Sessions'' (session_names d)) @
     ''</div>''"

record script =
  sc_id :: string
  sc_name :: string
  sc_description :: string
  sc_runtime :: string
  sc_platform :: string
  sc_content :: string

definition script_item :: "script \<Rightarrow> string" where
  "script_item s =
     ''<div class='' @ quoted ''sname'' @ ''>'' @ js_esc (sc_name s) @ ''</div><div class='' @ quoted ''sdesc'' @ ''>'' @
     js_esc (if sc_description s = [] then sc_runtime s else sc_description s) @ ''</div>''"

definition platform_badge :: "string \<Rightarrow> string" where
  "platform_badge pf = (if pf \<in> {''windows'', ''linux'', ''macos''} then pf else ''all'')"

definition showScriptDetail :: "script \<Rightarrow> string option \<Rightarrow> string" where
  "showScriptDetail s selected =
     ''<h3>'' @ js_esc (sc_name s) @ ''</h3>'' @
     ''<div style='' @ quoted ''display:flex;gap:6px;align-items:center'' @ ''><span class='' @
       quoted (''badge '' @ platform_badge (sc_platform s)) @ ''>'' @ js_esc (sc_platform s) @ ''</span>'' @
     ''<span style='' @ quoted ''font-size:11px;color:var(--muted)'' @ ''>'' @ js_esc (sc_runtime s) @ ''</span></div>'' @
     (if sc_description s = [] then []
      else ''<p style='' @ quoted ''font-size:12px;color:var(--muted)'' @ ''>'' @ js_esc (sc_description s) @ ''</p>'') @
     ''<div class='' @ quoted ''script-code'' @ ''>'' @ js_esc (sc_content s) @ ''</div>'' @
     ''<button class='' @ quoted ''btn-primary'' @ '' id='' @ quoted ''exec-btn'' @ '' '' @ (if selected = None then ''disabled'' else []) @ ''>'' @
     (case selected of
        Some host \<Rightarrow> [CHR 0xE2, CHR 0x96, CHR 0xB6] @ '' Execute on '' @ js_esc host
      | None \<Rightarrow> ''Select a device first'') @ ''</button>'' @
     ''<div id='' @ quoted ''exec-output'' @ '' class='' @ quoted ''exec-output'' @ '' style='' @ quoted ''display:none'' @ ''></div>''"

section \<open>Performance display\<close>

text \<open>
  The numbers of the display: frames in a second and the rate with one digit (\<open>toFixed(1)\<close>, of a double that is not negative). Times are in
  milliseconds; the counters are those of the page.
\<close>

record hud =
  hu_visible :: bool
  hu_running :: bool
  hu_last :: rat
  hu_fps :: int
  hu_tenths :: int

definition new_hud :: "rat \<Rightarrow> hud" where
  "new_hud now = \<lparr>hu_visible = False, hu_running = False, hu_last = now, hu_fps = 0, hu_tenths = 0\<rparr>"

definition togglePerfHud :: "hud \<Rightarrow> hud" where
  "togglePerfHud h = h\<lparr>hu_visible := \<not> hu_visible h\<rparr>"

definition stopPerfHudTimer :: "hud \<Rightarrow> hud" where
  "stopPerfHudTimer h = h\<lparr>hu_running := False\<rparr>"

definition reset_counts :: "page \<Rightarrow> page" where
  "reset_counts p = p\<lparr>pg_frames := 0, pg_bytes := 0\<rparr>"

definition startPerfHudTimer :: "rat \<Rightarrow> hud \<times> page \<Rightarrow> hud \<times> page" where
  "startPerfHudTimer now x = ((stopPerfHudTimer (fst x))\<lparr>hu_last := now, hu_running := True\<rparr>, reset_counts (snd x))"

definition fixed_tenths :: "rat \<Rightarrow> int" where
  "fixed_tenths x = \<lfloor>10 * x + 1 / 2\<rfloor>"

definition hud_tick :: "rat \<Rightarrow> hud \<times> page \<Rightarrow> hud \<times> page" where
  "hud_tick now x =
     (let h = fst x; p = snd x; elapsed = js_num (js_num (now - hu_last h) / 1000) in
      if \<not> hu_running h then x
      else ((if elapsed > 0
             then h\<lparr>hu_fps := js_round (js_num (of_nat (pg_frames p) / elapsed)),
                    hu_tenths := fixed_tenths (js_num (js_num (of_nat (pg_bytes p * 8) / elapsed) / 1000000)), hu_last := now\<rparr>
             else h\<lparr>hu_last := now\<rparr>), reset_counts p))"

definition hud_text :: "hud \<Rightarrow> page \<Rightarrow> string \<times> string \<times> string \<times> string" where
  "hud_text h p =
     (show_int (hu_fps h), ''hud-val'' @ (if hu_fps h < 5 then '' hud-bad'' else if hu_fps h < 15 then '' hud-warn'' else []),
      show_int (hu_tenths h div 10) @ ''.'' @ show_int (hu_tenths h mod 10) @ '' Mbps'', pg_codec p)"

section \<open>Zoom and files\<close>

text \<open>The size the canvas element gets for a label: that of the view, or a share of the picture.\<close>

datatype zoom_size = FitView | Pixels int int

definition zoom_label :: "string \<Rightarrow> int option" where
  "zoom_label label =
     (if label = ''50%'' then Some 50 else if label = ''75%'' then Some 75 else if label = ''100%'' then Some 100
      else if label = ''150%'' then Some 150 else None)"

definition setZoomLevel :: "string \<Rightarrow> canvas \<Rightarrow> zoom_size option" where
  "setZoomLevel label cv =
     (if label = ''Fit'' then Some FitView
      else map_option (\<lambda>n. let pct = js_num (of_int n / 100) in
             Pixels (js_round (js_num (of_int (cv_width cv) * pct))) (js_round (js_num (of_int (cv_height cv) * pct)))) (zoom_label label))"

text \<open>The name of a picture or a recording that is saved; \<open>time\<close> is the time as \<open>toISOString\<close> writes it.\<close>

definition file_stamp :: "string \<Rightarrow> string" where
  "file_stamp time = take 19 (map (\<lambda>c. if c = CHR '':'' \<or> c = CHR ''.'' then CHR ''-'' else c) time)"

definition saved_name :: "string \<Rightarrow> string \<Rightarrow> string option \<Rightarrow> string \<Rightarrow> string" where
  "saved_name kind ext host time =
     kind @ (case host of Some h \<Rightarrow> (if h = [] then ''remote'' else h) | None \<Rightarrow> ''remote'') @ ''-'' @ file_stamp time @ ext"

definition takeScreenshot :: "bool \<Rightarrow> string \<Rightarrow> page \<Rightarrow> string option" where
  "takeScreenshot blob time p =
     (if \<not> canvas_shown p \<or> \<not> blob then None
      else Some (saved_name ''screenshot-'' ''.png'' (map_option dv_host (pg_selected p)) time))"

definition recording_file :: "nat \<Rightarrow> string \<Rightarrow> page \<Rightarrow> string option" where
  "recording_file chunks time p =
     (if chunks = 0 then None else Some (saved_name ''recording-'' ''.webm'' (map_option dv_host (pg_selected p)) time))"

text \<open>The time of a recording; \<open>padStart(2, '0')\<close>.\<close>

definition pad2 :: "int \<Rightarrow> string" where
  "pad2 n = (let s = show_int n in replicate (2 - length s) (CHR ''0'') @ s)"

definition recording_timer :: "int \<Rightarrow> string" where
  "recording_timer ms = (let elapsed = ms div 1000 in pad2 (elapsed div 60) @ '':'' @ pad2 (elapsed mod 60))"

section \<open>Loading and the login form\<close>

definition loadOverview :: "dev_group list option option \<Rightarrow> string \<Rightarrow> dev_group list \<Rightarrow> dev_group list \<times> string" where
  "loadOverview answer err old =
     (case answer of
        None \<Rightarrow> (old, ''Failed to load: '' @ err)
      | Some data \<Rightarrow>
          (let gs = (case data of None \<Rightarrow> [] | Some gs \<Rightarrow> gs)
           in (gs, ''Ready '' @ [CHR 0xE2, CHR 0x80, CHR 0x94] @ '' '' @ show_nat (countDevices gs) @ '' devices'')))"

definition loadScripts :: "script list option option \<Rightarrow> script list \<Rightarrow> script list" where
  "loadScripts answer old = (case answer of None \<Rightarrow> old | Some None \<Rightarrow> [] | Some (Some ss) \<Rightarrow> ss)"

text \<open>
  The address being typed is checked half a second after the last key. The events of the field and the timer, and the times
  of the checks so far.
\<close>

datatype field_event = FieldInput int | CheckDue int

definition field_step :: "int option \<times> int list \<Rightarrow> field_event \<Rightarrow> int option \<times> int list" where
  "field_step x e =
     (case e of
        FieldInput now \<Rightarrow> (Some (now + 500), snd x)
      | CheckDue now \<Rightarrow> (case fst x of None \<Rightarrow> x | Some t \<Rightarrow> if t \<le> now then (None, snd x @ [now]) else x))"

section \<open>Signing out\<close>

text \<open>The button: the current session and the chat end, the local server forgets the session, and the login is shown.\<close>

definition logout_requests :: "string \<Rightarrow> page_request list" where
  "logout_requests field = (''POST'', ''/local/logout'', None) # (if js_trim field = [] then [] else check_sso_requests field)"

definition page_logout :: "page \<times> chat_page \<Rightarrow> page \<times> chat_page" where
  "page_logout x = (stopRemote (fst x), closeChat (snd x))"

end
