(* ===== verification/Page_View_Props.thy ===== *)
theory Page_View_Props
  imports Page_View Page_Props
begin

text \<open>
  Properties of what the page shows: the stored values in the login fields, the markup of the info tab, the numbers of the
  displays, and what is left of the sessions after signing out.
\<close>

section \<open>Signing out\<close>

text \<open>
  C34. Signing out ends the session in front and the chat, but not a session behind it: its connection to the agent stays
  open, its tab stays in the page, and whoever signs in next and opens that tab sends keys to the device, with the toolbar
  at once and by typing as soon as a picture has come, with no request to the server in between.
\<close>

theorem logout_keeps_background_session:
  assumes "dv_id a \<noteq> dv_id b" "dv_online a" "dv_online b" "ta \<noteq> []" "tb \<noteq> []"
    "page_logout (foldl page_event_step new_page (two_sessions a b m n ta tb), c) = (q, c')"
    "r = foldl page_event_step q [SwitchTo m, SystemKeys keys]"
    "v = foldl page_event_step q [SwitchTo m, BinaryMessage 0 (1 # pic), JpegDecoded area (Some wh) 0,
           Key True key code False False False False]"
  shows "so_state (pg_sockets q ! 1) = Closing \<and> pg_ws q = None \<and> cp_id c' = None \<and>
    so_state (pg_sockets q ! 0) = Open \<and> pg_open q = [0, 1] \<and> tb_device (pg_tabs q ! 0) = a \<and>
    pg_selected r = Some a \<and> map so_sent (pg_sockets r) = [system_key_msgs keys, []] \<and>
    pg_selected v = Some a \<and> map so_sent (pg_sockets v) = [[key_msg True key code False False False False], []]"
proof -
  have p: "foldl page_event_step new_page (two_sessions a b m n ta tb) = two_tabs a b m n ta tb"
    by (rule two_sessions_run) (use assms in simp_all)
  have q: "q = (two_tabs a b m n ta tb)\<lparr>pg_ws := None, pg_sockets := [\<lparr>so_state = Open, so_token = ta, so_tab = 0, so_sent = [], so_clip = False\<rparr>,
                      \<lparr>so_state = Closing, so_token = tb, so_tab = 1, so_sent = [], so_clip = False\<rparr>]\<rparr>" "cp_id c' = None"
    using assms(6) [unfolded p] by (auto simp: page_logout_def stopRemote_def two_tabs_def new_page_def upd_socket_def close_socket_def
      stop_recording_def closeChat_def Let_def)
  show ?thesis
    by (simp add: assms(2,7,8) q two_tabs_def page_event_step_def switchSessionTab_def find_tab_def selectDevice_def switchTab_def
      render_remote_def sendInputKey_def sendSystemKeys_def ws_send_def open_ws_def upd_socket_def upd_canvas_def receiving_def
      remote_bytes_def jpeg_decoded_def canvas_shown_def new_page_def Let_def)
qed

theorem logout_keeps_background_session_witness:
  "map so_sent (pg_sockets (foldl page_event_step
     (fst (page_logout (foldl page_event_step new_page (two_sessions device_a device_b 5 6 ''ta'' ''tb''), new_chat_page)))
     [SwitchTo 5, BinaryMessage 0 [1, 0xff], JpegDecoded (800, 600) (Some (800, 600)) 0, Key True ''x'' ''KeyX'' False False False False]))
   = [[key_msg True ''x'' ''KeyX'' False False False False], []]"
proof -
  obtain q c' where q: "page_logout (foldl page_event_step new_page (two_sessions device_a device_b 5 6 ''ta'' ''tb''), new_chat_page) = (q, c')"
    by (cases "page_logout (foldl page_event_step new_page (two_sessions device_a device_b 5 6 ''ta'' ''tb''), new_chat_page)")
  show ?thesis
    using logout_keeps_background_session [of device_a device_b "''ta''" "''tb''", OF _ _ _ _ _ q refl refl, of "[]" "[0xff]" "(800, 600)" "(800, 600)" "''x''" "''KeyX''"] q
    by (simp add: device_a_def device_b_def)
qed

section \<open>Markup\<close>

text \<open>The number of tags that begin in a text; escaped text has none.\<close>

definition tags :: "string \<Rightarrow> nat" where
  "tags s = length (filter (\<lambda>c. c = CHR ''<'') s)"

lemma tags_simps [simp]:
  "tags [] = 0" "tags (c # s) = (if c = CHR ''<'' then 1 else 0) + tags s" "tags (s @ t) = tags s + tags t"
  by (simp_all add: tags_def)

lemma tags_esc [simp]: "tags (js_esc s) = 0"
  by (induction s) (simp_all add: js_esc_def)

lemma tags_none: "CHR ''<'' \<notin> set s \<Longrightarrow> tags s = 0"
  by (auto simp: tags_def filter_empty_conv)

lemma tags_int [simp]: "tags (show_int i) = 0"
  by (rule tags_none) (simp add: show_int_no is_digit_def)

lemma tags_quoted [simp]: "tags (quoted s) = tags s"
  by (simp add: quoted_def)

lemma tags_row [simp]: "tags (info_row label val) = 4 + tags label + tags val"
  by (simp add: info_row_def)

lemma tags_join: "tags (js_join sep xs) = sum_list (map tags xs) + (length xs - 1) * tags sep"
proof (cases xs)
  case (Cons x r)
  have "tags (concat (map (\<lambda>y. sep @ y) r)) = sum_list (map tags r) + length r * tags sep"
    by (induction r) simp_all
  then show ?thesis by (simp add: js_join_def Cons)
qed (simp add: js_join_def)

lemma tags_names: "tags (session_names d) = sum_list (map (\<lambda>s. tags (rs_user s) + tags (rs_state s)) (rd_sessions d))"
  by (simp add: session_names_def tags_join comp_def)

text \<open>
  C33. Of what the server tells of a device, the info tab puts the names of its logon sessions into the page as they are: the tags
  of the pane are its own and those in the names and states of the sessions, which the managed machine reports. A user
  called \<open><img ...>\<close> there makes an element in the operator's page.
\<close>

theorem info_tab_markup:
  "tags (renderInfoTab d) =
     28 + (if rd_update d then 6 else 0) + (if rd_installed d \<and> rd_online d then 2 else 0) + (if rd_version d \<noteq> [] then 2 else 0) +
     (if rd_sessions d \<noteq> [] then 4 else 0) + sum_list (map (\<lambda>s. tags (rs_user s) + tags (rs_state s)) (rd_sessions d))"
  by (simp add: renderInfoTab_def update_note_def tags_names)

lemma pane_markup:
  "tags (snd (device_row sel favs d)) = 6" "tags (script_item s) = 4"
  "tags (showScriptDetail s host) = 14 + (if sc_description s \<noteq> [] then 2 else 0)"
  by (auto simp: Let_def device_row_def script_item_def showScriptDetail_def platform_badge_def star_def empty_star_def split: option.split)

section \<open>The login fields\<close>

text \<open>The value of an attribute: its entities stand for their characters.\<close>

fun attr_text :: "string \<Rightarrow> string option" where
  "attr_text [] = Some []"
| "attr_text (c # cs) =
     (if c = CHR 0x22 then None
      else if c \<noteq> CHR ''&'' then map_option (\<lambda>t. c # t) (attr_text cs)
      else if has_prefix cs ''amp;'' then map_option (\<lambda>t. CHR ''&'' # t) (attr_text (drop 4 cs))
      else if has_prefix cs ''lt;'' then map_option (\<lambda>t. CHR ''<'' # t) (attr_text (drop 3 cs))
      else if has_prefix cs ''gt;'' then map_option (\<lambda>t. CHR ''>'' # t) (attr_text (drop 3 cs))
      else if has_prefix cs ''quot;'' then map_option (\<lambda>t. CHR 0x22 # t) (attr_text (drop 5 cs))
      else None)"

lemma go_esc_simps [simp]:
  "go_esc [] = []"
  "go_esc (c # s) = (if c = CHR ''&'' then ''&amp;'' else if c = CHR ''<'' then ''&lt;'' else if c = CHR ''>'' then ''&gt;''
     else if c = CHR 0x22 then ''&quot;'' else [c]) @ go_esc s"
  by (simp_all add: go_esc_def)

lemma attr_text_esc: "attr_text (go_esc s) = Some s"
  by (induction s) (simp_all add: has_prefix_def)

text \<open>
  The page shows the stored address and name in the fields of its login, whatever they are: each is one attribute whose
  value stands for the stored text, and the rest of the page is as written.
\<close>

theorem login_fields_show_config:
  assumes "part = (\<lambda>i. double_pct (shown i))"
  shows "ui_values part url user =
      Some (shown 0 @ ''value='' @ quoted (go_esc url) @ ''/>'' @ shown 1 @ ''value='' @ quoted (go_esc user) @ ''/>'' @ shown 2) \<and>
    attr_text (go_esc url) = Some url \<and> attr_text (go_esc user) = Some user"
  by (simp add: ui_values_def assms sprintf_doubled sprintf_end attr_text_esc quoted_def extra_args_def)

theorem login_fields_show_config_witness:
  "ui_values (\<lambda>i. double_pct ''x'') ''http://a'' ''b'' = Some (''xvalue='' @ quoted ''http://a'' @ ''/>xvalue='' @ quoted ''b'' @ ''/>x'')"
  using login_fields_show_config [of "\<lambda>i. double_pct ''x''" "\<lambda>i. ''x''", OF refl, of "''http://a''" "''b''"] by simp

section \<open>Numbers\<close>

text \<open>Half a second after the counters were reset the display has twice the frames that arrived, whatever the codec.\<close>

lemma hud_after_half_second:
  assumes "hu_running h" "pg_frames p < 2 ^ 50" "\<bar>t\<bar> < 2 ^ 50" "hu_last h = of_int t"
  shows "hu_fps (fst (hud_tick (of_int (t + 500)) (h, p))) = 2 * int (pg_frames p)"
    "pg_frames (snd (hud_tick (of_int (t + 500)) (h, p))) = 0" "hu_last (fst (hud_tick (of_int (t + 500)) (h, p))) = of_int (t + 500)"
proof -
  have last: "js_num (of_int (t + 500) - of_int t) = 500" using js_num_int [of 500] by simp
  have half: "js_num (500 / 1000) = 1 / 2" using js_num_exact [of 1 "500 / 1000" 1] by simp
  have rate: "js_num (of_nat (pg_frames p) / (1 / 2)) = of_int (2 * int (pg_frames p))"
    using js_num_int [of "2 * int (pg_frames p)"] assms(2) by (simp add: mult.commute)
  have int: "js_round (of_int n) = n" for n by (simp add: js_round_def floor_unique)
  show "hu_fps (fst (hud_tick (of_int (t + 500)) (h, p))) = 2 * int (pg_frames p)"
    "hu_last (fst (hud_tick (of_int (t + 500)) (h, p))) = of_int (t + 500)"
    unfolding hud_tick_def Let_def fst_conv snd_conv assms(4) last half rate int using assms(1) by simp_all
  show "pg_frames (snd (hud_tick (of_int (t + 500)) (h, p))) = 0"
    using assms(1) by (simp add: hud_tick_def reset_counts_def Let_def)
qed

text \<open>A zoomed picture has the rounded share of its pixels; the factors of the menu are exact.\<close>

lemma zoom_factor:
  assumes "zoom_label label = Some n" shows "js_num (of_int n / 100) = of_int (n div 25) / 2 ^ 2"
proof -
  have n: "n \<in> {50, 75, 100, 150}" using assms by (auto simp: zoom_label_def split: if_splits)
  then have "\<bar>n div 25\<bar> < 2 ^ 53" "(of_int n / 100 :: rat) = of_int (n div 25) / 2 ^ 2" by auto
  from js_num_exact [OF this] this(2) show ?thesis by simp
qed

lemma round_quarters: "js_round (of_int i / 4) = (i + 2) div 4"
proof -
  have "(of_int i / 4 + 1 / 2 :: rat) = of_int (i + 2) / of_int 4" by simp
  then show ?thesis unfolding js_round_def by (simp only: floor_divide_of_int_eq)
qed

lemma zoomed_size:
  assumes "zoom_label label = Some n" "0 \<le> w" "w < 2 ^ 40"
  shows "js_round (js_num (of_int w * js_num (of_int n / 100))) = (w * n + 50) div 100"
proof -
  have n: "n \<in> {50, 75, 100, 150}" using assms by (auto simp: zoom_label_def split: if_splits)
  then have k: "w * n + 50 = 25 * (w * (n div 25) + 2)" "\<bar>w * (n div 25)\<bar> < 2 ^ 53" using assms(2,3) by auto
  have p: "of_int w * (of_int (n div 25) / 2 ^ 2) = (of_int (w * (n div 25)) / 2 ^ 2 :: rat)" by simp
  have q: "(2 ^ 2 :: rat) = 4" by simp
  have "js_round (js_num (of_int w * js_num (of_int n / 100))) = (w * (n div 25) + 2) div 4"
    unfolding zoom_factor [OF assms(1)] p js_num_exact [OF k(2) refl] unfolding q by (rule round_quarters)
  also have "\<dots> = (w * n + 50) div 100" unfolding k(1) using div_mult_mult1 [of 25 "w * (n div 25) + 2" 4] by simp
  finally show ?thesis .
qed

text \<open>A saved file's name has neither colon nor dot in its time, and the time of a recording reads back.\<close>

lemma file_stamp_plain: "CHR '':'' \<notin> set (file_stamp t)" "CHR ''.'' \<notin> set (file_stamp t)" "length (file_stamp t) \<le> 19"
  by (auto simp: file_stamp_def dest!: in_set_takeD)

text \<open>The address is checked at most once for each key, and not within half a second of the last one.\<close>

lemma field_checks:
  "length (snd (foldl field_step (None, cs) es)) \<le> length cs + length (filter (\<lambda>e. case e of FieldInput _ \<Rightarrow> True | _ \<Rightarrow> False) es)"
proof -
  have "length (snd (foldl field_step (d, cs) es)) + (if fst (foldl field_step (d, cs) es) = None then 0 else 1) \<le>
      length cs + (if d = None then 0 else 1) + length (filter (\<lambda>e. case e of FieldInput _ \<Rightarrow> True | _ \<Rightarrow> False) es)" for d cs
  proof (induction es arbitrary: d cs)
    case (Cons e es)
    have "field_step (d, cs) e = (Some t, cs) \<and> e = FieldInput (t - 500) \<or> field_step (d, cs) e = (d, cs) \<and> (\<exists>n. e = CheckDue n)
        \<or> field_step (d, cs) e = (None, cs @ [n]) \<and> d \<noteq> None \<and> e = CheckDue n" if "t = (case e of FieldInput n \<Rightarrow> n + 500 | CheckDue n \<Rightarrow> n)"
        "n = (case e of FieldInput n \<Rightarrow> n | CheckDue n \<Rightarrow> n)" for t n
      using that by (auto simp: field_step_def split: field_event.splits option.splits)
    then consider t where "field_step (d, cs) e = (Some t, cs)" "e = FieldInput (t - 500)"
      | n where "field_step (d, cs) e = (d, cs)" "e = CheckDue n"
      | n where "field_step (d, cs) e = (None, cs @ [n])" "d \<noteq> None" "e = CheckDue n" by blast
    then show ?case
    proof cases
      case (1 t)
      with Cons.IH [of "Some t" cs] show ?thesis by (auto split: if_splits)
    next
      case (2 n)
      with Cons.IH [of d cs] show ?thesis by simp
    next
      case (3 n)
      with Cons.IH [of None "cs @ [n]"] show ?thesis by (auto split: if_splits)
    qed
  qed simp
  from this [of None cs] show ?thesis by (auto split: if_splits)
qed

lemma check_waits: "snd (field_step (Some t, cs) (CheckDue now)) \<noteq> cs \<Longrightarrow> t \<le> now"
  by (simp add: field_step_def split: if_splits)

end
