(* ===== verification/Mains.thy ===== *)
theory Mains
  imports Relay_Props Client_Proxy Page_View_Props
begin

text \<open>
  The two programs as they are started: the relay (server/main.go), its state, its routes and the way it listens, and the client
  application (client-app/main.go), its local server and the address its window opens.
\<close>

section \<open>The relay\<close>

record relay_server =
  rv_cfg :: relay_config
  rv_sessions :: session_store
  rv_timeout :: int

datatype relay_listen = ListenTLS string string string | ListenPlain string

definition relay_listen_of :: "relay_config \<Rightarrow> relay_listen" where
  "relay_listen_of cfg =
     (if rc_TLSCert cfg \<noteq> [] \<and> rc_TLSKey cfg \<noteq> [] then ListenTLS (rc_Addr cfg) (rc_TLSCert cfg) (rc_TLSKey cfg)
      else ListenPlain (rc_Addr cfg))"

definition relay_main :: "env \<Rightarrow> string + (relay_server \<times> relay_listen)" where
  "relay_main env =
     (case relay_loadConfig env of
        Inl err \<Rightarrow> Inl err
      | Inr (cfg, warn) \<Rightarrow>
          Inr (\<lparr>rv_cfg = cfg, rv_sessions = newSessionStore (rc_MaxSessions cfg), rv_timeout = 10\<rparr>, relay_listen_of cfg))"

text \<open>The routes of the mux: three exact patterns; a path that is not clean is redirected first.\<close>

datatype relay_dest = ToRelay | ToIssueToken | ToHealth | ToMoved string | NoRoute

definition relay_route :: "string \<Rightarrow> relay_dest" where
  "relay_route p =
     (if clean_path p \<noteq> p then ToMoved (clean_path p)
      else if p = ''/relay/ws'' then ToRelay
      else if p = ''/internal/issue-token'' then ToIssueToken
      else if p = ''/health'' then ToHealth
      else NoRoute)"

text \<open>
  What a request gets: the answer of an endpoint, or what \<open>handleRelay\<close> makes of it before the upgrade. The request is given as
  each handler reads it.
\<close>

datatype relay_reply = HttpReply http_reply | Admission "(nat \<times> string) + string" | MovedTo string | NotFound

definition relay_serve ::
  "mac \<Rightarrow> int \<Rightarrow> obliance_api \<Rightarrow> string \<Rightarrow> relay_server \<Rightarrow> string \<Rightarrow> issue_request \<Rightarrow> relay_request \<Rightarrow> relay_reply" where
  "relay_serve mac now post version srv path issue ws =
     (case relay_route path of
        ToRelay \<Rightarrow> Admission (relay_admit mac now post (rv_cfg srv) ws)
      | ToIssueToken \<Rightarrow> HttpReply (handleIssueToken mac now (rv_cfg srv) issue)
      | ToHealth \<Rightarrow> HttpReply (handleHealth version (session_count (rv_sessions srv)))
      | ToMoved p \<Rightarrow> MovedTo p
      | NoRoute \<Rightarrow> NotFound)"

section \<open>The client application\<close>

text \<open>
  \<open>main\<close>: no listener ends the program; else the local server has the port it was given, and the window opens its first page. \<open>quote\<close>
  is the verb \<open>%q\<close>.
\<close>

record client_window =
  wn_proxy :: Proxy
  wn_init :: string
  wn_url :: string

definition client_main ::
  "(string \<Rightarrow> string) \<Rightarrow> string \<Rightarrow> json option \<Rightarrow> json option \<Rightarrow> string option \<Rightarrow> nat option \<Rightarrow> client_window option" where
  "client_main quote version cfg_file ses_file fav listen =
     (case listen of
        None \<Rightarrow> None
      | Some port \<Rightarrow>
          Some \<lparr>wn_proxy = newProxy cfg_file ses_file fav port,
                wn_init = ''window.__reach_version = '' @ quote version @ '';'',
                wn_url = ''http://127.0.0.1:'' @ show_nat port @ ''/''\<rparr>)"

section \<open>Properties\<close>

lemma relay_routes:
  "relay_route ''/relay/ws'' = ToRelay" "relay_route ''/internal/issue-token'' = ToIssueToken" "relay_route ''/health'' = ToHealth"
  "relay_route ''/'' = NoRoute" "relay_route ''/relay/../health'' = ToMoved ''/health''" "relay_route ''/relay/ws/'' = NoRoute"
  by code_simp+

text \<open>Nothing but these three paths is served, and a relay without a complete pair of files does not use TLS.\<close>

lemma relay_serves_three:
  "relay_route p = NoRoute \<or> (\<exists>q. relay_route p = ToMoved q) \<or> p \<in> {''/relay/ws'', ''/internal/issue-token'', ''/health''}"
  by (simp add: relay_route_def)

lemma relay_tls: "(\<exists>c k. relay_listen_of cfg = ListenTLS (rc_Addr cfg) c k) \<longleftrightarrow> rc_TLSCert cfg \<noteq> [] \<and> rc_TLSKey cfg \<noteq> []"
  by (simp add: relay_listen_of_def)

definition issue_body :: "string \<Rightarrow> int \<Rightarrow> json" where
  "issue_body tok ttl = JObj [(''sessionToken'', JStr tok), (''ttlSeconds'', JInt ttl)]"

lemma dec_issue_body:
  "dec_struct (issue_body tok ttl) = Some kvs \<Longrightarrow> dec_string ''sessionToken'' kvs = (tok, True)"
  "dec_struct (issue_body tok ttl) = Some kvs \<Longrightarrow> -(2^63) \<le> ttl \<Longrightarrow> ttl < 2^63 \<Longrightarrow> dec_int ''ttlSeconds'' kvs = (ttl, True)"
  "\<exists>kvs. dec_struct (issue_body tok ttl) = Some kvs"
  by (auto simp: issue_body_def dec_string_def dec_int_def dec_field_def to_lower_def lower_char_def)

text \<open>
  C27. The way of a token through a relay as it was started: the server that knows the secret asks for a viewer token of a session
  and gets one, and a viewer that presents it at the relay's address before it expires is admitted to that very session,
  in any environment the relay was started in; without a secret there, the one that is in the source does it.
\<close>

theorem issued_token_admits_viewer:
  assumes "relay_main env = Inr (srv, listen)" "tok \<noteq> []" "dot \<notin> set tok" "- (2 ^ 63) \<le> ttl" "ttl < 2 ^ 63"
    "0 \<le> now" "now + 86400 < 2 ^ 63" "now' \<le> now + clamp_ttl ttl"
    "issue = \<lparr>ir_secret_header = (if env ''OBLIREACH_SECRET'' = [] then default_secret else env ''OBLIREACH_SECRET''),
               ir_method = ''POST'', ir_body = Some (issue_body tok ttl)\<rparr>"
  shows "\<exists>token. relay_serve mac now post version srv ''/internal/issue-token'' issue ws0 = HttpReply (HttpOK [(''viewerToken'', JStr token)]) \<and>
    relay_serve mac now' post version srv ''/relay/ws'' issue0
      \<lparr>rq_role = RoleViewer, rq_token = token, rq_apiKey = [], rq_sessionToken = []\<rparr> = Admission (Inr tok)"
proof -
  let ?token = "issueViewerToken mac now tok (clamp_ttl ttl) (rc_RelaySecret (rv_cfg srv))"
  have secret: "rc_RelaySecret (rv_cfg srv) = (if env ''OBLIREACH_SECRET'' = [] then default_secret else env ''OBLIREACH_SECRET'')"
    using assms(1) by (auto simp: relay_main_def relay_loadConfig_def envStr_def Let_def split: if_splits)
  obtain kvs where kvs: "dec_struct (issue_body tok ttl) = Some kvs" using dec_issue_body(3) by blast
  have issued: "handleIssueToken mac now (rv_cfg srv) issue = HttpOK [(''viewerToken'', JStr ?token)]"
    using dec_issue_body(1,2) [OF kvs] assms(2,4,5) kvs by (simp add: handleIssueToken_def assms(9) secret)
  have "1 \<le> clamp_ttl ttl" "clamp_ttl ttl \<le> 86400" using clamp_ttl_range [of ttl] by simp_all
  then have "validateViewerToken mac now' (rc_RelaySecret (rv_cfg srv)) ?token = Inr tok"
    using issued_token_validates [of now "clamp_ttl ttl" mac now' "rc_RelaySecret (rv_cfg srv)" tok] assms(3,6-8) by simp
  moreover have "?token \<noteq> []" using assms(2) by (simp add: issueViewerToken_def Let_def)
  ultimately have "relay_admit mac now' post (rv_cfg srv) \<lparr>rq_role = RoleViewer, rq_token = ?token, rq_apiKey = [], rq_sessionToken = []\<rparr> = Inr tok"
    by (simp add: relay_admit_def)
  with issued show ?thesis by (simp add: relay_serve_def relay_routes)
qed

theorem issued_token_admits_viewer_witness:
  "\<exists>token. relay_serve (\<lambda>k d. [1, 2]) 500 (\<lambda>u b. None) ''1'' (fst (projr (relay_main (\<lambda>k. [])))) ''/internal/issue-token''
       \<lparr>ir_secret_header = default_secret, ir_method = ''POST'', ir_body = Some (issue_body ''abc'' 60)\<rparr> undefined
       = HttpReply (HttpOK [(''viewerToken'', JStr token)]) \<and>
     relay_serve (\<lambda>k d. [1, 2]) 550 (\<lambda>u b. None) ''1'' (fst (projr (relay_main (\<lambda>k. [])))) ''/relay/ws'' undefined
       \<lparr>rq_role = RoleViewer, rq_token = token, rq_apiKey = [], rq_sessionToken = []\<rparr> = Admission (Inr ''abc'')"
proof -
  have "isl (relay_main (\<lambda>k. [])) = False" by code_simp
  then have m: "relay_main (\<lambda>k. []) = Inr (fst (projr (relay_main (\<lambda>k. []))), snd (projr (relay_main (\<lambda>k. []))))"
    by (cases "relay_main (\<lambda>k. [])") auto
  show ?thesis
    by (rule issued_token_admits_viewer [OF m _ _ _ _ _ _ _ _, of "''abc''" 60 500 550 _ "\<lambda>k d. [1, 2]"])
      (simp_all add: dot_def clamp_ttl_def)
qed

text \<open>The window of the client application opens the local server's own page, which every unknown path leads to.\<close>

lemma client_opens_its_page:
  assumes "client_main quote version cfg ses fav listen = Some w"
  shows "px_port (wn_proxy w) = the listen" "wn_url w = ''http://127.0.0.1:'' @ show_nat (the listen) @ ''/''" "route_of ''/'' = RUI"
proof -
  show "px_port (wn_proxy w) = the listen" "wn_url w = ''http://127.0.0.1:'' @ show_nat (the listen) @ ''/''"
    using assms by (auto simp: client_main_def newProxy_def split: option.splits)
  show "route_of ''/'' = RUI" by code_simp
qed

end
