(* ===== verification/Windows_Calls.thy ===== *)
theory Windows_Calls
  imports Commands Stream_Props
begin

text \<open>
  Calls of the Windows agent whose state is the system's: the input desktop (input_windows.go), the clipboard, the list of
  logon sessions with its buffers (sessions_windows.go), the place of the cursor (capture_windows.go), the files of the encoder's
  diagnosis (encode_windows.go), and the heartbeat (cmd_ws.go).
\<close>

section \<open>The input desktop\<close>

text \<open>
  Handles of desktops, which of them each thread is attached to, and the two globals. Closing fails for a handle that a thread
  is attached to, as documented.
\<close>

record desk =
  dk_current :: "nat option"
  dk_check :: "32 word"
  dk_open :: "nat list"
  dk_threads :: "(nat \<times> nat) list"

definition new_desk :: desk where
  "new_desk = \<lparr>dk_current = None, dk_check = 0, dk_open = [], dk_threads = []\<rparr>"

definition close_desktop :: "nat \<Rightarrow> desk \<Rightarrow> desk" where
  "close_desktop h d = (if h \<in> snd ` set (dk_threads d) then d else d\<lparr>dk_open := remove1 h (dk_open d)\<rparr>)"

definition set_thread_desktop :: "bool \<Rightarrow> nat \<Rightarrow> nat \<Rightarrow> desk \<Rightarrow> desk" where
  "set_thread_desktop ok t h d = (if ok then d\<lparr>dk_threads := AList.update t h (dk_threads d)\<rparr> else d)"

text \<open>
  \<open>switch_to_active_desktop\<close> in thread \<open>t\<close>: \<open>full\<close> and \<open>small\<close> are what opening the input desktop gives with all rights and with
  one, \<open>ok\<close> whether the thread can be attached.
\<close>

definition switch_to_active_desktop :: "nat \<Rightarrow> 32 word \<Rightarrow> nat option \<Rightarrow> nat option \<Rightarrow> bool \<Rightarrow> desk \<Rightarrow> desk" where
  "switch_to_active_desktop t now full small ok d =
     (if now - dk_check d < 500 \<and> dk_current d \<noteq> None then d
      else (let d1 = d\<lparr>dk_check := now\<rparr> in
            case (case full of Some h \<Rightarrow> Some h | None \<Rightarrow> small) of
              None \<Rightarrow> d1
            | Some h \<Rightarrow>
                (let d2 = d1\<lparr>dk_open := dk_open d1 @ [h]\<rparr> in
                 if dk_current d2 \<noteq> Some h
                 then (let d3 = set_thread_desktop ok t h d2;
                           d4 = (case dk_current d3 of None \<Rightarrow> d3 | Some c \<Rightarrow> close_desktop c d3)
                       in d4\<lparr>dk_current := Some h\<rparr>)
                 else close_desktop h d2)))"

section \<open>The clipboard\<close>

text \<open>
  The text of the clipboard, which other programs may hold open. The C strings of both calls end at their first null
  character; \<open>wide\<close> and \<open>narrow\<close> are the conversions to UTF-16 and back, the first of which can fail.
\<close>

definition c_text :: "string \<Rightarrow> string" where
  "c_text s = takeWhile (\<lambda>c. c \<noteq> CHR 0x00) s"

definition clipboard_set_text :: "(string \<Rightarrow> 'w option) \<Rightarrow> bool \<Rightarrow> bool \<Rightarrow> string \<Rightarrow> 'w option \<Rightarrow> int \<times> 'w option" where
  "clipboard_set_text wide alloc opens s clip =
     (case wide s of
        None \<Rightarrow> (- 1, clip)
      | Some w \<Rightarrow> if \<not> alloc then (- 2, clip) else if \<not> opens then (- 3, clip) else (0, Some w))"

definition clipboardSet :: "(string \<Rightarrow> 'w option) \<Rightarrow> bool \<Rightarrow> bool \<Rightarrow> string \<Rightarrow> 'w option \<Rightarrow> 'w option" where
  "clipboardSet wide alloc opens text clip = snd (clipboard_set_text wide alloc opens (c_text text) clip)"

definition clipboard_get_text :: "('w \<Rightarrow> string) \<Rightarrow> bool \<Rightarrow> bool \<Rightarrow> 'w option \<Rightarrow> string option" where
  "clipboard_get_text narrow opens locks clip =
     (if \<not> opens then None else (case clip of None \<Rightarrow> None | Some w \<Rightarrow> if \<not> locks then None else Some (narrow w)))"

definition clipboardGet :: "('w \<Rightarrow> string) \<Rightarrow> bool \<Rightarrow> bool \<Rightarrow> 'w option \<Rightarrow> string" where
  "clipboardGet narrow opens locks clip =
     (case clipboard_get_text narrow opens locks clip of None \<Rightarrow> [] | Some s \<Rightarrow> c_text s)"

section \<open>Logon sessions\<close>

text \<open>
  A session as the system lists it: the name of its station, and the answer to the query for its user, a buffer with a
  name and its length in bytes, with the null character. A name goes into a buffer of fixed size; what is in the buffer
  when it does not fit is \<open>rest\<close>.
\<close>

record wts_raw =
  wr_id :: int
  wr_state :: int
  wr_station :: "string option"
  wr_query :: "(string \<times> nat) option"

definition narrow_into :: "(nat \<Rightarrow> string \<Rightarrow> string) \<Rightarrow> nat \<Rightarrow> string \<Rightarrow> string" where
  "narrow_into rest n s = (if length s + 1 \<le> n then s else rest n s)"

definition raw_session :: "(nat \<Rightarrow> string \<Rightarrow> string) \<Rightarrow> wts_raw \<Rightarrow> wts_session" where
  "raw_session rest r =
     \<lparr>wts_id = wr_id r, wts_state = wr_state r,
      wts_username = (case wr_query r of Some (name, len) \<Rightarrow> if 2 < len then narrow_into rest 255 name else [] | None \<Rightarrow> []),
      wts_station = (case wr_station r of Some s \<Rightarrow> narrow_into rest 63 s | None \<Rightarrow> [])\<rparr>"

text \<open>The result, or the negated error, and the buffers of the system that are not freed.\<close>

definition lost_buffers :: "wts_raw list \<Rightarrow> nat" where
  "lost_buffers rs = length (filter (\<lambda>r. case wr_query r of Some (name, len) \<Rightarrow> \<not> 2 < len | None \<Rightarrow> False) rs)"

definition enumWTSSessions ::
  "(nat \<Rightarrow> string \<Rightarrow> string) \<Rightarrow> int + wts_raw list \<Rightarrow> bool \<Rightarrow> (int + wts_session list) \<times> nat" where
  "enumWTSSessions rest listed alloc =
     (case listed of
        Inl err \<Rightarrow> (Inl (- err), 0)
      | Inr rs \<Rightarrow> if \<not> alloc then (Inl (- 1), 0) else (Inr (map (raw_session rest) rs), lost_buffers rs))"

definition listed_sessions :: "int + wts_session list \<Rightarrow> wts_session list option" where
  "listed_sessions r = (case r of Inl e \<Rightarrow> if e \<noteq> 0 then None else Some [] | Inr ss \<Rightarrow> Some ss)"

definition sendCmdHeartbeat ::
  "string \<Rightarrow> string \<Rightarrow> string \<Rightarrow> string \<Rightarrow> string \<Rightarrow> (int + wts_session list) \<Rightarrow> int \<Rightarrow> json" where
  "sendCmdHeartbeat uuid hostname os arch version listed console =
     heartbeat_json uuid hostname os arch version (enumerateSessions (listed_sessions listed) console)"

section \<open>The cursor\<close>

text \<open>
  Where the cursor is drawn: nowhere when it is hidden, more than 32 pixels outside the picture, or its icon is not known. The
  position is that of the screen; the icon's hot spot is at the position.
\<close>

definition cursor_place :: "bool \<Rightarrow> (int \<times> int) option \<Rightarrow> (int \<times> int) option \<Rightarrow> int \<times> int \<Rightarrow> int \<times> int \<Rightarrow> (int \<times> int) option" where
  "cursor_place showing pos hot wh mon =
     (case pos of
        None \<Rightarrow> None
      | Some (sx, sy) \<Rightarrow>
          if \<not> showing then None
          else (let cx = sx - fst mon; cy = sy - snd mon in
                if cx < - 32 \<or> cx > fst wh + 32 \<or> cy < - 32 \<or> cy > snd wh + 32 then None
                else map_option (\<lambda>(hx, hy). (cx - hx, cy - hy)) hot))"

section \<open>Diagnosis of the encoder\<close>

text \<open>The files that were opened, and the one in use; each initialisation of the encoder opens the first path that it can.\<close>

record diag =
  di_files :: nat
  di_file :: "nat option"

definition openEncoderDiag :: "bool list \<Rightarrow> diag \<Rightarrow> diag" where
  "openEncoderDiag opens d =
     (case find id (take 3 opens) of
        None \<Rightarrow> d
      | Some ok \<Rightarrow> d\<lparr>di_files := di_files d + 1, di_file := Some (di_files d)\<rparr>)"

definition SetEncoderDiagFromLog :: "nat \<Rightarrow> diag \<Rightarrow> diag" where
  "SetEncoderDiagFromLog f d = d\<lparr>di_file := Some f\<rparr>"

section \<open>Properties\<close>

text \<open>One thread alone has one handle open at any time, however often the input desktop changes.\<close>

definition one_handle :: "nat \<Rightarrow> desk \<Rightarrow> bool" where
  "one_handle t d \<longleftrightarrow>
     (case dk_current d of
        None \<Rightarrow> dk_open d = [] \<and> dk_threads d = []
      | Some h \<Rightarrow> dk_open d = [h] \<and> dk_threads d = [(t, h)])"

lemma switch_one_thread:
  assumes "one_handle t d" "\<And>h. full = Some h \<or> small = Some h \<Longrightarrow> h \<notin> set (dk_open d)"
  shows "one_handle t (switch_to_active_desktop t now full small True d)"
  using assms
  by (cases "dk_current d"; cases full; cases small)
    (auto simp: one_handle_def switch_to_active_desktop_def set_thread_desktop_def close_desktop_def Let_def)

text \<open>Two threads that take turns, a second apart; the handles are numbered as they are opened.\<close>

definition desk_turns :: "nat \<Rightarrow> desk" where
  "desk_turns n = foldl (\<lambda>d k. switch_to_active_desktop (k mod 2) (of_nat (1000 * (k + 1))) (Some k) None True d) new_desk [0..<n]"

lemma desk_turns_Suc:
  "desk_turns (Suc n) = switch_to_active_desktop (n mod 2) (of_nat (1000 * (n + 1))) (Some n) None True (desk_turns n)"
  by (simp add: desk_turns_def)

lemma desk_turns_state:
  "dk_open (desk_turns n) = [0..<n] \<and> dk_check (desk_turns n) = of_nat (1000 * n) \<and>
   dk_current (desk_turns n) = (if n = 0 then None else Some (n - 1)) \<and>
   (2 \<le> n \<longrightarrow> {dk_threads (desk_turns n)} \<subseteq> {[(0, n - 2), (1, n - 1)], [(0, n - 1), (1, n - 2)]} \<and>
      map_of (dk_threads (desk_turns n)) ((n - 1) mod 2) = Some (n - 1)) \<and>
   (n = 1 \<longrightarrow> dk_threads (desk_turns n) = [(0, 0)]) \<and> (n = 0 \<longrightarrow> dk_threads (desk_turns n) = [])"
proof (induction n)
  case 0
  then show ?case by (simp add: desk_turns_def new_desk_def)
next
  case (Suc n)
  have late: "\<not> (of_nat (1000 * (n + 1)) - of_nat (1000 * n) < (500 :: 32 word))"
  proof -
    have "(of_nat (1000 * (n + 1)) :: 32 word) - of_nat (1000 * n) = 1000" by simp
    then show ?thesis by simp
  qed
  consider "n = 0" | "n = 1" | "2 \<le> n" by linarith
  then show ?case
  proof cases
    case 1
    then show ?thesis by (simp add: desk_turns_Suc) (simp add: desk_turns_def new_desk_def switch_to_active_desktop_def
      set_thread_desktop_def close_desktop_def Let_def)
  next
    case 2
    with Suc have "dk_open (desk_turns 1) = [0]" "dk_check (desk_turns 1) = 1000" "dk_current (desk_turns 1) = Some 0"
      "dk_threads (desk_turns 1) = [(0, 0)]" by simp_all
    with 2 show ?thesis
      by (simp add: desk_turns_Suc switch_to_active_desktop_def set_thread_desktop_def close_desktop_def Let_def)
  next
    case 3
    then have s: "dk_open (desk_turns n) = [0..<n]" "dk_check (desk_turns n) = of_nat (1000 * n)"
      "dk_current (desk_turns n) = Some (n - 1)"
      "dk_threads (desk_turns n) = [(0, n - 2), (1, n - 1)] \<or> dk_threads (desk_turns n) = [(0, n - 1), (1, n - 2)]"
      "map_of (dk_threads (desk_turns n)) ((n - 1) mod 2) = Some (n - 1)" using Suc by auto
    let ?d = "(desk_turns n)\<lparr>dk_check := of_nat (1000 * (n + 1)), dk_open := [0..<n] @ [n]\<rparr>"
    have e: "desk_turns (Suc n) = (close_desktop (n - 1) (set_thread_desktop True (n mod 2) n ?d))\<lparr>dk_current := Some n\<rparr>"
      using late s(1-3) 3 by (simp add: desk_turns_Suc switch_to_active_desktop_def Let_def set_thread_desktop_def)
    show ?thesis
    proof (cases "even n")
      case True
      then have p: "n mod 2 = 0" "(n - 1) mod 2 = 1" using 3 by presburger+
      with s(4,5) 3 have "dk_threads (desk_turns n) = [(0, n - 2), (1, n - 1)]" by auto
      then show ?thesis unfolding e using p 3 by (simp add: set_thread_desktop_def close_desktop_def)
    next
      case False
      then have p: "n mod 2 = 1" "(n - 1) mod 2 = 0" using 3 by presburger+
      with s(4,5) 3 have "dk_threads (desk_turns n) = [(0, n - 1), (1, n - 2)]" by auto
      then show ?thesis unfolding e using p 3 by (simp add: set_thread_desktop_def close_desktop_def)
    qed
  qed
qed

text \<open>
  With two threads the global is a handle the other one still uses: no handle is ever closed, and within half a second of
  one thread's switch the other is not switched at all.
\<close>

lemma two_threads_leak_desktops: "length (dk_open (desk_turns n)) = n"
  using desk_turns_state [of n] by simp

lemma second_thread_not_switched:
  "dk_current d \<noteq> None \<Longrightarrow> now - dk_check d < 500 \<Longrightarrow> switch_to_active_desktop t now full small ok d = d"
  by (simp add: switch_to_active_desktop_def)

text \<open>A text without null character comes back from the clipboard, as long as no other program holds it.\<close>

lemma clipboard_round_trip:
  assumes "wide (c_text s) = Some w" "narrow w = c_text s"
  shows "clipboardGet narrow True True (clipboardSet wide True True s clip) = c_text s"
  using assms by (simp add: clipboardGet_def clipboard_get_text_def clipboardSet_def clipboard_set_text_def c_text_def takeWhile_takeWhile)

lemma clipboard_kept: "clipboardSet wide alloc False s clip = clip"
  by (simp add: clipboardSet_def clipboard_set_text_def split: option.split)

text \<open>The buffer of every session without a user is lost, in each heartbeat; the sessions told of are not affected.\<close>

lemma heartbeat_loses_buffers:
  assumes "list_all (\<lambda>r. case wr_query r of Some (name, len) \<Rightarrow> (2 < len) = (name \<noteq> []) | None \<Rightarrow> False) rs"
  shows "snd (enumWTSSessions rest (Inr rs) True) = length (filter (\<lambda>r. wts_username (raw_session (\<lambda>n s. s) r) = []) rs)"
proof -
  have "filter (\<lambda>r. case wr_query r of Some (name, len) \<Rightarrow> \<not> 2 < len | None \<Rightarrow> False) rs =
      filter (\<lambda>r. wts_username (raw_session (\<lambda>n s. s) r) = []) rs"
    using assms by (intro filter_cong refl) (auto simp: list_all_iff raw_session_def narrow_into_def split: option.splits)
  then show ?thesis by (simp add: enumWTSSessions_def lost_buffers_def)
qed

text \<open>The cursor is never drawn more than 32 pixels and its hot spot away from the picture.\<close>

lemma cursor_near:
  assumes "cursor_place showing pos (Some (hx, hy)) (w, h) mon = Some (x, y)"
  shows "- 32 - hx \<le> x \<and> x \<le> w + 32 - hx \<and> - 32 - hy \<le> y \<and> y \<le> h + 32 - hy"
  using assms by (auto simp: cursor_place_def Let_def split: option.splits if_splits)

text \<open>An initialisation takes the diagnosis away from the log it was directed to, and keeps the file of the one before open.\<close>

lemma diag_not_redirected:
  assumes "find id (take 3 opens) \<noteq> None"
  shows "openEncoderDiag opens (SetEncoderDiagFromLog f d) = openEncoderDiag opens d"
    "di_files ((openEncoderDiag opens ^^ k) d) = di_files d + k"
  using assms by (auto simp: openEncoderDiag_def SetEncoderDiagFromLog_def, induction k) (auto simp: openEncoderDiag_def)

end
