(* ===== verification/Spec2Isabelle.thy ===== *)
theory Spec2Isabelle
  imports Wire_Props Bitrate Relay_Props Commands Input_Props Helper_Props Capture_Props Client_Props Chat_Window_Props
    Audio_Props Cmdline_Props Windows_Props Page_Props Page_Tabs Page_App
    Chat_Page_Props Page_View_Props Mains Windows_Calls
begin

text \<open>
  Oblireach: remote access to managed machines. This development models the program, in Go with C parts,
  and proves what its components do. It follows the code as it is, its faults included: a property may state one.

  \<^bold>\<open>The parts and how they interact.\<close> The agent (src/agent) runs on the managed machine. It gets commands from the
  management server by polling or by a command WebSocket, and acts on them: it opens a tunnel to the relay and streams the screen
  of a logon session, directly or through a helper process in that session, or opens a chat window through another helper.
  The relay (src/server) pairs the WebSocket of an agent with the one of a viewer that has the same token. The client application
  (src/client-app) is the operator's desktop: a local HTTP server that forwards the requests of its page to the management server
  with the cookies of its session.

  \<^bold>\<open>Theories and code.\<close>
  \<^item> Shared: Prelude (bytes, encodings, channels), Go_Strings (strings, numbers), Float64 (Go's float64 on non-negative
    numbers), Json (values, decoding into structs), Framing (byte streams and the locale \<open>framing\<close>).
  \<^item> Relay: Session_Store (server/session.go), Relay_Auth (config.go, auth.go, signal.go), Relay (relay.go: one program counter
    for each handler, events choose who moves), Relay_Inv and Relay_Props.
  \<^item> Wire: Websocket (agent/websocket.go), Pipe (the two pipe formats), Wire_Props.
  \<^item> Agent, control: Agent_Config (main.go, machine_uuid*.go), Agent_Sessions (sessions_*.go and the registry of streams),
    Chat (chat.go), Commands (push.go, cmd_ws.go), Bitrate (the adaptive controller of stream.go).
  \<^item> Agent, video: Color and Annexb (the conversions), Encoders and Wmf (encode_*.go with their C parts), Encoder_Contract
    (the locale \<open>encoder_module\<close> and its four interpretations), Video, Video_Inv, Video_Props (the choice of an encoder),
    Capture, Capture_Unix, Capture_Props (capture_*.go with their C parts).
  \<^item> Agent, streams: Input, Input_Backends, Input_Props (input_*.go, dispatchInputJSON), Stream, Stream_Inv, Stream_Props and
    Switch_Props (stream.go), Helper and Helper_Props (remote_session_windows.go: helper and relay of a helper).
  \<^item> Agent, Windows session: Chat_Window, Chat_Window_Props (chat_windows.go: the helper with the user's chat window), Chat_Page,
    Chat_Page_Props (its page: buildChatHTML and the script), Audio, Audio_Props (audio_windows.go), Cmdline, Cmdline_Props
    (command lines of the helpers and flag parsing of main.go), Windows_Glue (spawning, service, self update), Overlay
    (watermark, toasts), Windows_Props, Windows_Calls (input desktop, clipboard, session list, diagnosis files).
  \<^item> Client, page: Page_Remote (the viewer of the script in client-app/ui.go, from selecting a device to pointer and keys), Page_Chat
    (its chat), Page_App (signing in, devices, scripts, annotations), Page_View, Page_View_Props (the text built in Go, panes and
    their markup, displays, signing out); Page_Props (page and agent together), Page_Tabs (runs of the viewer).
  \<^item> Mains: server/main.go and client-app/main.go, the programs as they are started.
  \<^item> Client: Client_Session, Client_Proxy, Client_Tunnel, Client_Inv, Client_Props (client-app/proxy.go, main.go).

  \<^bold>\<open>State and operations.\<close> Structs and globals are records with the names of the source, shortened where records would clash.
  A function of the source is a definition of the same name where that is free. Goroutines become
  steps: each event names what moves, a run folds a list of events, so every theorem over runs covers every interleaving
  at the grain of one handler step. A call that waits for another machine is two steps. Errors are
  sums or options; a Go panic and a null dereference in C are results of their own. Integers that can wrap are words or have
  the wrap written out; Go's \<open>int\<close> is \<open>int\<close> where the code keeps it small.

  \<^bold>\<open>What the lemmas show.\<close>
  \<^item> Relay: the invariant of pairing and of the origin of frames over all interleavings, the store's bound, tokens and admission.
  \<^item> Wire: a framing reads back what it wrote, in order, and a cut message is an error; interpreted for WebSocket frames and both pipes.
  \<^item> Agent control: the device UUID, the registry of streams and chats under all commands, the reconnection delays, the
    equivalence of the command loop with its reactions one by one.
  \<^item> Video and streams: the float controller refines an integer specification; each encoder module obeys the contract, so
    no buffer overflows in a stream; every message has the type of the codec in use; a stopped stream writes nothing more;
    the helper's stream shows what a direct one shows.
  \<^item> Agent, Windows session: helpers start as asked, an operator's message up to the text of its row in the user's window, the size
    of that window over all runs, the samples of an audio packet, objects released by spawning, the order of the service's
    states, when the watermark is shown, and what is lost by handles and buffers.
  \<^item> Page: what is typed, pointed at and decoded in the page is what the agent means and gets, the invariant of tabs and
    sockets over all runs, what sessions share and should not, which chats are named, where a sign-in goes, what signing out
    leaves, and which texts become markup.
  \<^item> Programs: a token issued by a relay, as it was started, admits its viewer to its session.
  \<^item> Client: the session and configuration survive a restart, a cookie reaches only the server it came from unless a request
    was in flight at the change, and what the WebSocket tunnel loses.

  \<^bold>\<open>Bounds and fuel.\<close> Loops of the source are recursive functions with a termination proof. The reader loop of a framing
  takes fuel, and one unit for each byte of the stream is enough (lemma \<open>read_loop_stream\<close>).
  The constants (pipe limit, channel capacities, timeouts, sizes of buffers) are those of the source.

  \<^bold>\<open>Parameters.\<close> What the operating system, codec libraries, GPU and network answer is an argument of the operation that
  asks; so are the JSON parser's result, the keyed hash (HMAC-SHA256), URL parsing and the random source.
  Hypotheses on them state documented behaviour and have witnesses.

  \<^bold>\<open>Not modelled.\<close>
  \<^item> Style sheets, layout and drawing: of client-app/ui.go and of the chat window the CSS and the constant HTML, which are parameters
    where values are put between them; what the browser paints, records and plays; what the watermark and the toasts paint.
  \<^item> Declarations of foreign libraries (structs and function pointers of OpenH264, libvpx, x265 and SVT-AV1) and the generated
    Windows resources: the calls are parameters.
  \<^item> The mux, listeners and TLS of the standard library and the WebView2 window, beyond what the programs ask of them.
  \<^item> Goroutines that share a map or a handle at once, below the grain of a step: findings of the manifest, not steps.
  \<^item> One-line readers of state (\<open>captureWidth\<close>, \<open>captureMonitorOffset\<close> on Linux and macOS), the copies of C structs into the Go structs of
    the same fields, the opening of log files, and the strokes of the annotations in client-app/ui.go (their history is modelled).
\<close>

end
